(* ===== verification/ZVM_Prelude.thy ===== *)
theory ZVM_Prelude
  imports Main "HOL-Library.Word"
begin

text \<open>
  Shared vocabulary of the ZVM development: the machine integers of the C
  sources, the error numbers of Zephyr's libc, the bit macros of
  \<^verbatim>\<open>sys/util_macro.h\<close>, the outcome type of operations that may dereference a
  null pointer, leave an array or fail an assertion, and the list and word
  lemmas that the component theories rely on.
\<close>

unbundle bit_operations_syntax

named_theorems zvm_simps \<open>rewrite rules shared by the component proofs\<close>
named_theorems zvm_word \<open>facts on single bits of machine words\<close>

section \<open>Machine integers and constants\<close>

type_synonym u8 = "8 word"
type_synonym u16 = "16 word"
type_synonym u32 = "32 word"
type_synonym u64 = "64 word"

text \<open>The error numbers of \<^verbatim>\<open>lib/libc/minimal/include/errno.h\<close>.\<close>

definition ENOENT :: int where "ENOENT = 2"
definition ESRCH :: int where "ESRCH = 3"
definition EINTR :: int where "EINTR = 4"
definition ENXIO :: int where "ENXIO = 6"
definition ENOMEM :: int where "ENOMEM = 12"
definition EFAULT :: int where "EFAULT = 14"
definition EBUSY :: int where "EBUSY = 16"
definition ENODEV :: int where "ENODEV = 19"
definition EINVAL :: int where "EINVAL = 22"
definition ENOSPC :: int where "ENOSPC = 28"
definition EOVERFLOW :: int where "EOVERFLOW = 139"

lemmas errno_defs [zvm_simps] = ENOENT_def ESRCH_def EINTR_def ENXIO_def ENOMEM_def EFAULT_def
  EBUSY_def ENODEV_def EINVAL_def ENOSPC_def EOVERFLOW_def

text \<open>\<^verbatim>\<open>BIT(n)\<close> is \<^verbatim>\<open>1UL << n\<close> and \<^verbatim>\<open>BIT_MASK(n)\<close> is \<^verbatim>\<open>BIT(n) - 1UL\<close>, both
  64 bits wide on the target.\<close>

definition BIT :: "nat \<Rightarrow> u64" where
  "BIT n = push_bit n 1"

definition BIT_MASK :: "nat \<Rightarrow> u64" where
  "BIT_MASK n = BIT n - 1"

section \<open>Outcomes\<close>

text \<open>An operation either returns, or runs into behaviour the C standard
  leaves undefined (null dereference, array index out of range), or fails an
  \<^verbatim>\<open>__ASSERT\<close> (which stops the system).\<close>

datatype 'a outcome = Done 'a | Fault | Assertion

fun bind_outcome :: "'a outcome \<Rightarrow> ('a \<Rightarrow> 'b outcome) \<Rightarrow> 'b outcome" where
  "bind_outcome (Done x) f = f x"
| "bind_outcome Fault f = Fault"
| "bind_outcome Assertion f = Assertion"

lemma bind_outcome_Done_iff [simp]:
  "bind_outcome r f = Done y \<longleftrightarrow> (\<exists>x. r = Done x \<and> f x = Done y)"
  by (cases r) auto

lemma bind_outcome_cong [fundef_cong]:
  assumes "r = r'" "\<And>x. r' = Done x \<Longrightarrow> f x = f' x"
  shows "bind_outcome r f = bind_outcome r' f'"
  using assms by (cases r') auto

section \<open>Searching a range of indices\<close>

lemma find_upt_Some_iff:
  "List.find P [a..<b] = Some i \<longleftrightarrow> a \<le> i \<and> i < b \<and> P i \<and> (\<forall>j. a \<le> j \<and> j < i \<longrightarrow> \<not> P j)"
proof (induction "b - a" arbitrary: a)
  case 0
  then show ?case by auto
next
  case (Suc d)
  then have ab: "a < b" and d: "d = b - Suc a" by auto
  show ?case
  proof (cases "P a")
    case True
    then show ?thesis
      using ab by (auto simp: upt_conv_Cons)
  next
    case False
    then have "List.find P [a..<b] = List.find P [Suc a..<b]"
      using ab by (simp add: upt_conv_Cons)
    then show ?thesis
      using Suc.hyps(1)[OF d] False
      by (metis Suc_leD Suc_leI le_neq_implies_less)
  qed
qed

lemma find_upt_None_iff:
  "List.find P [a..<b] = None \<longleftrightarrow> (\<forall>i. a \<le> i \<and> i < b \<longrightarrow> \<not> P i)"
  by (auto simp: find_None_iff)

lemma find_append:
  "List.find P (xs @ ys) = (case List.find P xs of None \<Rightarrow> List.find P ys | Some x \<Rightarrow> Some x)"
  by (induction xs) auto

section \<open>Bits of words\<close>

lemma and_exp_eq_0 [zvm_word]:
  assumes "n < LENGTH('a::len)"
  shows "2 ^ n AND (w :: 'a word) = 0 \<longleftrightarrow> \<not> bit w n"
    and "w AND 2 ^ n = 0 \<longleftrightarrow> \<not> bit w n"
  using assms by (auto simp: bit_eq_iff[where ?'a="'a word"] bit_and_iff bit_exp_iff)

lemma bit_or_exp [zvm_word]:
  "bit (w OR 2 ^ n :: 'a::len word) k \<longleftrightarrow> bit w k \<or> k = n \<and> k < LENGTH('a)"
  by (auto simp: bit_or_iff bit_exp_iff)

lemma bit_and_not_exp [zvm_word]:
  "bit (w AND NOT (2 ^ n) :: 'a::len word) k \<longleftrightarrow> bit w k \<and> k \<noteq> n"
  by (auto simp: bit_and_iff bit_not_iff bit_exp_iff dest: bit_imp_le_length)

text \<open>Shifting a non-zero word left makes progress towards zero: the number of
  shifts it survives decreases. Loops driven by \<^verbatim>\<open>id <<= 1\<close> terminate by this
  measure.\<close>

definition shifts_left :: "'a::len word \<Rightarrow> nat" where
  "shifts_left w = card {n. push_bit n w \<noteq> 0}"

lemma push_bit_eq_zero_beyond:
  "\<not> n < LENGTH('a) \<Longrightarrow> push_bit n (w :: 'a::len word) = 0"
  by (rule bit_word_eqI) (simp add: bit_push_bit_iff)

lemma shifts_left_finite: "finite {n. push_bit n (w :: 'a::len word) \<noteq> 0}"
proof (rule finite_subset)
  show "{n. push_bit n w \<noteq> 0} \<subseteq> {..<LENGTH('a)}"
    using push_bit_eq_zero_beyond by blast
qed simp

lemma shifts_left_push_bit:
  assumes "w \<noteq> (0 :: 'a::len word)"
  shows "shifts_left (push_bit 1 w) < shifts_left w"
proof -
  let ?S = "{n. push_bit n w \<noteq> 0}" and ?T = "{n. push_bit n (push_bit 1 w) \<noteq> 0}"
  have "Suc ` ?T \<subseteq> ?S - {0}" by auto
  moreover have "0 \<in> ?S" using assms by simp
  ultimately have "card (Suc ` ?T) < card ?S"
    by (intro psubset_card_mono shifts_left_finite) auto
  then show ?thesis by (simp add: shifts_left_def card_image)
qed

lemma shifts_left_double: "w \<noteq> (0 :: 'a::len word) \<Longrightarrow> shifts_left (w * 2) < shifts_left w"
  using shifts_left_push_bit[of w] by simp

lemma unat_exp: "n < LENGTH('a::len) \<Longrightarrow> unat (2 ^ n :: 'a word) = 2 ^ n"
proof -
  assume "n < LENGTH('a)"
  then have "unat (of_nat (2 ^ n) :: 'a word) = 2 ^ n"
    unfolding unat_of_nat by (intro mod_less power_strict_increasing) simp_all
  then show ?thesis by simp
qed

lemma exp_less_word_iff [zvm_word]:
  assumes "m < LENGTH('a::len)" "n < LENGTH('a)"
  shows "(2 ^ m :: 'a word) < 2 ^ n \<longleftrightarrow> m < n"
  using assms by (simp add: word_less_nat_alt unat_exp)

lemma unat_ucast_32_64: "unat (ucast (x :: u32) :: u64) = unat x"
proof -
  have "unat x < 2 ^ 32" using unsigned_less[of x] by simp
  then have "take_bit 64 (unat x) = unat x" by (intro take_bit_nat_eq_self) simp
  then show ?thesis by (simp add: unsigned_ucast_eq)
qed

lemma ucast_BIT:
  assumes "LENGTH('a::len) \<le> 64"
  shows "(ucast (BIT n) :: 'a word) = (if n < LENGTH('a) then 2 ^ n else 0)"
  using assms by (auto simp: BIT_def bit_exp_iff bit_ucast_iff intro!: bit_word_eqI)

lemma ucast_and_BIT_eq_0:
  assumes "n < LENGTH('a::len)" "LENGTH('a) \<le> 64"
  shows "(ucast (w :: 'a word) :: u64) AND BIT n = 0 \<longleftrightarrow> \<not> bit w n"
  using assms by (simp add: BIT_def zvm_word bit_ucast_iff)

lemma ucast_and_not_BIT:
  assumes "n < LENGTH('a::len)" "LENGTH('a) \<le> 64"
  shows "(ucast ((ucast (w :: 'a word) :: u64) AND NOT (BIT n)) :: 'a word) = w AND NOT (2 ^ n)"
  using assms by (auto simp: BIT_def zvm_word bit_ucast_iff bit_simps intro!: bit_word_eqI)

lemma bit_BIT_MASK: "bit (BIT_MASK n) k \<longleftrightarrow> k < n \<and> k < 64"
  by (simp add: BIT_MASK_def BIT_def mask_eq_exp_minus_1[symmetric] bit_mask_iff conj_commute)

lemma card_unat_less:
  assumes "n \<le> 2 ^ LENGTH('a::len)"
  shows "card {w :: 'a word. unat w < n} = n"
proof -
  have "bij_betw (of_nat :: nat \<Rightarrow> 'a word) {..<n} {w. unat w < n}"
    using assms by (intro bij_betw_byWitness[where f' = unat]) (auto simp: unat_of_nat)
  from bij_betw_same_card[OF this] show ?thesis by simp
qed

lemma unat_add_no_wrap:
  "unat a + unat (b :: 'a::len word) < 2 ^ LENGTH('a) \<Longrightarrow> unat (a + b) = unat a + unat b"
  using unat_add_lem[of a b] by blast

lemma uint_neq_minus_one [simp]: "uint (w :: 'a::len word) \<noteq> -1"
proof -
  have "0 \<le> uint w" by simp
  then show ?thesis by linarith
qed

lemma unat_of_nat_small: "n < 2 ^ LENGTH('a) \<Longrightarrow> unat (of_nat n :: 'a::len word) = n"
  by (simp add: unat_of_nat)

section \<open>What holds of the results of a computation that ends\<close>

definition on_done :: "'a outcome \<Rightarrow> ('a \<Rightarrow> bool) \<Rightarrow> bool" where
  "on_done r P = (case r of Done x \<Rightarrow> P x | _ \<Rightarrow> True)"

lemma on_done_simps [simp]: "on_done (Done x) P = P x" "on_done Fault P" "on_done Assertion P"
  by (simp_all add: on_done_def)

lemma on_doneD: "on_done r P \<Longrightarrow> r = Done x \<Longrightarrow> P x"
  by simp

lemma on_doneI: "(\<And>x. r = Done x \<Longrightarrow> P x) \<Longrightarrow> on_done r P"
  by (cases r) auto

lemma on_done_bind:
  assumes "on_done r Q" "\<And>x. r = Done x \<Longrightarrow> Q x \<Longrightarrow> on_done (f x) P"
  shows "on_done (bind_outcome r f) P"
  using assms by (cases r) auto

lemma on_done_mono: "on_done r Q \<Longrightarrow> (\<And>x. Q x \<Longrightarrow> P x) \<Longrightarrow> on_done r P"
  by (cases r) auto

end
