(* ===== verification/Id_Pool.thy ===== *)
theory Id_Pool
  imports ZVM_Prelude
begin

text \<open>
  The interface of an identifier pool: VM identifiers (\<^verbatim>\<open>zvm.h\<close>) and the units
  of the shared memory (\<^verbatim>\<open>zshm.c\<close>) are handed out and taken back this way. The provider promises that an allocation yields an identifier that
  is not in use while one is left, and that a release makes exactly that
  identifier available again. The client lemmas follow an arbitrary sequence
  of requests and show that the holders of identifiers never collide.
\<close>

datatype 'i pool_op = Acquire | Return 'i

locale id_pool =
  fixes ids :: "'s \<Rightarrow> 'i set"
    and universe :: "'s \<Rightarrow> 'i set"
    and inv :: "'s \<Rightarrow> bool"
    and acquire :: "'s \<Rightarrow> 'i \<times> 's"
    and give_back :: "'i \<Rightarrow> 's \<Rightarrow> 's"
  assumes acquire_some:
    "\<lbrakk>inv s; ids s \<noteq> universe s; acquire s = (i, s')\<rbrakk> \<Longrightarrow>
      i \<in> universe s - ids s \<and> ids s' = insert i (ids s) \<and> universe s' = universe s \<and> inv s'"
    and acquire_full:
    "\<lbrakk>inv s; ids s = universe s; acquire s = (i, s')\<rbrakk> \<Longrightarrow> i \<notin> universe s \<and> s' = s"
    and give_back_ids: "inv s \<Longrightarrow> ids (give_back i s) = ids s - {i}"
    and give_back_universe: "inv s \<Longrightarrow> universe (give_back i s) = universe s"
    and give_back_inv: "inv s \<Longrightarrow> inv (give_back i s)"
    and ids_sub: "inv s \<Longrightarrow> ids s \<subseteq> universe s"
begin

text \<open>The requests of a sequence one after the other. The second component
  collects the identifiers that were handed out and not returned since, newest
  first.\<close>

fun serve :: "'i pool_op \<Rightarrow> 's \<times> 'i list \<Rightarrow> 's \<times> 'i list" where
  "serve Acquire (s, held) =
    (let (i, s') = acquire s in (s', if i \<in> universe s then i # held else held))"
| "serve (Return i) (s, held) = (give_back i s, removeAll i held)"

lemma serve_step:
  assumes "inv s" "set held = ids s" "distinct held" "serve r (s, held) = (s', held')"
  shows "inv s' \<and> set held' = ids s' \<and> distinct held' \<and> universe s' = universe s"
proof (cases r)
  case Acquire
  obtain i t where a: "acquire s = (i, t)" by force
  show ?thesis
  proof (cases "ids s = universe s")
    case True
    with acquire_full[OF assms(1) True a] Acquire a assms show ?thesis by auto
  next
    case False
    with acquire_some[OF assms(1) False a] Acquire a assms show ?thesis by auto
  qed
next
  case (Return i)
  then show ?thesis
    using assms give_back_ids give_back_universe give_back_inv by (auto simp: distinct_removeAll)
qed

theorem serve_all:
  assumes "inv s" "set held = ids s" "distinct held" "fold serve rs (s, held) = (s', held')"
  shows "inv s' \<and> set held' = ids s' \<and> distinct held' \<and> universe s' = universe s"
  using assms
proof (induction rs arbitrary: s held)
  case Nil
  then show ?case by simp
next
  case (Cons r rs)
  obtain t h where st: "serve r (s, held) = (t, h)" by force
  with serve_step[OF Cons.prems(1-3) st] Cons.IH[of t h] Cons.prems(4) show ?case by simp
qed

corollary held_bounded:
  assumes "inv s" "ids s = {}" "fold serve rs (s, []) = (s', held)" "finite (universe s)"
  shows "distinct held \<and> length held \<le> card (universe s)"
proof -
  have *: "inv s' \<and> set held = ids s' \<and> distinct held \<and> universe s' = universe s"
    using serve_all[OF assms(1) _ _ assms(3)] assms(2) by simp
  then have "set held \<subseteq> universe s" using ids_sub[of s'] by simp
  then have "card (set held) \<le> card (universe s)" by (rule card_mono[OF assms(4)])
  then show ?thesis using * distinct_card[of held] by simp
qed

end

end
