(* ===== verification/Vmid.thy ===== *)
theory Vmid
  imports Id_Pool
begin

text \<open>
  The manager's global record (\<^verbatim>\<open>struct zvm_manage_info\<close>) and the allocation of
  VM identifiers of \<^verbatim>\<open>include/zephyr/zvm/zvm.h\<close>: a 32-bit set of allocated
  identifiers searched by a shifting loop. The array \<^verbatim>\<open>vms\<close> has
  \<^verbatim>\<open>CONFIG_MAX_VM_NUM\<close> elements, so its length is that configuration value.
  The loop is kept at its width, which matters for the largest value that
  Kconfig admits. Spin locks are not modelled: each operation is one atomic
  step.
\<close>

section \<open>State\<close>

record zvm_hwsys_info =
  cpu_type :: string
  phy_cpu_num :: u16
  phy_mem :: u64
  phy_mem_used :: u64

record zvm_manage_info =
  hw_info :: zvm_hwsys_info
  vms :: "nat option list"
  alloced_vmid :: u32
  vm_total_num :: u32
  vcpu_use :: "int list"

abbreviation CONFIG_MAX_VM_NUM :: "zvm_manage_info \<Rightarrow> nat" where
  "CONFIG_MAX_VM_NUM s \<equiv> length (vms s)"

section \<open>Operations\<close>

definition is_vmid_full :: "zvm_manage_info \<Rightarrow> bool" where
  "is_vmid_full s \<longleftrightarrow> (ucast (alloced_vmid s) :: u64) = BIT_MASK (CONFIG_MAX_VM_NUM s)"

text \<open>The loop of \<^verbatim>\<open>find_next_vmid\<close>: \<^verbatim>\<open>id\<close> is shifted and \<^verbatim>\<open>*vmid\<close> counted until a
  bit of \<^verbatim>\<open>alloced_vmid\<close> is clear. The result says whether one was found.\<close>

function find_next_vmid_loop :: "u32 \<Rightarrow> u32 \<Rightarrow> u32 \<Rightarrow> u32 \<Rightarrow> bool \<times> u32 \<times> u32" where
  "find_next_vmid_loop maxid alloced id' vmid =
    (if id' < maxid
     then if id' AND alloced = 0 then (True, id', vmid)
          else find_next_vmid_loop maxid alloced (push_bit 1 id') (vmid + 1)
     else (False, id', vmid))"
  by pat_completeness auto
termination
  by (relation "measure (\<lambda>(maxid, alloced, id', vmid). shifts_left id')")
    (auto intro!: shifts_left_double)

declare find_next_vmid_loop.simps [simp del]

definition find_next_vmid :: "zvm_manage_info \<Rightarrow> u32 \<times> u32 \<times> zvm_manage_info" where
  "find_next_vmid s =
    (let maxid = ucast (BIT (CONFIG_MAX_VM_NUM s)) in
     case find_next_vmid_loop maxid (alloced_vmid s) (ucast (BIT 0)) 0 of
       (True, id', vmid) \<Rightarrow> (0, vmid, s\<lparr>alloced_vmid := alloced_vmid s OR id'\<rparr>)
     | (False, id', vmid) \<Rightarrow> (of_int (- EOVERFLOW), vmid, s))"

definition allocate_vmid :: "zvm_manage_info \<Rightarrow> u32 \<times> zvm_manage_info" where
  "allocate_vmid s =
    (if is_vmid_full s then (of_nat (CONFIG_MAX_VM_NUM s), s)
     else case find_next_vmid s of (err, res, s') \<Rightarrow>
       if err \<noteq> 0 then (of_nat (CONFIG_MAX_VM_NUM s), s')
       else (res, s'\<lparr>vm_total_num := vm_total_num s' + 1\<rparr>))"

definition free_vmid :: "u32 \<Rightarrow> zvm_manage_info \<Rightarrow> int \<times> zvm_manage_info" where
  "free_vmid vmid s =
    (if CONFIG_MAX_VM_NUM s \<le> unat vmid then (- EINVAL, s)
     else if (ucast (alloced_vmid s) :: u64) AND BIT (unat vmid) = 0 then (- ENOENT, s)
     else (0, s\<lparr>alloced_vmid := ucast ((ucast (alloced_vmid s) :: u64) AND NOT (BIT (unat vmid))),
               vm_total_num := vm_total_num s - 1\<rparr>))"

definition get_vm_by_id :: "u32 \<Rightarrow> zvm_manage_info \<Rightarrow> nat option" where
  "get_vm_by_id vmid s = (if CONFIG_MAX_VM_NUM s \<le> unat vmid then None else vms s ! unat vmid)"

section \<open>Abstraction and invariant\<close>

definition vm_ids :: "zvm_manage_info \<Rightarrow> u32 set" where
  "vm_ids s = {i. unat i < 32 \<and> bit (alloced_vmid s) (unat i)}"

definition vmid_universe :: "zvm_manage_info \<Rightarrow> u32 set" where
  "vmid_universe s = {i. unat i < CONFIG_MAX_VM_NUM s}"

definition vmid_inv :: "zvm_manage_info \<Rightarrow> bool" where
  "vmid_inv s \<longleftrightarrow> CONFIG_MAX_VM_NUM s < 32 \<and> vm_ids s \<subseteq> vmid_universe s
     \<and> vm_total_num s = of_nat (card (vm_ids s))"

section \<open>The search\<close>

lemma find_next_vmid_loop_find:
  assumes "n < 32" "k \<le> n"
  shows "find_next_vmid_loop (2 ^ n) a (2 ^ k) (of_nat k) =
    (case List.find (\<lambda>i. \<not> bit a i) [k..<n] of
       Some i \<Rightarrow> (True, 2 ^ i, of_nat i) | None \<Rightarrow> (False, 2 ^ n, of_nat n))"
  using assms(2)
proof (induction "n - k" arbitrary: k)
  case 0
  then show ?case by (subst find_next_vmid_loop.simps) simp
next
  case (Suc d)
  have less: "(2 ^ k :: u32) < 2 ^ n"
    using Suc.hyps(2) assms(1) by (simp add: exp_less_word_iff)
  have upt: "[k..<n] = k # [Suc k..<n]"
    using Suc.hyps(2) by (simp add: upt_conv_Cons)
  show ?case
    using Suc.hyps(1)[of "Suc k"] Suc.hyps(2) assms(1) less
    by (subst find_next_vmid_loop.simps) (simp add: upt zvm_word mult.commute add.commute)
qed

lemma is_vmid_full_iff:
  assumes "vmid_inv s"
  shows "is_vmid_full s \<longleftrightarrow> (\<forall>i<CONFIG_MAX_VM_NUM s. bit (alloced_vmid s) i)"
proof -
  have "i < CONFIG_MAX_VM_NUM s" if "bit (alloced_vmid s) i" for i
  proof -
    have "i < 32" using bit_imp_le_length[OF that] by simp
    then show ?thesis
      using assms that subsetD[of "vm_ids s" "vmid_universe s" "of_nat i"]
      by (simp add: vmid_inv_def vm_ids_def vmid_universe_def unat_of_nat)
  qed
  moreover have "CONFIG_MAX_VM_NUM s < 32" using assms by (simp add: vmid_inv_def)
  ultimately show ?thesis
    unfolding is_vmid_full_def bit_eq_iff bit_BIT_MASK bit_ucast_iff by fastforce
qed

lemma allocate_vmid_none:
  assumes "vmid_inv s" "\<forall>i<CONFIG_MAX_VM_NUM s. bit (alloced_vmid s) i"
  shows "allocate_vmid s = (of_nat (CONFIG_MAX_VM_NUM s), s)"
  using assms by (simp add: allocate_vmid_def is_vmid_full_iff)

lemma allocate_vmid_least:
  assumes "vmid_inv s" "i < CONFIG_MAX_VM_NUM s" "\<not> bit (alloced_vmid s) i"
    "\<forall>j<i. bit (alloced_vmid s) j"
  shows "allocate_vmid s = (of_nat i,
    s\<lparr>alloced_vmid := alloced_vmid s OR 2 ^ i, vm_total_num := vm_total_num s + 1\<rparr>)"
proof -
  have n: "CONFIG_MAX_VM_NUM s < 32" using assms(1) by (simp add: vmid_inv_def)
  have "List.find (\<lambda>i. \<not> bit (alloced_vmid s) i) [0..<CONFIG_MAX_VM_NUM s] = Some i"
    using assms by (simp add: find_upt_Some_iff)
  then have "find_next_vmid_loop (2 ^ CONFIG_MAX_VM_NUM s) (alloced_vmid s) 1 0 = (True, 2 ^ i, of_nat i)"
    using find_next_vmid_loop_find[OF n, of 0] by simp
  moreover have "\<not> is_vmid_full s" using assms by (auto simp: is_vmid_full_iff)
  ultimately show ?thesis
    using n by (simp add: allocate_vmid_def find_next_vmid_def ucast_BIT)
qed

lemma vm_ids_or_exp:
  assumes "i < 32"
  shows "vm_ids (s\<lparr>alloced_vmid := alloced_vmid s OR 2 ^ i, vm_total_num := t\<rparr>)
    = insert (of_nat i) (vm_ids s)"
  using assms by (auto simp: vm_ids_def zvm_word unat_of_nat)

lemma vm_ids_and_not_exp:
  assumes "unat i < 32"
  shows "vm_ids (s\<lparr>alloced_vmid := alloced_vmid s AND NOT (2 ^ unat i), vm_total_num := t\<rparr>)
    = vm_ids s - {i}"
  using assms by (auto simp: vm_ids_def zvm_word word_unat_eq_iff)

lemma vm_ids_finite: "finite (vm_ids s)"
  by simp

lemma vmid_universe_finite: "finite (vmid_universe s)"
  by simp

lemma vm_ids_full_iff:
  assumes "vmid_inv s"
  shows "vm_ids s = vmid_universe s \<longleftrightarrow> (\<forall>i<CONFIG_MAX_VM_NUM s. bit (alloced_vmid s) i)"
proof
  assume eq: "vm_ids s = vmid_universe s"
  show "\<forall>i<CONFIG_MAX_VM_NUM s. bit (alloced_vmid s) i"
  proof (intro allI impI)
    fix i assume "i < CONFIG_MAX_VM_NUM s"
    moreover from this have "i < 32" using assms by (simp add: vmid_inv_def)
    ultimately have "of_nat i \<in> vm_ids s" unfolding eq by (simp add: vmid_universe_def unat_of_nat)
    then show "bit (alloced_vmid s) i" using \<open>i < 32\<close> by (simp add: vm_ids_def unat_of_nat)
  qed
next
  assume "\<forall>i<CONFIG_MAX_VM_NUM s. bit (alloced_vmid s) i"
  then show "vm_ids s = vmid_universe s"
    using assms by (auto simp: vmid_inv_def vm_ids_def vmid_universe_def)
qed

lemma free_vmid_allocated:
  assumes "vmid_inv s" "i \<in> vm_ids s"
  shows "free_vmid i s = (0,
    s\<lparr>alloced_vmid := alloced_vmid s AND NOT (2 ^ unat i), vm_total_num := vm_total_num s - 1\<rparr>)"
  using assms
  by (auto simp: free_vmid_def vmid_inv_def vm_ids_def vmid_universe_def ucast_and_BIT_eq_0
      ucast_and_not_BIT)

lemma free_vmid_not_allocated:
  assumes "vmid_inv s" "i \<notin> vm_ids s"
  shows "free_vmid i s = ((if i \<in> vmid_universe s then - ENOENT else - EINVAL), s)"
  using assms
  by (auto simp: free_vmid_def vmid_inv_def vm_ids_def vmid_universe_def ucast_and_BIT_eq_0)

lemma vmid_inv_alloc:
  assumes "vmid_inv s" "vm_ids s \<noteq> vmid_universe s"
  obtains i where "i < CONFIG_MAX_VM_NUM s" "of_nat i \<notin> vm_ids s" "\<forall>j<i. of_nat j \<in> vm_ids s"
    "allocate_vmid s = (of_nat i,
      s\<lparr>alloced_vmid := alloced_vmid s OR 2 ^ i, vm_total_num := vm_total_num s + 1\<rparr>)"
proof -
  have n: "CONFIG_MAX_VM_NUM s < 32" using assms(1) by (simp add: vmid_inv_def)
  let ?P = "\<lambda>i. i < CONFIG_MAX_VM_NUM s \<and> \<not> bit (alloced_vmid s) i"
  have "\<exists>i. ?P i" using assms vm_ids_full_iff by blast
  then obtain i where i: "?P i" and "\<forall>j<i. \<not> ?P j"
    using exists_least_iff[of ?P] by blast
  then have least: "\<forall>j<i. bit (alloced_vmid s) j" by auto
  have "of_nat i \<notin> vm_ids s" "\<forall>j<i. of_nat j \<in> vm_ids s"
    using i least n by (auto simp: vm_ids_def unat_of_nat)
  then show ?thesis using that i allocate_vmid_least[OF assms(1) _ _ least] by blast
qed

lemma vmid_inv_free: "vmid_inv s \<Longrightarrow> vmid_inv (snd (free_vmid i s))"
proof (cases "i \<in> vm_ids s")
  case True
  assume inv: "vmid_inv s"
  have "unat i < 32" using True by (simp add: vm_ids_def)
  moreover have "of_nat (card (vm_ids s - {i})) = (of_nat (card (vm_ids s)) - 1 :: u32)"
    using card_Suc_Diff1[OF vm_ids_finite True] by (metis add_diff_cancel_left' of_nat_Suc)
  ultimately show ?thesis
    using inv free_vmid_allocated[OF inv True] vm_ids_and_not_exp
    by (auto simp: vmid_inv_def vmid_universe_def)
next
  case False
  assume "vmid_inv s"
  then show ?thesis using free_vmid_not_allocated[OF _ False] by simp
qed

lemma vm_ids_free: "vmid_inv s \<Longrightarrow> vm_ids (snd (free_vmid i s)) = vm_ids s - {i}"
proof (cases "i \<in> vm_ids s")
  case True
  assume inv: "vmid_inv s"
  have "unat i < 32" using True by (simp add: vm_ids_def)
  then show ?thesis using free_vmid_allocated[OF inv True] by (simp add: vm_ids_and_not_exp)
qed (simp add: free_vmid_not_allocated)

lemma vms_free [simp]: "vms (snd (free_vmid i s)) = vms s"
  by (simp add: free_vmid_def)

lemma vmid_inv_acquire:
  assumes "vmid_inv s" "vm_ids s \<noteq> vmid_universe s" "allocate_vmid s = (i, s')"
  shows "i \<in> vmid_universe s - vm_ids s \<and> vm_ids s' = insert i (vm_ids s)
    \<and> vmid_universe s' = vmid_universe s \<and> vmid_inv s'"
proof -
  obtain k where k: "k < CONFIG_MAX_VM_NUM s" "of_nat k \<notin> vm_ids s"
    "allocate_vmid s = (of_nat k,
      s\<lparr>alloced_vmid := alloced_vmid s OR 2 ^ k, vm_total_num := vm_total_num s + 1\<rparr>)"
    using vmid_inv_alloc[OF assms(1,2)] by blast
  have "k < 32" using k(1) assms(1) by (simp add: vmid_inv_def)
  then have ids: "vm_ids s' = insert i (vm_ids s)" and i: "i = of_nat k" "unat i = k"
    using k(3) assms(3) by (auto simp: vm_ids_or_exp unat_of_nat)
  have "vms s' = vms s" "vm_total_num s' = vm_total_num s + 1" using k(3) assms(3) by auto
  then show ?thesis
    using assms(1) k ids i by (auto simp: vmid_inv_def vmid_universe_def)
qed

lemma vmid_inv_full:
  assumes "vmid_inv s" "vm_ids s = vmid_universe s" "allocate_vmid s = (i, s')"
  shows "unat i = CONFIG_MAX_VM_NUM s \<and> s' = s"
proof -
  have "CONFIG_MAX_VM_NUM s < 32" using assms(1) by (simp add: vmid_inv_def)
  moreover have "allocate_vmid s = (of_nat (CONFIG_MAX_VM_NUM s), s)"
    using allocate_vmid_none[OF assms(1)] assms(2) vm_ids_full_iff[OF assms(1)] by simp
  ultimately show ?thesis using assms(3) by (auto simp: unat_of_nat)
qed

section \<open>VM identifiers form an identifier pool\<close>

interpretation vmid_pool: id_pool vm_ids vmid_universe vmid_inv allocate_vmid
  "\<lambda>i s. snd (free_vmid i s)"
proof (unfold_locales, goal_cases)
  case (1 s i s')
  then show ?case by (rule vmid_inv_acquire)
next
  case (2 s i s')
  then show ?case using vmid_inv_full[OF 2] by (simp add: vmid_universe_def)
next
  case (3 s i)
  then show ?case by (rule vm_ids_free)
next
  case (4 s i)
  then show ?case by (simp add: vmid_universe_def)
next
  case (5 s i)
  then show ?case by (rule vmid_inv_free)
next
  case (6 s)
  then show ?case by (simp add: vmid_inv_def)
qed

section \<open>Properties\<close>


definition zvm_info_3 :: zvm_manage_info where
  "zvm_info_3 = \<lparr>hw_info = \<lparr>cpu_type = ''cortex-a55'', phy_cpu_num = 4, phy_mem = 0, phy_mem_used = 0\<rparr>,
     vms = [None, None, None], alloced_vmid = 0, vm_total_num = 0, vcpu_use = replicate 4 0\<rparr>"

lemma zvm_info_3_inv [simp]: "vmid_inv zvm_info_3" "vm_ids zvm_info_3 = {}"
  by (simp_all add: vmid_inv_def zvm_info_3_def vm_ids_def)


text \<open>\<^verbatim>\<open>free_vmid\<close> gives back exactly the identifier it is called with and
  counts one VM less; an identifier that is out of range or not allocated is
  reported by its own error number and changes nothing.\<close>

theorem free_vmid_correct:
  assumes "vmid_inv s"
  shows "free_vmid i s = (r, s') \<Longrightarrow>
    vmid_inv s' \<and> vm_ids s' = vm_ids s - {i}
    \<and> (if i \<in> vm_ids s then r = 0 \<and> vm_total_num s' = vm_total_num s - 1
       else s' = s \<and> r = (if i \<in> vmid_universe s then - ENOENT else - EINVAL))"
  using vmid_inv_free[OF assms, of i] vm_ids_free[OF assms, of i]
    free_vmid_allocated[OF assms, of i] free_vmid_not_allocated[OF assms, of i] by auto

definition zvm_info_one :: zvm_manage_info where
  "zvm_info_one = zvm_info_3\<lparr>alloced_vmid := 1, vm_total_num := 1\<rparr>"

lemma zvm_info_one_inv: "vmid_inv zvm_info_one" "vm_ids zvm_info_one = {0}"
proof -
  show *: "vm_ids zvm_info_one = {0}"
    by (auto simp: vm_ids_def zvm_info_one_def zvm_info_3_def bit_1_iff unat_eq_0)
  show "vmid_inv zvm_info_one"
    unfolding vmid_inv_def * by (simp add: zvm_info_one_def zvm_info_3_def vmid_universe_def)
qed

theorem free_vmid_correct_witness:
  "vmid_inv zvm_info_one \<and> (\<exists>s'. free_vmid 0 zvm_info_one = (0, s') \<and> vm_ids s' = {}
    \<and> free_vmid 1 zvm_info_one = (- ENOENT, zvm_info_one))"
proof -
  obtain r s' where f: "free_vmid 0 zvm_info_one = (r, s')" by force
  obtain r2 s2 where f2: "free_vmid 1 zvm_info_one = (r2, s2)" by force
  have "1 \<in> vmid_universe zvm_info_one"
    by (simp add: vmid_universe_def zvm_info_one_def zvm_info_3_def)
  then show ?thesis
    using f f2 zvm_info_one_inv free_vmid_correct[OF zvm_info_one_inv(1) f]
      free_vmid_correct[OF zvm_info_one_inv(1) f2] by simp
qed

text \<open>However VM identifiers are requested and returned, starting with none
  allocated, no two holders have the same identifier and the number of holders
  never exceeds \<^verbatim>\<open>CONFIG_MAX_VM_NUM\<close>.\<close>

theorem vmids_never_collide:
  assumes "vmid_inv s" "vm_ids s = {}" "fold vmid_pool.serve ops (s, []) = (s', held)"
  shows "distinct held \<and> length held \<le> CONFIG_MAX_VM_NUM s \<and> set held = vm_ids s'
    \<and> vm_total_num s' = of_nat (length held)"
proof -
  have "vmid_inv s' \<and> set held = vm_ids s' \<and> distinct held"
    using vmid_pool.serve_all[OF assms(1) _ _ assms(3)] assms(2) by simp
  moreover from this have "card (vm_ids s') = length held"
    by (metis distinct_card)
  moreover have "length held \<le> card (vmid_universe s)"
    using vmid_pool.held_bounded[OF assms vmid_universe_finite] by simp
  moreover have "card (vmid_universe s) = CONFIG_MAX_VM_NUM s"
    using assms(1) unfolding vmid_universe_def by (intro card_unat_less) (simp add: vmid_inv_def)
  ultimately show ?thesis by (simp add: vmid_inv_def)
qed

theorem vmids_never_collide_witness:
  "\<exists>s' held. fold vmid_pool.serve [Acquire, Acquire, Return 0, Acquire] (zvm_info_3, []) = (s', held)
    \<and> distinct held \<and> set held = vm_ids s'"
proof -
  obtain s' held where
    "fold vmid_pool.serve [Acquire, Acquire, Return 0, Acquire] (zvm_info_3, []) = (s', held)"
    by force
  then show ?thesis using vmids_never_collide[OF zvm_info_3_inv] by blast
qed


text \<open>Kconfig admits \<^verbatim>\<open>CONFIG_MAX_VM_NUM = 32\<close>, but then \<^verbatim>\<open>BIT(32)\<close> is truncated
  to 0 in the 32-bit \<^verbatim>\<open>maxid\<close>: the search ends at once and no VM can ever be
  created, whatever is allocated.\<close>

theorem allocate_vmid_32_never_succeeds:
  assumes "CONFIG_MAX_VM_NUM s = 32"
  shows "allocate_vmid s = (32, s)"
  using assms
  by (simp add: allocate_vmid_def find_next_vmid_def ucast_BIT errno_defs
      find_next_vmid_loop.simps[of 0])

theorem allocate_vmid_32_never_succeeds_witness:
  "allocate_vmid (zvm_info_3\<lparr>vms := replicate 32 None\<rparr>)
    = (32, zvm_info_3\<lparr>vms := replicate 32 None\<rparr>)"
  by (rule allocate_vmid_32_never_succeeds) simp

end
