(* ===== verification/Region_Pool.thy ===== *)
theory Region_Pool
  imports ZVM_Prelude
begin

text \<open>
  The interface of a pool of address regions, as the configuration of guests
  relies on it: a region that is handed out is disjoint from all regions in use,
  a release takes back exactly the regions that start at the given address, and
  all regions stay inside the pool. The client lemma follows an arbitrary
  sequence of requests.
\<close>

type_synonym 'o region = "u64 \<times> u64 \<times> 'o"

fun region_disjoint :: "'o region \<Rightarrow> 'o region \<Rightarrow> bool" where
  "region_disjoint (a, n, _) (b, m, _) \<longleftrightarrow>
     unat a + unat n \<le> unat b \<or> unat b + unat m \<le> unat a"

fun region_within :: "nat \<Rightarrow> nat \<Rightarrow> 'o region \<Rightarrow> bool" where
  "region_within lo hi (a, n, _) \<longleftrightarrow> lo \<le> unat a \<and> unat a + unat n \<le> hi"

lemma region_disjoint_sym: "region_disjoint r r' \<Longrightarrow> region_disjoint r' r"
  by (cases r; cases r') auto

datatype 'o region_req = Take 'o u64 | Drop u64

locale region_pool =
  fixes live :: "'s \<Rightarrow> 'o region set"
    and inv :: "'s \<Rightarrow> bool"
    and lo hi :: "'s \<Rightarrow> nat"
    and can :: "u64 \<Rightarrow> 's \<Rightarrow> bool"
    and alloc :: "'o \<Rightarrow> u64 \<Rightarrow> 's \<Rightarrow> u64 \<times> 's"
    and release :: "u64 \<Rightarrow> 's \<Rightarrow> 's"
  assumes alloc_ok: "\<lbrakk>inv s; 0 < sz; can sz s; alloc os sz s = (a, s')\<rbrakk> \<Longrightarrow>
      inv s' \<and> live s' = insert (a, sz, os) (live s) \<and> lo s' = lo s \<and> hi s' = hi s
      \<and> (\<forall>r\<in>live s. region_disjoint r (a, sz, os))"
    and release_ok: "inv s \<Longrightarrow> inv (release a s) \<and> live (release a s) = {r \<in> live s. fst r \<noteq> a}
      \<and> lo (release a s) = lo s \<and> hi (release a s) = hi s"
    and live_within: "\<lbrakk>inv s; r \<in> live s\<rbrakk> \<Longrightarrow> region_within (lo s) (hi s) r"
begin

fun serve :: "'o region_req \<Rightarrow> 's \<Rightarrow> 's" where
  "serve (Take os sz) s = (if 0 < sz \<and> can sz s then snd (alloc os sz s) else s)"
| "serve (Drop a) s = release a s"

lemma serve_step:
  assumes "inv s" "pairwise region_disjoint (live s)"
  shows "inv (serve r s) \<and> pairwise region_disjoint (live (serve r s))
    \<and> lo (serve r s) = lo s \<and> hi (serve r s) = hi s"
proof (cases r)
  case (Take os sz)
  obtain a s' where a: "alloc os sz s = (a, s')" by force
  show ?thesis
  proof (cases "0 < sz \<and> can sz s")
    case True
    then have "inv s' \<and> live s' = insert (a, sz, os) (live s) \<and> lo s' = lo s \<and> hi s' = hi s
      \<and> (\<forall>r\<in>live s. region_disjoint r (a, sz, os))"
      using alloc_ok[OF assms(1) _ _ a] by blast
    moreover from this have "pairwise region_disjoint (insert (a, sz, os) (live s))"
      using assms(2) region_disjoint_sym by (auto simp: pairwise_insert)
    ultimately show ?thesis using Take True a by simp
  next
    case False
    then show ?thesis using Take assms by auto
  qed
next
  case (Drop a)
  then show ?thesis
    using release_ok[OF assms(1)] assms(2) by (auto intro: pairwise_subset)
qed

theorem serve_all:
  assumes "inv s" "pairwise region_disjoint (live s)"
  shows "inv (fold serve rs s) \<and> pairwise region_disjoint (live (fold serve rs s))
    \<and> (\<forall>r\<in>live (fold serve rs s). region_within (lo s) (hi s) r)"
  using assms
proof (induction rs arbitrary: s)
  case Nil
  then show ?case using live_within by simp
next
  case (Cons r rs)
  then show ?case using serve_step[OF Cons.prems, of r] Cons.IH[of "serve r s"] by simp
qed

end

end
