(* ===== verification/Guest_Memory.thy ===== *)
theory Guest_Memory
  imports Region_Pool
begin

text \<open>
  The guest memory manager of \<^verbatim>\<open>subsys/zvm/os.c\<close>: a first-fit allocator over an
  array of sixteen blocks that is split on allocation and coalesced on release.
  The array is a list of length sixteen of which \<^verbatim>\<open>blk_count\<close> entries are in use;
  the shifting loops are the folds of the same index ranges. Every index
  expression \<^verbatim>\<open>blk_count - 1\<close> of the code is only reached with \<^verbatim>\<open>blk_count > 0\<close>, so
  the counter is a natural number. Log output is not modelled.
\<close>

section \<open>State\<close>

record GuestMemoryPart =
  start_addr :: u64
  part_size :: u64
  is_allocated :: bool
  part_os_type :: u16

record GuestMemoryManager =
  total_memory :: u64
  base_addr :: u64
  blk_list :: "GuestMemoryPart list"
  blk_count :: nat

section \<open>Operations\<close>

definition zero_part :: GuestMemoryPart where
  "zero_part = \<lparr>start_addr = 0, part_size = 0, is_allocated = False, part_os_type = 0\<rparr>"

definition guest_memory_manager_init :: "u64 \<Rightarrow> u64 \<Rightarrow> GuestMemoryManager" where
  "guest_memory_manager_init base total_mem =
    (let l = replicate 16 zero_part in
     \<lparr>total_memory = total_mem, base_addr = base,
      blk_list = l[0 := (l ! 0)\<lparr>start_addr := base, part_size := total_mem, is_allocated := False\<rparr>],
      blk_count = 1\<rparr>)"

text \<open>\<^verbatim>\<open>for (j = blk_count; j > i + 1; j--) blk_list[j] = blk_list[j-1]\<close>\<close>

definition shift_up :: "nat \<Rightarrow> nat \<Rightarrow> 'a list \<Rightarrow> 'a list" where
  "shift_up i n l = fold (\<lambda>j l. l[j := l ! (j - 1)]) (rev [i + 2..<n + 1]) l"

text \<open>\<^verbatim>\<open>for (k = i; k < blk_count - 1; k++) blk_list[k] = blk_list[k+1]\<close>\<close>

definition shift_down :: "nat \<Rightarrow> nat \<Rightarrow> 'a list \<Rightarrow> 'a list" where
  "shift_down i n l = fold (\<lambda>k l. l[k := l ! (k + 1)]) [i..<n - 1] l"

definition first_fit :: "u64 \<Rightarrow> GuestMemoryManager \<Rightarrow> nat option" where
  "first_fit sz mm = List.find (\<lambda>i. \<not> is_allocated (blk_list mm ! i) \<and> sz \<le> part_size (blk_list mm ! i))
     [0..<blk_count mm]"

definition allocate_guest_memory_part ::
  "u16 \<Rightarrow> u64 \<Rightarrow> GuestMemoryManager \<Rightarrow> u64 \<times> GuestMemoryManager" where
  "allocate_guest_memory_part os sz mm = (case first_fit sz mm of
     None \<Rightarrow> (0, mm)
   | Some i \<Rightarrow>
      let original_start = start_addr (blk_list mm ! i);
          original_size = part_size (blk_list mm ! i);
          l = (blk_list mm)[i := \<lparr>start_addr = original_start, part_size = sz,
                 is_allocated = True, part_os_type = os\<rparr>]
      in if sz < original_size
         then if 16 \<le> blk_count mm then (0, mm\<lparr>blk_list := l\<rparr>)
              else let l' = shift_up i (blk_count mm) l;
                       l'' = l'[i + 1 := (l' ! (i + 1))\<lparr>start_addr := original_start + sz,
                               part_size := original_size - sz, is_allocated := False\<rparr>]
                   in (start_addr (l'' ! i), mm\<lparr>blk_list := l'', blk_count := blk_count mm + 1\<rparr>)
         else (start_addr (l ! i), mm\<lparr>blk_list := l\<rparr>))"

definition allocate_guest_memory_part_check :: "u64 \<Rightarrow> GuestMemoryManager \<Rightarrow> bool" where
  "allocate_guest_memory_part_check sz mm = (case first_fit sz mm of
     None \<Rightarrow> False
   | Some i \<Rightarrow> \<not> (sz < part_size (blk_list mm ! i) \<and> 16 \<le> blk_count mm))"

text \<open>The two merging steps of \<^verbatim>\<open>free_guest_memory_part\<close>.\<close>

definition merge_next :: "nat \<Rightarrow> GuestMemoryManager \<Rightarrow> GuestMemoryManager" where
  "merge_next i mm = (let l = blk_list mm in
     if i < blk_count mm - 1 \<and> \<not> is_allocated (l ! (i + 1))
        \<and> start_addr (l ! i) + part_size (l ! i) = start_addr (l ! (i + 1))
     then mm\<lparr>blk_list := shift_down (i + 1) (blk_count mm)
               (l[i := (l ! i)\<lparr>part_size := part_size (l ! i) + part_size (l ! (i + 1))\<rparr>]),
             blk_count := blk_count mm - 1\<rparr>
     else mm)"

definition merge_prev :: "nat \<Rightarrow> GuestMemoryManager \<Rightarrow> GuestMemoryManager" where
  "merge_prev i mm = (let l = blk_list mm in
     if 0 < i \<and> \<not> is_allocated (l ! (i - 1))
        \<and> start_addr (l ! (i - 1)) + part_size (l ! (i - 1)) = start_addr (l ! i)
     then mm\<lparr>blk_list := shift_down i (blk_count mm)
               (l[i - 1 := (l ! (i - 1))\<lparr>part_size := part_size (l ! (i - 1)) + part_size (l ! i)\<rparr>]),
             blk_count := blk_count mm - 1\<rparr>
     else mm)"

definition free_guest_memory_part :: "u64 \<Rightarrow> GuestMemoryManager \<Rightarrow> GuestMemoryManager" where
  "free_guest_memory_part addr mm =
    (case List.find (\<lambda>i. start_addr (blk_list mm ! i) = addr \<and> is_allocated (blk_list mm ! i))
       [0..<blk_count mm] of
       None \<Rightarrow> mm
     | Some i \<Rightarrow> merge_prev i (merge_next i
         (mm\<lparr>blk_list := (blk_list mm)[i := (blk_list mm ! i)\<lparr>is_allocated := False\<rparr>]\<rparr>)))"

section \<open>The blocks in use\<close>

definition blocks :: "GuestMemoryManager \<Rightarrow> GuestMemoryPart list" where
  "blocks mm = take (blk_count mm) (blk_list mm)"

text \<open>The blocks follow one another without gap or overlap from \<^term>\<open>a\<close> to \<^term>\<open>e\<close>.\<close>

fun tiles :: "nat \<Rightarrow> GuestMemoryPart list \<Rightarrow> nat \<Rightarrow> bool" where
  "tiles a [] e \<longleftrightarrow> a = e"
| "tiles a (b # bs) e \<longleftrightarrow> unat (start_addr b) = a \<and> 0 < part_size b
     \<and> tiles (a + unat (part_size b)) bs e"

definition coalesced :: "GuestMemoryPart list \<Rightarrow> bool" where
  "coalesced = successively (\<lambda>b c. is_allocated b \<or> is_allocated c)"

definition gm_wf :: "GuestMemoryManager \<Rightarrow> bool" where
  "gm_wf mm \<longleftrightarrow> length (blk_list mm) = 16 \<and> blk_count mm \<le> 16
     \<and> unat (base_addr mm) + unat (total_memory mm) < 2 ^ 64"

definition gm_inv :: "GuestMemoryManager \<Rightarrow> bool" where
  "gm_inv mm \<longleftrightarrow> gm_wf mm
     \<and> tiles (unat (base_addr mm)) (blocks mm) (unat (base_addr mm) + unat (total_memory mm))
     \<and> coalesced (blocks mm)"

text \<open>The regions handed out: start, size and owner.\<close>

definition part_region :: "GuestMemoryPart \<Rightarrow> u64 \<times> u64 \<times> u16" where
  "part_region b = (start_addr b, part_size b, part_os_type b)"

definition live_regions :: "GuestMemoryManager \<Rightarrow> (u64 \<times> u64 \<times> u16) set" where
  "live_regions mm = part_region ` {b \<in> set (blocks mm). is_allocated b}"

section \<open>The shifting loops\<close>

lemma length_shift_up [simp]: "length (shift_up i n l) = length l"
proof -
  have "length (fold (\<lambda>j l. l[j := l ! (j - 1)]) js l) = length l" for js and l :: "'a list"
    by (induction js arbitrary: l) auto
  then show ?thesis by (simp add: shift_up_def)
qed

lemma length_shift_down [simp]: "length (shift_down i n l) = length l"
proof -
  have "length (fold (\<lambda>k l. l[k := l ! (k + 1)]) ks l) = length l" for ks and l :: "'a list"
    by (induction ks arbitrary: l) auto
  then show ?thesis by (simp add: shift_down_def)
qed

lemma nth_shift_up:
  "n < length l \<Longrightarrow> k < length l \<Longrightarrow>
    shift_up i n l ! k = (if i + 2 \<le> k \<and> k \<le> n then l ! (k - 1) else l ! k)"
proof (induction n arbitrary: l)
  case 0
  then show ?case by (simp add: shift_up_def)
next
  case (Suc n)
  show ?case
  proof (cases "i + 2 \<le> Suc n")
    case True
    then have "shift_up i (Suc n) l = shift_up i n (l[Suc n := l ! n])"
      by (simp add: shift_up_def)
    then show ?thesis using Suc True by (auto simp: nth_list_update)
  next
    case False
    then have "shift_up i (Suc n) l = l" by (simp add: shift_up_def)
    then show ?thesis using False by auto
  qed
qed

lemma nth_fold_shift_down:
  "m < length l \<Longrightarrow> k < length l \<Longrightarrow>
    fold (\<lambda>k l. l[k := l ! (k + 1)]) [i..<m] l ! k = (if i \<le> k \<and> k < m then l ! (k + 1) else l ! k)"
proof (induction m arbitrary: k)
  case 0
  then show ?case by simp
next
  case (Suc m)
  have len: "length (fold (\<lambda>k l. l[k := l ! (k + 1)]) [i..<m] l) = length l"
    using length_shift_down[of i "Suc m" l] by (simp add: shift_down_def)
  show ?case using Suc len by (auto simp: nth_list_update)
qed

lemma nth_shift_down:
  "n \<le> length l \<Longrightarrow> k < length l \<Longrightarrow>
    shift_down i n l ! k = (if i \<le> k \<and> k < n - 1 then l ! (k + 1) else l ! k)"
  using nth_fold_shift_down[of "n - 1" l k i] by (cases l) (auto simp: shift_down_def)

lemma take_shift_up_insert:
  assumes "n < length l" "i < n"
  shows "take (n + 1) ((shift_up i n l)[i + 1 := x]) = take (i + 1) l @ x # drop (i + 1) (take n l)"
proof (rule nth_equalityI)
  show "length (take (n + 1) ((shift_up i n l)[i + 1 := x])) = length (take (i + 1) l @ x # drop (i + 1) (take n l))"
    using assms by simp
next
  fix k assume "k < length (take (n + 1) ((shift_up i n l)[i + 1 := x]))"
  then have k: "k < Suc n" "k < length l" by auto
  consider "k \<le> i" | "k = i + 1" | "i + 2 \<le> k" by linarith
  then show "take (n + 1) ((shift_up i n l)[i + 1 := x]) ! k = (take (i + 1) l @ x # drop (i + 1) (take n l)) ! k"
    using assms k by cases (auto simp: nth_append nth_Cons' nth_shift_up Suc_diff_Suc
        numeral_2_eq_2 dest!: le_Suc_ex)
qed

lemma take_shift_down_delete:
  assumes "n \<le> length l" "i < n"
  shows "take (n - 1) (shift_down i n l) = take i l @ drop (i + 1) (take n l)"
  using assms by (intro nth_equalityI) (auto simp: nth_append nth_shift_down)

section \<open>Operations on the blocks in use\<close>

lemma gm_nth_blocks: "i < blk_count mm \<Longrightarrow> blk_list mm ! i = blocks mm ! i"
  by (simp add: blocks_def)

lemma gm_length_blocks: "gm_wf mm \<Longrightarrow> length (blocks mm) = blk_count mm"
  by (simp add: gm_wf_def blocks_def)

lemma first_fit_Some_blocks:
  assumes "gm_wf mm" "first_fit sz mm = Some i"
  obtains xs b ys where "blocks mm = xs @ b # ys" "length xs = i" "\<not> is_allocated b"
    "sz \<le> part_size b" "\<forall>x\<in>set xs. is_allocated x \<or> part_size x < sz" "blk_list mm ! i = b"
proof -
  have i: "i < blk_count mm" "\<not> is_allocated (blocks mm ! i)" "sz \<le> part_size (blocks mm ! i)"
    "\<forall>j<i. is_allocated (blocks mm ! j) \<or> part_size (blocks mm ! j) < sz"
    using assms(2) unfolding first_fit_def find_upt_Some_iff
    by (auto simp: gm_nth_blocks not_le)
  then have "blocks mm = take i (blocks mm) @ blocks mm ! i # drop (Suc i) (blocks mm)"
    using gm_length_blocks[OF assms(1)] by (simp add: id_take_nth_drop)
  moreover have "\<forall>x\<in>set (take i (blocks mm)). is_allocated x \<or> part_size x < sz"
    using i(4) by (auto simp: in_set_conv_nth) blast
  ultimately show ?thesis
    using that i gm_length_blocks[OF assms(1)] gm_nth_blocks by auto
qed

lemma first_fit_None_blocks:
  assumes "gm_wf mm"
  shows "first_fit sz mm = None \<longleftrightarrow> (\<forall>b\<in>set (blocks mm). is_allocated b \<or> part_size b < sz)"
  unfolding first_fit_def find_upt_None_iff all_set_conv_all_nth
  using gm_length_blocks[OF assms] by (auto simp: gm_nth_blocks not_le)

definition taken_part :: "GuestMemoryPart \<Rightarrow> u16 \<Rightarrow> u64 \<Rightarrow> GuestMemoryPart" where
  "taken_part b os sz = \<lparr>start_addr = start_addr b, part_size = sz, is_allocated = True, part_os_type = os\<rparr>"

definition rest_part :: "GuestMemoryPart \<Rightarrow> u64 \<Rightarrow> u16 \<Rightarrow> GuestMemoryPart" where
  "rest_part b sz os = \<lparr>start_addr = start_addr b + sz, part_size = part_size b - sz,
     is_allocated = False, part_os_type = os\<rparr>"

text \<open>Splitting a larger block, and taking a block of the exact size.\<close>

lemma allocate_split_blocks:
  assumes wf: "gm_wf mm" and ff: "first_fit sz mm = Some i" and n: "blk_count mm < 16"
    and bs: "blocks mm = xs @ b # ys" "length xs = i" and sz: "sz < part_size b"
    and al: "allocate_guest_memory_part os sz mm = (a, mm')"
  obtains t where "a = start_addr b" "blk_count mm' = blk_count mm + 1" "gm_wf mm'"
    "base_addr mm' = base_addr mm" "total_memory mm' = total_memory mm"
    "blocks mm' = xs @ taken_part b os sz # rest_part b sz t # ys"
proof -
  let ?n = "blk_count mm" and ?l = "(blk_list mm)[i := taken_part b os sz]"
  let ?l' = "shift_up i ?n ?l"
  let ?r = "(?l' ! (i + 1))\<lparr>start_addr := start_addr b + sz, part_size := part_size b - sz, is_allocated := False\<rparr>"
  have len: "length (blk_list mm) = 16" using wf by (simp add: gm_wf_def)
  have i: "i < ?n" using bs gm_length_blocks[OF wf] by simp
  have upd: "(xs @ b # ys)[i := x] = xs @ x # ys" for x using bs(2) by auto
  from i have nth: "blk_list mm ! i = b" using bs gm_nth_blocks by auto
  have al': "a = start_addr (?l'[i + 1 := ?r] ! i)" "mm' = mm\<lparr>blk_list := ?l'[i + 1 := ?r], blk_count := ?n + 1\<rparr>"
    using al ff sz n by (auto simp: allocate_guest_memory_part_def Let_def nth taken_part_def)
  have "take (?n + 1) (?l'[i + 1 := ?r]) = take (i + 1) ?l @ ?r # drop (i + 1) (take ?n ?l)"
    using len n i by (intro take_shift_up_insert) auto
  also have "take ?n ?l = xs @ taken_part b os sz # ys"
    using bs(1) i upd bs(2) by (simp add: take_update_swap blocks_def[symmetric])
  also have "take (i + 1) ?l = take (i + 1) (take ?n ?l)" using i by (simp add: min_def)
  also have "\<dots> = xs @ [taken_part b os sz]"
    using bs(1) i upd bs(2) by (simp add: take_update_swap blocks_def[symmetric])
  finally have "blocks mm' = xs @ taken_part b os sz # ?r # ys"
    using bs al' by (simp add: blocks_def)
  moreover have "?r = rest_part b sz (part_os_type (?l' ! (i + 1)))"
    by (simp add: rest_part_def)
  moreover have "a = start_addr b"
    using al' len n i by (simp add: nth_shift_up taken_part_def)
  ultimately show ?thesis using that al' wf n len by (simp add: gm_wf_def)
qed

lemma allocate_exact_blocks:
  assumes wf: "gm_wf mm" and ff: "first_fit sz mm = Some i"
    and bs: "blocks mm = xs @ b # ys" "length xs = i" and sz: "\<not> sz < part_size b"
    and al: "allocate_guest_memory_part os sz mm = (a, mm')"
  shows "a = start_addr b" "gm_wf mm'" "base_addr mm' = base_addr mm" "total_memory mm' = total_memory mm"
    "blk_count mm' = blk_count mm" "blocks mm' = xs @ taken_part b os sz # ys"
proof -
  have i: "i < blk_count mm" using bs gm_length_blocks[OF wf] by simp
  have upd: "(xs @ b # ys)[i := x] = xs @ x # ys" for x using bs(2) by auto
  from i have nth: "blk_list mm ! i = b" using bs gm_nth_blocks by auto
  have al': "a = start_addr b" "mm' = mm\<lparr>blk_list := (blk_list mm)[i := taken_part b os sz]\<rparr>"
    using al ff sz i wf by (auto simp: allocate_guest_memory_part_def Let_def nth taken_part_def gm_wf_def)
  then show "a = start_addr b" "gm_wf mm'" "base_addr mm' = base_addr mm" "total_memory mm' = total_memory mm"
    "blk_count mm' = blk_count mm" "blocks mm' = xs @ taken_part b os sz # ys"
    using bs(1) wf upd by (simp_all add: gm_wf_def blocks_def take_update_swap)
qed

lemma blocks_init:
  "blocks (guest_memory_manager_init base n) = [zero_part\<lparr>start_addr := base, part_size := n\<rparr>]"
  by (simp add: blocks_def guest_memory_manager_init_def Let_def take_update_swap zero_part_def)

lemma guest_memory_manager_init_inv:
  assumes "0 < n" "unat base + unat n < 2 ^ 64"
  shows "gm_inv (guest_memory_manager_init base n)" "live_regions (guest_memory_manager_init base n) = {}"
  using assms
  by (simp_all add: gm_inv_def gm_wf_def blocks_init coalesced_def live_regions_def)
    (simp_all add: guest_memory_manager_init_def Let_def zero_part_def)

section \<open>Tilings\<close>

lemma tiles_append: "tiles a (xs @ ys) e \<longleftrightarrow> (\<exists>m. tiles a xs m \<and> tiles m ys e)"
  by (induction xs arbitrary: a) auto

lemma tiles_le: "tiles a xs e \<Longrightarrow> a \<le> e"
  by (induction xs arbitrary: a) force+

lemma tiles_bounds:
  "tiles a xs e \<Longrightarrow> x \<in> set xs \<Longrightarrow>
    a \<le> unat (start_addr x) \<and> unat (start_addr x) + unat (part_size x) \<le> e"
proof (induction xs arbitrary: a)
  case (Cons y ys)
  then show ?case using tiles_le by fastforce
qed simp

lemma tiles_cong:
  "list_all2 (\<lambda>b c. start_addr b = start_addr c \<and> part_size b = part_size c) xs ys \<Longrightarrow>
    tiles a xs e \<longleftrightarrow> tiles a ys e"
  by (induction arbitrary: a rule: list_all2_induct) auto

lemma tiles_split:
  assumes "tiles a (xs @ b # ys) e" "e < 2 ^ 64" "0 < sz" "sz < part_size b"
  shows "tiles a (xs @ taken_part b os sz # rest_part b sz t # ys) e"
proof -
  obtain m where m: "tiles a xs m" "unat (start_addr b) = m" "tiles (m + unat (part_size b)) ys e"
    using assms(1) by (auto simp: tiles_append)
  have less: "unat sz < unat (part_size b)" using assms(4) by (simp add: word_less_nat_alt)
  have "m + unat (part_size b) \<le> e" using m(3) tiles_le by blast
  then have "unat (start_addr b + sz) = m + unat sz"
    using less assms(2) m(2) by (subst unat_add_no_wrap) auto
  moreover have "unat (part_size b - sz) = unat (part_size b) - unat sz"
    using assms(4) by (simp add: unat_sub)
  moreover have "0 < part_size b - sz" using assms(4) by (simp add: word_neq_0_conv[symmetric])
  ultimately show ?thesis
    using m less assms(3) by (auto simp: tiles_append taken_part_def rest_part_def)
qed

text \<open>Merging two neighbours.\<close>

definition joined_part :: "GuestMemoryPart \<Rightarrow> GuestMemoryPart \<Rightarrow> GuestMemoryPart" where
  "joined_part b c = b\<lparr>part_size := part_size b + part_size c\<rparr>"

lemma tiles_pair:
  assumes "tiles a (xs @ b # c # ys) e" "e < 2 ^ 64"
  shows "start_addr b + part_size b = start_addr c"
    and "tiles a (xs @ joined_part b c # ys) e"
proof -
  obtain m where m: "tiles a xs m" "unat (start_addr b) = m" "0 < part_size b" "0 < part_size c"
      "unat (start_addr c) = m + unat (part_size b)"
      "tiles (m + unat (part_size b) + unat (part_size c)) ys e"
    using assms(1) by (auto simp: tiles_append)
  have le: "m + unat (part_size b) + unat (part_size c) \<le> e" using m(6) tiles_le by blast
  show "start_addr b + part_size b = start_addr c"
    using le assms(2) m by (intro word_unat_eq_iff[THEN iffD2]) (simp add: unat_add_no_wrap)
  have "unat (part_size b + part_size c) = unat (part_size b) + unat (part_size c)"
    using le assms(2) by (intro unat_add_no_wrap) simp
  then show "tiles a (xs @ joined_part b c # ys) e"
    using m by (auto simp: tiles_append joined_part_def add.assoc word_less_nat_alt)
qed

section \<open>Allocation keeps the invariant\<close>

definition blk_fits :: "u64 \<Rightarrow> GuestMemoryPart \<Rightarrow> bool" where
  "blk_fits sz b \<longleftrightarrow> \<not> is_allocated b \<and> sz \<le> part_size b"

lemma coalesced_taken:
  "coalesced (xs @ b # ys) \<Longrightarrow> coalesced (xs @ taken_part b os sz # ys)"
  by (auto simp: coalesced_def successively_append_iff successively_Cons taken_part_def)

lemma coalesced_split:
  "coalesced (xs @ b # ys) \<Longrightarrow> \<not> is_allocated b \<Longrightarrow>
    coalesced (xs @ taken_part b os sz # rest_part b sz' t # ys)"
  by (auto simp: coalesced_def successively_append_iff successively_Cons taken_part_def rest_part_def)

lemma allocate_inv:
  assumes inv: "gm_inv mm" and pos: "0 < sz" and ok: "allocate_guest_memory_part_check sz mm"
    and al: "allocate_guest_memory_part os sz mm = (a, mm')"
  obtains xs b ys where "blocks mm = xs @ b # ys" "blk_fits sz b" "a = start_addr b"
    "gm_inv mm'" "live_regions mm' = insert (a, sz, os) (live_regions mm)"
    "base_addr mm' = base_addr mm" "total_memory mm' = total_memory mm"
proof -
  have wf: "gm_wf mm" using inv by (simp add: gm_inv_def)
  then have e: "unat (base_addr mm) + unat (total_memory mm) < 2 ^ 64" by (simp add: gm_wf_def)
  obtain i where ff: "first_fit sz mm = Some i"
    using ok by (auto simp: allocate_guest_memory_part_check_def split: option.splits)
  obtain xs b ys where bs: "blocks mm = xs @ b # ys" "length xs = i"
    and b: "\<not> is_allocated b" "sz \<le> part_size b" and nth: "blk_list mm ! i = b"
    using first_fit_Some_blocks[OF wf ff] by metis
  have live: "live_regions mm'' = insert (start_addr b, sz, os) (live_regions mm)"
    if "blocks mm'' = xs @ taken_part b os sz # zs @ ys" "\<forall>z\<in>set zs. \<not> is_allocated z" for mm'' zs
  proof -
    have "{x \<in> set (blocks mm''). is_allocated x}
        = insert (taken_part b os sz) {x \<in> set (blocks mm). is_allocated x}"
      using that b(1) by (auto simp: bs taken_part_def)
    then show ?thesis by (simp add: live_regions_def part_region_def taken_part_def)
  qed
  show ?thesis
  proof (cases "sz < part_size b")
    case True
    then have n: "blk_count mm < 16"
      using ok ff nth by (auto simp: allocate_guest_memory_part_check_def)
    obtain t where t: "a = start_addr b" "gm_wf mm'" "base_addr mm' = base_addr mm"
      "total_memory mm' = total_memory mm" "blocks mm' = xs @ taken_part b os sz # rest_part b sz t # ys"
      using allocate_split_blocks[OF wf ff n bs True al] by metis
    have "gm_inv mm'"
      using inv tiles_split[OF _ e pos True] b(1) t coalesced_split
      by (auto simp: gm_inv_def bs)
    moreover have "live_regions mm' = insert (a, sz, os) (live_regions mm)"
      using live[of mm' "[rest_part b sz t]"] t by (simp add: rest_part_def)
    ultimately show ?thesis using that bs b t by (simp add: blk_fits_def)
  next
    case False
    note t = allocate_exact_blocks[OF wf ff bs False al]
    have "sz = part_size b" using False b(2) by simp
    then have "tiles x (xs @ taken_part b os sz # ys) y \<longleftrightarrow> tiles x (blocks mm) y" for x y
      by (auto simp: bs tiles_append taken_part_def)
    then have "gm_inv mm'" using inv t coalesced_taken by (auto simp: gm_inv_def bs)
    moreover have "live_regions mm' = insert (a, sz, os) (live_regions mm)"
      using live[of mm' "[]"] t by simp
    ultimately show ?thesis using that bs b t by (simp add: blk_fits_def)
  qed
qed

section \<open>Release keeps the invariant\<close>

lemma join_blocks:
  assumes wf: "gm_wf mm" and bs: "blocks mm = xs @ b # c # ys"
  shows "gm_wf (mm\<lparr>blk_list := shift_down (length xs + 1) (blk_count mm)
            ((blk_list mm)[length xs := joined_part b c]), blk_count := blk_count mm - 1\<rparr>)"
    and "blocks (mm\<lparr>blk_list := shift_down (length xs + 1) (blk_count mm)
            ((blk_list mm)[length xs := joined_part b c]), blk_count := blk_count mm - 1\<rparr>)
         = xs @ joined_part b c # ys"
proof -
  let ?n = "blk_count mm" and ?l = "(blk_list mm)[length xs := joined_part b c]"
  show "gm_wf (mm\<lparr>blk_list := shift_down (length xs + 1) ?n ?l, blk_count := ?n - 1\<rparr>)"
    using wf by (auto simp: gm_wf_def)
  have n: "length xs + 1 < ?n" "?n \<le> length ?l"
    using gm_length_blocks[OF wf] bs wf by (auto simp: gm_wf_def)
  have tk: "take ?n ?l = xs @ joined_part b c # c # ys"
    using bs by (simp add: take_update_swap blocks_def[symmetric])
  have "take (?n - 1) (shift_down (length xs + 1) ?n ?l)
      = take (length xs + 1) (take ?n ?l) @ drop (length xs + 2) (take ?n ?l)"
    using take_shift_down_delete[OF n(2,1)] n by (simp add: min_def)
  then show "blocks (mm\<lparr>blk_list := shift_down (length xs + 1) ?n ?l, blk_count := ?n - 1\<rparr>)
      = xs @ joined_part b c # ys"
    unfolding tk by (simp add: blocks_def)
qed

lemma gm_wf_same:
  "gm_wf mm \<Longrightarrow> base_addr mm' = base_addr mm \<Longrightarrow> total_memory mm' = total_memory mm \<Longrightarrow>
    length (blk_list mm') = 16 \<Longrightarrow> blk_count mm' \<le> 16 \<Longrightarrow> gm_wf mm'"
  by (simp add: gm_wf_def)

text \<open>What the two steps do to the blocks around the released one.\<close>

fun join_next :: "GuestMemoryPart \<Rightarrow> GuestMemoryPart list \<Rightarrow> GuestMemoryPart list" where
  "join_next b [] = [b]"
| "join_next b (c # ys) = (if is_allocated c then b # c # ys else joined_part b c # ys)"

definition join_prev :: "GuestMemoryPart list \<Rightarrow> GuestMemoryPart \<Rightarrow> GuestMemoryPart list" where
  "join_prev xs b = (if xs = [] \<or> is_allocated (last xs) then xs @ [b]
     else butlast xs @ [joined_part (last xs) b])"

lemma merge_next_blocks:
  assumes wf: "gm_wf mm" and bs: "blocks mm = xs @ b # ys"
    and t: "tiles s (blocks mm) e" "e < 2 ^ 64"
  shows "gm_wf (merge_next (length xs) mm)" "blocks (merge_next (length xs) mm) = xs @ join_next b ys"
    "base_addr (merge_next (length xs) mm) = base_addr mm"
    "total_memory (merge_next (length xs) mm) = total_memory mm"
proof -
  have n: "blk_count mm = length xs + Suc (length ys)" using gm_length_blocks[OF wf] bs by simp
  have b: "blk_list mm ! length xs = b" using n bs gm_nth_blocks[of "length xs" mm] by simp
  have "gm_wf (merge_next (length xs) mm) \<and> blocks (merge_next (length xs) mm) = xs @ join_next b ys
    \<and> base_addr (merge_next (length xs) mm) = base_addr mm
    \<and> total_memory (merge_next (length xs) mm) = total_memory mm"
  proof (cases ys)
    case Nil
    then show ?thesis using wf bs n by (simp add: merge_next_def)
  next
    case (Cons c zs)
    have c: "blk_list mm ! Suc (length xs) = c"
      using n bs Cons gm_nth_blocks[of "Suc (length xs)" mm] by (simp add: nth_append)
    have adj: "start_addr b + part_size b = start_addr c" 
      using t bs Cons tiles_pair(1)[of s xs b c zs e] by simp
    show ?thesis
      using join_blocks[OF wf, of xs b c zs] wf bs b c adj n Cons
      by (simp add: merge_next_def joined_part_def[of b c, symmetric])
  qed
  then show "gm_wf (merge_next (length xs) mm)" "blocks (merge_next (length xs) mm) = xs @ join_next b ys"
    "base_addr (merge_next (length xs) mm) = base_addr mm"
    "total_memory (merge_next (length xs) mm) = total_memory mm" by blast+
qed

lemma merge_prev_blocks:
  assumes wf: "gm_wf mm" and bs: "blocks mm = xs @ b # ys"
    and t: "tiles s (blocks mm) e" "e < 2 ^ 64"
  shows "gm_wf (merge_prev (length xs) mm) \<and> blocks (merge_prev (length xs) mm) = join_prev xs b @ ys
    \<and> base_addr (merge_prev (length xs) mm) = base_addr mm
    \<and> total_memory (merge_prev (length xs) mm) = total_memory mm"
proof (cases xs rule: rev_cases)
  case Nil
  then show ?thesis using wf bs by (simp add: merge_prev_def join_prev_def)
next
  case (snoc zs p)
  have n: "blk_count mm = length xs + Suc (length ys)" using gm_length_blocks[OF wf] bs by simp
  have b: "blk_list mm ! length xs = b" using n bs gm_nth_blocks[of "length xs" mm] by simp
  have p: "blk_list mm ! length zs = p"
    using n bs snoc gm_nth_blocks[of "length zs" mm] by (simp add: nth_append)
  have adj: "start_addr p + part_size p = start_addr b"
    using t bs snoc tiles_pair(1)[of s zs p b ys e] by simp
  show ?thesis
    using join_blocks[OF wf, of zs p b ys] wf bs b p adj snoc
    by (simp add: merge_prev_def join_prev_def joined_part_def[of p b, symmetric])
qed

lemma tiles_join_next:
  assumes "tiles s (xs @ b # ys) e" "e < 2 ^ 64" shows "tiles s (xs @ join_next b ys) e"
  using assms by (cases ys) (auto dest: tiles_pair(2))

lemma tiles_join_prev:
  assumes "tiles s (xs @ b # ys) e" "e < 2 ^ 64" shows "tiles s (join_prev xs b @ ys) e"
  using assms tiles_pair(2)[of s "butlast xs" "last xs" b ys e]
  by (cases xs rule: rev_cases) (auto simp: join_prev_def)

lemma coalesced_free:
  assumes "coalesced (xs @ b # ys)"
  shows "coalesced (join_prev xs (hd (join_next (b\<lparr>is_allocated := False\<rparr>) ys))
    @ tl (join_next (b\<lparr>is_allocated := False\<rparr>) ys))"
  using assms
  by (cases ys; cases xs rule: rev_cases)
    (auto simp: coalesced_def successively_append_iff successively_Cons join_prev_def
      joined_part_def hd_append)

lemma allocated_join_prev:
  "\<not> is_allocated b \<Longrightarrow> {x \<in> set (join_prev xs b). is_allocated x} = {x \<in> set xs. is_allocated x}"
  by (cases xs rule: rev_cases) (auto simp: join_prev_def joined_part_def)

lemma allocated_join_next:
  "\<not> is_allocated b \<Longrightarrow>
    {x \<in> set (tl (join_next b ys)). is_allocated x} = {x \<in> set ys. is_allocated x}
    \<and> \<not> is_allocated (hd (join_next b ys))"
  by (cases ys) (auto simp: joined_part_def)

lemma join_next_hd_tl: "hd (join_next b ys) # tl (join_next b ys) = join_next b ys"
  by (cases ys) auto

lemma tiles_start_unique:
  assumes "tiles s (xs @ b # ys) e" "x \<in> set xs \<union> set ys"
  shows "start_addr x \<noteq> start_addr b"
proof -
  obtain m where m: "tiles s xs m" "unat (start_addr b) = m" "0 < part_size b"
      "tiles (m + unat (part_size b)) ys e"
    using assms(1) by (auto simp: tiles_append)
  have pos: "0 < unat (part_size b)" using m(3) by (simp add: word_less_nat_alt)
  have "0 < part_size x" if "x \<in> set xs"
    using m(1) that by (induction xs arbitrary: s) auto
  then have "unat (start_addr x) < m" if "x \<in> set xs"
    using tiles_bounds[OF m(1) that] that by (fastforce simp: word_less_nat_alt)
  then show ?thesis using assms(2) m(2) pos tiles_bounds[OF m(4)] by fastforce
qed

definition find_block :: "u64 \<Rightarrow> GuestMemoryManager \<Rightarrow> nat option" where
  "find_block a mm =
    List.find (\<lambda>i. start_addr (blk_list mm ! i) = a \<and> is_allocated (blk_list mm ! i)) [0..<blk_count mm]"

abbreviation freed_blocks :: "GuestMemoryPart list \<Rightarrow> GuestMemoryPart \<Rightarrow> GuestMemoryPart list \<Rightarrow> GuestMemoryPart list" where
  "freed_blocks xs b ys \<equiv> join_prev xs (hd (join_next (b\<lparr>is_allocated := False\<rparr>) ys))
     @ tl (join_next (b\<lparr>is_allocated := False\<rparr>) ys)"

abbreviation gm_tiled :: "GuestMemoryManager \<Rightarrow> GuestMemoryPart list \<Rightarrow> bool" where
  "gm_tiled mm bs \<equiv> tiles (unat (base_addr mm)) bs (unat (base_addr mm) + unat (total_memory mm))"

lemma free_found:
  assumes inv: "gm_inv mm" and Some: "find_block a mm = Some i"
  obtains xs b ys where "blocks mm = xs @ b # ys" "start_addr b = a" "is_allocated b"
    "blocks (free_guest_memory_part a mm) = freed_blocks xs b ys"
    "gm_wf (free_guest_memory_part a mm)" "gm_tiled mm (freed_blocks xs b ys)"
    "base_addr (free_guest_memory_part a mm) = base_addr mm"
    "total_memory (free_guest_memory_part a mm) = total_memory mm"
proof -
  have wf: "gm_wf mm" and e: "unat (base_addr mm) + unat (total_memory mm) < 2 ^ 64"
    and t: "gm_tiled mm (blocks mm)"
    using inv by (auto simp: gm_inv_def gm_wf_def)
  have i: "i < blk_count mm" "start_addr (blocks mm ! i) = a" "is_allocated (blocks mm ! i)"
    using Some unfolding find_block_def find_upt_Some_iff by (auto simp: gm_nth_blocks)
  define xs b ys b' where "xs = take i (blocks mm)" and "b = blocks mm ! i"
    and "ys = drop (Suc i) (blocks mm)" and "b' = b\<lparr>is_allocated := False\<rparr>"
  have bs: "blocks mm = xs @ b # ys" and len: "length xs = i" and ba: "start_addr b = a" "is_allocated b"
    using i gm_length_blocks[OF wf] by (simp_all add: xs_def b_def ys_def id_take_nth_drop)
  let ?mm = "mm\<lparr>blk_list := (blk_list mm)[i := b']\<rparr>"
  have wf': "gm_wf ?mm" using wf by (simp add: gm_wf_def)
  have bs': "blocks ?mm = xs @ b' # ys"
    using bs len by (auto simp: blocks_def take_update_swap)
  have t': "gm_tiled mm (blocks ?mm)"
    using t unfolding bs bs' by (simp add: tiles_append b'_def)
  note mn = merge_next_blocks[OF wf' bs' t' e]
  have bn: "blocks (merge_next (length xs) ?mm) = xs @ hd (join_next b' ys) # tl (join_next b' ys)"
    using mn(2) by (simp add: join_next_hd_tl)
  have tn: "gm_tiled mm (blocks (merge_next (length xs) ?mm))"
    using tiles_join_next t' e unfolding mn(2) bs' by blast
  note mp = merge_prev_blocks[OF mn(1) bn tn e]
  have "free_guest_memory_part a mm = merge_prev (length xs) (merge_next (length xs) ?mm)"
    using Some i len by (simp add: free_guest_memory_part_def find_block_def b'_def b_def gm_nth_blocks)
  then show ?thesis
    using that[OF bs ba] mp mn tiles_join_prev[OF tn[unfolded bn] e] by (simp add: b'_def)
qed

lemma free_not_found:
  assumes "gm_wf mm" "find_block a mm = None"
  shows "free_guest_memory_part a mm = mm" "\<forall>r\<in>live_regions mm. fst r \<noteq> a"
proof -
  have "\<forall>b\<in>set (blocks mm). \<not> (start_addr b = a \<and> is_allocated b)"
    using assms(2) gm_length_blocks[OF assms(1)]
    unfolding find_block_def find_upt_None_iff all_set_conv_all_nth by (auto simp: gm_nth_blocks)
  then show "\<forall>r\<in>live_regions mm. fst r \<noteq> a" by (auto simp: live_regions_def part_region_def)
  show "free_guest_memory_part a mm = mm"
    using assms(2) by (simp add: free_guest_memory_part_def find_block_def)
qed

lemma fst_part_region: "fst (part_region b) = start_addr b"
  by (simp add: part_region_def)

lemma free_inv:
  assumes inv: "gm_inv mm"
  shows "gm_inv (free_guest_memory_part a mm)
    \<and> live_regions (free_guest_memory_part a mm) = {r \<in> live_regions mm. fst r \<noteq> a}"
proof (cases "find_block a mm")
  case None
  then show ?thesis
    using free_not_found[OF _ None] inv by (auto simp: gm_inv_def)
next
  case (Some i)
  then obtain xs b ys where bs: "blocks mm = xs @ b # ys" and ba: "start_addr b = a"
    and f: "blocks (free_guest_memory_part a mm) = freed_blocks xs b ys"
    "gm_wf (free_guest_memory_part a mm)" "gm_tiled mm (freed_blocks xs b ys)"
    "base_addr (free_guest_memory_part a mm) = base_addr mm"
    "total_memory (free_guest_memory_part a mm) = total_memory mm"
    using free_found[OF inv] by metis
  have t: "gm_tiled mm (xs @ b # ys)" and co: "coalesced (xs @ b # ys)"
    using inv by (simp_all add: gm_inv_def bs)
  have al: "{x \<in> set (blocks (free_guest_memory_part a mm)). is_allocated x}
      = {x \<in> set (blocks mm). is_allocated x \<and> start_addr x \<noteq> a}"
    using allocated_join_prev[of "hd (join_next (b\<lparr>is_allocated := False\<rparr>) ys)" xs]
      allocated_join_next[of "b\<lparr>is_allocated := False\<rparr>" ys] tiles_start_unique[OF t] ba
    unfolding f(1) bs by auto
  have "live_regions (free_guest_memory_part a mm)
      = part_region ` {x \<in> set (blocks mm). is_allocated x \<and> start_addr x \<noteq> a}"
    by (simp only: live_regions_def al)
  also have "\<dots> = {r \<in> live_regions mm. fst r \<noteq> a}"
    unfolding live_regions_def by (auto simp: fst_part_region)
  finally show ?thesis
    using f coalesced_free[OF co] by (simp add: gm_inv_def)
qed

lemma free_bounds:
  assumes "gm_inv mm"
  shows "base_addr (free_guest_memory_part a mm) = base_addr mm"
    and "total_memory (free_guest_memory_part a mm) = total_memory mm"
  using assms free_found[OF assms, of a] free_not_found(1)[of mm a]
  by (cases "find_block a mm"; auto simp: gm_inv_def)+

section \<open>Guest memory is a pool of regions\<close>

lemma tiles_disjoint:
  assumes "tiles s (xs @ b # ys) e" "x \<in> set xs \<union> set ys" "sz \<le> part_size b"
  shows "region_disjoint (part_region x) (start_addr b, sz, os)"
proof -
  obtain m where m: "tiles s xs m" "unat (start_addr b) = m" "tiles (m + unat (part_size b)) ys e"
    using assms(1) by (auto simp: tiles_append)
  moreover have "unat sz \<le> unat (part_size b)" using assms(3) by (simp add: word_le_nat_alt)
  ultimately show ?thesis
    using assms(2) tiles_bounds[OF m(1), of x] tiles_bounds[OF m(3), of x]
    by (auto simp: part_region_def)
qed

abbreviation gm_end :: "GuestMemoryManager \<Rightarrow> nat" where
  "gm_end mm \<equiv> unat (base_addr mm) + unat (total_memory mm)"

lemma allocate_disjoint:
  assumes inv: "gm_inv mm" and "0 < sz" "allocate_guest_memory_part_check sz mm"
    "allocate_guest_memory_part os sz mm = (a, mm')"
  shows "\<forall>r\<in>live_regions mm. region_disjoint r (a, sz, os)"
proof -
  obtain xs b ys where b: "blocks mm = xs @ b # ys" "blk_fits sz b" "a = start_addr b"
    using allocate_inv[OF assms] by metis
  have "gm_tiled mm (xs @ b # ys)" using inv b(1) by (simp add: gm_inv_def)
  then show ?thesis
    using tiles_disjoint[of _ xs b ys _ _ sz os] b
    by (auto simp: live_regions_def blk_fits_def)
qed

interpretation guest_memory: region_pool live_regions gm_inv "\<lambda>mm. unat (base_addr mm)" gm_end
  allocate_guest_memory_part_check allocate_guest_memory_part free_guest_memory_part
proof (unfold_locales, goal_cases)
  case (1 s sz os a s')
  then show ?case using allocate_inv[OF 1] allocate_disjoint[OF 1] by metis
next
  case (2 s a)
  then show ?case using free_inv[OF 2] free_bounds[OF 2] by simp
next
  case (3 s r)
  then show ?case
    by (auto simp: gm_inv_def live_regions_def part_region_def dest: tiles_bounds)
qed

section \<open>Properties\<close>

text \<open>C4: Whenever the check admits a request, the allocation hands out a region of
  the requested size that lies in the managed memory and is disjoint from every
  region in use, records it under the guest's type, and the blocks still tile
  the managed memory without gap, overlap or adjacent free blocks.\<close>

theorem allocate_guest_memory_part_correct:
  assumes "gm_inv mm" "0 < sz" "allocate_guest_memory_part_check sz mm"
    "allocate_guest_memory_part os sz mm = (a, mm')"
  shows "gm_inv mm' \<and> live_regions mm' = insert (a, sz, os) (live_regions mm)
    \<and> (\<forall>r\<in>live_regions mm. region_disjoint r (a, sz, os))
    \<and> region_within (unat (base_addr mm)) (gm_end mm) (a, sz, os)"
  using guest_memory.alloc_ok[OF assms] guest_memory.live_within[of mm' "(a, sz, os)"] by auto

definition gm_example :: GuestMemoryManager where
  "gm_example = guest_memory_manager_init 0x48000000 0x8000000"

lemma gm_example_inv: "gm_inv gm_example" "live_regions gm_example = {}"
  unfolding gm_example_def by (rule guest_memory_manager_init_inv; simp)+

lemma gm_example_check: "allocate_guest_memory_part_check 0x2000000 gm_example"
  by code_simp

theorem allocate_guest_memory_part_correct_witness:
  "\<exists>mm'. allocate_guest_memory_part 0 0x2000000 gm_example = (0x48000000, mm') \<and> gm_inv mm'
    \<and> live_regions mm' = {(0x48000000, 0x2000000, 0)}"
proof -
  have a: "fst (allocate_guest_memory_part 0 0x2000000 gm_example) = 0x48000000" by code_simp
  then have "allocate_guest_memory_part 0 0x2000000 gm_example
      = (0x48000000, snd (allocate_guest_memory_part 0 0x2000000 gm_example))"
    by (simp add: prod_eq_iff)
  from allocate_guest_memory_part_correct[OF gm_example_inv(1) _ gm_example_check this]
  show ?thesis using gm_example_inv(2) a by (auto simp: prod_eq_iff intro!: exI[of _ "snd (allocate_guest_memory_part 0 0x2000000 gm_example)"])
qed

lemma allocate_returns:
  assumes inv: "gm_inv mm" and base: "0 < base_addr mm" and pos: "0 < sz"
  shows "fst (allocate_guest_memory_part os sz mm) \<noteq> 0 \<longleftrightarrow> allocate_guest_memory_part_check sz mm"
proof (cases "allocate_guest_memory_part_check sz mm")
  case True
  obtain a mm' where al: "allocate_guest_memory_part os sz mm = (a, mm')" by force
  have "region_within (unat (base_addr mm)) (gm_end mm) (a, sz, os)"
    using guest_memory.alloc_ok[OF inv pos True al] guest_memory.live_within[of mm' "(a, sz, os)"] by auto
  then show ?thesis using True al base by (auto simp: word_less_nat_alt)
next
  case False
  then show ?thesis
    by (auto simp: allocate_guest_memory_part_check_def allocate_guest_memory_part_def Let_def
        split: option.splits)
qed

lemma check_first_fit:
  assumes wf: "gm_wf mm"
  shows "allocate_guest_memory_part_check sz mm \<longleftrightarrow>
    (case List.find (blk_fits sz) (blocks mm) of None \<Rightarrow> False | Some b \<Rightarrow> part_size b = sz \<or> blk_count mm < 16)"
proof (cases "first_fit sz mm")
  case None
  then have "List.find (blk_fits sz) (blocks mm) = None"
    using first_fit_None_blocks[OF wf, of sz] by (auto simp: find_None_iff blk_fits_def)
  then show ?thesis using None by (simp add: allocate_guest_memory_part_check_def)
next
  case (Some i)
  obtain xs b ys where b: "blocks mm = xs @ b # ys" "\<not> is_allocated b" "sz \<le> part_size b"
    "\<forall>x\<in>set xs. is_allocated x \<or> part_size x < sz" "blk_list mm ! i = b"
    using first_fit_Some_blocks[OF wf Some] by metis
  then have "List.find (blk_fits sz) xs = None" "blk_fits sz b"
    by (auto simp: find_None_iff blk_fits_def)
  then have "List.find (blk_fits sz) (blocks mm) = Some b"
    using b(1) by (auto simp: find_append)
  then show ?thesis using b Some by (auto simp: allocate_guest_memory_part_check_def)
qed

text \<open>\<^verbatim>\<open>allocate_guest_memory_part_check\<close> predicts the allocation exactly: a region is
  handed out (a non-zero address is returned) if and only if the check answers
  true, which is the case if some free block is large enough and either the
  first such block has the exact size or a block entry is left for the
  remainder.\<close>

theorem allocate_guest_memory_part_check_exact:
  assumes "gm_inv mm" "0 < base_addr mm" "0 < sz"
  shows "(fst (allocate_guest_memory_part os sz mm) \<noteq> 0 \<longleftrightarrow> allocate_guest_memory_part_check sz mm)
    \<and> (allocate_guest_memory_part_check sz mm \<longleftrightarrow>
       (case List.find (blk_fits sz) (blocks mm) of None \<Rightarrow> False
        | Some b \<Rightarrow> part_size b = sz \<or> blk_count mm < 16))"
  using allocate_returns[OF assms] check_first_fit assms(1) by (simp add: gm_inv_def)

theorem allocate_guest_memory_part_check_exact_witness:
  "fst (allocate_guest_memory_part 0 0x2000000 gm_example) \<noteq> 0
   \<and> fst (allocate_guest_memory_part 0 0x9000000 gm_example) = 0"
proof -
  have base: "0 < base_addr gm_example"
    and "\<not> allocate_guest_memory_part_check 0x9000000 gm_example" by code_simp+
  then show ?thesis
    using allocate_guest_memory_part_check_exact[OF gm_example_inv(1) base, of "0x2000000" 0, THEN conjunct1]
      allocate_guest_memory_part_check_exact[OF gm_example_inv(1) base, of "0x9000000" 0, THEN conjunct1]
      gm_example_check by simp
qed

text \<open>\<^verbatim>\<open>free_guest_memory_part\<close> takes back exactly the region that starts at the
  given address, for any address, and merges the freed block with its free
  neighbours, so the blocks again tile the memory without adjacent free
  blocks.\<close>

theorem free_guest_memory_part_correct:
  assumes "gm_inv mm"
  shows "gm_inv (free_guest_memory_part a mm)
    \<and> live_regions (free_guest_memory_part a mm) = {r \<in> live_regions mm. fst r \<noteq> a}"
  using free_inv[OF assms] .

theorem free_guest_memory_part_correct_witness:
  "\<exists>mm. gm_inv mm \<and> live_regions mm = {(0x48000000, 0x2000000, 0)}
    \<and> gm_inv (free_guest_memory_part 0x48000000 mm)
    \<and> live_regions (free_guest_memory_part 0x48000000 mm) = {}"
proof -
  obtain a mm where al: "allocate_guest_memory_part 0 0x2000000 gm_example = (a, mm)" by force
  have "fst (allocate_guest_memory_part 0 0x2000000 gm_example) = 0x48000000" by code_simp
  then have "a = 0x48000000" using al by simp
  then have "gm_inv mm" "live_regions mm = {(0x48000000, 0x2000000, 0)}"
    using guest_memory.alloc_ok[OF gm_example_inv(1) _ gm_example_check al] gm_example_inv(2) by auto
  then show ?thesis using free_guest_memory_part_correct[of mm "0x48000000"] by auto
qed

section \<open>Round trip\<close>

text \<open>The map of the memory as the log prints it: start, size and owner of each block.\<close>

definition memory_map :: "GuestMemoryManager \<Rightarrow> (u64 \<times> u64 \<times> u16 option) list" where
  "memory_map mm = map (\<lambda>b. (start_addr b, part_size b,
     if is_allocated b then Some (part_os_type b) else None)) (blocks mm)"

lemma distinct_decomp:
  assumes "distinct (map f l)" "l = xs @ b # ys" "l = xs' @ b' # ys'" "f b = f b'"
  shows "xs = xs' \<and> b = b' \<and> ys = ys'"
proof -
  have "map f l ! length xs = f b" "length xs < length l" 
    using assms(2) by (auto simp: nth_append)
  moreover have "map f l ! length xs' = f b'" "length xs' < length l"
    using assms(3) by (auto simp: nth_append)
  ultimately have "length xs = length xs'"
    using nth_eq_iff_index_eq[OF assms(1)] assms(4) by (metis length_map)
  then show ?thesis using assms(2,3) by simp
qed

lemma tiles_distinct: "tiles a bs e \<Longrightarrow> distinct (map start_addr bs)"
proof (induction bs arbitrary: a)
  case (Cons b bs)
  then have "start_addr x \<noteq> start_addr b" if "x \<in> set bs" for x
    using tiles_start_unique[of a "[]" b bs e x] that by auto
  then show ?case using Cons by force
qed simp

lemma free_at:
  assumes inv: "gm_inv mm" and bs: "blocks mm = xs @ b # ys" and b: "is_allocated b"
  shows "blocks (free_guest_memory_part (start_addr b) mm) = freed_blocks xs b ys"
proof -
  have wf: "gm_wf mm" using inv by (simp add: gm_inv_def)
  have "(start_addr b, part_size b, part_os_type b) \<in> live_regions mm"
    using b by (auto simp: live_regions_def bs part_region_def image_iff)
  then obtain i where "find_block (start_addr b) mm = Some i"
    using free_not_found(2)[OF wf] by (cases "find_block (start_addr b) mm") force+
  then obtain xs' b' ys' where "blocks mm = xs' @ b' # ys'" "start_addr b' = start_addr b"
    "blocks (free_guest_memory_part (start_addr b) mm) = freed_blocks xs' b' ys'"
    using free_found[OF inv] by metis
  moreover have "distinct (map start_addr (blocks mm))"
    using inv tiles_distinct by (auto simp: gm_inv_def)
  ultimately show ?thesis using distinct_decomp bs by metis
qed

lemma successively_free_context:
  assumes "coalesced (xs @ b # ys)" "\<not> is_allocated b"
  shows "xs = [] \<or> is_allocated (last xs)" "ys = [] \<or> is_allocated (hd ys)"
  using assms by (cases ys; cases xs rule: rev_cases;
      auto simp: coalesced_def successively_append_iff successively_Cons)+

lemma freed_blocks_split:
  assumes "coalesced (xs @ b # ys)" "\<not> is_allocated b"
  shows "freed_blocks xs (taken_part b os sz) (rest_part b sz t # ys)
    = xs @ \<lparr>start_addr = start_addr b, part_size = part_size b, is_allocated = False, part_os_type = os\<rparr> # ys"
  using successively_free_context[OF assms]
  by (auto simp: join_prev_def taken_part_def rest_part_def joined_part_def)

lemma freed_blocks_exact:
  assumes "coalesced (xs @ b # ys)" "\<not> is_allocated b" "part_size b = sz"
  shows "freed_blocks xs (taken_part b os sz) ys
    = xs @ \<lparr>start_addr = start_addr b, part_size = part_size b, is_allocated = False, part_os_type = os\<rparr> # ys"
  using successively_free_context[OF assms(1,2)] assms(3)
  by (cases ys) (auto simp: join_prev_def taken_part_def)

text \<open>Releasing a region right after its allocation restores the memory map: every
  block has its former start, size and owner again.\<close>

theorem allocate_free_roundtrip:
  assumes inv: "gm_inv mm" and pos: "0 < sz" and ok: "allocate_guest_memory_part_check sz mm"
    and al: "allocate_guest_memory_part os sz mm = (a, mm')"
  shows "memory_map (free_guest_memory_part a mm') = memory_map mm"
proof -
  have wf: "gm_wf mm" and co: "coalesced (blocks mm)" using inv by (auto simp: gm_inv_def)
  have inv': "gm_inv mm'" using guest_memory.alloc_ok[OF assms] by simp
  obtain i where ff: "first_fit sz mm = Some i"
    using ok by (auto simp: allocate_guest_memory_part_check_def split: option.splits)
  obtain xs b ys where bs: "blocks mm = xs @ b # ys" "length xs = i"
    and b: "\<not> is_allocated b" "sz \<le> part_size b" and nth: "blk_list mm ! i = b"
    using first_fit_Some_blocks[OF wf ff] by metis
  have "blocks (free_guest_memory_part a mm') = xs @
    \<lparr>start_addr = start_addr b, part_size = part_size b, is_allocated = False, part_os_type = os\<rparr> # ys"
  proof (cases "sz < part_size b")
    case True
    then have n: "blk_count mm < 16" using ok ff nth by (auto simp: allocate_guest_memory_part_check_def)
    obtain t where t: "a = start_addr b" "blocks mm' = xs @ taken_part b os sz # rest_part b sz t # ys"
      using allocate_split_blocks[OF wf ff n bs True al] by metis
    then show ?thesis
      using free_at[OF inv' t(2)] freed_blocks_split co b(1) bs(1) by (simp add: taken_part_def)
  next
    case False
    note t = allocate_exact_blocks[OF wf ff bs False al]
    have "part_size b = sz" using False b(2) by simp
    then show ?thesis
      using free_at[OF inv' t(6)] freed_blocks_exact co b(1) bs(1) t(1) by (simp add: taken_part_def)
  qed
  then show ?thesis using bs b unfolding memory_map_def by simp
qed

theorem allocate_free_roundtrip_witness:
  "memory_map (free_guest_memory_part 0x48000000 (snd (allocate_guest_memory_part 1 0x2000000 gm_example)))
    = [(0x48000000, 0x8000000, None)]"
proof -
  have "fst (allocate_guest_memory_part 1 0x2000000 gm_example) = 0x48000000" by code_simp
  then have "allocate_guest_memory_part 1 0x2000000 gm_example
      = (0x48000000, snd (allocate_guest_memory_part 1 0x2000000 gm_example))"
    by (simp add: prod_eq_iff)
  from allocate_free_roundtrip[OF gm_example_inv(1) _ gm_example_check this]
  show ?thesis by (simp add: memory_map_def gm_example_def blocks_init zero_part_def)
qed

text \<open>C3: Guest memory isolation. Whatever regions are requested (as far as the check
  admits them) and released, in any order, the regions in use are always
  pairwise disjoint and inside the managed memory.\<close>

theorem guest_regions_isolated:
  assumes "0 < total_mem" "unat base + unat total_mem < 2 ^ 64"
  shows "pairwise region_disjoint
      (live_regions (fold guest_memory.serve reqs (guest_memory_manager_init base total_mem)))
    \<and> (\<forall>r\<in>live_regions (fold guest_memory.serve reqs (guest_memory_manager_init base total_mem)).
         region_within (unat base) (unat base + unat total_mem) r)"
  using guest_memory.serve_all[OF guest_memory_manager_init_inv(1)[OF assms], of reqs]
    guest_memory_manager_init_inv(2)[OF assms]
  by (simp add: guest_memory_manager_init_def Let_def)

theorem guest_regions_isolated_witness:
  "pairwise region_disjoint (live_regions (fold guest_memory.serve
     [Take 0 0x2000000, Take 1 0x1000000, Drop 0x48000000, Take 0 0x1000000]
     (guest_memory_manager_init 0x48000000 0x8000000)))"
  by (rule guest_regions_isolated[THEN conjunct1]) simp_all

section \<open>A lost block\<close>

lemma tiles_sum: "tiles a bs e \<Longrightarrow> a + (\<Sum>b\<leftarrow>bs. unat (part_size b)) = e"
  by (induction bs arbitrary: a) (force simp: add.assoc[symmetric])+

text \<open>When all sixteen block entries are in use and the first free block that is
  large enough is larger than the request, the allocation fails (it returns 0)
  only after it has marked and shrunk the block: the region stays recorded as
  allocated although nobody owns it, and the remainder of the block belongs to no
  block any more.\<close>

theorem allocate_full_table_loses_memory:
  assumes inv: "gm_inv mm" and full: "blk_count mm = 16" and ff: "first_fit sz mm = Some i"
    and big: "sz < part_size (blk_list mm ! i)"
    and al: "allocate_guest_memory_part os sz mm = (a, mm')"
  shows "a = 0 \<and> (\<Sum>b\<leftarrow>blocks mm'. unat (part_size b)) < unat (total_memory mm)
    \<and> live_regions mm' = insert (start_addr (blk_list mm ! i), sz, os) (live_regions mm)"
proof -
  have wf: "gm_wf mm" using inv by (simp add: gm_inv_def)
  obtain xs b ys where bs: "blocks mm = xs @ b # ys" "length xs = i" "\<not> is_allocated b"
    and nth: "blk_list mm ! i = b"
    using first_fit_Some_blocks[OF wf ff] by metis
  have al': "a = 0" "mm' = mm\<lparr>blk_list := (blk_list mm)[i := taken_part b os sz]\<rparr>"
    using al ff big full nth by (auto simp: allocate_guest_memory_part_def taken_part_def)
  then have bs': "blocks mm' = xs @ taken_part b os sz # ys"
    using bs by (auto simp: blocks_def take_update_swap)
  have "(\<Sum>b\<leftarrow>blocks mm. unat (part_size b)) = unat (total_memory mm)"
    using inv tiles_sum by (fastforce simp: gm_inv_def)
  then have "(\<Sum>b\<leftarrow>blocks mm'. unat (part_size b)) < unat (total_memory mm)"
    using big nth by (simp add: bs bs' taken_part_def word_less_nat_alt)
  moreover have "{x \<in> set (blocks mm'). is_allocated x} = insert (taken_part b os sz) {x \<in> set (blocks mm). is_allocated x}"
    using bs(3) by (auto simp: bs(1) bs' taken_part_def)
  ultimately show ?thesis
    using al'(1) nth by (simp add: live_regions_def part_region_def taken_part_def)
qed

text \<open>Fifteen guests of one megabyte each, with one megabyte and a half left.\<close>

definition gm_full :: GuestMemoryManager where
  "gm_full = \<lparr>total_memory = 0x1080000, base_addr = 0x40000000,
    blk_list = map (\<lambda>i. \<lparr>start_addr = 0x40000000 + 0x100000 * of_nat i, part_size = 0x100000,
        is_allocated = True, part_os_type = 0\<rparr>) [0..<15]
      @ [\<lparr>start_addr = 0x40F00000, part_size = 0x180000, is_allocated = False, part_os_type = 0\<rparr>],
    blk_count = 16\<rparr>"

lemma gm_full_inv: "gm_inv gm_full"
  by (simp add: gm_inv_def gm_full_def gm_wf_def blocks_def coalesced_def upt_rec)

theorem allocate_full_table_loses_memory_witness:
  "gm_inv gm_full \<and> fst (allocate_guest_memory_part 1 0x100000 gm_full) = 0
    \<and> (0x40F00000, 0x100000, 1) \<in> live_regions (snd (allocate_guest_memory_part 1 0x100000 gm_full))"
proof -
  have "blk_count gm_full = 16" "first_fit 0x100000 gm_full = Some 15"
    "0x100000 < part_size (blk_list gm_full ! 15)" "start_addr (blk_list gm_full ! 15) = 0x40F00000"
    by code_simp+
  then show ?thesis
    using allocate_full_table_loses_memory[OF gm_full_inv, of "0x100000" 15 1] gm_full_inv
    by (metis insertI1 prod.collapse)
qed

end
