(* ===== verification/Vcpu_Alloc.thy ===== *)
theory Vcpu_Alloc
  imports Vmid
begin

text \<open>
  Placement of virtual CPUs on physical CPUs (\<^verbatim>\<open>subsys/zvm/vm_cpu.c\<close>, first part).
  Physical CPU 0 is the host's; the next \<^verbatim>\<open>MAX_GUEST_NUM_LINUX_PCPU\<close> CPUs form the
  non-real-time domain, the remaining ones the real-time domain. A real-time
  vCPU gets a physical CPU of its own, non-real-time vCPUs of different VMs may
  share one.

  The linked lists of \<^verbatim>\<open>struct vcpu_pcpu_mapping\<close> are lists of vCPU handles, one
  per physical CPU, newest first. The usage counters are the field \<^verbatim>\<open>vcpu_use\<close> of
  the manager's record. Board and build configuration are fields of the state.
  \<^verbatim>\<open>k_malloc\<close> may fail: its outcome is an argument.
\<close>

section \<open>State\<close>

record vcpu_sched =
  mp_max_num_cpus :: nat
  max_guest_num_linux_pcpu :: nat
  max_vcpu_percpu :: int
  zvm_overall_info :: zvm_manage_info
  vcpu_pcpu_map :: "nat list list"
  vcpu_vm :: "nat \<Rightarrow> nat"
  vm_is_rtos :: "nat \<Rightarrow> bool"
  pre_alloc_pcpu :: "nat \<Rightarrow> u16"

abbreviation use_of :: "vcpu_sched \<Rightarrow> int list" where
  "use_of s \<equiv> vcpu_use (zvm_overall_info s)"

definition set_use :: "nat \<Rightarrow> int \<Rightarrow> vcpu_sched \<Rightarrow> vcpu_sched" where
  "set_use p n s = s\<lparr>zvm_overall_info := (zvm_overall_info s)\<lparr>vcpu_use := (use_of s)[p := n]\<rparr>\<rparr>"

definition OS_TYPE_LINUX :: u16 where
  "OS_TYPE_LINUX = 1"

section \<open>Operations\<close>

definition guest_os_is_rtos :: "u16 \<Rightarrow> bool" where
  "guest_os_is_rtos os_type = (if os_type = OS_TYPE_LINUX then False else True)"

definition pcpu_has_vm_vcpu :: "nat \<Rightarrow> nat \<Rightarrow> vcpu_sched \<Rightarrow> bool" where
  "pcpu_has_vm_vcpu pcpu vcpu s = list_ex (\<lambda>v. vcpu_vm s v = vcpu_vm s vcpu) (vcpu_pcpu_map s ! pcpu)"

text \<open>The arrays are indexed before the range check, so the branch that returns -1
  is never reached with a valid index.\<close>

definition add_vcpu_to_pcpu :: "bool \<Rightarrow> nat \<Rightarrow> nat \<Rightarrow> vcpu_sched \<Rightarrow> (int \<times> vcpu_sched) outcome" where
  "add_vcpu_to_pcpu malloc_ok pcpu vcpu s =
    (if \<not> malloc_ok \<or> mp_max_num_cpus s \<le> pcpu then Fault
     else let s' = set_use pcpu (use_of s ! pcpu + 1)
                (s\<lparr>vcpu_pcpu_map := (vcpu_pcpu_map s)[pcpu := vcpu # vcpu_pcpu_map s ! pcpu]\<rparr>)
          in if mp_max_num_cpus s - 1 < pcpu then Done (-1, s')
             else Done (int pcpu, s'\<lparr>pre_alloc_pcpu := (pre_alloc_pcpu s')(vcpu := of_nat pcpu)\<rparr>))"

definition remove_vcpu_from_pcpu :: "nat \<Rightarrow> nat \<Rightarrow> vcpu_sched \<Rightarrow> vcpu_sched outcome" where
  "remove_vcpu_from_pcpu pcpu vcpu s =
    (if mp_max_num_cpus s \<le> pcpu then Fault
     else if vcpu \<in> set (vcpu_pcpu_map s ! pcpu)
     then Done (set_use pcpu (use_of s ! pcpu - 1)
       (s\<lparr>vcpu_pcpu_map := (vcpu_pcpu_map s)[pcpu := remove1 vcpu (vcpu_pcpu_map s ! pcpu)]\<rparr>))
     else Done s)"

definition get_vcpu_domain_range :: "bool \<Rightarrow> vcpu_sched \<Rightarrow> nat \<times> nat" where
  "get_vcpu_domain_range is_rtos s =
    (if is_rtos then (1 + max_guest_num_linux_pcpu s, mp_max_num_cpus s)
     else (1, 1 + max_guest_num_linux_pcpu s))"

definition find_pcpu :: "nat \<Rightarrow> vcpu_sched \<Rightarrow> nat option" where
  "find_pcpu vcpu s =
    (let rtos = vm_is_rtos s (vcpu_vm s vcpu);
         (domain_start, domain_end) = get_vcpu_domain_range rtos s;
         layer1 = List.find (\<lambda>pcpu. use_of s ! pcpu = 0) [domain_start..<domain_end]
     in if rtos then layer1
        else if max_vcpu_percpu s = 2 \<and> layer1 = None
        then List.find (\<lambda>pcpu. use_of s ! pcpu = 1 \<and> \<not> pcpu_has_vm_vcpu pcpu vcpu s) [domain_start..<domain_end]
        else layer1)"

definition pre_alloc_vcpu_single :: "bool \<Rightarrow> nat \<Rightarrow> vcpu_sched \<Rightarrow> (bool \<times> vcpu_sched) outcome" where
  "pre_alloc_vcpu_single malloc_ok vcpu s = (case find_pcpu vcpu s of
     None \<Rightarrow> Done (False, s)
   | Some pcpu \<Rightarrow> bind_outcome (add_vcpu_to_pcpu malloc_ok pcpu vcpu s)
       (\<lambda>(r, s'). Done (r \<noteq> 0, s')))"

definition vcpu_margin_check :: "u16 \<Rightarrow> int \<Rightarrow> vcpu_sched \<Rightarrow> bool" where
  "vcpu_margin_check os_type num s =
    (let (domain_start, domain_end) = get_vcpu_domain_range (guest_os_is_rtos os_type) s;
         max_vcpu = (if guest_os_is_rtos os_type then 1 else max_vcpu_percpu s);
         available = fold (\<lambda>pcpu n. if use_of s ! pcpu < max_vcpu then n + 1 else n)
           [domain_start..<domain_end] 0
     in num \<le> available)"

definition release_vcpu :: "nat \<Rightarrow> vcpu_sched \<Rightarrow> vcpu_sched outcome" where
  "release_vcpu vcpu s =
    (if uint (pre_alloc_pcpu s vcpu) \<noteq> -1
     then bind_outcome (remove_vcpu_from_pcpu (unat (pre_alloc_pcpu s vcpu)) vcpu s)
       (\<lambda>s'. Done (s'\<lparr>pre_alloc_pcpu := (pre_alloc_pcpu s')(vcpu := -1)\<rparr>))
     else Done s)"

section \<open>Invariant\<close>

definition pcpu_cap :: "bool \<Rightarrow> vcpu_sched \<Rightarrow> nat" where
  "pcpu_cap rtos s = (if rtos then 1 else nat (max_vcpu_percpu s))"

definition domain_of :: "bool \<Rightarrow> vcpu_sched \<Rightarrow> nat set" where
  "domain_of rtos s = (if rtos then {1 + max_guest_num_linux_pcpu s..<mp_max_num_cpus s}
     else {1..<1 + max_guest_num_linux_pcpu s})"

definition sched_cfg :: "vcpu_sched \<Rightarrow> bool" where
  "sched_cfg s \<longleftrightarrow> 1 + max_guest_num_linux_pcpu s \<le> mp_max_num_cpus s \<and> mp_max_num_cpus s < 2 ^ 16
     \<and> max_vcpu_percpu s \<in> {1, 2} \<and> length (vcpu_pcpu_map s) = mp_max_num_cpus s
     \<and> length (use_of s) = mp_max_num_cpus s"

text \<open>What holds of one physical CPU: its counter counts its vCPUs, they belong to
  pairwise different VMs, all of them to the domain of the CPU, there are no
  more than the domain allows, and each of them records this CPU as its own.\<close>

definition pcpu_ok :: "vcpu_sched \<Rightarrow> nat \<Rightarrow> bool" where
  "pcpu_ok s p \<longleftrightarrow>
     use_of s ! p = int (length (vcpu_pcpu_map s ! p))
     \<and> distinct (map (vcpu_vm s) (vcpu_pcpu_map s ! p))
     \<and> (\<forall>v\<in>set (vcpu_pcpu_map s ! p). pre_alloc_pcpu s v = of_nat p
          \<and> p \<in> domain_of (vm_is_rtos s (vcpu_vm s v)) s
          \<and> length (vcpu_pcpu_map s ! p) \<le> pcpu_cap (vm_is_rtos s (vcpu_vm s v)) s)"

definition sched_inv :: "vcpu_sched \<Rightarrow> bool" where
  "sched_inv s \<longleftrightarrow> sched_cfg s \<and> (\<forall>p<mp_max_num_cpus s. pcpu_ok s p)"

definition placed :: "vcpu_sched \<Rightarrow> nat \<Rightarrow> bool" where
  "placed s v \<longleftrightarrow> (\<exists>p<mp_max_num_cpus s. v \<in> set (vcpu_pcpu_map s ! p))"

text \<open>The physical CPUs that can still take a vCPU of a VM.\<close>

definition free_pcpus :: "nat \<Rightarrow> vcpu_sched \<Rightarrow> nat set" where
  "free_pcpus vm s = {p \<in> domain_of (vm_is_rtos s vm) s.
     length (vcpu_pcpu_map s ! p) < pcpu_cap (vm_is_rtos s vm) s
     \<and> vm \<notin> vcpu_vm s ` set (vcpu_pcpu_map s ! p)}"

section \<open>Finding a physical CPU\<close>

lemma set_use_simps [simp]:
  "vcpu_pcpu_map (set_use p n s) = vcpu_pcpu_map s" "vcpu_vm (set_use p n s) = vcpu_vm s"
  "vm_is_rtos (set_use p n s) = vm_is_rtos s" "pre_alloc_pcpu (set_use p n s) = pre_alloc_pcpu s"
  "mp_max_num_cpus (set_use p n s) = mp_max_num_cpus s"
  "max_guest_num_linux_pcpu (set_use p n s) = max_guest_num_linux_pcpu s"
  "max_vcpu_percpu (set_use p n s) = max_vcpu_percpu s" "use_of (set_use p n s) = (use_of s)[p := n]"
  by (simp_all add: set_use_def)

lemma domain_iff:
  "p \<in> domain_of r s \<longleftrightarrow> fst (get_vcpu_domain_range r s) \<le> p \<and> p < snd (get_vcpu_domain_range r s)"
  by (simp add: get_vcpu_domain_range_def domain_of_def)

lemma domain_less: "sched_cfg s \<Longrightarrow> p \<in> domain_of r s \<Longrightarrow> p < mp_max_num_cpus s"
  by (auto simp: domain_of_def sched_cfg_def split: if_splits)

lemma use_of_domain:
  assumes "sched_inv s" "p \<in> domain_of r s"
  shows "use_of s ! p = int (length (vcpu_pcpu_map s ! p))"
  using assms domain_less by (auto simp: sched_inv_def pcpu_ok_def)

text \<open>The two search layers together find exactly the CPUs that can take the vCPU.\<close>

lemma free_pcpus_layers:
  assumes "sched_inv s" and m: "m = vcpu_vm s v"
  shows "free_pcpus m s = {p \<in> domain_of (vm_is_rtos s m) s. use_of s ! p = 0
      \<or> \<not> vm_is_rtos s m \<and> max_vcpu_percpu s = 2 \<and> use_of s ! p = 1 \<and> \<not> pcpu_has_vm_vcpu p v s}"
proof -
  have "max_vcpu_percpu s = 1 \<or> max_vcpu_percpu s = 2"
    using assms(1) by (simp add: sched_inv_def sched_cfg_def)
  then show ?thesis
    using use_of_domain[OF assms(1)] unfolding m free_pcpus_def pcpu_cap_def pcpu_has_vm_vcpu_def list_ex_iff
    by (auto simp: less_Suc_eq numeral_2_eq_2) (metis imageI)
qed

lemma find_pcpu_layers:
  "find_pcpu v s = (let r = vm_is_rtos s (vcpu_vm s v); ds = [fst (get_vcpu_domain_range r s)..<snd (get_vcpu_domain_range r s)];
      l = List.find (\<lambda>p. use_of s ! p = 0) ds
    in if \<not> r \<and> max_vcpu_percpu s = 2 \<and> l = None
       then List.find (\<lambda>p. use_of s ! p = 1 \<and> \<not> pcpu_has_vm_vcpu p v s) ds else l)"
  by (auto simp: find_pcpu_def Let_def split: prod.splits)

lemma find_pcpu_Some:
  assumes "sched_inv s" "find_pcpu v s = Some p"
  shows "p \<in> free_pcpus (vcpu_vm s v) s"
  using assms(2) unfolding free_pcpus_layers[OF assms(1) refl] find_pcpu_layers Let_def
  by (auto simp: find_upt_Some_iff domain_iff split: if_splits)

lemma find_pcpu_None:
  assumes "sched_inv s" "find_pcpu v s = None"
  shows "free_pcpus (vcpu_vm s v) s = {}"
  using assms(2) unfolding free_pcpus_layers[OF assms(1) refl] find_pcpu_layers Let_def
  by (auto simp: find_upt_None_iff domain_iff split: if_splits)

section \<open>Placing and releasing a vCPU\<close>

definition place :: "nat \<Rightarrow> nat \<Rightarrow> vcpu_sched \<Rightarrow> vcpu_sched" where
  "place p v s = (set_use p (use_of s ! p + 1)
     (s\<lparr>vcpu_pcpu_map := (vcpu_pcpu_map s)[p := v # vcpu_pcpu_map s ! p]\<rparr>))
       \<lparr>pre_alloc_pcpu := (pre_alloc_pcpu s)(v := of_nat p)\<rparr>"

lemma place_simps [simp]:
  "vcpu_pcpu_map (place p v s) = (vcpu_pcpu_map s)[p := v # vcpu_pcpu_map s ! p]"
  "vcpu_vm (place p v s) = vcpu_vm s" "vm_is_rtos (place p v s) = vm_is_rtos s"
  "pre_alloc_pcpu (place p v s) = (pre_alloc_pcpu s)(v := of_nat p)"
  "mp_max_num_cpus (place p v s) = mp_max_num_cpus s"
  "max_vcpu_percpu (place p v s) = max_vcpu_percpu s"
  "use_of (place p v s) = (use_of s)[p := use_of s ! p + 1]"
  "domain_of r (place p v s) = domain_of r s" "pcpu_cap r (place p v s) = pcpu_cap r s"
  "sched_cfg (place p v s) \<longleftrightarrow> sched_cfg s"
  by (simp_all add: place_def domain_of_def pcpu_cap_def sched_cfg_def set_use_def)

lemma pre_alloc_vcpu_single_eq:
  assumes "sched_inv s"
  shows "pre_alloc_vcpu_single True v s = (case find_pcpu v s of None \<Rightarrow> Done (False, s)
    | Some p \<Rightarrow> Done (True, place p v s))"
proof (cases "find_pcpu v s")
  case (Some p)
  then have p: "p \<in> domain_of (vm_is_rtos s (vcpu_vm s v)) s"
    using find_pcpu_Some[OF assms] by (simp add: free_pcpus_def)
  then have "p \<noteq> 0" "p < mp_max_num_cpus s"
    using assms domain_less by (auto simp: domain_of_def sched_inv_def split: if_splits)
  then show ?thesis
    using Some by (simp add: pre_alloc_vcpu_single_def add_vcpu_to_pcpu_def Let_def place_def)
qed (simp add: pre_alloc_vcpu_single_def)

lemma placed_unplaced_pcpu:
  "\<not> placed s v \<Longrightarrow> p < mp_max_num_cpus s \<Longrightarrow> v \<notin> set (vcpu_pcpu_map s ! p)"
  by (auto simp: placed_def)

lemma place_inv:
  assumes inv: "sched_inv s" and new: "\<not> placed s v" and p: "p \<in> free_pcpus (vcpu_vm s v) s"
  shows "sched_inv (place p v s)"
proof -
  have cfg: "sched_cfg s" and pd: "p < mp_max_num_cpus s" and ok: "\<And>q. q < mp_max_num_cpus s \<Longrightarrow> pcpu_ok s q"
    using inv p domain_less by (auto simp: sched_inv_def free_pcpus_def)
  have len: "p < length (vcpu_pcpu_map s)" "p < length (use_of s)"
    using cfg pd by (auto simp: sched_cfg_def)
  have "pcpu_ok (place p v s) q" if q: "q < mp_max_num_cpus s" for q
  proof (cases "q = p")
    case True
    have same: "vm_is_rtos s (vcpu_vm s x) = vm_is_rtos s (vcpu_vm s v)" if "x \<in> set (vcpu_pcpu_map s ! p)" for x
      using ok[OF pd] that p
      by (auto simp: pcpu_ok_def free_pcpus_def domain_of_def split: if_splits)
    show ?thesis
      using ok[OF pd] p len same True new pd
      by (auto simp: pcpu_ok_def free_pcpus_def placed_unplaced_pcpu)
  next
    case False
    then show ?thesis
      using ok[OF q] placed_unplaced_pcpu[OF new q] by (auto simp: pcpu_ok_def)
  qed
  then show ?thesis using cfg by (simp add: sched_inv_def)
qed

lemma place_free_pcpus:
  assumes "sched_inv s" "p \<in> free_pcpus (vcpu_vm s v) s"
  shows "free_pcpus (vcpu_vm s v) (place p v s) = free_pcpus (vcpu_vm s v) s - {p}"
proof -
  have "p < length (vcpu_pcpu_map s)"
    using assms domain_less by (auto simp: free_pcpus_def sched_inv_def sched_cfg_def)
  then show ?thesis by (auto simp: free_pcpus_def nth_list_update)
qed

lemma place_placed:
  assumes "sched_inv s" "p \<in> free_pcpus (vcpu_vm s v) s"
  shows "placed (place p v s) x \<longleftrightarrow> x = v \<or> placed s x"
proof -
  have "p < mp_max_num_cpus s" "p < length (vcpu_pcpu_map s)"
    using assms domain_less by (auto simp: free_pcpus_def sched_inv_def sched_cfg_def)
  then show ?thesis by (auto simp: placed_def nth_list_update)
qed

lemma free_pcpus_finite: "finite (free_pcpus m s)"
  by (rule finite_subset[of _ "domain_of (vm_is_rtos s m) s"]) (auto simp: free_pcpus_def domain_of_def)

section \<open>Placing all vCPUs of a VM\<close>

text \<open>The placements that the creation of a VM's vCPUs makes one after the other; it
  stops at the first vCPU that finds no physical CPU.\<close>

fun pre_alloc_vcpus :: "nat list \<Rightarrow> vcpu_sched \<Rightarrow> (bool \<times> vcpu_sched) outcome" where
  "pre_alloc_vcpus [] s = Done (True, s)"
| "pre_alloc_vcpus (v # vs) s = bind_outcome (pre_alloc_vcpu_single True v s)
     (\<lambda>(ok, s'). if ok then pre_alloc_vcpus vs s' else Done (False, s'))"

lemma pre_alloc_returns:
  assumes "sched_inv s"
  obtains ok s' where "pre_alloc_vcpu_single True v s = Done (ok, s')"
  using pre_alloc_vcpu_single_eq[OF assms] by (cases "find_pcpu v s") auto

lemma pre_alloc_step:
  assumes inv: "sched_inv s" and new: "\<not> placed s v" and al: "pre_alloc_vcpu_single True v s = Done (ok, s')"
  shows "sched_inv s'" "vcpu_vm s' = vcpu_vm s" "vm_is_rtos s' = vm_is_rtos s" "domain_of r s' = domain_of r s"
    "ok \<longleftrightarrow> free_pcpus (vcpu_vm s v) s \<noteq> {}" "\<not> ok \<Longrightarrow> s' = s"
    "ok \<Longrightarrow> card (free_pcpus (vcpu_vm s v) s') + 1 = card (free_pcpus (vcpu_vm s v) s)"
    "placed s' x \<longleftrightarrow> placed s x \<or> ok \<and> x = v"
    "ok \<Longrightarrow> unat (pre_alloc_pcpu s' v) \<in> domain_of (vm_is_rtos s (vcpu_vm s v)) s"
proof -
  consider (none) "find_pcpu v s = None" "ok = False" "s' = s"
    | (some) p where "find_pcpu v s = Some p" "ok = True" "s' = place p v s"
    using al pre_alloc_vcpu_single_eq[OF inv] by (auto split: option.splits)
  note cases = this
  have some: "p \<in> free_pcpus (vcpu_vm s v) s" "unat (of_nat p :: u16) = p"
    "card (free_pcpus (vcpu_vm s v) s - {p}) + 1 = card (free_pcpus (vcpu_vm s v) s)"
    if "find_pcpu v s = Some p" for p
  proof -
    show p: "p \<in> free_pcpus (vcpu_vm s v) s" using find_pcpu_Some[OF inv that] .
    then have "p < mp_max_num_cpus s" "mp_max_num_cpus s < 2 ^ 16"
      using inv domain_less by (auto simp: free_pcpus_def sched_inv_def sched_cfg_def)
    then show "unat (of_nat p :: u16) = p" by (simp add: unat_of_nat)
    show "card (free_pcpus (vcpu_vm s v) s - {p}) + 1 = card (free_pcpus (vcpu_vm s v) s)"
      using card_Suc_Diff1[OF free_pcpus_finite p] by simp
  qed
  show "sched_inv s'" using cases inv new place_inv some(1) by cases simp_all
  show "ok \<longleftrightarrow> free_pcpus (vcpu_vm s v) s \<noteq> {}"
    using cases find_pcpu_None[OF inv] some(1) by cases auto
  show "placed s' x \<longleftrightarrow> placed s x \<or> ok \<and> x = v"
    using cases place_placed[OF inv some(1)] by cases auto
  show "ok \<Longrightarrow> card (free_pcpus (vcpu_vm s v) s') + 1 = card (free_pcpus (vcpu_vm s v) s)"
    using cases place_free_pcpus[OF inv some(1)] some(3) by cases auto
  show "ok \<Longrightarrow> unat (pre_alloc_pcpu s' v) \<in> domain_of (vm_is_rtos s (vcpu_vm s v)) s"
    using cases some(1,2) by cases (auto simp: free_pcpus_def)
qed (use assms pre_alloc_vcpu_single_eq[OF inv] in \<open>auto split: option.splits\<close>)

lemma pre_alloc_vcpus_capacity:
  assumes "sched_inv s" "distinct vs" "\<forall>v\<in>set vs. \<not> placed s v \<and> vcpu_vm s v = m"
  shows "\<exists>ok s'. pre_alloc_vcpus vs s = Done (ok, s') \<and> sched_inv s'
    \<and> (ok \<longleftrightarrow> length vs \<le> card (free_pcpus m s)) \<and> (ok \<longrightarrow> (\<forall>v\<in>set vs. placed s' v))
    \<and> (\<forall>x. placed s x \<longrightarrow> placed s' x)"
  using assms
proof (induction vs arbitrary: s)
  case Nil
  then show ?case by (intro exI[of _ True] exI[of _ s]) simp
next
  case (Cons v vs)
  obtain ok t where t: "pre_alloc_vcpu_single True v s = Done (ok, t)"
    using pre_alloc_returns[OF Cons.prems(1)] .
  have new: "\<not> placed s v" and m: "vcpu_vm s v = m" using Cons.prems(3) by auto
  note st = pre_alloc_step[OF Cons.prems(1) new t, unfolded m]
  show ?case
  proof (cases ok)
    case True
    have "\<forall>x\<in>set vs. \<not> placed t x \<and> vcpu_vm t x = m" using st(2,8) Cons.prems by auto
    then obtain ok' s' where s': "pre_alloc_vcpus vs t = Done (ok', s')" "sched_inv s'"
      "ok' \<longleftrightarrow> length vs \<le> card (free_pcpus m t)" "ok' \<longrightarrow> (\<forall>v\<in>set vs. placed s' v)"
      "\<forall>x. placed t x \<longrightarrow> placed s' x"
      using Cons.IH[OF st(1)] Cons.prems(2) by auto
    have "pre_alloc_vcpus (v # vs) s = Done (ok', s')" using t True s'(1) by simp
    moreover have "ok' \<longleftrightarrow> length (v # vs) \<le> card (free_pcpus m s)" using s'(3) st(7)[OF True] by auto
    moreover have "placed s' x" if "placed s x \<or> x = v" for x using s'(5) st(8)[of x] True that by blast
    ultimately show ?thesis using s'(2,4) by (auto simp del: pre_alloc_vcpus.simps)
  next
    case False
    then show ?thesis using t st(1,5,8) by (intro exI[of _ False] exI[of _ t]) auto
  qed
qed

lemma fold_count:
  "fold (\<lambda>p n. if P p then n + 1 else n) [a..<b] k = k + int (card {p \<in> {a..<b}. P p})"
proof (induction b arbitrary: k)
  case (Suc b)
  have "{p \<in> {a..<Suc b}. P p} = (if a \<le> b \<and> P b then insert b {p \<in> {a..<b}. P p} else {p \<in> {a..<b}. P p})"
    by (auto simp: less_Suc_eq)
  then show ?case using Suc by auto
qed simp

text \<open>For a VM that has no vCPU placed yet, the margin check compares the number of
  vCPUs with the number of physical CPUs that can take one.\<close>

lemma vcpu_margin_check_free:
  assumes inv: "sched_inv s" and os: "guest_os_is_rtos os_type = vm_is_rtos s m"
    and fresh: "\<forall>v. placed s v \<longrightarrow> vcpu_vm s v \<noteq> m"
  shows "vcpu_margin_check os_type n s \<longleftrightarrow> n \<le> int (card (free_pcpus m s))"
proof -
  let ?r = "vm_is_rtos s m" and ?d = "get_vcpu_domain_range (vm_is_rtos s m) s"
  have "max_vcpu_percpu s = 1 \<or> max_vcpu_percpu s = 2" using inv by (simp add: sched_inv_def sched_cfg_def)
  moreover have "m \<notin> vcpu_vm s ` set (vcpu_pcpu_map s ! p)" if "p \<in> domain_of ?r s" for p
    using fresh that inv domain_less by (fastforce simp: placed_def sched_inv_def)
  then have "free_pcpus m s = {p \<in> domain_of ?r s. length (vcpu_pcpu_map s ! p) < pcpu_cap ?r s}"
    unfolding free_pcpus_def by blast
  ultimately have "free_pcpus m s
      = {p \<in> domain_of ?r s. use_of s ! p < (if ?r then 1 else max_vcpu_percpu s)}"
    using use_of_domain[OF inv] by (auto simp: pcpu_cap_def)
  moreover have "domain_of ?r s = {fst ?d..<snd ?d}" by (auto simp: domain_iff)
  ultimately have "free_pcpus m s
      = {p \<in> {fst ?d..<snd ?d}. use_of s ! p < (if ?r then 1 else max_vcpu_percpu s)}" by simp
  then show ?thesis
    using os by (simp add: vcpu_margin_check_def fold_count Let_def split: prod.splits)
qed

section \<open>Release\<close>

definition unplace :: "nat \<Rightarrow> nat \<Rightarrow> vcpu_sched \<Rightarrow> vcpu_sched" where
  "unplace p v s = (set_use p (use_of s ! p - 1)
     (s\<lparr>vcpu_pcpu_map := (vcpu_pcpu_map s)[p := remove1 v (vcpu_pcpu_map s ! p)]\<rparr>))
       \<lparr>pre_alloc_pcpu := (pre_alloc_pcpu s)(v := -1)\<rparr>"

lemma unplace_simps [simp]:
  "vcpu_pcpu_map (unplace p v s) = (vcpu_pcpu_map s)[p := remove1 v (vcpu_pcpu_map s ! p)]"
  "vcpu_vm (unplace p v s) = vcpu_vm s" "vm_is_rtos (unplace p v s) = vm_is_rtos s"
  "pre_alloc_pcpu (unplace p v s) = (pre_alloc_pcpu s)(v := -1)"
  "mp_max_num_cpus (unplace p v s) = mp_max_num_cpus s"
  "use_of (unplace p v s) = (use_of s)[p := use_of s ! p - 1]"
  "domain_of r (unplace p v s) = domain_of r s" "pcpu_cap r (unplace p v s) = pcpu_cap r s"
  "sched_cfg (unplace p v s) \<longleftrightarrow> sched_cfg s"
  by (simp_all add: unplace_def domain_of_def pcpu_cap_def sched_cfg_def set_use_def)

lemma placed_pcpu:
  assumes "sched_inv s" "q < mp_max_num_cpus s" "v \<in> set (vcpu_pcpu_map s ! q)"
  shows "unat (pre_alloc_pcpu s v) = q"
proof -
  have "q < 2 ^ 16" using assms by (simp add: sched_inv_def sched_cfg_def)
  then show ?thesis using assms by (auto simp: sched_inv_def pcpu_ok_def unat_of_nat)
qed

lemma distinct_map_remove1: "distinct (map f xs) \<Longrightarrow> distinct (map f (remove1 x xs))"
  by (auto simp: distinct_map intro: inj_on_diff)

lemma release_vcpu_placed:
  assumes inv: "sched_inv s" and v: "placed s v"
  shows "release_vcpu v s = Done (unplace (unat (pre_alloc_pcpu s v)) v s)"
    and "sched_inv (unplace (unat (pre_alloc_pcpu s v)) v s)"
    and "placed (unplace (unat (pre_alloc_pcpu s v)) v s) x \<longleftrightarrow> placed s x \<and> x \<noteq> v"
proof -
  obtain p where p: "p < mp_max_num_cpus s" "v \<in> set (vcpu_pcpu_map s ! p)"
    using v by (auto simp: placed_def)
  have pv: "unat (pre_alloc_pcpu s v) = p" using placed_pcpu[OF inv p] .
  have cfg: "sched_cfg s" and ok: "\<And>q. q < mp_max_num_cpus s \<Longrightarrow> pcpu_ok s q"
    using inv by (auto simp: sched_inv_def)
  have len: "p < length (vcpu_pcpu_map s)" "p < length (use_of s)" using cfg p by (auto simp: sched_cfg_def)
  have uniq: "q = p" if "q < mp_max_num_cpus s" "v \<in> set (vcpu_pcpu_map s ! q)" for q
    using placed_pcpu[OF inv that] pv by simp
  have dist: "distinct (vcpu_pcpu_map s ! p)" using ok[OF p(1)] by (auto simp: pcpu_ok_def distinct_map)
  show "release_vcpu v s = Done (unplace (unat (pre_alloc_pcpu s v)) v s)"
    using p by (simp add: release_vcpu_def remove_vcpu_from_pcpu_def pv unplace_def)
  have "x \<in> set (vcpu_pcpu_map (unplace p v s) ! q) \<longleftrightarrow> x \<in> set (vcpu_pcpu_map s ! q) \<and> x \<noteq> v"
    if "q < mp_max_num_cpus s" for q
    using uniq[OF that] len dist by (cases "q = p") auto
  then show "placed (unplace (unat (pre_alloc_pcpu s v)) v s) x \<longleftrightarrow> placed s x \<and> x \<noteq> v"
    unfolding pv placed_def by (metis unplace_simps(5))
  have "pcpu_ok (unplace p v s) q" if q: "q < mp_max_num_cpus s" for q
  proof (cases "q = p")
    case True
    have l: "Suc (length (remove1 v (vcpu_pcpu_map s ! p))) = length (vcpu_pcpu_map s ! p)"
      using length_pos_if_in_set[OF p(2)] p(2) by (simp add: length_remove1)
    show ?thesis
      using ok[OF p(1)] True len l[symmetric] dist distinct_map_remove1
      by (auto simp: pcpu_ok_def distinct_map_remove1)
  next
    case False
    then show ?thesis using ok[OF q] uniq[OF q] by (auto simp: pcpu_ok_def)
  qed
  then show "sched_inv (unplace (unat (pre_alloc_pcpu s v)) v s)" using cfg pv by (simp add: sched_inv_def)
qed

section \<open>Placement as a transition system\<close>

inductive sched_step :: "vcpu_sched \<Rightarrow> vcpu_sched \<Rightarrow> bool" where
  step_place: "\<not> placed s v \<Longrightarrow> pre_alloc_vcpu_single malloc_ok v s = Done (ok, s') \<Longrightarrow> sched_step s s'"
| step_release: "placed s v \<Longrightarrow> release_vcpu v s = Done s' \<Longrightarrow> sched_step s s'"

lemma sched_step_inv:
  assumes "sched_step s s'" "sched_inv s"
  shows "sched_inv s'"
  using assms
proof (induction rule: sched_step.induct)
  case (step_place s v malloc_ok ok s')
  show ?case
  proof (cases malloc_ok)
    case True
    then show ?thesis using step_place pre_alloc_step(1)[of s v] by simp
  next
    case False
    then show ?thesis
      using step_place by (auto simp: pre_alloc_vcpu_single_def add_vcpu_to_pcpu_def split: option.splits)
  qed
next
  case (step_release s v s')
  then show ?case using release_vcpu_placed(1,2)[OF step_release(3,1)] by simp
qed

lemma sched_reachable_inv:
  assumes "sched_step\<^sup>*\<^sup>* s s'" "sched_inv s" shows "sched_inv s'"
  using assms by (induction rule: rtranclp_induct) (auto intro: sched_step_inv)

section \<open>Properties\<close>

text \<open>C6: CPU isolation. In every state that placements and releases of vCPUs can
  reach, a physical CPU that runs a real-time vCPU runs nothing else and lies
  outside the non-real-time domain, no physical CPU runs two vCPUs of the same
  VM or more vCPUs than configured, and physical CPU 0 runs no guest at all.\<close>

theorem vcpu_placement_isolation:
  assumes reach: "sched_step\<^sup>*\<^sup>* s0 s" and inv: "sched_inv s0"
    and p: "p < mp_max_num_cpus s" and v: "v \<in> set (vcpu_pcpu_map s ! p)"
  shows "p \<noteq> 0 \<and> length (vcpu_pcpu_map s ! p) \<le> nat (max_vcpu_percpu s)
    \<and> (vm_is_rtos s (vcpu_vm s v) \<longleftrightarrow> max_guest_num_linux_pcpu s < p)
    \<and> (vm_is_rtos s (vcpu_vm s v) \<longrightarrow> vcpu_pcpu_map s ! p = [v])
    \<and> (\<forall>w\<in>set (vcpu_pcpu_map s ! p). w \<noteq> v \<longrightarrow> vcpu_vm s w \<noteq> vcpu_vm s v)"
proof -
  have "sched_inv s" using sched_reachable_inv[OF reach inv] .
  then have ok: "pcpu_ok s p" and per: "max_vcpu_percpu s \<in> {1, 2}"
    using p by (auto simp: sched_inv_def sched_cfg_def)
  have dom: "p \<in> domain_of (vm_is_rtos s (vcpu_vm s v)) s"
    and cap: "length (vcpu_pcpu_map s ! p) \<le> pcpu_cap (vm_is_rtos s (vcpu_vm s v)) s"
    and dist: "distinct (map (vcpu_vm s) (vcpu_pcpu_map s ! p))"
    using ok v by (auto simp: pcpu_ok_def)
  have "vcpu_pcpu_map s ! p = [v]" if "vm_is_rtos s (vcpu_vm s v)"
    using cap that v by (cases "vcpu_pcpu_map s ! p") (auto simp: pcpu_cap_def)
  moreover have "\<forall>w\<in>set (vcpu_pcpu_map s ! p). w \<noteq> v \<longrightarrow> vcpu_vm s w \<noteq> vcpu_vm s v"
    using dist v by (auto simp: distinct_map inj_on_def)
  ultimately show ?thesis
    using dom cap per by (auto simp: domain_of_def pcpu_cap_def split: if_splits)
qed

text \<open>A board with four CPUs, two of them for non-real-time guests, on which nothing
  runs yet. VM 1 is a Linux guest, VM 2 a real-time guest; the vCPUs 10 and 11
  belong to VM 1, all others to VM 2.\<close>

definition sched_4 :: vcpu_sched where
  "sched_4 = \<lparr>mp_max_num_cpus = 4, max_guest_num_linux_pcpu = 2, max_vcpu_percpu = 2,
     zvm_overall_info = zvm_info_3, vcpu_pcpu_map = replicate 4 [],
     vcpu_vm = (\<lambda>v. if v = 10 \<or> v = 11 then 1 else 2), vm_is_rtos = (\<lambda>m. m = 2),
     pre_alloc_pcpu = (\<lambda>_. 0)\<rparr>"

lemma sched_4_inv: "sched_inv sched_4" "\<not> placed sched_4 v"
  by (auto simp: sched_inv_def sched_cfg_def pcpu_ok_def placed_def sched_4_def zvm_info_3_def)

definition sched_4_rt :: vcpu_sched where
  "sched_4_rt = place 3 20 sched_4"

lemma sched_4_rt_placed: "placed sched_4_rt 20"
  unfolding placed_def by (intro exI[of _ 3]) (simp add: sched_4_rt_def sched_4_def)

lemma sched_4_rt_step: "sched_step\<^sup>*\<^sup>* sched_4 sched_4_rt"
proof -
  have "find_pcpu 20 sched_4 = Some 3" by code_simp
  then have "pre_alloc_vcpu_single True 20 sched_4 = Done (True, sched_4_rt)"
    unfolding pre_alloc_vcpu_single_eq[OF sched_4_inv(1)] sched_4_rt_def by simp
  then show ?thesis using sched_4_inv(2) by (blast intro: step_place)
qed

theorem vcpu_placement_isolation_witness:
  "20 \<in> set (vcpu_pcpu_map sched_4_rt ! 3) \<and> vcpu_pcpu_map sched_4_rt ! 3 = [20]"
proof -
  have 20: "20 \<in> set (vcpu_pcpu_map sched_4_rt ! 3)" "3 < mp_max_num_cpus sched_4_rt"
    "vm_is_rtos sched_4_rt (vcpu_vm sched_4_rt 20)"
    by (simp_all add: sched_4_rt_def sched_4_def)
  then show ?thesis
    using vcpu_placement_isolation[OF sched_4_rt_step sched_4_inv(1) 20(2,1)] by simp
qed

text \<open>C7: The margin check decides whether a new VM fits: for a VM that has no vCPU
  placed yet, the requested number of vCPUs passes the check if and only if the
  placements that follow, one after the other, all find a physical CPU.\<close>

theorem vcpu_margin_check_exact:
  assumes "sched_inv s" "guest_os_is_rtos os_type = vm_is_rtos s m"
    "\<forall>v. placed s v \<longrightarrow> vcpu_vm s v \<noteq> m" "distinct vs" "\<forall>v\<in>set vs. vcpu_vm s v = m"
  shows "\<exists>s'. pre_alloc_vcpus vs s = Done (vcpu_margin_check os_type (int (length vs)) s, s') \<and> sched_inv s'"
proof -
  have "\<forall>v\<in>set vs. \<not> placed s v \<and> vcpu_vm s v = m" using assms by auto
  from pre_alloc_vcpus_capacity[OF assms(1,4) this] show ?thesis
    using vcpu_margin_check_free[OF assms(1-3)] by fastforce
qed

theorem vcpu_margin_check_exact_witness:
  "(\<exists>s'. pre_alloc_vcpus [10, 11] sched_4 = Done (True, s')) \<and> (\<exists>s'. pre_alloc_vcpus [20, 21] sched_4 = Done (False, s'))"
proof -
  have "vcpu_margin_check 1 2 sched_4" "\<not> vcpu_margin_check 0 2 sched_4" by code_simp+
  moreover have "guest_os_is_rtos 1 = vm_is_rtos sched_4 1" "guest_os_is_rtos 0 = vm_is_rtos sched_4 2"
    "vcpu_vm sched_4 10 = 1" "vcpu_vm sched_4 11 = 1" "vcpu_vm sched_4 20 = 2" "vcpu_vm sched_4 21 = 2"
    by (simp_all add: guest_os_is_rtos_def OS_TYPE_LINUX_def sched_4_def)
  ultimately have "\<exists>s'. pre_alloc_vcpus [10, 11] sched_4 = Done (vcpu_margin_check 1 (int (length [10 :: nat, 11])) sched_4, s') \<and> sched_inv s'"
    "\<exists>s'. pre_alloc_vcpus [20, 21] sched_4 = Done (vcpu_margin_check 0 (int (length [20 :: nat, 21])) sched_4, s') \<and> sched_inv s'"
    using sched_4_inv(2) by (intro vcpu_margin_check_exact[OF sched_4_inv(1)]; simp)+
  then show ?thesis
    using \<open>vcpu_margin_check 1 2 sched_4\<close> \<open>\<not> vcpu_margin_check 0 2 sched_4\<close>
    by (auto simp del: pre_alloc_vcpus.simps)
qed

text \<open>Releasing a placed vCPU frees its slot and nothing else: every other vCPU
  stays where it is, and the counters and lists still agree.\<close>

theorem release_vcpu_correct:
  assumes "sched_inv s" "placed s v"
  shows "\<exists>s'. release_vcpu v s = Done s' \<and> sched_inv s' \<and> (\<forall>x. placed s' x \<longleftrightarrow> placed s x \<and> x \<noteq> v)
    \<and> (\<forall>x. x \<noteq> v \<longrightarrow> pre_alloc_pcpu s' x = pre_alloc_pcpu s x)"
  using release_vcpu_placed[OF assms] by auto

theorem release_vcpu_correct_witness:
  "placed sched_4_rt 20 \<and> (\<exists>s'. release_vcpu 20 sched_4_rt = Done s' \<and> \<not> placed s' 20)"
proof -
  have "sched_inv sched_4_rt" using sched_reachable_inv[OF sched_4_rt_step sched_4_inv(1)] .
  moreover have "placed sched_4_rt 20" by (rule sched_4_rt_placed)
  ultimately show ?thesis using release_vcpu_correct by blast
qed

text \<open>\<^verbatim>\<open>release_vcpu\<close> means to ignore a vCPU that was released before, by comparing
  its 16-bit \<^verbatim>\<open>pre_alloc_pcpu\<close> with -1. The comparison never holds, so a second
  release indexes the arrays with 65535.\<close>

theorem release_vcpu_twice_faults:
  assumes "sched_inv s" "placed s v" "release_vcpu v s = Done s'"
  shows "release_vcpu v s' = Fault"
proof -
  have "mp_max_num_cpus s < 2 ^ 16" using assms(1) by (simp add: sched_inv_def sched_cfg_def)
  moreover have "s' = unplace (unat (pre_alloc_pcpu s v)) v s"
    using release_vcpu_placed(1)[OF assms(1,2)] assms(3) by simp
  moreover have "unat (- 1 :: u16) = 65535"
    by (simp add: unsigned_minus_1_eq_mask mask_eq_exp_minus_1)
  ultimately show ?thesis
    by (simp add: release_vcpu_def remove_vcpu_from_pcpu_def)
qed

theorem release_vcpu_twice_faults_witness:
  "\<exists>s'. release_vcpu 20 sched_4_rt = Done s' \<and> release_vcpu 20 s' = Fault"
proof -
  have inv: "sched_inv sched_4_rt" using sched_reachable_inv[OF sched_4_rt_step sched_4_inv(1)] .
  have pl: "placed sched_4_rt 20" by (rule sched_4_rt_placed)
  show ?thesis using release_vcpu_placed(1)[OF inv pl] release_vcpu_twice_faults[OF inv pl] by blast
qed

end
