(* ===== verification/S2_MMU.thy ===== *)
theory S2_MMU
  imports ZVM_Prelude
begin

text \<open>
  Stage-2 translation tables of a virtual machine (\<^verbatim>\<open>arch/arm64/core/zvm/mmu.c\<close>
  with the level and descriptor macros of \<^verbatim>\<open>arch/arm64/core/mmu.h\<close>).

  The state is the row of \<^verbatim>\<open>vm_xlat_tables\<close> and \<^verbatim>\<open>vm_xlat_use_count\<close> that belongs to
  one VM. A pointer into that row is the pair of a table number and an entry
  number; a table descriptor holds the address of a table, which is turned back
  into a table number with the base address of the row. Table number, entry
  and level counters are natural numbers; addresses, sizes and descriptors are
  64-bit words. A failed \<^verbatim>\<open>__ASSERT\<close> is the outcome \<^const>\<open>Assertion\<close>.
\<close>

section \<open>Constants and macros\<close>

definition GENMASK :: "nat \<Rightarrow> nat \<Rightarrow> u64" where
  "GENMASK h l = (NOT 0 - push_bit l 1 + 1) AND drop_bit (63 - h) (NOT 0)"

definition PAGE_SIZE_SHIFT :: nat where "PAGE_SIZE_SHIFT = 12"
definition XLAT_LAST_LEVEL :: nat where "XLAT_LAST_LEVEL = 3"
definition Ln_XLAT_VA_SIZE_SHIFT :: nat where "Ln_XLAT_VA_SIZE_SHIFT = PAGE_SIZE_SHIFT - 3"
definition Ln_XLAT_NUM_ENTRIES :: nat where "Ln_XLAT_NUM_ENTRIES = 2 ^ PAGE_SIZE_SHIFT div 8"

definition LEVEL_TO_VA_SIZE_SHIFT :: "nat \<Rightarrow> nat" where
  "LEVEL_TO_VA_SIZE_SHIFT level = PAGE_SIZE_SHIFT + Ln_XLAT_VA_SIZE_SHIFT * (XLAT_LAST_LEVEL - level)"

definition XLAT_TABLE_VA_IDX :: "u64 \<Rightarrow> nat \<Rightarrow> nat" where
  "XLAT_TABLE_VA_IDX va level =
     unat (drop_bit (LEVEL_TO_VA_SIZE_SHIFT level) va AND (of_nat Ln_XLAT_NUM_ENTRIES - 1))"

definition GET_BASE_XLAT_LEVEL :: "nat \<Rightarrow> nat" where
  "GET_BASE_XLAT_LEVEL va_bits =
    (if LEVEL_TO_VA_SIZE_SHIFT 0 < va_bits then 0
     else if LEVEL_TO_VA_SIZE_SHIFT 1 < va_bits then 1
     else if LEVEL_TO_VA_SIZE_SHIFT 2 < va_bits then 2 else 3)"

definition DESC_ATTRS_MASK :: u64 where
  "DESC_ATTRS_MASK = GENMASK 63 51 OR GENMASK 11 2"

definition PTE_DESC_TYPE_MASK :: u64 where "PTE_DESC_TYPE_MASK = 3"
definition PTE_BLOCK_DESC :: u64 where "PTE_BLOCK_DESC = 1"
definition PTE_TABLE_DESC :: u64 where "PTE_TABLE_DESC = 3"
definition PTE_PAGE_DESC :: u64 where "PTE_PAGE_DESC = 3"
definition PTE_INVALID_DESC :: u64 where "PTE_INVALID_DESC = 0"

section \<open>State\<close>

record s2_tables =
  xlat_addr :: u64
  xlat_num :: nat
  base_xlat_level :: nat
  vm_xlat_tables :: "nat \<Rightarrow> nat \<Rightarrow> u64"
  vm_xlat_use_count :: "nat \<Rightarrow> int"

type_synonym pte_ptr = "nat \<times> nat"

definition get_pte :: "s2_tables \<Rightarrow> pte_ptr \<Rightarrow> u64" where
  "get_pte st p = vm_xlat_tables st (fst p) (snd p)"

definition set_pte :: "pte_ptr \<Rightarrow> u64 \<Rightarrow> s2_tables \<Rightarrow> s2_tables" where
  "set_pte p d st = st\<lparr>vm_xlat_tables :=
     (vm_xlat_tables st)(fst p := (vm_xlat_tables st (fst p))(snd p := d))\<rparr>"

definition table_addr :: "s2_tables \<Rightarrow> nat \<Rightarrow> u64" where
  "table_addr st t = xlat_addr st + of_nat (t * 8 * Ln_XLAT_NUM_ENTRIES)"

section \<open>Descriptors\<close>

definition vm_is_desc_block_aligned :: "u64 \<Rightarrow> u32 \<Rightarrow> bool" where
  "vm_is_desc_block_aligned desc level_size =
    (let mask = GENMASK 47 PAGE_SIZE_SHIFT in (desc AND mask) AND ucast (level_size - 1) = 0)"

definition vm_is_desc_superset :: "u64 \<Rightarrow> u64 \<Rightarrow> nat \<Rightarrow> bool" where
  "vm_is_desc_superset desc1 desc2 level =
    (let mask = DESC_ATTRS_MASK OR GENMASK 47 (LEVEL_TO_VA_SIZE_SHIFT level)
     in desc1 AND mask = desc2 AND mask)"

definition vm_is_free_desc :: "u64 \<Rightarrow> bool" where
  "vm_is_free_desc desc = (desc AND PTE_DESC_TYPE_MASK = PTE_INVALID_DESC)"

definition vm_pte_desc_table :: "s2_tables \<Rightarrow> u64 \<Rightarrow> nat" where
  "vm_pte_desc_table st desc =
    unat ((desc AND GENMASK 47 PAGE_SIZE_SHIFT) - xlat_addr st) div (8 * Ln_XLAT_NUM_ENTRIES)"

definition vm_is_table_desc :: "u64 \<Rightarrow> nat \<Rightarrow> bool" where
  "vm_is_table_desc desc level =
    (level \<noteq> XLAT_LAST_LEVEL \<and> desc AND PTE_DESC_TYPE_MASK = PTE_TABLE_DESC)"

definition vm_is_block_desc :: "u64 \<Rightarrow> bool" where
  "vm_is_block_desc desc = (desc AND PTE_DESC_TYPE_MASK = PTE_BLOCK_DESC)"

definition vm_set_pte_block_desc :: "pte_ptr \<Rightarrow> u64 \<Rightarrow> nat \<Rightarrow> s2_tables \<Rightarrow> s2_tables" where
  "vm_set_pte_block_desc pte desc level =
    set_pte pte (if desc \<noteq> 0
      then desc OR (if level = XLAT_LAST_LEVEL then PTE_PAGE_DESC else PTE_BLOCK_DESC) else desc)"

definition vm_set_pte_table_desc :: "pte_ptr \<Rightarrow> nat \<Rightarrow> s2_tables \<Rightarrow> s2_tables" where
  "vm_set_pte_table_desc pte table st = set_pte pte (PTE_TABLE_DESC OR table_addr st table) st"

section \<open>Attributes of a VM memory region\<close>

definition MT_S2_TYPE :: "u32 \<Rightarrow> u32" where "MT_S2_TYPE attrs = attrs AND 7"

definition get_vm_region_desc :: "u32 \<Rightarrow> u64" where
  "get_vm_region_desc attrs =
    (let desc = 0 OR (if attrs AND push_bit 4 1 \<noteq> 0 then push_bit 6 1 else 0);
         desc = desc OR (if attrs AND push_bit 5 1 \<noteq> 0 then push_bit 6 2 else 0);
         desc = desc OR (if attrs AND push_bit 7 1 \<noteq> 0 then 0 else push_bit 10 1);
         mem_type = MT_S2_TYPE attrs
     in if mem_type = 0 \<or> mem_type = 1 \<or> mem_type = 2
        then desc OR push_bit 8 2 OR push_bit 53 2
        else if mem_type = 5 \<or> mem_type = 3 \<or> mem_type = 4
        then desc OR (if attrs AND (push_bit 4 1 OR push_bit 5 1) \<noteq> 0 then push_bit 53 0 else 0)
          OR (if mem_type = 4 then push_bit 8 3 else push_bit 8 2)
          OR (push_bit 4 3 OR push_bit 2 3)
        else desc)"

section \<open>Allocation and reference counts of tables\<close>

definition vm_new_table :: "s2_tables \<Rightarrow> nat option \<times> s2_tables" where
  "vm_new_table st = (case List.find (\<lambda>i. vm_xlat_use_count st i = 0) [0..<xlat_num st] of
     Some i \<Rightarrow> (Some i, st\<lparr>vm_xlat_use_count := (vm_xlat_use_count st)(i := 1)\<rparr>)
   | None \<Rightarrow> (None, st))"

definition vm_table_index :: "pte_ptr \<Rightarrow> s2_tables \<Rightarrow> nat outcome" where
  "vm_table_index pte st = (if fst pte < xlat_num st then Done (fst pte) else Assertion)"

definition vm_free_table :: "pte_ptr \<Rightarrow> s2_tables \<Rightarrow> s2_tables outcome" where
  "vm_free_table table st = bind_outcome (vm_table_index table st) (\<lambda>i.
     if vm_xlat_use_count st i = 1
     then Done (st\<lparr>vm_xlat_use_count := (vm_xlat_use_count st)(i := 0)\<rparr>) else Assertion)"

definition vm_table_usage :: "pte_ptr \<Rightarrow> int \<Rightarrow> s2_tables \<Rightarrow> (int \<times> s2_tables) outcome" where
  "vm_table_usage table adjustment st = bind_outcome (vm_table_index table st) (\<lambda>i.
     let n = vm_xlat_use_count st i + adjustment
     in if 0 < n then Done (n, st\<lparr>vm_xlat_use_count := (vm_xlat_use_count st)(i := n)\<rparr>) else Assertion)"

text \<open>\<^verbatim>\<open>int ref_unit = 0xFFFFFFFF\<close> is the value -1, so the adjustment \<^verbatim>\<open>-ref_unit\<close> is 1.\<close>

definition vm_dec_table_ref :: "pte_ptr \<Rightarrow> s2_tables \<Rightarrow> s2_tables outcome" where
  "vm_dec_table_ref table st =
    bind_outcome (vm_table_usage table (- sint (0xFFFFFFFF :: u32)) st) (\<lambda>(_, st'). Done st')"

definition vm_is_table_unused :: "pte_ptr \<Rightarrow> s2_tables \<Rightarrow> bool outcome" where
  "vm_is_table_unused table st =
    bind_outcome (vm_table_usage table 0 st) (\<lambda>(n, _). Done (n = 1))"

section \<open>Splitting an entry into a table\<close>

definition fill_table :: "nat \<Rightarrow> u64 \<Rightarrow> nat \<Rightarrow> s2_tables \<Rightarrow> s2_tables" where
  "fill_table table desc stride_shift st =
    st\<lparr>vm_xlat_tables := (vm_xlat_tables st)(table := (\<lambda>i.
      if i < Ln_XLAT_NUM_ENTRIES then desc OR ucast (push_bit stride_shift (of_nat i :: u32))
      else vm_xlat_tables st table i))\<rparr>"

definition vm_expand_to_table :: "pte_ptr \<Rightarrow> nat \<Rightarrow> s2_tables \<Rightarrow> (nat option \<times> s2_tables) outcome" where
  "vm_expand_to_table pte level st =
    (if XLAT_LAST_LEVEL \<le> level then Assertion
     else case vm_new_table st of
       (None, st) \<Rightarrow> Done (None, st)
     | (Some table, st) \<Rightarrow>
        bind_outcome
          (if \<not> vm_is_free_desc (get_pte st pte)
           then if \<not> vm_is_block_desc (get_pte st pte) then Assertion
                else let desc = (if level + 1 = XLAT_LAST_LEVEL then get_pte st pte OR PTE_PAGE_DESC
                                 else get_pte st pte);
                         stride_shift = LEVEL_TO_VA_SIZE_SHIFT (level + 1)
                     in bind_outcome (vm_table_usage (table, 0) (int Ln_XLAT_NUM_ENTRIES)
                                        (fill_table table desc stride_shift st)) (\<lambda>(_, st). Done st)
           else bind_outcome (vm_table_usage pte 1 st) (\<lambda>(_, st). Done st))
          (\<lambda>st. Done (Some table, vm_set_pte_table_desc pte table st)))"

section \<open>Mapping a range\<close>

text \<open>The inner loop that gives back tables that became unused. \<^verbatim>\<open>ptes\<close> holds the
  entries through which the walk came, by level.\<close>

fun free_unused_tables :: "(nat \<Rightarrow> pte_ptr) \<Rightarrow> nat \<Rightarrow> pte_ptr \<Rightarrow> s2_tables \<Rightarrow> s2_tables outcome" where
  "free_unused_tables ptes level pte st =
    (if level = base_xlat_level st then Done st
     else bind_outcome (vm_is_table_unused pte st) (\<lambda>unused.
       if \<not> unused then Done st
       else bind_outcome (vm_free_table pte st) (\<lambda>st. case level of
           0 \<Rightarrow> Fault
         | Suc level' \<Rightarrow>
             bind_outcome (vm_table_usage (ptes level') (-1)
               (vm_set_pte_block_desc (ptes level') 0 level' st))
               (\<lambda>(_, st). free_unused_tables ptes level' (ptes level') st))))"

declare free_unused_tables.simps [simp del]

text \<open>One iteration of the loop of \<^verbatim>\<open>vm_set_mapping\<close>: descend to the next level, move on
  to the next part of the range, or leave the loop.\<close>

datatype set_mapping_next =
    Next_Level nat s2_tables
  | Move_On u64 s2_tables
  | Break int s2_tables

definition set_mapping_step ::
  "(nat \<Rightarrow> pte_ptr) \<Rightarrow> u64 \<Rightarrow> u64 \<Rightarrow> u64 \<Rightarrow> bool \<Rightarrow> nat \<Rightarrow> pte_ptr \<Rightarrow> s2_tables \<Rightarrow> set_mapping_next outcome" where
  "set_mapping_step ptes virt sz desc may_overwrite level pte st =
    (if vm_is_table_desc (get_pte st pte) level
     then Done (Next_Level (vm_pte_desc_table st (get_pte st pte)) st)
     else if \<not> may_overwrite \<and> \<not> vm_is_free_desc (get_pte st pte) then Done (Break (- EBUSY) st)
     else let level_size = push_bit (LEVEL_TO_VA_SIZE_SHIFT level) 1 in
       if vm_is_desc_superset (get_pte st pte) desc level
       then let rest = level_size - (virt AND (level_size - 1))
            in Done (Move_On (if sz < rest then sz else rest) st)
       else if sz < level_size \<or> virt AND (level_size - 1) \<noteq> 0
               \<or> \<not> vm_is_desc_block_aligned desc (ucast level_size)
       then bind_outcome (vm_expand_to_table pte level st) (\<lambda>(table, st). case table of
              None \<Rightarrow> Done (Break (- ENOMEM) st)
            | Some t \<Rightarrow> Done (Next_Level t st))
       else bind_outcome (if vm_is_free_desc (get_pte st pte)
                          then bind_outcome (vm_table_usage pte 1 st) (\<lambda>(_, st). Done st) else Done st) (\<lambda>st.
            bind_outcome (if desc = 0
                          then bind_outcome (vm_table_usage pte (-1) st) (\<lambda>(_, st). Done st) else Done st) (\<lambda>st.
            bind_outcome (free_unused_tables ptes level pte (vm_set_pte_block_desc pte desc level st))
              (\<lambda>st. Done (Move_On level_size st)))))"

lemma level_size_rest:
  assumes "n < 64"
  shows "0 < push_bit n 1 - (v AND (push_bit n 1 - 1 :: u64))"
proof -
  have "v AND (push_bit n 1 - 1) \<le> push_bit n 1 - 1" by (rule word_and_le1)
  moreover have "(push_bit n 1 - 1 :: u64) < push_bit n 1"
    using assms by (simp add: word_less_nat_alt unat_exp unat_minus_one)
  ultimately have "v AND (push_bit n 1 - 1) < push_bit n 1" by simp
  then show ?thesis by (simp add: word_neq_0_conv[symmetric])
qed

lemma level_shift_bound: "LEVEL_TO_VA_SIZE_SHIFT level < 64"
  by (simp add: LEVEL_TO_VA_SIZE_SHIFT_def PAGE_SIZE_SHIFT_def Ln_XLAT_VA_SIZE_SHIFT_def XLAT_LAST_LEVEL_def)

text \<open>Every part of the range that is passed is non-empty and inside the range.\<close>

lemma set_mapping_step_progress:
  assumes "set_mapping_step ptes virt sz desc ow level pte st = Done (Move_On n st')" "sz \<noteq> 0"
  shows "0 < n \<and> n \<le> sz"
proof -
  let ?l = "push_bit (LEVEL_TO_VA_SIZE_SHIFT level) 1 :: u64"
  have "0 < ?l - (virt AND (?l - 1))" using level_size_rest[OF level_shift_bound] .
  moreover have "0 < ?l" using level_shift_bound[of level] by (simp add: word_less_nat_alt unat_exp)
  ultimately show ?thesis
    using assms
    by (auto simp: set_mapping_step_def Let_def not_less word_neq_0_conv
        split: if_splits outcome.splits option.splits)
qed

function vm_set_mapping_loop ::
  "nat \<Rightarrow> (nat \<Rightarrow> pte_ptr) \<Rightarrow> u64 \<Rightarrow> u64 \<Rightarrow> u64 \<Rightarrow> bool \<Rightarrow> nat \<Rightarrow> nat \<Rightarrow> s2_tables \<Rightarrow> (int \<times> s2_tables) outcome" where
  "vm_set_mapping_loop root ptes virt sz desc may_overwrite table level st =
    (if sz = 0 then Done (0, st)
     else if \<not> level \<le> XLAT_LAST_LEVEL then Assertion
     else let pte = (table, XLAT_TABLE_VA_IDX virt level);
              ptes = ptes(level := pte)
          in case set_mapping_step ptes virt sz desc may_overwrite level pte st of
               Done (Next_Level t st) \<Rightarrow>
                 vm_set_mapping_loop root ptes virt sz desc may_overwrite t (level + 1) st
             | Done (Move_On n st) \<Rightarrow>
                 vm_set_mapping_loop root ptes (virt + n) (sz - n) (desc + (if desc \<noteq> 0 then n else 0))
                   may_overwrite root (base_xlat_level st) st
             | Done (Break r st) \<Rightarrow> Done (r, st)
             | Fault \<Rightarrow> Fault
             | Assertion \<Rightarrow> Assertion)"
  by pat_completeness auto
termination
proof (relation "measures [\<lambda>(root, ptes, virt, sz, desc, ow, table, level, st). unat sz,
    \<lambda>(root, ptes, virt, sz, desc, ow, table, level, st). 4 - level]", goal_cases)
  case (3 root ptes virt sz desc ow table level st pte ptes' x1 n st')
  then have "0 < n \<and> n \<le> sz" using set_mapping_step_progress by blast
  then show ?case by (auto simp: unat_sub word_le_nat_alt word_less_nat_alt)
qed (auto simp: XLAT_LAST_LEVEL_def)

declare vm_set_mapping_loop.simps [simp del]

definition vm_set_mapping :: "nat \<Rightarrow> u64 \<Rightarrow> u64 \<Rightarrow> u64 \<Rightarrow> bool \<Rightarrow> s2_tables \<Rightarrow> (int \<times> s2_tables) outcome" where
  "vm_set_mapping base_xlat_table virt sz desc may_overwrite st =
    vm_set_mapping_loop base_xlat_table (\<lambda>_. (0, 0)) virt sz desc may_overwrite base_xlat_table
      (base_xlat_level st) st"

section \<open>Unmapping a range\<close>

definition clear_entry :: "pte_ptr \<Rightarrow> s2_tables \<Rightarrow> s2_tables outcome" where
  "clear_entry pte st = bind_outcome (vm_table_usage pte (-1) (set_pte pte 0 st)) (\<lambda>(_, st). Done st)"

definition del_step :: "u64 \<Rightarrow> u64 \<Rightarrow> nat \<Rightarrow> u64" where
  "del_step virt sz level =
    (let level_size = push_bit (LEVEL_TO_VA_SIZE_SHIFT level) 1;
         rest = level_size - (virt AND (level_size - 1))
     in if sz < rest then sz else rest)"

lemma del_step_progress: "sz \<noteq> 0 \<Longrightarrow> 0 < del_step virt sz level \<and> del_step virt sz level \<le> sz"
  using level_size_rest[OF level_shift_bound[of level], of virt]
  by (auto simp: del_step_def Let_def not_less word_neq_0_conv)

text \<open>The recursion follows the levels; within a table the loop follows the range. A
  level beyond the last one would shift by an undefined amount.\<close>

function vm_del_mapping :: "nat \<Rightarrow> u64 \<Rightarrow> u64 \<Rightarrow> nat \<Rightarrow> s2_tables \<Rightarrow> s2_tables outcome" where
  "vm_del_mapping table virt sz level st =
    (if sz = 0 then Done st
     else if XLAT_LAST_LEVEL < level then Fault
     else let level_size = push_bit (LEVEL_TO_VA_SIZE_SHIFT level) 1;
              step = del_step virt sz level;
              pte = (table, XLAT_TABLE_VA_IDX virt level)
          in bind_outcome
               (if vm_is_free_desc (get_pte st pte) then Done st
                else bind_outcome
                  (if step \<noteq> level_size \<and> vm_is_block_desc (get_pte st pte)
                   then bind_outcome (vm_expand_to_table pte level st) (\<lambda>(_, st). Done st)
                   else Done st) (\<lambda>st.
                  if vm_is_table_desc (get_pte st pte) level
                  then let subtable = vm_pte_desc_table st (get_pte st pte)
                       in bind_outcome (vm_del_mapping subtable virt step (level + 1) st) (\<lambda>st.
                          bind_outcome (vm_is_table_unused (subtable, 0) st) (\<lambda>unused.
                            if \<not> unused then Done st
                            else bind_outcome (vm_dec_table_ref (subtable, 0) st) (clear_entry pte)))
                  else clear_entry pte st))
               (vm_del_mapping table (virt + step) (sz - step) level))"
  by pat_completeness auto
termination
proof (relation "measures [\<lambda>(table, virt, sz, level, st). 4 - level, \<lambda>(table, virt, sz, level, st). unat sz]",
    goal_cases)
  case 1 then show ?case by simp
next
  case 2
  then show ?case by (auto simp: vm_is_table_desc_def XLAT_LAST_LEVEL_def)
next
  case (3 table virt sz level st ls step)
  have "0 < step" "step \<le> sz" using 3(1,4) del_step_progress[OF 3(1)] by simp_all
  then show ?case by (simp add: unat_sub word_le_nat_alt word_less_nat_alt)
qed

declare vm_del_mapping.simps [simp del]

section \<open>Adding and removing the mappings of a VM\<close>

definition page_aligned :: "u64 \<Rightarrow> bool" where
  "page_aligned a = (a AND (push_bit PAGE_SIZE_SHIFT 1 - 1) = 0)"

definition ALIGN_TO_PAGE :: "u64 \<Rightarrow> u64" where
  "ALIGN_TO_PAGE sz = (sz + (push_bit PAGE_SIZE_SHIFT 1 - 1)) AND NOT (push_bit PAGE_SIZE_SHIFT 1 - 1)"

definition vm_add_dev_map :: "nat \<Rightarrow> u64 \<Rightarrow> u64 \<Rightarrow> u64 \<Rightarrow> s2_tables \<Rightarrow> (int \<times> s2_tables) outcome" where
  "vm_add_dev_map root phys virt sz st =
    (if \<not> page_aligned (virt OR phys OR sz) then Assertion
     else vm_set_mapping root virt sz phys False st)"

definition vm_remove_dev_map :: "nat \<Rightarrow> u64 \<Rightarrow> u64 \<Rightarrow> s2_tables \<Rightarrow> (int \<times> s2_tables) outcome" where
  "vm_remove_dev_map root virt sz st =
    (if \<not> page_aligned (virt OR sz) then Assertion else vm_set_mapping root virt sz 0 True st)"

definition vm_add_map :: "nat \<Rightarrow> u64 \<Rightarrow> u64 \<Rightarrow> u64 \<Rightarrow> u32 \<Rightarrow> s2_tables \<Rightarrow> (int \<times> s2_tables) outcome" where
  "vm_add_map root phys virt sz attrs st =
    (let may_overwrite = (attrs AND push_bit 8 1 = 0);
         desc = get_vm_region_desc attrs OR phys;
         sz = ALIGN_TO_PAGE sz
     in if \<not> page_aligned (virt OR phys OR sz) then Assertion
        else vm_set_mapping root virt sz desc may_overwrite st)"

definition vm_remove_map :: "nat \<Rightarrow> u64 \<Rightarrow> u64 \<Rightarrow> s2_tables \<Rightarrow> (int \<times> s2_tables) outcome" where
  "vm_remove_map root virt sz st =
    bind_outcome (vm_del_mapping root virt sz (base_xlat_level st) st) (\<lambda>st. Done (0, st))"

definition arch_vm_dev_domain_unmap :: "u64 \<Rightarrow> u64 \<Rightarrow> nat \<Rightarrow> s2_tables \<Rightarrow> (int \<times> s2_tables) outcome" where
  "arch_vm_dev_domain_unmap vbase sz root st = vm_remove_dev_map root vbase sz st"

definition arch_vm_dev_domain_map :: "u64 \<Rightarrow> u64 \<Rightarrow> u64 \<Rightarrow> nat \<Rightarrow> s2_tables \<Rightarrow> (int \<times> s2_tables) outcome" where
  "arch_vm_dev_domain_map pbase vbase sz root st = vm_add_dev_map root pbase vbase sz st"

definition arch_vm_mem_table_count_clean :: "s2_tables \<Rightarrow> s2_tables" where
  "arch_vm_mem_table_count_clean st = st\<lparr>vm_xlat_use_count :=
    (\<lambda>i. if i < xlat_num st then 0 else vm_xlat_use_count st i)\<rparr>"

text \<open>The result is the number of the base table.\<close>

definition arch_vm_mem_domain_init :: "s2_tables \<Rightarrow> int \<times> nat option \<times> s2_tables" where
  "arch_vm_mem_domain_init st = (case vm_new_table st of
     (None, st) \<Rightarrow> (- ENOMEM, None, st)
   | (Some t, st) \<Rightarrow> (0, Some t, st))"

end
