(* ===== verification/S2_Walk.thy ===== *)
theory S2_Walk
  imports S2_MMU
begin

text \<open>
  The translation that the hardware performs on the stage-2 tables, the
  well-formedness of the tables and the correctness of \<^verbatim>\<open>vm_set_mapping\<close>.

  The tables in use form a tree: every table but the root is referenced by
  exactly one table descriptor, one level above it; tables not in use are empty;
  the use count of a table is one more than the number of its entries in use.
  A ghost function gives the level of each table.
\<close>

section \<open>Arithmetic of levels\<close>

abbreviation lshift :: "nat \<Rightarrow> nat" where "lshift \<equiv> LEVEL_TO_VA_SIZE_SHIFT"

lemmas s2_consts = PAGE_SIZE_SHIFT_def XLAT_LAST_LEVEL_def Ln_XLAT_VA_SIZE_SHIFT_def
  Ln_XLAT_NUM_ENTRIES_def PTE_DESC_TYPE_MASK_def PTE_BLOCK_DESC_def PTE_TABLE_DESC_def
  PTE_PAGE_DESC_def PTE_INVALID_DESC_def

lemma lshift_eq: "lshift l = 12 + 9 * (3 - l)"
  by (simp add: LEVEL_TO_VA_SIZE_SHIFT_def s2_consts)

lemma lshift_Suc: "l < 3 \<Longrightarrow> lshift l = lshift (Suc l) + 9"
  by (simp add: lshift_eq)

lemma lshift_less: "lshift l < 48"
  by (simp add: lshift_eq)

lemma num_entries [simp]: "Ln_XLAT_NUM_ENTRIES = 512"
  by (simp add: s2_consts)

lemma va_idx: "XLAT_TABLE_VA_IDX va l = unat va div 2 ^ lshift l mod 512"
proof -
  have "x AND 511 = take_bit 9 x" for x :: u64
    by (simp add: take_bit_eq_mask mask_eq_exp_minus_1)
  moreover have full: "take_bit 64 (unat va) = unat va"
    by (rule take_bit_nat_eq_self) (use unsigned_less[of va] in simp)
  ultimately have "XLAT_TABLE_VA_IDX va l = unat (take_bit 9 (drop_bit (lshift l) va))"
    by (simp add: XLAT_TABLE_VA_IDX_def)
  also have "\<dots> = take_bit 9 (drop_bit (lshift l) (unat va))"
    by (simp only: unsigned_take_bit_eq unsigned_drop_bit_eq) (simp add: full)
  finally show ?thesis by (simp add: take_bit_eq_mod drop_bit_eq_div)
qed

lemma va_idx_less [simp]: "XLAT_TABLE_VA_IDX va l < 512"
  by (simp add: va_idx)

text \<open>The addresses below the limit of a walk that starts at a level.\<close>

definition va_limit :: "nat \<Rightarrow> nat" where
  "va_limit base = 2 ^ (lshift base + 9)"

text \<open>Two addresses take the same way down to a level if and only if they lie in the
  same block of that level.\<close>

lemma same_prefix_iff:
  assumes "v < va_limit base" "v' < va_limit base" "base + k \<le> 3"
  shows "(\<forall>j\<le>k. v div 2 ^ lshift (base + j) mod 512 = v' div 2 ^ lshift (base + j) mod 512)
    \<longleftrightarrow> v div 2 ^ lshift (base + k) = v' div 2 ^ lshift (base + k)"
  using assms(3)
proof (induction k)
  case 0
  have "x div 2 ^ lshift base < 512" if "x < va_limit base" for x
    using that by (simp add: va_limit_def less_mult_imp_div_less power_add mult.commute)
  then show ?case using assms(1,2) by simp
next
  case (Suc k)
  have split: "x div 2 ^ lshift (base + k) = x div 2 ^ lshift (base + Suc k) div 512" for x :: nat
    using lshift_Suc[of "base + k"] Suc.prems by (simp add: power_add div_mult2_eq)
  let ?P = "\<lambda>j. v div 2 ^ lshift (base + j) mod 512 = v' div 2 ^ lshift (base + j) mod 512"
  have "(\<forall>j\<le>Suc k. ?P j) \<longleftrightarrow> (\<forall>j\<le>k. ?P j) \<and> ?P (Suc k)"
    by (auto simp only: le_Suc_eq)
  also have "(\<forall>j\<le>k. ?P j) \<longleftrightarrow> v div 2 ^ lshift (base + k) = v' div 2 ^ lshift (base + k)"
    using Suc.IH Suc.prems by simp
  also have "\<dots> \<and> ?P (Suc k) \<longleftrightarrow> v div 2 ^ lshift (base + Suc k) = v' div 2 ^ lshift (base + Suc k)"
    unfolding split by (metis div_mult_mod_eq)
  finally show ?case .
qed

section \<open>Descriptor fields\<close>

lemma bit_GENMASK:
  assumes "l < 64" "h < 64"
  shows "bit (GENMASK h l) k \<longleftrightarrow> l \<le> k \<and> k \<le> h"
proof -
  have "NOT 0 - push_bit l 1 + 1 = (NOT (mask l) :: u64)"
    by (simp add: minus_exp_eq_not_mask[symmetric])
  then show ?thesis
    using assms by (auto simp: GENMASK_def bit_and_iff bit_not_iff bit_mask_iff bit_drop_bit_eq
        dest: bit_imp_le_length)
qed

lemma and_3_eq:
  "d AND 3 = (0 :: u64) \<longleftrightarrow> \<not> bit d 0 \<and> \<not> bit d 1"
  "d AND 3 = (1 :: u64) \<longleftrightarrow> bit d 0 \<and> \<not> bit d 1"
  "d AND 3 = (3 :: u64) \<longleftrightarrow> bit d 0 \<and> bit d 1"
proof -
  have "d AND 3 = take_bit 2 d" by (simp add: take_bit_eq_mask mask_eq_exp_minus_1)
  also have "\<dots> = 2 * of_bool (bit d 1) + of_bool (bit d 0)"
    by (simp add: numeral_2_eq_2 take_bit_Suc bit_0 bit_Suc mod_2_eq_odd)
  finally have eq: "d AND 3 = 2 * of_bool (bit d 1) + of_bool (bit d 0)" .
  show "d AND 3 = (0 :: u64) \<longleftrightarrow> \<not> bit d 0 \<and> \<not> bit d 1"
    "d AND 3 = (1 :: u64) \<longleftrightarrow> bit d 0 \<and> \<not> bit d 1"
    "d AND 3 = (3 :: u64) \<longleftrightarrow> bit d 0 \<and> bit d 1"
    unfolding eq by (cases "bit d 0"; cases "bit d 1"; simp)+
qed

lemma desc_types:
  "vm_is_free_desc d \<longleftrightarrow> \<not> bit d 0 \<and> \<not> bit d 1"
  "vm_is_table_desc d l \<longleftrightarrow> l \<noteq> 3 \<and> bit d 0 \<and> bit d 1"
  "vm_is_block_desc d \<longleftrightarrow> bit d 0 \<and> \<not> bit d 1"
  by (simp_all add: vm_is_free_desc_def vm_is_table_desc_def vm_is_block_desc_def s2_consts and_3_eq)

lemma bit_page_aligned: "4096 dvd unat (x :: u64) \<Longrightarrow> bit x k \<Longrightarrow> 12 \<le> k"
proof -
  assume "4096 dvd unat x" "bit x k"
  then obtain m where "unat x = 2 ^ 12 * m" by (auto simp: dvd_def)
  then have "unat x = push_bit 12 m" by (simp add: push_bit_eq_mult)
  moreover have "bit (unat x) k"
    using \<open>bit x k\<close> bit_imp_le_length[OF \<open>bit x k\<close>] by (simp add: bit_unsigned_iff)
  ultimately show ?thesis by (simp add: bit_push_bit_iff)
qed

lemma bit_below: "unat (x :: u64) < 2 ^ n \<Longrightarrow> bit x k \<Longrightarrow> k < n"
proof -
  assume "unat x < 2 ^ n" "bit x k"
  then have "bit (take_bit n (unat x)) k"
    using bit_imp_le_length[of x k] by (simp add: take_bit_nat_eq_self bit_unsigned_iff)
  then show ?thesis by (simp add: bit_take_bit_iff)
qed

section \<open>Well-formed tables\<close>

definition tables_ok :: "s2_tables \<Rightarrow> bool" where
  "tables_ok st \<longleftrightarrow> 1 \<le> base_xlat_level st \<and> base_xlat_level st \<le> 3 \<and> 4096 dvd unat (xlat_addr st)
     \<and> unat (xlat_addr st) + xlat_num st * 4096 \<le> 2 ^ 48"

lemma unat_table_addr:
  assumes "tables_ok st" "t < xlat_num st"
  shows "unat (table_addr st t) = unat (xlat_addr st) + t * 4096"
    and "4096 dvd unat (table_addr st t)" "unat (table_addr st t) < 2 ^ 48"
proof -
  have "t * 4096 + 4096 \<le> xlat_num st * 4096" using assms(2) by (simp add: algebra_simps)
  then have le: "unat (xlat_addr st) + t * 4096 + 4096 \<le> 2 ^ 48" using assms(1) by (simp add: tables_ok_def)
  have 4096: "t * 8 * Ln_XLAT_NUM_ENTRIES = t * 4096" by simp
  have "unat (of_nat (t * 4096) :: u64) = t * 4096" using le by (intro unat_of_nat_small) simp
  then show eq: "unat (table_addr st t) = unat (xlat_addr st) + t * 4096"
    using le unfolding table_addr_def 4096 by (subst unat_add_no_wrap) (simp_all del: of_nat_mult)
  show "4096 dvd unat (table_addr st t)" using assms(1) by (simp add: eq tables_ok_def)
  show "unat (table_addr st t) < 2 ^ 48" using le by (simp add: eq)
qed

lemma table_desc_fields:
  assumes "tables_ok st" "t < xlat_num st"
  shows "vm_pte_desc_table st (3 OR table_addr st t) = t"
    "bit (3 OR table_addr st t) 0" "bit (3 OR table_addr st t) 1"
proof -
  note a = unat_table_addr[OF assms]
  have "(3 OR table_addr st t) AND GENMASK 47 12 = table_addr st t"
  proof (rule bit_word_eqI)
    fix k
    have "\<not> bit (3 :: u64) k" if "12 \<le> k" using that bit_below[of 3 2 k] by auto
    then show "bit ((3 OR table_addr st t) AND GENMASK 47 12) k = bit (table_addr st t) k"
      using bit_page_aligned[OF a(2), of k] bit_below[OF a(3), of k]
      by (auto simp: bit_and_iff bit_or_iff bit_GENMASK)
  qed
  moreover have "unat (table_addr st t - xlat_addr st) = t * 4096"
    using a(1) by (subst unat_sub) (auto simp: word_le_nat_alt)
  ultimately show "vm_pte_desc_table st (3 OR table_addr st t) = t"
    by (simp add: vm_pte_desc_table_def s2_consts)
  show "bit (3 OR table_addr st t) 0" "bit (3 OR table_addr st t) 1"
    unfolding bit_or_iff by simp_all
qed

definition used :: "s2_tables \<Rightarrow> nat \<Rightarrow> bool" where
  "used st t \<longleftrightarrow> t < xlat_num st \<and> vm_xlat_use_count st t \<noteq> 0"

definition live_entries :: "s2_tables \<Rightarrow> nat \<Rightarrow> nat set" where
  "live_entries st t = {j. j < 512 \<and> \<not> vm_is_free_desc (vm_xlat_tables st t j)}"

definition entry_ok :: "nat \<Rightarrow> (nat \<Rightarrow> nat) \<Rightarrow> s2_tables \<Rightarrow> nat \<Rightarrow> u64 \<Rightarrow> bool" where
  "entry_ok root lv st t d \<longleftrightarrow>
     (vm_is_free_desc d \<longrightarrow> d = 0) \<and> (bit d 1 \<longrightarrow> bit d 0) \<and> (lv t = 3 \<longrightarrow> \<not> vm_is_block_desc d)
     \<and> (vm_is_table_desc d (lv t) \<longrightarrow>
        (\<exists>t'. used st t' \<and> t' \<noteq> root \<and> lv t' = lv t + 1 \<and> d = 3 OR table_addr st t'))"

definition s2_wf :: "nat \<Rightarrow> (nat \<Rightarrow> nat) \<Rightarrow> s2_tables \<Rightarrow> bool" where
  "s2_wf root lv st \<longleftrightarrow> tables_ok st \<and> used st root \<and> lv root = base_xlat_level st
     \<and> (\<forall>t j. t < xlat_num st \<and> \<not> used st t \<and> j < 512 \<longrightarrow> vm_xlat_tables st t j = 0)
     \<and> (\<forall>t. used st t \<longrightarrow> lv t \<le> 3 \<and> vm_xlat_use_count st t = 1 + int (card (live_entries st t)))
     \<and> (\<forall>t j. used st t \<and> j < 512 \<longrightarrow> entry_ok root lv st t (vm_xlat_tables st t j))
     \<and> (\<forall>t j t' j'. used st t \<and> used st t' \<and> j < 512 \<and> j' < 512
          \<and> vm_is_table_desc (vm_xlat_tables st t j) (lv t) \<and> vm_is_table_desc (vm_xlat_tables st t' j') (lv t')
          \<and> vm_xlat_tables st t j = vm_xlat_tables st t' j' \<longrightarrow> t = t' \<and> j = j')"

lemma s2_wfD:
  assumes "s2_wf root lv st"
  shows "tables_ok st" "used st root" "lv root = base_xlat_level st"
    "\<And>t j. t < xlat_num st \<Longrightarrow> \<not> used st t \<Longrightarrow> j < 512 \<Longrightarrow> vm_xlat_tables st t j = 0"
    "\<And>t. used st t \<Longrightarrow> lv t \<le> 3"
    "\<And>t. used st t \<Longrightarrow> vm_xlat_use_count st t = 1 + int (card (live_entries st t))"
    "\<And>t j. used st t \<Longrightarrow> j < 512 \<Longrightarrow> entry_ok root lv st t (vm_xlat_tables st t j)"
    "\<And>t j t' j'. used st t \<Longrightarrow> used st t' \<Longrightarrow> j < 512 \<Longrightarrow> j' < 512 \<Longrightarrow>
       vm_is_table_desc (vm_xlat_tables st t j) (lv t) \<Longrightarrow> vm_is_table_desc (vm_xlat_tables st t' j') (lv t') \<Longrightarrow>
       vm_xlat_tables st t j = vm_xlat_tables st t' j' \<Longrightarrow> t = t' \<and> j = j'"
  using assms unfolding s2_wf_def by blast+

lemma s2_wfI:
  assumes "tables_ok st" "used st root" "lv root = base_xlat_level st"
    "\<And>t j. t < xlat_num st \<Longrightarrow> \<not> used st t \<Longrightarrow> j < 512 \<Longrightarrow> vm_xlat_tables st t j = 0"
    "\<And>t. used st t \<Longrightarrow> lv t \<le> 3"
    "\<And>t. used st t \<Longrightarrow> vm_xlat_use_count st t = 1 + int (card (live_entries st t))"
    "\<And>t j. used st t \<Longrightarrow> j < 512 \<Longrightarrow> entry_ok root lv st t (vm_xlat_tables st t j)"
    "\<And>t j t' j'. used st t \<Longrightarrow> used st t' \<Longrightarrow> j < 512 \<Longrightarrow> j' < 512 \<Longrightarrow>
       vm_is_table_desc (vm_xlat_tables st t j) (lv t) \<Longrightarrow> vm_is_table_desc (vm_xlat_tables st t' j') (lv t') \<Longrightarrow>
       vm_xlat_tables st t j = vm_xlat_tables st t' j' \<Longrightarrow> t = t' \<and> j = j'"
  shows "s2_wf root lv st"
  unfolding s2_wf_def using assms by blast

lemma table_entry_target:
  assumes "s2_wf root lv st" "used st t" "j < 512" "vm_is_table_desc (vm_xlat_tables st t j) (lv t)"
  obtains t' where "used st t'" "t' \<noteq> root" "lv t' = lv t + 1" "vm_xlat_tables st t j = 3 OR table_addr st t'"
    "vm_pte_desc_table st (vm_xlat_tables st t j) = t'"
proof -
  obtain t' where t': "used st t'" "t' \<noteq> root" "lv t' = lv t + 1" "vm_xlat_tables st t j = 3 OR table_addr st t'"
    using s2_wfD(7)[OF assms(1-3)] assms(4) unfolding entry_ok_def by blast
  have "vm_pte_desc_table st (vm_xlat_tables st t j) = t'"
    using table_desc_fields(1)[OF s2_wfD(1)[OF assms(1)]] t'(1) unfolding t'(4) used_def by blast
  then show ?thesis using that t' by blast
qed

section \<open>The walk of the hardware\<close>

text \<open>The first argument counts the levels that follow. The result is the block or
  page descriptor and its level, or nothing when the access faults.\<close>

fun s2_walk :: "s2_tables \<Rightarrow> nat \<Rightarrow> nat \<Rightarrow> u64 \<Rightarrow> (u64 \<times> nat) option" where
  "s2_walk st 0 t va =
    (let d = vm_xlat_tables st t (XLAT_TABLE_VA_IDX va 3)
     in if d AND 3 = 3 then Some (d, 3) else None)"
| "s2_walk st (Suc n) t va =
    (let d = vm_xlat_tables st t (XLAT_TABLE_VA_IDX va (3 - Suc n))
     in if d AND 3 = 3 then s2_walk st n (vm_pte_desc_table st d) va
        else if d AND 3 = 1 then Some (d, 3 - Suc n) else None)"

text \<open>The output address and the attributes of a guest address.\<close>

definition s2_translate :: "s2_tables \<Rightarrow> nat \<Rightarrow> u64 \<Rightarrow> (u64 \<times> u64) option" where
  "s2_translate st root va = (case s2_walk st (3 - base_xlat_level st) root va of
     None \<Rightarrow> None
   | Some (d, l) \<Rightarrow> Some ((d AND GENMASK 47 (lshift l)) OR (va AND mask (lshift l)), d AND DESC_ATTRS_MASK))"

text \<open>The table that the walk of an address reaches after a number of levels.\<close>

primrec tab_at :: "s2_tables \<Rightarrow> nat \<Rightarrow> u64 \<Rightarrow> nat \<Rightarrow> nat option" where
  "tab_at st root va 0 = Some root"
| "tab_at st root va (Suc k) = (case tab_at st root va k of
     None \<Rightarrow> None
   | Some t \<Rightarrow> let d = vm_xlat_tables st t (XLAT_TABLE_VA_IDX va (base_xlat_level st + k))
       in if vm_is_table_desc d (base_xlat_level st + k) then Some (vm_pte_desc_table st d) else None)"

lemma tab_at_used:
  assumes "s2_wf root lv st" "tab_at st root va k = Some t"
  shows "used st t \<and> lv t = base_xlat_level st + k \<and> base_xlat_level st + k \<le> 3"
  using assms(2)
proof (induction k arbitrary: t)
  case 0
  then show ?case using s2_wfD(1-3)[OF assms(1)] by (auto simp: tables_ok_def)
next
  case (Suc k)
  then obtain u where u: "tab_at st root va k = Some u"
    "vm_is_table_desc (vm_xlat_tables st u (XLAT_TABLE_VA_IDX va (base_xlat_level st + k))) (base_xlat_level st + k)"
    "t = vm_pte_desc_table st (vm_xlat_tables st u (XLAT_TABLE_VA_IDX va (base_xlat_level st + k)))"
    by (auto simp: Let_def split: option.splits if_splits)
  have "used st u" "lv u = base_xlat_level st + k" using Suc.IH[OF u(1)] by auto
  from table_entry_target[OF assms(1) this(1) va_idx_less] this u
  show ?case using s2_wfD(5)[OF assms(1)] by (metis add_Suc_right Suc_eq_plus1)
qed

text \<open>Each table is reached in one way only.\<close>

lemma tab_at_inj:
  assumes wf: "s2_wf root lv st"
    and "tab_at st root va k = Some t" "tab_at st root va' k' = Some t"
  shows "k = k' \<and> (\<forall>j<k. XLAT_TABLE_VA_IDX va (base_xlat_level st + j) = XLAT_TABLE_VA_IDX va' (base_xlat_level st + j))"
proof -
  have k: "k = k'" using tab_at_used[OF wf assms(2)] tab_at_used[OF wf assms(3)] by simp
  have "\<forall>j<k. XLAT_TABLE_VA_IDX va (base_xlat_level st + j) = XLAT_TABLE_VA_IDX va' (base_xlat_level st + j)"
    using assms(2) assms(3)[folded k]
  proof (induction k arbitrary: t)
    case 0
    then show ?case by simp
  next
    case (Suc k)
    let ?i = "XLAT_TABLE_VA_IDX va (base_xlat_level st + k)" and ?i' = "XLAT_TABLE_VA_IDX va' (base_xlat_level st + k)"
    obtain u where u: "tab_at st root va k = Some u" "vm_is_table_desc (vm_xlat_tables st u ?i) (base_xlat_level st + k)"
      "t = vm_pte_desc_table st (vm_xlat_tables st u ?i)"
      using Suc.prems(1) by (auto simp: Let_def split: option.splits if_splits)
    obtain u' where u': "tab_at st root va' k = Some u'" "vm_is_table_desc (vm_xlat_tables st u' ?i') (base_xlat_level st + k)"
      "t = vm_pte_desc_table st (vm_xlat_tables st u' ?i')"
      using Suc.prems(2) by (auto simp: Let_def split: option.splits if_splits)
    note used = tab_at_used[OF wf u(1)] tab_at_used[OF wf u'(1)]
    have "vm_xlat_tables st u ?i = 3 OR table_addr st t" "vm_xlat_tables st u' ?i' = 3 OR table_addr st t"
      using table_entry_target[OF wf, of u ?i] table_entry_target[OF wf, of u' ?i'] used u u'
      by (metis va_idx_less)+
    then have "u = u' \<and> ?i = ?i'"
      using s2_wfD(8)[OF wf, of u u' ?i ?i'] used u(2) u'(2) by simp
    then show ?case using Suc.IH[OF u(1)] u'(1) by (auto simp: less_Suc_eq)
  qed
  then show ?thesis using k by simp
qed

lemma walk_from:
  assumes "tab_at st root va k = Some t" "base_xlat_level st + k \<le> 3"
  shows "s2_walk st (3 - base_xlat_level st) root va = s2_walk st (3 - (base_xlat_level st + k)) t va"
  using assms
proof (induction k arbitrary: t)
  case 0
  then show ?case by simp
next
  case (Suc k)
  let ?d = "\<lambda>u. vm_xlat_tables st u (XLAT_TABLE_VA_IDX va (base_xlat_level st + k))"
  obtain u where u: "tab_at st root va k = Some u" "vm_is_table_desc (?d u) (base_xlat_level st + k)"
    "t = vm_pte_desc_table st (?d u)"
    using Suc.prems(1) by (auto simp: Let_def split: option.splits if_splits)
  have n: "3 - (base_xlat_level st + k) = Suc (3 - (base_xlat_level st + Suc k))"
    "3 - Suc (3 - (base_xlat_level st + Suc k)) = base_xlat_level st + k" using Suc.prems(2) by auto
  have "?d u AND 3 = 3" using u(2) by (simp add: vm_is_table_desc_def s2_consts)
  then have "s2_walk st (Suc (3 - (base_xlat_level st + Suc k))) u va = s2_walk st (3 - (base_xlat_level st + Suc k)) t va"
    using u(3) unfolding s2_walk.simps n Let_def by simp
  then show ?case using Suc.IH[OF u(1)] Suc.prems(2) unfolding n by simp
qed

text \<open>Tables that agree on the entries an address passes give it the same walk.\<close>

definition same_shape :: "s2_tables \<Rightarrow> s2_tables \<Rightarrow> bool" where
  "same_shape st st' \<longleftrightarrow> xlat_addr st' = xlat_addr st \<and> xlat_num st' = xlat_num st
     \<and> base_xlat_level st' = base_xlat_level st"

definition agree_on :: "s2_tables \<Rightarrow> s2_tables \<Rightarrow> nat \<Rightarrow> u64 \<Rightarrow> bool" where
  "agree_on st st' root va \<longleftrightarrow> same_shape st st' \<and> (\<forall>k t. tab_at st root va k = Some t \<longrightarrow>
     vm_xlat_tables st' t (XLAT_TABLE_VA_IDX va (base_xlat_level st + k))
     = vm_xlat_tables st t (XLAT_TABLE_VA_IDX va (base_xlat_level st + k)))"

lemma same_shape_addr: "same_shape st st' \<Longrightarrow> vm_pte_desc_table st' d = vm_pte_desc_table st d"
  "same_shape st st' \<Longrightarrow> table_addr st' t = table_addr st t"
  "same_shape st st' \<Longrightarrow> tables_ok st' = tables_ok st"
  by (simp_all add: same_shape_def vm_pte_desc_table_def table_addr_def tables_ok_def)

lemma tab_at_agree:
  assumes "agree_on st st' root va"
  shows "tab_at st' root va k = tab_at st root va k"
proof (induction k)
  case (Suc k)
  have sh: "same_shape st st'" using assms by (simp add: agree_on_def)
  show ?case
  proof (cases "tab_at st root va k")
    case None
    then show ?thesis using Suc by simp
  next
    case (Some t)
    then have "vm_xlat_tables st' t (XLAT_TABLE_VA_IDX va (base_xlat_level st + k))
        = vm_xlat_tables st t (XLAT_TABLE_VA_IDX va (base_xlat_level st + k))"
      using assms by (simp add: agree_on_def)
    then show ?thesis
      using Suc Some same_shape_addr(1)[OF sh] sh by (simp add: Let_def same_shape_def)
  qed
qed simp

lemma walk_agree:
  assumes ag: "agree_on st st' root va" and "base_xlat_level st \<le> 3"
  shows "s2_walk st' (3 - base_xlat_level st) root va = s2_walk st (3 - base_xlat_level st) root va"
proof -
  have "s2_walk st' n t va = s2_walk st n t va"
    if "tab_at st root va k = Some t" "n = 3 - (base_xlat_level st + k)" "base_xlat_level st + k \<le> 3" for n k t
    using that
  proof (induction n arbitrary: k t)
    case 0
    then have "base_xlat_level st + k = 3" by simp
    then show ?case using ag 0(1) by (fastforce simp: agree_on_def)
  next
    case (Suc n)
    let ?d = "vm_xlat_tables st t (XLAT_TABLE_VA_IDX va (base_xlat_level st + k))"
    have l: "3 - Suc n = base_xlat_level st + k" and n: "n = 3 - (base_xlat_level st + Suc k)"
      "base_xlat_level st + Suc k \<le> 3" using Suc.prems by auto
    have same: "vm_xlat_tables st' t (XLAT_TABLE_VA_IDX va (base_xlat_level st + k)) = ?d"
      "vm_pte_desc_table st' ?d = vm_pte_desc_table st ?d"
      using ag Suc.prems(1) same_shape_addr by (auto simp: agree_on_def)
    have "tab_at st root va (Suc k) = Some (vm_pte_desc_table st ?d)" if "?d AND 3 = 3"
      using Suc.prems(1) that n by (simp add: Let_def vm_is_table_desc_def s2_consts)
    then have "s2_walk st' n (vm_pte_desc_table st ?d) va = s2_walk st n (vm_pte_desc_table st ?d) va"
      if "?d AND 3 = 3" using Suc.IH n that by blast
    then show ?case unfolding s2_walk.simps Let_def l same by simp
  qed
  from this[of 0 root] show ?thesis using assms(2) by simp
qed

lemma translate_agree:
  assumes "agree_on st st' root va" "tables_ok st"
  shows "s2_translate st' root va = s2_translate st root va"
  using walk_agree[OF assms(1)] assms by (simp add: s2_translate_def agree_on_def same_shape_def tables_ok_def)

text \<open>Which addresses pass the entry that \<^term>\<open>virt\<close> passes at a level.\<close>

lemma tab_at_prefix:
  assumes "\<forall>j<k. XLAT_TABLE_VA_IDX va (base_xlat_level st + j) = XLAT_TABLE_VA_IDX va' (base_xlat_level st + j)"
  shows "tab_at st root va k = tab_at st root va' k"
  using assms by (induction k) (auto simp: Let_def split: option.splits)

definition same_block :: "nat \<Rightarrow> u64 \<Rightarrow> u64 \<Rightarrow> bool" where
  "same_block l va va' \<longleftrightarrow> unat va div 2 ^ lshift l = unat va' div 2 ^ lshift l"

lemma same_block_idx:
  assumes "unat va < va_limit base" "unat va' < va_limit base" "base + k \<le> 3"
  shows "same_block (base + k) va va' \<longleftrightarrow> (\<forall>j\<le>k. XLAT_TABLE_VA_IDX va (base + j) = XLAT_TABLE_VA_IDX va' (base + j))"
  using same_prefix_iff[OF assms] by (simp add: same_block_def va_idx)

lemma passes_same_block:
  assumes wf: "s2_wf root lv st" and t: "tab_at st root virt k = Some t"
    and lim: "unat va < va_limit (base_xlat_level st)" "unat virt < va_limit (base_xlat_level st)"
    and p: "tab_at st root va k' = Some t"
      "XLAT_TABLE_VA_IDX va (base_xlat_level st + k') = XLAT_TABLE_VA_IDX virt (base_xlat_level st + k)"
  shows "same_block (base_xlat_level st + k) va virt"
proof -
  have "k' = k" "\<forall>j<k'. XLAT_TABLE_VA_IDX va (base_xlat_level st + j) = XLAT_TABLE_VA_IDX virt (base_xlat_level st + j)"
    using tab_at_inj[OF wf p(1) t] by auto
  then show ?thesis
    using same_block_idx[OF lim] tab_at_used[OF wf t] p(2) by (auto simp: le_less)
qed

lemma same_block_passes:
  assumes wf: "s2_wf root lv st" and t: "tab_at st root virt k = Some t"
    and lim: "unat va < va_limit (base_xlat_level st)" "unat virt < va_limit (base_xlat_level st)"
    and "same_block (base_xlat_level st + k) va virt"
  shows "tab_at st root va k = Some t"
    "XLAT_TABLE_VA_IDX va (base_xlat_level st + k) = XLAT_TABLE_VA_IDX virt (base_xlat_level st + k)"
  using same_block_idx[OF lim] tab_at_used[OF wf t] assms(5) tab_at_prefix[of k va st virt root] t by auto

section \<open>Changing one entry\<close>

text \<open>The entry that \<^term>\<open>virt\<close> passes after \<^term>\<open>k\<close> levels is changed, in a state
  that differs from the old one in nothing else that a walk reads.\<close>

definition entry_changed :: "nat \<Rightarrow> nat \<Rightarrow> u64 \<Rightarrow> s2_tables \<Rightarrow> s2_tables \<Rightarrow> bool" where
  "entry_changed t j d st st' \<longleftrightarrow> same_shape st st'
     \<and> (\<forall>t' j'. vm_xlat_tables st' t' j' = (if t' = t \<and> j' = j then d else vm_xlat_tables st t' j'))"

lemma tab_at_above:
  assumes wf: "s2_wf root lv st" and ch: "entry_changed t j d st st'" and lv: "lv t = base_xlat_level st + k"
  shows "i \<le> k \<Longrightarrow> tab_at st' root va i = tab_at st root va i"
proof (induction i)
  case (Suc i)
  have sh: "same_shape st st'" using ch by (simp add: entry_changed_def)
  show ?case
  proof (cases "tab_at st root va i")
    case None
    then show ?thesis using Suc by simp
  next
    case (Some u)
    then have "u \<noteq> t" using tab_at_used[OF wf Some] lv Suc.prems by auto
    then show ?thesis
      using Suc Some same_shape_addr(1)[OF sh] sh ch by (simp add: Let_def same_shape_def entry_changed_def)
  qed
qed simp

lemma translate_elsewhere:
  assumes wf: "s2_wf root lv st" and t: "tab_at st root virt k = Some t"
    and ch: "entry_changed t (XLAT_TABLE_VA_IDX virt (base_xlat_level st + k)) d st st'"
    and lim: "unat va < va_limit (base_xlat_level st)" "unat virt < va_limit (base_xlat_level st)"
    and other: "\<not> same_block (base_xlat_level st + k) va virt"
  shows "s2_translate st' root va = s2_translate st root va"
proof (rule translate_agree)
  show "agree_on st st' root va"
    using ch other passes_same_block[OF wf t lim] by (auto simp: agree_on_def entry_changed_def)
  show "tables_ok st" using s2_wfD(1)[OF wf] .
qed

text \<open>The walk of an address that passes the changed entry continues below it.\<close>

lemma walk_changed:
  assumes wf: "s2_wf root lv st" and t: "tab_at st root virt k = Some t"
    and ch: "entry_changed t (XLAT_TABLE_VA_IDX virt (base_xlat_level st + k)) d st st'"
    and lim: "unat va < va_limit (base_xlat_level st)" "unat virt < va_limit (base_xlat_level st)"
    and blk: "same_block (base_xlat_level st + k) va virt"
  shows "s2_walk st' (3 - base_xlat_level st) root va = s2_walk st' (3 - (base_xlat_level st + k)) t va"
    "vm_xlat_tables st' t (XLAT_TABLE_VA_IDX va (base_xlat_level st + k)) = d"
proof -
  have u: "lv t = base_xlat_level st + k" "base_xlat_level st + k \<le> 3" using tab_at_used[OF wf t] by auto
  have "tab_at st' root va k = Some t"
    using tab_at_above[OF wf ch u(1), of k va] same_block_passes(1)[OF wf t lim blk] by simp
  then show "s2_walk st' (3 - base_xlat_level st) root va = s2_walk st' (3 - (base_xlat_level st + k)) t va"
    using walk_from[of st' root va k t] u(2) ch by (simp add: entry_changed_def same_shape_def)
  show "vm_xlat_tables st' t (XLAT_TABLE_VA_IDX va (base_xlat_level st + k)) = d"
    using same_block_passes(2)[OF wf t lim blk] ch by (simp add: entry_changed_def)
qed

lemma s2_walk_at:
  assumes "l \<le> 3"
  shows "s2_walk st (3 - l) t va = (let d = vm_xlat_tables st t (XLAT_TABLE_VA_IDX va l)
    in if d AND 3 = 3 then if l = 3 then Some (d, 3) else s2_walk st (3 - Suc l) (vm_pte_desc_table st d) va
       else if d AND 3 = 1 \<and> l \<noteq> 3 then Some (d, l) else None)"
proof (cases "l = 3")
  case False
  then have "3 - l = Suc (3 - Suc l)" "3 - Suc (3 - Suc l) = l" using assms by auto
  then show ?thesis using False by (simp only: s2_walk.simps) (simp add: Let_def)
qed (simp add: Let_def)

lemma walk_leaf:
  assumes "vm_xlat_tables st t (XLAT_TABLE_VA_IDX va l) = d" "l \<le> 3" "bit d 0" "bit d 1 \<longleftrightarrow> l = 3"
  shows "s2_walk st (3 - l) t va = Some (d, l)"
  using assms by (auto simp: s2_walk_at[OF assms(2)] Let_def and_3_eq)

lemma walk_free:
  assumes "vm_xlat_tables st t (XLAT_TABLE_VA_IDX va l) = 0" "l \<le> 3"
  shows "s2_walk st (3 - l) t va = None"
  using assms by (simp add: s2_walk_at[OF assms(2)] Let_def)

lemma live_entries_changed:
  assumes "entry_changed t j d st st'" "j < 512" "vm_xlat_tables st t j = 0" "\<not> vm_is_free_desc d"
  shows "live_entries st' u = (if u = t then insert j (live_entries st t) else live_entries st u)"
    and "j \<notin> live_entries st t" "finite (live_entries st t)"
  using assms by (auto simp: live_entries_def entry_changed_def vm_is_free_desc_def s2_consts)

lemma count_changed:
  assumes wf: "s2_wf root lv st" and u: "used st t" and ch: "entry_changed t j d st st'" and j: "j < 512"
    and free: "vm_xlat_tables st t j = 0" and d: "\<not> vm_is_free_desc d"
  shows "vm_xlat_use_count st t + 1 = 1 + int (card (live_entries st' t))" "1 < vm_xlat_use_count st t + 1"
  using s2_wfD(6)[OF wf u] live_entries_changed[OF ch j free d] by auto

section \<open>Installing a block or page\<close>

definition install :: "nat \<Rightarrow> nat \<Rightarrow> u64 \<Rightarrow> s2_tables \<Rightarrow> s2_tables" where
  "install t j d st = set_pte (t, j) d
     (st\<lparr>vm_xlat_use_count := (vm_xlat_use_count st)(t := vm_xlat_use_count st t + 1)\<rparr>)"

lemma install_changed: "entry_changed t j d st (install t j d st)"
  by (auto simp: entry_changed_def same_shape_def install_def set_pte_def)

lemma install_simps [simp]:
  "base_xlat_level (install t j d st) = base_xlat_level st" "xlat_num (install t j d st) = xlat_num st"
  "xlat_addr (install t j d st) = xlat_addr st"
  "vm_xlat_use_count (install t j d st) = (vm_xlat_use_count st)(t := vm_xlat_use_count st t + 1)"
  "vm_xlat_tables (install t j d st) t' j' = (if t' = t \<and> j' = j then d else vm_xlat_tables st t' j')"
  "table_addr (install t j d st) t' = table_addr st t'" "tables_ok (install t j d st) = tables_ok st"
  by (auto simp: install_def set_pte_def table_addr_def tables_ok_def)

lemma install_used:
  assumes "s2_wf root lv st" "used st t"
  shows "used (install t j d st) u = used st u"
  using s2_wfD(6)[OF assms] assms(2) by (auto simp: used_def)

lemma install_wf:
  assumes wf: "s2_wf root lv st" and u: "used st t" and j: "j < 512" and free: "vm_xlat_tables st t j = 0"
    and d: "bit d 0" "bit d 1 \<longleftrightarrow> lv t = 3"
  shows "s2_wf root lv (install t j d st)"
proof -
  let ?st = "install t j d st"
  have nfree: "\<not> vm_is_free_desc d" using d by (simp add: desc_types)
  have ntab: "\<not> vm_is_table_desc d (lv t)" using d by (auto simp: desc_types)
  note used = install_used[OF wf u]
  have eok: "entry_ok root lv ?st x e" if "entry_ok root lv st x e" for x e
    using that unfolding entry_ok_def used by simp
  show ?thesis
  proof (rule s2_wfI)
    fix x y :: nat assume "x < xlat_num ?st" "\<not> used ?st x" "y < 512"
    then show "vm_xlat_tables ?st x y = 0" using s2_wfD(4)[OF wf] u used by auto
  next
    fix x assume "used ?st x"
    then show "vm_xlat_use_count ?st x = 1 + int (card (live_entries ?st x))"
      using used s2_wfD(6)[OF wf] count_changed(1)[OF wf u install_changed j free nfree]
        live_entries_changed(1)[OF install_changed j free nfree] by auto
  next
    fix x y :: nat assume "used ?st x" "y < 512"
    then have "entry_ok root lv st x (vm_xlat_tables st x y)" using used s2_wfD(7)[OF wf] by simp
    moreover have "entry_ok root lv st t d" using d ntab nfree by (auto simp: entry_ok_def desc_types)
    ultimately show "entry_ok root lv ?st x (vm_xlat_tables ?st x y)" using eok by auto
  next
    fix x y x' y' :: nat
    assume a: "used ?st x" "used ?st x'" "y < 512" "y' < 512"
      "vm_is_table_desc (vm_xlat_tables ?st x y) (lv x)" "vm_is_table_desc (vm_xlat_tables ?st x' y') (lv x')"
      "vm_xlat_tables ?st x y = vm_xlat_tables ?st x' y'"
    then have "\<not> (x = t \<and> y = j)" "\<not> (x' = t \<and> y' = j)" using ntab by auto
    then show "x = x' \<and> y = y'" using a s2_wfD(8)[OF wf a(1-4)[unfolded used]] by auto
  qed (use s2_wfD(1-3,5)[OF wf] used in auto)
qed

lemma install_translate:
  assumes wf: "s2_wf root lv st" and t: "tab_at st root virt k = Some t"
    and d: "bit d 0" "bit d 1 \<longleftrightarrow> base_xlat_level st + k = 3"
    and lim: "unat va < va_limit (base_xlat_level st)" "unat virt < va_limit (base_xlat_level st)"
  defines "l \<equiv> base_xlat_level st + k"
  shows "s2_translate (install t (XLAT_TABLE_VA_IDX virt l) d st) root va =
    (if same_block l va virt
     then Some ((d AND GENMASK 47 (lshift l)) OR (va AND mask (lshift l)), d AND DESC_ATTRS_MASK)
     else s2_translate st root va)"
proof (cases "same_block l va virt")
  case True
  have "l \<le> 3" using tab_at_used[OF wf t] l_def by simp
  then have "s2_walk (install t (XLAT_TABLE_VA_IDX virt l) d st) (3 - base_xlat_level st) root va = Some (d, l)"
    using walk_changed[OF wf t install_changed lim] True d walk_leaf l_def by simp
  then show ?thesis using True by (simp add: s2_translate_def)
next
  case False
  then show ?thesis using translate_elsewhere[OF wf t install_changed lim] l_def by simp
qed

section \<open>Linking a new table\<close>

definition link :: "nat \<Rightarrow> nat \<Rightarrow> nat \<Rightarrow> s2_tables \<Rightarrow> s2_tables" where
  "link T t j st = install t j (3 OR table_addr st T)
     (st\<lparr>vm_xlat_use_count := (vm_xlat_use_count st)(T := 1)\<rparr>)"

lemma link_simps [simp]:
  "base_xlat_level (link T t j st) = base_xlat_level st" "xlat_num (link T t j st) = xlat_num st"
  "xlat_addr (link T t j st) = xlat_addr st"
  "vm_xlat_tables (link T t j st) t' j' = (if t' = t \<and> j' = j then 3 OR table_addr st T else vm_xlat_tables st t' j')"
  "table_addr (link T t j st) t' = table_addr st t'" "tables_ok (link T t j st) = tables_ok st"
  "T \<noteq> t \<Longrightarrow> vm_xlat_use_count (link T t j st) = (vm_xlat_use_count st)(T := 1, t := vm_xlat_use_count st t + 1)"
  by (auto simp: link_def table_addr_def tables_ok_def)

lemma link_changed: "entry_changed t j (3 OR table_addr st T) st (link T t j st)"
  by (auto simp: entry_changed_def same_shape_def)

lemma table_addr_inj:
  assumes "tables_ok st" "t < xlat_num st" "t' < xlat_num st" "3 OR table_addr st t = 3 OR table_addr st t'"
  shows "t = t'"
  using table_desc_fields(1)[OF assms(1,2)] table_desc_fields(1)[OF assms(1,3)] unfolding assms(4) by simp

text \<open>A table in use gets a free entry linked to a table that is not in use.\<close>

definition linkable :: "nat \<Rightarrow> (nat \<Rightarrow> nat) \<Rightarrow> nat \<Rightarrow> nat \<Rightarrow> nat \<Rightarrow> s2_tables \<Rightarrow> bool" where
  "linkable root lv T t j st \<longleftrightarrow> s2_wf root lv st \<and> used st t \<and> j < 512 \<and> vm_xlat_tables st t j = 0
     \<and> T < xlat_num st \<and> vm_xlat_use_count st T = 0 \<and> lv t < 3"

lemma linkable_facts:
  assumes "linkable root lv T t j st"
  shows "T \<noteq> t" "\<not> used st T" "T \<noteq> root"
    "bit (3 OR table_addr st T) 0" "bit (3 OR table_addr st T) 1"
    "used (link T t j st) x \<longleftrightarrow> used st x \<or> x = T"
    "y < 512 \<Longrightarrow> vm_xlat_tables st T y = 0"
    "live_entries (link T t j st) x = (if x = t then insert j (live_entries st t) else live_entries st x)"
    "live_entries st T = {}" "j \<notin> live_entries st t"
proof -
  have wf: "s2_wf root lv st" and u: "used st t" and j: "j < 512" and free: "vm_xlat_tables st t j = 0"
    and T: "T < xlat_num st" "vm_xlat_use_count st T = 0" and lv: "lv t < 3"
    using assms by (auto simp: linkable_def)
  show Tt: "T \<noteq> t" "\<not> used st T" "T \<noteq> root" using u T s2_wfD(2)[OF wf] by (auto simp: used_def)
  show b: "bit (3 OR table_addr st T) 0" "bit (3 OR table_addr st T) 1"
    using table_desc_fields(2,3)[OF s2_wfD(1)[OF wf] T(1)] .
  show "used (link T t j st) x \<longleftrightarrow> used st x \<or> x = T"
    using s2_wfD(6)[OF wf u] T u Tt(1) by (auto simp: used_def)
  show "vm_xlat_tables st T y = 0" if "y < 512" using s2_wfD(4)[OF wf T(1) Tt(2) that] .
  then show "live_entries st T = {}"
    using s2_wfD(4)[OF wf T(1) Tt(2)] by (auto simp: live_entries_def vm_is_free_desc_def s2_consts)
  have "\<not> vm_is_free_desc (3 OR table_addr st T)" using b by (simp add: desc_types)
  then show "live_entries (link T t j st) x = (if x = t then insert j (live_entries st t) else live_entries st x)"
    "j \<notin> live_entries st t"
    using live_entries_changed(1,2)[OF link_changed j free] by blast+
qed

lemma entry_ok_zero: "entry_ok root lv st t 0"
  by (simp add: entry_ok_def desc_types)

lemma link_entry_ok:
  assumes l: "linkable root lv T t j st" and x: "used st x \<or> x = T" and y: "y < 512"
  shows "entry_ok root (lv(T := lv t + 1)) (link T t j st) x (vm_xlat_tables (link T t j st) x y)"
proof -
  note f = linkable_facts[OF l]
  have wf: "s2_wf root lv st" and lv: "lv t < 3" using l by (auto simp: linkable_def)
  consider "x = T" | "x = t" "y = j" | "x \<noteq> T" "\<not> (x = t \<and> y = j)" by blast
  then show ?thesis
  proof cases
    case 1
    then show ?thesis using f(1) f(7)[OF y] entry_ok_zero by simp
  next
    case 2
    then show ?thesis
      using f(1-5) lv unfolding entry_ok_def f(6) by (auto simp: desc_types)
  next
    case 3
    then have "used st x" using x by simp
    then have e: "entry_ok root lv st x (vm_xlat_tables st x y)" using s2_wfD(7)[OF wf _ y] by blast
    have "vm_xlat_tables (link T t j st) x y = vm_xlat_tables st x y" using 3(2) by auto
    moreover have "used st t' \<Longrightarrow> t' \<noteq> T" for t' using f(2) by auto
    ultimately show ?thesis
      using e 3(1) unfolding entry_ok_def f(6) by auto
  qed
qed

lemma link_unique:
  assumes l: "linkable root lv T t j st"
    and x: "used st x \<or> x = T" "used st x' \<or> x' = T" "y < 512" "y' < 512"
    and d: "vm_is_table_desc (vm_xlat_tables (link T t j st) x y) ((lv(T := lv t + 1)) x)"
      "vm_is_table_desc (vm_xlat_tables (link T t j st) x' y') ((lv(T := lv t + 1)) x')"
      "vm_xlat_tables (link T t j st) x y = vm_xlat_tables (link T t j st) x' y'"
  shows "x = x' \<and> y = y'"
proof -
  note f = linkable_facts[OF l]
  have wf: "s2_wf root lv st" and ok: "tables_ok st" and T: "T < xlat_num st"
    using l s2_wfD(1) by (auto simp: linkable_def)
  have nT: "x \<noteq> T" "x' \<noteq> T" using d(1,2) f(1) f(7)[OF x(3)] f(7)[OF x(4)] by (auto simp: desc_types)
  then have u: "used st x" "used st x'" using x by auto
  have old: "3 OR table_addr st T \<noteq> vm_xlat_tables st z w"
    if "used st z" "w < 512" "vm_is_table_desc (vm_xlat_tables st z w) (lv z)" for z w
  proof -
    note z = that
    obtain z' where "used st z'" "vm_xlat_tables st z w = 3 OR table_addr st z'"
      using table_entry_target[OF wf z] by metis
    then show ?thesis using table_addr_inj[OF ok T, of z'] f(2) by (auto simp: used_def)
  qed
  consider "x = t" "y = j" "x' = t" "y' = j" | "x = t" "y = j" "\<not> (x' = t \<and> y' = j)"
    | "\<not> (x = t \<and> y = j)" "x' = t" "y' = j" | "\<not> (x = t \<and> y = j)" "\<not> (x' = t \<and> y' = j)" by blast
  then show ?thesis
  proof cases
    case 2
    then show ?thesis using d old[OF u(2) x(4)] nT by auto
  next
    case 3
    then show ?thesis using d old[OF u(1) x(3)] nT by auto
  next
    case 4
    then show ?thesis using d s2_wfD(8)[OF wf u x(3,4)] nT by auto
  qed simp
qed

lemma link_wf:
  assumes l: "linkable root lv T t j st"
  shows "s2_wf root (lv(T := lv t + 1)) (link T t j st)"
proof -
  note f = linkable_facts[OF l]
  have wf: "s2_wf root lv st" and lv: "lv t < 3" and fin: "finite (live_entries st t)"
    using l by (auto simp: linkable_def live_entries_def)
  show ?thesis
  proof (rule s2_wfI)
    show "tables_ok (link T t j st)" "used (link T t j st) root"
      "(lv(T := lv t + 1)) root = base_xlat_level (link T t j st)"
      using s2_wfD(1-3)[OF wf] f(3,6) by auto
  next
    fix x y :: nat assume "x < xlat_num (link T t j st)" "\<not> used (link T t j st) x" "y < 512"
    then show "vm_xlat_tables (link T t j st) x y = 0"
      using s2_wfD(4)[OF wf, of x y] l f(6) by (auto simp: linkable_def)
  next
    fix x :: nat assume "used (link T t j st) x"
    then have x: "used st x \<or> x = T" using f(6) by simp
    show "(lv(T := lv t + 1)) x \<le> 3" using x s2_wfD(5)[OF wf, of x] lv by auto
    show "vm_xlat_use_count (link T t j st) x = 1 + int (card (live_entries (link T t j st) x))"
      using x s2_wfD(6)[OF wf, of x] f(1,9,10) fin by (auto simp: f(8))
  next
    fix x y :: nat assume "used (link T t j st) x" "y < 512"
    then show "entry_ok root (lv(T := lv t + 1)) (link T t j st) x (vm_xlat_tables (link T t j st) x y)"
      using link_entry_ok[OF l] f(6) by blast
  next
    fix x y x' y' :: nat
    assume a: "used (link T t j st) x" "used (link T t j st) x'" "y < 512" "y' < 512"
      "vm_is_table_desc (vm_xlat_tables (link T t j st) x y) ((lv(T := lv t + 1)) x)"
      "vm_is_table_desc (vm_xlat_tables (link T t j st) x' y') ((lv(T := lv t + 1)) x')"
      "vm_xlat_tables (link T t j st) x y = vm_xlat_tables (link T t j st) x' y'"
    show "x = x' \<and> y = y'" by (rule link_unique[OF l a(1,2)[unfolded f(6)] a(3-7)])
  qed
qed

lemma link_translate:
  assumes l: "linkable root lv T t (XLAT_TABLE_VA_IDX virt (base_xlat_level st + k)) st"
    and t: "tab_at st root virt k = Some t"
    and lim: "unat va < va_limit (base_xlat_level st)" "unat virt < va_limit (base_xlat_level st)"
  shows "s2_translate (link T t (XLAT_TABLE_VA_IDX virt (base_xlat_level st + k)) st) root va = s2_translate st root va"
proof (cases "same_block (base_xlat_level st + k) va virt")
  case False
  have wf: "s2_wf root lv st" using l by (simp add: linkable_def)
  show ?thesis using translate_elsewhere[OF wf t link_changed lim False] .
next
  case True
  let ?l = "base_xlat_level st + k" let ?st = "link T t (XLAT_TABLE_VA_IDX virt ?l) st"
  have wf: "s2_wf root lv st" and lt: "?l < 3" and free: "vm_xlat_tables st t (XLAT_TABLE_VA_IDX virt ?l) = 0"
    and ok: "tables_ok st" and T: "T < xlat_num st"
    using l tab_at_used[of root lv st virt k t] t s2_wfD(1) by (auto simp: linkable_def)
  note f = linkable_facts[OF l]
  note w = walk_changed[OF wf t link_changed lim True]
  have "s2_walk st (3 - base_xlat_level st) root va = None"
    using walk_from[of st root va k t] same_block_passes[OF wf t lim True] lt free walk_free[of st t va ?l] by simp
  moreover have "s2_walk ?st (3 - Suc ?l) T va = None"
    using lt f(1) f(7) by (intro walk_free) simp_all
  then have "s2_walk ?st (3 - ?l) t va = None"
    using lt w(2) f(4,5) table_desc_fields(1)[OF ok T]
    by (subst s2_walk_at) (simp_all add: Let_def and_3_eq vm_pte_desc_table_def)
  ultimately show ?thesis using w(1) by (simp add: s2_translate_def)
qed

lemma link_tab_at:
  assumes l: "linkable root lv T t (XLAT_TABLE_VA_IDX virt (base_xlat_level st + k)) st"
    and t: "tab_at st root virt k = Some t"
  shows "tab_at (link T t (XLAT_TABLE_VA_IDX virt (base_xlat_level st + k)) st) root virt (Suc k) = Some T"
proof -
  have wf: "s2_wf root lv st" and ok: "tables_ok st" and T: "T < xlat_num st" and lt: "base_xlat_level st + k < 3"
    using l tab_at_used[of root lv st virt k t] t s2_wfD(1) by (auto simp: linkable_def)
  have "tab_at (link T t (XLAT_TABLE_VA_IDX virt (base_xlat_level st + k)) st) root virt k = Some t"
    using tab_at_above[OF wf link_changed, of t k k] tab_at_used[OF wf t] t by simp
  then show ?thesis
    using lt linkable_facts(4,5)[OF l] table_desc_fields(1)[OF ok T]
    by (simp add: Let_def desc_types vm_pte_desc_table_def)
qed

section \<open>Descriptors of a range\<close>

definition is_attrs :: "u64 \<Rightarrow> bool" where
  "is_attrs a \<longleftrightarrow> a AND DESC_ATTRS_MASK = a"

lemma bit_attrs_mask: "bit DESC_ATTRS_MASK k \<longleftrightarrow> 51 \<le> k \<and> k < 64 \<or> 2 \<le> k \<and> k \<le> 11"
  by (auto simp: DESC_ATTRS_MASK_def bit_or_iff bit_GENMASK)

lemma bit_attrs: "is_attrs a \<Longrightarrow> bit a k \<Longrightarrow> 51 \<le> k \<and> k < 64 \<or> 2 \<le> k \<and> k \<le> 11"
  unfolding is_attrs_def by (metis bit_and_iff bit_attrs_mask)

lemma bit_phys: "4096 dvd unat (p :: u64) \<Longrightarrow> unat p < 2 ^ 51 \<Longrightarrow> bit p k \<Longrightarrow> 12 \<le> k \<and> k < 51"
  using bit_page_aligned bit_below by blast

lemma attrs_phys_disjoint:
  assumes "is_attrs a" "4096 dvd unat p" "unat p < 2 ^ 51"
  shows "a AND p = 0"
proof (rule bit_word_eqI)
  fix k show "bit (a AND p) k = bit (0 :: u64) k"
    using bit_attrs[OF assms(1), of k] bit_phys[OF assms(2,3), of k] by (auto simp: bit_and_iff)
qed

lemma desc_add:
  assumes "is_attrs a" "4096 dvd unat p" "4096 dvd unat n" "unat p + unat n \<le> 2 ^ 48"
  shows "(a OR p) + n = a OR (p + n)"
proof -
  have pn: "unat (p + n) = unat p + unat n" using assms(4) by (intro unat_add_no_wrap) simp
  have "a OR p = a + p"
    using attrs_phys_disjoint[OF assms(1,2)] assms(4) by (intro disjunctive_add_eq_or[symmetric]) simp_all
  moreover have "a OR (p + n) = a + (p + n)"
    using attrs_phys_disjoint[OF assms(1), of "p + n"] assms(2-4) pn by (intro disjunctive_add_eq_or[symmetric]) simp_all
  ultimately show ?thesis by simp
qed

lemma phys_mask:
  assumes "is_attrs a" "4096 dvd unat p" "unat p < 2 ^ 48"
  shows "(a OR p) AND GENMASK 47 12 = p"
proof (rule bit_word_eqI)
  fix k show "bit ((a OR p) AND GENMASK 47 12) k = bit p k"
    using bit_attrs[OF assms(1), of k] bit_page_aligned[OF assms(2), of k] bit_below[OF assms(3), of k]
    by (auto simp: bit_and_iff bit_or_iff bit_GENMASK)
qed

lemma desc_not_superset:
  assumes "is_attrs a" "a \<noteq> 0"
  shows "\<not> vm_is_desc_superset 0 (a OR p) l"
proof
  assume "vm_is_desc_superset 0 (a OR p) l"
  then have z: "(a OR p) AND (DESC_ATTRS_MASK OR GENMASK 47 (lshift l)) = 0"
    by (simp add: vm_is_desc_superset_def Let_def)
  obtain k where k: "bit a k" using assms(2) by (auto simp: bit_eq_iff)
  then have "bit ((a OR p) AND (DESC_ATTRS_MASK OR GENMASK 47 (lshift l))) k"
    using bit_attrs[OF assms(1) k] by (auto simp: bit_and_iff bit_or_iff bit_attrs_mask)
  then show False unfolding z by simp
qed

lemma and_mask_dvd: "(x :: u64) AND mask n = 0 \<longleftrightarrow> 2 ^ n dvd unat x" if "n < 64"
proof -
  have "x AND mask n = 0 \<longleftrightarrow> unat (take_bit n x) = 0"
    by (simp add: take_bit_eq_mask unat_eq_0)
  also have "unat (take_bit n x) = take_bit n (unat x)"
    using that by (simp add: unsigned_take_bit_eq)
  finally show ?thesis by (simp add: take_bit_eq_mod dvd_eq_mod_eq_0)
qed

lemma push_bit_minus_1: "push_bit n 1 - 1 = (mask n :: 'a::len word)"
  by (simp add: mask_eq_exp_minus_1)

lemma desc_block_aligned:
  assumes "is_attrs a" "4096 dvd unat p" "unat p < 2 ^ 48" "1 \<le> l"
  shows "vm_is_desc_block_aligned (a OR p) (ucast (push_bit (lshift l) 1 :: u64)) \<longleftrightarrow> 2 ^ lshift l dvd unat p"
proof -
  have n: "lshift l < 32" using assms(4) by (simp add: lshift_eq)
  then have "(ucast (push_bit (lshift l) 1 :: u64) :: u32) = push_bit (lshift l) 1"
    by (intro bit_word_eqI) (auto simp: bit_ucast_iff bit_exp_iff)
  then have "ucast (ucast (push_bit (lshift l) 1 :: u64) - 1 :: u32) = (ucast (mask (lshift l) :: u32) :: u64)"
    by (simp add: mask_eq_exp_minus_1)
  also have "\<dots> = mask (lshift l)"
    using n by (intro bit_word_eqI) (auto simp: bit_ucast_iff bit_mask_iff)
  finally show ?thesis
    using n phys_mask[OF assms(1-3)] and_mask_dvd[of "lshift l" p]
    by (simp add: vm_is_desc_block_aligned_def Let_def s2_consts)
qed

text \<open>The fields of the descriptor that is written for a block or page.\<close>

lemma leaf_fields:
  assumes "is_attrs a" "4096 dvd unat p" "unat p < 2 ^ 48" "2 ^ lshift l dvd unat p" "l \<le> 3"
  defines "d \<equiv> (a OR p) OR (if l = 3 then 3 else 1)"
  shows "bit d 0" "bit d 1 \<longleftrightarrow> l = 3" "d AND DESC_ATTRS_MASK = a" "d AND GENMASK 47 (lshift l) = p"
proof -
  have b: "bit d k \<longleftrightarrow> bit a k \<or> bit p k \<or> k = 0 \<or> k = 1 \<and> l = 3" for k
    using and_3_eq(3)[of 3] bit_below[of 3 2 k]
    by (auto simp: d_def bit_or_iff bit_1_iff less_2_cases_iff simp del: bit_numeral_word_iff)
  have p: "lshift l \<le> k" if "bit p k" for k
  proof -
    obtain m where "unat p = push_bit (lshift l) m" using assms(4) by (auto simp: dvd_def push_bit_eq_mult mult.commute)
    moreover have "bit (unat p) k" using that bit_imp_le_length[OF that] by (simp add: bit_unsigned_iff)
    ultimately show ?thesis by (simp add: bit_push_bit_iff)
  qed
  have nb: "\<not> bit a 0" "\<not> bit a 1" "\<not> bit p 0" "\<not> bit p 1"
    using bit_attrs[OF assms(1), of 0] bit_attrs[OF assms(1), of 1] bit_page_aligned[OF assms(2), of 0]
      bit_page_aligned[OF assms(2), of 1] by auto
  show "bit d 0" "bit d 1 \<longleftrightarrow> l = 3" using b nb by auto
  show "d AND DESC_ATTRS_MASK = a"
  proof (rule bit_word_eqI)
    fix k show "bit (d AND DESC_ATTRS_MASK) k = bit a k"
      using bit_attrs[OF assms(1), of k] bit_page_aligned[OF assms(2), of k] bit_below[OF assms(3), of k]
      by (auto simp: bit_and_iff b bit_attrs_mask)
  qed
  show "d AND GENMASK 47 (lshift l) = p"
  proof (rule bit_word_eqI)
    fix k have "12 \<le> lshift l" by (simp add: lshift_eq)
    then show "bit (d AND GENMASK 47 (lshift l)) k = bit p k"
      using bit_attrs[OF assms(1), of k] p[of k] bit_below[OF assms(3), of k] lshift_less[of l]
      by (auto simp: bit_and_iff b bit_GENMASK)
  qed
qed

end
