(* ===== verification/Address_Map.thy ===== *)
theory Address_Map
  imports ZVM_Prelude
begin

text \<open>
  The interface of an address translation, as the memory domains of VMs use it: a range that is not
  mapped can be added, afterwards exactly the addresses of the range translate to their counterparts and
  all others translate as before. The client lemmas follow the regions of a VM, added one after the
  other, and describe the translation as a search in the list of regions.
\<close>

text \<open>The addresses of a range.\<close>

definition in_range :: "u64 \<Rightarrow> u64 \<Rightarrow> u64 \<Rightarrow> bool" where
  "in_range virt sz va \<longleftrightarrow> unat virt \<le> unat va \<and> unat va < unat virt + unat sz"

text \<open>A region: guest address, size, host address and attributes.\<close>

type_synonym 'a mapping = "u64 \<times> u64 \<times> u64 \<times> 'a"

fun covers :: "'a mapping \<Rightarrow> u64 \<Rightarrow> bool" where
  "covers (virt, sz, phys, a) va \<longleftrightarrow> in_range virt sz va"

fun apart :: "'a mapping \<Rightarrow> 'a mapping \<Rightarrow> bool" where
  "apart (virt, sz, _) (virt', sz', _) \<longleftrightarrow>
     unat virt + unat sz \<le> unat virt' \<or> unat virt' + unat sz' \<le> unat virt"

lemma apart_covers: "apart r r' \<Longrightarrow> covers r va \<Longrightarrow> \<not> covers r' va"
  by (cases r; cases r') (auto simp: in_range_def)

fun target :: "('a \<Rightarrow> 'd) \<Rightarrow> 'a mapping \<Rightarrow> u64 \<Rightarrow> u64 \<times> 'd" where
  "target descr (virt, sz, phys, a) va = (phys + (va - virt), descr a)"

definition region_lookup :: "('a \<Rightarrow> 'd) \<Rightarrow> 'a mapping list \<Rightarrow> u64 \<Rightarrow> (u64 \<times> 'd) option" where
  "region_lookup descr rs va = map_option (\<lambda>r. target descr r va) (List.find (\<lambda>r. covers r va) rs)"

lemma region_lookup_None: "region_lookup descr rs va = None \<longleftrightarrow> (\<forall>r\<in>set rs. \<not> covers r va)"
  unfolding region_lookup_def option.map_disc_iff find_None_iff by blast

lemma find_snoc: "List.find P (xs @ [x]) = (case List.find P xs of None \<Rightarrow> if P x then Some x else None | Some y \<Rightarrow> Some y)"
  by (induction xs) auto

lemma region_lookup_snoc:
  "region_lookup descr (rs @ [r]) va = (case region_lookup descr rs va of
     None \<Rightarrow> if covers r va then Some (target descr r va) else None | Some x \<Rightarrow> Some x)"
  by (simp add: region_lookup_def find_snoc split: option.splits)

locale address_map =
  fixes ok :: "'s \<Rightarrow> bool"
    and lookup :: "'s \<Rightarrow> u64 \<Rightarrow> (u64 \<times> 'd) option"
    and limit :: "'s \<Rightarrow> nat"
    and descr :: "'a \<Rightarrow> 'd"
    and fits :: "'a mapping \<Rightarrow> 's \<Rightarrow> bool"
    and add :: "'a mapping \<Rightarrow> 's \<Rightarrow> (int \<times> 's) outcome"
  assumes add_fresh: "\<lbrakk>ok s; fits r s; \<And>va. covers r va \<Longrightarrow> lookup s va = None\<rbrakk> \<Longrightarrow>
      \<exists>ret s'. add r s = Done (ret, s') \<and> ok s' \<and> limit s' = limit s \<and> (ret = 0 \<or> ret = - ENOMEM)
        \<and> (\<forall>va. unat va < limit s \<longrightarrow>
             (covers r va \<longrightarrow> ret = 0 \<longrightarrow> lookup s' va = Some (target descr r va))
             \<and> (\<not> covers r va \<longrightarrow> lookup s' va = lookup s va))"
    and fits_limit: "\<lbrakk>fits r s; covers r va\<rbrakk> \<Longrightarrow> unat va < limit s"
begin

text \<open>The translation is the one that the regions describe.\<close>

definition maps :: "'a mapping list \<Rightarrow> 's \<Rightarrow> bool" where
  "maps rs s \<longleftrightarrow> ok s \<and> (\<forall>va. unat va < limit s \<longrightarrow> lookup s va = region_lookup descr rs va)"

lemma add_region:
  assumes "maps rs s" "fits r s" "\<And>r'. r' \<in> set rs \<Longrightarrow> apart r' r"
  shows "\<exists>ret s'. add r s = Done (ret, s') \<and> ok s' \<and> limit s' = limit s \<and> (ret = 0 \<or> ret = - ENOMEM)
    \<and> (ret = 0 \<longrightarrow> maps (rs @ [r]) s')"
proof -
  have free: "region_lookup descr rs va = None" if "covers r va" for va
    using that assms(3) apart_covers unfolding region_lookup_None by blast
  then have "lookup s va = None" if "covers r va" for va
    using that assms(1) fits_limit[OF assms(2)] by (simp add: maps_def)
  from add_fresh[OF _ assms(2) this] assms(1) obtain ret s' where s': "add r s = Done (ret, s')" "ok s'" "limit s' = limit s"
    "ret = 0 \<or> ret = - ENOMEM"
    and tr: "\<And>va. unat va < limit s \<Longrightarrow> (covers r va \<longrightarrow> ret = 0 \<longrightarrow> lookup s' va = Some (target descr r va))
      \<and> (\<not> covers r va \<longrightarrow> lookup s' va = lookup s va)" unfolding maps_def by metis
  have "maps (rs @ [r]) s'" if "ret = 0"
    unfolding maps_def
  proof (intro conjI allI impI)
    fix va :: u64 assume "unat va < limit s'"
    then show "lookup s' va = region_lookup descr (rs @ [r]) va"
      using tr[of va] free[of va] assms(1) that s'(3)
      by (cases "covers r va") (auto simp: region_lookup_snoc maps_def split: option.splits)
  qed (rule s'(2))
  then show ?thesis using s' by blast
qed

end

end
