(* ===== verification/S2_Map.thy ===== *)
theory S2_Map
  imports S2_Walk Address_Map
begin

text \<open>
  Correctness of mapping a range that is not mapped yet: \<^verbatim>\<open>vm_set_mapping\<close> never
  fails an assertion, keeps the tables well-formed, translates exactly the
  addresses of the range in the requested way and leaves all others alone; it
  fails only for want of tables. The loop is followed iteration by iteration.
\<close>

section \<open>One iteration\<close>

text \<open>None of the addresses of the range is mapped.\<close>

definition map_ready :: "nat \<Rightarrow> (nat \<Rightarrow> nat) \<Rightarrow> u64 \<Rightarrow> u64 \<Rightarrow> u64 \<Rightarrow> u64 \<Rightarrow> s2_tables \<Rightarrow> bool" where
  "map_ready root lv virt sz phys a st \<longleftrightarrow> s2_wf root lv st
     \<and> 4096 dvd unat virt \<and> 4096 dvd unat sz \<and> 4096 dvd unat phys
     \<and> unat virt + unat sz \<le> va_limit (base_xlat_level st) \<and> unat phys + unat sz \<le> 2 ^ 48
     \<and> is_attrs a \<and> a \<noteq> 0 \<and> (\<forall>va. in_range virt sz va \<longrightarrow> s2_translate st root va = None)"

lemma map_readyD:
  assumes "map_ready root lv virt sz phys a st" "sz \<noteq> 0"
  shows "s2_wf root lv st" "4096 dvd unat virt" "4096 dvd unat sz" "4096 dvd unat phys"
    "is_attrs a" "a \<noteq> 0" "unat virt < va_limit (base_xlat_level st)" "unat phys < 2 ^ 48"
    "in_range virt sz virt" "s2_translate st root virt = None" "4096 \<le> unat sz" "tables_ok st"
proof -
  have "0 < unat sz" using assms(2) by (simp add: unat_gt_0)
  then show "in_range virt sz virt" "unat virt < va_limit (base_xlat_level st)" "unat phys < 2 ^ 48"
    "s2_translate st root virt = None" "4096 \<le> unat sz"
    using assms(1) by (auto simp: map_ready_def in_range_def dest: dvd_imp_le)
qed (use assms s2_wfD(1) in \<open>auto simp: map_ready_def\<close>)

text \<open>An entry on the way of an unmapped address is a table descriptor or empty.\<close>

lemma entry_free_or_table:
  assumes wf: "s2_wf root lv st" and t: "tab_at st root va k = Some t"
    and none: "s2_translate st root va = None"
  defines "d \<equiv> vm_xlat_tables st t (XLAT_TABLE_VA_IDX va (base_xlat_level st + k))"
  shows "vm_is_table_desc d (base_xlat_level st + k) \<or> d = 0"
proof -
  let ?l = "base_xlat_level st + k"
  have u: "used st t" "lv t = ?l" "?l \<le> 3" using tab_at_used[OF wf t] by auto
  have e: "entry_ok root lv st t d" using s2_wfD(7)[OF wf u(1) va_idx_less] d_def by simp
  have "s2_walk st (3 - ?l) t va = None"
    using none walk_from[OF t u(3)] by (auto simp: s2_translate_def split: option.splits)
  then have "\<not> (d AND 3 = 3 \<and> ?l = 3)" "\<not> (d AND 3 = 1 \<and> ?l \<noteq> 3)"
    using u(3) by (auto simp: s2_walk_at Let_def d_def split: if_splits)
  then show ?thesis using e u(2) by (auto simp: entry_ok_def desc_types and_3_eq)
qed

lemma lsize_unat: "l \<le> 3 \<Longrightarrow> unat (push_bit (lshift l) 1 :: u64) = 2 ^ lshift l"
  using lshift_less[of l] by (simp add: unat_exp)

lemma step_table:
  assumes t: "tab_at st root virt k = Some t" and l: "l = base_xlat_level st + k"
    and d: "vm_is_table_desc (vm_xlat_tables st t (XLAT_TABLE_VA_IDX virt l)) l"
  shows "\<exists>t'. set_mapping_step ptes virt sz desc ow l (t, XLAT_TABLE_VA_IDX virt l) st = Done (Next_Level t' st)
    \<and> tab_at st root virt (Suc k) = Some t'"
  using t d by (simp add: set_mapping_step_def get_pte_def l Let_def)

lemma expand_free:
  assumes u: "used st t" "vm_xlat_use_count st t > 0" and free: "vm_xlat_tables st t j = 0" and l: "l < 3"
  shows "vm_expand_to_table (t, j) l st = (case vm_new_table st of
      (None, _) \<Rightarrow> Done (None, st) | (Some T, _) \<Rightarrow> Done (Some T, link T t j st))"
    and "fst (vm_new_table st) = Some T \<Longrightarrow> T < xlat_num st \<and> vm_xlat_use_count st T = 0"
proof -
  show *: "fst (vm_new_table st) = Some T \<Longrightarrow> T < xlat_num st \<and> vm_xlat_use_count st T = 0" for T
    by (auto simp: vm_new_table_def find_upt_Some_iff split: option.splits)
  show "vm_expand_to_table (t, j) l st = (case vm_new_table st of
      (None, _) \<Rightarrow> Done (None, st) | (Some T, _) \<Rightarrow> Done (Some T, link T t j st))"
  proof (cases "List.find (\<lambda>i. vm_xlat_use_count st i = 0) [0..<xlat_num st]")
    case None
    then show ?thesis using l by (simp add: vm_expand_to_table_def vm_new_table_def s2_consts)
  next
    case (Some T)
    then have "T \<noteq> t" "T < xlat_num st" using u by (auto simp: find_upt_Some_iff)
    then show ?thesis
      using l u free Some
      by (simp add: vm_expand_to_table_def vm_new_table_def s2_consts get_pte_def vm_is_free_desc_def
          vm_table_usage_def vm_table_index_def used_def vm_set_pte_table_desc_def link_def install_def
          table_addr_def Let_def)
  qed
qed

text \<open>A block or page that fits is installed; no table can have become unused.\<close>

lemma step_install:
  assumes wf: "s2_wf root lv st" and u: "used st t" and j: "j < 512" and free: "vm_xlat_tables st t j = 0"
    and d: "\<not> vm_is_desc_superset 0 desc l" "desc \<noteq> 0"
    and fit: "\<not> sz < push_bit (lshift l) 1" "virt AND (push_bit (lshift l) 1 - 1) = 0"
      "vm_is_desc_block_aligned desc (ucast (push_bit (lshift l) 1 :: u64))"
  shows "set_mapping_step ptes virt sz desc ow l (t, j) st
    = Done (Move_On (push_bit (lshift l) 1) (install t j (desc OR (if l = 3 then 3 else 1)) st))"
proof -
  let ?st = "install t j (desc OR (if l = 3 then 3 else 1)) st"
  let ?st1 = "st\<lparr>vm_xlat_use_count := (vm_xlat_use_count st)(t := vm_xlat_use_count st t + 1)\<rparr>"
  have pos: "0 < vm_xlat_use_count st t" using s2_wfD(6)[OF wf u] by simp
  then have usage: "vm_table_usage (t, j) 1 st = Done (vm_xlat_use_count st t + 1, ?st1)"
    using u by (simp add: vm_table_usage_def vm_table_index_def used_def Let_def)
  have free0: "vm_is_free_desc 0" by (simp add: desc_types)
  have st: "vm_set_pte_block_desc (t, j) desc l ?st1 = ?st"
    using d(2) by (simp add: vm_set_pte_block_desc_def install_def s2_consts)
  have "vm_is_table_unused (t, j) ?st = Done False"
    using u pos by (simp add: vm_is_table_unused_def vm_table_usage_def vm_table_index_def used_def Let_def)
  then have noloop: "free_unused_tables ptes l (t, j) ?st = Done ?st"
    by (simp add: free_unused_tables.simps[of ptes l])
  have nt: "\<not> vm_is_table_desc 0 l" by (simp add: desc_types)
  show ?thesis
    unfolding set_mapping_step_def get_pte_def fst_conv snd_conv free Let_def
    using d fit free0 nt usage noloop st by simp
qed

lemma step_split:
  assumes wf: "s2_wf root lv st" and u: "used st t" and free: "vm_xlat_tables st t j = 0" and l: "l < 3"
    and d: "\<not> vm_is_desc_superset 0 desc l"
    and nofit: "sz < push_bit (lshift l) 1 \<or> virt AND (push_bit (lshift l) 1 - 1) \<noteq> 0
      \<or> \<not> vm_is_desc_block_aligned desc (ucast (push_bit (lshift l) 1 :: u64))"
  shows "set_mapping_step ptes virt sz desc ow l (t, j) st = Done (Break (- ENOMEM) st)
    \<or> (\<exists>T. T < xlat_num st \<and> vm_xlat_use_count st T = 0
        \<and> set_mapping_step ptes virt sz desc ow l (t, j) st = Done (Next_Level T (link T t j st)))"
proof -
  have pos: "0 < vm_xlat_use_count st t" using s2_wfD(6)[OF wf u] by simp
  have free0: "vm_is_free_desc 0" "\<not> vm_is_table_desc 0 l" by (simp_all add: desc_types)
  have eq: "set_mapping_step ptes virt sz desc ow l (t, j) st
    = bind_outcome (vm_expand_to_table (t, j) l st) (\<lambda>(table, st). case table of
        None \<Rightarrow> Done (Break (- ENOMEM) st) | Some T \<Rightarrow> Done (Next_Level T st))"
    unfolding set_mapping_step_def get_pte_def fst_conv snd_conv free Let_def
    using d nofit free0 by simp
  show ?thesis
  proof (cases "fst (vm_new_table st)")
    case None
    then show ?thesis unfolding eq expand_free(1)[OF u pos free l] by (auto split: prod.splits)
  next
    case (Some T)
    then show ?thesis
      using expand_free(2)[OF u pos free l Some] unfolding eq expand_free(1)[OF u pos free l]
      by (auto split: prod.splits)
  qed
qed

section \<open>The range after a block or page was installed\<close>

lemma same_block_aligned:
  assumes "2 ^ lshift l dvd unat virt"
  shows "same_block l va virt \<longleftrightarrow> unat virt \<le> unat va \<and> unat va < unat virt + 2 ^ lshift l"
proof -
  obtain m where m: "unat virt = 2 ^ lshift l * m" using assms by (auto simp: dvd_def)
  have "unat va div 2 ^ lshift l = m \<longleftrightarrow> m * 2 ^ lshift l \<le> unat va \<and> unat va < Suc m * 2 ^ lshift l"
    by (metis div_nat_eqI div_times_less_eq_dividend dividend_less_div_times mult.commute
        zero_less_numeral zero_less_power mult_Suc add.commute)
  then show ?thesis by (simp add: same_block_def m algebra_simps)
qed

text \<open>The address a block or page gives.\<close>

lemma block_output:
  assumes "2 ^ lshift l dvd unat phys" "2 ^ lshift l dvd unat virt" "same_block l va virt" "l \<le> 3"
    "unat phys + 2 ^ lshift l \<le> 2 ^ 48"
  shows "phys OR (va AND mask (lshift l)) = phys + (va - virt)"
proof -
  let ?n = "lshift l"
  have n: "?n < 64" using lshift_less[of l] by simp
  have r: "unat virt \<le> unat va" "unat va < unat virt + 2 ^ ?n"
    using same_block_aligned[OF assms(2)] assms(3) by auto
  obtain m where m: "unat virt = 2 ^ ?n * m" using assms(2) by (auto simp: dvd_def)
  define o' where "o' = unat va - unat virt"
  have va: "unat va = o' + 2 ^ ?n * m" "o' < 2 ^ ?n" using r m by (auto simp: o'_def)
  have "unat (va AND mask ?n) = take_bit ?n (unat va)"
    using n by (simp add: take_bit_eq_mask[symmetric] unsigned_take_bit_eq)
  also have "\<dots> = unat va - unat virt" using va m by (simp add: take_bit_eq_mod)
  also have "\<dots> = unat (va - virt)" using r by (simp add: unat_sub word_le_nat_alt)
  finally have "va AND mask ?n = va - virt" by (simp add: word_unat_eq_iff)
  moreover have "phys AND (va AND mask ?n) = 0"
    using and_mask_dvd[OF n, of phys] assms(1) by (metis and.left_commute and_zero_eq)
  ultimately show ?thesis by (simp add: disjunctive_add_eq_or)
qed

lemma va_limit_le:
  assumes "tables_ok st"
  shows "va_limit (base_xlat_level st) \<le> 2 ^ 48"
proof -
  have "lshift (base_xlat_level st) + 9 \<le> 48" using assms by (auto simp: lshift_eq tables_ok_def)
  then show ?thesis unfolding va_limit_def by (rule power_increasing) simp
qed

lemma map_ready_install:
  assumes rd: "map_ready root lv virt sz phys a st" and sz: "sz \<noteq> 0"
    and t: "tab_at st root virt k = Some t" and l: "l = base_xlat_level st + k"
    and free: "vm_xlat_tables st t (XLAT_TABLE_VA_IDX virt l) = 0"
    and fit: "2 ^ lshift l \<le> unat sz" "2 ^ lshift l dvd unat virt" "2 ^ lshift l dvd unat phys"
  defines "n \<equiv> push_bit (lshift l) 1"
    and "st' \<equiv> install t (XLAT_TABLE_VA_IDX virt l) ((a OR phys) OR (if l = 3 then 3 else 1)) st"
  shows "map_ready root lv (virt + n) (sz - n) (phys + n) a st'"
    and "unat va < va_limit (base_xlat_level st) \<Longrightarrow> s2_translate st' root va =
      (if in_range virt n va then Some (phys + (va - virt), a) else s2_translate st root va)"
proof -
  note m = map_readyD[OF rd sz]
  have u: "used st t" "lv t = l" "l \<le> 3" using tab_at_used[OF m(1) t] l by auto
  have ln: "unat n = 2 ^ lshift l" using lsize_unat[OF u(3)] n_def by simp
  have bnd: "unat virt + unat sz \<le> va_limit (base_xlat_level st)" "unat phys + unat sz \<le> 2 ^ 48"
    using rd by (auto simp: map_ready_def)
  have lim: "va_limit (base_xlat_level st) \<le> 2 ^ 48" using va_limit_le[OF m(12)] .
  have nle: "n \<le> sz" using fit(1) ln by (simp add: word_le_nat_alt)
  have ar: "unat (virt + n) = unat virt + unat n" "unat (phys + n) = unat phys + unat n" "unat (sz - n) = unat sz - unat n"
    using bnd lim fit(1)[folded ln] nle
    by (intro unat_add_no_wrap, simp, intro unat_add_no_wrap, simp, simp add: unat_sub)
  note lf = leaf_fields[OF m(5,4,8) fit(3) u(3)]
  have pl: "unat phys + 2 ^ lshift l \<le> 2 ^ 48" using bnd(2) fit(1) by simp
  have blk: "same_block l x virt \<longleftrightarrow> in_range virt n x" for x
    using same_block_aligned[OF fit(2)] ln by (simp add: in_range_def)
  show tr: "s2_translate st' root x =
      (if in_range virt n x then Some (phys + (x - virt), a) else s2_translate st root x)"
    if "unat x < va_limit (base_xlat_level st)" for x
    using install_translate[OF m(1) t, folded l, OF lf(1,2) that m(7)] lf(3,4) block_output[OF fit(3,2) _ u(3) pl] blk
    unfolding st'_def by auto
  have "s2_wf root lv st'"
    unfolding st'_def using install_wf[OF m(1) u(1) va_idx_less free lf(1)] lf(2) u(2) by simp
  moreover have "s2_translate st' root x = None" if "in_range (virt + n) (sz - n) x" for x
  proof -
    have "in_range virt sz x" "\<not> in_range virt n x" "unat x < va_limit (base_xlat_level st)"
      using that ar bnd(1) nle by (auto simp: in_range_def word_le_nat_alt)
    then show ?thesis using tr rd by (simp add: map_ready_def)
  qed
  moreover have "4096 dvd (2 ^ lshift l :: nat)"
    using le_imp_power_dvd[of 12 "lshift l" "2 :: nat"] by (simp add: lshift_eq)
  ultimately show "map_ready root lv (virt + n) (sz - n) (phys + n) a st'"
    using m(2-6) bnd ar fit(1) ln by (auto simp: map_ready_def st'_def dvd_diff_nat)
qed

section \<open>The whole range\<close>

definition map_result ::
  "nat \<Rightarrow> u64 \<Rightarrow> u64 \<Rightarrow> u64 \<Rightarrow> u64 \<Rightarrow> s2_tables \<Rightarrow> int \<Rightarrow> s2_tables \<Rightarrow> bool" where
  "map_result root virt sz phys a st r st' \<longleftrightarrow> (\<exists>lv. s2_wf root lv st') \<and> same_shape st st' \<and> (r = 0 \<or> r = - ENOMEM)
     \<and> (\<forall>va. unat va < va_limit (base_xlat_level st) \<longrightarrow>
          (in_range virt sz va \<longrightarrow> r = 0 \<longrightarrow> s2_translate st' root va = Some (phys + (va - virt), a))
          \<and> (\<not> in_range virt sz va \<longrightarrow> s2_translate st' root va = s2_translate st root va))"

lemma same_shape_trans: "same_shape a b \<Longrightarrow> same_shape b c \<Longrightarrow> same_shape a c"
  by (simp add: same_shape_def)

lemma map_result_step:
  assumes res: "map_result root (virt + n) (sz - n) (phys + n) a st1 r st'" and sh: "same_shape st st1"
    and ar: "unat (virt + n) = unat virt + unat n" "n \<le> sz"
    and tr: "\<And>va. unat va < va_limit (base_xlat_level st) \<Longrightarrow> s2_translate st1 root va =
      (if in_range virt n va then Some (phys + (va - virt), a) else s2_translate st root va)"
  shows "map_result root virt sz phys a st r st'"
proof -
  have lim: "base_xlat_level st1 = base_xlat_level st" using sh by (simp add: same_shape_def)
  have rng: "in_range virt sz va \<longleftrightarrow> in_range virt n va \<or> in_range (virt + n) (sz - n) va"
    "\<not> (in_range virt n va \<and> in_range (virt + n) (sz - n) va)" for va
    using ar by (auto simp: in_range_def unat_sub word_le_nat_alt)
  have "phys + n + (va - (virt + n)) = phys + (va - virt)" for va by simp
  then show ?thesis
    using res same_shape_trans[OF sh] tr rng unfolding map_result_def lim by (metis (no_types, lifting))
qed

lemma map_ready_link:
  assumes rd: "map_ready root lv virt sz phys a st" and sz: "sz \<noteq> 0" and t: "tab_at st root virt k = Some t"
    and l: "linkable root lv T t (XLAT_TABLE_VA_IDX virt (base_xlat_level st + k)) st"
  defines "st' \<equiv> link T t (XLAT_TABLE_VA_IDX virt (base_xlat_level st + k)) st"
  shows "map_ready root (lv(T := lv t + 1)) virt sz phys a st'" "same_shape st st'"
    "unat va < va_limit (base_xlat_level st) \<Longrightarrow> s2_translate st' root va = s2_translate st root va"
proof -
  note m = map_readyD[OF rd sz]
  show sh: "same_shape st st'" by (simp add: st'_def same_shape_def)
  show tr: "s2_translate st' root x = s2_translate st root x" if "unat x < va_limit (base_xlat_level st)" for x
    unfolding st'_def using link_translate[OF l t that m(7)] .
  have "s2_translate st' root x = None" if "in_range virt sz x" for x
    using that tr[of x] rd by (auto simp: map_ready_def in_range_def)
  then show "map_ready root (lv(T := lv t + 1)) virt sz phys a st'"
    using rd link_wf[OF l] sh by (auto simp: map_ready_def st'_def)
qed

text \<open>What one iteration does while the range is unmapped: descend, run out of tables, or install.\<close>

lemma map_iteration:
  fixes ptes ow
  assumes rd: "map_ready root lv virt sz phys a st" and sz: "sz \<noteq> 0"
    and t: "tab_at st root virt k = Some t" and l: "l = base_xlat_level st + k"
  defines "s \<equiv> set_mapping_step ptes virt sz (a OR phys) ow l (t, XLAT_TABLE_VA_IDX virt l) st"
  obtains
    (descend) t' lv' st' where "s = Done (Next_Level t' st')" "map_ready root lv' virt sz phys a st'"
      "same_shape st st'" "tab_at st' root virt (Suc k) = Some t'"
      "\<And>va. unat va < va_limit (base_xlat_level st) \<Longrightarrow> s2_translate st' root va = s2_translate st root va"
  | (no_table) "s = Done (Break (- ENOMEM) st)"
  | (installed) st' where "s = Done (Move_On (push_bit (lshift l) 1) st')" "2 ^ lshift l \<le> unat sz" "same_shape st st'"
      "map_ready root lv (virt + push_bit (lshift l) 1) (sz - push_bit (lshift l) 1) (phys + push_bit (lshift l) 1) a st'"
      "\<And>va. unat va < va_limit (base_xlat_level st) \<Longrightarrow> s2_translate st' root va =
        (if in_range virt (push_bit (lshift l) 1) va then Some (phys + (va - virt), a) else s2_translate st root va)"
proof -
  note m = map_readyD[OF rd sz]
  let ?j = "XLAT_TABLE_VA_IDX virt l" and ?n = "push_bit (lshift l) 1 :: u64"
  have u: "used st t" "lv t = l" "l \<le> 3" and l1: "1 \<le> l"
    using tab_at_used[OF m(1) t] l m(12) by (auto simp: tables_ok_def)
  have ln: "unat ?n = 2 ^ lshift l" using lsize_unat[OF u(3)] .
  have lt64: "lshift l < 64" using lshift_less[of l] by simp
  have al: "virt AND (?n - 1) = 0 \<longleftrightarrow> 2 ^ lshift l dvd unat virt"
    unfolding push_bit_minus_1 using and_mask_dvd[OF lt64] .
  note ba = desc_block_aligned[OF m(5,4,8) l1]
  have d0: "a OR phys \<noteq> 0" using m(6) by (auto simp: or_eq_0_iff)
  consider (tab) "vm_is_table_desc (vm_xlat_tables st t ?j) l" | (free) "vm_xlat_tables st t ?j = 0"
    using entry_free_or_table[OF m(1) t m(10)] l by blast
  then show thesis
  proof cases
    case tab
    then obtain t' where "s = Done (Next_Level t' st)" "tab_at st root virt (Suc k) = Some t'"
      using step_table[OF t l tab] s_def by blast
    then show thesis using descend[of t' st lv] rd by (auto simp: same_shape_def)
  next
    case free
    show thesis
    proof (cases "2 ^ lshift l \<le> unat sz \<and> 2 ^ lshift l dvd unat virt \<and> 2 ^ lshift l dvd unat phys")
      case True
      then have fit: "2 ^ lshift l \<le> unat sz" "2 ^ lshift l dvd unat virt" "2 ^ lshift l dvd unat phys" by auto
      have "\<not> sz < ?n" using fit(1) ln by (simp add: word_less_nat_alt)
      then have "s = Done (Move_On ?n (install t ?j ((a OR phys) OR (if l = 3 then 3 else 1)) st))"
        unfolding s_def
        using step_install[OF m(1) u(1) va_idx_less free desc_not_superset[OF m(5,6)] d0] al ba fit(2,3) by blast
      then show thesis
        using installed[OF _ fit(1) _ map_ready_install(1)[OF rd sz t l free fit] map_ready_install(2)[OF rd sz t l free fit]]
        by (simp add: same_shape_def)
    next
      case False
      then have nofit: "sz < ?n \<or> virt AND (?n - 1) \<noteq> 0 \<or> \<not> vm_is_desc_block_aligned (a OR phys) (ucast ?n)"
        using al ba ln by (auto simp: word_less_nat_alt)
      have "l \<noteq> 3" using False m(2,4,11) by (auto simp: lshift_eq)
      then have l3: "l < 3" using u(3) by simp
      show thesis
        using step_split[OF m(1) u(1) free l3 desc_not_superset[OF m(5,6)] nofit, of ptes ow]
      proof (elim disjE exE conjE)
        fix T assume T: "T < xlat_num st" "vm_xlat_use_count st T = 0"
          and e: "set_mapping_step ptes virt sz (a OR phys) ow l (t, ?j) st = Done (Next_Level T (link T t ?j st))"
        have lk: "linkable root lv T t (XLAT_TABLE_VA_IDX virt (base_xlat_level st + k)) st"
          using m(1) u T free l3 va_idx_less l by (simp add: linkable_def)
        show thesis
          by (rule descend[OF e[folded s_def, unfolded l] map_ready_link(1,2)[OF rd sz t lk] link_tab_at[OF lk t]
                map_ready_link(3)[OF rd sz t lk]])
      qed (rule no_table, simp add: s_def)
    qed
  qed
qed

lemma vm_set_mapping_loop_fresh:
  assumes "map_ready root lv virt sz phys a st" "tab_at st root virt k = Some t" "l = base_xlat_level st + k"
  shows "\<exists>r st'. vm_set_mapping_loop root ptes virt sz (a OR phys) ow t l st = Done (r, st')
    \<and> map_result root virt sz phys a st r st'"
  using assms
proof (induction root ptes virt sz "a OR phys" ow t l st arbitrary: lv phys k rule: vm_set_mapping_loop.induct)
  case (1 root ptes virt sz ow t l st)
  note rd = 1(3) and t = 1(4) and l = 1(5)
  let ?pte = "(t, XLAT_TABLE_VA_IDX virt l)"
  let ?s = "set_mapping_step (ptes(l := ?pte)) virt sz (a OR phys) ow l ?pte st"
  show ?case
  proof (cases "sz = 0")
    case True
    have "vm_set_mapping_loop root ptes virt sz (a OR phys) ow t l st = Done (0, st)"
      by (subst vm_set_mapping_loop.simps) (simp add: True)
    moreover have "s2_wf root lv st" using rd by (simp add: map_ready_def)
    ultimately show ?thesis using True by (auto simp: map_result_def same_shape_def in_range_def)
  next
    case sz: False
    note m = map_readyD[OF rd sz]
    have l3: "l \<le> XLAT_LAST_LEVEL" using tab_at_used[OF m(1) t] l by (simp add: s2_consts)
    note unf = vm_set_mapping_loop.simps[of root ptes virt sz "a OR phys" ow t l st]
    show ?thesis
      using rd sz t l
    proof (cases rule: map_iteration[where ptes = "ptes(l := ?pte)" and ow = ow])
      case (descend t' lv' st')
      have bl: "base_xlat_level st' = base_xlat_level st" using descend(3) by (simp add: same_shape_def)
      then have "l + 1 = base_xlat_level st' + Suc k" using l by simp
      from 1(1)[OF sz _ refl refl descend(1) refl refl descend(2,4) this] l3
      obtain r st'' where "vm_set_mapping_loop root (ptes(l := ?pte)) virt sz (a OR phys) ow t' (l + 1) st' = Done (r, st'')"
        "map_result root virt sz phys a st' r st''" by auto
      then show ?thesis
        using descend same_shape_trans[OF descend(3)] bl sz l3 unf by (auto simp: map_result_def Let_def)
    next
      case no_table
      then show ?thesis
        using sz l3 unf m(1) by (auto simp: map_result_def Let_def same_shape_def errno_defs)
    next
      case (installed st')
      let ?n = "push_bit (lshift l) 1 :: u64"
      have ln: "unat ?n = 2 ^ lshift l" using lsize_unat[of l] l3 by (simp add: s2_consts)
      have le: "?n \<le> sz" using installed(2) ln by (simp add: word_le_nat_alt)
      have np: "4096 dvd unat ?n"
        unfolding ln using le_imp_power_dvd[of 12 "lshift l" "2 :: nat"] by (simp add: lshift_eq)
      have bnd: "unat virt + unat sz \<le> va_limit (base_xlat_level st)" "unat phys + unat sz \<le> 2 ^ 48"
        using rd by (auto simp: map_ready_def)
      have lim: "va_limit (base_xlat_level st) \<le> 2 ^ 48" using va_limit_le[OF m(12)] .
      have av: "unat (virt + ?n) = unat virt + unat ?n"
        using bnd(1) lim installed(2) ln by (intro unat_add_no_wrap) simp
      have d: "(a OR phys) + (if a OR phys \<noteq> 0 then ?n else 0) = a OR (phys + ?n)"
        using desc_add[OF m(5,4) np] bnd(2) installed(2) ln m(6) by (simp add: or_eq_0_iff)
      from 1(2)[OF sz _ refl refl installed(1) refl d installed(4), of 0] l3
      obtain r st'' where "vm_set_mapping_loop root (ptes(l := ?pte)) (virt + ?n) (sz - ?n) (a OR (phys + ?n)) ow root
          (base_xlat_level st') st' = Done (r, st'')"
        and res: "map_result root (virt + ?n) (sz - ?n) (phys + ?n) a st' r st''" by (auto simp: d)
      then show ?thesis
        using map_result_step[OF res installed(3) av le installed(5)] installed(1) sz l3 unf d
        by (auto simp: Let_def)
    qed
  qed
qed

section \<open>The interface of the stage-2 tables\<close>

lemma is_attrs_or: "is_attrs a \<Longrightarrow> is_attrs b \<Longrightarrow> is_attrs (a OR b)"
  by (simp add: is_attrs_def bit.conj_disj_distrib2)

lemma is_attrs_if: "is_attrs a \<Longrightarrow> is_attrs b \<Longrightarrow> is_attrs (if c then a else b)"
  by simp

lemma DESC_ATTRS_MASK_eq: "DESC_ATTRS_MASK = 0xFFF8000000000FFC"
  by code_simp

lemma is_attrs_small:
  "is_attrs 0" "is_attrs (push_bit 6 1)" "is_attrs (push_bit 6 2)" "is_attrs (push_bit 10 1)" "is_attrs (push_bit 8 2)"
  "is_attrs (push_bit 8 3)" "is_attrs (push_bit 53 2)" "is_attrs (push_bit 53 0)" "is_attrs (push_bit 4 3)" "is_attrs (push_bit 2 3)"
  by (simp_all add: is_attrs_def DESC_ATTRS_MASK_eq push_bit_eq_mult)

lemma is_attrs_region_desc: "is_attrs (get_vm_region_desc attrs)"
  unfolding get_vm_region_desc_def Let_def by (intro is_attrs_if is_attrs_or is_attrs_small)

lemma region_desc_nonzero:
  assumes "MT_S2_TYPE attrs \<le> 5"
  shows "get_vm_region_desc attrs \<noteq> 0"
proof -
  have "unat (MT_S2_TYPE attrs) \<in> {0,1,2,3,4,5}" using assms by (auto simp: word_le_nat_alt)
  moreover have "MT_S2_TYPE attrs = of_nat (unat (MT_S2_TYPE attrs))" by simp
  ultimately have "MT_S2_TYPE attrs \<in> {0,1,2,3,4,5}" by (elim insertE) auto
  then show ?thesis by (auto simp: get_vm_region_desc_def Let_def or_eq_0_iff push_bit_eq_mult)
qed

lemma page_aligned_iff: "page_aligned a \<longleftrightarrow> 4096 dvd unat a"
  using and_mask_dvd[of 12 a] by (simp add: page_aligned_def mask_numeral s2_consts)

lemma page_aligned_or: "page_aligned (a OR b) \<longleftrightarrow> page_aligned a \<and> page_aligned b"
  by (auto simp: page_aligned_def bit.conj_disj_distrib2 or_eq_0_iff)

lemma ALIGN_TO_PAGE_aligned: "page_aligned (ALIGN_TO_PAGE sz)"
  unfolding page_aligned_def ALIGN_TO_PAGE_def and.assoc by (subst (2) and.commute) simp

text \<open>The base table of a VM: the first of a set of tables that are all empty.\<close>

lemma domain_init_wf:
  assumes "tables_ok st" "0 < xlat_num st" "\<And>t. t < xlat_num st \<Longrightarrow> vm_xlat_use_count st t = 0"
    "\<And>t j. t < xlat_num st \<Longrightarrow> j < 512 \<Longrightarrow> vm_xlat_tables st t j = 0"
  shows "\<exists>st'. arch_vm_mem_domain_init st = (0, Some 0, st') \<and> s2_wf 0 (\<lambda>_. base_xlat_level st) st'
    \<and> (\<forall>va. s2_translate st' 0 va = None)"
proof -
  let ?st = "st\<lparr>vm_xlat_use_count := (vm_xlat_use_count st)(0 := 1)\<rparr>"
  have "List.find (\<lambda>i. vm_xlat_use_count st i = 0) [0..<xlat_num st] = Some 0"
    using assms(2,3) by (simp add: find_upt_Some_iff)
  then have init: "arch_vm_mem_domain_init st = (0, Some 0, ?st)"
    by (simp add: arch_vm_mem_domain_init_def vm_new_table_def)
  have u: "used ?st t \<longleftrightarrow> t = 0" for t using assms(2,3) by (auto simp: used_def)
  have none: "live_entries ?st 0 = {}" using assms(2,4) by (auto simp: live_entries_def desc_types)
  have ok: "tables_ok ?st" "base_xlat_level st \<le> 3" using assms(1) by (auto simp: tables_ok_def)
  have "s2_wf 0 (\<lambda>_. base_xlat_level st) ?st"
    unfolding s2_wf_def using assms(2,4) ok none u by (auto simp: entry_ok_def desc_types)
  moreover have "s2_walk ?st n 0 va = None" for n va using assms(2,4) va_idx_less by (cases n) auto
  then have "\<forall>va. s2_translate ?st 0 va = None" by (simp add: s2_translate_def)
  ultimately show ?thesis using init by blast
qed

text \<open>A set of four empty tables, the first one the base table.\<close>

definition s2_four :: s2_tables where
  "s2_four = \<lparr>xlat_addr = 0x80000000, xlat_num = 4, base_xlat_level = 1, vm_xlat_tables = (\<lambda>_ _. 0),
     vm_xlat_use_count = (\<lambda>_. 0)\<rparr>"

lemma s2_four_init:
  "\<exists>st. arch_vm_mem_domain_init s2_four = (0, Some 0, st) \<and> s2_wf 0 (\<lambda>_. 1) st \<and> (\<forall>va. s2_translate st 0 va = None)
     \<and> base_xlat_level st = 1"
proof -
  have ok: "tables_ok s2_four" by (simp add: s2_four_def tables_ok_def)
  obtain st where st: "arch_vm_mem_domain_init s2_four = (0, Some 0, st)" "s2_wf 0 (\<lambda>_. base_xlat_level s2_four) st"
    "\<forall>va. s2_translate st 0 va = None"
    using domain_init_wf[OF ok] by (auto simp: s2_four_def)
  moreover have "base_xlat_level st = 1" "base_xlat_level s2_four = 1" using s2_wfD(3)[OF st(2)] by (simp_all add: s2_four_def)
  ultimately show ?thesis by simp
qed

lemma vm_add_map_fresh:
  assumes "s2_wf root lv st" "4096 dvd unat virt" "4096 dvd unat phys" "MT_S2_TYPE attrs \<le> 5"
    "unat virt + unat (ALIGN_TO_PAGE sz) \<le> va_limit (base_xlat_level st)" "unat phys + unat (ALIGN_TO_PAGE sz) \<le> 2 ^ 48"
    "\<And>va. in_range virt (ALIGN_TO_PAGE sz) va \<Longrightarrow> s2_translate st root va = None"
  shows "\<exists>r st'. vm_add_map root phys virt sz attrs st = Done (r, st')
    \<and> map_result root virt (ALIGN_TO_PAGE sz) phys (get_vm_region_desc attrs) st r st'"
proof -
  have al: "page_aligned (virt OR phys OR ALIGN_TO_PAGE sz)" "4096 dvd unat (ALIGN_TO_PAGE sz)"
    using assms(2,3) ALIGN_TO_PAGE_aligned[of sz] unfolding page_aligned_or unfolding page_aligned_iff by simp_all
  have "map_ready root lv virt (ALIGN_TO_PAGE sz) phys (get_vm_region_desc attrs) st"
    using assms al(2) is_attrs_region_desc region_desc_nonzero by (simp add: map_ready_def)
  from vm_set_mapping_loop_fresh[OF this, of 0 root "base_xlat_level st" "\<lambda>_. (0, 0)" "attrs AND push_bit 8 1 = 0"]
  show ?thesis using al(1) by (auto simp: vm_add_map_def vm_set_mapping_def Let_def)
qed

text \<open>The tables of a VM provide the translation its memory domain relies on.\<close>

fun region_fits :: "u32 mapping \<Rightarrow> s2_tables \<Rightarrow> bool" where
  "region_fits (virt, sz, phys, attrs) st \<longleftrightarrow> 4096 dvd unat virt \<and> 4096 dvd unat sz \<and> 4096 dvd unat phys \<and> MT_S2_TYPE attrs \<le> 5
     \<and> unat virt + unat sz \<le> va_limit (base_xlat_level st) \<and> unat phys + unat sz \<le> 2 ^ 48"

fun add_mapping :: "nat \<Rightarrow> u32 mapping \<Rightarrow> s2_tables \<Rightarrow> (int \<times> s2_tables) outcome" where
  "add_mapping root (virt, sz, phys, attrs) = vm_add_map root phys virt sz attrs"

lemma ALIGN_TO_PAGE_id:
  assumes "4096 dvd unat sz"
  shows "ALIGN_TO_PAGE sz = sz"
proof -
  let ?m = "mask 12 :: u64"
  have m: "push_bit PAGE_SIZE_SHIFT 1 - 1 = ?m" unfolding PAGE_SIZE_SHIFT_def by (rule push_bit_minus_1)
  have z: "sz AND ?m = 0" using assms and_mask_dvd[of 12 sz] by simp
  then have "bit sz n \<Longrightarrow> \<not> bit ?m n" for n by (metis bit_and_iff bit_0_eq bot_apply bot_bool_def)
  then have "(sz OR ?m) AND NOT ?m = sz" by (intro bit_word_eqI) (auto simp: bit_and_iff bit_or_iff bit_not_iff)
  then show ?thesis unfolding ALIGN_TO_PAGE_def m disjunctive_add_eq_or[OF z] .
qed

interpretation s2map: address_map "\<lambda>st. \<exists>lv. s2_wf root lv st" "\<lambda>st. s2_translate st root" "\<lambda>st. va_limit (base_xlat_level st)"
  get_vm_region_desc region_fits "add_mapping root" for root
proof (unfold_locales, goal_cases)
  case (1 st r)
  obtain virt sz phys attrs where r: "r = (virt, sz, phys, attrs)" by (cases r)
  obtain lv where wf: "s2_wf root lv st" using 1(1) by blast
  have al: "ALIGN_TO_PAGE sz = sz" using 1(2) by (simp add: r ALIGN_TO_PAGE_id)
  show ?case
    using vm_add_map_fresh[OF wf, of virt phys attrs sz] 1(2,3) unfolding al
    by (fastforce simp: r map_result_def same_shape_def)
next
  case (2 r st va)
  then show ?case by (cases r) (auto simp: in_range_def)
qed

text \<open>C2: mapping a fresh range. For tables that are well-formed, a page-aligned
  guest range that is not mapped and ends below the limit of the address space,
  and a page-aligned physical range below 2^48, \<^verbatim>\<open>vm_add_map\<close> never faults
  and never fails an assertion: it returns 0 or -ENOMEM and the tables stay
  well-formed. If it returns 0, every address of the range translates to its
  physical counterpart with the attributes of \<^verbatim>\<open>get_vm_region_desc\<close>; in both
  cases no address outside the range changes its translation.\<close>

theorem vm_add_map_correct:
  assumes "s2_wf root lv st" "4096 dvd unat virt" "4096 dvd unat phys" "MT_S2_TYPE attrs \<le> 5"
    "unat virt + unat (ALIGN_TO_PAGE sz) \<le> va_limit (base_xlat_level st)" "unat phys + unat (ALIGN_TO_PAGE sz) \<le> 2 ^ 48"
    "\<And>va. in_range virt (ALIGN_TO_PAGE sz) va \<Longrightarrow> s2_translate st root va = None"
  shows "\<exists>r st' lv'. vm_add_map root phys virt sz attrs st = Done (r, st') \<and> s2_wf root lv' st'
    \<and> base_xlat_level st' = base_xlat_level st \<and> (r = 0 \<or> r = - ENOMEM)
    \<and> (\<forall>va. unat va < va_limit (base_xlat_level st) \<longrightarrow>
        (if in_range virt (ALIGN_TO_PAGE sz) va
         then r = 0 \<longrightarrow> s2_translate st' root va = Some (phys + (va - virt), get_vm_region_desc attrs)
         else s2_translate st' root va = s2_translate st root va))"
proof -
  obtain r st' where "vm_add_map root phys virt sz attrs st = Done (r, st')"
    and res: "map_result root virt (ALIGN_TO_PAGE sz) phys (get_vm_region_desc attrs) st r st'"
    using vm_add_map_fresh[OF assms] by blast
  moreover obtain lv' where "s2_wf root lv' st'" using res by (auto simp: map_result_def)
  ultimately show ?thesis
    using res by (intro exI[of _ r] exI[of _ st'] exI[of _ lv']) (simp add: map_result_def same_shape_def)
qed

theorem vm_add_map_correct_witness:
  "\<exists>r st st'. arch_vm_mem_domain_init s2_four = (0, Some 0, st)
    \<and> vm_add_map 0 0x40200000 0x80000000 0x400000 5 st = Done (r, st')
    \<and> (r = 0 \<longrightarrow> s2_translate st' 0 0x80001234 = Some (0x40201234, get_vm_region_desc 5))
    \<and> s2_translate st' 0 0x80400000 = None"
proof -
  obtain st where st: "arch_vm_mem_domain_init s2_four = (0, Some 0, st)" "s2_wf 0 (\<lambda>_. 1) st"
    "\<And>va. s2_translate st 0 va = None" "base_xlat_level st = 1" using s2_four_init by blast
  have sz: "ALIGN_TO_PAGE 0x400000 = 0x400000" by (simp add: ALIGN_TO_PAGE_def s2_consts)
  have lim: "va_limit 1 = 2 ^ 39" by (simp add: va_limit_def lshift_eq)
  obtain r st' lv' where r: "vm_add_map 0 0x40200000 0x80000000 0x400000 5 st = Done (r, st')"
    and tr: "\<And>va. unat va < 2 ^ 39 \<Longrightarrow> if in_range 0x80000000 0x400000 va
      then r = 0 \<longrightarrow> s2_translate st' 0 va = Some (0x40200000 + (va - 0x80000000), get_vm_region_desc 5)
      else s2_translate st' 0 va = None"
    using vm_add_map_correct[OF st(2), of "0x80000000" "0x40200000" 5 "0x400000"] st(3,4) sz lim
    by (auto simp: MT_S2_TYPE_def)
  have "in_range 0x80000000 0x400000 0x80001234" "\<not> in_range 0x80000000 0x400000 0x80400000"
    by (simp_all add: in_range_def)
  then show ?thesis using tr[of "0x80001234"] tr[of "0x80400000"] st(1) r by auto
qed

end
