(* ===== verification/S2_Limits.thy ===== *)
theory S2_Limits
  imports S2_Map
begin

text \<open>
  Where the stage-2 code does not do what its callers expect: device ranges in
  low physical memory, ranges inside an existing block, and the reference
  count of a table that is given back.
\<close>

section \<open>Device ranges\<close>

lemma low_desc_covered:
  assumes "4096 dvd unat d" "unat d < 2 ^ 30"
  shows "vm_is_desc_superset 0 d 1"
proof -
  have "d AND (DESC_ATTRS_MASK OR GENMASK 47 (lshift 1)) = 0"
  proof (rule bit_word_eqI)
    fix k
    have "bit d k \<Longrightarrow> 12 \<le> k \<and> k < 30" using bit_page_aligned[OF assms(1)] bit_below[OF assms(2)] by blast
    then show "bit (d AND (DESC_ATTRS_MASK OR GENMASK 47 (lshift 1))) k = bit 0 k"
      by (auto simp: bit_and_iff bit_or_iff bit_attrs_mask bit_GENMASK lshift_eq)
  qed
  then show ?thesis by (simp add: vm_is_desc_superset_def Let_def)
qed

lemma level_rest_unat:
  fixes v :: u64
  assumes "l \<le> 3" "4096 dvd unat v"
  shows "4096 dvd unat (push_bit (lshift l) 1 - (v AND (push_bit (lshift l) 1 - 1)))"
proof -
  let ?n = "lshift l"
  have n: "?n < 64" "12 \<le> ?n" using lshift_less[of l] by (simp_all add: lshift_eq)
  have "unat (v AND mask ?n) = take_bit ?n (unat v)"
    using n by (simp add: take_bit_eq_mask[symmetric] unsigned_take_bit_eq)
  then have u: "unat (v AND mask ?n) = unat v mod 2 ^ ?n" by (simp add: take_bit_eq_mod)
  have d: "4096 dvd (2 ^ ?n :: nat)" using le_imp_power_dvd[OF n(2), of "2 :: nat"] by simp
  have ls: "unat (push_bit ?n 1 :: u64) = 2 ^ ?n" using lsize_unat[OF assms(1)] .
  then have "v AND mask ?n \<le> push_bit ?n 1"
    unfolding word_le_nat_alt u ls by (simp add: order_less_imp_le)
  from unat_sub[OF this] have "unat (push_bit ?n 1 - (v AND mask ?n)) = 2 ^ ?n - unat v mod 2 ^ ?n"
    unfolding u ls .
  then show ?thesis unfolding push_bit_minus_1 using d assms(2) by (simp only: dvd_diff_nat dvd_mod)
qed

lemma low_device_loop:
  assumes "base_xlat_level st = 1" "\<And>j. j < 512 \<Longrightarrow> vm_xlat_tables st root j = 0" "4096 dvd unat virt" "4096 dvd unat sz"
    "4096 dvd unat desc" "unat desc + unat sz \<le> 2 ^ 30" "t = root" "l = 1"
  shows "vm_set_mapping_loop root ptes virt sz desc ow t l st = Done (0, st)"
  using assms
proof (induction root ptes virt sz desc ow t l st rule: vm_set_mapping_loop.induct)
  case (1 root ptes virt sz desc ow t l st)
  note unf = vm_set_mapping_loop.simps[of root ptes virt sz desc ow t l st]
  show ?case
  proof (cases "sz = 0")
    case True
    then show ?thesis using unf by simp
  next
    case False
    let ?pte = "(root, XLAT_TABLE_VA_IDX virt 1)" and ?ls = "push_bit (lshift 1) 1 :: u64"
    define rest where "rest = ?ls - (virt AND (?ls - 1))"
    define n where "n = (if sz < rest then sz else rest)"
    have z: "vm_xlat_tables st root (XLAT_TABLE_VA_IDX virt 1) = 0" using 1(4)[OF va_idx_less] .
    have "0 < unat sz" using False by (simp add: unat_gt_0)
    then have "unat desc < 2 ^ 30" using 1(8) by linarith
    then have sup: "vm_is_desc_superset 0 desc 1" using low_desc_covered 1(7) by blast
    have step: "set_mapping_step (ptes(1 := ?pte)) virt sz desc ow 1 ?pte st = Done (Move_On n st)"
      using z sup by (simp add: set_mapping_step_def get_pte_def desc_types Let_def n_def rest_def)
    have n: "n \<le> sz" "4096 dvd unat n"
      using level_rest_unat[of 1 virt] 1(5,6) by (auto simp: n_def rest_def)
    have nu: "unat (sz - n) = unat sz - unat n" "unat n \<le> unat sz" using n(1) by (auto simp: unat_sub word_le_nat_alt)
    have desc: "unat (desc + n) = unat desc + unat n" using 1(8) nu(2) by (intro unat_add_no_wrap) simp
    have virt: "4096 dvd unat (virt + n)"
      using 1(5) n(2) by (simp add: unat_word_ariths(1) dvd_mod)
    let ?d = "desc + (if desc \<noteq> 0 then n else 0)"
    have d: "4096 dvd unat ?d" "unat ?d + unat (sz - n) \<le> 2 ^ 30"
      using 1(7,8) n(2) desc nu by (auto split: if_splits)
    have sz': "4096 dvd unat (sz - n)" using 1(6) n(2) nu by (simp add: dvd_diff_nat)
    have l3: "\<not> \<not> l \<le> XLAT_LAST_LEVEL" using 1(10) by (simp add: s2_consts)
    have "vm_set_mapping_loop root (ptes(1 := ?pte)) (virt + n) (sz - n) ?d ow root (base_xlat_level st) st = Done (0, st)"
      by (rule 1(2)[OF False l3 refl refl, unfolded 1(9,10), OF step refl 1(3,4) virt sz' d refl 1(3)])
    then show ?thesis using unf False step l3 1(9,10) by (simp add: Let_def)
  qed
qed

text \<open>A device range in the first gigabyte of physical memory. \<^verbatim>\<open>vm_add_dev_map\<close>
  passes the bare physical address as descriptor; on an empty base table the
  empty entry counts as already covering it, so the call reports success and
  installs nothing.\<close>

theorem vm_add_dev_map_low_maps_nothing:
  assumes "base_xlat_level st = 1" "\<And>j. j < 512 \<Longrightarrow> vm_xlat_tables st root j = 0"
    "page_aligned virt" "page_aligned phys" "page_aligned sz" "unat phys + unat sz \<le> 2 ^ 30"
  shows "vm_add_dev_map root phys virt sz st = Done (0, st)"
proof -
  have "page_aligned (virt OR phys OR sz)" using assms(3-5) by (simp add: page_aligned_or)
  then show ?thesis
    using low_device_loop[OF assms(1,2), of virt sz phys root 1 "\<lambda>_. (0, 0)" False] assms
    by (simp add: vm_add_dev_map_def vm_set_mapping_def page_aligned_iff)
qed

theorem vm_add_dev_map_low_maps_nothing_witness:
  "vm_add_dev_map 0 0x9000000 0x9000000 0x1000 s2_four = Done (0, s2_four) \<and> s2_translate s2_four 0 0x9000000 = None"
proof
  show "vm_add_dev_map 0 0x9000000 0x9000000 0x1000 s2_four = Done (0, s2_four)"
    by (rule vm_add_dev_map_low_maps_nothing) (simp_all add: s2_four_def page_aligned_iff)
  show "s2_translate s2_four 0 0x9000000 = None"
  proof -
    have "s2_walk s2_four n 0 va = None" for n va by (cases n) (simp_all add: s2_four_def)
    then show ?thesis by (simp add: s2_translate_def)
  qed
qed

section \<open>A range inside an existing block\<close>

lemma loop_descends:
  assumes "tab_at st root virt k = Some t" "sz \<noteq> 0" "base_xlat_level st + k \<le> 3"
  shows "\<exists>ptes'. vm_set_mapping_loop root ptes virt sz desc ow root (base_xlat_level st) st
    = vm_set_mapping_loop root ptes' virt sz desc ow t (base_xlat_level st + k) st"
  using assms(1,3)
proof (induction k arbitrary: t)
  case 0
  then show ?case by auto
next
  case (Suc k)
  let ?l = "base_xlat_level st + k"
  obtain u where u: "tab_at st root virt k = Some u" "vm_is_table_desc (vm_xlat_tables st u (XLAT_TABLE_VA_IDX virt ?l)) ?l"
    "t = vm_pte_desc_table st (vm_xlat_tables st u (XLAT_TABLE_VA_IDX virt ?l))"
    using Suc.prems(1) by (auto simp: Let_def split: option.splits if_splits)
  obtain ptes' where e: "vm_set_mapping_loop root ptes virt sz desc ow root (base_xlat_level st) st
      = vm_set_mapping_loop root ptes' virt sz desc ow u ?l st"
    using Suc.IH[OF u(1)] Suc.prems(2) by auto
  let ?pte = "(u, XLAT_TABLE_VA_IDX virt ?l)"
  have "set_mapping_step (ptes'(?l := ?pte)) virt sz desc ow ?l ?pte st = Done (Next_Level t st)"
    using u by (simp add: set_mapping_step_def get_pte_def)
  then have "vm_set_mapping_loop root ptes' virt sz desc ow u ?l st
      = vm_set_mapping_loop root (ptes'(?l := ?pte)) virt sz desc ow t (?l + 1) st"
    using assms(2) Suc.prems(2) vm_set_mapping_loop.simps[of root ptes' virt sz desc ow u ?l st] by (simp add: s2_consts)
  then show ?case using e by auto
qed

text \<open>\<^verbatim>\<open>vm_is_desc_superset\<close> compares only the address bits above the size of the
  block, so a request to overwrite pages inside an existing block counts as
  done whenever the new pages lie in the same physical block with the same
  attributes: \<^verbatim>\<open>vm_add_map\<close> returns 0 and the guest pages keep the physical
  pages they had, whichever offset was asked for.\<close>

theorem remap_inside_block_ignored:
  assumes "tab_at st root virt k = Some t" "l = base_xlat_level st + k" "l < 3"
    "vm_is_block_desc (vm_xlat_tables st t (XLAT_TABLE_VA_IDX virt l))"
    "vm_is_desc_superset (vm_xlat_tables st t (XLAT_TABLE_VA_IDX virt l)) (get_vm_region_desc attrs OR phys) l"
    "page_aligned virt" "page_aligned phys" "attrs AND push_bit 8 1 = 0"
    "ALIGN_TO_PAGE sz \<noteq> 0" "ALIGN_TO_PAGE sz \<le> push_bit (lshift l) 1 - (virt AND (push_bit (lshift l) 1 - 1))"
  shows "vm_add_map root phys virt sz attrs st = Done (0, st)"
proof -
  let ?sz = "ALIGN_TO_PAGE sz" and ?d = "get_vm_region_desc attrs OR phys" and ?pte = "(t, XLAT_TABLE_VA_IDX virt l)"
  obtain ptes' where e: "vm_set_mapping root virt ?sz ?d True st = vm_set_mapping_loop root ptes' virt ?sz ?d True t l st"
    using loop_descends[OF assms(1,9)] assms(2,3) unfolding vm_set_mapping_def by fastforce
  have "\<not> vm_is_table_desc (vm_xlat_tables st t (XLAT_TABLE_VA_IDX virt l)) l"
    using assms(4) by (auto simp: vm_is_table_desc_def vm_is_block_desc_def s2_consts)
  then have "set_mapping_step (ptes'(l := ?pte)) virt ?sz ?d True l ?pte st = Done (Move_On ?sz st)"
    using assms(5,10) by (auto simp: set_mapping_step_def get_pte_def Let_def)
  then have "vm_set_mapping_loop root ptes' virt ?sz ?d True t l st = Done (0, st)"
    using assms(3,9) vm_set_mapping_loop.simps[of root ptes' virt ?sz ?d True t l st]
    by (simp add: s2_consts vm_set_mapping_loop.simps[of root _ _ 0])
  then show ?thesis
    using e assms(6-8) ALIGN_TO_PAGE_aligned[of sz] by (simp add: vm_add_map_def Let_def page_aligned_or)
qed

definition s2_block :: s2_tables where
  "s2_block = \<lparr>xlat_addr = 0x80000000, xlat_num = 2, base_xlat_level = 1,
     vm_xlat_tables = (\<lambda>t j. if t = 0 \<and> j = 0 then 0x40000000 OR get_vm_region_desc 5 OR 1 else 0),
     vm_xlat_use_count = (\<lambda>t. if t = 0 then 2 else 0)\<rparr>"

theorem remap_inside_block_ignored_witness:
  "vm_add_map 0 0x40005000 0x1000 0x1000 5 s2_block = Done (0, s2_block)
    \<and> s2_translate s2_block 0 0x1000 = Some (0x40001000, get_vm_region_desc 5)"
proof -
  have g: "get_vm_region_desc 5 = 0x63C" by code_simp
  have i: "XLAT_TABLE_VA_IDX 0x1000 1 = 0" by (simp add: va_idx lshift_eq)
  have e: "vm_xlat_tables s2_block 0 0 = 0x4000063D" by (simp add: s2_block_def g)
  have sz: "ALIGN_TO_PAGE 0x1000 = 0x1000" by (simp add: ALIGN_TO_PAGE_def s2_consts)
  have m: "GENMASK 47 30 = 0xFFFFC0000000" by code_simp
  have m30: "mask 30 = (0x3FFFFFFF :: u64)" by (simp add: mask_numeral)
  have b: "base_xlat_level s2_block = 1" "3 - base_xlat_level s2_block = Suc 1" by (simp_all add: s2_block_def)
  have "vm_is_desc_superset 0x4000063D (0x63C OR 0x40005000) 1"
    by (simp add: vm_is_desc_superset_def DESC_ATTRS_MASK_eq lshift_eq m)
  moreover have "vm_is_block_desc 0x4000063D" by (simp add: vm_is_block_desc_def s2_consts)
  ultimately have "vm_add_map 0 0x40005000 0x1000 0x1000 5 s2_block = Done (0, s2_block)"
    using remap_inside_block_ignored[of s2_block 0 "0x1000" 0 0 1 5 "0x40005000" "0x1000"]
    by (simp add: b(1) i[simplified] e[simplified] g sz page_aligned_iff lshift_eq)
  moreover have "s2_walk s2_block (Suc 1) 0 0x1000 = Some (0x4000063D, 1)"
    using i e by (simp add: Let_def)
  then have "s2_translate s2_block 0 0x1000 = Some (0x40001000, 0x63C)"
    unfolding s2_translate_def b(2) by (simp add: lshift_eq m m30 DESC_ATTRS_MASK_eq)
  ultimately show ?thesis by (simp add: g)
qed

section \<open>Tables are not given back\<close>

text \<open>The use count of a table that is in use never returns to zero.\<close>

definition keeps_tables :: "s2_tables \<Rightarrow> s2_tables \<Rightarrow> bool" where
  "keeps_tables st st' \<longleftrightarrow> xlat_num st' = xlat_num st
     \<and> (\<forall>t. 0 < vm_xlat_use_count st t \<longrightarrow> 0 < vm_xlat_use_count st' t)"

lemma keeps_tables_refl [simp]: "keeps_tables st st"
  by (simp add: keeps_tables_def)

lemma keeps_tables_trans: "keeps_tables st st' \<Longrightarrow> keeps_tables st' st'' \<Longrightarrow> keeps_tables st st''"
  by (simp add: keeps_tables_def)

lemma keeps_tables_entries [simp]:
  "keeps_tables st (set_pte pte d st') = keeps_tables st st'" "keeps_tables st (fill_table t d s st') = keeps_tables st st'"
  by (simp_all add: keeps_tables_def set_pte_def fill_table_def)

lemma usage_keeps: "vm_table_usage pte n st = Done (m, st') \<Longrightarrow> keeps_tables st st'"
  by (auto simp: vm_table_usage_def vm_table_index_def keeps_tables_def Let_def split: if_splits)

lemma new_table_keeps: "vm_new_table st = (r, st') \<Longrightarrow> keeps_tables st st'"
  by (auto simp: vm_new_table_def keeps_tables_def split: option.splits)

lemma clear_entry_keeps: "clear_entry pte st = Done st' \<Longrightarrow> keeps_tables st st'"
  using usage_keeps[of pte "-1" "set_pte pte 0 st"]
  by (auto simp: clear_entry_def keeps_tables_def set_pte_def split: outcome.splits)

lemma expand_keeps: "vm_expand_to_table pte l st = Done (r, st') \<Longrightarrow> keeps_tables st st'"
proof -
  assume *: "vm_expand_to_table pte l st = Done (r, st')"
  obtain n st1 where n: "vm_new_table st = (n, st1)" by (cases "vm_new_table st")
  have **: "keeps_tables st st1" using new_table_keeps[OF n] .
  have "keeps_tables st1 st2" if "vm_table_usage q m (fill_table t d s st1) = Done (v, st2)" for q m t d s v st2
    using usage_keeps[OF that] by (simp add: keeps_tables_def fill_table_def)
  then have "keeps_tables st1 st'"
    using * n by (auto simp: vm_expand_to_table_def vm_set_pte_table_desc_def Let_def dest: usage_keeps
        split: if_splits outcome.splits option.splits)
  then show ?thesis using keeps_tables_trans[OF **] by blast
qed

lemma del_mapping_keeps: "on_done (vm_del_mapping table virt sz level st) (keeps_tables st)"
proof (induction table virt sz level st rule: vm_del_mapping.induct)
  case (1 table virt sz level st)
  let ?ls = "push_bit (lshift level) 1 :: u64" and ?step = "del_step virt sz level"
  let ?pte = "(table, XLAT_TABLE_VA_IDX virt level)"
  let ?split = "if ?step \<noteq> ?ls \<and> vm_is_block_desc (get_pte st ?pte)
      then bind_outcome (vm_expand_to_table ?pte level st) (\<lambda>(_, st). Done st) else Done st"
  show ?case
  proof (cases "sz = 0 \<or> XLAT_LAST_LEVEL < level")
    case True
    then show ?thesis by (subst vm_del_mapping.simps) auto
  next
    case False
    then have nz: "sz \<noteq> 0" "\<not> XLAT_LAST_LEVEL < level" by auto
    have ex: "on_done ?split (keeps_tables st)" by (auto intro!: on_doneI dest: expand_keeps split: if_splits outcome.splits)
    have sub: "on_done (vm_del_mapping (vm_pte_desc_table st1 (get_pte st1 ?pte)) virt ?step (level + 1) st1) (keeps_tables st1)"
      if "\<not> vm_is_free_desc (get_pte st ?pte)" "?split = Done st1" "vm_is_table_desc (get_pte st1 ?pte) level" for st1
      using 1(1)[OF nz refl refl refl that refl] .
    have ret: "on_done (bind_outcome (vm_is_table_unused q st2) (\<lambda>unused. if \<not> unused then Done st2
        else bind_outcome (vm_dec_table_ref q st2) (clear_entry ?pte))) (keeps_tables st2)" for q st2
      by (auto intro!: on_doneI simp: vm_dec_table_ref_def split: outcome.splits if_splits
          dest!: usage_keeps clear_entry_keeps intro: keeps_tables_trans)
    have entry: "on_done (if vm_is_free_desc (get_pte st ?pte) then Done st
        else bind_outcome ?split (\<lambda>st. if vm_is_table_desc (get_pte st ?pte) level
          then let subtable = vm_pte_desc_table st (get_pte st ?pte)
               in bind_outcome (vm_del_mapping subtable virt ?step (level + 1) st) (\<lambda>st.
                  bind_outcome (vm_is_table_unused (subtable, 0) st) (\<lambda>unused. if \<not> unused then Done st
                    else bind_outcome (vm_dec_table_ref (subtable, 0) st) (clear_entry ?pte)))
          else clear_entry ?pte st)) (keeps_tables st)"
      (is "on_done (if _ then _ else bind_outcome _ ?f) _")
    proof (cases "vm_is_free_desc (get_pte st ?pte)")
      case nf: False
      have "on_done (?f st1) (keeps_tables st1)" if "?split = Done st1" for st1
      proof (cases "vm_is_table_desc (get_pte st1 ?pte) level")
        case True
        show ?thesis
          unfolding if_P[OF True] Let_def
          by (rule on_done_bind[OF sub[OF nf that True]], rule on_done_mono[OF ret], rule keeps_tables_trans)
      qed (auto intro!: on_doneI dest: clear_entry_keeps)
      then have "on_done (bind_outcome ?split ?f) (keeps_tables st)"
        by (intro on_done_bind[OF ex]) (blast intro: on_done_mono keeps_tables_trans)
      then show ?thesis using nf by simp
    qed simp
    show ?thesis
      unfolding vm_del_mapping.simps[of table virt sz level st] Let_def[of ?ls] Let_def[of ?step] Let_def[of ?pte]
        if_not_P[OF nz(1)] if_not_P[OF nz(2)]
    proof (rule on_done_bind[OF entry])
    qed (rule on_done_mono[OF 1(2)[OF nz refl refl refl]], assumption, rule keeps_tables_trans)
  qed
qed

text \<open>Giving tables back. \<^verbatim>\<open>vm_dec_table_ref\<close> subtracts \<^verbatim>\<open>0xFFFFFFFF\<close> held in an
  \<^verbatim>\<open>int\<close>, that is it adds one, so the use count of a table that became empty
  never reaches zero: once all tables are in use, no range that is removed
  makes a table available again, and \<^verbatim>\<open>vm_new_table\<close> keeps failing.\<close>

theorem vm_remove_map_frees_no_table:
  assumes "\<And>t. t < xlat_num st \<Longrightarrow> 0 < vm_xlat_use_count st t" "vm_remove_map root virt sz st = Done (r, st')"
  shows "vm_new_table st' = (None, st')"
proof -
  have "keeps_tables st st'"
    using assms(2) del_mapping_keeps[of root virt sz "base_xlat_level st" st]
    by (auto simp: vm_remove_map_def dest: on_doneD split: outcome.splits)
  then have "\<And>t. t < xlat_num st' \<Longrightarrow> 0 < vm_xlat_use_count st' t" using assms(1) by (simp add: keeps_tables_def)
  then have "List.find (\<lambda>i. vm_xlat_use_count st' i = 0) [0..<xlat_num st'] = None"
    by (fastforce simp: find_upt_None_iff)
  then show ?thesis by (simp add: vm_new_table_def)
qed

text \<open>One page, mapped through both of two tables, is removed.\<close>

definition s2_page :: s2_tables where
  "s2_page = \<lparr>xlat_addr = 0x80000000, xlat_num = 2, base_xlat_level = 2,
     vm_xlat_tables = (\<lambda>t j. if j \<noteq> 0 then 0 else if t = 0 then 0x80001003 else 0x40000003),
     vm_xlat_use_count = (\<lambda>t. 2)\<rparr>"

lemma vm_del_mapping_empty: "vm_del_mapping t v 0 l st = Done st"
  by (subst vm_del_mapping.simps) simp

lemma del_step_page: "l \<le> 3 \<Longrightarrow> del_step 0 0x1000 l = 0x1000"
proof -
  assume l: "l \<le> 3"
  have "(0x1000 :: u64) \<le> push_bit (lshift l) 1"
    unfolding word_le_nat_alt lsize_unat[OF l] using power_increasing[of 12 "lshift l" "2 :: nat"] by (simp add: lshift_eq)
  then show ?thesis by (simp add: del_step_def Let_def)
qed

lemma remove_s2_page: "\<exists>st. vm_remove_map 0 0 0x1000 s2_page = Done (0, st) \<and> vm_xlat_use_count st 1 = 2
    \<and> (\<forall>j. vm_xlat_tables st 1 j = 0)"
proof -
  have m: "GENMASK 47 12 = 0xFFFFFFFFF000" by code_simp
  have i: "XLAT_TABLE_VA_IDX 0 l = 0" for l by (simp add: va_idx)
  let ?st = "s2_page\<lparr>vm_xlat_tables := (\<lambda>t j. if t = 0 then vm_xlat_tables s2_page t j else if t = 1 then 0
      else vm_xlat_tables s2_page t j), vm_xlat_use_count := (\<lambda>t. if t = 1 then 1 else 2)\<rparr>"
  have "clear_entry (1, 0) s2_page = Done ?st"
    by (simp add: clear_entry_def vm_table_usage_def vm_table_index_def s2_page_def set_pte_def fun_eq_iff)
  then have d3: "vm_del_mapping 1 0 0x1000 3 s2_page = Done ?st"
    by (subst vm_del_mapping.simps)
      (simp add: vm_del_mapping_empty i del_step_page desc_types s2_consts lshift_eq vm_is_block_desc_def get_pte_def s2_page_def)
  have "get_pte s2_page (0, 0) = 0x80001003" "vm_pte_desc_table s2_page 0x80001003 = 1"
    by (simp_all add: get_pte_def s2_page_def vm_pte_desc_table_def m s2_consts)
  moreover have "vm_is_table_unused (1, 0) ?st = Done True"
    by (simp add: vm_is_table_unused_def vm_table_usage_def vm_table_index_def s2_page_def)
  ultimately show ?thesis
    using d3 unfolding vm_remove_map_def
    by (subst vm_del_mapping.simps)
      (auto simp: vm_del_mapping_empty i del_step_page desc_types s2_consts lshift_eq vm_is_block_desc_def
        vm_dec_table_ref_def clear_entry_def vm_table_usage_def vm_table_index_def set_pte_def s2_page_def split: outcome.splits)
qed

theorem vm_remove_map_frees_no_table_witness:
  "\<exists>st. vm_remove_map 0 0 0x1000 s2_page = Done (0, st) \<and> vm_new_table st = (None, st)"
proof -
  obtain st where st: "vm_remove_map 0 0 0x1000 s2_page = Done (0, st)" using remove_s2_page by blast
  have "0 < vm_xlat_use_count s2_page t" for t by (simp add: s2_page_def)
  then show ?thesis using vm_remove_map_frees_no_table[OF _ st] st by blast
qed

end
