(* ===== verification/Vgic.thy ===== *)
theory Vgic
  imports ZVM_Prelude
begin

text \<open>
  The virtual interrupt controller: the emulated distributor and redistributors
  (\<^verbatim>\<open>subsys/zvm/vdev/vgic_common.c\<close>, \<^verbatim>\<open>vgic_v3.c\<close>, \<^verbatim>\<open>include/zephyr/zvm/vdev/vgic_v3.h\<close>)
  and the list registers through which interrupts reach a vCPU. vCPUs are named
  by their \<^verbatim>\<open>vcpu_id\<close>, which is their index in the VM. The three bit arrays of the
  code (enabled, pending, active) are one function of the kind of bit. The
  routines that walk a register value read it through its address cut to 32
  bits; the model reads the value itself, which is the same for a host stack in
  the first 4 GB.
\<close>

section \<open>State\<close>

datatype irq_bit = Enabled | Pending | Active

record virt_irq_desc =
  desc_id :: u8
  prio :: u8
  irq_type :: u8
  virq_states :: u8
  src_cpu :: u32
  pirq_num :: u32
  virq_num :: u32
  bind_hwirq_flag :: bool
  level_triggered :: u8

record virt_gic_gicd =
  gicd_base :: u32
  gicd_size :: u32
  vgicd_ctlr :: u32
  vgicd_typer :: u32
  vgicd_pidr2 :: u32
  gicd_virq :: "irq_bit \<Rightarrow> nat \<Rightarrow> nat \<Rightarrow> u32"
  virq_edge_trigger :: "nat \<Rightarrow> u32"

record virt_gic_gicr =
  gicr_vcpu_id :: u32
  gicr_rd_base :: u32
  gicr_rd_size :: u32
  gicr_sgi_base :: u32
  gicr_sgi_size :: u32
  gicr_rd_ctlr :: u32
  gicr_rd_pidr2 :: u32
  gicr_rd_typer :: u64
  gicr_sgi_typer :: u64
  gicr_virq :: "irq_bit \<Rightarrow> u32"

text \<open>The VM, its interrupt controller, the list registers of the CPU that runs the
  current vCPU, and the configuration: the number of virtual interrupts, of
  vCPUs a VM may have, of redistributor frames and of list registers.\<close>

record vgic =
  vgic_lock :: bool
  gicd :: virt_gic_gicd
  gicr :: "nat \<Rightarrow> virt_gic_gicr"
  vcpu_num :: nat
  current_vcpu :: "nat option"
  irq_desc :: "nat \<Rightarrow> nat \<Rightarrow> virt_irq_desc"
  list_regs_map :: "nat \<Rightarrow> u64"
  ich_lr :: "nat \<Rightarrow> u64"
  ich_elrsr :: u64
  ich_eisr :: u64
  hw_irq :: "nat \<Rightarrow> bool"
  ipis :: "nat list"
  VM_GLOBAL_VIRQ_NR :: nat
  CONFIG_MAX_VCPU_PER_VM :: nat
  VGIC_RDIST_NUM :: nat
  VGIC_TYPER_LR_NUM :: nat
  ZSHM_NOTIFY_VIRQ_NUM :: nat
  VSERIAL_DEV_VIRQ :: nat

definition VM_LOCAL_VIRQ_NR :: nat where "VM_LOCAL_VIRQ_NR = 32"
definition VM_INVALID_DESC_ID :: u8 where "VM_INVALID_DESC_ID = 0xFF"
definition VM_INVALID_PIRQ_NUM :: u32 where "VM_INVALID_PIRQ_NUM = 0xFFFF"
definition VIRQ_STATE_PENDING :: u8 where "VIRQ_STATE_PENDING = 1"
definition VIRQ_STATE_ACTIVE :: u8 where "VIRQ_STATE_ACTIVE = 2"
definition VM_IRQ_LEVEL_TRIGGERED :: nat where "VM_IRQ_LEVEL_TRIGGERED = 0"
definition VM_IRQ_EDGE_TRIGGERED :: nat where "VM_IRQ_EDGE_TRIGGERED = 1"

lemmas vgic_consts = VM_LOCAL_VIRQ_NR_def VM_INVALID_DESC_ID_def VM_INVALID_PIRQ_NUM_def VIRQ_STATE_PENDING_def
  VIRQ_STATE_ACTIVE_def VM_IRQ_LEVEL_TRIGGERED_def VM_IRQ_EDGE_TRIGGERED_def

definition VGIC_ALL_VCPU_MASK :: "vgic \<Rightarrow> u32" where
  "VGIC_ALL_VCPU_MASK st = push_bit (vcpu_num st) 1 - 1"

definition VGIC_GET_VIRQ_DESC :: "nat \<Rightarrow> nat \<Rightarrow> vgic \<Rightarrow> virt_irq_desc option" where
  "VGIC_GET_VIRQ_DESC vcpu virq st = (if virq < VM_GLOBAL_VIRQ_NR st then Some (irq_desc st vcpu virq) else None)"

definition put_desc :: "nat \<Rightarrow> nat \<Rightarrow> virt_irq_desc \<Rightarrow> vgic \<Rightarrow> vgic" where
  "put_desc vcpu virq d st = st\<lparr>irq_desc := (irq_desc st)(vcpu := (irq_desc st vcpu)(virq := d))\<rparr>"

definition set_gicd_word :: "irq_bit \<Rightarrow> nat \<Rightarrow> nat \<Rightarrow> u32 \<Rightarrow> vgic \<Rightarrow> vgic" where
  "set_gicd_word b vcpu i w st = st\<lparr>gicd := (gicd st)\<lparr>gicd_virq :=
     (gicd_virq (gicd st))(b := (gicd_virq (gicd st) b)(vcpu := (gicd_virq (gicd st) b vcpu)(i := w)))\<rparr>\<rparr>"

definition set_gicr_word :: "irq_bit \<Rightarrow> nat \<Rightarrow> u32 \<Rightarrow> vgic \<Rightarrow> vgic" where
  "set_gicr_word b n w st = st\<lparr>gicr := (gicr st)(n := (gicr st n)\<lparr>gicr_virq := (gicr_virq (gicr st n))(b := w)\<rparr>)\<rparr>"

definition upd_bit :: "bool \<Rightarrow> nat \<Rightarrow> u32 \<Rightarrow> u32" where
  "upd_bit on n w = (if on then w OR push_bit n 1 else w AND NOT (push_bit n 1))"

section \<open>The bits of one interrupt\<close>

definition VGIC_TEST_AND_SET :: "irq_bit \<Rightarrow> nat \<Rightarrow> nat \<Rightarrow> nat \<Rightarrow> bool \<Rightarrow> vgic \<Rightarrow> vgic" where
  "VGIC_TEST_AND_SET b vcpu irq bs on st =
    (if irq < VM_LOCAL_VIRQ_NR
     then set_gicr_word b vcpu (upd_bit on (irq mod 32) (gicr_virq (gicr st vcpu) b)) st
     else set_gicd_word b vcpu (irq div bs) (upd_bit on (irq mod 32) (gicd_virq (gicd st) b vcpu (irq div bs))) st)"

definition VGIC_TEST_AND_SET_ENABLE :: "nat \<Rightarrow> nat \<Rightarrow> nat \<Rightarrow> bool \<Rightarrow> vgic \<Rightarrow> vgic" where
  "VGIC_TEST_AND_SET_ENABLE = VGIC_TEST_AND_SET Enabled"

definition VGIC_TEST_AND_SET_PENDING :: "nat \<Rightarrow> nat \<Rightarrow> nat \<Rightarrow> bool \<Rightarrow> vgic \<Rightarrow> vgic" where
  "VGIC_TEST_AND_SET_PENDING = VGIC_TEST_AND_SET Pending"

definition VGIC_TEST_AND_SET_ACTIVE :: "nat \<Rightarrow> nat \<Rightarrow> nat \<Rightarrow> bool \<Rightarrow> vgic \<Rightarrow> vgic" where
  "VGIC_TEST_AND_SET_ACTIVE = VGIC_TEST_AND_SET Active"

text \<open>The loop over the vCPUs of a mask.\<close>

definition for_masked :: "(nat \<Rightarrow> vgic \<Rightarrow> vgic) \<Rightarrow> u32 \<Rightarrow> vgic \<Rightarrow> vgic" where
  "for_masked f cpu_mask st = fold (\<lambda>i st. if bit cpu_mask i then f i st else st) [0..<vcpu_num st] st"

definition VGIC_SET_ENABLE :: "nat \<Rightarrow> u32 \<Rightarrow> vgic \<Rightarrow> vgic" where
  "VGIC_SET_ENABLE irq = for_masked (\<lambda>i. VGIC_TEST_AND_SET_ENABLE i irq 32 True)"

definition VGIC_UNSET_ENABLE :: "nat \<Rightarrow> u32 \<Rightarrow> vgic \<Rightarrow> vgic" where
  "VGIC_UNSET_ENABLE irq = for_masked (\<lambda>i. VGIC_TEST_AND_SET_ENABLE i irq 32 False)"

definition VGIC_SET_PENDING :: "nat \<Rightarrow> u32 \<Rightarrow> vgic \<Rightarrow> vgic" where
  "VGIC_SET_PENDING irq = for_masked (\<lambda>i. VGIC_TEST_AND_SET_PENDING i irq 32 True)"

definition VGIC_UNSET_PENDING :: "nat \<Rightarrow> u32 \<Rightarrow> vgic \<Rightarrow> vgic" where
  "VGIC_UNSET_PENDING irq = for_masked (\<lambda>i. VGIC_TEST_AND_SET_PENDING i irq 32 False)"

definition VGIC_SET_ACTIVE :: "nat \<Rightarrow> u32 \<Rightarrow> vgic \<Rightarrow> vgic" where
  "VGIC_SET_ACTIVE irq = for_masked (\<lambda>i. VGIC_TEST_AND_SET_ACTIVE i irq 32 True)"

definition VGIC_UNSET_ACTIVE :: "nat \<Rightarrow> u32 \<Rightarrow> vgic \<Rightarrow> vgic" where
  "VGIC_UNSET_ACTIVE irq = for_masked (\<lambda>i. VGIC_TEST_AND_SET_ACTIVE i irq 32 False)"

text \<open>Reading one register of 32 interrupts.\<close>

definition VGIC_GET :: "irq_bit \<Rightarrow> nat \<Rightarrow> nat \<Rightarrow> nat \<Rightarrow> vgic \<Rightarrow> u32" where
  "VGIC_GET b vcpu irq_base bs st =
    (let irq_nr_base = irq_base * 32
     in if irq_nr_base < VM_LOCAL_VIRQ_NR then gicr_virq (gicr st vcpu) b
        else gicd_virq (gicd st) b vcpu (irq_nr_base div bs))"

definition VGIC_GET_ENABLED :: "nat \<Rightarrow> nat \<Rightarrow> nat \<Rightarrow> vgic \<Rightarrow> u32" where
  "VGIC_GET_ENABLED = VGIC_GET Enabled"

definition VGIC_GET_PENDING :: "nat \<Rightarrow> nat \<Rightarrow> nat \<Rightarrow> vgic \<Rightarrow> u32" where
  "VGIC_GET_PENDING = VGIC_GET Pending"

definition VGIC_GET_ACTIVE :: "nat \<Rightarrow> nat \<Rightarrow> nat \<Rightarrow> vgic \<Rightarrow> u32" where
  "VGIC_GET_ACTIVE = VGIC_GET Active"

definition VGIC_IRQ_TEST_TRIGGER_TYPE :: "nat \<Rightarrow> nat \<Rightarrow> vgic \<Rightarrow> nat" where
  "VGIC_IRQ_TEST_TRIGGER_TYPE vcpu irq st =
    (if VM_LOCAL_VIRQ_NR \<le> irq
     then if virq_edge_trigger (gicd st) irq AND push_bit vcpu 1 \<noteq> 0 then VM_IRQ_EDGE_TRIGGERED
          else VM_IRQ_LEVEL_TRIGGERED
     else VM_IRQ_EDGE_TRIGGERED)"

text \<open>Whether a bit is set for one of the vCPUs of a mask. For enabled bits the code
  has no upper bound on the interrupt.\<close>

definition virq_bit_of :: "irq_bit \<Rightarrow> nat \<Rightarrow> nat \<Rightarrow> vgic \<Rightarrow> bool" where
  "virq_bit_of b vcpu irq st =
    (if irq < VM_LOCAL_VIRQ_NR then gicr_virq (gicr st vcpu) b AND push_bit (irq mod 32) 1 \<noteq> 0
     else gicd_virq (gicd st) b vcpu (irq div 32) AND push_bit (irq mod 32) 1 \<noteq> 0)"

definition vgic_is_virq_enabled :: "nat \<Rightarrow> u32 \<Rightarrow> vgic \<Rightarrow> bool" where
  "vgic_is_virq_enabled irq cpu_mask st =
    (\<exists>i\<in>set [0..<vcpu_num st]. bit cpu_mask i \<and> virq_bit_of Enabled i irq st)"

definition vgic_is_virq_pending :: "nat \<Rightarrow> u32 \<Rightarrow> vgic \<Rightarrow> bool" where
  "vgic_is_virq_pending irq cpu_mask st =
    (\<exists>i\<in>set [0..<vcpu_num st]. bit cpu_mask i \<and> (irq < VM_LOCAL_VIRQ_NR \<or> irq < VM_GLOBAL_VIRQ_NR st) \<and> virq_bit_of Pending i irq st)"

definition vgic_is_virq_active :: "nat \<Rightarrow> u32 \<Rightarrow> vgic \<Rightarrow> bool" where
  "vgic_is_virq_active irq cpu_mask st =
    (\<exists>i\<in>set [0..<vcpu_num st]. bit cpu_mask i \<and> (irq < VM_LOCAL_VIRQ_NR \<or> irq < VM_GLOBAL_VIRQ_NR st) \<and> virq_bit_of Active i irq st)"

section \<open>Writing and reading registers\<close>

definition vgic_irq_enable_hw :: "nat \<Rightarrow> nat \<Rightarrow> vgic \<Rightarrow> int \<times> vgic" where
  "vgic_irq_enable_hw vcpu virt_irq st = (case VGIC_GET_VIRQ_DESC vcpu virt_irq st of
     None \<Rightarrow> (- ENOENT, st)
   | Some d \<Rightarrow>
      (0, if unat (pirq_num d) < VM_GLOBAL_VIRQ_NR st \<and> bind_hwirq_flag d
          then st\<lparr>hw_irq := (hw_irq st)(unat (pirq_num d) := True)\<rparr> else st))"

definition vgic_irq_disable_hw :: "nat \<Rightarrow> nat \<Rightarrow> vgic \<Rightarrow> int \<times> vgic" where
  "vgic_irq_disable_hw vcpu virt_irq st = (case VGIC_GET_VIRQ_DESC vcpu virt_irq st of
     None \<Rightarrow> (- ENOENT, st)
   | Some d \<Rightarrow>
      (0, if unat (pirq_num d) < VM_GLOBAL_VIRQ_NR st \<and> bind_hwirq_flag d
          then st\<lparr>hw_irq := (hw_irq st)(unat (pirq_num d) := False)\<rparr> else st))"

definition hw_follow :: "irq_bit \<Rightarrow> nat \<Rightarrow> nat \<Rightarrow> bool \<Rightarrow> vgic \<Rightarrow> vgic" where
  "hw_follow b vcpu irq on st = (case b of
     Enabled \<Rightarrow> if on then snd (vgic_irq_enable_hw vcpu irq st) else snd (vgic_irq_disable_hw vcpu irq st)
   | _ \<Rightarrow> st)"

text \<open>The bits of a register value, for the distributor. The routine stops at an
  interrupt beyond the last one.\<close>

fun test_and_set_spi :: "irq_bit \<Rightarrow> nat \<Rightarrow> nat \<Rightarrow> u32 \<Rightarrow> bool \<Rightarrow> nat list \<Rightarrow> vgic \<Rightarrow> vgic" where
  "test_and_set_spi b vcpu irq_nr_base v on [] st = st"
| "test_and_set_spi b vcpu irq_nr_base v on (n # ns) st =
    (if \<not> bit v n then test_and_set_spi b vcpu irq_nr_base v on ns st
     else if on \<and> VM_GLOBAL_VIRQ_NR st < irq_nr_base + n then st
     else let st = hw_follow b vcpu (irq_nr_base + n) on st;
              i = (irq_nr_base + (if b = Enabled then 0 else n)) div 32
          in test_and_set_spi b vcpu irq_nr_base v on ns
               (set_gicd_word b vcpu i (upd_bit on n (gicd_virq (gicd st) b vcpu i)) st))"

text \<open>For the first register the routine takes its argument for a redistributor. The
  distributor passes itself: the words that the code then reads and writes are
  the seventh to ninth words behind \<^verbatim>\<open>vgicd_pidr2\<close>, words of the three bit arrays.\<close>

datatype vgic_priv = Priv_Gicd | Priv_Gicr nat

definition gicr_field_word :: "irq_bit \<Rightarrow> nat" where
  "gicr_field_word b = (case b of Enabled \<Rightarrow> 7 | Pending \<Rightarrow> 8 | Active \<Rightarrow> 9)"

definition gicd_flat :: "nat \<Rightarrow> vgic \<Rightarrow> irq_bit \<times> nat \<times> nat" where
  "gicd_flat k st =
    (let w = VM_GLOBAL_VIRQ_NR st div 32; n = CONFIG_MAX_VCPU_PER_VM st * w
     in (if k < n then Enabled else if k < 2 * n then Pending else Active, k mod n div w, k mod n mod w))"

definition upd_priv :: "irq_bit \<Rightarrow> vgic_priv \<Rightarrow> (u32 \<Rightarrow> u32) \<Rightarrow> vgic \<Rightarrow> vgic" where
  "upd_priv b priv f st = (case priv of
     Priv_Gicr n \<Rightarrow> set_gicr_word b n (f (gicr_virq (gicr st n) b)) st
   | Priv_Gicd \<Rightarrow> (case gicd_flat (gicr_field_word b) st of
       (b', vcpu, i) \<Rightarrow> set_gicd_word b' vcpu i (f (gicd_virq (gicd st) b' vcpu i)) st))"

definition test_and_set_local :: "irq_bit \<Rightarrow> nat \<Rightarrow> u32 \<Rightarrow> bool \<Rightarrow> vgic_priv \<Rightarrow> vgic \<Rightarrow> vgic" where
  "test_and_set_local b vcpu v on priv st =
    fold (\<lambda>n st. if bit v n then upd_priv b priv (upd_bit on n) (hw_follow b vcpu n on st) else st) [0..<32] st"

definition vgic_test_and_set_bit :: "irq_bit \<Rightarrow> nat \<Rightarrow> nat \<Rightarrow> u32 \<Rightarrow> bool \<Rightarrow> vgic_priv \<Rightarrow> vgic \<Rightarrow> vgic" where
  "vgic_test_and_set_bit b vcpu irq_nr_base v on priv st =
    (if irq_nr_base \<noteq> 0 then test_and_set_spi b vcpu irq_nr_base v on [0..<32] st
     else test_and_set_local b vcpu v on priv st)"

definition vgic_test_and_set_enable_bit :: "nat \<Rightarrow> nat \<Rightarrow> u32 \<Rightarrow> bool \<Rightarrow> vgic_priv \<Rightarrow> vgic \<Rightarrow> vgic" where
  "vgic_test_and_set_enable_bit = vgic_test_and_set_bit Enabled"

definition vgic_test_and_set_pending_bit :: "nat \<Rightarrow> nat \<Rightarrow> u32 \<Rightarrow> bool \<Rightarrow> vgic_priv \<Rightarrow> vgic \<Rightarrow> vgic" where
  "vgic_test_and_set_pending_bit = vgic_test_and_set_bit Pending"

definition vgic_test_and_set_active_bit :: "nat \<Rightarrow> nat \<Rightarrow> u32 \<Rightarrow> bool \<Rightarrow> vgic_priv \<Rightarrow> vgic \<Rightarrow> vgic" where
  "vgic_test_and_set_active_bit = vgic_test_and_set_bit Active"

text \<open>Priorities, four interrupts to a register. Writing stops, like reading, at an
  interrupt that does not exist.\<close>

fun set_priority_bits :: "nat \<Rightarrow> u32 \<Rightarrow> (nat \<times> nat) list \<Rightarrow> vgic \<Rightarrow> vgic" where
  "set_priority_bits irq_nr_base v [] st = st"
| "set_priority_bits irq_nr_base v ((n, vcpu) # ns) st = (case VGIC_GET_VIRQ_DESC vcpu (irq_nr_base + n) st of
     None \<Rightarrow> st
   | Some d \<Rightarrow> set_priority_bits irq_nr_base v ns
       (put_desc vcpu (irq_nr_base + n) (d\<lparr>prio := ucast (drop_bit (n * 8) v AND 0xFF)\<rparr>) st))"

fun get_priority_bits :: "nat \<Rightarrow> nat \<Rightarrow> nat list \<Rightarrow> u32 \<Rightarrow> vgic \<Rightarrow> u32" where
  "get_priority_bits vcpu irq_nr_base [] v st = v"
| "get_priority_bits vcpu irq_nr_base (n # ns) v st = (case VGIC_GET_VIRQ_DESC vcpu (irq_nr_base + n) st of
     None \<Rightarrow> v
   | Some d \<Rightarrow> get_priority_bits vcpu irq_nr_base ns (v OR push_bit (n * 8) (ucast (prio d) AND 0xFF)) st)"

definition vgic_set_priority :: "nat \<Rightarrow> u32 \<Rightarrow> vgic \<Rightarrow> vgic" where
  "vgic_set_priority irq_nr_base v st =
    set_priority_bits irq_nr_base v (List.product [0..<4] [0..<vcpu_num st]) st"

definition vgic_get_priority :: "nat \<Rightarrow> nat \<Rightarrow> u32 \<Rightarrow> vgic \<Rightarrow> u32" where
  "vgic_get_priority vcpu irq_nr_base v st = get_priority_bits vcpu irq_nr_base [0..<4] v st"

text \<open>The trigger type, sixteen interrupts to a register.\<close>

fun virt_irq_set_type_loop :: "nat \<Rightarrow> nat \<Rightarrow> u32 \<Rightarrow> nat list \<Rightarrow> vgic \<Rightarrow> int \<times> vgic" where
  "virt_irq_set_type_loop vcpu irq v [] st = (0, st)"
| "virt_irq_set_type_loop vcpu irq v (i # is) st = (case VGIC_GET_VIRQ_DESC vcpu (irq + i) st of
     None \<Rightarrow> (- ENOENT, st)
   | Some d \<Rightarrow> virt_irq_set_type_loop vcpu irq v is
       (put_desc vcpu (irq + i) (d\<lparr>irq_type := ucast (drop_bit (2 * i) v AND 3)\<rparr>) st))"

definition virt_irq_set_type :: "nat \<Rightarrow> nat \<Rightarrow> u32 \<Rightarrow> vgic \<Rightarrow> int \<times> vgic" where
  "virt_irq_set_type vcpu offset v = virt_irq_set_type_loop vcpu (16 * ((offset - 0xC00) div 4)) v [0..<16]"

definition virt_irq_get_type :: "nat \<Rightarrow> nat \<Rightarrow> u32 \<Rightarrow> vgic \<Rightarrow> u32" where
  "virt_irq_get_type vcpu offset v st =
    (let irq = 16 * ((offset - 0xC00) div 4)
     in fold (\<lambda>i v. case VGIC_GET_VIRQ_DESC vcpu (irq + i) st of
               None \<Rightarrow> v | Some d \<Rightarrow> v OR push_bit (i * 2) (ucast (irq_type d))) [0..<16] v)"

section \<open>The register frames\<close>

text \<open>A bit register as the distributor reads it: the value that was there is kept.\<close>

definition read_bits :: "(nat \<Rightarrow> vgic \<Rightarrow> bool) \<Rightarrow> nat \<Rightarrow> u32 \<Rightarrow> vgic \<Rightarrow> u32" where
  "read_bits test irq_base v st =
    (if VM_GLOBAL_VIRQ_NR st \<le> irq_base then v
     else fold (\<lambda>i v. if irq_base + i < VM_GLOBAL_VIRQ_NR st \<and> test (irq_base + i) st then v OR push_bit i 1 else v)
       [0..<32] v)"

definition vgic_gicd_mem_read :: "nat \<Rightarrow> nat \<Rightarrow> u32 \<Rightarrow> vgic \<Rightarrow> u32" where
  "vgic_gicd_mem_read vcpu offset v st =
    (let self = push_bit vcpu 1 :: u32
     in if offset = 0 then vgicd_ctlr (gicd st) AND NOT (push_bit 31 1)
        else if offset = 4 then vgicd_typer (gicd st)
        else if 0x100 \<le> offset \<and> offset < 0x180
        then read_bits (\<lambda>irq. vgic_is_virq_enabled irq self) ((offset - 0x100) div 4 * 32) v st
        else if 0x180 \<le> offset \<and> offset < 0x200
        then read_bits (\<lambda>irq. vgic_is_virq_enabled irq self) ((offset - 0x180) div 4 * 32) v st
        else if 0x200 \<le> offset \<and> offset < 0x280
        then read_bits (\<lambda>irq. vgic_is_virq_pending irq self) ((offset - 0x200) div 4 * 32) v st
        else if 0x280 \<le> offset \<and> offset < 0x300
        then read_bits (\<lambda>irq. vgic_is_virq_pending irq self) ((offset - 0x280) div 4 * 32) v st
        else if 0x300 \<le> offset \<and> offset < 0x380
        then let irq_base = (offset - 0x300) div 4 * 32;
                 cpu_mask = (if irq_base \<noteq> 0 then VGIC_ALL_VCPU_MASK st else self)
             in read_bits (\<lambda>irq. vgic_is_virq_active irq cpu_mask) irq_base v st
        else if 0x380 \<le> offset \<and> offset < 0x400
        then read_bits (\<lambda>irq. vgic_is_virq_active irq self) ((offset - 0x380) div 4 * 32) v st
        else if 0x400 \<le> offset \<and> offset < 0xC00
        then let irq_base = (offset - 0x400) div 4 * 4
             in if VM_GLOBAL_VIRQ_NR st \<le> irq_base then v else vgic_get_priority vcpu irq_base v st
        else if 0xC00 \<le> offset \<and> offset < 0xCFC then virt_irq_get_type vcpu offset v st
        else if offset = 0xFFE8 then vgicd_pidr2 (gicd st)
        else v)"

text \<open>A write of a bit register reaches every vCPU of the VM.\<close>

definition write_all :: "irq_bit \<Rightarrow> nat \<Rightarrow> u32 \<Rightarrow> bool \<Rightarrow> vgic \<Rightarrow> vgic" where
  "write_all b y v on st =
    fold (\<lambda>i. vgic_test_and_set_bit b i y v on Priv_Gicd) [0..<vcpu_num st] st"

definition write_set :: "irq_bit \<Rightarrow> nat \<Rightarrow> u32 \<Rightarrow> vgic \<Rightarrow> int \<times> vgic" where
  "write_set b y v st = (if VM_GLOBAL_VIRQ_NR st \<le> y then (- EINVAL, st) else (0, write_all b y v True st))"

definition write_clear :: "irq_bit \<Rightarrow> nat \<Rightarrow> u32 \<Rightarrow> vgic \<Rightarrow> int \<times> vgic" where
  "write_clear b y v st = (0, if VM_GLOBAL_VIRQ_NR st \<le> y then st else write_all b y v False st)"

definition vgic_gicd_mem_write :: "nat \<Rightarrow> nat \<Rightarrow> u32 \<Rightarrow> vgic \<Rightarrow> int \<times> vgic" where
  "vgic_gicd_mem_write vcpu offset v st =
    (if offset = 0 then (0, st\<lparr>gicd := (gicd st)\<lparr>vgicd_ctlr := v\<rparr>\<rparr>)
     else if 0x100 \<le> offset \<and> offset < 0x180 then write_set Enabled ((offset - 0x100) div 4 * 32) v st
     else if 0x180 \<le> offset \<and> offset < 0x200 then write_clear Enabled ((offset - 0x180) div 4 * 32) v st
     else if 0x200 \<le> offset \<and> offset < 0x280 then write_set Pending ((offset - 0x200) div 4 * 32) v st
     else if 0x280 \<le> offset \<and> offset < 0x300 then write_clear Pending ((offset - 0x280) div 4 * 32) v st
     else if 0x300 \<le> offset \<and> offset < 0x380 then write_set Active ((offset - 0x300) div 4 * 32) v st
     else if 0x380 \<le> offset \<and> offset < 0x400 then write_clear Active ((offset - 0x380) div 4 * 32) v st
     else if 0x400 \<le> offset \<and> offset < 0x7F8
     then let y = (offset - 0x400) div 4 * 4
          in (0, if VM_GLOBAL_VIRQ_NR st \<le> y then st else vgic_set_priority y v st)
     else if 0xC00 \<le> offset \<and> offset < 0xCFC then (0, snd (virt_irq_set_type vcpu offset v st))
     else (0, st))"

definition vgic_gicrsgi_mem_read :: "nat \<Rightarrow> nat \<Rightarrow> vgic \<Rightarrow> u32" where
  "vgic_gicrsgi_mem_read n offset st =
    (if offset = 0x100 \<or> offset = 0x180 then gicr_virq (gicr st n) Enabled
     else if offset = 0x200 \<or> offset = 0x280 then gicr_virq (gicr st n) Pending
     else if offset = 0x300 \<or> offset = 0x380 then gicr_virq (gicr st n) Active
     else if offset = 0xFFE8 then push_bit 4 3
     else 0)"

definition vgic_gicrsgi_mem_write :: "nat \<Rightarrow> nat \<Rightarrow> nat \<Rightarrow> u32 \<Rightarrow> vgic \<Rightarrow> vgic" where
  "vgic_gicrsgi_mem_write vcpu n offset v st =
    (if offset = 0x100 then vgic_test_and_set_enable_bit vcpu 0 v True (Priv_Gicr n) st
     else if offset = 0x180 then vgic_test_and_set_enable_bit vcpu 0 v False (Priv_Gicr n) st
     else if offset = 0x200 then vgic_test_and_set_pending_bit vcpu 0 v True (Priv_Gicr n) st
     else if offset = 0x280 then vgic_test_and_set_pending_bit vcpu 0 v False (Priv_Gicr n) st
     else if offset = 0x300 then vgic_test_and_set_active_bit vcpu 0 v True (Priv_Gicr n) st
     else if offset = 0x380 then vgic_test_and_set_active_bit vcpu 0 v False (Priv_Gicr n) st
     else st)"

definition vgic_gicrrd_mem_read :: "nat \<Rightarrow> nat \<Rightarrow> vgic \<Rightarrow> u64" where
  "vgic_gicrrd_mem_read n offset st =
    (if offset = 0 then ucast (gicr_rd_ctlr (gicr st n))
     else if offset = 8 then gicr_rd_typer (gicr st n)
     else if offset = 0xFFE8 then ucast (gicr_rd_pidr2 (gicr st n))
     else 0)"

definition vgic_gicrrd_mem_write :: "nat \<Rightarrow> nat \<Rightarrow> u64 \<Rightarrow> vgic \<Rightarrow> vgic" where
  "vgic_gicrrd_mem_write n offset v st =
    (if offset = 0 then st\<lparr>gicr := (gicr st)(n := (gicr st n)\<lparr>gicr_rd_ctlr := ucast v\<rparr>)\<rparr>
     else if offset = 8 then st\<lparr>gicr := (gicr st)(n := (gicr st n)\<lparr>gicr_rd_typer := v\<rparr>)\<rparr>
     else st)"

text \<open>Which frame an address belongs to, and the offset in it.\<close>

datatype gic_frame = GICD | GICR_RD nat | GICR_SGI nat

definition in_frame :: "u32 \<Rightarrow> u32 \<Rightarrow> u32 \<Rightarrow> bool" where
  "in_frame addr base sz = (base \<le> addr \<and> addr < base + sz)"

definition get_vcpu_gicr_type :: "u32 \<Rightarrow> vgic \<Rightarrow> (gic_frame \<times> u32) option" where
  "get_vcpu_gicr_type addr st = (case List.find (\<lambda>i.
       in_frame addr (gicr_sgi_base (gicr st i)) (gicr_sgi_size (gicr st i))
       \<or> in_frame addr (gicr_rd_base (gicr st i)) (gicr_rd_size (gicr st i)))
     [0..<min (VGIC_RDIST_NUM st) (vcpu_num st)] of
     None \<Rightarrow> None
   | Some i \<Rightarrow>
      Some (if in_frame addr (gicr_sgi_base (gicr st i)) (gicr_sgi_size (gicr st i))
            then (GICR_SGI i, addr - gicr_sgi_base (gicr st i))
            else (GICR_RD i, addr - gicr_rd_base (gicr st i))))"

definition vgic_frame :: "u64 \<Rightarrow> vgic \<Rightarrow> (gic_frame \<times> u32) option" where
  "vgic_frame addr st =
    (if ucast (gicd_base (gicd st)) \<le> addr \<and> addr < ucast (gicd_base (gicd st) + gicd_size (gicd st))
     then Some (GICD, ucast (addr - ucast (gicd_base (gicd st))))
     else get_vcpu_gicr_type (ucast addr) st)"

text \<open>Taking a lock that is held never ends.\<close>

definition with_lock :: "(vgic \<Rightarrow> 'a \<times> vgic) \<Rightarrow> vgic \<Rightarrow> ('a \<times> vgic) outcome" where
  "with_lock f st =
    (if vgic_lock st then Assertion
     else case f (st\<lparr>vgic_lock := True\<rparr>) of (r, st) \<Rightarrow> Done (r, st\<lparr>vgic_lock := False\<rparr>))"

definition vgic_vdev_mem_read :: "nat \<Rightarrow> u64 \<Rightarrow> vgic \<Rightarrow> ((int \<times> u64) \<times> vgic) outcome" where
  "vgic_vdev_mem_read vcpu addr st = (case vgic_frame addr st of
     None \<Rightarrow> Done ((- EINVAL, 0), st)
   | Some (frame, offset) \<Rightarrow> with_lock (\<lambda>st. (case frame of
         GICD \<Rightarrow> (0, ucast (vgic_gicd_mem_read vcpu (unat offset) 0 st))
       | GICR_RD n \<Rightarrow> (0, vgic_gicrrd_mem_read n (unat offset) st)
       | GICR_SGI n \<Rightarrow> (0, ucast (vgic_gicrsgi_mem_read n (unat offset) st)), st)) st)"

definition vgic_vdev_mem_write :: "nat \<Rightarrow> u64 \<Rightarrow> u64 \<Rightarrow> vgic \<Rightarrow> (int \<times> vgic) outcome" where
  "vgic_vdev_mem_write vcpu addr v st = (case vgic_frame addr st of
     None \<Rightarrow> Done (- EINVAL, st)
   | Some (frame, offset) \<Rightarrow> with_lock (\<lambda>st. case frame of
         GICD \<Rightarrow> vgic_gicd_mem_write vcpu (unat offset) (ucast v) st
       | GICR_RD n \<Rightarrow> (0, vgic_gicrrd_mem_write n (unat offset) v st)
       | GICR_SGI n \<Rightarrow> (0, vgic_gicrsgi_mem_write vcpu n (unat offset) (ucast v) st)) st)"

text \<open>The locked forms of the bit operations.\<close>

definition vgic_set_enable_lock :: "nat \<Rightarrow> u32 \<Rightarrow> vgic \<Rightarrow> (unit \<times> vgic) outcome" where
  "vgic_set_enable_lock irq cpu_mask = with_lock (\<lambda>st. ((), VGIC_SET_ENABLE irq cpu_mask st))"

definition vgic_unset_enable_lock :: "nat \<Rightarrow> u32 \<Rightarrow> vgic \<Rightarrow> (unit \<times> vgic) outcome" where
  "vgic_unset_enable_lock irq cpu_mask = with_lock (\<lambda>st. ((), VGIC_UNSET_ENABLE irq cpu_mask st))"

definition vgic_set_pending_lock :: "nat \<Rightarrow> u32 \<Rightarrow> vgic \<Rightarrow> (unit \<times> vgic) outcome" where
  "vgic_set_pending_lock irq cpu_mask = with_lock (\<lambda>st. ((), VGIC_SET_PENDING irq cpu_mask st))"

definition vgic_unset_pending_lock :: "nat \<Rightarrow> u32 \<Rightarrow> vgic \<Rightarrow> (unit \<times> vgic) outcome" where
  "vgic_unset_pending_lock irq cpu_mask = with_lock (\<lambda>st. ((), VGIC_UNSET_PENDING irq cpu_mask st))"

definition vgic_set_active_lock :: "nat \<Rightarrow> u32 \<Rightarrow> vgic \<Rightarrow> (unit \<times> vgic) outcome" where
  "vgic_set_active_lock irq cpu_mask = with_lock (\<lambda>st. ((), VGIC_SET_ACTIVE irq cpu_mask st))"

definition vgic_unset_active_lock :: "nat \<Rightarrow> u32 \<Rightarrow> vgic \<Rightarrow> (unit \<times> vgic) outcome" where
  "vgic_unset_active_lock irq cpu_mask = with_lock (\<lambda>st. ((), VGIC_UNSET_ACTIVE irq cpu_mask st))"

definition vgic_is_virq_enabled_lock :: "nat \<Rightarrow> u32 \<Rightarrow> vgic \<Rightarrow> (bool \<times> vgic) outcome" where
  "vgic_is_virq_enabled_lock irq cpu_mask = with_lock (\<lambda>st. (vgic_is_virq_enabled irq cpu_mask st, st))"

definition vgic_is_virq_pending_lock :: "nat \<Rightarrow> u32 \<Rightarrow> vgic \<Rightarrow> (bool \<times> vgic) outcome" where
  "vgic_is_virq_pending_lock irq cpu_mask = with_lock (\<lambda>st. (vgic_is_virq_pending irq cpu_mask st, st))"

definition vgic_is_virq_active_lock :: "nat \<Rightarrow> u32 \<Rightarrow> vgic \<Rightarrow> (bool \<times> vgic) outcome" where
  "vgic_is_virq_active_lock irq cpu_mask = with_lock (\<lambda>st. (vgic_is_virq_active irq cpu_mask st, st))"

text \<open>The trigger types of sixteen interrupts, two bits each; no register write of the guest calls it.\<close>

definition vgic_test_and_set_trigger_type_bit :: "nat \<Rightarrow> u32 \<Rightarrow> nat \<Rightarrow> vgic \<Rightarrow> vgic" where
  "vgic_test_and_set_trigger_type_bit vcpu v offset st =
    fold (\<lambda>i st. let irq = offset div 4 * 16 + i; t = virq_edge_trigger (gicd st) irq
       in if irq < VM_GLOBAL_VIRQ_NR st
          then st\<lparr>gicd := (gicd st)\<lparr>virq_edge_trigger := (virq_edge_trigger (gicd st))(irq :=
                 (if drop_bit (2 * i) v AND 3 = 2 then t OR push_bit vcpu 1 else t AND NOT (push_bit vcpu 1)))\<rparr>\<rparr>
          else st) [0..<16] st"

section \<open>List registers\<close>

record gicv3_list_reg =
  vINTID :: u32
  pINTID :: u16
  lr_priority :: u8
  lr_group :: bool
  lr_hw :: bool
  lr_state :: u8
  lr_rest :: u64

text \<open>The bit fields of the register: 32 bits, 13 bits, 8 bits from 48 on, the group
  in bit 60, the hardware flag in bit 61 and the state in the top two bits; the
  remaining bits keep what they hold.\<close>

definition LR_REST_MASK :: u64 where "LR_REST_MASK = 0x0F00E00000000000"

definition lr_encode :: "gicv3_list_reg \<Rightarrow> u64" where
  "lr_encode lr = ucast (vINTID lr) OR push_bit 32 (take_bit 13 (ucast (pINTID lr))) OR push_bit 48 (ucast (lr_priority lr))
     OR (if lr_group lr then push_bit 60 1 else 0) OR (if lr_hw lr then push_bit 61 1 else 0)
     OR push_bit 62 (take_bit 2 (ucast (lr_state lr))) OR (lr_rest lr AND LR_REST_MASK)"

definition lr_decode :: "u64 \<Rightarrow> gicv3_list_reg" where
  "lr_decode v = \<lparr>vINTID = ucast v, pINTID = ucast (take_bit 13 (drop_bit 32 v)), lr_priority = ucast (drop_bit 48 v),
     lr_group = bit v 60, lr_hw = bit v 61, lr_state = ucast (drop_bit 62 v), lr_rest = v AND LR_REST_MASK\<rparr>"

text \<open>\<^verbatim>\<open>1 << id\<close> is an \<^verbatim>\<open>int\<close>: the processor shifts by the amount modulo 32, and the
  result is sign-extended where it meets the 64-bit map.\<close>

definition INT_BIT :: "nat \<Rightarrow> u64" where
  "INT_BIT n = scast (push_bit (n mod 32) 1 :: u32)"

definition VGIC_LIST_REGS_TEST :: "u8 \<Rightarrow> nat \<Rightarrow> vgic \<Rightarrow> bool" where
  "VGIC_LIST_REGS_TEST n vcpu st = (list_regs_map st vcpu AND INT_BIT (unat n) \<noteq> 0)"

definition VGIC_LIST_REGS_SET :: "u8 \<Rightarrow> nat \<Rightarrow> vgic \<Rightarrow> vgic" where
  "VGIC_LIST_REGS_SET n vcpu st =
    st\<lparr>list_regs_map := (list_regs_map st)(vcpu := list_regs_map st vcpu OR INT_BIT (unat n))\<rparr>"

definition VGIC_LIST_REGS_UNSET :: "nat \<Rightarrow> nat \<Rightarrow> vgic \<Rightarrow> vgic" where
  "VGIC_LIST_REGS_UNSET n vcpu st =
    st\<lparr>list_regs_map := (list_regs_map st)(vcpu := list_regs_map st vcpu AND NOT (INT_BIT n))\<rparr>"

definition vgicv3_read_lr :: "nat \<Rightarrow> vgic \<Rightarrow> u64" where
  "vgicv3_read_lr register_id st = (if register_id < 8 then ich_lr st register_id else 0)"

definition vgicv3_write_lr :: "nat \<Rightarrow> u64 \<Rightarrow> vgic \<Rightarrow> vgic" where
  "vgicv3_write_lr register_id v st =
    (if register_id < 8 then st\<lparr>ich_lr := (ich_lr st)(register_id := v)\<rparr> else st)"

definition vgicv3_pre_set_lr :: "virt_irq_desc \<Rightarrow> gicv3_list_reg \<Rightarrow> gicv3_list_reg" where
  "vgicv3_pre_set_lr d lr =
    (let s = lr_state lr;
         s = (if virq_states d AND VIRQ_STATE_PENDING \<noteq> 0 then s OR VIRQ_STATE_PENDING else s);
         s = (if virq_states d AND VIRQ_STATE_ACTIVE \<noteq> 0 then s OR VIRQ_STATE_ACTIVE else s)
     in lr\<lparr>vINTID := virq_num d, lr_priority := prio d, lr_state := s,
          pINTID := (if pirq_num d \<noteq> VM_INVALID_PIRQ_NUM then ucast (take_bit 13 (pirq_num d)) else 0),
          lr_hw := (pirq_num d \<noteq> VM_INVALID_PIRQ_NUM), lr_group := True\<rparr>)"

definition vgicv3_get_lr_state :: "virt_irq_desc \<Rightarrow> vgic \<Rightarrow> u8" where
  "vgicv3_get_lr_state d st =
    (if VGIC_TYPER_LR_NUM st \<le> unat (desc_id d) then 0
     else ucast (drop_bit 62 (vgicv3_read_lr (unat (desc_id d)) st) AND 3))"

text \<open>The result type is \<^verbatim>\<open>uint8_t\<close>: without an idle register it is 255.\<close>

definition vgicv3_get_idle_lr :: "nat \<Rightarrow> vgic \<Rightarrow> u8" where
  "vgicv3_get_idle_lr vcpu st =
    (case List.find (\<lambda>i. \<not> VGIC_LIST_REGS_TEST (of_nat i) vcpu st) [0..<VGIC_TYPER_LR_NUM st] of
       Some i \<Rightarrow> of_nat i | None \<Rightarrow> - 1)"

definition vgic_inject_virq_vcpuif :: "nat \<Rightarrow> nat \<Rightarrow> vgic \<Rightarrow> int \<times> vgic" where
  "vgic_inject_virq_vcpuif vcpu irq st =
    (let d = irq_desc st vcpu irq; lr = lr_decode (vgicv3_read_lr (unat (desc_id d)) st)
     in if VGIC_LIST_REGS_TEST (desc_id d) vcpu st \<and> vINTID lr = virq_num d
        then let d = d\<lparr>virq_states := virq_states d OR VIRQ_STATE_PENDING\<rparr>;
                 st = vgicv3_write_lr (unat (desc_id d)) (lr_encode (vgicv3_pre_set_lr d lr)) st;
                 d = (if unat (virq_num d) = ZSHM_NOTIFY_VIRQ_NUM st then d\<lparr>level_triggered := 0\<rparr> else d)
             in (1, put_desc vcpu irq d st)
        else let reg_id = uint (vgicv3_get_idle_lr vcpu st)
             in if reg_id < 0 then (- ENOSPC, st)
                else let value = (if VGIC_LIST_REGS_TEST (desc_id d) vcpu st then lr_encode lr else 0);
                         d = d\<lparr>desc_id := of_int reg_id, virq_states := VIRQ_STATE_PENDING\<rparr>;
                         st = VGIC_LIST_REGS_SET (desc_id d) vcpu st;
                         st = vgicv3_write_lr (unat (desc_id d)) (lr_encode (vgicv3_pre_set_lr d (lr_decode value))) st;
                         d = (if unat (virq_num d) = VSERIAL_DEV_VIRQ st \<or> unat (virq_num d) = ZSHM_NOTIFY_VIRQ_NUM st
                              then d\<lparr>level_triggered := 0\<rparr> else d)
                     in (0, put_desc vcpu irq d st))"

section \<open>Moving interrupts between the controller and the list registers\<close>

text \<open>The interrupts of a mask, in the order in which \<^verbatim>\<open>__builtin_ctz\<close> finds them.\<close>

definition mask_irqs :: "u32 \<Rightarrow> nat list" where
  "mask_irqs m = filter (bit m) [0..<32]"

text \<open>
  The result of a step is whether the loop goes on. The exits for a missing descriptor cannot be taken:
  a mask has 32 bits, the words are those below \<^verbatim>\<open>VM_GLOBAL_VIRQ_NR / 32\<close>.
\<close>

definition inject_sources :: "nat \<Rightarrow> nat \<Rightarrow> u32 \<Rightarrow> vgic \<Rightarrow> u32 \<times> vgic" where
  "inject_sources vcpu irq src st =
    fold (\<lambda>i (src, st). if \<not> bit src i then (src, st)
        else case vgic_inject_virq_vcpuif vcpu irq st of
          (ret, st) \<Rightarrow> (if 0 \<le> ret then src AND NOT (push_bit i 1) else src, st)) [0..<vcpu_num st] (src, st)"

fun flush_local :: "nat \<Rightarrow> nat list \<Rightarrow> vgic \<Rightarrow> bool \<times> vgic" where
  "flush_local vcpu [] st = (True, st)"
| "flush_local vcpu (irq # irqs) st =
    (if src_cpu (irq_desc st vcpu irq) = 0
     then case vgic_inject_virq_vcpuif vcpu irq st of
       (ret, st) \<Rightarrow> if 0 \<le> ret then flush_local vcpu irqs (VGIC_UNSET_PENDING irq (push_bit vcpu 1) st) else (False, st)
     else case inject_sources vcpu irq (src_cpu (irq_desc st vcpu irq)) st of
       (src, st) \<Rightarrow>
         let st = put_desc vcpu irq ((irq_desc st vcpu irq)\<lparr>src_cpu := src\<rparr>) st
         in if src = 0 then flush_local vcpu irqs (VGIC_UNSET_PENDING irq (push_bit vcpu 1) st) else (False, st))"

fun flush_shared :: "nat \<Rightarrow> nat list \<Rightarrow> vgic \<Rightarrow> bool \<times> vgic" where
  "flush_shared vcpu [] st = (True, st)"
| "flush_shared vcpu (irq # irqs) st = (case vgic_inject_virq_vcpuif vcpu irq st of
     (ret, st) \<Rightarrow>
       if 0 \<le> ret
       then let st = VGIC_UNSET_PENDING irq (push_bit vcpu 1) st;
                st = (if VGIC_IRQ_TEST_TRIGGER_TYPE vcpu (unat (virq_num (irq_desc st vcpu irq))) st = VM_IRQ_LEVEL_TRIGGERED
                      then VGIC_SET_ACTIVE irq (push_bit vcpu 1) st else st)
            in flush_shared vcpu irqs st
       else (False, st))"

fun flush_words :: "nat \<Rightarrow> nat list \<Rightarrow> vgic \<Rightarrow> vgic" where
  "flush_words vcpu [] st = st"
| "flush_words vcpu (i # is) st =
    (let m = gicd_virq (gicd st) Pending vcpu i AND gicd_virq (gicd st) Enabled vcpu i
     in case flush_shared vcpu (map (\<lambda>n. n + i * 32) (mask_irqs m)) st of
          (go, st) \<Rightarrow> if go then flush_words vcpu is st else st)"

definition virt_irq_flush_vgic :: "nat \<Rightarrow> vgic \<Rightarrow> int \<times> vgic" where
  "virt_irq_flush_vgic vcpu st =
    (let m = VGIC_GET_PENDING vcpu 0 32 st AND VGIC_GET_ENABLED vcpu 0 32 st
     in case flush_local vcpu (mask_irqs m) st of
          (go, st) \<Rightarrow> (0, if go then flush_words vcpu [1..<VM_GLOBAL_VIRQ_NR st div 32] st else st))"

text \<open>A finished level-triggered interrupt becomes pending again while its level is high.\<close>

definition sync_level :: "nat \<Rightarrow> nat \<Rightarrow> virt_irq_desc \<Rightarrow> vgic \<Rightarrow> vgic" where
  "sync_level vcpu irq d st =
    (let self = push_bit vcpu 1
     in if VGIC_IRQ_TEST_TRIGGER_TYPE vcpu (unat (virq_num d)) st = VM_IRQ_LEVEL_TRIGGERED
        then let st = VGIC_UNSET_ACTIVE irq self st
             in if level_triggered d = 1 then VGIC_SET_PENDING irq self st else VGIC_UNSET_PENDING irq self st
        else st)"

text \<open>One list register that the guest has finished with.\<close>

definition sync_lr :: "nat \<Rightarrow> nat \<Rightarrow> vgic \<Rightarrow> vgic" where
  "sync_lr vcpu lr_count st =
    (let irq = unat (vINTID (lr_decode (vgicv3_read_lr lr_count st)));
         st = vgicv3_write_lr lr_count 0 st
     in case VGIC_GET_VIRQ_DESC vcpu irq st of
          None \<Rightarrow> st
        | Some d \<Rightarrow>
            let st = VGIC_LIST_REGS_UNSET lr_count vcpu (sync_level vcpu irq d st)
            in put_desc vcpu irq ((irq_desc st vcpu irq)\<lparr>desc_id := VM_INVALID_DESC_ID\<rparr>) st)"

definition virt_irq_sync_vgic :: "nat \<Rightarrow> vgic \<Rightarrow> int \<times> vgic" where
  "virt_irq_sync_vgic vcpu st =
    (if list_regs_map st vcpu = 0 then (0, st)
     else let done = (ich_elrsr st OR ich_eisr st) AND list_regs_map st vcpu;
              lrs = filter (\<lambda>i. INT_BIT i AND done \<noteq> 0) [0..<VGIC_TYPER_LR_NUM st];
              st = fold (sync_lr vcpu) lrs st
          in (0, if lrs \<noteq> [] then st else st\<lparr>ipis := ipis st @ filter (\<lambda>i. i \<noteq> vcpu) [0..<vcpu_num st]\<rparr>))"

definition virt_sync_and_flush_vcpu_vgic :: "nat \<Rightarrow> vgic \<Rightarrow> vgic" where
  "virt_sync_and_flush_vcpu_vgic vcpu st = snd (virt_irq_flush_vgic vcpu (snd (virt_irq_sync_vgic vcpu st)))"

definition cpu_virq_flush_lock :: "nat \<Rightarrow> vgic \<Rightarrow> (int \<times> vgic) outcome" where
  "cpu_virq_flush_lock vcpu = with_lock (virt_irq_flush_vgic vcpu)"

definition cpu_virq_sync_lock :: "nat \<Rightarrow> vgic \<Rightarrow> (int \<times> vgic) outcome" where
  "cpu_virq_sync_lock vcpu = with_lock (virt_irq_sync_vgic vcpu)"

definition virt_sync_and_flush_vcpu_vgic_lock :: "nat \<Rightarrow> vgic \<Rightarrow> (unit \<times> vgic) outcome" where
  "virt_sync_and_flush_vcpu_vgic_lock vcpu = with_lock (\<lambda>st. ((), virt_sync_and_flush_vcpu_vgic vcpu st))"

section \<open>Raising interrupts\<close>

text \<open>Whether a vCPU that does not run here has an interrupt to take.\<close>

definition irq_pending_exist :: "nat \<Rightarrow> vgic \<Rightarrow> bool" where
  "irq_pending_exist vcpu st \<longleftrightarrow>
     list_regs_map st vcpu \<noteq> 0
     \<or> VGIC_GET_PENDING vcpu 0 32 st AND VGIC_GET_ENABLED vcpu 0 32 st \<noteq> 0
     \<or> (\<exists>i\<in>set [1..<VM_GLOBAL_VIRQ_NR st div 32].
          gicd_virq (gicd st) Pending vcpu i AND gicd_virq (gicd st) Enabled vcpu i \<noteq> 0)"

text \<open>The exit for an interrupt that does not exist is taken with the lock held.\<close>

definition vgic_set_virq_to_vcpu :: "nat \<Rightarrow> nat \<Rightarrow> u8 \<Rightarrow> vgic \<Rightarrow> (int \<times> vgic) outcome" where
  "vgic_set_virq_to_vcpu vcpu virq virq_level st =
    (if vgic_lock st then Assertion
     else let st = st\<lparr>vgic_lock := True\<rparr>
          in case VGIC_GET_VIRQ_DESC vcpu virq st of
               None \<Rightarrow> Done (- ENODEV, st)
             | Some d \<Rightarrow>
                 let cpu_mask = (if virq < VM_LOCAL_VIRQ_NR \<or> virq = ZSHM_NOTIFY_VIRQ_NUM st \<or> virq_level \<noteq> 0
                                 then push_bit vcpu 1 else VGIC_ALL_VCPU_MASK st)
                 in if \<not> vgic_is_virq_enabled virq cpu_mask st then Done (0, st\<lparr>vgic_lock := False\<rparr>)
                    else let st = (if virq < VM_LOCAL_VIRQ_NR then VGIC_SET_PENDING virq cpu_mask st
                                   else if level_triggered d \<noteq> virq_level
                                   then let st = put_desc vcpu virq (d\<lparr>level_triggered := virq_level\<rparr>) st
                                        in if virq_level \<noteq> 0 then VGIC_SET_PENDING virq cpu_mask st else st
                                   else st)
                         in if Some vcpu = current_vcpu st
                            then Done (0, (virt_sync_and_flush_vcpu_vgic vcpu st)\<lparr>vgic_lock := False\<rparr>)
                            else let st' = st\<lparr>vgic_lock := False\<rparr>
                                 in Done (0, if irq_pending_exist vcpu st then st'\<lparr>ipis := ipis st' @ [vcpu]\<rparr> else st'))"

definition set_virq_to_vcpu :: "nat \<Rightarrow> nat \<Rightarrow> u8 \<Rightarrow> vgic \<Rightarrow> (int \<times> vgic) outcome" where
  "set_virq_to_vcpu = vgic_set_virq_to_vcpu"

text \<open>The vCPU that runs here, whichever VM it belongs to, or the first of the VM.\<close>

definition set_virq_to_vm :: "nat \<Rightarrow> vgic \<Rightarrow> (int \<times> vgic) outcome" where
  "set_virq_to_vm virq st = vgic_set_virq_to_vcpu (case current_vcpu st of Some v \<Rightarrow> v | None \<Rightarrow> 0) virq 1 st"

definition unset_virq_to_vm :: "nat \<Rightarrow> vgic \<Rightarrow> (int \<times> vgic) outcome" where
  "unset_virq_to_vm virq st = vgic_set_virq_to_vcpu (case current_vcpu st of Some v \<Rightarrow> v | None \<Rightarrow> 0) virq 0 st"

text \<open>The targets of a software generated interrupt.\<close>

definition sgi_mask :: "nat \<Rightarrow> u64 \<Rightarrow> vgic \<Rightarrow> u32" where
  "sgi_mask vcpu sgi_value st =
    (if bit sgi_value 40 then VGIC_ALL_VCPU_MASK st AND NOT (push_bit vcpu 1)
     else let aff1 = drop_bit 16 sgi_value AND 0xFF; aff2 = drop_bit 32 sgi_value AND 0xFF; aff3 = drop_bit 48 sgi_value AND 0xFF
          in if aff1 \<noteq> 0 \<or> aff2 \<noteq> 0 \<or> aff3 \<noteq> 0 then ucast (push_bit (unat aff1 mod 64) 1 :: u64)
             else take_bit (vcpu_num st) (take_bit 16 (ucast sgi_value)))"

fun raise_sgi_loop :: "nat \<Rightarrow> nat \<Rightarrow> u32 \<Rightarrow> nat list \<Rightarrow> vgic \<Rightarrow> (int \<times> vgic) outcome" where
  "raise_sgi_loop vcpu sgi_id m [] st = Done (0, st)"
| "raise_sgi_loop vcpu sgi_id m (i # is) st =
    (if \<not> bit m i then raise_sgi_loop vcpu sgi_id m is st
     else case VGIC_GET_VIRQ_DESC i sgi_id st of
       None \<Rightarrow> Done (- ENODEV, st)
     | Some d \<Rightarrow>
         bind_outcome (set_virq_to_vcpu i sgi_id 1 (put_desc i sgi_id (d\<lparr>src_cpu := src_cpu d OR push_bit vcpu 1\<rparr>) st))
           (\<lambda>(ret, st). if ret \<noteq> 0 then Done (ret, st) else raise_sgi_loop vcpu sgi_id m is st))"

definition vgicv3_raise_sgi2vcpu :: "nat \<Rightarrow> u64 \<Rightarrow> vgic \<Rightarrow> (int \<times> vgic) outcome" where
  "vgicv3_raise_sgi2vcpu vcpu sgi_value st =
    raise_sgi_loop vcpu (unat (drop_bit 24 sgi_value AND 0xF)) (sgi_mask vcpu sgi_value st) [0..<vcpu_num st] st"

section \<open>Initialisation\<close>

definition VGIC_RD_BASE_SIZE :: u32 where "VGIC_RD_BASE_SIZE = 64 * 1024"

definition vgicv3_lrs_init :: "vgic \<Rightarrow> vgic" where
  "vgicv3_lrs_init st = st\<lparr>ich_lr := (\<lambda>i. if i < min 8 (VGIC_TYPER_LR_NUM st) then 0 else ich_lr st i)\<rparr>"

text \<open>The redistributor of a vCPU, on the boards that are neither D3000 nor RK3568.\<close>

definition gicr_new :: "u32 \<Rightarrow> nat \<Rightarrow> nat \<Rightarrow> virt_gic_gicr" where
  "gicr_new gicr_base_addr vcpus i =
    (let rd_base = gicr_base_addr + 2 * VGIC_RD_BASE_SIZE * of_nat i;
         typer = push_bit 24 1 OR push_bit 8 (of_nat i) OR push_bit 32 (of_nat i)
           OR (if vcpus - 1 \<le> i then push_bit 4 1 else 0)
     in \<lparr>gicr_vcpu_id = of_nat i, gicr_rd_base = rd_base, gicr_rd_size = VGIC_RD_BASE_SIZE,
         gicr_sgi_base = rd_base + VGIC_RD_BASE_SIZE, gicr_sgi_size = VGIC_RD_BASE_SIZE, gicr_rd_ctlr = 0,
         gicr_rd_pidr2 = push_bit 4 3, gicr_rd_typer = typer, gicr_sgi_typer = typer, gicr_virq = (\<lambda>_. 0)\<rparr>)"

definition gicd_new :: "u32 \<Rightarrow> u32 \<Rightarrow> vgic \<Rightarrow> virt_gic_gicd" where
  "gicd_new base sz st =
    (gicd st)\<lparr>gicd_base := base, gicd_size := sz,
      vgicd_typer := push_bit 5 (of_nat (vcpu_num st)) OR push_bit 19 9 OR of_nat ((VM_GLOBAL_VIRQ_NR st + 32) div 32 - 1),
      vgicd_pidr2 := push_bit 4 3,
      gicd_virq := (\<lambda>b vcpu i. if vcpu < vcpu_num st \<and> i < VM_GLOBAL_VIRQ_NR st div 32 then 0 else gicd_virq (gicd st) b vcpu i),
      virq_edge_trigger := (\<lambda>i. if i < VM_GLOBAL_VIRQ_NR st then 0xFFFFFFFF else virq_edge_trigger (gicd st) i)\<rparr>"

text \<open>\<^verbatim>\<open>alloc_ok i\<close> is whether the allocation for the redistributor of vCPU \<^verbatim>\<open>i\<close> succeeds.\<close>

definition vdev_gicv3_init :: "(nat \<Rightarrow> bool) \<Rightarrow> u32 \<Rightarrow> u32 \<Rightarrow> u32 \<Rightarrow> vgic \<Rightarrow> int \<times> vgic" where
  "vdev_gicv3_init alloc_ok gicd_base_addr gicd_sz gicr_base_addr st =
    (let n = min (VGIC_RDIST_NUM st) (vcpu_num st);
         st = st\<lparr>gicd := gicd_new gicd_base_addr gicd_sz st, vgic_lock := False\<rparr>
     in case List.find (\<lambda>i. \<not> alloc_ok i) [0..<n] of
          Some k \<Rightarrow> (- ENXIO, st\<lparr>gicr := (\<lambda>i. if i < k then gicr_new gicr_base_addr (vcpu_num st) i else gicr st i)\<rparr>)
        | None \<Rightarrow> (0, vgicv3_lrs_init
            (st\<lparr>gicr := (\<lambda>i. if i < n then gicr_new gicr_base_addr (vcpu_num st) i else gicr st i)\<rparr>)))"

section \<open>The context of a vCPU that does not run\<close>

text \<open>The saved registers, and those of the virtual CPU interface of a CPU. The
  number of priority bits selects which active-priority registers exist.\<close>

record gicv3_vcpuif_ctxt =
  c_lr :: "nat \<Rightarrow> u64"
  c_ap0r :: "nat \<Rightarrow> u32"
  c_ap1r :: "nat \<Rightarrow> u32"
  icc_sre_el1 :: u32
  icc_ctlr_el1 :: u32
  ich_vmcr_el2 :: u32
  ich_hcr_el2 :: u32

record gich_regs =
  ICH_AP0R :: "nat \<Rightarrow> u32"
  ICH_AP1R :: "nat \<Rightarrow> u32"
  ICC_SRE_EL1 :: u32
  ICH_VMCR_EL2 :: u32
  ICH_HCR_EL2 :: u32
  VGIC_TYPER_PRIO_NUM :: nat

definition vgicv3_lrs_load :: "gicv3_vcpuif_ctxt \<Rightarrow> vgic \<Rightarrow> vgic" where
  "vgicv3_lrs_load ctxt st =
    (if 1 \<le> VGIC_TYPER_LR_NUM st \<and> VGIC_TYPER_LR_NUM st \<le> 8
     then st\<lparr>ich_lr := (\<lambda>i. if i < VGIC_TYPER_LR_NUM st then c_lr ctxt i else ich_lr st i)\<rparr> else st)"

definition vgicv3_lrs_save :: "vgic \<Rightarrow> gicv3_vcpuif_ctxt \<Rightarrow> gicv3_vcpuif_ctxt" where
  "vgicv3_lrs_save st ctxt =
    (if 1 \<le> VGIC_TYPER_LR_NUM st \<and> VGIC_TYPER_LR_NUM st \<le> 8
     then ctxt\<lparr>c_lr := (\<lambda>i. if i < VGIC_TYPER_LR_NUM st then ich_lr st i else c_lr ctxt i)\<rparr> else ctxt)"

definition vgicv3_prios_load :: "gicv3_vcpuif_ctxt \<Rightarrow> gich_regs \<Rightarrow> gich_regs" where
  "vgicv3_prios_load ctxt hw =
    (if 5 \<le> VGIC_TYPER_PRIO_NUM hw \<and> VGIC_TYPER_PRIO_NUM hw \<le> 7
     then hw\<lparr>ICH_AP0R := (\<lambda>i. if i + 5 \<le> VGIC_TYPER_PRIO_NUM hw then c_ap0r ctxt i else ICH_AP0R hw i),
        ICH_AP1R := (\<lambda>i. if i + 5 \<le> VGIC_TYPER_PRIO_NUM hw then c_ap1r ctxt i else ICH_AP1R hw i)\<rparr> else hw)"

definition vgicv3_prios_save :: "gich_regs \<Rightarrow> gicv3_vcpuif_ctxt \<Rightarrow> gicv3_vcpuif_ctxt" where
  "vgicv3_prios_save hw ctxt =
    (if 5 \<le> VGIC_TYPER_PRIO_NUM hw \<and> VGIC_TYPER_PRIO_NUM hw \<le> 7
     then ctxt\<lparr>c_ap0r := (\<lambda>i. if i + 5 \<le> VGIC_TYPER_PRIO_NUM hw then ICH_AP0R hw i else c_ap0r ctxt i),
        c_ap1r := (\<lambda>i. if i + 5 \<le> VGIC_TYPER_PRIO_NUM hw then ICH_AP1R hw i else c_ap1r ctxt i)\<rparr> else ctxt)"

definition vgicv3_ctrls_load :: "gicv3_vcpuif_ctxt \<Rightarrow> gich_regs \<Rightarrow> gich_regs" where
  "vgicv3_ctrls_load ctxt hw =
    hw\<lparr>ICC_SRE_EL1 := icc_sre_el1 ctxt, ICH_VMCR_EL2 := ich_vmcr_el2 ctxt, ICH_HCR_EL2 := ich_hcr_el2 ctxt\<rparr>"

definition vgicv3_ctrls_save :: "gich_regs \<Rightarrow> gicv3_vcpuif_ctxt \<Rightarrow> gicv3_vcpuif_ctxt" where
  "vgicv3_ctrls_save hw ctxt =
    ctxt\<lparr>icc_sre_el1 := ICC_SRE_EL1 hw, ich_vmcr_el2 := ICH_VMCR_EL2 hw, ich_hcr_el2 := ICH_HCR_EL2 hw\<rparr>"

text \<open>The physical interrupts of the devices passed through to the VM follow its first
  vCPU. \<^verbatim>\<open>devs\<close> lists the pass-through flag and the interrupt of each device.\<close>

definition arch_hw_irq_enable :: "nat \<Rightarrow> (bool \<times> nat) list \<Rightarrow> nat \<Rightarrow> vgic \<Rightarrow> vgic" where
  "arch_hw_irq_enable CONFIG_NUM_IRQS devs vcpu st =
    fold (\<lambda>(pt, irq) st. if pt \<and> vcpu = 0 \<and> irq \<le> CONFIG_NUM_IRQS then st\<lparr>hw_irq := (hw_irq st)(irq := True)\<rparr> else st) devs st"

definition arch_hw_irq_disable :: "nat \<Rightarrow> (bool \<times> nat) list \<Rightarrow> nat \<Rightarrow> vgic \<Rightarrow> vgic" where
  "arch_hw_irq_disable CONFIG_NUM_IRQS devs vcpu st =
    fold (\<lambda>(pt, irq) st. if pt \<and> vcpu = 0 \<and> irq \<le> CONFIG_NUM_IRQS then st\<lparr>hw_irq := (hw_irq st)(irq := False)\<rparr> else st) devs st"

definition vgicv3_state_load ::
  "nat \<Rightarrow> (bool \<times> nat) list \<Rightarrow> nat \<Rightarrow> gicv3_vcpuif_ctxt \<Rightarrow> vgic \<times> gich_regs \<Rightarrow> vgic \<times> gich_regs" where
  "vgicv3_state_load n devs vcpu ctxt s =
    (arch_hw_irq_enable n devs vcpu (vgicv3_lrs_load ctxt (fst s)), vgicv3_ctrls_load ctxt (vgicv3_prios_load ctxt (snd s)))"

definition vgicv3_state_save ::
  "nat \<Rightarrow> (bool \<times> nat) list \<Rightarrow> nat \<Rightarrow> vgic \<times> gich_regs \<Rightarrow> gicv3_vcpuif_ctxt \<Rightarrow> gicv3_vcpuif_ctxt \<times> vgic" where
  "vgicv3_state_save n devs vcpu s ctxt =
    (vgicv3_ctrls_save (snd s) (vgicv3_prios_save (snd s) (vgicv3_lrs_save (fst s) ctxt)), arch_hw_irq_disable n devs vcpu (fst s))"

definition vcpu_gicv3_init :: "u32 \<Rightarrow> gicv3_vcpuif_ctxt \<Rightarrow> gicv3_vcpuif_ctxt" where
  "vcpu_gicv3_init hw_icc_ctlr ctxt =
    ctxt\<lparr>icc_sre_el1 := 7, icc_ctlr_el1 := hw_icc_ctlr, ich_vmcr_el2 := push_bit 1 1 OR push_bit 24 0xF8, ich_hcr_el2 := 1\<rparr>"

text \<open>The private interrupts of a CPU that belong to devices passed through are
  switched with the vCPU: the value written to the clear-enable or set-enable
  register of the physical redistributor. \<^verbatim>\<open>pt\<close> is the pass-through bitmap and
  \<^verbatim>\<open>now\<close> the register as read.\<close>

definition internal_int_map :: "(nat \<Rightarrow> bool) \<Rightarrow> bool \<Rightarrow> bool \<Rightarrow> u32 \<Rightarrow> u32 \<Rightarrow> u32" where
  "internal_int_map pt is_rtos every gic_value start =
    fold (\<lambda>n m. if \<not> pt n then m
        else if is_rtos \<and> every then m OR push_bit n 1
        else if \<not> every \<and> \<not> is_rtos then m OR (gic_value AND push_bit n 1) else m) [0..<32] start"

definition save_disable_internal_int :: "(nat \<Rightarrow> bool) \<Rightarrow> bool \<Rightarrow> bool \<Rightarrow> nat \<Rightarrow> vgic \<Rightarrow> u32" where
  "save_disable_internal_int pt is_rtos disable_all vcpu st =
    internal_int_map pt is_rtos disable_all (gicr_virq (gicr st vcpu) Enabled) 0"

definition load_enable_internal_int :: "(nat \<Rightarrow> bool) \<Rightarrow> bool \<Rightarrow> bool \<Rightarrow> nat \<Rightarrow> u32 \<Rightarrow> vgic \<Rightarrow> u32" where
  "load_enable_internal_int pt is_rtos enable_all vcpu now st =
    internal_int_map pt is_rtos enable_all (gicr_virq (gicr st vcpu) Enabled) now"

end
