(* ===== verification/Bit_Store.thy ===== *)
theory Bit_Store
  imports ZVM_Prelude
begin

text \<open>
  The contract of a store of flags: writing one flag is seen by reading that
  flag and by no other. Clients that write many flags need only this law; the
  interrupt controller provides it.
\<close>

locale bit_store =
  fixes ok :: "'i \<Rightarrow> bool"
    and get :: "'i \<Rightarrow> 's \<Rightarrow> bool"
    and put :: "bool \<Rightarrow> 'i \<Rightarrow> 's \<Rightarrow> 's"
  assumes get_put: "ok i \<Longrightarrow> ok j \<Longrightarrow> get i (put on j s) \<longleftrightarrow> (if i = j then on else get i s)"
begin

lemma get_put_all:
  assumes "ok i" "\<And>j. j \<in> set js \<Longrightarrow> ok j"
  shows "get i (fold (put on) js s) \<longleftrightarrow> (if i \<in> set js then on else get i s)"
  using assms by (induction js arbitrary: s) (auto simp: get_put)

lemma put_put: "ok i \<Longrightarrow> ok j \<Longrightarrow> get i (put on j (put on' j s)) \<longleftrightarrow> get i (put on j s)"
  by (simp add: get_put)

lemma put_commute:
  "ok i \<Longrightarrow> ok j \<Longrightarrow> ok k \<Longrightarrow> j \<noteq> k \<Longrightarrow> get i (put on j (put on' k s)) \<longleftrightarrow> get i (put on' k (put on j s))"
  by (auto simp: get_put)

end

end
