(* ===== verification/Vgic_Bits.thy ===== *)
theory Vgic_Bits
  imports Vgic Bit_Store
begin

text \<open>
  The interrupt bits of the distributor and the redistributors: every routine
  that sets or clears them changes the bits it is asked to change and no others.
\<close>

section \<open>One bit\<close>

lemma bit_upd_bit: "n < 32 \<Longrightarrow> bit (upd_bit on n w) k \<longleftrightarrow> (if k = n then on else bit w k)"
  by (auto simp: upd_bit_def bit_or_exp bit_and_not_exp)

lemma virq_bit_of_bit:
  "virq_bit_of b vcpu irq st = bit (if irq < 32 then gicr_virq (gicr st vcpu) b
     else gicd_virq (gicd st) b vcpu (irq div 32)) (irq mod 32)"
  by (auto simp: virq_bit_of_def vgic_consts and_exp_eq_0)

lemma gicd_words [simp]:
  "gicd_virq (gicd (set_gicd_word b v i w st)) b' v' i' = (if b' = b \<and> v' = v \<and> i' = i then w else gicd_virq (gicd st) b' v' i')"
  "gicr_virq (gicr (set_gicd_word b v i w st) v') b' = gicr_virq (gicr st v') b'"
  "gicd_virq (gicd (set_gicr_word b v w st)) b' v' i' = gicd_virq (gicd st) b' v' i'"
  "gicr_virq (gicr (set_gicr_word b v w st) v') b' = (if b' = b \<and> v' = v then w else gicr_virq (gicr st v') b')"
  by (simp_all add: set_gicd_word_def set_gicr_word_def)

lemma irq_index_eq: "(i :: nat) = j \<longleftrightarrow> i div 32 = j div 32 \<and> i mod 32 = j mod 32"
  by (metis div_mult_mod_eq)

lemma virq_bit_of_set:
  "virq_bit_of b' v' irq' (VGIC_TEST_AND_SET b v irq 32 on st)
     \<longleftrightarrow> (if b' = b \<and> v' = v \<and> irq' = irq then on else virq_bit_of b' v' irq' st)"
proof -
  consider "irq < 32" "irq' < 32" | "irq < 32" "\<not> irq' < 32" | "\<not> irq < 32" "irq' < 32" | "\<not> irq < 32" "\<not> irq' < 32" by blast
  then show ?thesis
    using irq_index_eq[of irq' irq]
    by cases (auto simp: virq_bit_of_bit VGIC_TEST_AND_SET_def vgic_consts bit_upd_bit)
qed

text \<open>The bits of a VM are a store of flags, indexed by kind, vCPU and interrupt.\<close>

definition get_virq_bit :: "irq_bit \<times> nat \<times> nat \<Rightarrow> vgic \<Rightarrow> bool" where
  "get_virq_bit x st = (case x of (b, v, irq) \<Rightarrow> virq_bit_of b v irq st)"

definition put_virq_bit :: "bool \<Rightarrow> irq_bit \<times> nat \<times> nat \<Rightarrow> vgic \<Rightarrow> vgic" where
  "put_virq_bit on x st = (case x of (b, v, irq) \<Rightarrow> VGIC_TEST_AND_SET b v irq 32 on st)"

interpretation vbits: bit_store "\<lambda>_. True" get_virq_bit put_virq_bit
  by unfold_locales (auto simp: get_virq_bit_def put_virq_bit_def virq_bit_of_set)

section \<open>A mask of vCPUs\<close>

lemma set_word_config [simp]:
  "vcpu_num (set_gicd_word b v i w st) = vcpu_num st" "vcpu_num (set_gicr_word b v w st) = vcpu_num st"
  "VM_GLOBAL_VIRQ_NR (set_gicd_word b v i w st) = VM_GLOBAL_VIRQ_NR st"
  "VM_GLOBAL_VIRQ_NR (set_gicr_word b v w st) = VM_GLOBAL_VIRQ_NR st"
  by (simp_all add: set_gicd_word_def set_gicr_word_def)

lemma for_masked_put:
  "for_masked (\<lambda>i. VGIC_TEST_AND_SET b i irq 32 on) m st
     = fold (put_virq_bit on) (map (\<lambda>i. (b, i, irq)) (filter (bit m) [0..<vcpu_num st])) st"
proof -
  have "fold (\<lambda>i st. if bit m i then VGIC_TEST_AND_SET b i irq 32 on st else st) is s
     = fold (put_virq_bit on) (map (\<lambda>i. (b, i, irq)) (filter (bit m) is)) s" for "is" s
    by (induction "is" arbitrary: s) (simp_all add: put_virq_bit_def)
  then show ?thesis by (simp add: for_masked_def)
qed

lemma virq_bit_of_masked:
  "virq_bit_of b' v' irq' (for_masked (\<lambda>i. VGIC_TEST_AND_SET b i irq 32 on) m st)
     \<longleftrightarrow> (if b' = b \<and> irq' = irq \<and> v' < vcpu_num st \<and> bit m v' then on else virq_bit_of b' v' irq' st)"
  using vbits.get_put_all[where i = "(b', v', irq')" and js = "map (\<lambda>i. (b, i, irq)) (filter (bit m) [0..<vcpu_num st])"]
  by (auto simp: for_masked_put get_virq_bit_def)

lemmas vgic_masked_defs = VGIC_SET_ENABLE_def VGIC_UNSET_ENABLE_def VGIC_SET_PENDING_def VGIC_UNSET_PENDING_def
  VGIC_SET_ACTIVE_def VGIC_UNSET_ACTIVE_def VGIC_TEST_AND_SET_ENABLE_def VGIC_TEST_AND_SET_PENDING_def
  VGIC_TEST_AND_SET_ACTIVE_def

section \<open>The distributor registers\<close>

text \<open>Following the hardware does not touch the bits.\<close>

lemma hw_follow_keeps [simp]:
  "gicd (hw_follow b v irq on st) = gicd st" "gicr (hw_follow b v irq on st) = gicr st"
  "vcpu_num (hw_follow b v irq on st) = vcpu_num st" "VM_GLOBAL_VIRQ_NR (hw_follow b v irq on st) = VM_GLOBAL_VIRQ_NR st"
  "irq_desc (hw_follow b v irq on st) = irq_desc st" "CONFIG_MAX_VCPU_PER_VM (hw_follow b v irq on st) = CONFIG_MAX_VCPU_PER_VM st"
  by (auto simp: hw_follow_def vgic_irq_enable_hw_def vgic_irq_disable_hw_def split: irq_bit.splits option.splits)

lemma virq_bit_of_gicd_word:
  assumes "n < 32" "k \<noteq> 0"
  shows "virq_bit_of b' v' irq' (set_gicd_word b v k (upd_bit on n (gicd_virq (gicd st) b v k)) st)
     \<longleftrightarrow> (if b' = b \<and> v' = v \<and> irq' = 32 * k + n then on else virq_bit_of b' v' irq' st)"
proof -
  have "irq' = 32 * k + n \<longleftrightarrow> \<not> irq' < 32 \<and> irq' div 32 = k \<and> irq' mod 32 = n"
    using assms irq_index_eq[of irq' "32 * k + n"] by auto
  then show ?thesis by (auto simp: virq_bit_of_bit bit_upd_bit[OF assms(1)])
qed

lemma virq_bit_of_cong:
  "gicd s = gicd s' \<Longrightarrow> gicr s = gicr s' \<Longrightarrow> virq_bit_of b v irq s = virq_bit_of b v irq s'"
  by (simp add: virq_bit_of_def)

lemma test_and_set_spi_config [simp]:
  "vcpu_num (test_and_set_spi b v y w on ns st) = vcpu_num st"
  "VM_GLOBAL_VIRQ_NR (test_and_set_spi b v y w on ns st) = VM_GLOBAL_VIRQ_NR st"
  by (induction b v y w on ns st rule: test_and_set_spi.induct) (simp_all add: Let_def)

lemma test_and_set_spi_bits:
  assumes "k \<noteq> 0" "32 * k < VM_GLOBAL_VIRQ_NR st" "32 dvd VM_GLOBAL_VIRQ_NR st" "\<And>n. n \<in> set ns \<Longrightarrow> n < 32"
  shows "virq_bit_of b' v' irq' (test_and_set_spi b v (32 * k) w on ns st)
     \<longleftrightarrow> (if b' = b \<and> v' = v \<and> (\<exists>n\<in>set ns. bit w n \<and> irq' = 32 * k + n) then on else virq_bit_of b' v' irq' st)"
  using assms
proof (induction ns arbitrary: st)
  case (Cons n ns)
  let ?st = "hw_follow b v (32 * k + n) on st"
  let ?st' = "set_gicd_word b v k (upd_bit on n (gicd_virq (gicd st) b v k)) ?st"
  have n: "n < 32" and ns: "\<And>m. m \<in> set ns \<Longrightarrow> m < 32" using Cons.prems(4) by auto
  obtain q where q: "VM_GLOBAL_VIRQ_NR st = 32 * q" using Cons.prems(3) by (auto simp: dvd_def)
  then have le: "\<not> VM_GLOBAL_VIRQ_NR st < 32 * k + n" using Cons.prems(2) n by simp
  have i: "(32 * k + (if b = Enabled then 0 else n)) div 32 = k" using n by simp
  have eq: "test_and_set_spi b v (32 * k) w on (n # ns) st
      = (if bit w n then test_and_set_spi b v (32 * k) w on ns ?st' else test_and_set_spi b v (32 * k) w on ns st)"
    using le i by (simp add: Let_def)
  have one: "virq_bit_of b' v' irq' ?st' \<longleftrightarrow> (if b' = b \<and> v' = v \<and> irq' = 32 * k + n then on else virq_bit_of b' v' irq' st)"
    using virq_bit_of_gicd_word[OF n Cons.prems(1), of b' v' irq' b v on ?st] virq_bit_of_cong[of ?st st] by simp
  have IH: "VM_GLOBAL_VIRQ_NR s = VM_GLOBAL_VIRQ_NR st \<Longrightarrow> virq_bit_of b' v' irq' (test_and_set_spi b v (32 * k) w on ns s)
     \<longleftrightarrow> (if b' = b \<and> v' = v \<and> (\<exists>n\<in>set ns. bit w n \<and> irq' = 32 * k + n) then on else virq_bit_of b' v' irq' s)" for s
    using Cons.IH[of s] Cons.prems(1-3) ns by simp
  show ?case
  proof (cases "bit w n")
    case True
    have "VM_GLOBAL_VIRQ_NR ?st' = VM_GLOBAL_VIRQ_NR st" by simp
    then show ?thesis unfolding eq if_P[OF True] IH[OF \<open>VM_GLOBAL_VIRQ_NR ?st' = VM_GLOBAL_VIRQ_NR st\<close>] one
      using True by auto
  next
    case False
    then show ?thesis unfolding eq using IH[of st] by simp
  qed
qed simp

text \<open>The offsets of the registers that set and clear the three kinds of bits.\<close>

definition gicd_reg :: "irq_bit \<Rightarrow> bool \<Rightarrow> nat" where
  "gicd_reg b on = (case b of Enabled \<Rightarrow> 0x100 | Pending \<Rightarrow> 0x200 | Active \<Rightarrow> 0x300) + (if on then 0 else 0x80)"

lemma write_all_bits:
  assumes "k \<noteq> 0" "32 * k < VM_GLOBAL_VIRQ_NR st" "32 dvd VM_GLOBAL_VIRQ_NR st"
  shows "virq_bit_of b' v' irq' (write_all b (32 * k) w on st)
     \<longleftrightarrow> (if b' = b \<and> v' < vcpu_num st \<and> 32 * k \<le> irq' \<and> irq' < 32 * k + 32 \<and> bit w (irq' - 32 * k) then on
        else virq_bit_of b' v' irq' st)"
    and "vcpu_num (write_all b (32 * k) w on st) = vcpu_num st"
    and "VM_GLOBAL_VIRQ_NR (write_all b (32 * k) w on st) = VM_GLOBAL_VIRQ_NR st"
proof -
  let ?f = "\<lambda>i. vgic_test_and_set_bit b i (32 * k) w on Priv_Gicd"
  have f: "?f i = test_and_set_spi b i (32 * k) w on [0..<32]" for i using assms(1) by (auto simp: vgic_test_and_set_bit_def)
  have ex: "(\<exists>n\<in>set [0..<32]. bit w n \<and> irq' = 32 * k + n) \<longleftrightarrow> 32 * k \<le> irq' \<and> irq' < 32 * k + 32 \<and> bit w (irq' - 32 * k)"
    by (auto intro!: bexI[of _ "irq' - 32 * k"])
  have "vcpu_num (fold ?f is s) = vcpu_num s \<and> VM_GLOBAL_VIRQ_NR (fold ?f is s) = VM_GLOBAL_VIRQ_NR s
    \<and> (32 * k < VM_GLOBAL_VIRQ_NR s \<longrightarrow> 32 dvd VM_GLOBAL_VIRQ_NR s \<longrightarrow>
    virq_bit_of b' v' irq' (fold ?f is s) \<longleftrightarrow> (if b' = b \<and> v' \<in> set is
      \<and> (\<exists>n\<in>set [0..<32]. bit w n \<and> irq' = 32 * k + n) then on else virq_bit_of b' v' irq' s))" for "is" s
  proof (induction "is" arbitrary: s)
    case (Cons i "is")
    have "virq_bit_of b' v' irq' (?f i s) \<longleftrightarrow> (if b' = b \<and> v' = i
        \<and> (\<exists>n\<in>set [0..<32]. bit w n \<and> irq' = 32 * k + n) then on else virq_bit_of b' v' irq' s)"
      if "32 * k < VM_GLOBAL_VIRQ_NR s" "32 dvd VM_GLOBAL_VIRQ_NR s"
      unfolding f using test_and_set_spi_bits[OF assms(1) that, of "[0..<32]"] by simp
    then show ?case using Cons.IH[of "?f i s"] f by auto
  qed simp
  from this[of "[0..<vcpu_num st]" st] show
    "vcpu_num (write_all b (32 * k) w on st) = vcpu_num st" "VM_GLOBAL_VIRQ_NR (write_all b (32 * k) w on st) = VM_GLOBAL_VIRQ_NR st"
    "virq_bit_of b' v' irq' (write_all b (32 * k) w on st)
     \<longleftrightarrow> (if b' = b \<and> v' < vcpu_num st \<and> 32 * k \<le> irq' \<and> irq' < 32 * k + 32 \<and> bit w (irq' - 32 * k) then on
        else virq_bit_of b' v' irq' st)"
    using assms(2,3) unfolding write_all_def ex by auto
qed

lemma bit_self: "bit (push_bit v 1 :: u32) i \<longleftrightarrow> i = v \<and> v < 32" "bit (2 ^ v :: u32) i \<longleftrightarrow> i = v \<and> v < 32"
  by (auto simp: bit_exp_iff)

lemma bit_or_fold:
  "bit (fold (\<lambda>i v. if P i then v OR push_bit i 1 else v) ns (v :: u32)) n \<longleftrightarrow> bit v n \<or> n \<in> set ns \<and> n < 32 \<and> P n"
  by (induction ns arbitrary: v) (auto simp: bit_or_exp)

lemma read_bits_bit:
  assumes "32 * k < VM_GLOBAL_VIRQ_NR st" "32 dvd VM_GLOBAL_VIRQ_NR st" "n < 32"
  shows "bit (read_bits test (32 * k) 0 st) n \<longleftrightarrow> test (32 * k + n) st"
proof -
  obtain q where "VM_GLOBAL_VIRQ_NR st = 32 * q" using assms(2) by (auto simp: dvd_def)
  then have "32 * k + n < VM_GLOBAL_VIRQ_NR st" using assms(1,3) by simp
  then show ?thesis using assms(1,3) by (simp add: read_bits_def bit_or_fold)
qed

lemma virq_tests:
  assumes "v < vcpu_num st" "v < 32" "irq < VM_GLOBAL_VIRQ_NR st"
  shows "vgic_is_virq_enabled irq (push_bit v 1) st = virq_bit_of Enabled v irq st"
    "vgic_is_virq_pending irq (push_bit v 1) st = virq_bit_of Pending v irq st"
    "vgic_is_virq_active irq (push_bit v 1) st = virq_bit_of Active v irq st"
  using assms by (auto simp: vgic_is_virq_enabled_def vgic_is_virq_pending_def vgic_is_virq_active_def bit_self)

lemma gicd_read_clear_reg:
  assumes "32 * k < VM_GLOBAL_VIRQ_NR st" "32 dvd VM_GLOBAL_VIRQ_NR st" "VM_GLOBAL_VIRQ_NR st \<le> 1024" "n < 32"
    "v < vcpu_num st" "v < 32"
  shows "bit (vgic_gicd_mem_read v (gicd_reg b False + 4 * k) 0 st) n \<longleftrightarrow> virq_bit_of b v (32 * k + n) st"
proof -
  obtain q where "VM_GLOBAL_VIRQ_NR st = 32 * q" using assms(2) by (auto simp: dvd_def)
  then have irq: "32 * k + n < VM_GLOBAL_VIRQ_NR st" and k: "k < 32" using assms(1,3,4) by simp_all
  show ?thesis
    using k virq_tests[OF assms(5,6) irq] read_bits_bit[OF assms(1,2,4)]
    by (cases b) (simp_all add: vgic_gicd_mem_read_def gicd_reg_def Let_def mult.commute[of k])
qed

text \<open>C12: the distributor registers for shared interrupts. A write of a set or clear
  register (of enabled, pending or active bits, for interrupts 32 k to 32 k + 31)
  sets or clears, for every vCPU of the VM, exactly the bits that are set in the
  value, changes no bit of another interrupt or kind, and reading the clear
  register returns the bits of the vCPU that reads.\<close>

theorem gicd_registers_correct:
  assumes "0 < k" "32 * k < VM_GLOBAL_VIRQ_NR st" "32 dvd VM_GLOBAL_VIRQ_NR st" "VM_GLOBAL_VIRQ_NR st \<le> 1024" "vcpu_num st \<le> 32"
  shows "\<exists>st'. vgic_gicd_mem_write v (gicd_reg b on + 4 * k) w st = (0, st')
    \<and> (\<forall>b' v' irq. virq_bit_of b' v' irq st' \<longleftrightarrow>
         (if b' = b \<and> v' < vcpu_num st \<and> 32 * k \<le> irq \<and> irq < 32 * k + 32 \<and> bit w (irq - 32 * k)
          then on else virq_bit_of b' v' irq st))
    \<and> (\<forall>v' b' n. v' < vcpu_num st \<longrightarrow> n < 32 \<longrightarrow>
         (bit (vgic_gicd_mem_read v' (gicd_reg b' False + 4 * k) 0 st') n \<longleftrightarrow> virq_bit_of b' v' (32 * k + n) st'))"
proof -
  let ?st = "write_all b (32 * k) w on st"
  have k: "k < 32" "k \<noteq> 0" using assms(1,2,4) by simp_all
  have w: "vgic_gicd_mem_write v (gicd_reg b on + 4 * k) w st = (0, ?st)"
    using k assms(2) by (cases b; cases on) (simp_all add: vgic_gicd_mem_write_def gicd_reg_def write_set_def write_clear_def
        mult.commute[of k])
  note wa = write_all_bits[OF k(2) assms(2,3), where b = b and w = w and on = on]
  have "bit (vgic_gicd_mem_read v' (gicd_reg b' False + 4 * k) 0 ?st) n \<longleftrightarrow> virq_bit_of b' v' (32 * k + n) ?st"
    if "v' < vcpu_num st" "n < 32" for v' b' n
    using gicd_read_clear_reg[of k ?st n v' b'] that assms(2-5) by (simp add: wa(2,3))
  then show ?thesis using w wa(1) by blast
qed

text \<open>A VM with two vCPUs and 256 interrupts, all bits clear.\<close>

definition desc_none :: virt_irq_desc where
  "desc_none = \<lparr>desc_id = 0xFF, prio = 0, irq_type = 0, virq_states = 0, src_cpu = 0, pirq_num = 0xFFFF, virq_num = 0,
     bind_hwirq_flag = False, level_triggered = 0\<rparr>"

definition vgic_two :: vgic where
  "vgic_two = \<lparr>vgic_lock = False,
     gicd = \<lparr>gicd_base = 0x8000000, gicd_size = 0x10000, vgicd_ctlr = 0, vgicd_typer = 0, vgicd_pidr2 = 0,
       gicd_virq = (\<lambda>_ _ _. 0), virq_edge_trigger = (\<lambda>_. 0xFFFFFFFF)\<rparr>,
     gicr = gicr_new 0x80A0000 2, vcpu_num = 2, current_vcpu = Some 0,
     irq_desc = (\<lambda>_ irq. desc_none\<lparr>virq_num := of_nat irq\<rparr>), list_regs_map = (\<lambda>_. 0), ich_lr = (\<lambda>_. 0), ich_elrsr = 0,
     ich_eisr = 0, hw_irq = (\<lambda>_. False), ipis = [], VM_GLOBAL_VIRQ_NR = 256, CONFIG_MAX_VCPU_PER_VM = 4,
     VGIC_RDIST_NUM = 8, VGIC_TYPER_LR_NUM = 4, ZSHM_NOTIFY_VIRQ_NUM = 70, VSERIAL_DEV_VIRQ = 33\<rparr>"

lemma vgic_two_simps [simp]:
  "VM_GLOBAL_VIRQ_NR vgic_two = 256" "vcpu_num vgic_two = 2" "CONFIG_MAX_VCPU_PER_VM vgic_two = 4" "vgic_lock vgic_two = False"
  "VGIC_TYPER_LR_NUM vgic_two = 4" "VGIC_RDIST_NUM vgic_two = 8"
  by (simp_all add: vgic_two_def)

theorem gicd_registers_correct_witness:
  "\<exists>st. vgic_gicd_mem_write 0 0x104 5 vgic_two = (0, st) \<and> virq_bit_of Enabled 1 34 st \<and> \<not> virq_bit_of Enabled 1 33 st
    \<and> bit (vgic_gicd_mem_read 1 0x184 0 st) 2"
proof -
  obtain st where w: "vgic_gicd_mem_write 0 (gicd_reg Enabled True + 4 * 1) 5 vgic_two = (0, st)"
    and b: "\<And>b' v' irq. virq_bit_of b' v' irq st \<longleftrightarrow>
         (if b' = Enabled \<and> v' < 2 \<and> 32 * 1 \<le> irq \<and> irq < 32 * 1 + 32 \<and> bit (5 :: u32) (irq - 32 * 1)
          then True else virq_bit_of b' v' irq vgic_two)"
    and r: "\<And>v' b' n. v' < 2 \<Longrightarrow> n < 32 \<Longrightarrow>
         (bit (vgic_gicd_mem_read v' (gicd_reg b' False + 4 * 1) 0 st) n \<longleftrightarrow> virq_bit_of b' v' (32 * 1 + n) st)"
    using gicd_registers_correct[of 1 vgic_two 0 Enabled True 5] by auto
  have z: "\<not> virq_bit_of Enabled 1 33 vgic_two" by (simp add: virq_bit_of_bit vgic_two_def)
  show ?thesis
    using w b[of Enabled 1 34] b[of Enabled 1 33] r[of 1 2 Enabled] z by (simp add: gicd_reg_def)
qed

end
