(* ===== verification/Vgic_Lists.thy ===== *)
theory Vgic_Lists
  imports Vgic_Bits
begin

text \<open>
  The list registers: what they hold, how an interrupt gets into one, and what
  happens when all of them are taken.
\<close>

section \<open>The fields of a list register\<close>

lemma bit_rest_mask: "bit LR_REST_MASK k \<longleftrightarrow> 45 \<le> k \<and> k < 48 \<or> 56 \<le> k \<and> k < 60"
proof -
  have eq: "LR_REST_MASK = push_bit 45 (mask 3) OR push_bit 56 (mask 4)" by (simp add: LR_REST_MASK_def mask_numeral)
  show ?thesis unfolding eq bit_or_iff bit_push_bit_iff bit_mask_iff by auto
qed

lemma bit_lr_parts:
  "bit (ucast (x :: u32) :: u64) k \<longleftrightarrow> k < 32 \<and> bit x k"
  "bit (push_bit 32 (take_bit 13 (ucast (y :: u16))) :: u64) k \<longleftrightarrow> 32 \<le> k \<and> k < 45 \<and> bit y (k - 32)"
  "bit (push_bit 48 (ucast (z :: u8)) :: u64) k \<longleftrightarrow> 48 \<le> k \<and> k < 56 \<and> bit z (k - 48)"
  "bit (if b then push_bit n 1 else 0 :: u64) k \<longleftrightarrow> k = n \<and> n < 64 \<and> b"
  "bit (push_bit 62 (take_bit 2 (ucast z)) :: u64) k \<longleftrightarrow> 62 \<le> k \<and> k < 64 \<and> bit z (k - 62)"
  using bit_imp_le_length[of x k] bit_imp_le_length[of y "k - 32"] bit_imp_le_length[of z "k - 48"]
  by (auto simp: bit_push_bit_iff bit_take_bit_iff bit_ucast_iff bit_exp_iff)

lemma bit_lr_encode:
  "bit (lr_encode lr) k \<longleftrightarrow> k < 32 \<and> bit (vINTID lr) k \<or> 32 \<le> k \<and> k < 45 \<and> bit (pINTID lr) (k - 32)
     \<or> 48 \<le> k \<and> k < 56 \<and> bit (lr_priority lr) (k - 48) \<or> k = 60 \<and> lr_group lr \<or> k = 61 \<and> lr_hw lr
     \<or> 62 \<le> k \<and> k < 64 \<and> bit (lr_state lr) (k - 62) \<or> bit (lr_rest lr) k \<and> (45 \<le> k \<and> k < 48 \<or> 56 \<le> k \<and> k < 60)"
  unfolding lr_encode_def bit_or_iff bit_lr_parts bit_and_iff[of "lr_rest lr"] bit_rest_mask by simp

lemma lr_fields [simp]:
  "vINTID (lr_decode (lr_encode lr)) = vINTID lr"
  "lr_priority (lr_decode (lr_encode lr)) = lr_priority lr"
  "lr_state (lr_decode (lr_encode lr)) = take_bit 2 (lr_state lr)"
  "lr_group (lr_decode (lr_encode lr)) = lr_group lr"
  "lr_hw (lr_decode (lr_encode lr)) = lr_hw lr"
proof -
  show "vINTID (lr_decode (lr_encode lr)) = vINTID lr"
    by (rule bit_word_eqI) (auto simp: lr_decode_def bit_ucast_iff bit_lr_encode)
  show "lr_priority (lr_decode (lr_encode lr)) = lr_priority lr"
    by (rule bit_word_eqI) (auto simp: lr_decode_def bit_ucast_iff bit_drop_bit_eq bit_lr_encode)
  show "lr_state (lr_decode (lr_encode lr)) = take_bit 2 (lr_state lr)"
    by (rule bit_word_eqI) (auto simp: lr_decode_def bit_ucast_iff bit_drop_bit_eq bit_take_bit_iff bit_lr_encode)
qed (simp_all add: lr_decode_def bit_lr_encode)

section \<open>The registers in use\<close>

lemma INT_BIT_small: "n < 31 \<Longrightarrow> INT_BIT n = 2 ^ n"
  by (rule bit_word_eqI) (auto simp: INT_BIT_def bit_signed_iff bit_exp_iff min_def)

lemma bit_INT_BIT_255: "bit (INT_BIT 255) k \<longleftrightarrow> 31 \<le> k \<and> k < 64"
proof -
  have "bit (INT_BIT n) k \<longleftrightarrow> 31 \<le> k \<and> k < 64" if "n mod 32 = m" "m = 31" for n m
    unfolding INT_BIT_def that(1) by (auto simp: that(2)[symmetric] bit_signed_iff bit_exp_iff min_def) (simp_all add: that(2))
  then show ?thesis by simp
qed

text \<open>Every register in use belongs to one interrupt, whose descriptor points back
  at it; every other descriptor has the invalid number.\<close>

definition lr_wf :: "nat \<Rightarrow> vgic \<Rightarrow> bool" where
  "lr_wf v st \<longleftrightarrow> VGIC_TYPER_LR_NUM st \<le> 8 \<and> VM_GLOBAL_VIRQ_NR st \<le> 1024
     \<and> (\<forall>irq<VM_GLOBAL_VIRQ_NR st. virq_num (irq_desc st v irq) = of_nat irq)
     \<and> (\<forall>i. bit (list_regs_map st v) i \<longrightarrow> i < VGIC_TYPER_LR_NUM st)
     \<and> (\<forall>irq<VM_GLOBAL_VIRQ_NR st. let d = irq_desc st v irq in desc_id d = VM_INVALID_DESC_ID
          \<or> bit (list_regs_map st v) (unat (desc_id d)) \<and> vINTID (lr_decode (ich_lr st (unat (desc_id d)))) = of_nat irq)
     \<and> (\<forall>i. bit (list_regs_map st v) i \<longrightarrow>
          (\<exists>irq<VM_GLOBAL_VIRQ_NR st. vINTID (lr_decode (ich_lr st i)) = of_nat irq \<and> desc_id (irq_desc st v irq) = of_nat i))"

lemma lr_wfD:
  assumes "lr_wf v st"
  shows "VGIC_TYPER_LR_NUM st \<le> 8" "VM_GLOBAL_VIRQ_NR st \<le> 1024"
    "\<And>irq. irq < VM_GLOBAL_VIRQ_NR st \<Longrightarrow> virq_num (irq_desc st v irq) = of_nat irq"
    "\<And>i. bit (list_regs_map st v) i \<Longrightarrow> i < VGIC_TYPER_LR_NUM st"
    "\<And>irq. irq < VM_GLOBAL_VIRQ_NR st \<Longrightarrow> desc_id (irq_desc st v irq) \<noteq> VM_INVALID_DESC_ID \<Longrightarrow>
       bit (list_regs_map st v) (unat (desc_id (irq_desc st v irq)))
       \<and> vINTID (lr_decode (ich_lr st (unat (desc_id (irq_desc st v irq))))) = of_nat irq"
    "\<And>i. bit (list_regs_map st v) i \<Longrightarrow>
       \<exists>irq<VM_GLOBAL_VIRQ_NR st. vINTID (lr_decode (ich_lr st i)) = of_nat irq \<and> desc_id (irq_desc st v irq) = of_nat i"
  using assms unfolding lr_wf_def Let_def by blast+

lemma of_nat_irq_eq: "a < 1024 \<Longrightarrow> b < 1024 \<Longrightarrow> (of_nat a :: u32) = of_nat b \<longleftrightarrow> a = b"
proof -
  assume "a < 1024" "b < 1024"
  then have "unat (of_nat a :: u32) = a" "unat (of_nat b :: u32) = b" by (simp_all add: unat_of_nat_small)
  then show ?thesis by metis
qed

text \<open>An interrupt is presented to the guest when a register in use holds it as pending.\<close>

definition presented :: "nat \<Rightarrow> nat \<Rightarrow> vgic \<Rightarrow> bool" where
  "presented v irq st \<longleftrightarrow> (\<exists>i<VGIC_TYPER_LR_NUM st. bit (list_regs_map st v) i
     \<and> vINTID (lr_decode (ich_lr st i)) = of_nat irq \<and> bit (lr_state (lr_decode (ich_lr st i))) 0)"

lemma regs_test:
  assumes "lr_wf v st"
  shows "unat n < 31 \<Longrightarrow> VGIC_LIST_REGS_TEST n v st \<longleftrightarrow> bit (list_regs_map st v) (unat n)"
    and "\<not> VGIC_LIST_REGS_TEST VM_INVALID_DESC_ID v st"
proof -
  show "unat n < 31 \<Longrightarrow> VGIC_LIST_REGS_TEST n v st \<longleftrightarrow> bit (list_regs_map st v) (unat n)"
    by (simp add: VGIC_LIST_REGS_TEST_def INT_BIT_small and_exp_eq_0)
  have "list_regs_map st v AND INT_BIT 255 = 0"
    by (rule bit_word_eqI) (use lr_wfD(1,4)[OF assms] in \<open>fastforce simp: bit_and_iff bit_INT_BIT_255\<close>)
  then show "\<not> VGIC_LIST_REGS_TEST VM_INVALID_DESC_ID v st" by (simp add: VGIC_LIST_REGS_TEST_def vgic_consts)
qed

lemma idle_lr:
  assumes "lr_wf v st"
  shows "(\<exists>i<VGIC_TYPER_LR_NUM st. \<not> bit (list_regs_map st v) i) \<Longrightarrow>
      \<exists>i<VGIC_TYPER_LR_NUM st. \<not> bit (list_regs_map st v) i \<and> vgicv3_get_idle_lr v st = of_nat i"
    and "(\<And>i. i < VGIC_TYPER_LR_NUM st \<Longrightarrow> bit (list_regs_map st v) i) \<Longrightarrow> vgicv3_get_idle_lr v st = VM_INVALID_DESC_ID"
proof -
  have t: "VGIC_LIST_REGS_TEST (of_nat i) v st \<longleftrightarrow> bit (list_regs_map st v) i" if "i < VGIC_TYPER_LR_NUM st" for i
  proof -
    have "unat (of_nat i :: u8) = i" using that lr_wfD(1)[OF assms] by (intro unat_of_nat_small) simp
    then show ?thesis using regs_test(1)[OF assms, of "of_nat i"] that lr_wfD(1)[OF assms] by simp
  qed
  show "(\<exists>i<VGIC_TYPER_LR_NUM st. \<not> bit (list_regs_map st v) i) \<Longrightarrow>
      \<exists>i<VGIC_TYPER_LR_NUM st. \<not> bit (list_regs_map st v) i \<and> vgicv3_get_idle_lr v st = of_nat i"
  proof -
    assume "\<exists>i<VGIC_TYPER_LR_NUM st. \<not> bit (list_regs_map st v) i"
    then obtain i where f: "List.find (\<lambda>i. \<not> VGIC_LIST_REGS_TEST (of_nat i) v st) [0..<VGIC_TYPER_LR_NUM st] = Some i"
      using t find_upt_None_iff[of "\<lambda>i. \<not> VGIC_LIST_REGS_TEST (of_nat i) v st" 0 "VGIC_TYPER_LR_NUM st"] by (metis le0 not_None_eq)
    then have "vgicv3_get_idle_lr v st = of_nat i" by (simp add: vgicv3_get_idle_lr_def)
    moreover have "i < VGIC_TYPER_LR_NUM st \<and> \<not> bit (list_regs_map st v) i" using f t by (auto simp: find_upt_Some_iff)
    ultimately show ?thesis by blast
  qed
  assume "\<And>i. i < VGIC_TYPER_LR_NUM st \<Longrightarrow> bit (list_regs_map st v) i"
  then have "List.find (\<lambda>i. \<not> VGIC_LIST_REGS_TEST (of_nat i) v st) [0..<VGIC_TYPER_LR_NUM st] = None"
    using t by (auto simp: find_upt_None_iff)
  then show "vgicv3_get_idle_lr v st = VM_INVALID_DESC_ID" by (simp add: vgicv3_get_idle_lr_def vgic_consts)
qed

section \<open>Injecting an interrupt\<close>

text \<open>The two ways in which an interrupt gets into a register, as one update.\<close>

definition place_lr :: "nat \<Rightarrow> nat \<Rightarrow> nat \<Rightarrow> gicv3_list_reg \<Rightarrow> virt_irq_desc \<Rightarrow> vgic \<Rightarrow> vgic" where
  "place_lr v irq i lr d st = st\<lparr>irq_desc := (irq_desc st)(v := (irq_desc st v)(irq := d)),
     list_regs_map := (list_regs_map st)(v := list_regs_map st v OR 2 ^ i), ich_lr := (ich_lr st)(i := lr_encode lr)\<rparr>"

lemma place_lr_simps [simp]:
  "VGIC_TYPER_LR_NUM (place_lr v irq i lr d st) = VGIC_TYPER_LR_NUM st"
  "VM_GLOBAL_VIRQ_NR (place_lr v irq i lr d st) = VM_GLOBAL_VIRQ_NR st"
  "vcpu_num (place_lr v irq i lr d st) = vcpu_num st"
  "gicd (place_lr v irq i lr d st) = gicd st" "gicr (place_lr v irq i lr d st) = gicr st"
  "ich_lr (place_lr v irq i lr d st) j = (if j = i then lr_encode lr else ich_lr st j)"
  "irq_desc (place_lr v irq i lr d st) v' irq' = (if v' = v \<and> irq' = irq then d else irq_desc st v' irq')"
  by (simp_all add: place_lr_def)

lemma place_lr_map: "i < 64 \<Longrightarrow> bit (list_regs_map (place_lr v irq i lr d st) v) j \<longleftrightarrow> j = i \<or> bit (list_regs_map st v) j"
  by (auto simp: place_lr_def bit_or_exp)

lemma lr_id_facts: "i < 8 \<Longrightarrow> unat (of_nat i :: u8) = i" "i < 8 \<Longrightarrow> (of_nat i :: u8) \<noteq> VM_INVALID_DESC_ID"
proof -
  show u: "i < 8 \<Longrightarrow> unat (of_nat i :: u8) = i" for i by (simp add: unat_of_nat_small)
  show "i < 8 \<Longrightarrow> (of_nat i :: u8) \<noteq> VM_INVALID_DESC_ID"
  proof
    assume "i < 8" "(of_nat i :: u8) = VM_INVALID_DESC_ID"
    then have "unat (of_nat i :: u8) = 255" by (simp add: vgic_consts)
    then show False using u[of i] \<open>i < 8\<close> by simp
  qed
qed

lemma place_lr_wf:
  assumes wf: "lr_wf v st" and irq: "irq < VM_GLOBAL_VIRQ_NR st" and i: "i < VGIC_TYPER_LR_NUM st"
    and lr: "vINTID lr = of_nat irq" and d: "virq_num d = of_nat irq" "desc_id d = of_nat i"
    and own: "bit (list_regs_map st v) i \<Longrightarrow> desc_id (irq_desc st v irq) = of_nat i"
    and free: "\<not> bit (list_regs_map st v) i \<Longrightarrow> desc_id (irq_desc st v irq) = VM_INVALID_DESC_ID"
  shows "lr_wf v (place_lr v irq i lr d st)"
proof -
  note w = lr_wfD[OF wf]
  have i8: "unat (of_nat i :: u8) = i" "i < 64" "(of_nat i :: u8) \<noteq> VM_INVALID_DESC_ID"
    using lr_id_facts[of i] i w(1) by auto
  note m = place_lr_map[OF i8(2)]
  have other: "unat (desc_id (irq_desc st v irq')) \<noteq> i"
    if "irq' < VM_GLOBAL_VIRQ_NR st" "irq' \<noteq> irq" "desc_id (irq_desc st v irq') \<noteq> VM_INVALID_DESC_ID" for irq'
  proof
    assume e: "unat (desc_id (irq_desc st v irq')) = i"
    have o': "bit (list_regs_map st v) i" "vINTID (lr_decode (ich_lr st i)) = of_nat irq'"
      using w(5)[OF that(1,3)] e by auto
    have "desc_id (irq_desc st v irq) = of_nat i" using own[OF o'(1)] .
    then have "vINTID (lr_decode (ich_lr st i)) = of_nat irq" using w(5)[OF irq] i8 by simp
    then show False using o'(2) of_nat_irq_eq[of irq irq'] irq that(1,2) w(2) by simp
  qed
  show ?thesis
    unfolding lr_wf_def Let_def place_lr_simps m
  proof (intro conjI allI impI)
    fix irq' assume "irq' < VM_GLOBAL_VIRQ_NR st"
    then show "virq_num (if v = v \<and> irq' = irq then d else irq_desc st v irq') = of_nat irq'" using w(3) d by simp
  next
    fix j assume "j = i \<or> bit (list_regs_map st v) j"
    then show "j < VGIC_TYPER_LR_NUM st" using w(4) i by blast
  next
    fix irq' assume n: "irq' < VM_GLOBAL_VIRQ_NR st"
    show "desc_id (if v = v \<and> irq' = irq then d else irq_desc st v irq') = VM_INVALID_DESC_ID \<or>
      (unat (desc_id (if v = v \<and> irq' = irq then d else irq_desc st v irq')) = i \<or>
       bit (list_regs_map st v) (unat (desc_id (if v = v \<and> irq' = irq then d else irq_desc st v irq')))) \<and>
      vINTID (lr_decode (if unat (desc_id (if v = v \<and> irq' = irq then d else irq_desc st v irq')) = i then lr_encode lr
        else ich_lr st (unat (desc_id (if v = v \<and> irq' = irq then d else irq_desc st v irq'))))) = of_nat irq'"
      using w(5)[OF n] other[OF n] d i8 lr by auto
  next
    fix j assume "j = i \<or> bit (list_regs_map st v) j"
    then show "\<exists>irq'<VM_GLOBAL_VIRQ_NR st. vINTID (lr_decode (if j = i then lr_encode lr else ich_lr st j)) = of_nat irq'
        \<and> desc_id (if v = v \<and> irq' = irq then d else irq_desc st v irq') = of_nat j"
    proof (cases "j = i")
      case True
      then show ?thesis using irq lr d by (intro exI[of _ irq]) simp
    next
      case False
      then have j: "bit (list_regs_map st v) j" "j < 8" using \<open>j = i \<or> _\<close> w(1,4) by force+
      obtain irq' where o': "irq' < VM_GLOBAL_VIRQ_NR st" "vINTID (lr_decode (ich_lr st j)) = of_nat irq'"
        "desc_id (irq_desc st v irq') = of_nat j" using w(6)[OF j(1)] by blast
      have "irq' \<noteq> irq"
        using own free o'(3) lr_id_facts[OF j(2)] i8(1) False by metis
      then show ?thesis using o' False by (intro exI[of _ irq']) simp
    qed
  qed (use w(1,2) in auto)
qed

lemma pre_set_lr_fields:
  "vINTID (vgicv3_pre_set_lr d lr) = virq_num d" "lr_priority (vgicv3_pre_set_lr d lr) = prio d"
  "bit (virq_states d) 0 \<Longrightarrow> bit (lr_state (vgicv3_pre_set_lr d lr)) 0"
proof -
  have "virq_states d AND 1 = 0 \<longleftrightarrow> \<not> bit (virq_states d) 0" using and_exp_eq_0(2)[of 0 "virq_states d"] by (simp add: bit_0)
  then show "bit (virq_states d) 0 \<Longrightarrow> bit (lr_state (vgicv3_pre_set_lr d lr)) 0"
    by (simp add: vgicv3_pre_set_lr_def Let_def vgic_consts bit_or_iff bit_1_iff)
qed (simp_all add: vgicv3_pre_set_lr_def Let_def)

text \<open>What a descriptor keeps when its interrupt is injected.\<close>

definition injected_desc :: "nat \<Rightarrow> virt_irq_desc \<Rightarrow> virt_irq_desc \<Rightarrow> bool" where
  "injected_desc i d d' \<longleftrightarrow> desc_id d' = of_nat i \<and> virq_num d' = virq_num d \<and> src_cpu d' = src_cpu d \<and> prio d' = prio d
     \<and> bit (virq_states d') 0"

lemma inject_hit:
  assumes wf: "lr_wf v st" and irq: "irq < VM_GLOBAL_VIRQ_NR st" and hit: "desc_id (irq_desc st v irq) \<noteq> VM_INVALID_DESC_ID"
  defines "i \<equiv> unat (desc_id (irq_desc st v irq))"
  shows "\<exists>lr d. vgic_inject_virq_vcpuif v irq st = (1, place_lr v irq i lr d st) \<and> bit (list_regs_map st v) i
    \<and> injected_desc i (irq_desc st v irq) d \<and> vINTID lr = of_nat irq \<and> lr_priority lr = prio d \<and> bit (lr_state lr) 0"
proof -
  let ?d = "irq_desc st v irq"
  let ?d1 = "?d\<lparr>virq_states := virq_states ?d OR VIRQ_STATE_PENDING\<rparr>"
  let ?d2 = "if unat (virq_num ?d1) = ZSHM_NOTIFY_VIRQ_NUM st then ?d1\<lparr>level_triggered := 0\<rparr> else ?d1"
  let ?lr = "vgicv3_pre_set_lr ?d1 (lr_decode (ich_lr st i))"
  have b: "bit (list_regs_map st v) i" "vINTID (lr_decode (ich_lr st i)) = virq_num ?d" "i < 8"
    using lr_wfD(5)[OF wf irq hit] lr_wfD(3)[OF wf irq] lr_wfD(1,4)[OF wf] unfolding i_def by force+
  have t: "VGIC_LIST_REGS_TEST (desc_id ?d) v st" using regs_test(1)[OF wf, of "desc_id ?d"] b i_def by simp
  have "list_regs_map st v OR 2 ^ i = list_regs_map st v"
    using b(1) by (intro bit_word_eqI) (auto simp: bit_or_exp)
  then have st: "place_lr v irq i ?lr ?d2 st = put_desc v irq ?d2 (vgicv3_write_lr i (lr_encode ?lr) st)"
    using b(3) by (simp add: place_lr_def put_desc_def vgicv3_write_lr_def)
  have "vgic_inject_virq_vcpuif v irq st = (1, place_lr v irq i ?lr ?d2 st)"
    unfolding st using t b by (simp add: vgic_inject_virq_vcpuif_def Let_def vgicv3_read_lr_def vgicv3_write_lr_def
        flip: i_def)
  moreover have "bit (virq_states ?d1) 0" by (simp add: vgic_consts bit_or_iff bit_1_iff)
  then have "bit (lr_state ?lr) 0" "injected_desc i ?d ?d2"
    using pre_set_lr_fields(3)[of ?d1] by (auto simp: injected_desc_def i_def)
  ultimately show ?thesis
    using b(1) lr_wfD(3)[OF wf irq] by (intro exI[of _ ?lr] exI[of _ ?d2]) (simp add: pre_set_lr_fields)
qed

lemma inject_idle:
  assumes wf: "lr_wf v st" and irq: "irq < VM_GLOBAL_VIRQ_NR st" and out: "desc_id (irq_desc st v irq) = VM_INVALID_DESC_ID"
    and idle: "\<exists>i<VGIC_TYPER_LR_NUM st. \<not> bit (list_regs_map st v) i"
  shows "\<exists>i lr d. i < VGIC_TYPER_LR_NUM st \<and> \<not> bit (list_regs_map st v) i
    \<and> vgic_inject_virq_vcpuif v irq st = (0, place_lr v irq i lr d st)
    \<and> injected_desc i (irq_desc st v irq) d \<and> vINTID lr = of_nat irq \<and> lr_priority lr = prio d \<and> bit (lr_state lr) 0"
proof -
  obtain i where i: "i < VGIC_TYPER_LR_NUM st" "\<not> bit (list_regs_map st v) i" "vgicv3_get_idle_lr v st = of_nat i"
    using idle_lr(1)[OF wf idle] by blast
  have i8: "i < 8" "unat (of_nat i :: u8) = i" using i(1) lr_wfD(1)[OF wf] lr_id_facts[of i] by auto
  let ?d = "irq_desc st v irq"
  let ?d1 = "?d\<lparr>desc_id := of_nat i, virq_states := VIRQ_STATE_PENDING\<rparr>"
  let ?d2 = "if unat (virq_num ?d1) = VSERIAL_DEV_VIRQ st \<or> unat (virq_num ?d1) = ZSHM_NOTIFY_VIRQ_NUM st
      then ?d1\<lparr>level_triggered := 0\<rparr> else ?d1"
  let ?lr = "vgicv3_pre_set_lr ?d1 (lr_decode 0)"
  have t: "\<not> VGIC_LIST_REGS_TEST (desc_id ?d) v st" using regs_test(2)[OF wf] out by simp
  have st: "place_lr v irq i ?lr ?d2 st
      = put_desc v irq ?d2 (vgicv3_write_lr i (lr_encode ?lr) (VGIC_LIST_REGS_SET (of_nat i) v st))"
    using i8 by (simp add: place_lr_def put_desc_def vgicv3_write_lr_def VGIC_LIST_REGS_SET_def INT_BIT_small)
  have "of_int (uint (of_nat i :: u8)) = (of_nat i :: u8)" by simp
  then have "vgic_inject_virq_vcpuif v irq st = (0, place_lr v irq i ?lr ?d2 st)"
    unfolding st using t i(3) i8 by (simp add: vgic_inject_virq_vcpuif_def Let_def VGIC_LIST_REGS_SET_def vgicv3_write_lr_def)
  moreover have "bit (virq_states ?d1) 0" by (simp add: vgic_consts bit_1_iff)
  then have "bit (lr_state ?lr) 0" "injected_desc i ?d ?d2"
    using pre_set_lr_fields(3)[of ?d1] by (auto simp: injected_desc_def)
  ultimately show ?thesis
    using i lr_wfD(3)[OF wf irq] by (intro exI[of _ i] exI[of _ ?lr] exI[of _ ?d2]) (simp add: pre_set_lr_fields)
qed

lemma inject_full:
  assumes wf: "lr_wf v st" and out: "desc_id (irq_desc st v irq) = VM_INVALID_DESC_ID"
    and full: "\<And>i. i < VGIC_TYPER_LR_NUM st \<Longrightarrow> bit (list_regs_map st v) i"
  shows "\<exists>st'. vgic_inject_virq_vcpuif v irq st = (0, st') \<and> ich_lr st' = ich_lr st \<and> gicd st' = gicd st \<and> gicr st' = gicr st
    \<and> vcpu_num st' = vcpu_num st \<and> VGIC_TYPER_LR_NUM st' = VGIC_TYPER_LR_NUM st"
proof -
  have t: "\<not> VGIC_LIST_REGS_TEST (desc_id (irq_desc st v irq)) v st" using regs_test(2)[OF wf] out by simp
  have "vgicv3_get_idle_lr v st = VM_INVALID_DESC_ID" using idle_lr(2)[OF wf full] .
  then show ?thesis
    using t by (simp add: vgic_inject_virq_vcpuif_def Let_def VGIC_LIST_REGS_SET_def vgicv3_write_lr_def put_desc_def vgic_consts)
qed

text \<open>Either way the result is that of placing the interrupt in a register.\<close>

lemma inject_place:
  assumes wf: "lr_wf v st" and irq: "irq < VM_GLOBAL_VIRQ_NR st"
    and room: "desc_id (irq_desc st v irq) \<noteq> VM_INVALID_DESC_ID \<or> (\<exists>i<VGIC_TYPER_LR_NUM st. \<not> bit (list_regs_map st v) i)"
  obtains ret i lr d where "i < VGIC_TYPER_LR_NUM st" "0 \<le> (ret :: int)"
    "vgic_inject_virq_vcpuif v irq st = (ret, place_lr v irq i lr d st)"
    "injected_desc i (irq_desc st v irq) d" "vINTID lr = of_nat irq" "lr_priority lr = prio d" "bit (lr_state lr) 0"
    "bit (list_regs_map st v) i \<Longrightarrow> desc_id (irq_desc st v irq) = of_nat i \<and> vINTID (lr_decode (ich_lr st i)) = of_nat irq"
    "\<not> bit (list_regs_map st v) i \<Longrightarrow> desc_id (irq_desc st v irq) = VM_INVALID_DESC_ID"
    "lr_wf v (place_lr v irq i lr d st)"
proof -
  obtain ret i lr d where i: "i < VGIC_TYPER_LR_NUM st" "0 \<le> (ret :: int)"
      "vgic_inject_virq_vcpuif v irq st = (ret, place_lr v irq i lr d st)"
    and d: "injected_desc i (irq_desc st v irq) d" "vINTID lr = of_nat irq" "lr_priority lr = prio d" "bit (lr_state lr) 0"
    and own: "bit (list_regs_map st v) i \<Longrightarrow> desc_id (irq_desc st v irq) = of_nat i \<and> vINTID (lr_decode (ich_lr st i)) = of_nat irq"
    and free: "\<not> bit (list_regs_map st v) i \<Longrightarrow> desc_id (irq_desc st v irq) = VM_INVALID_DESC_ID"
  proof (cases "desc_id (irq_desc st v irq) = VM_INVALID_DESC_ID")
    case True
    note t = that
    show thesis using inject_idle[OF wf irq True] room True t[of _ 0] by force
  next
    case False
    note t = that
    show thesis
      using inject_hit[OF wf irq False] lr_wfD(4,5)[OF wf] irq False t[of "unat (desc_id (irq_desc st v irq))" 1] by force
  qed
  have "lr_wf v (place_lr v irq i lr d st)"
    using place_lr_wf[OF wf irq i(1) d(2)] own free d(1) lr_wfD(3)[OF wf irq] by (simp add: injected_desc_def)
  then show thesis using that i d own free by blast
qed

lemma place_lr_presents:
  assumes i: "i < VGIC_TYPER_LR_NUM st" "i < 64" and lr: "vINTID lr = of_nat irq" "bit (lr_state lr) 0"
    and own: "bit (list_regs_map st v) i \<Longrightarrow> vINTID (lr_decode (ich_lr st i)) = of_nat irq"
  shows "presented v irq (place_lr v irq i lr d st)"
    and "presented v irq' st \<Longrightarrow> presented v irq' (place_lr v irq i lr d st)"
proof -
  show p: "presented v irq (place_lr v irq i lr d st)"
    using i lr place_lr_map[OF i(2)] by (auto simp: presented_def bit_take_bit_iff intro!: exI[of _ i])
  assume "presented v irq' st"
  then obtain j where j: "j < VGIC_TYPER_LR_NUM st" "bit (list_regs_map st v) j" "vINTID (lr_decode (ich_lr st j)) = of_nat irq'"
    "bit (lr_state (lr_decode (ich_lr st j))) 0" by (auto simp: presented_def)
  show "presented v irq' (place_lr v irq i lr d st)"
  proof (cases "j = i")
    case True
    then have e: "(of_nat irq' :: u32) = of_nat irq" using own j by simp
    show ?thesis using p unfolding presented_def e .
  next
    case False
    then show ?thesis using j place_lr_map[OF i(2)] by (auto simp: presented_def intro!: exI[of _ j])
  qed
qed

text \<open>C11: injecting an interrupt. When the descriptors and the list registers agree
  and the interrupt already has a register or one is idle, \<^verbatim>\<open>vgic_inject_virq_vcpuif\<close>
  succeeds and the interrupt is pending in a register with the priority of its
  descriptor; the agreement is kept, at most one register changes, and every
  other interrupt that was presented still is.\<close>

theorem inject_correct:
  assumes wf: "lr_wf v st" and irq: "irq < VM_GLOBAL_VIRQ_NR st"
    and room: "desc_id (irq_desc st v irq) \<noteq> VM_INVALID_DESC_ID \<or> (\<exists>i<VGIC_TYPER_LR_NUM st. \<not> bit (list_regs_map st v) i)"
  shows "\<exists>ret st' i. vgic_inject_virq_vcpuif v irq st = (ret, st') \<and> 0 \<le> ret \<and> lr_wf v st' \<and> presented v irq st'
    \<and> lr_priority (lr_decode (ich_lr st' i)) = prio (irq_desc st v irq) \<and> vINTID (lr_decode (ich_lr st' i)) = of_nat irq
    \<and> (\<forall>j. j \<noteq> i \<longrightarrow> ich_lr st' j = ich_lr st j) \<and> (\<forall>irq'. presented v irq' st \<longrightarrow> presented v irq' st')"
proof (rule inject_place[OF wf irq room])
  fix ret :: int and i lr d
  let ?st = "place_lr v irq i lr d st"
  assume i: "i < VGIC_TYPER_LR_NUM st" "0 \<le> ret" "vgic_inject_virq_vcpuif v irq st = (ret, ?st)"
    and d: "injected_desc i (irq_desc st v irq) d" "vINTID lr = of_nat irq" "lr_priority lr = prio d" "bit (lr_state lr) 0"
    and own: "bit (list_regs_map st v) i \<Longrightarrow> desc_id (irq_desc st v irq) = of_nat i \<and> vINTID (lr_decode (ich_lr st i)) = of_nat irq"
    and wf': "lr_wf v ?st"
  have i64: "i < 64" using i(1) lr_wfD(1)[OF wf] by simp
  note p = place_lr_presents[OF i(1) i64 d(2,4)]
  show ?thesis
    using i(2,3) d(1-3) wf' p own by (intro exI[of _ ret] exI[of _ ?st] exI[of _ i]) (simp add: injected_desc_def)
qed

lemma vgic_two_wf: "lr_wf v vgic_two"
  by (simp add: lr_wf_def vgic_two_def desc_none_def vgic_consts)

theorem inject_correct_witness: "\<exists>ret st. vgic_inject_virq_vcpuif 0 40 vgic_two = (ret, st) \<and> 0 \<le> ret \<and> presented 0 40 st"
proof -
  have "\<exists>i<VGIC_TYPER_LR_NUM vgic_two. \<not> bit (list_regs_map vgic_two 0) i"
    by (intro exI[of _ 0]) (simp add: vgic_two_def)
  then show ?thesis using inject_correct[OF vgic_two_wf[of 0], of 40] by auto
qed

section \<open>All registers in use\<close>

lemma filter_eq_upt: "filter (\<lambda>i. i = n) [0..<m] = (if n < m then [n] else [])"
  by (induction m) auto

lemma mask_irqs_one:
  assumes "n < 32"
  shows "mask_irqs (push_bit n 1) = [n]"
proof -
  have "bit (push_bit n 1 :: u32) = (\<lambda>i. i = n)" using assms by (simp only: fun_eq_iff bit_self) blast
  then show ?thesis using assms filter_eq_upt[of n 32] unfolding mask_irqs_def by simp
qed

lemma mask_irqs_zero [simp]: "mask_irqs 0 = []"
  by (simp add: mask_irqs_def)

lemma flush_words_none:
  assumes "\<And>i. i \<in> set is \<Longrightarrow> gicd_virq (gicd st) Pending v i AND gicd_virq (gicd st) Enabled v i = 0"
  shows "flush_words v is st = st"
  using assms by (induction "is") (simp_all add: Let_def)

lemma masked_local_gicd:
  assumes "irq < 32"
  shows "gicd (for_masked (\<lambda>i. VGIC_TEST_AND_SET b i irq 32 on) m st) = gicd st"
    "ich_lr (for_masked (\<lambda>i. VGIC_TEST_AND_SET b i irq 32 on) m st) = ich_lr st"
proof -
  have "gicd (fold (\<lambda>i st. if bit m i then VGIC_TEST_AND_SET b i irq 32 on st else st) is s) = gicd s
    \<and> ich_lr (fold (\<lambda>i st. if bit m i then VGIC_TEST_AND_SET b i irq 32 on st else st) is s) = ich_lr s" for "is" s
    using assms by (induction "is" arbitrary: s) (simp_all add: VGIC_TEST_AND_SET_def vgic_consts set_gicr_word_def)
  then show "gicd (for_masked (\<lambda>i. VGIC_TEST_AND_SET b i irq 32 on) m st) = gicd st"
    "ich_lr (for_masked (\<lambda>i. VGIC_TEST_AND_SET b i irq 32 on) m st) = ich_lr st"
    by (simp_all add: for_masked_def)
qed

text \<open>An interrupt that finds all list registers taken. \<^verbatim>\<open>vgicv3_get_idle_lr\<close>
  returns its failure value as \<^verbatim>\<open>uint8_t\<close>, so the test for a negative number never
  succeeds: when the flush finds a local interrupt pending and enabled and every
  register holds some other interrupt, it reports success, clears the pending
  bit and writes no register. The interrupt is lost.\<close>

theorem full_registers_lose_interrupt:
  assumes wf: "lr_wf v st" and irq: "irq < 32" and v: "v < vcpu_num st" "v < 32"
    and out: "desc_id (irq_desc st v irq) = VM_INVALID_DESC_ID" "src_cpu (irq_desc st v irq) = 0"
    and full: "\<And>i. i < VGIC_TYPER_LR_NUM st \<Longrightarrow> bit (list_regs_map st v) i"
    and only: "VGIC_GET_PENDING v 0 32 st AND VGIC_GET_ENABLED v 0 32 st = push_bit irq 1"
      "\<And>i. 0 < i \<Longrightarrow> gicd_virq (gicd st) Pending v i AND gicd_virq (gicd st) Enabled v i = 0"
  shows "\<exists>st'. virt_irq_flush_vgic v st = (0, st') \<and> virq_bit_of Pending v irq st \<and> \<not> virq_bit_of Pending v irq st'
    \<and> ich_lr st' = ich_lr st"
proof -
  obtain st1 where s1: "vgic_inject_virq_vcpuif v irq st = (0, st1)" "ich_lr st1 = ich_lr st" "gicd st1 = gicd st"
    "gicr st1 = gicr st" "vcpu_num st1 = vcpu_num st" using inject_full[OF wf out(1) full] by blast
  let ?st2 = "VGIC_UNSET_PENDING irq (push_bit v 1) st1"
  have d: "VGIC_UNSET_PENDING irq (push_bit v 1) st1 = for_masked (\<lambda>i. VGIC_TEST_AND_SET Pending i irq 32 False) (push_bit v 1) st1"
    by (simp add: vgic_masked_defs)
  have s2: "gicd ?st2 = gicd st" "ich_lr ?st2 = ich_lr st" "\<not> virq_bit_of Pending v irq ?st2"
    using v s1(5) unfolding d masked_local_gicd[OF irq] virq_bit_of_masked bit_self s1(2,3) by simp_all
  have "flush_local v [irq] st = (True, ?st2)" using s1(1) out(2) by simp
  moreover have "flush_words v is ?st2 = ?st2" if "0 \<notin> set is" for "is"
    using only(2) that s2(1) by (intro flush_words_none) (metis gr0I)
  ultimately have "virt_irq_flush_vgic v st = (0, ?st2)"
    using mask_irqs_one[OF irq] only(1) by (simp add: virt_irq_flush_vgic_def)
  moreover have "bit (VGIC_GET_PENDING v 0 32 st AND VGIC_GET_ENABLED v 0 32 st) irq" unfolding only(1) using irq by (simp add: bit_self)
  then have "virq_bit_of Pending v irq st"
    using irq by (simp add: virq_bit_of_bit VGIC_GET_PENDING_def VGIC_GET_def vgic_consts bit_and_iff)
  ultimately show ?thesis using s2 by blast
qed

text \<open>One list register, which holds interrupt 40; interrupt 27 is pending and enabled.\<close>

definition vgic_full :: vgic where
  "vgic_full = vgic_two\<lparr>VGIC_TYPER_LR_NUM := 1, list_regs_map := (\<lambda>_. 1), ich_lr := (\<lambda>_. 40),
     irq_desc := (\<lambda>_ irq. desc_none\<lparr>virq_num := of_nat irq, desc_id := (if irq = 40 then 0 else 0xFF)\<rparr>),
     gicr := (\<lambda>i. (gicr vgic_two i)\<lparr>gicr_virq := (\<lambda>_. push_bit 27 1)\<rparr>)\<rparr>"

lemma vgic_full_wf: "lr_wf 0 vgic_full"
proof -
  have "vINTID (lr_decode 40) = 40" by (simp add: lr_decode_def)
  then show ?thesis
    by (auto simp: lr_wf_def vgic_full_def desc_none_def vgic_consts Let_def bit_1_iff split: if_splits)
qed

theorem full_registers_lose_interrupt_witness:
  "\<exists>st. virt_irq_flush_vgic 0 vgic_full = (0, st) \<and> virq_bit_of Pending 0 27 vgic_full \<and> \<not> virq_bit_of Pending 0 27 st
    \<and> \<not> presented 0 27 st"
proof -
  obtain st where st: "virt_irq_flush_vgic 0 vgic_full = (0, st)" "virq_bit_of Pending 0 27 vgic_full"
    "\<not> virq_bit_of Pending 0 27 st" "ich_lr st = ich_lr vgic_full"
    using full_registers_lose_interrupt[OF vgic_full_wf, of 27]
    by (auto simp: vgic_full_def vgic_two_def desc_none_def vgic_consts bit_1_iff VGIC_GET_PENDING_def VGIC_GET_ENABLED_def VGIC_GET_def)
  have "\<not> presented 0 27 st" unfolding presented_def st(4) by (simp add: vgic_full_def lr_decode_def)
  then show ?thesis using st by blast
qed

end
