(* ===== verification/Vgic_Flush.thy ===== *)
theory Vgic_Flush
  imports Vgic_Lists
begin

text \<open>
  The flush that moves pending interrupts into list registers. As long as there
  are idle registers for all of them it loses none: every interrupt that is
  pending and enabled ends up presented to the guest and no longer pending.
\<close>

section \<open>What a flush of a set of interrupts achieves\<close>

definition idle :: "nat \<Rightarrow> vgic \<Rightarrow> nat" where
  "idle v st = card {i. i < VGIC_TYPER_LR_NUM st \<and> \<not> bit (list_regs_map st v) i}"

definition newcomers :: "nat \<Rightarrow> nat set \<Rightarrow> vgic \<Rightarrow> nat set" where
  "newcomers v I st = {irq \<in> I. desc_id (irq_desc st v irq) = VM_INVALID_DESC_ID}"

definition same_config :: "vgic \<Rightarrow> vgic \<Rightarrow> bool" where
  "same_config st st' \<longleftrightarrow> vcpu_num st' = vcpu_num st \<and> VM_GLOBAL_VIRQ_NR st' = VM_GLOBAL_VIRQ_NR st
     \<and> VGIC_TYPER_LR_NUM st' = VGIC_TYPER_LR_NUM st"

definition flushed :: "nat \<Rightarrow> nat set \<Rightarrow> vgic \<Rightarrow> vgic \<Rightarrow> bool" where
  "flushed v I st st' \<longleftrightarrow> lr_wf v st' \<and> same_config st st' \<and> (\<forall>irq\<in>I. presented v irq st')
     \<and> (\<forall>irq. presented v irq st \<longrightarrow> presented v irq st')
     \<and> (\<forall>irq. virq_bit_of Pending v irq st' \<longleftrightarrow> virq_bit_of Pending v irq st \<and> irq \<notin> I)
     \<and> (\<forall>irq. virq_bit_of Enabled v irq st' \<longleftrightarrow> virq_bit_of Enabled v irq st)
     \<and> (\<forall>irq. irq \<notin> I \<longrightarrow> irq_desc st' v irq = irq_desc st v irq)
     \<and> idle v st' + card (newcomers v I st) = idle v st"

lemma flushed_empty: "lr_wf v st \<Longrightarrow> flushed v {} st st"
  by (simp add: flushed_def same_config_def newcomers_def)

lemma flushed_union:
  assumes "flushed v I st st1" "flushed v J st1 st2" "I \<inter> J = {}" "finite I" "finite J"
  shows "flushed v (I \<union> J) st st2"
proof -
  have "newcomers v J st1 = newcomers v J st"
    using assms(1,3) by (auto simp: flushed_def newcomers_def)
  moreover have "newcomers v (I \<union> J) st = newcomers v I st \<union> newcomers v J st" "newcomers v I st \<inter> newcomers v J st = {}"
    "finite (newcomers v I st)" "finite (newcomers v J st)"
    using assms(3-5) by (auto simp: newcomers_def)
  ultimately have "card (newcomers v (I \<union> J) st) = card (newcomers v I st) + card (newcomers v J st1)"
    by (simp add: card_Un_disjoint)
  then show ?thesis using assms(1-3) by (auto simp: flushed_def same_config_def)
qed

section \<open>One interrupt\<close>

text \<open>The effect of an injection, with the number of idle registers.\<close>

definition placed :: "nat \<Rightarrow> nat \<Rightarrow> vgic \<Rightarrow> vgic \<Rightarrow> bool" where
  "placed v irq st st' \<longleftrightarrow> lr_wf v st' \<and> same_config st st' \<and> presented v irq st'
     \<and> (\<forall>irq'. presented v irq' st \<longrightarrow> presented v irq' st') \<and> gicd st' = gicd st \<and> gicr st' = gicr st
     \<and> (\<forall>irq'. irq' \<noteq> irq \<longrightarrow> irq_desc st' v irq' = irq_desc st v irq') \<and> desc_id (irq_desc st' v irq) \<noteq> VM_INVALID_DESC_ID
     \<and> idle v st' + card (newcomers v {irq} st) = idle v st"

lemma inject_step:
  assumes wf: "lr_wf v st" and irq: "irq < VM_GLOBAL_VIRQ_NR st"
    and room: "card (newcomers v {irq} st) \<le> idle v st"
  obtains ret st' where "vgic_inject_virq_vcpuif v irq st = (ret, st')" "0 \<le> ret" "placed v irq st st'"
proof -
  have fin: "finite {i. i < VGIC_TYPER_LR_NUM st \<and> \<not> bit (list_regs_map st v) i}" by simp
  have nc: "newcomers v {irq} st = (if desc_id (irq_desc st v irq) = VM_INVALID_DESC_ID then {irq} else {})"
    by (auto simp: newcomers_def)
  have "\<exists>i<VGIC_TYPER_LR_NUM st. \<not> bit (list_regs_map st v) i" if "desc_id (irq_desc st v irq) = VM_INVALID_DESC_ID"
  proof -
    have "0 < idle v st" using room that by (simp add: nc)
    then show ?thesis by (auto simp: idle_def card_gt_0_iff)
  qed
  then have room': "desc_id (irq_desc st v irq) \<noteq> VM_INVALID_DESC_ID \<or> (\<exists>i<VGIC_TYPER_LR_NUM st. \<not> bit (list_regs_map st v) i)"
    by blast
  note goal = that
  show thesis
  proof (rule inject_place[OF wf irq room'])
    fix ret :: int and i lr d
    let ?st = "place_lr v irq i lr d st"
    assume i: "i < VGIC_TYPER_LR_NUM st" "0 \<le> ret" "vgic_inject_virq_vcpuif v irq st = (ret, ?st)"
      and d: "injected_desc i (irq_desc st v irq) d" "vINTID lr = of_nat irq" "bit (lr_state lr) 0"
      and own: "bit (list_regs_map st v) i \<Longrightarrow> desc_id (irq_desc st v irq) = of_nat i \<and> vINTID (lr_decode (ich_lr st i)) = of_nat irq"
      and free: "\<not> bit (list_regs_map st v) i \<Longrightarrow> desc_id (irq_desc st v irq) = VM_INVALID_DESC_ID"
      and wf': "lr_wf v ?st"
    have i8: "i < 8" "i < 64" using i(1) lr_wfD(1)[OF wf] by simp_all
    note p = place_lr_presents[OF i(1) i8(2) d(2,3)]
    have "{j. j < VGIC_TYPER_LR_NUM ?st \<and> \<not> bit (list_regs_map ?st v) j}
        = {j. j < VGIC_TYPER_LR_NUM st \<and> \<not> bit (list_regs_map st v) j} - {i}"
      using place_lr_map[OF i8(2)] by auto
    then have "idle v ?st = idle v st - (if bit (list_regs_map st v) i then 0 else 1)"
      using i(1) unfolding idle_def by (simp add: card_Diff_singleton_if)
    moreover have "card (newcomers v {irq} st) = (if bit (list_regs_map st v) i then 0 else 1)"
      using own free lr_id_facts(2)[OF i8(1)] by (auto simp: nc)
    ultimately have cnt: "idle v ?st + card (newcomers v {irq} st) = idle v st" using room by simp
    have "placed v irq st ?st"
      unfolding placed_def using cnt own d(1) lr_id_facts(2)[OF i8(1)] p wf' by (simp add: same_config_def injected_desc_def)
    then show thesis using goal i by blast
  qed
qed

text \<open>Clearing the pending bit afterwards touches neither registers nor descriptors.\<close>

lemma masked_keeps [simp]:
  "irq_desc (for_masked (\<lambda>i. VGIC_TEST_AND_SET b i irq 32 on) m st) = irq_desc st"
  "list_regs_map (for_masked (\<lambda>i. VGIC_TEST_AND_SET b i irq 32 on) m st) = list_regs_map st"
  "ich_lr (for_masked (\<lambda>i. VGIC_TEST_AND_SET b i irq 32 on) m st) = ich_lr st"
  "same_config st (for_masked (\<lambda>i. VGIC_TEST_AND_SET b i irq 32 on) m st)"
proof -
  have "irq_desc (fold (\<lambda>i st. if bit m i then VGIC_TEST_AND_SET b i irq 32 on st else st) is s) = irq_desc s
    \<and> list_regs_map (fold (\<lambda>i st. if bit m i then VGIC_TEST_AND_SET b i irq 32 on st else st) is s) = list_regs_map s
    \<and> ich_lr (fold (\<lambda>i st. if bit m i then VGIC_TEST_AND_SET b i irq 32 on st else st) is s) = ich_lr s
    \<and> same_config s (fold (\<lambda>i st. if bit m i then VGIC_TEST_AND_SET b i irq 32 on st else st) is s)" for "is" s
    by (induction "is" arbitrary: s) (simp_all add: VGIC_TEST_AND_SET_def set_gicr_word_def set_gicd_word_def same_config_def)
  then show "irq_desc (for_masked (\<lambda>i. VGIC_TEST_AND_SET b i irq 32 on) m st) = irq_desc st"
    "list_regs_map (for_masked (\<lambda>i. VGIC_TEST_AND_SET b i irq 32 on) m st) = list_regs_map st"
    "ich_lr (for_masked (\<lambda>i. VGIC_TEST_AND_SET b i irq 32 on) m st) = ich_lr st"
    "same_config st (for_masked (\<lambda>i. VGIC_TEST_AND_SET b i irq 32 on) m st)"
    by (simp_all add: for_masked_def)
qed

lemma regs_cong:
  assumes "irq_desc st' v = irq_desc st v" "list_regs_map st' v = list_regs_map st v" "ich_lr st' = ich_lr st" "same_config st st'"
  shows "lr_wf v st' = lr_wf v st" "presented v irq st' = presented v irq st" "idle v st' = idle v st"
    "newcomers v I st' = newcomers v I st"
  using assms by (auto simp: lr_wf_def presented_def idle_def newcomers_def same_config_def)

lemma placed_twice:
  assumes "placed v irq st st1" "placed v irq st1 st2"
  shows "placed v irq st st2"
proof -
  have "newcomers v {irq} st1 = {}" using assms(1) by (auto simp: placed_def newcomers_def)
  then show ?thesis using assms by (auto simp: placed_def same_config_def)
qed

lemma placed_put_src:
  assumes "placed v irq st st'"
  shows "placed v irq st (put_desc v irq ((irq_desc st' v irq)\<lparr>src_cpu := s\<rparr>) st')" (is "placed v irq st ?st")
proof -
  have "lr_wf v ?st = lr_wf v st'" "presented v irq' ?st = presented v irq' st'" "idle v ?st = idle v st'" for irq'
    by (auto simp: lr_wf_def presented_def idle_def put_desc_def Let_def)
  then show ?thesis using assms by (simp add: placed_def same_config_def put_desc_def)
qed

lemma placed_clear:
  assumes p: "placed v irq st st1" and v: "v < vcpu_num st" "v < 32"
  shows "flushed v {irq} st (VGIC_UNSET_PENDING irq (push_bit v 1) st1)"
proof -
  let ?st = "VGIC_UNSET_PENDING irq (push_bit v 1) st1"
  have d: "?st = for_masked (\<lambda>i. VGIC_TEST_AND_SET Pending i irq 32 False) (push_bit v 1) st1"
    by (simp add: vgic_masked_defs)
  have k: "irq_desc ?st v = irq_desc st1 v" "list_regs_map ?st v = list_regs_map st1 v" "ich_lr ?st = ich_lr st1" "same_config st1 ?st"
    unfolding d by simp_all
  have bits: "virq_bit_of b v irq' ?st \<longleftrightarrow> (if b = Pending \<and> irq' = irq then False else virq_bit_of b v irq' st)" for b irq'
    using v p unfolding d virq_bit_of_masked bit_self by (auto simp: placed_def same_config_def virq_bit_of_def)
  have sc: "same_config st ?st" using p k(4) by (simp add: placed_def same_config_def)
  show ?thesis
    unfolding flushed_def bits regs_cong[OF k] k(1) using p sc by (simp add: placed_def)
qed

lemma placed_active:
  assumes "flushed v I st st1"
  shows "flushed v I st (VGIC_SET_ACTIVE irq m st1)"
proof -
  have d: "VGIC_SET_ACTIVE irq m st1 = for_masked (\<lambda>i. VGIC_TEST_AND_SET Active i irq 32 True) m st1"
    by (simp add: vgic_masked_defs)
  have k: "irq_desc (VGIC_SET_ACTIVE irq m st1) v = irq_desc st1 v" "list_regs_map (VGIC_SET_ACTIVE irq m st1) v = list_regs_map st1 v"
    "ich_lr (VGIC_SET_ACTIVE irq m st1) = ich_lr st1" "same_config st1 (VGIC_SET_ACTIVE irq m st1)"
    unfolding d by simp_all
  have bits: "virq_bit_of b v irq' (VGIC_SET_ACTIVE irq m st1) \<longleftrightarrow> virq_bit_of b v irq' st1" if "b \<noteq> Active" for b irq'
    unfolding d virq_bit_of_masked using that by simp
  have sc: "same_config st (VGIC_SET_ACTIVE irq m st1)" using assms k(4) by (simp add: flushed_def same_config_def)
  show ?thesis unfolding flushed_def regs_cong[OF k] k(1) using assms sc bits by (simp add: flushed_def)
qed

text \<open>An interrupt with several source vCPUs is injected once for each of them.\<close>

lemma inject_sources_step:
  fixes src :: u32
  assumes wf: "lr_wf v st" and irq: "irq < VM_GLOBAL_VIRQ_NR st" and room: "card (newcomers v {irq} st) \<le> idle v st"
  shows "\<exists>src' st'. fold (\<lambda>i (src, st). if \<not> bit src i then (src, st)
        else case vgic_inject_virq_vcpuif v irq st of
          (ret, st) \<Rightarrow> (if 0 \<le> ret then src AND NOT (push_bit i 1) else src, st)) is (src, st) = (src', st')
    \<and> (\<forall>k. bit src' k \<longleftrightarrow> bit src k \<and> k \<notin> set is) \<and> (st' = st \<or> placed v irq st st')
    \<and> ((\<exists>i\<in>set is. bit src i) \<longrightarrow> placed v irq st st')"
  using assms
proof (induction "is" arbitrary: src st)
  case (Cons i "is")
  show ?case
  proof (cases "bit src i")
    case False
    then show ?thesis using Cons.IH[OF Cons.prems, of src] by auto
  next
    case True
    obtain ret st1 where s1: "vgic_inject_virq_vcpuif v irq st = (ret, st1)" "0 \<le> ret" "placed v irq st st1"
      using inject_step[OF Cons.prems] .
    have "newcomers v {irq} st1 = {}" using s1(3) by (auto simp: placed_def newcomers_def)
    then have pre: "lr_wf v st1" "irq < VM_GLOBAL_VIRQ_NR st1" "card (newcomers v {irq} st1) \<le> idle v st1"
      using s1(3) Cons.prems(2) by (simp_all add: placed_def same_config_def)
    let ?src = "src AND NOT (push_bit i 1)"
    have b: "bit ?src k \<longleftrightarrow> bit src k \<and> k \<noteq> i" for k using bit_and_not_exp[of src i k] by simp
    obtain src' st' where f: "fold (\<lambda>i (src, st). if \<not> bit src i then (src, st)
        else case vgic_inject_virq_vcpuif v irq st of
          (ret, st) \<Rightarrow> (if 0 \<le> ret then src AND NOT (push_bit i 1) else src, st)) is (?src, st1) = (src', st')"
      and r: "\<forall>k. bit src' k \<longleftrightarrow> bit ?src k \<and> k \<notin> set is" "st' = st1 \<or> placed v irq st1 st'"
      using Cons.IH[OF pre, of ?src] by blast
    have "placed v irq st st'" using r(2) s1(3) placed_twice by blast
    moreover have "\<forall>k. bit src' k \<longleftrightarrow> bit src k \<and> k \<notin> set (i # is)" using r(1) b by auto
    ultimately show ?thesis using f True s1(1,2) by auto
  qed
qed simp

lemma flush_local_one:
  assumes wf: "lr_wf v st" and irq: "irq < VM_GLOBAL_VIRQ_NR st" and room: "card (newcomers v {irq} st) \<le> idle v st"
    and v: "v < vcpu_num st" "v < 32" and src: "\<And>k. bit (src_cpu (irq_desc st v irq)) k \<Longrightarrow> k < vcpu_num st"
  shows "\<exists>st'. flush_local v (irq # irqs) st = flush_local v irqs st' \<and> flushed v {irq} st st'"
proof (cases "src_cpu (irq_desc st v irq) = 0")
  case True
  obtain ret st1 where "vgic_inject_virq_vcpuif v irq st = (ret, st1)" "0 \<le> ret" "placed v irq st st1"
    using inject_step[OF wf irq room] .
  then show ?thesis using placed_clear[OF _ v] True by auto
next
  case False
  let ?src = "src_cpu (irq_desc st v irq)"
  obtain src' st1 where s1: "inject_sources v irq ?src st = (src', st1)"
    "\<forall>k. bit src' k \<longleftrightarrow> bit ?src k \<and> k \<notin> set [0..<vcpu_num st]"
    "(\<exists>i\<in>set [0..<vcpu_num st]. bit ?src i) \<longrightarrow> placed v irq st st1"
    using inject_sources_step[OF wf irq room, of "[0..<vcpu_num st]" ?src] unfolding inject_sources_def by blast
  have "src' = 0" using s1(2) src by (intro bit_word_eqI) auto
  obtain k where "bit ?src k" using False by (auto simp: bit_eq_iff)
  then have "placed v irq st st1" using s1(3) src by auto
  then have "placed v irq st (put_desc v irq ((irq_desc st1 v irq)\<lparr>src_cpu := 0\<rparr>) st1)" by (rule placed_put_src)
  then show ?thesis using placed_clear[OF _ v] s1(1) \<open>src' = 0\<close> False by (auto simp: Let_def)
qed

lemma newcomers_split:
  "finite I \<Longrightarrow> irq \<notin> I \<Longrightarrow> card (newcomers v (insert irq I) st) = card (newcomers v {irq} st) + card (newcomers v I st)"
proof -
  assume "finite I" "irq \<notin> I"
  then have "newcomers v (insert irq I) st = newcomers v {irq} st \<union> newcomers v I st" "newcomers v {irq} st \<inter> newcomers v I st = {}"
    "finite (newcomers v I st)" "finite (newcomers v {irq} st)" by (auto simp: newcomers_def)
  then show ?thesis by (simp add: card_Un_disjoint)
qed

text \<open>What a list of interrupts needs to be flushed, and that it survives the first of them.\<close>

definition can_flush :: "nat \<Rightarrow> nat list \<Rightarrow> vgic \<Rightarrow> bool" where
  "can_flush v irqs st \<longleftrightarrow> lr_wf v st \<and> v < vcpu_num st \<and> v < 32 \<and> distinct irqs
     \<and> (\<forall>irq\<in>set irqs. irq < VM_GLOBAL_VIRQ_NR st) \<and> card (newcomers v (set irqs) st) \<le> idle v st"

lemma can_flush_next:
  assumes "can_flush v (irq # irqs) st" "flushed v {irq} st st'"
  shows "can_flush v irqs st'" "card (newcomers v {irq} st) \<le> idle v st"
proof -
  have s: "card (newcomers v (insert irq (set irqs)) st) = card (newcomers v {irq} st) + card (newcomers v (set irqs) st)"
    using newcomers_split[of "set irqs" irq v st] assms(1) by (simp add: can_flush_def)
  have "newcomers v (set irqs) st' = newcomers v (set irqs) st"
    using assms by (auto simp: flushed_def newcomers_def can_flush_def)
  then show "can_flush v irqs st'" "card (newcomers v {irq} st) \<le> idle v st"
    using assms s by (auto simp: can_flush_def flushed_def same_config_def)
qed

lemma can_flush_first: "can_flush v (irq # irqs) st \<Longrightarrow> card (newcomers v {irq} st) \<le> idle v st"
  using newcomers_split[of "set irqs" irq v st] by (simp add: can_flush_def)

lemma flush_local_list:
  assumes "can_flush v irqs st" "\<And>irq k. irq \<in> set irqs \<Longrightarrow> bit (src_cpu (irq_desc st v irq)) k \<Longrightarrow> k < vcpu_num st"
  shows "\<exists>st'. flush_local v irqs st = (True, st') \<and> flushed v (set irqs) st st'"
  using assms
proof (induction irqs arbitrary: st)
  case Nil
  then show ?case using flushed_empty by (auto simp: can_flush_def)
next
  case (Cons irq irqs)
  note c = Cons.prems(1)
  obtain st1 where s1: "flush_local v (irq # irqs) st = flush_local v irqs st1" "flushed v {irq} st st1"
    using flush_local_one[OF _ _ can_flush_first[OF c]] c Cons.prems(2)[of irq] by (force simp: can_flush_def)
  have "k < vcpu_num st1" if "irq' \<in> set irqs" "bit (src_cpu (irq_desc st1 v irq')) k" for irq' k
  proof -
    have "irq_desc st1 v irq' = irq_desc st v irq'" "vcpu_num st1 = vcpu_num st"
      using that(1) s1(2) c by (auto simp: flushed_def same_config_def can_flush_def)
    then show ?thesis using Cons.prems(2)[of irq' k] that by simp
  qed
  then obtain st2 where "flush_local v irqs st1 = (True, st2)" "flushed v (set irqs) st1 st2"
    using Cons.IH[OF can_flush_next(1)[OF c s1(2)]] by blast
  then show ?case using s1 flushed_union[OF s1(2)] c by (auto simp: can_flush_def)
qed

lemma flush_shared_list:
  assumes "can_flush v irqs st"
  shows "\<exists>st'. flush_shared v irqs st = (True, st') \<and> flushed v (set irqs) st st'"
  using assms
proof (induction irqs arbitrary: st)
  case Nil
  then show ?case using flushed_empty by (auto simp: can_flush_def)
next
  case (Cons irq irqs)
  note c = Cons.prems
  have pre: "lr_wf v st" "irq < VM_GLOBAL_VIRQ_NR st" and v: "v < vcpu_num st" "v < 32" using c by (auto simp: can_flush_def)
  obtain ret st1 where s1: "vgic_inject_virq_vcpuif v irq st = (ret, st1)" "0 \<le> ret" "placed v irq st st1"
    using inject_step[OF pre can_flush_first[OF c]] .
  let ?st2 = "VGIC_UNSET_PENDING irq (push_bit v 1) st1"
  let ?st3 = "if VGIC_IRQ_TEST_TRIGGER_TYPE v (unat (virq_num (irq_desc ?st2 v irq))) ?st2 = VM_IRQ_LEVEL_TRIGGERED
      then VGIC_SET_ACTIVE irq (push_bit v 1) ?st2 else ?st2"
  have f: "flushed v {irq} st ?st3" using placed_clear[OF s1(3) v] placed_active by simp
  have "flush_shared v (irq # irqs) st = flush_shared v irqs ?st3" using s1(1,2) by (simp add: Let_def)
  moreover obtain st4 where "flush_shared v irqs ?st3 = (True, st4)" "flushed v (set irqs) ?st3 st4"
    using Cons.IH[OF can_flush_next(1)[OF c f]] by blast
  ultimately show ?case using flushed_union[OF f] c by (auto simp: can_flush_def)
qed

section \<open>The whole flush\<close>

text \<open>The interrupts of a vCPU that are pending and enabled, in some registers.\<close>

definition deliverable :: "nat \<Rightarrow> nat set \<Rightarrow> vgic \<Rightarrow> nat set" where
  "deliverable v W st = {irq. irq div 32 \<in> W \<and> virq_bit_of Pending v irq st \<and> virq_bit_of Enabled v irq st}"

lemma deliverable_finite: "finite W \<Longrightarrow> finite (deliverable v W st)"
proof -
  assume "finite W"
  then have "finite (\<Union>i\<in>W. {32 * i..<32 * i + 32})" by blast
  moreover have "deliverable v W st \<subseteq> (\<Union>i\<in>W. {32 * i..<32 * i + 32})"
    by (auto simp: deliverable_def intro!: bexI)
  ultimately show ?thesis by (rule rev_finite_subset)
qed

lemma word_irqs:
  assumes "i \<noteq> 0"
  shows "set (map (\<lambda>n. n + i * 32) (mask_irqs (gicd_virq (gicd st) Pending v i AND gicd_virq (gicd st) Enabled v i)))
    = deliverable v {i} st"
proof -
  let ?m = "gicd_virq (gicd st) Pending v i AND gicd_virq (gicd st) Enabled v i"
  have e: "(\<exists>n<32. bit ?m n \<and> irq = n + i * 32) \<longleftrightarrow> irq div 32 = i \<and> bit ?m (irq mod 32)" for irq
  proof
    assume "irq div 32 = i \<and> bit ?m (irq mod 32)"
    moreover have "irq = irq mod 32 + irq div 32 * 32" by simp
    ultimately show "\<exists>n<32. bit ?m n \<and> irq = n + i * 32" using mod_less_divisor[of 32 irq] zero_less_numeral by metis
  qed auto
  have "irq div 32 = i \<and> bit ?m (irq mod 32) \<longleftrightarrow> irq \<in> deliverable v {i} st" for irq
    using assms by (auto simp: deliverable_def virq_bit_of_bit bit_and_iff)
  moreover have "irq \<in> set (map (\<lambda>n. n + i * 32) (mask_irqs ?m)) \<longleftrightarrow> (\<exists>n<32. bit ?m n \<and> irq = n + i * 32)" for irq
    by (auto simp: mask_irqs_def)
  ultimately show ?thesis using e by blast
qed

lemma local_irqs: "set (mask_irqs (VGIC_GET_PENDING v 0 32 st AND VGIC_GET_ENABLED v 0 32 st)) = deliverable v {0} st"
  by (auto simp: mask_irqs_def deliverable_def VGIC_GET_PENDING_def VGIC_GET_ENABLED_def VGIC_GET_def vgic_consts virq_bit_of_bit
      bit_and_iff div_eq_0_iff)

lemma mask_irqs_distinct: "distinct (mask_irqs m)" "distinct (map (\<lambda>n. n + k) (mask_irqs m))"
  by (auto simp: mask_irqs_def distinct_map inj_on_def)

lemma deliverable_after:
  assumes "flushed v I st st'" "\<And>irq. irq \<in> I \<Longrightarrow> irq div 32 \<notin> W"
  shows "deliverable v W st' = deliverable v W st" "newcomers v (deliverable v W st) st' = newcomers v (deliverable v W st) st"
proof -
  have "virq_bit_of Pending v irq st' = virq_bit_of Pending v irq st" "irq_desc st' v irq = irq_desc st v irq" if "irq div 32 \<in> W" for irq
  proof -
    have "irq \<notin> I" using assms(2) that by blast
    then show "virq_bit_of Pending v irq st' = virq_bit_of Pending v irq st" "irq_desc st' v irq = irq_desc st v irq"
      using assms(1) by (simp_all add: flushed_def)
  qed
  then show "deliverable v W st' = deliverable v W st" "newcomers v (deliverable v W st) st' = newcomers v (deliverable v W st) st"
    using assms(1) by (auto simp: deliverable_def flushed_def newcomers_def)
qed

lemma newcomers_disjoint:
  assumes "finite I" "finite J" "I \<inter> J = {}"
  shows "card (newcomers v (I \<union> J) st) = card (newcomers v I st) + card (newcomers v J st)"
proof -
  have "newcomers v (I \<union> J) st = newcomers v I st \<union> newcomers v J st" "newcomers v I st \<inter> newcomers v J st = {}"
    "finite (newcomers v I st)" "finite (newcomers v J st)" using assms by (auto simp: newcomers_def)
  then show ?thesis by (simp add: card_Un_disjoint)
qed

lemma deliverable_insert:
  assumes "i \<notin> W"
  shows "deliverable v (insert i W) st = deliverable v {i} st \<union> deliverable v W st" "deliverable v {i} st \<inter> deliverable v W st = {}"
  using assms by (auto simp: deliverable_def)

lemma flush_words_all:
  assumes "distinct is" "0 \<notin> set is" "\<And>i. i \<in> set is \<Longrightarrow> 32 * i + 32 \<le> VM_GLOBAL_VIRQ_NR st"
    "lr_wf v st" "v < vcpu_num st" "v < 32" "card (newcomers v (deliverable v (set is) st) st) \<le> idle v st"
  shows "flushed v (deliverable v (set is) st) st (flush_words v is st)"
  using assms
proof (induction "is" arbitrary: st)
  case Nil
  then show ?case using flushed_empty by (simp add: deliverable_def)
next
  case (Cons i "is")
  let ?D = "deliverable v {i} st" and ?R = "deliverable v (set is) st"
  have i: "i \<notin> set is" "i \<noteq> 0" "32 * i + 32 \<le> VM_GLOBAL_VIRQ_NR st" using Cons.prems(1-3) by auto
  note ins = deliverable_insert[OF i(1), of v st]
  have fin: "finite ?D" "finite ?R" by (auto intro: deliverable_finite)
  have cnt: "card (newcomers v ?D st) + card (newcomers v ?R st) \<le> idle v st"
    using Cons.prems(7) newcomers_disjoint[OF fin ins(2)] ins(1) by simp
  let ?m = "gicd_virq (gicd st) Pending v i AND gicd_virq (gicd st) Enabled v i"
  have "irq < VM_GLOBAL_VIRQ_NR st" if "irq \<in> ?D" for irq
  proof -
    have "irq = 32 * i + irq mod 32" using that by (auto simp: deliverable_def)
    then show ?thesis using i(3) by (metis mod_less_divisor zero_less_numeral nat_add_left_cancel_less order_less_le_trans)
  qed
  then have can: "can_flush v (map (\<lambda>n. n + i * 32) (mask_irqs ?m)) st"
    unfolding can_flush_def word_irqs[OF i(2)] using Cons.prems(4-6) cnt mask_irqs_distinct(2) by simp
  obtain st1 where s1: "flush_shared v (map (\<lambda>n. n + i * 32) (mask_irqs ?m)) st = (True, st1)" "flushed v ?D st st1"
    using flush_shared_list[OF can] unfolding word_irqs[OF i(2)] by blast
  have out: "irq div 32 \<notin> set is" if "irq \<in> ?D" for irq using that i(1) by (auto simp: deliverable_def)
  note after = deliverable_after[OF s1(2) out]
  have "card (newcomers v (deliverable v (set is) st1) st1) \<le> idle v st1"
    using cnt s1(2) after by (simp add: flushed_def)
  moreover have "VM_GLOBAL_VIRQ_NR st1 = VM_GLOBAL_VIRQ_NR st" "vcpu_num st1 = vcpu_num st" "lr_wf v st1"
    using s1(2) by (simp_all add: flushed_def same_config_def)
  ultimately have "flushed v ?R st1 (flush_words v is st1)"
    using Cons.IH[of st1] Cons.prems(1-3,5,6) after(1) by simp
  then have "flushed v (?D \<union> ?R) st (flush_words v is st1)" using flushed_union[OF s1(2) _ ins(2) fin] by blast
  then show ?case using s1(1) ins(1) by (simp add: Let_def)
qed

lemma flush_flushed:
  assumes wf: "lr_wf v st" and v: "v < vcpu_num st" "v < 32" and nr: "32 \<le> VM_GLOBAL_VIRQ_NR st"
    and src: "\<And>irq k. irq < 32 \<Longrightarrow> bit (src_cpu (irq_desc st v irq)) k \<Longrightarrow> k < vcpu_num st"
    and room: "card (newcomers v (deliverable v {..<VM_GLOBAL_VIRQ_NR st div 32} st) st) \<le> idle v st"
  shows "\<exists>st'. virt_irq_flush_vgic v st = (0, st') \<and> flushed v (deliverable v {..<VM_GLOBAL_VIRQ_NR st div 32} st) st st'"
proof -
  let ?n = "VM_GLOBAL_VIRQ_NR st div 32"
  let ?L = "deliverable v {0} st" and ?R = "deliverable v (set [1..<?n]) st"
  let ?m = "VGIC_GET_PENDING v 0 32 st AND VGIC_GET_ENABLED v 0 32 st"
  have W: "{..<?n} = insert 0 (set [1..<?n])" using nr by (auto simp: less_eq_div_iff_mult_less_eq)
  note ins = deliverable_insert[of 0 "set [1..<?n]" v st, simplified]
  have fin: "finite ?L" "finite ?R" by (auto intro: deliverable_finite)
  have D: "deliverable v {..<?n} st = ?L \<union> ?R" "?L \<inter> ?R = {}" unfolding W using deliverable_insert[of 0 "set [1..<?n]" v st] by auto
  have cnt: "card (newcomers v ?L st) + card (newcomers v ?R st) \<le> idle v st"
    using room newcomers_disjoint[OF fin D(2)] D(1) by simp
  have can: "can_flush v (mask_irqs ?m) st"
    unfolding can_flush_def local_irqs using wf v cnt mask_irqs_distinct(1) nr by (auto simp: deliverable_def div_eq_0_iff)
  have "bit (src_cpu (irq_desc st v irq)) k \<Longrightarrow> k < vcpu_num st" if "irq \<in> set (mask_irqs ?m)" for irq k
    using src[of irq k] that by (auto simp: mask_irqs_def)
  then obtain st1 where s1: "flush_local v (mask_irqs ?m) st = (True, st1)" "flushed v ?L st st1"
    using flush_local_list[OF can] unfolding local_irqs by blast
  have out: "irq div 32 \<notin> set [1..<?n]" if "irq \<in> ?L" for irq using that by (auto simp: deliverable_def)
  note after = deliverable_after[OF s1(2) out]
  have k1: "VM_GLOBAL_VIRQ_NR st1 = VM_GLOBAL_VIRQ_NR st" "vcpu_num st1 = vcpu_num st" "lr_wf v st1" "idle v st1 + card (newcomers v ?L st) = idle v st"
    using s1(2) by (simp_all add: flushed_def same_config_def)
  have b: "32 * i + 32 \<le> VM_GLOBAL_VIRQ_NR st1" if "i \<in> set [1..<?n]" for i
    using that k1(1) by (simp add: less_eq_div_iff_mult_less_eq Suc_le_eq[symmetric] algebra_simps)
  have "flushed v ?R st1 (flush_words v [1..<?n] st1)"
    using flush_words_all[of "[1..<?n]" st1 v, OF _ _ b] k1 v cnt after by simp
  then have "flushed v (?L \<union> ?R) st (flush_words v [1..<?n] st1)" using flushed_union[OF s1(2) _ D(2) fin] by blast
  then show ?thesis using s1(1) k1(1) unfolding D(1) by (simp add: virt_irq_flush_vgic_def)
qed

text \<open>C8: the flush loses no interrupt while list registers last. When descriptors and
  registers agree and there are at least as many idle registers as deliverable
  interrupts without one, \<^verbatim>\<open>virt_irq_flush_vgic\<close> presents every interrupt of the
  vCPU that is pending and enabled, clears exactly their pending bits, keeps
  what was presented before, and keeps descriptors and registers in agreement.\<close>

theorem flush_presents_all_pending:
  assumes "lr_wf v st" "v < vcpu_num st" "v < 32" "32 \<le> VM_GLOBAL_VIRQ_NR st"
    "\<And>irq k. irq < 32 \<Longrightarrow> bit (src_cpu (irq_desc st v irq)) k \<Longrightarrow> k < vcpu_num st"
    "card {irq. irq div 32 < VM_GLOBAL_VIRQ_NR st div 32 \<and> virq_bit_of Pending v irq st \<and> virq_bit_of Enabled v irq st
       \<and> desc_id (irq_desc st v irq) = VM_INVALID_DESC_ID} \<le> idle v st"
  shows "\<exists>st'. virt_irq_flush_vgic v st = (0, st') \<and> lr_wf v st'
    \<and> (\<forall>irq. irq div 32 < VM_GLOBAL_VIRQ_NR st div 32 \<longrightarrow> virq_bit_of Pending v irq st \<longrightarrow> virq_bit_of Enabled v irq st \<longrightarrow>
         presented v irq st' \<and> \<not> virq_bit_of Pending v irq st')
    \<and> (\<forall>irq. \<not> virq_bit_of Enabled v irq st \<longrightarrow> virq_bit_of Pending v irq st' = virq_bit_of Pending v irq st)
    \<and> (\<forall>irq. presented v irq st \<longrightarrow> presented v irq st')"
proof -
  have "newcomers v (deliverable v {..<VM_GLOBAL_VIRQ_NR st div 32} st) st =
      {irq. irq div 32 < VM_GLOBAL_VIRQ_NR st div 32 \<and> virq_bit_of Pending v irq st \<and> virq_bit_of Enabled v irq st
       \<and> desc_id (irq_desc st v irq) = VM_INVALID_DESC_ID}"
    by (auto simp: newcomers_def deliverable_def)
  then have room: "card (newcomers v (deliverable v {..<VM_GLOBAL_VIRQ_NR st div 32} st) st) \<le> idle v st" using assms(6) by simp
  have "\<exists>st'. virt_irq_flush_vgic v st = (0, st') \<and> flushed v (deliverable v {..<VM_GLOBAL_VIRQ_NR st div 32} st) st st'"
    by (rule flush_flushed[OF assms(1-4) _ room]) (rule assms(5))
  then obtain st' where st': "virt_irq_flush_vgic v st = (0, st')"
    "flushed v (deliverable v {..<VM_GLOBAL_VIRQ_NR st div 32} st) st st'" by blast
  have "presented v irq st' \<and> \<not> virq_bit_of Pending v irq st'"
    if "irq div 32 < VM_GLOBAL_VIRQ_NR st div 32" "virq_bit_of Pending v irq st" "virq_bit_of Enabled v irq st" for irq
    using st'(2) that by (simp add: flushed_def deliverable_def)
  moreover have "virq_bit_of Pending v irq st' = virq_bit_of Pending v irq st" if "\<not> virq_bit_of Enabled v irq st" for irq
    using st'(2) that by (simp add: flushed_def deliverable_def)
  ultimately show ?thesis using st' by (simp add: flushed_def)
qed

text \<open>Interrupts 27 and 40 are pending, four registers are idle.\<close>

definition vgic_pend :: vgic where
  "vgic_pend = VGIC_TEST_AND_SET Pending 0 40 32 True (VGIC_TEST_AND_SET Enabled 0 40 32 True
     (VGIC_TEST_AND_SET Pending 0 27 32 True (VGIC_TEST_AND_SET Enabled 0 27 32 True vgic_two)))"

theorem flush_presents_all_pending_witness:
  "\<exists>st. virt_irq_flush_vgic 0 vgic_pend = (0, st) \<and> presented 0 27 st \<and> presented 0 40 st"
proof -
  have bits: "virq_bit_of b 0 irq vgic_pend \<longleftrightarrow> (b = Pending \<or> b = Enabled) \<and> (irq = 27 \<or> irq = 40)" for b irq
  proof -
    have "\<not> virq_bit_of b 0 irq vgic_two" by (simp add: virq_bit_of_bit vgic_two_def gicr_new_def Let_def)
    then show ?thesis unfolding vgic_pend_def virq_bit_of_set by auto
  qed
  have regs: "irq_desc vgic_pend = irq_desc vgic_two" "list_regs_map vgic_pend = list_regs_map vgic_two"
    "ich_lr vgic_pend = ich_lr vgic_two" "same_config vgic_two vgic_pend"
    by (simp_all add: vgic_pend_def VGIC_TEST_AND_SET_def vgic_consts set_gicr_word_def set_gicd_word_def same_config_def)
  have wf: "lr_wf 0 vgic_pend" using regs_cong(1)[of vgic_pend 0 vgic_two] regs vgic_two_wf by simp
  have "idle 0 vgic_two = card {i :: nat. i < 4}" by (simp add: idle_def vgic_two_def)
  then have idle: "idle 0 vgic_pend = 4" using regs_cong(3)[of vgic_pend 0 vgic_two] regs by simp
  have "{irq. irq div 32 < VM_GLOBAL_VIRQ_NR vgic_pend div 32 \<and> virq_bit_of Pending 0 irq vgic_pend \<and> virq_bit_of Enabled 0 irq vgic_pend
       \<and> desc_id (irq_desc vgic_pend 0 irq) = VM_INVALID_DESC_ID} \<subseteq> {27, 40}"
    using bits by auto
  from card_mono[OF _ this] idle have room: "card {irq. irq div 32 < VM_GLOBAL_VIRQ_NR vgic_pend div 32
      \<and> virq_bit_of Pending 0 irq vgic_pend \<and> virq_bit_of Enabled 0 irq vgic_pend
      \<and> desc_id (irq_desc vgic_pend 0 irq) = VM_INVALID_DESC_ID} \<le> idle 0 vgic_pend" by simp
  have c: "vcpu_num vgic_pend = 2" "VM_GLOBAL_VIRQ_NR vgic_pend = 256" using regs(4) by (simp_all add: same_config_def)
  obtain st where st: "virt_irq_flush_vgic 0 vgic_pend = (0, st)"
    "\<forall>irq. irq div 32 < 8 \<longrightarrow> virq_bit_of Pending 0 irq vgic_pend \<longrightarrow> virq_bit_of Enabled 0 irq vgic_pend \<longrightarrow> presented 0 irq st"
    using flush_presents_all_pending[OF wf _ _ _ _ room] c regs(1) by (auto simp: vgic_two_def desc_none_def)
  then show ?thesis using st(2)[rule_format, of 27] st(2)[rule_format, of 40] bits by auto
qed

end
