(* ===== verification/Vgic_Raise.thy ===== *)
theory Vgic_Raise
  imports Vgic_Flush
begin

text \<open>
  Raising interrupts, taking finished ones back, address decoding and the saved
  context of the list registers.
\<close>

section \<open>The lock\<close>

text \<open>An interrupt number beyond the last one. \<^verbatim>\<open>vgic_set_virq_to_vcpu\<close> leaves
  with -ENODEV while it holds the lock of the controller; every later attempt to
  raise an interrupt in the VM, or to synchronise the list registers, gets stuck.\<close>

theorem set_virq_invalid_keeps_lock:
  assumes "\<not> vgic_lock st" "VM_GLOBAL_VIRQ_NR st \<le> virq"
  shows "\<exists>st'. vgic_set_virq_to_vcpu v virq l st = Done (- ENODEV, st') \<and> vgic_lock st'
    \<and> (\<forall>v' virq' l'. vgic_set_virq_to_vcpu v' virq' l' st' = Assertion)
    \<and> (\<forall>v'. cpu_virq_sync_lock v' st' = Assertion \<and> cpu_virq_flush_lock v' st' = Assertion)"
  using assms by (simp add: vgic_set_virq_to_vcpu_def VGIC_GET_VIRQ_DESC_def cpu_virq_sync_lock_def cpu_virq_flush_lock_def
      with_lock_def Let_def)

theorem set_virq_invalid_keeps_lock_witness:
  "\<exists>st. vgic_set_virq_to_vcpu 0 300 1 vgic_two = Done (- ENODEV, st) \<and> vgic_set_virq_to_vcpu 1 40 1 st = Assertion"
  using set_virq_invalid_keeps_lock[of vgic_two 300 0 1] by auto

section \<open>The saved context\<close>

lemma hw_irq_keeps [simp]:
  "ich_lr (arch_hw_irq_enable n devs v st) = ich_lr st" "VGIC_TYPER_LR_NUM (arch_hw_irq_enable n devs v st) = VGIC_TYPER_LR_NUM st"
  by (induction devs arbitrary: st) (auto simp: arch_hw_irq_enable_def)

text \<open>The interrupt state of a vCPU survives a switch to another vCPU and back on
  hardware with at most eight list registers and at most seven priority bits:
  after a save and a load, whatever ran in between, the list registers, the
  active priorities and the control registers are those that were saved. With
  more than eight list registers none of them is restored, and with eight
  priority bits no active priority is.\<close>

theorem vgic_context_roundtrip:
  assumes "VGIC_TYPER_LR_NUM (fst s') = VGIC_TYPER_LR_NUM (fst s)" "VGIC_TYPER_PRIO_NUM (snd s') = VGIC_TYPER_PRIO_NUM (snd s)"
    "0 < VGIC_TYPER_LR_NUM (fst s)" "5 \<le> VGIC_TYPER_PRIO_NUM (snd s)" "vgicv3_state_save n devs v s ctxt = (ctxt', st1)"
    "vgicv3_state_load n devs v ctxt' s' = s2"
  shows "(\<forall>i<VGIC_TYPER_LR_NUM (fst s).
        ich_lr (fst s2) i = (if VGIC_TYPER_LR_NUM (fst s) \<le> 8 then ich_lr (fst s) i else ich_lr (fst s') i))
    \<and> (\<forall>j. j + 5 \<le> VGIC_TYPER_PRIO_NUM (snd s) \<longrightarrow>
        (if VGIC_TYPER_PRIO_NUM (snd s) \<le> 7 then ICH_AP0R (snd s2) j = ICH_AP0R (snd s) j \<and> ICH_AP1R (snd s2) j = ICH_AP1R (snd s) j
         else ICH_AP0R (snd s2) j = ICH_AP0R (snd s') j \<and> ICH_AP1R (snd s2) j = ICH_AP1R (snd s') j))
    \<and> ICH_VMCR_EL2 (snd s2) = ICH_VMCR_EL2 (snd s) \<and> ICH_HCR_EL2 (snd s2) = ICH_HCR_EL2 (snd s) \<and> ICC_SRE_EL1 (snd s2) = ICC_SRE_EL1 (snd s)"
  using assms by (auto simp: vgicv3_state_save_def vgicv3_state_load_def vgicv3_lrs_save_def vgicv3_lrs_load_def
      vgicv3_prios_save_def vgicv3_prios_load_def vgicv3_ctrls_save_def vgicv3_ctrls_load_def)

definition gich_zero :: gich_regs where
  "gich_zero = \<lparr>ICH_AP0R = (\<lambda>_. 0), ICH_AP1R = (\<lambda>_. 0), ICC_SRE_EL1 = 0, ICH_VMCR_EL2 = 0, ICH_HCR_EL2 = 0, VGIC_TYPER_PRIO_NUM = 5\<rparr>"

definition ctxt_zero :: gicv3_vcpuif_ctxt where
  "ctxt_zero = \<lparr>c_lr = (\<lambda>_. 0), c_ap0r = (\<lambda>_. 0), c_ap1r = (\<lambda>_. 0), icc_sre_el1 = 0, icc_ctlr_el1 = 0, ich_vmcr_el2 = 0, ich_hcr_el2 = 0\<rparr>"

theorem vgic_context_roundtrip_witness:
  "ich_lr (fst (vgicv3_state_load 256 [] 0 (fst (vgicv3_state_save 256 [] 0 (vgic_full, gich_zero) ctxt_zero))
      (vgic_full\<lparr>ich_lr := (\<lambda>_. 7)\<rparr>, gich_zero))) 0 = 40"
proof -
  have "VGIC_TYPER_LR_NUM vgic_full = 1" "ich_lr vgic_full 0 = 40" "VGIC_TYPER_PRIO_NUM gich_zero = 5"
    by (simp_all add: vgic_full_def gich_zero_def)
  then show ?thesis
    using vgic_context_roundtrip[of "(vgic_full\<lparr>ich_lr := (\<lambda>_. 7)\<rparr>, gich_zero)" "(vgic_full, gich_zero)" 256 "[]" 0 ctxt_zero,
        OF _ _ _ _ prod.collapse[symmetric] refl]
    by simp
qed

section \<open>The first register of the distributor\<close>

lemma test_and_set_local_gicd:
  assumes f: "gicd_flat (gicr_field_word b) st = (b', u, k)" and k: "k \<noteq> 0"
  shows "virq_bit_of c v irq (test_and_set_local b vcpu w on Priv_Gicd st)
      \<longleftrightarrow> (if c = b' \<and> v = u \<and> 32 * k \<le> irq \<and> irq < 32 * k + 32 \<and> bit w (irq - 32 * k) then on else virq_bit_of c v irq st)"
    and "gicr (test_and_set_local b vcpu w on Priv_Gicd st) = gicr st"
    and "gicd_flat j (test_and_set_local b vcpu w on Priv_Gicd st) = gicd_flat j st"
proof -
  let ?f = "\<lambda>n st. if bit w n then upd_priv b Priv_Gicd (upd_bit on n) (hw_follow b vcpu n on st) else st"
  have flat: "gicd_flat j (hw_follow b vcpu n on s) = gicd_flat j s" "gicd_flat j (set_gicd_word b' u k x s) = gicd_flat j s" for n s x j
    by (simp_all add: gicd_flat_def set_gicd_word_def)
  have "(virq_bit_of c v irq (fold ?f ns s) \<longleftrightarrow>
        (if c = b' \<and> v = u \<and> (\<exists>n\<in>set ns. bit w n \<and> irq = 32 * k + n) then on else virq_bit_of c v irq s))
      \<and> gicr (fold ?f ns s) = gicr s \<and> gicd_flat j (fold ?f ns s) = gicd_flat j s"
    if "gicd_flat (gicr_field_word b) s = (b', u, k)" "\<And>n. n \<in> set ns \<Longrightarrow> n < 32" for ns s
    using that
  proof (induction ns arbitrary: s)
    case (Cons n ns)
    let ?s = "hw_follow b vcpu n on s"
    let ?t = "set_gicd_word b' u k (upd_bit on n (gicd_virq (gicd s) b' u k)) ?s"
    have n: "n < 32" and ns: "\<And>m. m \<in> set ns \<Longrightarrow> m < 32" using Cons.prems(2) by auto
    have step: "?f n s = (if bit w n then ?t else s)" using Cons.prems(1) by (simp add: upd_priv_def flat)
    have one: "virq_bit_of c v irq ?t \<longleftrightarrow> (if c = b' \<and> v = u \<and> irq = 32 * k + n then on else virq_bit_of c v irq s)"
      using virq_bit_of_gicd_word[OF n k, of c v irq b' u on ?s] virq_bit_of_cong[of ?s s] by simp
    have t: "gicd_flat (gicr_field_word b) ?t = (b', u, k)" "gicr ?t = gicr s" "gicd_flat j ?t = gicd_flat j s"
      using Cons.prems(1) flat by (simp_all add: set_gicd_word_def gicd_flat_def)
    show ?case
    proof (cases "bit w n")
      case True
      then have e: "fold ?f (n # ns) s = fold ?f ns ?t" using step by simp
      have IH: "virq_bit_of c v irq (fold ?f ns ?t) \<longleftrightarrow>
          (if c = b' \<and> v = u \<and> (\<exists>n\<in>set ns. bit w n \<and> irq = 32 * k + n) then on else virq_bit_of c v irq ?t)"
        "gicr (fold ?f ns ?t) = gicr ?t" "gicd_flat j (fold ?f ns ?t) = gicd_flat j ?t"
        using Cons.IH[OF t(1) ns] by blast+
      show ?thesis unfolding e IH one t(2,3) using True by auto
    next
      case False
      then show ?thesis using Cons.IH[OF Cons.prems(1)] Cons.prems(2) by auto
    qed
  qed simp
  from this[OF f, of "[0..<32]"] show
    "virq_bit_of c v irq (test_and_set_local b vcpu w on Priv_Gicd st)
      \<longleftrightarrow> (if c = b' \<and> v = u \<and> 32 * k \<le> irq \<and> irq < 32 * k + 32 \<and> bit w (irq - 32 * k) then on else virq_bit_of c v irq st)"
    "gicr (test_and_set_local b vcpu w on Priv_Gicd st) = gicr st"
    "gicd_flat j (test_and_set_local b vcpu w on Priv_Gicd st) = gicd_flat j st"
    unfolding test_and_set_local_def by (auto intro!: bexI[of _ "irq - 32 * k"])
qed

text \<open>Several vCPUs write the same words.\<close>

lemma write_all_zero:
  assumes f: "gicd_flat (gicr_field_word b) st = (b', u, k)" and k: "k \<noteq> 0" and n: "0 < vcpu_num st"
  shows "virq_bit_of c v irq (write_all b 0 w on st)
      \<longleftrightarrow> (if c = b' \<and> v = u \<and> 32 * k \<le> irq \<and> irq < 32 * k + 32 \<and> bit w (irq - 32 * k) then on else virq_bit_of c v irq st)"
    and "gicr (write_all b 0 w on st) = gicr st"
proof -
  let ?f = "\<lambda>i. vgic_test_and_set_bit b i 0 w on Priv_Gicd"
  let ?P = "c = b' \<and> v = u \<and> 32 * k \<le> irq \<and> irq < 32 * k + 32 \<and> bit w (irq - 32 * k)"
  have f': "?f i s = test_and_set_local b i w on Priv_Gicd s" for i s by (simp add: vgic_test_and_set_bit_def)
  have "gicr (fold ?f is s) = gicr s
      \<and> (virq_bit_of c v irq (fold ?f is s) \<longleftrightarrow> (if ?P \<and> is \<noteq> [] then on else virq_bit_of c v irq s))"
    if "gicd_flat (gicr_field_word b) s = (b', u, k)" for "is" s
    using that
  proof (induction "is" arbitrary: s)
    case (Cons i "is")
    let ?t = "test_and_set_local b i w on Priv_Gicd s"
    note t = test_and_set_local_gicd[OF Cons.prems k, where vcpu = i and w = w and on = on]
    have e: "fold ?f (i # is) s = fold ?f is ?t" by (simp add: f')
    have IH: "gicr (fold ?f is ?t) = gicr ?t"
      "virq_bit_of c v irq (fold ?f is ?t) \<longleftrightarrow> (if ?P \<and> is \<noteq> [] then on else virq_bit_of c v irq ?t)"
      using Cons.IH[of ?t] t(3) Cons.prems by simp_all
    show ?case unfolding e IH t(1,2) by auto
  qed simp
  from this[OF f, of "[0..<vcpu_num st]"] show
    "virq_bit_of c v irq (write_all b 0 w on st) \<longleftrightarrow> (if ?P then on else virq_bit_of c v irq st)"
    "gicr (write_all b 0 w on st) = gicr st"
    using n unfolding write_all_def by auto
qed

text \<open>The first bit registers of the distributor (the private interrupts). The
  routines behind them take the distributor for a redistributor, so with the
  default of 256 interrupts a guest that writes GICD_ISENABLER0 does not enable
  a private interrupt of any vCPU but the shared interrupts 224 to 255 of vCPU 0,
  and one that writes GICD_ISACTIVER0 enables the shared interrupts 32 to 63 of
  vCPU 1.\<close>

theorem gicd_first_register_hits_other_interrupts:
  assumes "VM_GLOBAL_VIRQ_NR st = 256" "2 \<le> CONFIG_MAX_VCPU_PER_VM st" "0 < vcpu_num st" "n < 32"
  shows "(virq_bit_of Enabled 0 (224 + n) (snd (vgic_gicd_mem_write v 0x100 w st)) \<longleftrightarrow> bit w n \<or> virq_bit_of Enabled 0 (224 + n) st)
    \<and> (virq_bit_of Enabled 1 (32 + n) (snd (vgic_gicd_mem_write v 0x300 w st)) \<longleftrightarrow> bit w n \<or> virq_bit_of Enabled 1 (32 + n) st)
    \<and> gicr (snd (vgic_gicd_mem_write v 0x100 w st)) = gicr st \<and> gicr (snd (vgic_gicd_mem_write v 0x300 w st)) = gicr st"
proof -
  have e: "gicd_flat (gicr_field_word Enabled) st = (Enabled, 0, 7)"
    using assms(1,2) by (simp add: gicd_flat_def gicr_field_word_def Let_def)
  have a: "gicd_flat (gicr_field_word Active) st = (Enabled, 1, 1)"
    using assms(1,2) by (simp add: gicd_flat_def gicr_field_word_def Let_def)
  have w: "snd (vgic_gicd_mem_write v 0x100 w st) = write_all Enabled 0 w True st"
    "snd (vgic_gicd_mem_write v 0x300 w st) = write_all Active 0 w True st"
    using assms(1) by (simp_all add: vgic_gicd_mem_write_def write_set_def)
  note ee = write_all_zero[OF e _ assms(3)] and aa = write_all_zero[OF a _ assms(3)]
  show ?thesis unfolding w ee[simplified] aa[simplified] using assms(4) by auto
qed

theorem gicd_first_register_hits_other_interrupts_witness:
  "virq_bit_of Enabled 0 225 (snd (vgic_gicd_mem_write 1 0x100 2 vgic_two)) \<and> \<not> virq_bit_of Enabled 0 225 vgic_two
    \<and> \<not> virq_bit_of Enabled 1 1 (snd (vgic_gicd_mem_write 1 0x100 2 vgic_two))"
  using gicd_first_register_hits_other_interrupts[of vgic_two 1 1 2]
  by (simp add: virq_bit_of_bit) (simp add: vgic_two_def gicr_new_def Let_def)

section \<open>Address decoding\<close>

lemma unat_add_of_nat: "unat (a :: u32) + k < 2 ^ 32 \<Longrightarrow> unat (a + of_nat k) = unat a + k"
  using unat_add_no_wrap[of a "of_nat k"] by (simp add: unat_of_nat_small)

lemma gicr_new_frames:
  assumes "unat rb + 0x20000 * Suc j < 2 ^ 32"
  shows "unat (gicr_rd_base (gicr_new rb n j)) = unat rb + 0x20000 * j"
    "unat (gicr_sgi_base (gicr_new rb n j)) = unat rb + 0x20000 * j + 0x10000"
    "in_frame a (gicr_rd_base (gicr_new rb n j)) (gicr_rd_size (gicr_new rb n j))
       \<longleftrightarrow> unat rb + 0x20000 * j \<le> unat a \<and> unat a < unat rb + 0x20000 * j + 0x10000"
    "in_frame a (gicr_sgi_base (gicr_new rb n j)) (gicr_sgi_size (gicr_new rb n j))
       \<longleftrightarrow> unat rb + 0x20000 * j + 0x10000 \<le> unat a \<and> unat a < unat rb + 0x20000 * j + 0x20000"
proof -
  have "gicr_rd_base (gicr_new rb n j) = rb + of_nat (0x20000 * j)"
    by (simp add: gicr_new_def Let_def VGIC_RD_BASE_SIZE_def)
  then show r: "unat (gicr_rd_base (gicr_new rb n j)) = unat rb + 0x20000 * j"
    using unat_add_of_nat[of rb "0x20000 * j"] assms by simp
  have sz: "gicr_rd_size (gicr_new rb n j) = of_nat 0x10000" "gicr_sgi_size (gicr_new rb n j) = of_nat 0x10000"
    and sb: "gicr_sgi_base (gicr_new rb n j) = gicr_rd_base (gicr_new rb n j) + of_nat 0x10000"
    by (simp_all add: gicr_new_def Let_def VGIC_RD_BASE_SIZE_def)
  then show g: "unat (gicr_sgi_base (gicr_new rb n j)) = unat rb + 0x20000 * j + 0x10000"
    using unat_add_of_nat[of "gicr_rd_base (gicr_new rb n j)" "0x10000"] assms r by simp
  have "unat (gicr_rd_base (gicr_new rb n j) + gicr_rd_size (gicr_new rb n j)) = unat rb + 0x20000 * j + 0x10000"
    "unat (gicr_sgi_base (gicr_new rb n j) + gicr_sgi_size (gicr_new rb n j)) = unat rb + 0x20000 * j + 0x20000"
    unfolding sz using unat_add_of_nat[of "gicr_rd_base (gicr_new rb n j)" "0x10000"]
      unat_add_of_nat[of "gicr_sgi_base (gicr_new rb n j)" "0x10000"] assms r g by simp_all
  then show "in_frame a (gicr_rd_base (gicr_new rb n j)) (gicr_rd_size (gicr_new rb n j))
       \<longleftrightarrow> unat rb + 0x20000 * j \<le> unat a \<and> unat a < unat rb + 0x20000 * j + 0x10000"
    "in_frame a (gicr_sgi_base (gicr_new rb n j)) (gicr_sgi_size (gicr_new rb n j))
       \<longleftrightarrow> unat rb + 0x20000 * j + 0x10000 \<le> unat a \<and> unat a < unat rb + 0x20000 * j + 0x20000"
    using r g unfolding in_frame_def word_le_nat_alt word_less_nat_alt by simp_all
qed

text \<open>Address decoding. After \<^verbatim>\<open>vdev_gicv3_init\<close> with redistributors behind the
  distributor, the address at a given offset from the base of the redistributors
  belongs to exactly one vCPU: the first 64 KB of its 128 KB are its control
  frame, the second its private-interrupt frame, and the access gets the offset
  within the frame.\<close>

theorem gicr_frames_decode:
  assumes init: "vdev_gicv3_init (\<lambda>_. True) db ds rb st = (0, st')"
    and lay: "unat db + unat ds \<le> unat rb" "n = min (VGIC_RDIST_NUM st) (vcpu_num st)" "unat rb + 0x20000 * n < 2 ^ 32"
    and i: "i < n" "x < 0x20000"
  shows "vgic_frame (of_nat (unat rb + 0x20000 * i + x)) st'
    = Some (if x < 0x10000 then (GICR_RD i, of_nat x) else (GICR_SGI i, of_nat (x - 0x10000)))"
proof -
  define A where "A = unat rb + 0x20000 * i + x"
  have a: "A < unat rb + 0x20000 * n" using i by (simp add: A_def)
  have none: "List.find (\<lambda>i. \<not> True) [0..<min (VGIC_RDIST_NUM st) (vcpu_num st)] = None" by (simp add: find_None_iff)
  have st': "gicr st' j = gicr_new rb (vcpu_num st) j" if "j < n" for j
    using init that lay(2) none by (auto simp: vdev_gicv3_init_def Let_def vgicv3_lrs_init_def)
  have cfg: "VGIC_RDIST_NUM st' = VGIC_RDIST_NUM st" "vcpu_num st' = vcpu_num st" "gicd_base (gicd st') = db" "gicd_size (gicd st') = ds"
    using init none by (auto simp: vdev_gicv3_init_def Let_def vgicv3_lrs_init_def gicd_new_def)
  have a32: "unat (of_nat A :: u32) = A" and a64: "unat (of_nat A :: u64) = A"
    using a lay(3) by (simp_all add: unat_of_nat_small)
  have "(ucast (of_nat A :: u64) :: u32) = of_nat (unat (of_nat A :: u64))" by (simp only: of_nat_unat)
  then have uc: "(ucast (of_nat A :: u64) :: u32) = of_nat A" unfolding a64 .
  have fr: "unat rb + 0x20000 * Suc j < 2 ^ 32" if "j < n" for j using that lay(3) by simp
  let ?P = "\<lambda>j. in_frame (of_nat A) (gicr_sgi_base (gicr st' j)) (gicr_sgi_size (gicr st' j))
      \<or> in_frame (of_nat A) (gicr_rd_base (gicr st' j)) (gicr_rd_size (gicr st' j))"
  have P: "?P j \<longleftrightarrow> j = i" if "j < n" for j
  proof -
    have "?P j \<longleftrightarrow> 0x20000 * j \<le> 0x20000 * i + x \<and> 0x20000 * i + x < 0x20000 * j + 0x20000"
      unfolding st'[OF that] gicr_new_frames(3,4)[OF fr[OF that]] a32 by (auto simp: A_def)
    then show ?thesis using i(2) by auto
  qed
  have "List.find ?P [0..<n] = Some i" using P i(1) by (auto simp: find_upt_Some_iff)
  then have f: "List.find ?P [0..<min (VGIC_RDIST_NUM st') (vcpu_num st')] = Some i" unfolding cfg lay(2) .
  have base: "gicr_rd_base (gicr_new rb (vcpu_num st) i) = of_nat (unat rb + 0x20000 * i)"
    "gicr_sgi_base (gicr_new rb (vcpu_num st) i) = of_nat (unat rb + 0x20000 * i + 0x10000)"
    by (simp_all add: gicr_new_def Let_def VGIC_RD_BASE_SIZE_def)
  have s: "in_frame (of_nat A) (gicr_sgi_base (gicr st' i)) (gicr_sgi_size (gicr st' i)) \<longleftrightarrow> \<not> x < 0x10000"
    unfolding st'[OF i(1)] gicr_new_frames(3,4)[OF fr[OF i(1)]] a32 using i(2) by (auto simp: A_def)
  have gd: "\<not> (of_nat A :: u64) < ucast (db + ds)"
  proof -
    have "unat (db + ds) \<le> unat db + unat ds" by (simp add: unat_word_ariths(1))
    also have "\<dots> \<le> A" using lay(1) by (simp add: A_def)
    finally have "unat (ucast (db + ds) :: u64) \<le> A" unfolding unat_ucast_32_64 .
    then show ?thesis using a64 by (simp add: word_less_nat_alt)
  qed
  have sub: "(of_nat A :: u32) - of_nat (unat rb + 0x20000 * i) = of_nat x"
    "\<not> x < 0x10000 \<Longrightarrow> (of_nat A :: u32) - of_nat (unat rb + 0x20000 * i + 0x10000) = of_nat (x - 0x10000)"
    by (simp_all add: of_nat_diff A_def)
  show ?thesis
    unfolding A_def[symmetric] vgic_frame_def cfg using gd f s sub by (simp add: get_vcpu_gicr_type_def uc st'[OF i(1)] base)
qed

theorem gicr_frames_decode_witness:
  "\<exists>st. vdev_gicv3_init (\<lambda>_. True) 0x8000000 0x10000 0x80A0000 vgic_two = (0, st)
    \<and> vgic_frame 0x80D0100 st = Some (GICR_SGI 1, 0x100)"
proof -
  obtain st where st: "vdev_gicv3_init (\<lambda>_. True) 0x8000000 0x10000 0x80A0000 vgic_two = (0, st)"
    by (simp add: vdev_gicv3_init_def Let_def upt_rec)
  have "vgic_frame (of_nat (unat (0x80A0000 :: u32) + 0x20000 * 1 + 0x10100)) st
      = Some (if 0x10100 < (0x10000 :: nat) then (GICR_RD 1, of_nat 0x10100) else (GICR_SGI 1, of_nat (0x10100 - 0x10000)))"
    by (rule gicr_frames_decode[OF st, of 2]) simp_all
  then have "vgic_frame 0x80D0100 st = Some (GICR_SGI 1, 0x100)" by simp
  then show ?thesis using st by blast
qed

end
