(* ===== verification/Vgic_Sync.thy ===== *)
theory Vgic_Sync
  imports Vgic_Flush
begin

text \<open>
  The return path of the list registers (\<^verbatim>\<open>virt_irq_sync_vgic\<close> in \<^verbatim>\<open>vgic_common.c\<close>) and the
  software generated interrupts of the guest (\<^verbatim>\<open>vgicv3_raise_sgi\<close> in \<^verbatim>\<open>vgic_v3.c\<close>).
\<close>

section \<open>Finished list registers\<close>

lemma INT_BIT_test: "i < 8 \<Longrightarrow> INT_BIT i AND w \<noteq> 0 \<longleftrightarrow> bit w i"
  by (simp add: INT_BIT_small and_exp_eq_0)

lemma sync_level_cases:
  obtains "sync_level v irq d st = st"
  | m b on where "sync_level v irq d st = for_masked (\<lambda>i. VGIC_TEST_AND_SET b i irq 32 on) m
      (for_masked (\<lambda>i. VGIC_TEST_AND_SET Active i irq 32 False) m st)"
proof (cases "VGIC_IRQ_TEST_TRIGGER_TYPE v (unat (virq_num d)) st = VM_IRQ_LEVEL_TRIGGERED")
  case True
  then show ?thesis using that(2)
    unfolding sync_level_def Let_def vgic_masked_defs if_P[OF True] by (cases "level_triggered d = 1") metis+
qed (simp add: sync_level_def that(1))

lemma sync_level_keeps:
  "irq_desc (sync_level v irq d st) = irq_desc st" "list_regs_map (sync_level v irq d st) = list_regs_map st"
  "ich_lr (sync_level v irq d st) = ich_lr st" "same_config st (sync_level v irq d st)"
proof -
  have t: "same_config a b \<Longrightarrow> same_config b c \<Longrightarrow> same_config a c" and r: "same_config a a" for a b c
    by (simp_all add: same_config_def)
  show "same_config st (sync_level v irq d st)"
  proof (rule sync_level_cases[of v irq d st])
    fix m b on assume e: "sync_level v irq d st = for_masked (\<lambda>i. VGIC_TEST_AND_SET b i irq 32 on) m
      (for_masked (\<lambda>i. VGIC_TEST_AND_SET Active i irq 32 False) m st)"
    show ?thesis unfolding e by (rule t[OF masked_keeps(4) masked_keeps(4)])
  qed (simp add: r)
qed (rule sync_level_cases[of v irq d st]; simp)+

text \<open>Taking one register back.\<close>

lemma sync_lr_step:
  assumes wf: "lr_wf v st" and i: "bit (list_regs_map st v) i"
  shows "lr_wf v (sync_lr v i st)" "same_config st (sync_lr v i st)"
    "bit (list_regs_map (sync_lr v i st) v) j \<longleftrightarrow> bit (list_regs_map st v) j \<and> j \<noteq> i"
    "j \<noteq> i \<Longrightarrow> ich_lr (sync_lr v i st) j = ich_lr st j"
proof -
  note w = lr_wfD[OF wf]
  obtain irq where irq: "irq < VM_GLOBAL_VIRQ_NR st" "vINTID (lr_decode (ich_lr st i)) = of_nat irq" "desc_id (irq_desc st v irq) = of_nat i"
    using w(6)[OF i] by blast
  have i8: "i < 8" using w(1,4) i by (meson order_less_le_trans)
  have u: "unat (of_nat irq :: u32) = irq" using irq(1) w(2) by (intro unat_of_nat_small) simp
  let ?s0 = "vgicv3_write_lr i 0 st"
  let ?d = "irq_desc st v irq"
  let ?s1 = "sync_level v irq ?d ?s0"
  note k1 = sync_level_keeps[where v = v and irq = irq and d = "?d" and st = "?s0"]
  let ?st = "sync_lr v i st"
  have st: "?st = put_desc v irq (?d\<lparr>desc_id := VM_INVALID_DESC_ID\<rparr>) (VGIC_LIST_REGS_UNSET i v ?s1)"
    using i8 irq(1,2) u k1(1)
    by (simp add: sync_lr_def Let_def vgicv3_read_lr_def VGIC_GET_VIRQ_DESC_def vgicv3_write_lr_def VGIC_LIST_REGS_UNSET_def)
  have desc: "irq_desc ?st v irq' = (if irq' = irq then ?d\<lparr>desc_id := VM_INVALID_DESC_ID\<rparr> else irq_desc st v irq')" for irq'
    unfolding st using k1(1) by (simp add: put_desc_def VGIC_LIST_REGS_UNSET_def vgicv3_write_lr_def)
  have map: "bit (list_regs_map ?st v) j \<longleftrightarrow> bit (list_regs_map st v) j \<and> j \<noteq> i" for j
    unfolding st using k1(2) i8 by (simp add: put_desc_def VGIC_LIST_REGS_UNSET_def INT_BIT_small bit_and_not_exp vgicv3_write_lr_def)
  have lr: "j \<noteq> i \<Longrightarrow> ich_lr ?st j = ich_lr st j" for j
    unfolding st using k1(3) by (simp add: put_desc_def VGIC_LIST_REGS_UNSET_def vgicv3_write_lr_def)
  have sc: "same_config st ?st"
    unfolding st using k1(4) by (simp add: put_desc_def VGIC_LIST_REGS_UNSET_def same_config_def vgicv3_write_lr_def)
  show "bit (list_regs_map ?st v) j \<longleftrightarrow> bit (list_regs_map st v) j \<and> j \<noteq> i" "j \<noteq> i \<Longrightarrow> ich_lr ?st j = ich_lr st j" "same_config st ?st"
    using map lr sc by auto
  have ne: "unat (desc_id (irq_desc st v irq')) \<noteq> i" if "irq' < VM_GLOBAL_VIRQ_NR st" "irq' \<noteq> irq" "desc_id (irq_desc st v irq') \<noteq> VM_INVALID_DESC_ID" for irq'
    using w(5)[OF that(1,3)] irq(1,2) that(1,2) w(2) of_nat_irq_eq[of irq' irq] by auto
  have own: "irq' \<noteq> irq" if "desc_id (irq_desc st v irq') = of_nat j" "j \<noteq> i" "j < 8" for irq' j
    using that irq(3) lr_id_facts(1)[OF i8] lr_id_facts(1)[OF that(3)] by metis
  show "lr_wf v ?st"
    unfolding lr_wf_def map Let_def
  proof (intro conjI allI impI)
    fix irq' assume "irq' < VM_GLOBAL_VIRQ_NR ?st"
    then have n: "irq' < VM_GLOBAL_VIRQ_NR st" using sc by (simp add: same_config_def)
    show "virq_num (irq_desc ?st v irq') = of_nat irq'" using w(3)[OF n] by (auto simp: desc)
    show "desc_id (irq_desc ?st v irq') = VM_INVALID_DESC_ID
      \<or> (bit (list_regs_map st v) (unat (desc_id (irq_desc ?st v irq'))) \<and> unat (desc_id (irq_desc ?st v irq')) \<noteq> i)
        \<and> vINTID (lr_decode (ich_lr ?st (unat (desc_id (irq_desc ?st v irq'))))) = of_nat irq'"
      using w(5)[OF n] ne[OF n] lr by (auto simp: desc)
  next
    fix j assume j: "bit (list_regs_map st v) j \<and> j \<noteq> i"
    then show "j < VGIC_TYPER_LR_NUM ?st" using w(4) sc by (simp add: same_config_def)
    then have j8: "j < 8" using w(1) sc by (simp add: same_config_def)
    show "\<exists>irq'<VM_GLOBAL_VIRQ_NR ?st. vINTID (lr_decode (ich_lr ?st j)) = of_nat irq' \<and> desc_id (irq_desc ?st v irq') = of_nat j"
      using w(6)[of j] j lr[of j] own[of _ j] j8 sc by (auto simp: desc same_config_def)
  qed (use w(1,2) sc in \<open>auto simp: same_config_def\<close>)
qed

lemma sync_lrs:
  assumes "lr_wf v st" "distinct is" "\<And>i. i \<in> set is \<Longrightarrow> bit (list_regs_map st v) i"
  shows "lr_wf v (fold (sync_lr v) is st) \<and> same_config st (fold (sync_lr v) is st)
    \<and> (\<forall>j. bit (list_regs_map (fold (sync_lr v) is st) v) j \<longleftrightarrow> bit (list_regs_map st v) j \<and> j \<notin> set is)
    \<and> (\<forall>j. j \<notin> set is \<longrightarrow> ich_lr (fold (sync_lr v) is st) j = ich_lr st j)"
  using assms
proof (induction "is" arbitrary: st)
  case (Cons i "is")
  have i: "bit (list_regs_map st v) i" using Cons.prems(3) by simp
  note s = sync_lr_step[OF Cons.prems(1) i]
  have d: "distinct is" "i \<notin> set is" using Cons.prems(2) by simp_all
  have "j \<in> set is \<Longrightarrow> bit (list_regs_map (sync_lr v i st) v) j" for j using s(3)[of j] Cons.prems(3)[of j] d(2) by auto
  note ih = Cons.IH[OF s(1) d(1) this]
  then show ?case using s(2-4) by (simp add: same_config_def)
qed (simp add: same_config_def)



section \<open>Software generated interrupts\<close>

text \<open>What the rest of the controller sees of raising a private interrupt in a vCPU that does not run here.\<close>

definition raised :: "nat \<Rightarrow> nat set \<Rightarrow> vgic \<Rightarrow> vgic \<Rightarrow> bool" where
  "raised irq W st st' \<longleftrightarrow> \<not> vgic_lock st' \<and> same_config st st' \<and> current_vcpu st' = current_vcpu st
     \<and> (\<forall>b w irq'. virq_bit_of b w irq' st' \<longleftrightarrow>
          virq_bit_of b w irq' st \<or> b = Pending \<and> irq' = irq \<and> w \<in> W \<and> virq_bit_of Enabled w irq st)"

lemma raised_Un:
  "raised irq V st st1 \<Longrightarrow> raised irq W st1 st2 \<Longrightarrow> raised irq (V \<union> W) st st2"
  unfolding raised_def same_config_def by auto

lemma raised_empty: "\<not> vgic_lock st \<Longrightarrow> raised irq {} st st"
  by (simp add: raised_def same_config_def)

lemma masked_frame [simp]:
  "vgic_lock (for_masked (\<lambda>i. VGIC_TEST_AND_SET b i irq 32 on) m st) = vgic_lock st"
  "current_vcpu (for_masked (\<lambda>i. VGIC_TEST_AND_SET b i irq 32 on) m st) = current_vcpu st"
proof -
  have "vgic_lock (fold (\<lambda>i st. if bit m i then VGIC_TEST_AND_SET b i irq 32 on st else st) is s) = vgic_lock s
    \<and> current_vcpu (fold (\<lambda>i st. if bit m i then VGIC_TEST_AND_SET b i irq 32 on st else st) is s) = current_vcpu s" for "is" s
    by (induction "is" arbitrary: s) (simp_all add: VGIC_TEST_AND_SET_def set_gicr_word_def set_gicd_word_def)
  then show "vgic_lock (for_masked (\<lambda>i. VGIC_TEST_AND_SET b i irq 32 on) m st) = vgic_lock st"
    "current_vcpu (for_masked (\<lambda>i. VGIC_TEST_AND_SET b i irq 32 on) m st) = current_vcpu st"
    by (simp_all add: for_masked_def)
qed

lemma raise_private:
  assumes "\<not> vgic_lock st" "irq < 32" "irq < VM_GLOBAL_VIRQ_NR st" "i < vcpu_num st" "i < 32" "current_vcpu st \<noteq> Some i"
  shows "\<exists>st'. set_virq_to_vcpu i irq 1 st = Done (0, st') \<and> raised irq {i} st st' \<and> irq_desc st' = irq_desc st"
proof -
  let ?s = "st\<lparr>vgic_lock := True\<rparr>"
  have v: "virq_bit_of b w n (st'\<lparr>vgic_lock := l\<rparr>) = virq_bit_of b w n st'" "virq_bit_of b w n (st'\<lparr>vgic_lock := l, ipis := q\<rparr>) = virq_bit_of b w n st'"
    for b w n st' l q by (rule virq_bit_of_cong; simp)+
  have e: "vgic_is_virq_enabled irq (push_bit i 1) ?s = virq_bit_of Enabled i irq st"
    using virq_tests(1)[of i ?s irq] assms(3-5) by (simp only: v) simp
  show ?thesis
  proof (cases "virq_bit_of Enabled i irq st")
    case True
    define t where "t = VGIC_SET_PENDING irq (push_bit i 1) ?s"
    have t: "\<not> vgic_lock (t\<lparr>vgic_lock := False\<rparr>)" "current_vcpu t = current_vcpu st" "same_config ?s t" "irq_desc t = irq_desc st"
      "virq_bit_of b w n t \<longleftrightarrow> (if b = Pending \<and> n = irq \<and> w = i then True else virq_bit_of b w n st)" for b w n
      using assms(4,5) masked_keeps(4) unfolding t_def vgic_masked_defs
      by (simp_all only: masked_frame masked_keeps(1) virq_bit_of_masked bit_self v) auto
    have "set_virq_to_vcpu i irq 1 st = Done (0, let t' = t\<lparr>vgic_lock := False\<rparr> in if irq_pending_exist i t then t'\<lparr>ipis := ipis t' @ [i]\<rparr> else t')"
      using assms(1,2,3,6) e True t(2) t_def[symmetric, unfolded push_bit_of_1]
      by (simp add: set_virq_to_vcpu_def vgic_set_virq_to_vcpu_def VGIC_GET_VIRQ_DESC_def vgic_consts Let_def push_bit_of_1)
    then show ?thesis using t True by (auto simp: raised_def same_config_def v Let_def)
  next
    case False
    then have "set_virq_to_vcpu i irq 1 st = Done (0, st\<lparr>vgic_lock := False\<rparr>)"
      using assms(1,2,3) e by (simp add: set_virq_to_vcpu_def vgic_set_virq_to_vcpu_def VGIC_GET_VIRQ_DESC_def vgic_consts Let_def)
    then show ?thesis using False by (auto simp: raised_def same_config_def v)
  qed
qed

lemma raise_sgi_targets:
  assumes "\<not> vgic_lock st" "irq < 16" "irq < VM_GLOBAL_VIRQ_NR st" "distinct is" "vcpu_num st \<le> 32"
    "\<And>i. i \<in> set is \<Longrightarrow> i < vcpu_num st \<and> (bit m i \<longrightarrow> current_vcpu st \<noteq> Some i)"
  shows "\<exists>st'. raise_sgi_loop v irq m is st = Done (0, st') \<and> raised irq {i \<in> set is. bit m i} st st'
    \<and> (\<forall>i. src_cpu (irq_desc st' i irq) = (if i \<in> set is \<and> bit m i then src_cpu (irq_desc st i irq) OR push_bit v 1
          else src_cpu (irq_desc st i irq)))"
  using assms
proof (induction "is" arbitrary: st)
  case (Cons i "is")
  show ?case
  proof (cases "bit m i")
    case True
    let ?s = "put_desc i irq ((irq_desc st i irq)\<lparr>src_cpu := src_cpu (irq_desc st i irq) OR push_bit v 1\<rparr>) st"
    have s: "raised irq {} st ?s" using Cons.prems(1) by (auto simp: raised_def same_config_def put_desc_def virq_bit_of_def)
    have i: "i < vcpu_num st" "current_vcpu st \<noteq> Some i" using Cons.prems(6)[of i] True by simp_all
    obtain st1 where st1: "set_virq_to_vcpu i irq 1 ?s = Done (0, st1)" "raised irq {i} ?s st1" "irq_desc st1 = irq_desc ?s"
      using raise_private[of ?s irq i] Cons.prems(1,2,3,5) i by (auto simp: put_desc_def)
    have r: "raised irq {i} st st1" using raised_Un[OF s st1(2)] by simp
    then have c: "\<not> vgic_lock st1" "VM_GLOBAL_VIRQ_NR st1 = VM_GLOBAL_VIRQ_NR st" "vcpu_num st1 = vcpu_num st" "current_vcpu st1 = current_vcpu st"
      by (simp_all add: raised_def same_config_def)
    have "irq < VM_GLOBAL_VIRQ_NR st1" "distinct is" "vcpu_num st1 \<le> 32"
      "\<And>j. j \<in> set is \<Longrightarrow> j < vcpu_num st1 \<and> (bit m j \<longrightarrow> current_vcpu st1 \<noteq> Some j)"
      using Cons.prems(3,4,5,6) c by simp_all
    from Cons.IH[OF c(1) Cons.prems(2) this] obtain st' where st': "raise_sgi_loop v irq m is st1 = Done (0, st')"
      "raised irq {i \<in> set is. bit m i} st1 st'"
      "\<forall>j. src_cpu (irq_desc st' j irq) = (if j \<in> set is \<and> bit m j then src_cpu (irq_desc st1 j irq) OR push_bit v 1
          else src_cpu (irq_desc st1 j irq))" by auto
    have "{j \<in> set (i # is). bit m j} = {i} \<union> {i \<in> set is. bit m i}" using True by auto
    then have "raised irq {j \<in> set (i # is). bit m j} st st'" using raised_Un[OF r st'(2)] by simp
    moreover have "raise_sgi_loop v irq m (i # is) st = Done (0, st')"
      using True st1(1) st'(1) Cons.prems(3) by (simp add: VGIC_GET_VIRQ_DESC_def)
    ultimately show ?thesis using st'(3) st1(3) True Cons.prems(4) by (auto simp: put_desc_def)
  next
    case False
    have "{j \<in> set (i # is). bit m j} = {i \<in> set is. bit m i}" using False by auto
    moreover obtain st' where "raise_sgi_loop v irq m is st = Done (0, st')" "raised irq {i \<in> set is. bit m i} st st'"
      "\<forall>j. src_cpu (irq_desc st' j irq) = (if j \<in> set is \<and> bit m j then src_cpu (irq_desc st j irq) OR push_bit v 1
          else src_cpu (irq_desc st j irq))"
      using Cons.IH[OF Cons.prems(1-3) _ Cons.prems(5)] Cons.prems(4,6) by auto
    ultimately show ?thesis using False by auto
  qed
qed (simp add: raised_empty)

lemma bit_all_vcpus: "vcpu_num st < 32 \<Longrightarrow> bit (VGIC_ALL_VCPU_MASK st) i \<longleftrightarrow> i < vcpu_num st"
  by (auto simp: VGIC_ALL_VCPU_MASK_def push_bit_of_1 mask_eq_exp_minus_1[symmetric] bit_mask_iff)

lemma sgi_mask_bit:
  assumes "vcpu_num st \<le> 16" "i < vcpu_num st"
    "bit val 40 \<or> drop_bit 16 val AND 0xFF = 0 \<and> drop_bit 32 val AND 0xFF = 0 \<and> drop_bit 48 val AND 0xFF = 0"
  shows "bit (sgi_mask v val st) i \<longleftrightarrow> (if bit val 40 then i \<noteq> v else bit val i)"
  using assms by (auto simp: sgi_mask_def bit_and_iff bit_not_iff bit_all_vcpus bit_self push_bit_of_1 bit_take_bit_iff bit_unsigned_iff)

text \<open>
  C10: A guest that sends a software generated interrupt. A write to ICC_SGI1R by the running vCPU, either
  to all others or to a target list in the affinity group zero that leaves the sender out, returns 0 with
  the lock of the controller free; the interrupt becomes pending exactly for the targets that have enabled
  it, no other enable, pending or active bit of the VM changes, and the sender is recorded in the
  descriptor of each target and of no other vCPU.
\<close>

theorem raise_sgi_correct:
  assumes "\<not> vgic_lock st" "current_vcpu st = Some v" "vcpu_num st \<le> 16" "16 \<le> VM_GLOBAL_VIRQ_NR st"
    "bit val 40 \<or> \<not> bit val v \<and> drop_bit 16 val AND 0xFF = 0 \<and> drop_bit 32 val AND 0xFF = 0 \<and> drop_bit 48 val AND 0xFF = 0"
    "irq = unat (drop_bit 24 val AND 0xF)"
    "T = {i. i < vcpu_num st \<and> (if bit val 40 then i \<noteq> v else bit val i)}"
  shows "\<exists>st'. vgicv3_raise_sgi2vcpu v val st = Done (0, st') \<and> \<not> vgic_lock st'
    \<and> (\<forall>b w irq'. virq_bit_of b w irq' st' \<longleftrightarrow>
         virq_bit_of b w irq' st \<or> b = Pending \<and> irq' = irq \<and> w \<in> T \<and> virq_bit_of Enabled w irq st)
    \<and> (\<forall>w. src_cpu (irq_desc st' w irq) = (if w \<in> T then src_cpu (irq_desc st w irq) OR push_bit v 1 else src_cpu (irq_desc st w irq)))"
proof -
  let ?m = "sgi_mask v val st"
  have m: "i < vcpu_num st \<Longrightarrow> bit ?m i \<longleftrightarrow> (if bit val 40 then i \<noteq> v else bit val i)" for i
    using sgi_mask_bit[OF assms(3), of i val v] assms(5) by blast
  have T: "i \<in> set [0..<vcpu_num st] \<and> bit ?m i \<longleftrightarrow> i \<in> T" "{i \<in> set [0..<vcpu_num st]. bit ?m i} = T" for i
    unfolding assms(7) using m by auto
  have "unat (drop_bit 24 val AND 0xF :: u64) \<le> unat (0xF :: u64)" by (rule word_le_nat_alt[THEN iffD1]) (simp add: word_and_le1)
  then have irq: "irq < 16" using assms(6) by simp
  then have lim: "irq < VM_GLOBAL_VIRQ_NR st" "vcpu_num st \<le> 32" using assms(3,4) by simp_all
  have "i \<in> set [0..<vcpu_num st] \<Longrightarrow> i < vcpu_num st \<and> (bit ?m i \<longrightarrow> current_vcpu st \<noteq> Some i)" for i
    using m[of i] assms(2,5) by (auto split: if_splits)
  from raise_sgi_targets[OF assms(1) irq lim(1) distinct_upt[of 0 "vcpu_num st"] lim(2), where m = ?m and v = v, OF this, unfolded T]
  show ?thesis by (auto simp: vgicv3_raise_sgi2vcpu_def assms(6)[symmetric] raised_def)
qed

theorem raise_sgi_correct_witness:
  "\<exists>st. vgicv3_raise_sgi2vcpu 0 (2 ^ 40 + 3 * 2 ^ 24) (VGIC_TEST_AND_SET Enabled 1 3 32 True vgic_two) = Done (0, st)
    \<and> virq_bit_of Pending 1 3 st \<and> \<not> virq_bit_of Pending 0 3 st"
proof -
  let ?s = "VGIC_TEST_AND_SET Enabled 1 3 32 True vgic_two"
  have b: "bit (2 ^ 40 + 3 * 2 ^ 24 :: u64) 40" "unat (drop_bit 24 (2 ^ 40 + 3 * 2 ^ 24) AND 0xF :: u64) = 3"
    by (simp_all add: drop_bit_eq_div)
  have e: "virq_bit_of Enabled 1 3 ?s" "\<not> virq_bit_of Pending 0 3 ?s"
    by (simp_all add: virq_bit_of_set) (simp add: virq_bit_of_bit vgic_two_def gicr_new_def Let_def)
  have c: "\<not> vgic_lock ?s" "current_vcpu ?s = Some 0" "vcpu_num ?s = 2" "VM_GLOBAL_VIRQ_NR ?s = 256"
    by (simp_all add: VGIC_TEST_AND_SET_def vgic_consts set_gicr_word_def) (simp add: vgic_two_def)
  show ?thesis
    using raise_sgi_correct[OF c(1,2), of "2 ^ 40 + 3 * 2 ^ 24", OF _ _ _ refl refl] b e c by auto
qed

end
