(* ===== verification/Vm_Mem.thy ===== *)
theory Vm_Mem
  imports S2_Map Guest_Memory
begin

text \<open>
  The memory domain of a VM (\<^verbatim>\<open>subsys/zvm/vm_mm.c\<close>): the partitions of the guest address space, the
  translation of guest to host addresses by software, and the windows through which the host reads and
  writes guest memory. The lists of partitions are lists in the order of the code; the locks are released
  on every path that is reached. \<^verbatim>\<open>k_malloc\<close> is an argument; its result is cleared before it is tested,
  so that a failure faults. The domain is \<^term>\<open>None\<close> after it was given back.
\<close>

section \<open>State\<close>

record k_mem_partition =
  pt_start :: u64
  pt_size :: u64
  pt_attrs :: u32

record k_mem_domain =
  partitions :: "k_mem_partition list"
  num_partitions :: u8
  base_xlat_table :: nat

record vm_mem_partition =
  vm_mm_partition :: k_mem_partition
  part_hpa_base :: u64
  part_hpa_size :: u64

record vm_mem_domain =
  vm_mm_domain :: "k_mem_domain option"
  ptables :: s2_tables
  idle_vpart_list :: "vm_mem_partition list"
  mapped_vpart_list :: "vm_mem_partition list"

record os_mem_info =
  vm_mem_base :: u64
  vm_mem_size :: u64
  vm_load_base :: u64
  linux_dtb_load_addr :: u64
  linux_dtb_load_size :: u64

definition MT_VM_NORMAL_MEM :: u32 where "MT_VM_NORMAL_MEM = 0x74"

section \<open>Partitions\<close>

definition add_idle_vpart :: "vm_mem_partition \<Rightarrow> vm_mem_domain \<Rightarrow> vm_mem_domain" where
  "add_idle_vpart vpart vd = vd\<lparr>idle_vpart_list := idle_vpart_list vd @ [vpart]\<rparr>"

definition add_mapped_vpart :: "vm_mem_partition option \<Rightarrow> vm_mem_domain \<Rightarrow> int \<times> vm_mem_domain" where
  "add_mapped_vpart vpart vd = (case vpart of
     None \<Rightarrow> (-1, vd) | Some p \<Rightarrow> (0, vd\<lparr>mapped_vpart_list := mapped_vpart_list vd @ [p]\<rparr>))"

text \<open>Two allocations.\<close>

definition alloc_vm_mem_partition :: "bool \<times> bool \<Rightarrow> u64 \<Rightarrow> u64 \<Rightarrow> u64 \<Rightarrow> u32 \<Rightarrow> vm_mem_partition outcome" where
  "alloc_vm_mem_partition malloc_ok hpbase ipbase sz attrs =
    (if fst malloc_ok \<and> snd malloc_ok
     then Done \<lparr>vm_mm_partition = \<lparr>pt_start = ipbase, pt_size = sz, pt_attrs = attrs\<rparr>, part_hpa_base = hpbase, part_hpa_size = sz\<rparr>
     else Fault)"

definition create_vm_mem_vpart :: "bool \<times> bool \<Rightarrow> u64 \<Rightarrow> u64 \<Rightarrow> u64 \<Rightarrow> u32 \<Rightarrow> vm_mem_domain \<Rightarrow> (int \<times> vm_mem_domain) outcome" where
  "create_vm_mem_vpart malloc_ok hpbase ipbase sz attrs vd =
    bind_outcome (alloc_vm_mem_partition malloc_ok hpbase ipbase sz attrs) (\<lambda>vpart. Done (0, add_idle_vpart vpart vd))"

definition vm_vdev_mem_create :: "bool \<times> bool \<Rightarrow> u64 \<Rightarrow> u64 \<Rightarrow> u64 \<Rightarrow> u32 \<Rightarrow> vm_mem_domain \<Rightarrow> (int \<times> vm_mem_domain) outcome" where
  "vm_vdev_mem_create = create_vm_mem_vpart"

definition vm_ram_mem_create :: "bool \<times> bool \<Rightarrow> os_mem_info \<Rightarrow> vm_mem_domain \<Rightarrow> (int \<times> vm_mem_domain) outcome" where
  "vm_ram_mem_create malloc_ok info =
    create_vm_mem_vpart malloc_ok (vm_load_base info) (vm_mem_base info) (vm_mem_size info) MT_VM_NORMAL_MEM"

definition vm_dtb_mem_create :: "bool \<times> bool \<Rightarrow> os_mem_info \<Rightarrow> vm_mem_domain \<Rightarrow> (int \<times> vm_mem_domain) outcome" where
  "vm_dtb_mem_create malloc_ok info =
    create_vm_mem_vpart malloc_ok (linux_dtb_load_addr info) (linux_dtb_load_addr info) (ucast (ucast (linux_dtb_load_size info) :: u32)) MT_VM_NORMAL_MEM"

text \<open>\<^verbatim>\<open>dtb\<close> is whether CONFIG_VM_DTB_FILE_INPUT is set and the guest is Linux.\<close>

definition vm_init_mem_create ::
  "bool \<times> bool \<Rightarrow> bool \<times> bool \<Rightarrow> bool \<Rightarrow> os_mem_info \<Rightarrow> vm_mem_domain \<Rightarrow> (int \<times> vm_mem_domain) outcome" where
  "vm_init_mem_create ram_ok dtb_ok dtb info vd =
    bind_outcome (vm_ram_mem_create ram_ok info vd) (\<lambda>(ret, vd).
      if ret \<noteq> 0 then Done (ret, vd) else if dtb then vm_dtb_mem_create dtb_ok info vd else Done (0, vd))"

definition free_slot :: k_mem_partition where
  "free_slot = \<lparr>pt_start = 0, pt_size = 0, pt_attrs = 0\<rparr>"

text \<open>The base table is the one that the architecture hands out.\<close>

definition vm_domain_init :: "nat \<Rightarrow> s2_tables \<Rightarrow> int \<times> k_mem_domain option \<times> s2_tables" where
  "vm_domain_init max_parts st = (case arch_vm_mem_domain_init st of
     (ret, root, st) \<Rightarrow> (ret, map_option (\<lambda>t. \<lparr>partitions = replicate max_parts free_slot, num_partitions = 0, base_xlat_table = t\<rparr>) root, st))"

definition vm_mem_domain_create ::
  "bool \<times> bool \<Rightarrow> bool \<times> bool \<Rightarrow> bool \<times> bool \<Rightarrow> nat \<Rightarrow> bool \<Rightarrow> os_mem_info \<Rightarrow> s2_tables \<Rightarrow> (int \<times> vm_mem_domain option) outcome" where
  "vm_mem_domain_create dom_ok ram_ok dtb_ok max_parts dtb info st =
    (if \<not> (fst dom_ok \<and> snd dom_ok) then Fault
     else case vm_domain_init max_parts st of
       (ret, mdom, st) \<Rightarrow>
         if ret \<noteq> 0 then Done (- ENXIO, None)
         else bind_outcome (vm_init_mem_create ram_ok dtb_ok dtb info
                \<lparr>vm_mm_domain = mdom, ptables = st, idle_vpart_list = [], mapped_vpart_list = []\<rparr>)
              (\<lambda>(ret, vd). Done (ret, Some vd)))"

section \<open>Mapping partitions\<close>

definition check_vm_add_partition :: "k_mem_domain \<Rightarrow> k_mem_partition \<Rightarrow> bool" where
  "check_vm_add_partition d part =
    (let pstart = pt_start part; pend = pt_start part + pt_size part
     in pt_size part \<noteq> 0 \<and> pstart < pend
        \<and> (\<forall>i\<in>set [0..<unat (num_partitions d)]. let dpart = partitions d ! i
             in pt_size dpart = 0 \<or> \<not> (pt_start dpart < pend \<and> pstart < pt_start dpart + pt_size dpart)))"

definition arch_vm_mem_domain_partition_add :: "k_mem_domain \<Rightarrow> nat \<Rightarrow> u64 \<Rightarrow> s2_tables \<Rightarrow> (int \<times> s2_tables) outcome" where
  "arch_vm_mem_domain_partition_add d partition_id phys_start st =
    (let ptn = partitions d ! partition_id
     in vm_add_map (base_xlat_table d) phys_start (pt_start ptn) (pt_size ptn) (pt_attrs ptn) st)"

definition arch_vm_mem_domain_partition_remove :: "k_mem_domain \<Rightarrow> nat \<Rightarrow> s2_tables \<Rightarrow> (int \<times> s2_tables) outcome" where
  "arch_vm_mem_domain_partition_remove d partition_id st =
    (let ptn = partitions d ! partition_id
     in vm_remove_map (base_xlat_table d) (pt_start ptn) (pt_size ptn) st)"

definition vm_mem_domain_partition_add :: "vm_mem_partition \<Rightarrow> vm_mem_domain \<Rightarrow> (int \<times> vm_mem_domain) outcome" where
  "vm_mem_domain_partition_add vpart vd = (case vm_mm_domain vd of
     None \<Rightarrow> Fault
   | Some d \<Rightarrow>
       let part = vm_mm_partition vpart
       in if \<not> check_vm_add_partition d part then Done (- EINVAL, vd)
          else case List.find (\<lambda>i. pt_size (partitions d ! i) = 0) [0..<length (partitions d)] of
            None \<Rightarrow> Done (- ENOSPC, vd)
          | Some p_idx \<Rightarrow>
              let d = d\<lparr>partitions := (partitions d)[p_idx := part], num_partitions := num_partitions d + 1\<rparr>
              in bind_outcome (arch_vm_mem_domain_partition_add d p_idx (part_hpa_base vpart) (ptables vd))
                   (\<lambda>(ret, st). Done (ret, vd\<lparr>vm_mm_domain := Some d, ptables := st\<rparr>)))"

text \<open>The loop over the partitions that are still to be mapped.\<close>

fun partitions_add :: "vm_mem_partition list \<Rightarrow> vm_mem_domain \<Rightarrow> (int \<times> vm_mem_domain) outcome" where
  "partitions_add [] vd = Done (0, vd)"
| "partitions_add (vpart # vparts) vd =
    bind_outcome (vm_mem_domain_partition_add vpart vd) (\<lambda>(ret, vd).
      if ret \<noteq> 0 then Done (ret, vd)
      else partitions_add vparts
        (vd\<lparr>idle_vpart_list := tl (idle_vpart_list vd), mapped_vpart_list := mapped_vpart_list vd @ [vpart]\<rparr>))"

definition vm_mem_domain_partitions_add :: "vm_mem_domain \<Rightarrow> (int \<times> vm_mem_domain) outcome" where
  "vm_mem_domain_partitions_add vd = partitions_add (idle_vpart_list vd) vd"

definition vm_dynmem_apart_add :: "vm_mem_domain \<Rightarrow> int \<times> vm_mem_domain" where
  "vm_dynmem_apart_add vd =
    (0, vd\<lparr>idle_vpart_list := [], mapped_vpart_list := mapped_vpart_list vd @ idle_vpart_list vd\<rparr>)"

fun remove_slots :: "k_mem_domain \<Rightarrow> nat list \<Rightarrow> int \<Rightarrow> s2_tables \<Rightarrow> (int \<times> s2_tables) outcome" where
  "remove_slots d [] ret st = Done (ret, st)"
| "remove_slots d (i # is) ret st =
    (if pt_size (partitions d ! i) \<noteq> 0
     then bind_outcome (arch_vm_mem_domain_partition_remove d i st) (\<lambda>(ret, st). remove_slots d is ret st)
     else remove_slots d is ret st)"

definition vm_mem_domain_partition_remove :: "vm_mem_domain \<Rightarrow> (int \<times> vm_mem_domain) outcome" where
  "vm_mem_domain_partition_remove vd = (case vm_mm_domain vd of
     None \<Rightarrow> Fault
   | Some d \<Rightarrow> bind_outcome (remove_slots d [0..<length (partitions d)] 0 (ptables vd)) (\<lambda>(ret, st).
       Done (ret, vd\<lparr>vm_mm_domain := None, ptables := arch_vm_mem_table_count_clean st\<rparr>)))"

definition vm_mem_apart_remove ::
  "os_mem_info \<Rightarrow> vm_mem_domain \<Rightarrow> GuestMemoryManager \<Rightarrow> (int \<times> vm_mem_domain \<times> GuestMemoryManager) outcome" where
  "vm_mem_apart_remove info vd mm =
    bind_outcome (vm_mem_domain_partition_remove vd) (\<lambda>(ret, vd).
      Done (ret, vd\<lparr>mapped_vpart_list := []\<rparr>, free_guest_memory_part (vm_load_base info) mm))"

section \<open>Guest to host addresses\<close>

definition find_vpart :: "u64 \<Rightarrow> vm_mem_domain \<Rightarrow> vm_mem_partition option" where
  "find_vpart gpa vd = List.find (\<lambda>vpart. pt_start (vm_mm_partition vpart) \<le> gpa
     \<and> gpa \<le> pt_start (vm_mm_partition vpart) + pt_size (vm_mm_partition vpart)) (mapped_vpart_list vd)"

definition vm_gpa_to_hpa :: "vm_mem_domain \<Rightarrow> u64 \<Rightarrow> u64" where
  "vm_gpa_to_hpa vd gpa = (case find_vpart gpa vd of
     Some vpart \<Rightarrow> gpa - pt_start (vm_mm_partition vpart) + part_hpa_base vpart
   | None \<Rightarrow> of_int (- ESRCH))"

definition vm_gpa_to_hpa_setvpart :: "vm_mem_domain \<Rightarrow> u64 \<Rightarrow> u64 \<times> vm_mem_partition option" where
  "vm_gpa_to_hpa_setvpart vd gpa = (case find_vpart gpa vd of
     Some vpart \<Rightarrow> (gpa - pt_start (vm_mm_partition vpart) + part_hpa_base vpart, Some vpart)
   | None \<Rightarrow> (of_int (- ESRCH), None))"

section \<open>Access from the host\<close>

text \<open>
  A window onto host memory. \<^verbatim>\<open>map_phys\<close> is \<^verbatim>\<open>k_mem_map_phys_bare\<close>: the virtual address of the
  window, or nothing. The bytes at offset k of a window are those at \<^verbatim>\<open>mapped_hpa + k\<close>.
\<close>

record host_mem_map =
  hva :: "u64 option"
  mapped_hpa :: u64
  mapped_size :: u64
  map_valid :: bool

record host_mem =
  read_maps :: "nat \<Rightarrow> nat \<Rightarrow> host_mem_map"
  write_maps :: "nat \<Rightarrow> nat \<Rightarrow> host_mem_map"
  phys_mem :: "u64 \<Rightarrow> u8"
  max_vms :: nat

definition MAX_VIRTIO_TYPE :: int where "MAX_VIRTIO_TYPE = 3"
definition CONFIG_MMU_PAGE_SIZE :: u64 where "CONFIG_MMU_PAGE_SIZE = 0x1000"

definition ROUND_UP :: "u64 \<Rightarrow> u64 \<Rightarrow> u64" where
  "ROUND_UP x align = (x + (align - 1)) div align * align"

definition host_window :: "(u64 \<Rightarrow> u64 \<Rightarrow> u64 option) \<Rightarrow> u64 \<Rightarrow> u64 \<Rightarrow> host_mem_map \<Rightarrow> host_mem_map" where
  "host_window map_phys hpa len m =
    (let aligned_hpa = hpa AND NOT (CONFIG_MMU_PAGE_SIZE - 1);
         aligned_len = ROUND_UP (hpa + len - aligned_hpa) CONFIG_MMU_PAGE_SIZE;
         need_remap = \<not> map_valid m \<or> hpa < mapped_hpa m \<or> mapped_hpa m + mapped_size m < hpa + len
     in if need_remap
        then let new_hva = map_phys aligned_hpa aligned_len
             in \<lparr>hva = new_hva, mapped_hpa = aligned_hpa, mapped_size = aligned_len, map_valid = (new_hva \<noteq> None)\<rparr>
        else m)"

text \<open>A copy that leaves the window is an access to memory that does not belong to it.\<close>

definition in_window :: "u64 \<Rightarrow> u64 \<Rightarrow> host_mem_map \<Rightarrow> bool" where
  "in_window hpa len m \<longleftrightarrow> unat (hpa - mapped_hpa m) + unat len \<le> unat (mapped_size m)"

definition bad_access :: "bool \<Rightarrow> u64 \<Rightarrow> int \<Rightarrow> int \<Rightarrow> host_mem \<Rightarrow> bool" where
  "bad_access ptr len vmid type hs \<longleftrightarrow>
     \<not> ptr \<or> len = 0 \<or> vmid < 0 \<or> int (max_vms hs) \<le> vmid \<or> type < 0 \<or> MAX_VIRTIO_TYPE \<le> type"

definition vm_host_memory_read ::
  "(u64 \<Rightarrow> u64 \<Rightarrow> u64 option) \<Rightarrow> u64 \<Rightarrow> bool \<Rightarrow> u64 \<Rightarrow> int \<Rightarrow> int \<Rightarrow> host_mem \<Rightarrow> (u8 list option \<times> host_mem) outcome" where
  "vm_host_memory_read map_phys hpa dst len vmid type hs =
    (if bad_access dst len vmid type hs then Done (None, hs)
     else let m = host_window map_phys hpa len (read_maps hs (nat vmid) (nat type));
              hs = hs\<lparr>read_maps := (read_maps hs)(nat vmid := (read_maps hs (nat vmid))(nat type := m))\<rparr>
          in if \<not> map_valid m then Done (Some (replicate (unat len) 0), hs)
             else if in_window hpa len m then Done (Some (map (\<lambda>k. phys_mem hs (hpa + of_nat k)) [0..<unat len]), hs)
             else Fault)"

definition vm_host_memory_write ::
  "(u64 \<Rightarrow> u64 \<Rightarrow> u64 option) \<Rightarrow> u64 \<Rightarrow> bool \<Rightarrow> u8 list \<Rightarrow> int \<Rightarrow> int \<Rightarrow> host_mem \<Rightarrow> host_mem outcome" where
  "vm_host_memory_write map_phys hpa src bytes vmid type hs =
    (let len = of_nat (length bytes)
     in if bad_access src len vmid type hs then Done hs
        else let m = host_window map_phys hpa len (write_maps hs (nat vmid) (nat type));
                 hs = hs\<lparr>write_maps := (write_maps hs)(nat vmid := (write_maps hs (nat vmid))(nat type := m))\<rparr>
             in if \<not> map_valid m then Done hs
                else if in_window hpa len m
                then Done (hs\<lparr>phys_mem := fold (\<lambda>k f. f(hpa + of_nat k := bytes ! k)) [0..<length bytes] (phys_mem hs)\<rparr>)
                else Fault)"

text \<open>The test \<^verbatim>\<open>hpa < 0\<close> of an unsigned number never holds.\<close>

definition vm_guest_memory_read ::
  "(u64 \<Rightarrow> u64 \<Rightarrow> u64 option) \<Rightarrow> vm_mem_domain \<Rightarrow> u64 \<Rightarrow> bool \<Rightarrow> u64 \<Rightarrow> int \<Rightarrow> int \<Rightarrow> host_mem \<Rightarrow> (u8 list option \<times> host_mem) outcome" where
  "vm_guest_memory_read map_phys vd gpa dst len vmid type hs =
    (let hpa = vm_gpa_to_hpa vd gpa
     in if uint hpa < 0 then Done (None, hs) else vm_host_memory_read map_phys hpa dst len vmid type hs)"

definition vm_guest_memory_write ::
  "(u64 \<Rightarrow> u64 \<Rightarrow> u64 option) \<Rightarrow> vm_mem_domain \<Rightarrow> u64 \<Rightarrow> bool \<Rightarrow> u8 list \<Rightarrow> int \<Rightarrow> int \<Rightarrow> host_mem \<Rightarrow> host_mem outcome" where
  "vm_guest_memory_write map_phys vd gpa src bytes vmid type hs =
    (let hpa = vm_gpa_to_hpa vd gpa
     in if uint hpa < 0 then Done hs else vm_host_memory_write map_phys hpa src bytes vmid type hs)"

end
