(* ===== verification/Vm_Mem_Props.thy ===== *)
theory Vm_Mem_Props
  imports Vm_Mem
begin

text \<open>
  Properties of the memory domain: the partitions never overlap, the translation tables agree with the
  translation by software except at the end of a partition, and the windows of the host are never left
  for addresses that do not wrap around.
\<close>

section \<open>The table of partitions\<close>

lemma less_add_iff: "(x :: u64) < x + y \<longleftrightarrow> y \<noteq> 0 \<and> unat x + unat y < 2 ^ 64"
proof (cases "unat x + unat y < 2 ^ 64")
  case True
  then have "unat (x + y) = unat x + unat y" by (simp add: unat_word_ariths(1))
  then show ?thesis using True by (auto simp: word_less_nat_alt unat_gt_0)
next
  case False
  have b: "unat x < 2 ^ 64" "unat y < 2 ^ 64" using unsigned_less[of x] unsigned_less[of y] by simp_all
  then have "unat (x + y) = unat x + unat y - 2 ^ 64"
    using False by (simp add: unat_word_ariths(1) mod_if)
  then show ?thesis using False b by (simp add: word_less_nat_alt)
qed

definition slot_ok :: "k_mem_partition \<Rightarrow> bool" where
  "slot_ok p \<longleftrightarrow> pt_size p \<noteq> 0 \<and> unat (pt_start p) + unat (pt_size p) < 2 ^ 64"

definition slots_apart :: "k_mem_partition \<Rightarrow> k_mem_partition \<Rightarrow> bool" where
  "slots_apart p q \<longleftrightarrow> unat (pt_start p) + unat (pt_size p) \<le> unat (pt_start q)
     \<or> unat (pt_start q) + unat (pt_size q) \<le> unat (pt_start p)"

text \<open>The slots in use come first; they are not empty, do not wrap around and do not overlap.\<close>

definition slots_ok :: "k_mem_domain \<Rightarrow> bool" where
  "slots_ok d \<longleftrightarrow> (\<exists>ps fs. partitions d = ps @ fs \<and> unat (num_partitions d) = length ps \<and> length (partitions d) < 256
     \<and> (\<forall>p\<in>set ps. slot_ok p) \<and> sorted_wrt slots_apart ps \<and> (\<forall>p\<in>set fs. pt_size p = 0))"

lemma slot_end: "slot_ok p \<Longrightarrow> unat (pt_start p + pt_size p) = unat (pt_start p) + unat (pt_size p)"
  by (simp add: slot_ok_def unat_word_ariths(1))

lemma check_vm_add_partition_iff:
  assumes "partitions d = ps @ fs" "unat (num_partitions d) = length ps" "\<forall>p\<in>set ps. slot_ok p"
  shows "check_vm_add_partition d p \<longleftrightarrow> slot_ok p \<and> (\<forall>q\<in>set ps. slots_apart q p)"
proof -
  have q: "pt_size q = 0 \<or> \<not> (pt_start q < pt_start p + pt_size p \<and> pt_start p < pt_start q + pt_size q) \<longleftrightarrow> slots_apart q p"
    if "slot_ok q" "slot_ok p" for q
    using that(1) slot_end[OF that(1)] slot_end[OF that(2)]
    by (auto simp: slots_apart_def slot_ok_def word_less_nat_alt)
  define ovl where "ovl q \<longleftrightarrow> pt_size q = 0 \<or> \<not> (pt_start q < pt_start p + pt_size p \<and> pt_start p < pt_start q + pt_size q)" for q :: k_mem_partition
  have all: "(\<forall>i\<in>set [0..<length ps]. ovl ((ps @ fs) ! i)) \<longleftrightarrow> (\<forall>q\<in>set ps. ovl q)"
    by (auto simp: nth_append all_set_conv_all_nth)
  have "check_vm_add_partition d p \<longleftrightarrow> slot_ok p \<and> (\<forall>q\<in>set ps. ovl q)"
    unfolding all[symmetric] check_vm_add_partition_def Let_def assms(1,2) ovl_def[symmetric] less_add_iff
    by (auto simp: slot_ok_def)
  then show ?thesis using q assms(3) unfolding ovl_def[symmetric] by blast
qed

lemma find_free_slot:
  assumes "\<forall>p\<in>set ps. slot_ok p" "\<forall>p\<in>set fs. pt_size p = 0"
  shows "List.find (\<lambda>i. pt_size ((ps @ fs) ! i) = 0) [0..<length (ps @ fs)] = (if fs = [] then None else Some (length ps))"
proof (cases fs)
  case Nil
  then show ?thesis using assms(1) by (auto simp: find_None_iff slot_ok_def)
next
  case (Cons f fs')
  have "\<And>i. i < length ps \<Longrightarrow> pt_size ((ps @ fs) ! i) \<noteq> 0" using assms(1) by (auto simp: nth_append slot_ok_def)
  then have "List.find (\<lambda>i. pt_size ((ps @ fs) ! i) = 0) [0..<length (ps @ fs)] = Some (length ps)"
    using Cons assms(2) unfolding find_upt_Some_iff by simp
  then show ?thesis using Cons by simp
qed

text \<open>What adding one partition does, in terms of the slots in use.\<close>

lemma partition_add_cases:
  assumes "vm_mm_domain vd = Some d" "partitions d = ps @ fs" "unat (num_partitions d) = length ps" "length (partitions d) < 256"
    "\<forall>p\<in>set ps. slot_ok p" "\<forall>p\<in>set fs. pt_size p = 0" and p: "p = vm_mm_partition vp"
  shows "vm_mem_domain_partition_add vp vd =
    (if \<not> (slot_ok p \<and> (\<forall>q\<in>set ps. slots_apart q p)) then Done (- EINVAL, vd)
     else if fs = [] then Done (- ENOSPC, vd)
     else bind_outcome (vm_add_map (base_xlat_table d) (part_hpa_base vp) (pt_start p) (pt_size p) (pt_attrs p) (ptables vd))
       (\<lambda>(ret, st). Done (ret, vd\<lparr>vm_mm_domain := Some (d\<lparr>partitions := (ps @ [p]) @ tl fs, num_partitions := num_partitions d + 1\<rparr>),
          ptables := st\<rparr>)))"
proof -
  have upd: "(ps @ fs)[length ps := p] = (ps @ [p]) @ tl fs" if "fs \<noteq> []" using that by (cases fs) simp_all
  show ?thesis
    unfolding vm_mem_domain_partition_add_def assms(1) option.case Let_def p[symmetric]
      check_vm_add_partition_iff[OF assms(2,3,5)] assms(2) find_free_slot[OF assms(5,6)]
    using upd by (simp add: arch_vm_mem_domain_partition_add_def Let_def nth_append split: if_splits)
qed

lemma slots_snoc:
  assumes "\<forall>q\<in>set ps. slot_ok q" "sorted_wrt slots_apart ps" "slot_ok p" "\<forall>q\<in>set ps. slots_apart q p"
  shows "(\<forall>q\<in>set (ps @ [p]). slot_ok q) \<and> sorted_wrt slots_apart (ps @ [p])"
  using assms by (auto simp: sorted_wrt_append)

lemma count_Suc: "unat (n :: u8) = length ps \<Longrightarrow> length ps < 255 \<Longrightarrow> unat (n + 1) = length (ps @ [p])"
  by (simp add: unat_word_ariths(1))

lemma partition_add_slots:
  assumes "vm_mm_domain vd = Some d" "slots_ok d" "vm_mem_domain_partition_add vp vd = Done (ret, vd')"
  shows "\<exists>d'. vm_mm_domain vd' = Some d' \<and> slots_ok d'"
proof -
  obtain ps fs where sl: "partitions d = ps @ fs" "unat (num_partitions d) = length ps" "length (partitions d) < 256"
    "\<forall>p\<in>set ps. slot_ok p" "sorted_wrt slots_apart ps" "\<forall>p\<in>set fs. pt_size p = 0"
    using assms(2) unfolding slots_ok_def by blast
  let ?p = "vm_mm_partition vp"
  note c = partition_add_cases[OF assms(1) sl(1-4,6) refl, of vp]
  show ?thesis
  proof (cases "slot_ok ?p \<and> (\<forall>q\<in>set ps. slots_apart q ?p) \<and> fs \<noteq> []")
    case True
    let ?d = "d\<lparr>partitions := (ps @ [?p]) @ tl fs, num_partitions := num_partitions d + 1\<rparr>"
    have "vm_mm_domain vd' = Some ?d"
      using True assms(3) unfolding c by (auto split: outcome.splits elim!: bind_outcome.elims)
    moreover have "length ps < 255" "length (tl fs) < length fs" using True sl(1,3) by (cases fs; simp)+
    then have "slots_ok ?d"
      unfolding slots_ok_def
      using slots_snoc[OF sl(4,5), of ?p] True count_Suc[OF sl(2), of ?p] sl(1,3,6)
      by (intro exI[of _ "ps @ [?p]"] exI[of _ "tl fs"]) (auto dest: list.set_sel(2))
    ultimately show ?thesis by blast
  next
    case False
    then have "vd' = vd" using assms(3) unfolding c by (auto split: if_splits)
    then show ?thesis using assms(1,2) by blast
  qed
qed

lemma partitions_add_slots:
  assumes "vm_mm_domain vd = Some d" "slots_ok d" "partitions_add vps vd = Done (ret, vd')"
  shows "\<exists>d'. vm_mm_domain vd' = Some d' \<and> slots_ok d'"
  using assms
proof (induction vps arbitrary: vd d)
  case (Cons vp vps)
  obtain r1 vd1 where 1: "vm_mem_domain_partition_add vp vd = Done (r1, vd1)"
    using Cons.prems(3) by (cases "vm_mem_domain_partition_add vp vd") auto
  obtain d1 where d1: "vm_mm_domain vd1 = Some d1" "slots_ok d1" using partition_add_slots[OF Cons.prems(1,2) 1] by blast
  show ?case
  proof (cases "r1 = 0")
    case True
    then show ?thesis using Cons.prems(3) 1 d1 by (intro Cons.IH[of _ d1]) simp_all
  next
    case False
    then show ?thesis using Cons.prems(3) 1 d1 by simp
  qed
qed simp

text \<open>
  C14: The partitions of a VM never overlap. A new domain has no partition in use; adding partitions, whatever
  their addresses and sizes and whether or not mapping them succeeds, keeps the slots in use at the front of the
  table, counted by \<^verbatim>\<open>num_partitions\<close>, not empty, free of wrap-around and pairwise disjoint.
\<close>

theorem partitions_never_overlap:
  assumes "max_parts < 256"
  shows "(\<forall>st root st'. vm_domain_init max_parts st = (0, root, st') \<longrightarrow> (\<exists>d. root = Some d \<and> slots_ok d))
    \<and> (\<forall>vd d ret vd'. vm_mm_domain vd = Some d \<and> slots_ok d \<and> vm_mem_domain_partitions_add vd = Done (ret, vd')
         \<longrightarrow> (\<exists>d'. vm_mm_domain vd' = Some d' \<and> slots_ok d'))"
proof -
  have "slots_ok \<lparr>partitions = replicate max_parts free_slot, num_partitions = 0, base_xlat_table = t\<rparr>" for t
    using assms by (simp add: slots_ok_def free_slot_def)
  then show ?thesis
    using partitions_add_slots unfolding vm_mem_domain_partitions_add_def
    by (auto simp: vm_domain_init_def arch_vm_mem_domain_init_def errno_defs split: prod.splits option.splits)
qed

theorem partitions_never_overlap_witness:
  "\<exists>d st. vm_domain_init 8 s2_four = (0, Some d, st) \<and> slots_ok d"
proof -
  obtain st where "arch_vm_mem_domain_init s2_four = (0, Some 0, st)" using s2_four_init by blast
  then obtain d where "vm_domain_init 8 s2_four = (0, Some d, st)" by (simp add: vm_domain_init_def)
  then show ?thesis using partitions_never_overlap[of 8] by fastforce
qed

section \<open>Tables and software translation\<close>

lemma word_eq_unat_iff: "(x :: u64) = y \<longleftrightarrow> unat x = unat y"
  by (metis word_unat_eq_iff)

definition region_of :: "vm_mem_partition \<Rightarrow> u32 mapping" where
  "region_of vp = (pt_start (vm_mm_partition vp), pt_size (vm_mm_partition vp), part_hpa_base vp, pt_attrs (vm_mm_partition vp))"

lemma slots_apart_region: "slots_apart (vm_mm_partition v) (vm_mm_partition w) \<longleftrightarrow> apart (region_of v) (region_of w)"
  by (simp add: slots_apart_def region_of_def)

text \<open>The mapped partitions are the slots in use, and the tables translate exactly them.\<close>

definition mem_ok :: "nat \<Rightarrow> vm_mem_domain \<Rightarrow> bool" where
  "mem_ok root vd \<longleftrightarrow> (\<exists>d fs. vm_mm_domain vd = Some d \<and> partitions d = map vm_mm_partition (mapped_vpart_list vd) @ fs
     \<and> unat (num_partitions d) = length (mapped_vpart_list vd) \<and> length (partitions d) < 256
     \<and> (\<forall>vp\<in>set (mapped_vpart_list vd). slot_ok (vm_mm_partition vp)) \<and> (\<forall>p\<in>set fs. pt_size p = 0)
     \<and> base_xlat_table d = root \<and> s2map.maps root (map region_of (mapped_vpart_list vd)) (ptables vd))"

lemma partition_add_maps:
  assumes "mem_ok root vd" "region_fits (region_of vp) (ptables vd)"
  shows "\<exists>ret vd'. vm_mem_domain_partition_add vp vd = Done (ret, vd') \<and> idle_vpart_list vd' = idle_vpart_list vd
    \<and> mapped_vpart_list vd' = mapped_vpart_list vd
    \<and> (ret = 0 \<longrightarrow> va_limit (base_xlat_level (ptables vd')) = va_limit (base_xlat_level (ptables vd))
        \<and> mem_ok root (vd'\<lparr>mapped_vpart_list := mapped_vpart_list vd @ [vp]\<rparr>))"
proof -
  obtain d fs where d: "vm_mm_domain vd = Some d" "partitions d = map vm_mm_partition (mapped_vpart_list vd) @ fs"
    "unat (num_partitions d) = length (map vm_mm_partition (mapped_vpart_list vd))" "length (partitions d) < 256"
    "\<forall>p\<in>set (map vm_mm_partition (mapped_vpart_list vd)). slot_ok p" "\<forall>p\<in>set fs. pt_size p = 0"
    and root: "base_xlat_table d = root" and m: "s2map.maps (base_xlat_table d) (map region_of (mapped_vpart_list vd)) (ptables vd)"
    using assms(1) unfolding mem_ok_def by auto
  let ?p = "vm_mm_partition vp"
  note c = partition_add_cases[OF d refl, of vp]
  show ?thesis
  proof (cases "slot_ok ?p \<and> (\<forall>q\<in>set (map vm_mm_partition (mapped_vpart_list vd)). slots_apart q ?p) \<and> fs \<noteq> []")
    case True
    have ap: "r \<in> set (map region_of (mapped_vpart_list vd)) \<Longrightarrow> apart r (region_of vp)" for r
      using True by (auto simp: slots_apart_region)
    obtain ret st where st: "add_mapping (base_xlat_table d) (region_of vp) (ptables vd) = Done (ret, st)"
      "va_limit (base_xlat_level st) = va_limit (base_xlat_level (ptables vd))"
      "ret = 0 \<longrightarrow> s2map.maps (base_xlat_table d) (map region_of (mapped_vpart_list vd) @ [region_of vp]) st"
      using s2map.add_region[OF m assms(2) ap] by blast
    let ?d = "d\<lparr>partitions := (map vm_mm_partition (mapped_vpart_list vd) @ [?p]) @ tl fs, num_partitions := num_partitions d + 1\<rparr>"
    have "vm_mem_domain_partition_add vp vd = Done (ret, vd\<lparr>vm_mm_domain := Some ?d, ptables := st\<rparr>)"
      using True st(1) unfolding c by (simp add: region_of_def)
    moreover have "length (mapped_vpart_list vd) < 255" "length (tl fs) < length fs" using True d(2,4) by (cases fs; simp)+
    then have "mem_ok root (vd\<lparr>vm_mm_domain := Some ?d, ptables := st, mapped_vpart_list := mapped_vpart_list vd @ [vp]\<rparr>)" if "ret = 0"
      unfolding mem_ok_def
      using True d st(3) root that count_Suc[OF d(3), of ?p]
      by (intro exI[of _ ?d] exI[of _ "tl fs"]) (auto dest: list.set_sel(2))
    ultimately show ?thesis using st(2) by auto
  next
    case False
    then show ?thesis unfolding c by (auto simp: errno_defs)
  qed
qed

lemma partitions_add_maps:
  assumes "mem_ok root vd" "\<And>vp. vp \<in> set vps \<Longrightarrow> region_fits (region_of vp) (ptables vd)" "idle_vpart_list vd = vps"
  shows "\<exists>ret vd'. partitions_add vps vd = Done (ret, vd') \<and> (ret = 0 \<longrightarrow> mem_ok root vd' \<and> idle_vpart_list vd' = []
    \<and> mapped_vpart_list vd' = mapped_vpart_list vd @ vps \<and> va_limit (base_xlat_level (ptables vd')) = va_limit (base_xlat_level (ptables vd)))"
  using assms
proof (induction vps arbitrary: vd)
  case (Cons vp vps)
  have "region_fits (region_of vp) (ptables vd)" using Cons.prems(2) by simp
  from partition_add_maps[OF Cons.prems(1) this] obtain ret vd1 where 1: "vm_mem_domain_partition_add vp vd = Done (ret, vd1)"
    "idle_vpart_list vd1 = vp # vps" "mapped_vpart_list vd1 = mapped_vpart_list vd"
    "ret = 0 \<Longrightarrow> va_limit (base_xlat_level (ptables vd1)) = va_limit (base_xlat_level (ptables vd))"
    "ret = 0 \<Longrightarrow> mem_ok root (vd1\<lparr>mapped_vpart_list := mapped_vpart_list vd @ [vp]\<rparr>)" using Cons.prems(3) by auto
  show ?case
  proof (cases "ret = 0")
    case True
    let ?v = "vd1\<lparr>idle_vpart_list := vps, mapped_vpart_list := mapped_vpart_list vd @ [vp]\<rparr>"
    have "mem_ok root ?v" using 1(5)[OF True] unfolding mem_ok_def by simp
    moreover have "region_fits (region_of w) (ptables ?v)" if "w \<in> set vps" for w
      using Cons.prems(2)[of w] that 1(4)[OF True] by (simp add: region_of_def)
    ultimately show ?thesis using Cons.IH[of ?v] 1(1-4) True by simp
  next
    case False
    then show ?thesis using 1(1) by simp
  qed
qed simp

lemma find_map: "List.find P (map f xs) = map_option f (List.find (P \<circ> f) xs)"
  by (induction xs) auto

lemma gpa_lookup:
  assumes "mem_ok root vd" "unat gpa < va_limit (base_xlat_level (ptables vd))"
    "\<And>vp. vp \<in> set (mapped_vpart_list vd) \<Longrightarrow> gpa \<noteq> pt_start (vm_mm_partition vp) + pt_size (vm_mm_partition vp)"
  shows "s2_translate (ptables vd) root gpa = map_option (\<lambda>vp. (vm_gpa_to_hpa vd gpa, get_vm_region_desc (pt_attrs (vm_mm_partition vp)))) (find_vpart gpa vd)"
proof -
  have "pt_start (vm_mm_partition vp) \<le> gpa \<and> gpa \<le> pt_start (vm_mm_partition vp) + pt_size (vm_mm_partition vp)
      \<longleftrightarrow> covers (region_of vp) gpa" if "vp \<in> set (mapped_vpart_list vd)" for vp
  proof -
    have "slot_ok (vm_mm_partition vp)" using assms(1) that by (auto simp: mem_ok_def)
    from slot_end[OF this] show ?thesis
      using assms(3)[OF that] by (auto simp: region_of_def in_range_def word_le_nat_alt nat_less_le word_eq_unat_iff)
  qed
  then have f: "find_vpart gpa vd = List.find (\<lambda>vp. covers (region_of vp) gpa) (mapped_vpart_list vd)"
    unfolding find_vpart_def by (intro find_cong) auto
  have "s2_translate (ptables vd) root gpa = region_lookup get_vm_region_desc (map region_of (mapped_vpart_list vd)) gpa"
    using assms(1,2) unfolding mem_ok_def s2map.maps_def by blast
  also have "\<dots> = map_option (\<lambda>vp. target get_vm_region_desc (region_of vp) gpa) (find_vpart gpa vd)"
    unfolding region_lookup_def find_map f o_def option.map_comp by simp
  finally show ?thesis by (cases "find_vpart gpa vd") (simp_all add: vm_gpa_to_hpa_def region_of_def)
qed

text \<open>
  C13: The hardware and the hypervisor agree on guest memory. Mapping the waiting partitions of a new domain, all
  page-aligned and inside the address space, never faults. When it succeeds, the stage-2 walk of a guest address and
  \<^verbatim>\<open>vm_gpa_to_hpa\<close> give the same host address, or both none, for every guest address below the limit of the tables
  that is not the end address of a partition.
\<close>

theorem gpa_to_hpa_agrees_with_tables:
  assumes "vm_mm_domain vd = Some d" "partitions d = replicate n free_slot" "n < 256" "num_partitions d = 0"
    "mapped_vpart_list vd = []" "s2_wf (base_xlat_table d) lv (ptables vd)"
    "\<And>va. s2_translate (ptables vd) (base_xlat_table d) va = None"
    "\<And>vp. vp \<in> set (idle_vpart_list vd) \<Longrightarrow> region_fits (region_of vp) (ptables vd)"
  shows "\<exists>ret vd'. vm_mem_domain_partitions_add vd = Done (ret, vd') \<and> (ret = 0 \<longrightarrow>
      mapped_vpart_list vd' = idle_vpart_list vd \<and> idle_vpart_list vd' = []
      \<and> (\<forall>gpa. unat gpa < va_limit (base_xlat_level (ptables vd))
          \<and> (\<forall>vp\<in>set (idle_vpart_list vd). gpa \<noteq> pt_start (vm_mm_partition vp) + pt_size (vm_mm_partition vp)) \<longrightarrow>
          vm_gpa_to_hpa vd' gpa = (case s2_translate (ptables vd') (base_xlat_table d) gpa of
             None \<Rightarrow> of_int (- ESRCH) | Some (hpa, attrs) \<Rightarrow> hpa)))"
proof -
  have "s2map.maps (base_xlat_table d) [] (ptables vd)"
    using assms(6,7) by (auto simp: s2map.maps_def region_lookup_def)
  then have "mem_ok (base_xlat_table d) vd" using assms(1-5) by (auto simp: mem_ok_def free_slot_def)
  from partitions_add_maps[OF this assms(8) refl] obtain ret vd' where
    r: "vm_mem_domain_partitions_add vd = Done (ret, vd')" "ret = 0 \<Longrightarrow> mem_ok (base_xlat_table d) vd'"
    "ret = 0 \<Longrightarrow> idle_vpart_list vd' = [] \<and> mapped_vpart_list vd' = idle_vpart_list vd
      \<and> va_limit (base_xlat_level (ptables vd')) = va_limit (base_xlat_level (ptables vd))"
    using assms(5) by (auto simp: vm_mem_domain_partitions_add_def)
  have "vm_gpa_to_hpa vd' gpa = (case s2_translate (ptables vd') (base_xlat_table d) gpa of None \<Rightarrow> of_int (- ESRCH) | Some (hpa, attrs) \<Rightarrow> hpa)"
    if "ret = 0" "unat gpa < va_limit (base_xlat_level (ptables vd))"
      "\<forall>vp\<in>set (idle_vpart_list vd). gpa \<noteq> pt_start (vm_mm_partition vp) + pt_size (vm_mm_partition vp)" for gpa
    using gpa_lookup[OF r(2)[OF that(1)], of gpa] r(3)[OF that(1)] that(2,3)
    by (cases "find_vpart gpa vd'") (auto simp: vm_gpa_to_hpa_def)
  then show ?thesis using r(1,3) by blast
qed

text \<open>A VM with 4 MiB of memory at 0x80000000.\<close>

definition ram_part :: vm_mem_partition where
  "ram_part = \<lparr>vm_mm_partition = \<lparr>pt_start = 0x80000000, pt_size = 0x400000, pt_attrs = MT_VM_NORMAL_MEM\<rparr>,
     part_hpa_base = 0x40200000, part_hpa_size = 0x400000\<rparr>"

definition mem_new :: "s2_tables \<Rightarrow> vm_mem_domain" where
  "mem_new st = \<lparr>vm_mm_domain = Some \<lparr>partitions = replicate 8 free_slot, num_partitions = 0, base_xlat_table = 0\<rparr>,
     ptables = st, idle_vpart_list = [ram_part], mapped_vpart_list = []\<rparr>"

lemma ram_part_fits: "base_xlat_level st = 1 \<Longrightarrow> region_fits (region_of ram_part) st"
  by (simp add: region_of_def ram_part_def va_limit_def lshift_eq MT_VM_NORMAL_MEM_def MT_S2_TYPE_def)

theorem gpa_to_hpa_agrees_with_tables_witness:
  "\<exists>st ret vd. arch_vm_mem_domain_init s2_four = (0, Some 0, st) \<and> vm_mem_domain_partitions_add (mem_new st) = Done (ret, vd)
    \<and> (ret = 0 \<longrightarrow> vm_gpa_to_hpa vd 0x80001234 = 0x40201234
        \<and> (\<exists>a. s2_translate (ptables vd) 0 0x80001234 = Some (0x40201234, a)))"
proof -
  obtain st where st: "arch_vm_mem_domain_init s2_four = (0, Some 0, st)" "s2_wf 0 (\<lambda>_. 1) st"
    "\<And>va. s2_translate st 0 va = None" "base_xlat_level st = 1" using s2_four_init by blast
  let ?d = "\<lparr>partitions = replicate 8 free_slot, num_partitions = 0, base_xlat_table = 0\<rparr>"
  have lim: "va_limit 1 = 2 ^ 39" by (simp add: va_limit_def lshift_eq)
  obtain ret vd where r: "vm_mem_domain_partitions_add (mem_new st) = Done (ret, vd)"
    "ret = 0 \<longrightarrow> mapped_vpart_list vd = [ram_part]"
    "ret = 0 \<longrightarrow> (\<forall>gpa. unat gpa < 2 ^ 39 \<and> gpa \<noteq> 0x80400000 \<longrightarrow> vm_gpa_to_hpa vd gpa = (case s2_translate (ptables vd) 0 gpa of
             None \<Rightarrow> of_int (- ESRCH) | Some (hpa, attrs) \<Rightarrow> hpa))"
    using gpa_to_hpa_agrees_with_tables[of "mem_new st" ?d 8 "\<lambda>_. 1"] st ram_part_fits[OF st(4)] lim
    by (auto simp: mem_new_def ram_part_def)
  have h: "vm_gpa_to_hpa vd 0x80001234 = 0x40201234" if "ret = 0"
    using r(2) that by (simp add: vm_gpa_to_hpa_def find_vpart_def ram_part_def)
  have "\<exists>a. s2_translate (ptables vd) 0 0x80001234 = Some (0x40201234, a)" if "ret = 0"
    using r(3) that h[OF that] by (auto simp: ESRCH_def split: option.splits)
  then show ?thesis using st(1) r(1) h by blast
qed

end
