(* ===== verification/Vm_Mem_Access.thy ===== *)
theory Vm_Mem_Access
  imports Vm_Mem_Props
begin

text \<open>Access to guest memory from the host: the windows, and what an address outside of the guest leads to.\<close>

section \<open>Windows\<close>

definition window_ok :: "host_mem_map \<Rightarrow> bool" where
  "window_ok m \<longleftrightarrow> (map_valid m \<longrightarrow> unat (mapped_hpa m) + unat (mapped_size m) < 2 ^ 64)"

definition windows_ok :: "host_mem \<Rightarrow> bool" where
  "windows_ok hs \<longleftrightarrow> (\<forall>v t. window_ok (read_maps hs v t) \<and> window_ok (write_maps hs v t))"

lemma page_floor:
  "unat (x AND NOT (CONFIG_MMU_PAGE_SIZE - 1)) = unat x - unat x mod 4096" (is "unat ?a = _")
proof -
  have m: "CONFIG_MMU_PAGE_SIZE - 1 = mask 12" by (simp add: CONFIG_MMU_PAGE_SIZE_def mask_eq_exp_minus_1)
  have "?a + (x AND mask 12) = ?a OR (x AND mask 12)"
    unfolding m by (rule disjunctive_add_eq_or, rule bit_word_eqI) (auto simp: bit_and_iff bit_not_iff)
  also have "\<dots> = x" unfolding m by (rule bit_word_eqI) (auto simp: bit_and_iff bit_or_iff bit_not_iff)
  finally have s: "?a = x - (x AND mask 12)" by (simp add: algebra_simps)
  have u: "unat (x AND mask 12) = unat x mod 4096"
    by (simp add: take_bit_eq_mask[symmetric] unsigned_take_bit_eq take_bit_eq_mod unat_mod)
  have "unat (x AND mask 12) \<le> unat x" unfolding u by simp
  then show ?thesis unfolding s by (simp add: unat_sub word_le_nat_alt u)
qed

lemma unat_ROUND_UP:
  assumes "unat x + 4095 < 2 ^ 64"
  shows "unat (ROUND_UP x CONFIG_MMU_PAGE_SIZE) = (unat x + 4095) div 4096 * 4096"
proof -
  have "unat (x + 0xFFF) = unat x + 4095" using assms by (simp add: unat_word_ariths(1))
  moreover have "(unat x + 4095) div 4096 * 4096 \<le> unat x + 4095" by simp
  ultimately show ?thesis
    using assms by (simp add: ROUND_UP_def CONFIG_MMU_PAGE_SIZE_def unat_word_ariths(2) unat_div_distrib)
qed

lemma host_window_ok:
  assumes "window_ok m" "unat hpa + unat len + 4096 \<le> 2 ^ 64"
  shows "window_ok (host_window map_phys hpa len m)
    \<and> (map_valid (host_window map_phys hpa len m) \<longrightarrow> in_window hpa len (host_window map_phys hpa len m))"
proof (cases "\<not> map_valid m \<or> hpa < mapped_hpa m \<or> mapped_hpa m + mapped_size m < hpa + len")
  case True
  let ?a = "hpa AND NOT (CONFIG_MMU_PAGE_SIZE - 1)"
  let ?l = "hpa + len - ?a"
  have a: "unat ?a = unat hpa - unat hpa mod 4096" "unat ?a \<le> unat hpa" "unat hpa - unat ?a < 4096" by (simp_all add: page_floor)
  have e: "unat (hpa + len) = unat hpa + unat len" using assms(2) by (simp add: unat_word_ariths(1))
  have l: "unat ?l = unat hpa + unat len - unat ?a" using a(2) e by (simp add: unat_sub word_le_nat_alt)
  have off: "unat (hpa - ?a) = unat hpa - unat ?a" using a(2) by (simp add: unat_sub word_le_nat_alt)
  have "unat ?l + 4095 < 2 ^ 64" unfolding l using assms(2) a(2) by simp
  note r = unat_ROUND_UP[OF this]
  have "unat ?l \<le> unat (ROUND_UP ?l CONFIG_MMU_PAGE_SIZE)" "unat (ROUND_UP ?l CONFIG_MMU_PAGE_SIZE) \<le> unat ?l + 4095"
    unfolding r by linarith+
  then have "unat (hpa - ?a) + unat len \<le> unat (ROUND_UP ?l CONFIG_MMU_PAGE_SIZE)"
    "unat ?a + unat (ROUND_UP ?l CONFIG_MMU_PAGE_SIZE) < 2 ^ 64" using l off a(2) assms(2) by simp_all
  then show ?thesis using True by (simp add: host_window_def Let_def window_ok_def in_window_def)
next
  case False
  have e: "unat (hpa + len) = unat hpa + unat len" using assms(2) by (simp add: unat_word_ariths(1))
  have w: "unat (mapped_hpa m + mapped_size m) = unat (mapped_hpa m) + unat (mapped_size m)"
    using assms(1) False by (simp add: window_ok_def unat_word_ariths(1))
  have le: "mapped_hpa m \<le> hpa" "unat hpa + unat len \<le> unat (mapped_hpa m) + unat (mapped_size m)"
    using False e w by (simp_all add: word_less_nat_alt word_le_nat_alt)
  then have "unat (hpa - mapped_hpa m) + unat len \<le> unat (mapped_size m)" by (simp add: unat_sub word_le_nat_alt)
  then show ?thesis using False assms(1) by (simp add: host_window_def Let_def in_window_def)
qed

section \<open>Reading and writing\<close>

lemma fold_bytes:
  fixes hpa :: u64
  assumes "unat hpa + n \<le> 2 ^ 64"
  shows "fold (\<lambda>k f. f(hpa + of_nat k := bytes ! k)) [0..<n] f a
    = (if unat hpa \<le> unat a \<and> unat a < unat hpa + n then bytes ! (unat a - unat hpa) else f a)"
  using assms
proof (induction n)
  case (Suc n)
  have "unat (of_nat n :: u64) = n" using Suc.prems by (intro unat_of_nat_small) simp
  then have "unat (hpa + of_nat n) = unat hpa + n" using Suc.prems by (simp add: unat_word_ariths(1))
  then have e: "a = hpa + of_nat n \<longleftrightarrow> unat a = unat hpa + n" by (metis word_eq_unat_iff)
  have "fold (\<lambda>k f. f(hpa + of_nat k := bytes ! k)) [0..<Suc n] f a
    = (if a = hpa + of_nat n then bytes ! n else fold (\<lambda>k f. f(hpa + of_nat k := bytes ! k)) [0..<n] f a)" by simp
  also have "\<dots> = (if unat a = unat hpa + n then bytes ! n
      else if unat hpa \<le> unat a \<and> unat a < unat hpa + n then bytes ! (unat a - unat hpa) else f a)"
    unfolding e Suc.IH[OF Suc_leD[OF Suc.prems[unfolded add_Suc_right]]] ..
  also have "\<dots> = (if unat hpa \<le> unat a \<and> unat a < unat hpa + Suc n then bytes ! (unat a - unat hpa) else f a)"
    by (cases "unat a = unat hpa + n") simp_all
  finally show ?case .
qed auto

lemma host_window_valid: "(\<And>a n. map_phys a n \<noteq> None) \<Longrightarrow> map_valid (host_window map_phys hpa len m)"
  by (simp add: host_window_def Let_def)

lemma host_read_ok:
  assumes "windows_ok hs" "0 < len" "unat hpa + unat len + 4096 \<le> 2 ^ 64" "0 \<le> vmid" "vmid < int (max_vms hs)" "0 \<le> type" "type < 3"
  shows "\<exists>hs'. vm_host_memory_read map_phys hpa True len vmid type hs = Done
      (Some (if map_valid (host_window map_phys hpa len (read_maps hs (nat vmid) (nat type)))
             then map (\<lambda>k. phys_mem hs (hpa + of_nat k)) [0..<unat len] else replicate (unat len) 0), hs')
    \<and> windows_ok hs' \<and> phys_mem hs' = phys_mem hs \<and> max_vms hs' = max_vms hs"
proof -
  have slots: "window_ok (read_maps hs v t)" "window_ok (write_maps hs v t)" for v t using assms(1) by (simp_all add: windows_ok_def)
  have good: "\<not> bad_access True len vmid type hs" using assms(2,4-7) by (simp add: bad_access_def MAX_VIRTIO_TYPE_def)
  let ?m = "host_window map_phys hpa len (read_maps hs (nat vmid) (nat type))"
  have m: "window_ok ?m" "map_valid ?m \<Longrightarrow> in_window hpa len ?m" using host_window_ok[OF slots(1) assms(3)] by blast+
  show ?thesis
    unfolding vm_host_memory_read_def if_not_P[OF good] Let_def using m slots by (cases "map_valid ?m") (simp_all add: windows_ok_def)
qed


text \<open>Host memory that holds the low byte of its address, and no window yet.\<close>

definition host_new :: host_mem where
  "host_new = \<lparr>read_maps = (\<lambda>_ _. \<lparr>hva = None, mapped_hpa = 0, mapped_size = 0, map_valid = False\<rparr>),
     write_maps = (\<lambda>_ _. \<lparr>hva = None, mapped_hpa = 0, mapped_size = 0, map_valid = False\<rparr>), phys_mem = ucast, max_vms = 4\<rparr>"


section \<open>Addresses that do not belong to the guest\<close>

text \<open>
  One byte too many. The end address of the first mapped partition, which the guest does not own, is translated to
  the host address behind the partition, and reading it returns the byte of host memory there; an address in no
  partition is not recognised either: \<^verbatim>\<open>vm_guest_memory_read\<close> goes on with the error number as a host address,
  and when the slot has a window, the copy leaves it.
\<close>

theorem guest_read_outside_partition:
  assumes "mapped_vpart_list vd = vp # vps" "slot_ok (vm_mm_partition vp)" "windows_ok hs"
    "unat (part_hpa_base vp) + unat (pt_size (vm_mm_partition vp)) + 4097 \<le> 2 ^ 64"
    "0 \<le> vmid" "vmid < int (max_vms hs)" "0 \<le> type" "type < 3" "\<And>a n. map_phys a n \<noteq> None"
    "gpa = pt_start (vm_mm_partition vp) + pt_size (vm_mm_partition vp)"
    "find_vpart gpa' vd = None" "map_valid (read_maps hs (nat vmid) (nat type))" "4 \<le> len" "len \<le> mapped_size (read_maps hs (nat vmid) (nat type))"
    "unat (mapped_hpa (read_maps hs (nat vmid) (nat type))) + unat (mapped_size (read_maps hs (nat vmid) (nat type))) < 2 ^ 63"
  shows "\<not> covers (region_of vp) gpa
    \<and> (\<exists>hs'. vm_guest_memory_read map_phys vd gpa True 1 vmid type hs
          = Done (Some [phys_mem hs (part_hpa_base vp + pt_size (vm_mm_partition vp))], hs'))
    \<and> vm_guest_memory_read map_phys vd gpa' True len vmid type hs = Fault"
proof (intro conjI)
  let ?p = "vm_mm_partition vp"
  have g: "unat gpa = unat (pt_start ?p) + unat (pt_size ?p)" unfolding assms(10) by (rule slot_end[OF assms(2)])
  show "\<not> covers (region_of vp) gpa" by (simp add: region_of_def in_range_def g)
  have "find_vpart gpa vd = Some vp" using g by (simp add: find_vpart_def assms(1,10) word_le_nat_alt)
  then have h: "vm_gpa_to_hpa vd gpa = part_hpa_base vp + pt_size ?p" by (simp add: vm_gpa_to_hpa_def assms(10))
  have "unat (part_hpa_base vp + pt_size ?p) + unat (1 :: u64) + 4096 \<le> 2 ^ 64"
    using assms(4) by (simp add: unat_word_ariths(1))
  from host_read_ok[OF assms(3) _ this assms(5-8), of map_phys]
  show "\<exists>hs'. vm_guest_memory_read map_phys vd gpa True 1 vmid type hs = Done (Some [phys_mem hs (part_hpa_base vp + pt_size ?p)], hs')"
    using host_window_valid[of map_phys, OF assms(9)] by (auto simp: vm_guest_memory_read_def h Let_def upt_rec)
  define m where "m = read_maps hs (nat vmid) (nat type)"
  have l: "4 \<le> unat len" "unat len \<le> unat (mapped_size m)" using assms(13,14) by (simp_all add: m_def word_le_nat_alt)
  have big: "unat (- 3 :: u64) = 2 ^ 64 - 3" by simp
  have "- 3 + len = len - 3" by simp
  then have e: "unat (- 3 + len) = unat len - 3" using l(1) by (simp add: unat_sub word_le_nat_alt)
  have w: "unat (mapped_hpa m) + unat (mapped_size m) < 2 ^ 63" using assms(15) by (simp add: m_def)
  then have s: "unat (mapped_hpa m + mapped_size m) = unat (mapped_hpa m) + unat (mapped_size m)" by (simp add: unat_word_ariths(1))
  have "\<not> - 3 < mapped_hpa m" "\<not> mapped_hpa m + mapped_size m < - 3 + len"
    unfolding word_less_nat_alt s e big using w l by simp_all
  then have win: "host_window map_phys (- 3) len m = m" using assms(12) by (simp add: host_window_def Let_def m_def)
  have "unat (- 3 - mapped_hpa m) = 2 ^ 64 - 3 - unat (mapped_hpa m)"
    using w big by (subst unat_sub) (simp_all add: word_le_nat_alt)
  then have "\<not> in_window (- 3) len m" using w l by (simp add: in_window_def)
  moreover have "\<not> bad_access True len vmid type hs"
    using l(1) assms(5-8) by (auto simp: bad_access_def MAX_VIRTIO_TYPE_def)
  moreover have "vm_gpa_to_hpa vd gpa' = - 3" using assms(11) by (simp add: vm_gpa_to_hpa_def ESRCH_def)
  ultimately show "vm_guest_memory_read map_phys vd gpa' True len vmid type hs = Fault"
    using win assms(12) by (simp add: vm_guest_memory_read_def vm_host_memory_read_def m_def[symmetric] Let_def)
qed

theorem guest_read_outside_partition_witness:
  "\<exists>vd hs. (\<exists>hs'. vm_guest_memory_read (\<lambda>a n. Some a) vd 0x80400000 True 1 1 0 hs = Done (Some [0], hs'))
    \<and> vm_guest_memory_read (\<lambda>a n. Some a) vd 0x10000000 True 8 1 0 hs = Fault"
proof -
  let ?vd = "\<lparr>vm_mm_domain = None, ptables = s2_four, idle_vpart_list = [], mapped_vpart_list = [ram_part]\<rparr>"
  let ?hs = "host_new\<lparr>read_maps := (\<lambda>_ _. \<lparr>hva = Some 0, mapped_hpa = 0x40200000, mapped_size = 0x1000, map_valid = True\<rparr>)\<rparr>"
  have "slot_ok (vm_mm_partition ram_part)" "windows_ok ?hs"
    by (simp_all add: slot_ok_def ram_part_def windows_ok_def window_ok_def host_new_def)
  from guest_read_outside_partition[where vd = "?vd" and vps = "[]", OF _ this, of 1 0 "\<lambda>a n. Some a" "0x80400000" "0x10000000" 8]
  show ?thesis by (intro exI[of _ ?vd] exI[of _ ?hs]) (auto simp: ram_part_def host_new_def find_vpart_def)
qed

end
