(* ===== verification/Vm_Life.thy ===== *)
theory Vm_Life
  imports Vmid
begin

text \<open>
  The life of a VM and of its vCPUs: the state switches of \<^verbatim>\<open>vm_cpu.c\<close>, the operations on all vCPUs of a
  VM in \<^verbatim>\<open>vm.c\<close>, and the guest commands of \<^verbatim>\<open>vm_manager.c\<close>. The flags of
  a kernel thread that decide whether it can run are those of \<^verbatim>\<open>kernel/sched.c\<close>. Calls into other components
  are recorded as events, in the order of the code. Taking the lock of a VM that is held never ends.
\<close>

section \<open>Threads\<close>

text \<open>
  The flags _THREAD_PRESTART, _THREAD_SUSPENDED, _THREAD_DEAD and _THREAD_PENDING of the thread state, and
  whether a timeout of the thread is active.
\<close>

record k_thread =
  prestart :: bool
  suspended :: bool
  dead :: bool
  pending :: bool
  timeout :: bool

definition k_thread_start :: "k_thread \<Rightarrow> k_thread" where
  "k_thread_start t = (if \<not> prestart t then t else t\<lparr>prestart := False\<rparr>)"

definition k_wakeup :: "k_thread \<Rightarrow> k_thread" where
  "k_wakeup t =
    (if pending t then t
     else if \<not> timeout t \<and> \<not> (suspended t \<and> \<not> prestart t \<and> \<not> dead t) then t
     else t\<lparr>timeout := False, suspended := False\<rparr>)"

definition k_thread_suspend :: "k_thread \<Rightarrow> k_thread" where
  "k_thread_suspend t = t\<lparr>timeout := False, suspended := True\<rparr>"

definition k_thread_abort :: "k_thread \<Rightarrow> k_thread" where
  "k_thread_abort t = (if dead t then t else t\<lparr>dead := True, pending := False, timeout := False\<rparr>)"

definition runnable :: "k_thread \<Rightarrow> bool" where
  "runnable t \<longleftrightarrow> \<not> prestart t \<and> \<not> suspended t \<and> \<not> dead t \<and> \<not> pending t"

section \<open>vCPUs and VMs\<close>

datatype vcpu_state = VCPU_STATE_READY | VCPU_STATE_RUNNING | VCPU_STATE_PAUSED | VCPU_STATE_HALTED
  | VCPU_STATE_UNKNOWN | VCPU_STATE_RESET

datatype vm_status = VM_STATE_NEVER_RUN | VM_STATE_RUNNING | VM_STATE_PAUSE | VM_STATE_HALT | VM_STATE_ERROR

datatype event = Load_internal_int nat | Save_internal_int nat | Arch_vcpu_init nat | Requeue nat | Context_save nat
  | Context_load nat | Load_os_image | Ipi nat | Device_deinit | Mem_apart_remove | Vcpu_deinit nat | Vdev_pause nat

record z_vcpu =
  vcpu_state :: vcpu_state
  is_poweroff :: bool
  resume_signal :: bool
  deleting :: bool
  vcpu_thread :: k_thread

record z_vm =
  vm_status :: vm_status
  vm_vcpus :: "z_vcpu option list"
  vm_lock :: bool
  vm_vmid :: u16
  events :: "event list"

definition log_event :: "event \<Rightarrow> z_vm \<Rightarrow> z_vm" where
  "log_event e vm = vm\<lparr>events := events vm @ [e]\<rparr>"

definition upd_vcpu :: "nat \<Rightarrow> (z_vcpu \<Rightarrow> z_vcpu) \<Rightarrow> z_vm \<Rightarrow> z_vm" where
  "upd_vcpu i f vm = vm\<lparr>vm_vcpus := (vm_vcpus vm)[i := map_option f (vm_vcpus vm ! i)]\<rparr>"

section \<open>Switching the state of a vCPU\<close>

definition vcpu_state_to_ready :: "nat \<Rightarrow> z_vcpu \<Rightarrow> z_vm \<Rightarrow> int \<times> z_vm" where
  "vcpu_state_to_ready i v vm = (case vcpu_state v of
     VCPU_STATE_UNKNOWN \<Rightarrow> (0, upd_vcpu i (\<lambda>v. v\<lparr>vcpu_state := VCPU_STATE_READY, vcpu_thread := k_thread_start (vcpu_thread v)\<rparr>) vm)
   | VCPU_STATE_READY \<Rightarrow> (0, upd_vcpu i (\<lambda>v. v\<lparr>vcpu_state := VCPU_STATE_READY, vcpu_thread := k_thread_start (vcpu_thread v)\<rparr>) vm)
   | VCPU_STATE_RUNNING \<Rightarrow> (0, upd_vcpu i (\<lambda>v. v\<lparr>resume_signal := True\<rparr>) vm)
   | VCPU_STATE_RESET \<Rightarrow> (0, log_event (Load_internal_int i)
       (upd_vcpu i (\<lambda>v. v\<lparr>vcpu_state := VCPU_STATE_READY, vcpu_thread := k_wakeup (vcpu_thread v)\<rparr>) vm))
   | VCPU_STATE_PAUSED \<Rightarrow> (0, log_event (Load_internal_int i)
       (upd_vcpu i (\<lambda>v. v\<lparr>vcpu_state := VCPU_STATE_READY, vcpu_thread := k_wakeup (vcpu_thread v)\<rparr>) vm))
   | VCPU_STATE_HALTED \<Rightarrow> (- EINVAL, vm))"

definition vcpu_state_to_reset :: "nat \<Rightarrow> z_vcpu \<Rightarrow> z_vm \<Rightarrow> int \<times> z_vm" where
  "vcpu_state_to_reset i v vm =
    (let clear = upd_vcpu i (\<lambda>v. v\<lparr>resume_signal := False\<rparr>)
     in case vcpu_state v of
          VCPU_STATE_READY \<Rightarrow> (0, clear (log_event (Requeue i) vm))
        | VCPU_STATE_RESET \<Rightarrow> (0, clear vm)
        | VCPU_STATE_RUNNING \<Rightarrow> (0, clear (log_event (Arch_vcpu_init i) vm))
        | VCPU_STATE_PAUSED \<Rightarrow> (0, clear (log_event (Arch_vcpu_init i) vm))
        | _ \<Rightarrow> (- EINVAL, vm))"

definition vcpu_state_to_paused :: "nat \<Rightarrow> z_vcpu \<Rightarrow> z_vm \<Rightarrow> int \<times> z_vm" where
  "vcpu_state_to_paused i v vm =
    (if vcpu_state v = VCPU_STATE_READY \<or> vcpu_state v = VCPU_STATE_RUNNING
     then (0, upd_vcpu i (\<lambda>v. v\<lparr>vcpu_thread := k_thread_suspend (vcpu_thread v)\<rparr>)
                (log_event (Save_internal_int i) (upd_vcpu i (\<lambda>v. v\<lparr>resume_signal := False\<rparr>) vm)))
     else if vcpu_state v = VCPU_STATE_RESET \<or> vcpu_state v = VCPU_STATE_PAUSED \<or> vcpu_state v = VCPU_STATE_UNKNOWN
     then (0, vm) else (- EINVAL, vm))"

text \<open>
  For a vCPU that never ran, or was reset, the VM is deleted: \<^verbatim>\<open>vm_delete\<close> takes the lock of the VM, and
  gives back the vCPU whose state is written afterwards.
\<close>

definition vcpu_state_to_halted :: "nat \<Rightarrow> z_vcpu \<Rightarrow> z_vm \<Rightarrow> (int \<times> z_vm) outcome" where
  "vcpu_state_to_halted i v vm = (case vcpu_state v of
     VCPU_STATE_HALTED \<Rightarrow> Done (- EINVAL, vm)
   | VCPU_STATE_RESET \<Rightarrow> if vm_lock vm then Assertion else Fault
   | VCPU_STATE_UNKNOWN \<Rightarrow> if vm_lock vm then Assertion else Fault
   | _ \<Rightarrow> Done (0, upd_vcpu i (\<lambda>v. v\<lparr>vcpu_thread := k_thread_abort (vcpu_thread v)\<rparr>) vm))"

definition vcpu_state_switch :: "nat \<Rightarrow> vcpu_state \<Rightarrow> z_vm \<Rightarrow> (int \<times> z_vm) outcome" where
  "vcpu_state_switch i new_state vm =
    (if \<not> i < length (vm_vcpus vm) then Fault
     else case vm_vcpus vm ! i of
       None \<Rightarrow> Fault
     | Some v \<Rightarrow>
         if vcpu_state v = new_state then Done (0, vm)
         else bind_outcome (case new_state of
                VCPU_STATE_READY \<Rightarrow> Done (vcpu_state_to_ready i v vm)
              | VCPU_STATE_RUNNING \<Rightarrow> Done (0, vm)
              | VCPU_STATE_RESET \<Rightarrow> Done (vcpu_state_to_reset i v vm)
              | VCPU_STATE_PAUSED \<Rightarrow> Done (vcpu_state_to_paused i v vm)
              | VCPU_STATE_HALTED \<Rightarrow> vcpu_state_to_halted i v vm
              | VCPU_STATE_UNKNOWN \<Rightarrow> Done (0, vm))
           (\<lambda>(ret, vm). if ret < 0 then Done (ret, vm)
              else Done (ret, upd_vcpu i (\<lambda>v. v\<lparr>vcpu_state := new_state\<rparr>) vm)))"

definition vm_vcpu_ready :: "nat \<Rightarrow> z_vm \<Rightarrow> (int \<times> z_vm) outcome" where
  "vm_vcpu_ready i = vcpu_state_switch i VCPU_STATE_READY"

definition vm_vcpu_pause :: "nat \<Rightarrow> z_vm \<Rightarrow> (int \<times> z_vm) outcome" where
  "vm_vcpu_pause i = vcpu_state_switch i VCPU_STATE_PAUSED"

definition vm_vcpu_halt :: "nat \<Rightarrow> z_vm \<Rightarrow> (int \<times> z_vm) outcome" where
  "vm_vcpu_halt i = vcpu_state_switch i VCPU_STATE_HALTED"

definition vm_vcpu_reset :: "nat \<Rightarrow> z_vm \<Rightarrow> (int \<times> z_vm) outcome" where
  "vm_vcpu_reset i = vcpu_state_switch i VCPU_STATE_RESET"

text \<open>A context switch; \<^term>\<open>None\<close> is a thread that is not a vCPU.\<close>

definition switched_out :: "nat \<Rightarrow> z_vm \<Rightarrow> z_vm" where
  "switched_out i vm = (case map_option vcpu_state (vm_vcpus vm ! i) of
     Some VCPU_STATE_RUNNING \<Rightarrow> upd_vcpu i (\<lambda>v. v\<lparr>vcpu_state := VCPU_STATE_READY\<rparr>) vm
   | Some VCPU_STATE_PAUSED \<Rightarrow> log_event (Vdev_pause i) vm
   | Some VCPU_STATE_HALTED \<Rightarrow> log_event (Vdev_pause i) vm
   | _ \<Rightarrow> vm)"

definition vcpu_context_switch :: "nat option \<Rightarrow> nat option \<Rightarrow> z_vm \<Rightarrow> z_vm" where
  "vcpu_context_switch new_thread old_thread vm =
    (let vm = (case old_thread of
           None \<Rightarrow> vm
         | Some i \<Rightarrow> switched_out i (log_event (Context_save i) vm))
     in case new_thread of
          None \<Rightarrow> vm
        | Some i \<Rightarrow> upd_vcpu i (\<lambda>v. v\<lparr>resume_signal := False, vcpu_state := VCPU_STATE_RUNNING\<rparr>)
                     (log_event (Context_load i) vm))"

definition do_vcpu_swap :: "nat option \<Rightarrow> nat option \<Rightarrow> z_vm \<Rightarrow> z_vm" where
  "do_vcpu_swap new_thread old_thread vm =
    (if new_thread = old_thread then vm else vcpu_context_switch new_thread old_thread vm)"

section \<open>All vCPUs of a VM\<close>

text \<open>
  The loops run with the lock of the VM. Their state is the last result and whether a switch failed; a vCPU that
  is missing ends the loop.
\<close>

fun vcpus_loop :: "(nat \<Rightarrow> z_vcpu \<Rightarrow> int \<Rightarrow> z_vm \<Rightarrow> (int \<times> z_vm) outcome) \<Rightarrow> nat list \<Rightarrow> int \<Rightarrow> bool \<Rightarrow> z_vm
    \<Rightarrow> (bool \<times> int \<times> bool \<times> z_vm) outcome" where
  "vcpus_loop f [] ret failed vm = Done (True, ret, failed, vm)"
| "vcpus_loop f (i # is) ret failed vm = (case vm_vcpus vm ! i of
     None \<Rightarrow> Done (False, - ENODEV, failed, vm)
   | Some v \<Rightarrow> bind_outcome (f i v ret vm) (\<lambda>(ret, vm). vcpus_loop f is ret (failed \<or> ret < 0) vm))"

definition with_vm_lock :: "(z_vm \<Rightarrow> (bool \<times> int \<times> bool \<times> z_vm) outcome) \<Rightarrow> (bool \<Rightarrow> z_vm \<Rightarrow> z_vm) \<Rightarrow> z_vm \<Rightarrow> (int \<times> z_vm) outcome" where
  "with_vm_lock body finish vm =
    (if vm_lock vm then Assertion
     else bind_outcome (body (vm\<lparr>vm_lock := True\<rparr>)) (\<lambda>(whole, ret, failed, vm).
       Done (ret, (if whole then finish failed vm else vm)\<lparr>vm_lock := False\<rparr>)))"

definition ready_step :: "bool \<Rightarrow> nat \<Rightarrow> z_vcpu \<Rightarrow> int \<Rightarrow> z_vm \<Rightarrow> (int \<times> z_vm) outcome" where
  "ready_step paused i v ret vm =
    bind_outcome (if paused then vm_vcpu_ready i vm else Done (ret, vm)) (\<lambda>(ret, vm).
      if \<not> is_poweroff v then vm_vcpu_ready i vm else Done (ret, vm))"

definition vm_vcpus_ready :: "z_vm \<Rightarrow> (int \<times> z_vm) outcome" where
  "vm_vcpus_ready vm =
    with_vm_lock (vcpus_loop (ready_step (vm_status vm = VM_STATE_PAUSE)) [0..<length (vm_vcpus vm)] 0 False)
      (\<lambda>failed vm. if failed then vm else vm\<lparr>vm_status := VM_STATE_RUNNING\<rparr>) vm"

definition vm_vcpus_pause :: "z_vm \<Rightarrow> (int \<times> z_vm) outcome" where
  "vm_vcpus_pause vm =
    with_vm_lock (vcpus_loop (\<lambda>i v ret. vm_vcpu_pause i) [0..<length (vm_vcpus vm)] 0 False)
      (\<lambda>failed vm. if failed then vm else vm\<lparr>vm_status := VM_STATE_PAUSE\<rparr>) vm"

definition vm_vcpus_halt :: "z_vm \<Rightarrow> (int \<times> z_vm) outcome" where
  "vm_vcpus_halt vm =
    with_vm_lock (vcpus_loop (\<lambda>i v ret. vm_vcpu_halt i) [0..<length (vm_vcpus vm)] 0 False)
      (\<lambda>failed vm. if failed then vm else vm\<lparr>vm_status := VM_STATE_HALT\<rparr>) vm"

text \<open>The results of the single resets are dropped.\<close>

definition vm_vcpus_reset :: "z_vm \<Rightarrow> (int \<times> z_vm) outcome" where
  "vm_vcpus_reset vm =
    with_vm_lock (vcpus_loop (\<lambda>i v ret vm. bind_outcome (vm_vcpu_reset i vm) (\<lambda>(_, vm). Done (0, vm)))
        [0..<length (vm_vcpus vm)] 0 False)
      (\<lambda>_ vm. log_event Load_os_image (vm\<lparr>vm_status := VM_STATE_HALT\<rparr>)) vm"

text \<open>
  Deleting a VM. The structure of the VM is given back before its lock is released and its identifier is read;
  \<^verbatim>\<open>stale\<close> is what is found there. The result is the calls that were made and the table of VMs.
\<close>

definition vm_delete :: "u16 \<Rightarrow> z_vm \<Rightarrow> zvm_manage_info \<Rightarrow> (int \<times> event list \<times> zvm_manage_info) outcome" where
  "vm_delete stale vm s =
    (if vm_lock vm then Assertion
     else if None \<in> set (vm_vcpus vm) then Fault
     else let evs = [Device_deinit, Mem_apart_remove] @ map Vcpu_deinit [0..<length (vm_vcpus vm)];
              s = s\<lparr>vms := (vms s)[unat (vm_vmid vm) := None]\<rparr>
          in case free_vmid (ucast stale) s of (ret, s) \<Rightarrow> Done (ret, evs, s))"

section \<open>Guest commands\<close>

definition z_run_guest :: "z_vm \<Rightarrow> (int \<times> z_vm) outcome" where
  "z_run_guest vm = (case vm_status vm of
     VM_STATE_NEVER_RUN \<Rightarrow> vm_vcpus_ready (log_event Load_os_image vm)
   | VM_STATE_PAUSE \<Rightarrow> vm_vcpus_ready vm
   | VM_STATE_RUNNING \<Rightarrow> Done (0, vm)
   | _ \<Rightarrow> Done (- ENODEV, vm))"

definition z_pause_guest :: "z_vm \<Rightarrow> (int \<times> z_vm) outcome" where
  "z_pause_guest vm = (if vm_status vm \<noteq> VM_STATE_RUNNING then Done (0, vm) else vm_vcpus_pause vm)"

definition z_shutdown_guest :: "z_vm \<Rightarrow> int" where "z_shutdown_guest vm = 0"
definition z_reboot_guest :: "z_vm \<Rightarrow> int" where "z_reboot_guest vm = 0"

text \<open>Waiting for the vCPU threads; \<^verbatim>\<open>seen k\<close> is the number of vCPUs left in round k.\<close>

function wait_exit :: "(nat \<Rightarrow> int) \<Rightarrow> nat \<Rightarrow> nat" where
  "wait_exit seen retry = (if seen retry \<le> 0 then retry else if 200 < retry + 1 then retry + 1 else wait_exit seen (retry + 1))"
  by pat_completeness auto
termination by (relation "measure (\<lambda>(_, retry). 200 - retry)") auto

declare wait_exit.simps [simp del]

text \<open>\<^verbatim>\<open>wait\<close> is what the threads of the vCPUs do meanwhile.\<close>

definition z_delete_guest :: "u16 \<Rightarrow> (z_vm \<Rightarrow> z_vm) \<Rightarrow> z_vm \<Rightarrow> zvm_manage_info \<Rightarrow> (int \<times> event list \<times> zvm_manage_info) outcome" where
  "z_delete_guest stale wait vm s = (case vm_status vm of
     VM_STATE_RUNNING \<Rightarrow>
       if None \<in> set (vm_vcpus vm) then Fault
       else let vm = vm\<lparr>vm_status := VM_STATE_HALT, vm_vcpus := map (map_option (\<lambda>v. v\<lparr>deleting := True\<rparr>)) (vm_vcpus vm),
                        events := events vm @ map Ipi [0..<length (vm_vcpus vm)]\<rparr>
            in bind_outcome (vm_vcpus_halt (wait vm)) (\<lambda>(_, vm). bind_outcome (vm_delete stale vm s) (\<lambda>(_, r). Done (0, r)))
   | VM_STATE_PAUSE \<Rightarrow> bind_outcome (vm_delete stale vm s) (\<lambda>(_, r). Done (0, r))
   | VM_STATE_NEVER_RUN \<Rightarrow> bind_outcome (vm_delete stale vm s) (\<lambda>(_, r). Done (0, r))
   | _ \<Rightarrow> Done (- ENODEV, [], s))"

end
