(* ===== verification/Vm_Life_Props.thy ===== *)
theory Vm_Life_Props
  imports Vm_Life
begin

text \<open>
  The states that a VM can reach: what ties the state of a vCPU to its thread, for every operation and in every
  sequence of operations.
\<close>

section \<open>Well-formed vCPUs\<close>

definition vcpu_wf :: "z_vcpu \<Rightarrow> bool" where
  "vcpu_wf v \<longleftrightarrow> (vcpu_state v = VCPU_STATE_UNKNOWN \<longrightarrow> prestart (vcpu_thread v))
     \<and> (vcpu_state v = VCPU_STATE_HALTED \<longleftrightarrow> dead (vcpu_thread v))
     \<and> (vcpu_state v = VCPU_STATE_RUNNING \<longrightarrow> \<not> prestart (vcpu_thread v))"

definition vm_wf :: "z_vm \<Rightarrow> bool" where
  "vm_wf vm \<longleftrightarrow> (\<forall>x\<in>set (vm_vcpus vm). \<exists>v. x = Some v \<and> vcpu_wf v)"

text \<open>A vCPU stays well-formed, and halted once it is.\<close>

definition vcpu_next :: "z_vcpu \<Rightarrow> z_vcpu \<Rightarrow> bool" where
  "vcpu_next v v' \<longleftrightarrow> (vcpu_wf v \<longrightarrow> vcpu_wf v' \<and> (vcpu_state v = VCPU_STATE_HALTED \<longrightarrow> vcpu_state v' = VCPU_STATE_HALTED))"

definition vm_next :: "z_vm \<Rightarrow> z_vm \<Rightarrow> bool" where
  "vm_next vm vm' \<longleftrightarrow> list_all2 (rel_option vcpu_next) (vm_vcpus vm) (vm_vcpus vm')"

lemma vcpu_next_refl: "vcpu_next v v"
  by (simp add: vcpu_next_def)

lemma vcpu_next_trans: "vcpu_next a b \<Longrightarrow> vcpu_next b c \<Longrightarrow> vcpu_next a c"
  by (auto simp: vcpu_next_def)

lemma vm_next_refl: "vm_next vm vm"
  unfolding vm_next_def by (intro list_all2_refl option.rel_refl vcpu_next_refl)

lemma vm_next_trans: "vm_next a b \<Longrightarrow> vm_next b c \<Longrightarrow> vm_next a c"
proof -
  have "rel_option vcpu_next x y \<Longrightarrow> rel_option vcpu_next y z \<Longrightarrow> rel_option vcpu_next x z" for x y z
    by (cases x; cases y; cases z) (auto intro: vcpu_next_trans)
  then show "vm_next a b \<Longrightarrow> vm_next b c \<Longrightarrow> vm_next a c" unfolding vm_next_def by (rule list_all2_trans)
qed

lemma vm_next_cong: "vm_vcpus vm' = vm_vcpus vm \<Longrightarrow> vm_next vm vm'"
  using vm_next_refl[of vm] by (simp add: vm_next_def)

lemma vm_next_upd:
  assumes "vm_vcpus vm ! i = Some v" "vm_vcpus vm' = (vm_vcpus vm)[i := Some v']" "vcpu_next v v'"
  shows "vm_next vm vm'"
proof -
  have "rel_option vcpu_next (vm_vcpus vm ! j) ((vm_vcpus vm)[i := Some v'] ! j)" if "j < length (vm_vcpus vm)" for j
    using assms(1,3) that by (cases "j = i") (auto intro: option.rel_refl vcpu_next_refl)
  then show ?thesis using assms(2) by (simp add: vm_next_def list_all2_conv_all_nth)
qed

lemma upd_vcpu_simps [simp]:
  "vm_status (upd_vcpu i f vm) = vm_status vm" "vm_lock (upd_vcpu i f vm) = vm_lock vm" "events (upd_vcpu i f vm) = events vm" "vm_vmid (upd_vcpu i f vm) = vm_vmid vm"
  "length (vm_vcpus (upd_vcpu i f vm)) = length (vm_vcpus vm)"
  "vm_status (log_event e vm) = vm_status vm" "vm_lock (log_event e vm) = vm_lock vm" "vm_vcpus (log_event e vm) = vm_vcpus vm"
  "vm_vmid (log_event e vm) = vm_vmid vm"
  by (simp_all add: upd_vcpu_def log_event_def)

lemma upd_vcpu_Some: "vm_vcpus vm ! i = Some v \<Longrightarrow> vm_vcpus (upd_vcpu i f vm) = (vm_vcpus vm)[i := Some (f v)]"
  by (simp add: upd_vcpu_def)

text \<open>What a state switch does to the VM: it changes one vCPU.\<close>

definition switch_target :: "vcpu_state \<Rightarrow> z_vcpu \<Rightarrow> z_vcpu" where
  "switch_target new v =
    (if vcpu_state v = new then v
     else case new of
       VCPU_STATE_READY \<Rightarrow> (case vcpu_state v of
           VCPU_STATE_UNKNOWN \<Rightarrow> v\<lparr>vcpu_thread := k_thread_start (vcpu_thread v), vcpu_state := VCPU_STATE_READY\<rparr>
         | VCPU_STATE_RUNNING \<Rightarrow> v\<lparr>resume_signal := True, vcpu_state := VCPU_STATE_READY\<rparr>
         | VCPU_STATE_HALTED \<Rightarrow> v
         | _ \<Rightarrow> v\<lparr>vcpu_thread := k_wakeup (vcpu_thread v), vcpu_state := VCPU_STATE_READY\<rparr>)
     | VCPU_STATE_PAUSED \<Rightarrow> (case vcpu_state v of
           VCPU_STATE_HALTED \<Rightarrow> v
         | VCPU_STATE_READY \<Rightarrow> v\<lparr>resume_signal := False, vcpu_thread := k_thread_suspend (vcpu_thread v), vcpu_state := VCPU_STATE_PAUSED\<rparr>
         | VCPU_STATE_RUNNING \<Rightarrow> v\<lparr>resume_signal := False, vcpu_thread := k_thread_suspend (vcpu_thread v), vcpu_state := VCPU_STATE_PAUSED\<rparr>
         | _ \<Rightarrow> v\<lparr>vcpu_state := VCPU_STATE_PAUSED\<rparr>)
     | VCPU_STATE_HALTED \<Rightarrow> v\<lparr>vcpu_thread := k_thread_abort (vcpu_thread v), vcpu_state := VCPU_STATE_HALTED\<rparr>
     | VCPU_STATE_RESET \<Rightarrow> (case vcpu_state v of
           VCPU_STATE_UNKNOWN \<Rightarrow> v | VCPU_STATE_HALTED \<Rightarrow> v
         | _ \<Rightarrow> v\<lparr>resume_signal := False, vcpu_state := VCPU_STATE_RESET\<rparr>)
     | _ \<Rightarrow> v\<lparr>vcpu_state := new\<rparr>)"

lemma list_upd_same: "xs ! i = x \<Longrightarrow> xs[i := x] = xs"
  by auto

lemma switch_effect:
  assumes "vcpu_state_switch i new vm = Done (ret, vm')" "new \<noteq> VCPU_STATE_RUNNING" "new \<noteq> VCPU_STATE_UNKNOWN"
  shows "\<exists>v. i < length (vm_vcpus vm) \<and> vm_vcpus vm ! i = Some v \<and> vm_vcpus vm' = (vm_vcpus vm)[i := Some (switch_target new v)]
    \<and> vm_status vm' = vm_status vm \<and> vm_lock vm' = vm_lock vm \<and> vm_vmid vm' = vm_vmid vm \<and> (ret < 0 \<longleftrightarrow> vcpu_state v \<noteq> new \<and>
        (vcpu_state v = VCPU_STATE_HALTED \<or> new = VCPU_STATE_RESET \<and> vcpu_state v = VCPU_STATE_UNKNOWN)) \<and> (ret < 0 \<or> ret = 0)"
proof -
  have i: "i < length (vm_vcpus vm)" using assms(1) by (auto simp: vcpu_state_switch_def split: if_splits)
  obtain v where v: "vm_vcpus vm ! i = Some v" using assms(1) i by (cases "vm_vcpus vm ! i") (auto simp: vcpu_state_switch_def)
  show ?thesis
    using assms i v
    by (cases new; cases "vcpu_state v")
      (auto simp: vcpu_state_switch_def vcpu_state_to_ready_def vcpu_state_to_paused_def vcpu_state_to_halted_def
        vcpu_state_to_reset_def switch_target_def Let_def upd_vcpu_Some list_upd_same errno_defs split: if_splits)
qed

lemma switch_target_next:
  "new \<noteq> VCPU_STATE_RUNNING \<Longrightarrow> new \<noteq> VCPU_STATE_UNKNOWN \<Longrightarrow> vcpu_next v (switch_target new v)"
  by (cases new; cases "vcpu_state v")
    (simp_all add: vcpu_next_def vcpu_wf_def switch_target_def k_thread_start_def k_wakeup_def k_thread_suspend_def k_thread_abort_def)

lemma switch_next:
  assumes "vcpu_state_switch i new vm = Done (ret, vm')" "new \<noteq> VCPU_STATE_RUNNING" "new \<noteq> VCPU_STATE_UNKNOWN"
  shows "vm_next vm vm'"
  using switch_effect[OF assms] switch_target_next[OF assms(2,3)] by (auto intro: vm_next_upd)

lemmas vm_vcpu_defs = vm_vcpu_ready_def vm_vcpu_pause_def vm_vcpu_halt_def vm_vcpu_reset_def

lemma vcpus_loop_next:
  assumes f: "\<And>i v ret vm ret' vm'. f i v ret vm = Done (ret', vm') \<Longrightarrow> vm_next vm vm'"
    and "vcpus_loop f is ret failed vm = Done (whole, ret', failed', vm')"
  shows "vm_next vm vm'"
  using assms(2)
proof (induction "is" arbitrary: ret failed vm)
  case (Cons i "is")
  show ?case
  proof (cases "vm_vcpus vm ! i")
    case (Some v)
    then obtain r vm1 where "f i v ret vm = Done (r, vm1)" and rest: "vcpus_loop f is r (failed \<or> r < 0) vm1 = Done (whole, ret', failed', vm')"
      using Cons.prems by (cases "f i v ret vm") auto
    with f have "vm_next vm vm1" by blast
    with Cons.IH[OF rest] show ?thesis by (blast intro: vm_next_trans)
  qed (use Cons.prems in \<open>simp add: vm_next_refl\<close>)
qed (simp add: vm_next_refl)

lemma with_vm_lock_next:
  assumes body: "\<And>vm whole ret failed vm'. body vm = Done (whole, ret, failed, vm') \<Longrightarrow> vm_next vm vm'"
    and finish: "\<And>failed vm. vm_vcpus (finish failed vm) = vm_vcpus vm"
    and "with_vm_lock body finish vm = Done (ret, vm')"
  shows "vm_next vm vm'"
proof -
  obtain whole r failed vm1 where b: "body (vm\<lparr>vm_lock := True\<rparr>) = Done (whole, r, failed, vm1)"
    using assms(3) by (cases "body (vm\<lparr>vm_lock := True\<rparr>)") (auto simp: with_vm_lock_def split: if_splits)
  then have "vm_vcpus vm' = vm_vcpus vm1" using assms(3) finish by (auto simp: with_vm_lock_def split: if_splits)
  then show ?thesis using body[OF b] by (simp add: vm_next_def)
qed

lemma ready_step_next: "ready_step p i v ret vm = Done (ret', vm') \<Longrightarrow> vm_next vm vm'"
proof -
  assume st: "ready_step p i v ret vm = Done (ret', vm')"
  then obtain r vm1 where a: "(if p then vm_vcpu_ready i vm else Done (ret, vm)) = Done (r, vm1)"
    and b: "(if \<not> is_poweroff v then vm_vcpu_ready i vm1 else Done (r, vm1)) = Done (ret', vm')"
    by (cases "if p then vm_vcpu_ready i vm else Done (ret, vm)") (auto simp: ready_step_def)
  from a have "vm_next vm vm1" by (auto simp: vm_vcpu_ready_def vm_next_refl dest: switch_next split: if_splits)
  moreover from b have "vm_next vm1 vm'" by (auto simp: vm_vcpu_ready_def vm_next_refl dest: switch_next split: if_splits)
  ultimately show ?thesis by (rule vm_next_trans)
qed

lemma vm_vcpus_ready_next: "vm_vcpus_ready vm = Done (ret, vm') \<Longrightarrow> vm_next vm vm'"
  unfolding vm_vcpus_ready_def by (erule with_vm_lock_next[rotated 2]) (auto elim: vcpus_loop_next[rotated] intro: ready_step_next)

lemma vm_vcpus_pause_next: "vm_vcpus_pause vm = Done (ret, vm') \<Longrightarrow> vm_next vm vm'"
  unfolding vm_vcpus_pause_def
  by (erule with_vm_lock_next[rotated 2]) (auto elim!: vcpus_loop_next[rotated] simp: vm_vcpu_defs dest: switch_next)

lemma vm_vcpus_halt_next: "vm_vcpus_halt vm = Done (ret, vm') \<Longrightarrow> vm_next vm vm'"
  unfolding vm_vcpus_halt_def
  by (erule with_vm_lock_next[rotated 2]) (auto elim!: vcpus_loop_next[rotated] simp: vm_vcpu_defs dest: switch_next)

lemma reset_step_next: "bind_outcome (vm_vcpu_reset i vm) (\<lambda>(_, vm). Done (0 :: int, vm)) = Done (r, vm') \<Longrightarrow> vm_next vm vm'"
  by (cases "vm_vcpu_reset i vm") (auto simp: vm_vcpu_defs dest: switch_next)

lemma vm_vcpus_reset_next: "vm_vcpus_reset vm = Done (ret, vm') \<Longrightarrow> vm_next vm vm'"
  unfolding vm_vcpus_reset_def
  by (erule with_vm_lock_next[rotated 2], erule vcpus_loop_next[rotated], erule reset_step_next) simp

section \<open>Reachable states\<close>

text \<open>
  One step of a VM: a guest command, an operation on all vCPUs, a power call for one vCPU, or a context switch
  of the scheduler to a thread that is runnable.
\<close>

inductive vm_step :: "z_vm \<Rightarrow> z_vm \<Rightarrow> bool" where
  run: "z_run_guest vm = Done (ret, vm') \<Longrightarrow> vm_step vm vm'"
| pause: "z_pause_guest vm = Done (ret, vm') \<Longrightarrow> vm_step vm vm'"
| reset: "vm_vcpus_reset vm = Done (ret, vm') \<Longrightarrow> vm_step vm vm'"
| halt: "vm_vcpus_halt vm = Done (ret, vm') \<Longrightarrow> vm_step vm vm'"
| power_on: "vm_vcpu_ready i vm = Done (ret, vm') \<Longrightarrow> vm_step vm vm'"
| swap_in: "vm_vcpus vm ! i = Some v \<Longrightarrow> runnable (vcpu_thread v) \<Longrightarrow>
    vm_step vm (do_vcpu_swap (Some i) old vm)"
| swap_out: "vm_step vm (do_vcpu_swap None old vm)"

lemma upd_vcpu_next:
  assumes "\<And>v. vm_vcpus vm ! i = Some v \<Longrightarrow> vcpu_next v (f v)"
  shows "vm_next vm (upd_vcpu i f vm)"
proof (cases "vm_vcpus vm ! i")
  case None
  then show ?thesis by (simp add: upd_vcpu_def vm_next_cong list_upd_same)
next
  case (Some v)
  then show ?thesis using assms by (blast intro: vm_next_upd upd_vcpu_Some)
qed

lemma switched_out_next: "vm_next vm (switched_out i vm)"
  by (auto simp: switched_out_def vcpu_next_def vcpu_wf_def intro!: vm_next_refl vm_next_cong upd_vcpu_next
      split: option.split vcpu_state.split)

lemma switched_out_other: "i \<noteq> j \<Longrightarrow> vm_vcpus (switched_out j vm) ! i = vm_vcpus vm ! i"
  by (auto simp: switched_out_def upd_vcpu_def split: option.split vcpu_state.split)

lemma vcpu_swap_next:
  assumes "\<And>i. new = Some i \<Longrightarrow> \<exists>v. vm_vcpus vm ! i = Some v \<and> runnable (vcpu_thread v)"
  shows "vm_next vm (do_vcpu_swap new old vm)"
proof (cases "new = old")
  case False
  define vm1 where "vm1 = (case old of None \<Rightarrow> vm | Some i \<Rightarrow> switched_out i (log_event (Context_save i) vm))"
  have out: "vm_next vm vm1"
  proof (cases old)
    case (Some j)
    then show ?thesis using vm_next_trans[OF vm_next_cong switched_out_next, of "log_event (Context_save j) vm" vm j] by (simp add: vm1_def)
  qed (simp add: vm1_def vm_next_refl)
  have eq: "do_vcpu_swap new old vm = (case new of None \<Rightarrow> vm1 | Some i \<Rightarrow>
      upd_vcpu i (\<lambda>v. v\<lparr>resume_signal := False, vcpu_state := VCPU_STATE_RUNNING\<rparr>) (log_event (Context_load i) vm1))"
    using False unfolding do_vcpu_swap_def vcpu_context_switch_def vm1_def Let_def by simp
  show ?thesis
  proof (cases new)
    case (Some i)
    then obtain v where v: "vm_vcpus vm ! i = Some v" "runnable (vcpu_thread v)" using assms by blast
    have "vm_vcpus vm1 ! i = Some v"
      using False Some v(1) by (cases old) (auto simp: vm1_def switched_out_other)
    then have "vm_next (log_event (Context_load i) vm1) (do_vcpu_swap new old vm)"
      using v(2) unfolding eq unfolding Some option.case by (intro upd_vcpu_next) (simp add: runnable_def vcpu_next_def vcpu_wf_def)
    then show ?thesis using out by (blast intro: vm_next_trans vm_next_cong upd_vcpu_simps)
  qed (use eq out in simp)
qed (simp add: do_vcpu_swap_def vm_next_refl)

lemma vm_step_next: "vm_step vm vm' \<Longrightarrow> vm_next vm vm'"
proof (induction rule: vm_step.induct)
  case (run vm ret vm')
  then show ?case
    using vm_vcpus_ready_next[of "log_event Load_os_image vm"] vm_vcpus_ready_next[of vm]
    by (auto simp: z_run_guest_def vm_next_def vm_next_refl[unfolded vm_next_def] split: vm_status.splits)
next
  case (pause vm ret vm')
  then show ?case by (auto simp: z_pause_guest_def vm_next_refl vm_vcpus_pause_next split: if_splits)
next
  case (power_on i vm ret vm')
  then show ?case by (auto simp: vm_vcpu_defs dest: switch_next)
qed (auto intro: vm_vcpus_reset_next vm_vcpus_halt_next vcpu_swap_next)

lemma vm_steps_next: "vm_step\<^sup>*\<^sup>* vm vm' \<Longrightarrow> vm_next vm vm'"
  by (induction rule: rtranclp_induct) (auto intro: vm_next_refl vm_next_trans vm_step_next)

lemma vm_next_nth:
  assumes "vm_next vm vm'" "vm_wf vm" "i < length (vm_vcpus vm)"
  shows "\<exists>v v'. vm_vcpus vm ! i = Some v \<and> vcpu_wf v \<and> vm_vcpus vm' ! i = Some v' \<and> vcpu_wf v'
    \<and> (vcpu_state v = VCPU_STATE_HALTED \<longrightarrow> vcpu_state v' = VCPU_STATE_HALTED)"
proof -
  obtain v where v: "vm_vcpus vm ! i = Some v" "vcpu_wf v" using assms(2,3) nth_mem unfolding vm_wf_def by blast
  then have "rel_option vcpu_next (Some v) (vm_vcpus vm' ! i)" using assms(1,3) by (metis vm_next_def list_all2_nthD)
  then show ?thesis using v by (auto simp: option_rel_Some1 vcpu_next_def)
qed

lemma vm_next_length: "vm_next vm vm' \<Longrightarrow> length (vm_vcpus vm') = length (vm_vcpus vm)"
  by (simp add: vm_next_def list_all2_lengthD)


text \<open>A new vCPU, and a VM with two of them: the first is started with the VM, the second by a power call.\<close>

definition thread_new :: k_thread where
  "thread_new = \<lparr>prestart = True, suspended = False, dead = False, pending = False, timeout = False\<rparr>"

definition vcpu_new :: "bool \<Rightarrow> z_vcpu" where
  "vcpu_new off = \<lparr>vcpu_state = VCPU_STATE_UNKNOWN, is_poweroff = off, resume_signal = False, deleting = False, vcpu_thread = thread_new\<rparr>"

definition vm_new :: z_vm where
  "vm_new = \<lparr>vm_status = VM_STATE_NEVER_RUN, vm_vcpus = [Some (vcpu_new False), Some (vcpu_new True)], vm_lock = False,
     vm_vmid = 1, events = []\<rparr>"

lemmas vm_new_defs = vm_new_def vcpu_new_def thread_new_def

definition vm_started :: z_vm where
  "vm_started = vm_new\<lparr>vm_status := VM_STATE_RUNNING, events := [Load_os_image],
     vm_vcpus := [Some ((vcpu_new False)\<lparr>vcpu_state := VCPU_STATE_READY, vcpu_thread := thread_new\<lparr>prestart := False\<rparr>\<rparr>), Some (vcpu_new True)]\<rparr>"

lemma run_vm_new: "z_run_guest vm_new = Done (0, vm_started)"
  by code_simp


end
