(* ===== verification/Vm_Commands.thy ===== *)
theory Vm_Commands
  imports Vm_Life_Props
begin

text \<open>
  The guest commands as sequences: pausing and resuming a VM, and deleting it. Two sequences go wrong: a vCPU
  that was not powered on before the pause is lost, and deleting a running VM that has such a vCPU never ends.
\<close>

section \<open>The loop over the vCPUs\<close>

lemma vcpus_loop_each:
  assumes f: "\<And>i v ret vm. \<lbrakk>i < length (vm_vcpus vm); vm_vcpus vm ! i = Some v; P v\<rbrakk> \<Longrightarrow>
      \<exists>vm'. f i v ret vm = Done (0, vm') \<and> vm_vcpus vm' = (vm_vcpus vm)[i := Some (g v)]
        \<and> vm_status vm' = vm_status vm \<and> vm_lock vm' = vm_lock vm \<and> vm_vmid vm' = vm_vmid vm"
    and "distinct is" "\<And>i. i \<in> set is \<Longrightarrow> i < length (vm_vcpus vm) \<and> (\<exists>v. vm_vcpus vm ! i = Some v \<and> P v)"
  shows "\<exists>vm'. vcpus_loop f is 0 False vm = Done (True, 0, False, vm') \<and> vm_status vm' = vm_status vm \<and> vm_lock vm' = vm_lock vm \<and> vm_vmid vm' = vm_vmid vm
    \<and> length (vm_vcpus vm') = length (vm_vcpus vm)
    \<and> (\<forall>j<length (vm_vcpus vm). vm_vcpus vm' ! j = (if j \<in> set is then map_option g (vm_vcpus vm ! j) else vm_vcpus vm ! j))"
  using assms(2,3)
proof (induction "is" arbitrary: vm)
  case (Cons i "is")
  from Cons.prems(2)[of i] obtain v where i: "i < length (vm_vcpus vm)" "vm_vcpus vm ! i = Some v" "P v" by auto
  from f[OF i, of 0] obtain vm1 where vm1: "f i v 0 vm = Done (0, vm1)" "vm_vcpus vm1 = (vm_vcpus vm)[i := Some (g v)]"
      "vm_status vm1 = vm_status vm" "vm_lock vm1 = vm_lock vm" "vm_vmid vm1 = vm_vmid vm" by blast
  have "j < length (vm_vcpus vm1) \<and> (\<exists>v. vm_vcpus vm1 ! j = Some v \<and> P v)" if "j \<in> set is" for j
    using Cons.prems(1) Cons.prems(2)[of j] that vm1(2) by (cases "i = j") auto
  from Cons.IH[OF _ this] Cons.prems(1) obtain vm' where vm': "vcpus_loop f is 0 False vm1 = Done (True, 0, False, vm')"
      "vm_status vm' = vm_status vm1" "vm_lock vm' = vm_lock vm1" "vm_vmid vm' = vm_vmid vm1" "length (vm_vcpus vm') = length (vm_vcpus vm1)"
      "\<forall>j<length (vm_vcpus vm1). vm_vcpus vm' ! j = (if j \<in> set is then map_option g (vm_vcpus vm1 ! j) else vm_vcpus vm1 ! j)" by auto
  have "vm_vcpus vm' ! j = (if j \<in> set (i # is) then map_option g (vm_vcpus vm ! j) else vm_vcpus vm ! j)"
    if "j < length (vm_vcpus vm)" for j
    using vm'(6) that vm1(2) i(2) Cons.prems(1) by (cases "i = j") auto
  then show ?case using vm1 vm' i(2) by auto
qed auto

lemma vcpus_loop_all:
  assumes "\<And>i v ret vm. \<lbrakk>i < length (vm_vcpus vm); vm_vcpus vm ! i = Some v; P v\<rbrakk> \<Longrightarrow>
      \<exists>vm'. f i v ret vm = Done (0, vm') \<and> vm_vcpus vm' = (vm_vcpus vm)[i := Some (g v)]
        \<and> vm_status vm' = vm_status vm \<and> vm_lock vm' = vm_lock vm \<and> vm_vmid vm' = vm_vmid vm"
    and P: "\<forall>x\<in>set (vm_vcpus vm). \<exists>v. x = Some v \<and> P v"
  shows "\<exists>vm'. vcpus_loop f [0..<length (vm_vcpus vm)] 0 False vm = Done (True, 0, False, vm')
    \<and> vm_status vm' = vm_status vm \<and> vm_lock vm' = vm_lock vm \<and> vm_vmid vm' = vm_vmid vm \<and> vm_vcpus vm' = map (map_option g) (vm_vcpus vm)"
proof -
  have "i < length (vm_vcpus vm) \<and> (\<exists>v. vm_vcpus vm ! i = Some v \<and> P v)" if "i \<in> set [0..<length (vm_vcpus vm)]" for i
    using that P by (simp add: all_set_conv_all_nth)
  from vcpus_loop_each[of P f g "[0..<length (vm_vcpus vm)]" vm, OF assms(1) distinct_upt this]
  obtain vm' where "vcpus_loop f [0..<length (vm_vcpus vm)] 0 False vm = Done (True, 0, False, vm')"
      "vm_status vm' = vm_status vm" "vm_lock vm' = vm_lock vm" "vm_vmid vm' = vm_vmid vm" "length (vm_vcpus vm') = length (vm_vcpus vm)"
      "\<forall>j<length (vm_vcpus vm). vm_vcpus vm' ! j = map_option g (vm_vcpus vm ! j)" by auto
  then show ?thesis by (auto intro!: nth_equalityI)
qed

text \<open>A switch that cannot fail: to ready or paused from any state but halted.\<close>

lemma switch_succeeds:
  assumes "i < length (vm_vcpus vm)" "vm_vcpus vm ! i = Some v" "vcpu_state v \<noteq> VCPU_STATE_HALTED"
    "new = VCPU_STATE_READY \<or> new = VCPU_STATE_PAUSED"
  shows "\<exists>vm'. vcpu_state_switch i new vm = Done (0, vm') \<and> vm_vcpus vm' = (vm_vcpus vm)[i := Some (switch_target new v)]
    \<and> vm_status vm' = vm_status vm \<and> vm_lock vm' = vm_lock vm \<and> vm_vmid vm' = vm_vmid vm"
proof -
  obtain ret vm' where sw: "vcpu_state_switch i new vm = Done (ret, vm')"
    using assms by (cases "vcpu_state v") (auto simp: vcpu_state_switch_def vcpu_state_to_ready_def vcpu_state_to_paused_def)
  show ?thesis using switch_effect[OF sw] assms sw by auto
qed

lemma ready_step_succeeds:
  assumes "i < length (vm_vcpus vm)" "vm_vcpus vm ! i = Some v" "vcpu_state v \<noteq> VCPU_STATE_HALTED"
  shows "\<exists>vm'. ready_step True i v ret vm = Done (0, vm') \<and> vm_vcpus vm' = (vm_vcpus vm)[i := Some (switch_target VCPU_STATE_READY v)]
    \<and> vm_status vm' = vm_status vm \<and> vm_lock vm' = vm_lock vm \<and> vm_vmid vm' = vm_vmid vm"
proof -
  from switch_succeeds[OF assms, of VCPU_STATE_READY] obtain vm1 where vm1: "vcpu_state_switch i VCPU_STATE_READY vm = Done (0, vm1)"
    "vm_vcpus vm1 = (vm_vcpus vm)[i := Some (switch_target VCPU_STATE_READY v)]" "vm_status vm1 = vm_status vm" "vm_lock vm1 = vm_lock vm" "vm_vmid vm1 = vm_vmid vm" by auto
  have "vcpu_state (switch_target VCPU_STATE_READY v) = VCPU_STATE_READY"
    using assms(3) by (cases "vcpu_state v") (simp_all add: switch_target_def)
  then have "vcpu_state_switch i VCPU_STATE_READY vm1 = Done (0, vm1)" using assms(1) vm1(2) by (simp add: vcpu_state_switch_def)
  then show ?thesis using vm1 by (simp add: ready_step_def vm_vcpu_defs)
qed

section \<open>Pausing and resuming\<close>

lemma switch_target_paused:
  "vcpu_state v \<noteq> VCPU_STATE_HALTED \<Longrightarrow> vcpu_state (switch_target VCPU_STATE_PAUSED v) = VCPU_STATE_PAUSED"
  by (cases "vcpu_state v") (simp_all add: switch_target_def)

lemma with_vm_lock_ok:
  "\<not> vm_lock vm \<Longrightarrow> body (vm\<lparr>vm_lock := True\<rparr>) = Done (True, ret, failed, vm1) \<Longrightarrow>
    with_vm_lock body finish vm = Done (ret, (finish failed vm1)\<lparr>vm_lock := False\<rparr>)"
  by (simp add: with_vm_lock_def)

lemma pause_guest:
  assumes "vm_status vm = VM_STATE_RUNNING" "\<not> vm_lock vm"
    and "\<forall>x\<in>set (vm_vcpus vm). \<exists>v. x = Some v \<and> vcpu_state v \<noteq> VCPU_STATE_HALTED"
  shows "\<exists>vm'. z_pause_guest vm = Done (0, vm') \<and> vm_status vm' = VM_STATE_PAUSE \<and> \<not> vm_lock vm'
    \<and> vm_vcpus vm' = map (map_option (switch_target VCPU_STATE_PAUSED)) (vm_vcpus vm)"
proof -
  have "\<exists>vm'. vcpus_loop (\<lambda>i v ret. vm_vcpu_pause i) [0..<length (vm_vcpus (vm\<lparr>vm_lock := True\<rparr>))] 0 False (vm\<lparr>vm_lock := True\<rparr>)
      = Done (True, 0, False, vm') \<and> vm_status vm' = vm_status (vm\<lparr>vm_lock := True\<rparr>) \<and> vm_lock vm' = vm_lock (vm\<lparr>vm_lock := True\<rparr>) \<and> vm_vmid vm' = vm_vmid (vm\<lparr>vm_lock := True\<rparr>)
      \<and> vm_vcpus vm' = map (map_option (switch_target VCPU_STATE_PAUSED)) (vm_vcpus (vm\<lparr>vm_lock := True\<rparr>))"
    by (rule vcpus_loop_all[where P = "\<lambda>v. vcpu_state v \<noteq> VCPU_STATE_HALTED"])
      (use assms(3) switch_succeeds in \<open>auto simp: vm_vcpu_defs\<close>)
  then show ?thesis using assms(1,2) by (auto simp: z_pause_guest_def vm_vcpus_pause_def with_vm_lock_ok)
qed

lemma resume_guest:
  assumes "vm_status vm = VM_STATE_PAUSE" "\<not> vm_lock vm"
    and "\<forall>x\<in>set (vm_vcpus vm). \<exists>v. x = Some v \<and> vcpu_state v \<noteq> VCPU_STATE_HALTED"
  shows "\<exists>vm'. z_run_guest vm = Done (0, vm') \<and> vm_status vm' = VM_STATE_RUNNING \<and> \<not> vm_lock vm'
    \<and> vm_vcpus vm' = map (map_option (switch_target VCPU_STATE_READY)) (vm_vcpus vm)"
proof -
  have "\<exists>vm'. vcpus_loop (ready_step True) [0..<length (vm_vcpus (vm\<lparr>vm_lock := True\<rparr>))] 0 False (vm\<lparr>vm_lock := True\<rparr>)
      = Done (True, 0, False, vm') \<and> vm_status vm' = vm_status (vm\<lparr>vm_lock := True\<rparr>) \<and> vm_lock vm' = vm_lock (vm\<lparr>vm_lock := True\<rparr>) \<and> vm_vmid vm' = vm_vmid (vm\<lparr>vm_lock := True\<rparr>)
      \<and> vm_vcpus vm' = map (map_option (switch_target VCPU_STATE_READY)) (vm_vcpus (vm\<lparr>vm_lock := True\<rparr>))"
    by (rule vcpus_loop_all[where P = "\<lambda>v. vcpu_state v \<noteq> VCPU_STATE_HALTED"]) (use assms(3) ready_step_succeeds in auto)
  then show ?thesis using assms(1,2) by (auto simp: z_run_guest_def vm_vcpus_ready_def with_vm_lock_ok)
qed

text \<open>Both commands in a row.\<close>

lemma pause_resume:
  assumes "vm_status vm = VM_STATE_RUNNING" "\<not> vm_lock vm"
    and ok: "\<forall>x\<in>set (vm_vcpus vm). \<exists>v. x = Some v \<and> vcpu_state v \<noteq> VCPU_STATE_HALTED"
  shows "\<exists>vm1 vm2. z_pause_guest vm = Done (0, vm1) \<and> vm_status vm1 = VM_STATE_PAUSE
    \<and> vm_vcpus vm1 = map (map_option (switch_target VCPU_STATE_PAUSED)) (vm_vcpus vm)
    \<and> z_run_guest vm1 = Done (0, vm2) \<and> vm_status vm2 = VM_STATE_RUNNING \<and> \<not> vm_lock vm2
    \<and> vm_vcpus vm2 = map (map_option (switch_target VCPU_STATE_READY \<circ> switch_target VCPU_STATE_PAUSED)) (vm_vcpus vm)"
proof -
  obtain vm1 where vm1: "z_pause_guest vm = Done (0, vm1)" "vm_status vm1 = VM_STATE_PAUSE" "\<not> vm_lock vm1"
    "vm_vcpus vm1 = map (map_option (switch_target VCPU_STATE_PAUSED)) (vm_vcpus vm)" using pause_guest[OF assms] by blast
  have "\<forall>x\<in>set (vm_vcpus vm1). \<exists>v. x = Some v \<and> vcpu_state v \<noteq> VCPU_STATE_HALTED"
    using ok vm1(4) by (auto dest!: bspec simp: switch_target_paused)
  from resume_guest[OF vm1(2,3) this] show ?thesis using vm1 by (auto simp: option.map_comp)
qed

lemma switch_paused_started:
  "vcpu_state v = VCPU_STATE_READY \<or> vcpu_state v = VCPU_STATE_RUNNING \<Longrightarrow> switch_target VCPU_STATE_PAUSED v =
    v\<lparr>resume_signal := False, vcpu_thread := k_thread_suspend (vcpu_thread v), vcpu_state := VCPU_STATE_PAUSED\<rparr>"
  by (auto simp: switch_target_def)

lemma switch_resumed:
  assumes "vcpu_state v = VCPU_STATE_READY \<or> vcpu_state v = VCPU_STATE_RUNNING" "runnable (vcpu_thread v)"
  shows "switch_target VCPU_STATE_READY (switch_target VCPU_STATE_PAUSED v) =
    v\<lparr>vcpu_state := VCPU_STATE_READY, resume_signal := False, vcpu_thread := (vcpu_thread v)\<lparr>timeout := False\<rparr>\<rparr>"
proof -
  have "k_wakeup (k_thread_suspend (vcpu_thread v)) = (vcpu_thread v)\<lparr>timeout := False\<rparr>"
    using assms(2) by (cases "vcpu_thread v") (simp add: k_wakeup_def k_thread_suspend_def runnable_def)
  then show ?thesis unfolding switch_paused_started[OF assms(1)] by (simp add: switch_target_def)
qed

text \<open>
  C17: pausing a running VM whose vCPUs were all started suspends every vCPU thread, and running it again makes
  all of them runnable: each vCPU is as before, but ready, without a resume signal and without a timeout. Both
  commands return 0.
\<close>

theorem pause_resume_roundtrip:
  assumes "vm_status vm = VM_STATE_RUNNING" "\<not> vm_lock vm"
    and st: "\<forall>x\<in>set (vm_vcpus vm). \<exists>v. x = Some v \<and> vcpu_state v \<in> {VCPU_STATE_READY, VCPU_STATE_RUNNING} \<and> runnable (vcpu_thread v)"
  shows "\<exists>vm1 vm2. z_pause_guest vm = Done (0, vm1) \<and> vm_status vm1 = VM_STATE_PAUSE
    \<and> (\<forall>x\<in>set (vm_vcpus vm1). \<exists>v. x = Some v \<and> \<not> runnable (vcpu_thread v))
    \<and> z_run_guest vm1 = Done (0, vm2) \<and> vm_status vm2 = VM_STATE_RUNNING \<and> \<not> vm_lock vm2
    \<and> vm_vcpus vm2 = map (map_option (\<lambda>v. v\<lparr>vcpu_state := VCPU_STATE_READY, resume_signal := False,
        vcpu_thread := (vcpu_thread v)\<lparr>timeout := False\<rparr>\<rparr>)) (vm_vcpus vm)"
proof -
  have "\<forall>x\<in>set (vm_vcpus vm). \<exists>v. x = Some v \<and> vcpu_state v \<noteq> VCPU_STATE_HALTED" using st by fastforce
  from pause_resume[OF assms(1,2) this] obtain vm1 vm2 where
    r: "z_pause_guest vm = Done (0, vm1)" "vm_status vm1 = VM_STATE_PAUSE" "z_run_guest vm1 = Done (0, vm2)" "vm_status vm2 = VM_STATE_RUNNING" "\<not> vm_lock vm2"
    and v1: "vm_vcpus vm1 = map (map_option (switch_target VCPU_STATE_PAUSED)) (vm_vcpus vm)"
    and v2: "vm_vcpus vm2 = map (map_option (switch_target VCPU_STATE_READY \<circ> switch_target VCPU_STATE_PAUSED)) (vm_vcpus vm)" by blast
  have "\<forall>x\<in>set (vm_vcpus vm1). \<exists>v. x = Some v \<and> \<not> runnable (vcpu_thread v)"
    using st by (auto dest!: bspec simp: v1 switch_paused_started k_thread_suspend_def runnable_def)
  moreover have "vm_vcpus vm2 = map (map_option (\<lambda>v. v\<lparr>vcpu_state := VCPU_STATE_READY, resume_signal := False,
        vcpu_thread := (vcpu_thread v)\<lparr>timeout := False\<rparr>\<rparr>)) (vm_vcpus vm)"
    using st by (auto dest!: bspec simp: v2 switch_resumed)
  ultimately show ?thesis using r by blast
qed

definition vm_on :: z_vm where
  "vm_on = vm_started\<lparr>vm_vcpus := take 1 (vm_vcpus vm_started)\<rparr>"

theorem pause_resume_roundtrip_witness:
  "vm_status vm_on = VM_STATE_RUNNING \<and> (\<exists>vm1 vm2. z_pause_guest vm_on = Done (0, vm1)
    \<and> z_run_guest vm1 = Done (0, vm2) \<and> vm_vcpus vm2 = vm_vcpus vm_on)"
proof -
  have h: "vm_status vm_on = VM_STATE_RUNNING" "\<not> vm_lock vm_on"
    "\<forall>x\<in>set (vm_vcpus vm_on). \<exists>v. x = Some v \<and> vcpu_state v \<in> {VCPU_STATE_READY, VCPU_STATE_RUNNING} \<and> runnable (vcpu_thread v)"
    by (simp_all add: vm_on_def vm_started_def vm_new_defs runnable_def)
  show ?thesis using h(1) pause_resume_roundtrip[OF h] by (auto simp: vm_on_def vm_started_def vm_new_defs)
qed

text \<open>
  A vCPU that was not powered on is lost by a pause. Before the pause a power call starts its thread. The
  pause marks the vCPU as paused and the next run command as ready, but its thread is never started: waking a
  thread that was not started does nothing. From then on the power call finds the vCPU ready and does nothing.
\<close>

theorem pause_loses_secondary:
  assumes "vm_status vm = VM_STATE_RUNNING" "\<not> vm_lock vm"
    and ok: "\<forall>x\<in>set (vm_vcpus vm). \<exists>v. x = Some v \<and> vcpu_state v \<noteq> VCPU_STATE_HALTED"
    and i: "i < length (vm_vcpus vm)" "vm_vcpus vm ! i = Some v" "vcpu_state v = VCPU_STATE_UNKNOWN"
      "prestart (vcpu_thread v)" "\<not> timeout (vcpu_thread v)"
  shows "(\<exists>vm1 v1. vm_vcpu_ready i vm = Done (0, vm1) \<and> vm_vcpus vm1 ! i = Some v1 \<and> \<not> prestart (vcpu_thread v1))
    \<and> (\<exists>vm1 vm2 v2. z_pause_guest vm = Done (0, vm1) \<and> z_run_guest vm1 = Done (0, vm2) \<and> vm_status vm2 = VM_STATE_RUNNING
        \<and> vm_vcpus vm2 ! i = Some v2 \<and> vcpu_state v2 = VCPU_STATE_READY \<and> \<not> runnable (vcpu_thread v2)
        \<and> vm_vcpu_ready i vm2 = Done (0, vm2))"
proof
  show "\<exists>vm1 v1. vm_vcpu_ready i vm = Done (0, vm1) \<and> vm_vcpus vm1 ! i = Some v1 \<and> \<not> prestart (vcpu_thread v1)"
    using switch_succeeds[OF i(1,2), of VCPU_STATE_READY] i(1,3)
    by (auto simp: vm_vcpu_defs switch_target_def k_thread_start_def)
  from pause_resume[OF assms(1,2) ok] obtain vm1 vm2 where
    r: "z_pause_guest vm = Done (0, vm1)" "z_run_guest vm1 = Done (0, vm2)" "vm_status vm2 = VM_STATE_RUNNING"
    and v2: "vm_vcpus vm2 = map (map_option (switch_target VCPU_STATE_READY \<circ> switch_target VCPU_STATE_PAUSED)) (vm_vcpus vm)" by blast
  have "vm_vcpus vm2 ! i = Some (v\<lparr>vcpu_state := VCPU_STATE_READY\<rparr>)" "i < length (vm_vcpus vm2)"
    using i by (simp_all add: v2 switch_target_def k_wakeup_def)
  then show "\<exists>vm1 vm2 v2. z_pause_guest vm = Done (0, vm1) \<and> z_run_guest vm1 = Done (0, vm2) \<and> vm_status vm2 = VM_STATE_RUNNING
        \<and> vm_vcpus vm2 ! i = Some v2 \<and> vcpu_state v2 = VCPU_STATE_READY \<and> \<not> runnable (vcpu_thread v2)
        \<and> vm_vcpu_ready i vm2 = Done (0, vm2)"
    using r i(4) by (auto simp: vm_vcpu_defs vcpu_state_switch_def runnable_def)
qed

theorem pause_loses_secondary_witness:
  "vm_status vm_started = VM_STATE_RUNNING \<and> (\<exists>vm1 vm2. z_pause_guest vm_started = Done (0, vm1)
    \<and> z_run_guest vm1 = Done (0, vm2) \<and> vm_vcpu_ready 1 vm2 = Done (0, vm2))"
proof -
  have h: "vm_status vm_started = VM_STATE_RUNNING" "\<not> vm_lock vm_started"
    "\<forall>x\<in>set (vm_vcpus vm_started). \<exists>v. x = Some v \<and> vcpu_state v \<noteq> VCPU_STATE_HALTED"
    "1 < length (vm_vcpus vm_started)" "vm_vcpus vm_started ! 1 = Some (vcpu_new True)" "vcpu_state (vcpu_new True) = VCPU_STATE_UNKNOWN"
    "prestart (vcpu_thread (vcpu_new True))" "\<not> timeout (vcpu_thread (vcpu_new True))"
    by (simp_all add: vm_started_def vm_new_defs)
  show ?thesis using h(1) pause_loses_secondary[OF h] by blast
qed

section \<open>Deleting\<close>

text \<open>Halting a vCPU that never ran, or was reset, deletes the VM.\<close>

definition unstarted :: "z_vcpu option \<Rightarrow> bool" where
  "unstarted x \<longleftrightarrow> (\<exists>v. x = Some v \<and> vcpu_state v \<in> {VCPU_STATE_UNKNOWN, VCPU_STATE_RESET})"

lemma halt_succeeds:
  assumes "i < length (vm_vcpus vm)" "vm_vcpus vm ! i = Some v" "\<not> unstarted (Some v)"
  shows "\<exists>vm'. vm_vcpu_halt i vm = Done (0, vm') \<and> vm_vcpus vm' = (vm_vcpus vm)[i := Some (switch_target VCPU_STATE_HALTED v)]
    \<and> vm_status vm' = vm_status vm \<and> vm_lock vm' = vm_lock vm \<and> vm_vmid vm' = vm_vmid vm"
  using assms by (cases "vcpu_state v")
    (simp_all add: vm_vcpu_halt_def vcpu_state_switch_def vcpu_state_to_halted_def switch_target_def upd_vcpu_Some list_upd_same unstarted_def)

lemma halt_locked:
  assumes "vm_lock vm" "i < length (vm_vcpus vm)" "vm_vcpus vm ! i = Some v" "unstarted (Some v)"
  shows "vm_vcpu_halt i vm = Assertion"
  using assms by (auto simp: unstarted_def vm_vcpu_halt_def vcpu_state_switch_def vcpu_state_to_halted_def)

lemma halt_loop_stuck:
  assumes "vm_lock vm" "distinct is" "\<forall>i\<in>set is. i < length (vm_vcpus vm) \<and> vm_vcpus vm ! i \<noteq> None"
    and "k \<in> set is" "unstarted (vm_vcpus vm ! k)"
  shows "vcpus_loop (\<lambda>i v ret. vm_vcpu_halt i) is ret failed vm = Assertion"
  using assms
proof (induction "is" arbitrary: vm ret failed)
  case (Cons i "is")
  obtain v where v: "i < length (vm_vcpus vm)" "vm_vcpus vm ! i = Some v" using Cons.prems(3) by auto
  show ?case
  proof (cases "unstarted (Some v)")
    case False
    with halt_succeeds[OF v] obtain vm' where vm': "vm_vcpu_halt i vm = Done (0, vm')"
      "vm_vcpus vm' = (vm_vcpus vm)[i := Some (switch_target VCPU_STATE_HALTED v)]" "vm_lock vm' = vm_lock vm" by blast
    have k: "k \<noteq> i" using Cons.prems(5) v False by auto
    have "\<forall>j\<in>set is. j < length (vm_vcpus vm') \<and> vm_vcpus vm' ! j \<noteq> None"
      using Cons.prems(2,3) vm'(2) by (auto simp: nth_list_update)
    with Cons.IH[of vm'] Cons.prems(1,2,4,5) k vm' v show ?thesis by simp
  qed (simp add: v halt_locked Cons.prems(1))
qed simp

text \<open>What the threads of the vCPUs may do while the command waits: the VM is not locked afterwards, keeps its
  vCPUs, and a vCPU that was never started is not started.\<close>

definition waits :: "(z_vm \<Rightarrow> z_vm) \<Rightarrow> bool" where
  "waits wait \<longleftrightarrow> (\<forall>vm. vm_lock (wait vm) = vm_lock vm \<and> vm_vmid (wait vm) = vm_vmid vm
     \<and> length (vm_vcpus (wait vm)) = length (vm_vcpus vm)
     \<and> (\<forall>i<length (vm_vcpus vm). (vm_vcpus (wait vm) ! i = None \<longleftrightarrow> vm_vcpus vm ! i = None)
         \<and> (unstarted (vm_vcpus (wait vm) ! i) \<longleftrightarrow> unstarted (vm_vcpus vm ! i))))"

text \<open>The VM when \<^verbatim>\<open>z_delete_guest\<close> starts to wait.\<close>

definition stopping :: "z_vm \<Rightarrow> z_vm" where
  "stopping vm = vm\<lparr>vm_status := VM_STATE_HALT, vm_vcpus := map (map_option (\<lambda>v. v\<lparr>deleting := True\<rparr>)) (vm_vcpus vm),
     events := events vm @ map Ipi [0..<length (vm_vcpus vm)]\<rparr>"

lemma stopped:
  assumes "waits wait" "\<not> vm_lock vm"
  shows "\<not> vm_lock (wait (stopping vm))" "vm_vmid (wait (stopping vm)) = vm_vmid vm"
    "length (vm_vcpus (wait (stopping vm))) = length (vm_vcpus vm)"
    "i < length (vm_vcpus vm) \<Longrightarrow> vm_vcpus (wait (stopping vm)) ! i = None \<longleftrightarrow> vm_vcpus vm ! i = None"
    "i < length (vm_vcpus vm) \<Longrightarrow> unstarted (vm_vcpus (wait (stopping vm)) ! i) \<longleftrightarrow> unstarted (vm_vcpus vm ! i)"
proof -
  note w = assms(1)[unfolded waits_def, rule_format, of "stopping vm"]
  show "\<not> vm_lock (wait (stopping vm))" "vm_vmid (wait (stopping vm)) = vm_vmid vm"
    "length (vm_vcpus (wait (stopping vm))) = length (vm_vcpus vm)"
    using w assms(2) by (simp_all add: stopping_def)
  assume i: "i < length (vm_vcpus vm)"
  have "unstarted (vm_vcpus (stopping vm) ! i) \<longleftrightarrow> unstarted (vm_vcpus vm ! i)"
    using i by (cases "vm_vcpus vm ! i") (simp_all add: stopping_def unstarted_def)
  moreover have "vm_vcpus (stopping vm) ! i = None \<longleftrightarrow> vm_vcpus vm ! i = None" "length (vm_vcpus (stopping vm)) = length (vm_vcpus vm)"
    using i by (simp_all add: stopping_def)
  ultimately show "vm_vcpus (wait (stopping vm)) ! i = None \<longleftrightarrow> vm_vcpus vm ! i = None"
    "unstarted (vm_vcpus (wait (stopping vm)) ! i) \<longleftrightarrow> unstarted (vm_vcpus vm ! i)" using w i by auto
qed

text \<open>
  C19: deleting a running VM that has a vCPU which was never powered on does not end. The command halts all vCPUs
  with the lock of the VM; for a vCPU in the unknown state this deletes the VM, which waits for the same lock.
\<close>

theorem delete_running_deadlock:
  assumes "vm_status vm = VM_STATE_RUNNING" "\<not> vm_lock vm" "waits wait" "None \<notin> set (vm_vcpus vm)"
    and k: "k < length (vm_vcpus vm)" "vm_vcpus vm ! k = Some v" "vcpu_state v = VCPU_STATE_UNKNOWN"
  shows "z_delete_guest stale wait vm s = Assertion"
proof -
  note w = stopped[OF assms(3,2)]
  have "vm_vcpus (wait (stopping vm)) ! i \<noteq> None" if "i < length (vm_vcpus vm)" for i
    using w(4)[OF that] assms(4) nth_mem[OF that] by auto
  moreover have "unstarted (vm_vcpus (wait (stopping vm)) ! k)" using w(5)[OF k(1)] k(2,3) by (simp add: unstarted_def)
  ultimately have "vcpus_loop (\<lambda>i v ret. vm_vcpu_halt i) [0..<length (vm_vcpus (wait (stopping vm)))] 0 False
      ((wait (stopping vm))\<lparr>vm_lock := True\<rparr>) = Assertion"
    using w(3) k(1) by (intro halt_loop_stuck[where k = k]) auto
  then have "vm_vcpus_halt (wait (stopping vm)) = Assertion" using w(1) by (simp add: vm_vcpus_halt_def with_vm_lock_def)
  then show ?thesis using assms(1,4) by (simp add: z_delete_guest_def stopping_def[symmetric])
qed

theorem delete_running_deadlock_witness:
  "vm_status vm_started = VM_STATE_RUNNING \<and> z_delete_guest 1 id vm_started zvm_info_one = Assertion"
proof -
  have "vm_status vm_started = VM_STATE_RUNNING" "\<not> vm_lock vm_started" "waits id" "None \<notin> set (vm_vcpus vm_started)"
    "1 < length (vm_vcpus vm_started)" "vm_vcpus vm_started ! 1 = Some (vcpu_new True)" "vcpu_state (vcpu_new True) = VCPU_STATE_UNKNOWN"
    by (simp_all add: vm_started_def vm_new_defs waits_def)
  then show ?thesis using delete_running_deadlock by blast
qed

lemma halt_guest:
  assumes "\<not> vm_lock vm" "\<And>i. i < length (vm_vcpus vm) \<Longrightarrow> \<exists>v. vm_vcpus vm ! i = Some v \<and> \<not> unstarted (Some v)"
  shows "\<exists>vm'. vm_vcpus_halt vm = Done (0, vm') \<and> \<not> vm_lock vm' \<and> vm_vmid vm' = vm_vmid vm
    \<and> vm_vcpus vm' = map (map_option (switch_target VCPU_STATE_HALTED)) (vm_vcpus vm)"
proof -
  have "\<forall>x\<in>set (vm_vcpus vm). \<exists>v. x = Some v \<and> \<not> unstarted (Some v)" using assms(2) by (auto simp: in_set_conv_nth)
  then have "\<exists>vm'. vcpus_loop (\<lambda>i v ret. vm_vcpu_halt i) [0..<length (vm_vcpus (vm\<lparr>vm_lock := True\<rparr>))] 0 False (vm\<lparr>vm_lock := True\<rparr>)
      = Done (True, 0, False, vm') \<and> vm_status vm' = vm_status (vm\<lparr>vm_lock := True\<rparr>) \<and> vm_lock vm' = vm_lock (vm\<lparr>vm_lock := True\<rparr>)
      \<and> vm_vmid vm' = vm_vmid (vm\<lparr>vm_lock := True\<rparr>)
      \<and> vm_vcpus vm' = map (map_option (switch_target VCPU_STATE_HALTED)) (vm_vcpus (vm\<lparr>vm_lock := True\<rparr>))"
    by (intro vcpus_loop_all[where P = "\<lambda>v. \<not> unstarted (Some v)"] halt_succeeds) auto
  then show ?thesis using assms(1) by (auto simp: vm_vcpus_halt_def with_vm_lock_ok)
qed

lemma delete_vm:
  assumes "\<not> vm_lock vm" "None \<notin> set (vm_vcpus vm)" "vmid_inv s" "unat (vm_vmid vm) < length (vms s)"
  shows "\<exists>ret s'. vm_delete stale vm s = Done (ret, [Device_deinit, Mem_apart_remove] @ map Vcpu_deinit [0..<length (vm_vcpus vm)], s')
    \<and> vms s' = (vms s)[unat (vm_vmid vm) := None] \<and> vm_ids s' = vm_ids s - {ucast stale} \<and> vmid_inv s'"
proof -
  define t where "t = s\<lparr>vms := (vms s)[unat (vm_vmid vm) := None]\<rparr>"
  have "vmid_inv t" "vm_ids t = vm_ids s" using assms(3) by (simp_all add: t_def vmid_inv_def vm_ids_def vmid_universe_def)
  then have "vmid_inv (snd (free_vmid (ucast stale) t))" "vm_ids (snd (free_vmid (ucast stale) t)) = vm_ids s - {ucast stale}"
    using vmid_inv_free vm_ids_free by simp_all
  moreover have "vms (snd (free_vmid (ucast stale) t)) = (vms s)[unat (vm_vmid vm) := None]" by (simp add: t_def)
  moreover have "vm_delete stale vm s = Done (fst (free_vmid (ucast stale) t),
      [Device_deinit, Mem_apart_remove] @ map Vcpu_deinit [0..<length (vm_vcpus vm)], snd (free_vmid (ucast stale) t))"
    using assms(1,2) by (simp add: vm_delete_def t_def Let_def split_beta)
  ultimately show ?thesis by blast
qed



text \<open>
  The wait for the threads of the vCPUs ends after at most 201 rounds of 50 ms; it stops at the first round
  that finds no vCPU left, and gives up only after 201 rounds that all found one.
\<close>

theorem wait_exit_terminates:
  "wait_exit seen 0 \<le> 201 \<and> (\<forall>k<wait_exit seen 0. 0 < seen k) \<and> (seen (wait_exit seen 0) \<le> 0 \<or> wait_exit seen 0 = 201)"
proof -
  have "r \<le> 200 \<Longrightarrow> r \<le> wait_exit seen r \<and> wait_exit seen r \<le> 201 \<and> (\<forall>k. r \<le> k \<and> k < wait_exit seen r \<longrightarrow> 0 < seen k)
    \<and> (seen (wait_exit seen r) \<le> 0 \<or> wait_exit seen r = 201)" for r
  proof (induction seen r rule: wait_exit.induct)
    case (1 seen r)
    show ?case
    proof (cases "seen r \<le> 0 \<or> 200 < r + 1")
      case True
      then have "wait_exit seen r = (if seen r \<le> 0 then r else r + 1)" by (subst wait_exit.simps) auto
      then show ?thesis using True 1(2) by (auto simp: less_Suc_eq)
    next
      case False
      then have eq: "wait_exit seen r = wait_exit seen (r + 1)" by (subst wait_exit.simps) auto
      have "0 < seen k" if "r \<le> k" "k < wait_exit seen (r + 1)" for k
        using 1(1) False that by (cases "k = r") auto
      then show ?thesis unfolding eq using 1(1) False by auto
    qed
  qed
  from this[of 0] show ?thesis by simp
qed

theorem wait_exit_terminates_witness: "wait_exit (\<lambda>k. 3 - int k) 0 = 3"
proof -
  define w where "w = wait_exit (\<lambda>k. 3 - int k) 0"
  have w: "w \<le> 201" "\<forall>k<w. 0 < 3 - int k" "3 - int w \<le> 0 \<or> w = 201"
    using wait_exit_terminates[of "\<lambda>k. 3 - int k"] unfolding w_def by blast+
  then have "\<not> 3 < w" by auto
  then show ?thesis using w(3) unfolding w_def[symmetric] by auto
qed

end
