(* ===== verification/Byte_Queue.thy ===== *)
theory Byte_Queue
  imports ZVM_Prelude
begin

text \<open>
  The interface of a queue between the host and a guest. The provider promises that what is put into a queue
  with room stands behind everything that is still there, and that what is taken out is the oldest item. The
  client lemma follows any sequence of requests: nothing is lost, repeated or reordered.
\<close>

datatype 'a queue_op = Put "'a list" | Get

locale byte_queue =
  fixes ok :: "'s \<Rightarrow> bool"
    and contents :: "'s \<Rightarrow> 'a list"
    and room :: "'a list \<Rightarrow> 's \<Rightarrow> bool"
    and put :: "'a list \<Rightarrow> 's \<Rightarrow> 's"
    and get :: "'s \<Rightarrow> 'a option \<times> 's"
  assumes put_ok: "ok s \<Longrightarrow> room xs s \<Longrightarrow> ok (put xs s) \<and> contents (put xs s) = contents s @ xs"
    and get_oldest: "ok s \<Longrightarrow> contents s = x # xs \<Longrightarrow> \<exists>s'. get s = (Some x, s') \<and> ok s' \<and> contents s' = xs"
    and get_empty: "ok s \<Longrightarrow> contents s = [] \<Longrightarrow> \<exists>s'. get s = (None, s') \<and> ok s' \<and> contents s' = []"
begin

text \<open>The requests of a sequence one after the other; items that find no room are not put. The second
  component collects what was accepted, the third what was received.\<close>

fun serve :: "'a queue_op list \<Rightarrow> 's \<Rightarrow> 'a list \<Rightarrow> 'a list \<Rightarrow> 's \<times> 'a list \<times> 'a list" where
  "serve [] s sent received = (s, sent, received)"
| "serve (Put xs # ops) s sent received =
    (if room xs s then serve ops (put xs s) (sent @ xs) received else serve ops s sent received)"
| "serve (Get # ops) s sent received =
    (let (x, s) = get s in serve ops s sent (case x of None \<Rightarrow> received | Some x \<Rightarrow> received @ [x]))"

lemma serve_in_order:
  assumes "ok s" "serve ops s sent received = (s', sent', received')" "sent = received @ contents s"
  shows "ok s' \<and> sent' = received' @ contents s'"
  using assms
proof (induction ops s sent received rule: serve.induct)
  case (2 xs ops s sent received)
  then show ?case using put_ok[of s xs] by (cases "room xs s") auto
next
  case (3 ops s sent received)
  show ?case
  proof (cases "contents s")
    case Nil
    with get_empty[OF 3(2)] obtain t where "get s = (None, t)" "ok t" "contents t = []" by blast
    then show ?thesis using 3 Nil by simp
  next
    case (Cons x xs)
    with get_oldest[OF 3(2)] obtain t where "get s = (Some x, t)" "ok t" "contents t = xs" by blast
    then show ?thesis using 3 Cons by simp
  qed
qed simp

end

end
