(* ===== verification/Vserial.thy ===== *)
theory Vserial
  imports Byte_Queue
begin

text \<open>
  The virtual serial port: the register block of the emulated PL011 and the buffer through which the host sends
  input to the guest (\<^verbatim>\<open>vpl011.c\<close>, \<^verbatim>\<open>vserial.h\<close>). The register block is the memory that the device allocates, a
  list of 32-bit words. What the guest prints goes to the console of the host, the list \<^verbatim>\<open>uart_out\<close>. The mutex of
  the buffer makes its accesses atomic.
\<close>

section \<open>State\<close>

definition SEND_BUFFER_SIZE :: nat where "SEND_BUFFER_SIZE = 4096"
definition FIFO_SIZE :: u32 where "FIFO_SIZE = 16"
definition VPL011_INT_RX :: u32 where "VPL011_INT_RX = 0x10"
definition VPL011_INT_TX :: u32 where "VPL011_INT_TX = 0x20"
definition VPL011_FR_RXFE :: u32 where "VPL011_FR_RXFE = 0x10"
definition VPL011_FR_RXFF :: u32 where "VPL011_FR_RXFF = 0x40"
definition ARM_PL011_ID :: "u8 list" where "ARM_PL011_ID = [0x11, 0x10, 0x14, 0x00, 0x0d, 0xf0, 0x05, 0xb1]"

record send_buffer =
  sb_data :: "u8 list"
  write_pos :: nat
  read_pos :: nat
  sb_count :: int
  buffer_overflow :: bool

record virt_pl011 =
  vserial_regs :: "u32 list"
  vserial_base :: u32
  vserial_size :: u32
  pl011_irq :: u32
  pl011_enabled :: u32
  pl011_level :: u32
  set_irq :: bool
  pl011_count :: u32
  pl011_connecting :: bool
  buffer :: send_buffer
  uart_out :: "u8 list"
  VPL011_LINUX_OFFSET :: u32

text \<open>The indices of the registers in \<^verbatim>\<open>struct vpl011_regs_ctxt\<close>; the identification bytes follow behind the last one.\<close>

definition R_DR :: nat where "R_DR = 0"
definition R_FR :: nat where "R_FR = 6"
definition R_CR :: nat where "R_CR = 12"
definition R_IFLS :: nat where "R_IFLS = 13"
definition R_IMSC :: nat where "R_IMSC = 14"
definition R_RIS :: nat where "R_RIS = 15"
definition R_ICR :: nat where "R_ICR = 17"
definition ID_BYTES :: nat where "ID_BYTES = 76"

abbreviation reg :: "nat \<Rightarrow> virt_pl011 \<Rightarrow> u32" where
  "reg i p \<equiv> vserial_regs p ! i"

definition set_reg :: "nat \<Rightarrow> u32 \<Rightarrow> virt_pl011 \<Rightarrow> virt_pl011" where
  "set_reg i v p = p\<lparr>vserial_regs := (vserial_regs p)[i := v]\<rparr>"

text \<open>A byte of the register block; the words are little-endian.\<close>

definition reg_byte :: "nat \<Rightarrow> virt_pl011 \<Rightarrow> u8" where
  "reg_byte k p = ucast (drop_bit (8 * (k mod 4)) (reg (k div 4) p))"

definition set_reg_byte :: "nat \<Rightarrow> u8 \<Rightarrow> virt_pl011 \<Rightarrow> virt_pl011" where
  "set_reg_byte k b p = set_reg (k div 4)
     ((reg (k div 4) p AND NOT (push_bit (8 * (k mod 4)) 0xFF)) OR push_bit (8 * (k mod 4)) (ucast b)) p"

section \<open>Operations\<close>

definition vpl011_regs_init :: "bool \<Rightarrow> u32 \<Rightarrow> u32 \<Rightarrow> virt_pl011 \<Rightarrow> int \<times> virt_pl011" where
  "vpl011_regs_init malloc serial_base serial_size p =
    (let p = p\<lparr>vserial_base := serial_base, vserial_size := serial_size\<rparr>
     in if \<not> malloc then (- ENODEV, p)
        else let p = p\<lparr>vserial_regs := replicate (unat serial_size div 4) 0\<rparr>;
                 p = set_reg R_IFLS 0x12 (set_reg R_CR 0x30 (set_reg R_FR 0x90 p))
             in (0, fold (\<lambda>i. set_reg_byte (ID_BYTES + i) (ARM_PL011_ID ! i)) [0..<8] p))"

text \<open>The next byte of the buffer; the positions start again when the buffer is empty.\<close>

definition take_byte :: "send_buffer \<Rightarrow> u8 \<times> send_buffer" where
  "take_byte b =
    (let x = sb_data b ! read_pos b;
         b = b\<lparr>read_pos := (read_pos b + 1) mod SEND_BUFFER_SIZE, sb_count := sb_count b - 1\<rparr>
     in (x, if sb_count b = 0 then b\<lparr>read_pos := 0, write_pos := 0\<rparr> else b))"

definition read_data :: "virt_pl011 \<Rightarrow> u32 \<times> virt_pl011" where
  "read_data p =
    (let p = set_reg R_FR (reg R_FR p AND NOT VPL011_FR_RXFF) p;
         p = set_reg R_RIS (reg R_RIS p AND NOT VPL011_INT_RX) p;
         p = p\<lparr>pl011_level := reg R_RIS p, pl011_enabled := reg R_IMSC p\<rparr>;
         (v, p) = (if pl011_count p \<noteq> 0
                   then case take_byte (buffer p) of (x, b) \<Rightarrow> (ucast x, p\<lparr>buffer := b, pl011_count := pl011_count p - 1\<rparr>)
                   else (0, p))
     in if 0 < pl011_count p
        then let p = set_reg R_RIS (reg R_RIS p OR VPL011_INT_RX) p in (v, p\<lparr>pl011_level := reg R_RIS p\<rparr>)
        else (v, set_reg R_FR (reg R_FR p OR VPL011_FR_RXFE) p))"

text \<open>An access beyond the allocated block faults.\<close>

definition vserial_vdev_mem_read :: "u64 \<Rightarrow> virt_pl011 \<Rightarrow> (int \<times> u64 \<times> virt_pl011) outcome" where
  "vserial_vdev_mem_read addr p =
    (let p = p\<lparr>set_irq := False\<rparr>;
         offset = ucast (addr - ucast (vserial_base p)) :: u32
     in if offset = 0 then case read_data p of (v, p) \<Rightarrow> Done (0, ucast v, p)
        else if offset = 0x40 then Done (0, ucast (reg R_RIS p AND reg R_IMSC p), p)
        else if VPL011_LINUX_OFFSET p \<le> offset \<and> offset < 0x1000
        then let k = ID_BYTES + unat (drop_bit 2 (offset - VPL011_LINUX_OFFSET p))
             in if k div 4 < length (vserial_regs p) then Done (0, ucast (reg_byte k p), p) else Fault
        else if unat offset div 4 < length (vserial_regs p) then Done (0, ucast (reg (unat offset div 4) p), p)
        else Fault)"

definition vserial_vdev_mem_write :: "u64 \<Rightarrow> u64 \<Rightarrow> virt_pl011 \<Rightarrow> (int \<times> virt_pl011) outcome" where
  "vserial_vdev_mem_write addr value p =
    (let v = ucast value :: u32; p = p\<lparr>set_irq := False\<rparr>;
         offset = ucast (addr - ucast (vserial_base p)) :: u32
     in if \<not> unat offset div 4 < length (vserial_regs p) then Fault
        else let p = set_reg (unat offset div 4) v p
             in if offset = 0
                then let p = set_reg R_RIS (reg R_RIS p OR VPL011_INT_TX) p;
                         p = p\<lparr>pl011_level := reg R_RIS p, pl011_enabled := reg R_IMSC p\<rparr>;
                         p = set_reg R_DR 0 p
                     in Done (0, if pl011_connecting p then p\<lparr>uart_out := uart_out p @ [ucast v]\<rparr> else p)
                else if offset = 0x38 then Done (0, p\<lparr>pl011_level := reg R_RIS p, pl011_enabled := reg R_IMSC p\<rparr>)
                else if offset = 0x44 then Done (0, set_reg R_RIS (reg R_RIS p AND NOT (reg R_ICR p)) p)
                else Done (0, p))"

fun put_bytes :: "u8 list \<Rightarrow> send_buffer \<Rightarrow> send_buffer" where
  "put_bytes [] b = b"
| "put_bytes (x # xs) b = put_bytes xs
    (b\<lparr>sb_data := (sb_data b)[write_pos b := x], write_pos := (write_pos b + 1) mod SEND_BUFFER_SIZE, sb_count := sb_count b + 1\<rparr>)"

definition pl011_virt_serial_send :: "u8 list \<Rightarrow> virt_pl011 \<Rightarrow> int \<times> virt_pl011" where
  "pl011_virt_serial_send data p =
    (if SEND_BUFFER_SIZE < write_pos (buffer p) + length data
     then (- ENOSPC, p\<lparr>buffer := (buffer p)\<lparr>buffer_overflow := True\<rparr>\<rparr>)
     else let p = p\<lparr>buffer := put_bytes data (buffer p)\<rparr>;
              p = p\<lparr>pl011_count := of_int (sb_count (buffer p))\<rparr>;
              p = set_reg R_FR (reg R_FR p AND NOT VPL011_FR_RXFE) p;
              p = (if reg R_CR p AND 0x10 \<noteq> 0 \<or> pl011_count p = FIFO_SIZE
                   then set_reg R_FR (reg R_FR p OR VPL011_FR_RXFF) p else p);
              p = set_reg R_RIS (reg R_RIS p OR VPL011_INT_RX) p
          in (0, p\<lparr>set_irq := True, pl011_level := reg R_RIS p, pl011_enabled := reg R_IMSC p\<rparr>))"

end
