(* ===== verification/Vm_Device.thy ===== *)
theory Vm_Device
  imports Vm_Mem Vgic Vserial
begin

text \<open>
  The devices of a VM (\<^verbatim>\<open>vm_device.c\<close>, \<^verbatim>\<open>vm_device.h\<close>): adding a device to a VM and mapping its registers, the lists
  of idle and used devices of the host, and handing an idle device to the VM that touches its registers. A pointer
  to a device structure is the number that k_malloc returned for it; a pointer to the driver behind a device is a
  \<^verbatim>\<open>vdev_instance\<close>. Results of k_malloc are arguments.
\<close>

section \<open>State\<close>

text \<open>The drivers of virtual devices, and the devices of the host.\<close>

datatype vdev_instance = Vm_vgic | Vm_serial | Vm_syscon | Vm_clock_syscon | Linux_dev | Zshm_dev | Host_device nat

record z_virt_dev =
  dev_ptr :: nat
  dev_name :: string
  dev_pt_flag :: bool
  shareable :: bool
  zshm :: bool
  dev_hirq :: u32
  dev_virq :: u32
  vm_vdev_paddr :: u32
  vm_vdev_vaddr :: u32
  vm_vdev_size :: u32
  dev_vm :: "u16 option"
  priv_data :: "vdev_instance option"

text \<open>
  A VM with its devices, and the device lists of the host. \<^verbatim>\<open>device_data\<close> and \<^verbatim>\<open>device_ready\<close> are the data of the
  host devices; \<^verbatim>\<open>host_regs\<close> are the registers of the board as 32-bit loads find them.
\<close>

record vm_devs =
  vm_id :: u16
  vdev_list :: "z_virt_dev list"
  vmem :: vm_mem_domain
  gic :: vgic
  serial :: virt_pl011
  pt_irq_bitmap :: "nat \<Rightarrow> bool"
  dev_idle_list :: "z_virt_dev list"
  dev_used_list :: "z_virt_dev list"
  chosen_flag :: bool
  device_data :: "nat \<Rightarrow> nat option"
  device_ready :: "nat \<Rightarrow> bool"
  vdevice_type :: "vdev_instance \<Rightarrow> u16"
  host_regs :: "u64 \<Rightarrow> u32"
  zshm_id :: u32
  CONFIG_ZSHM :: bool

definition VIRT_DEV_NAME_LENGTH :: nat where "VIRT_DEV_NAME_LENGTH = 32"
definition VM_DEVICE_INVALID_VIRQ :: u32 where "VM_DEVICE_INVALID_VIRQ = 0xFF"
definition VM_DEVICE_PRE_KERNEL_1 :: u16 where "VM_DEVICE_PRE_KERNEL_1 = 1"
definition MT_VM_DEVICE_MEM :: u32 where "MT_VM_DEVICE_MEM = 0x32"
definition MT_S2_ACCESS_OFF :: u32 where "MT_S2_ACCESS_OFF = 0x80"

text \<open>The search for a string in another one.\<close>

definition strstr :: "string \<Rightarrow> string \<Rightarrow> bool" where
  "strstr s pat \<longleftrightarrow> list_ex (\<lambda>k. take (length pat) (drop k s) = pat) [0..<Suc (length s)]"

section \<open>Adding and removing devices\<close>

definition vm_vdev_mem_add :: "bool \<times> bool \<Rightarrow> z_virt_dev \<Rightarrow> vm_devs \<Rightarrow> (int \<times> vm_devs) outcome" where
  "vm_vdev_mem_add malloc vdev st =
    (let attrs = (if dev_pt_flag vdev \<and> \<not> shareable vdev then MT_VM_DEVICE_MEM else MT_VM_DEVICE_MEM OR MT_S2_ACCESS_OFF);
         attrs = (if CONFIG_ZSHM st \<and> zshm vdev
                  then if dev_name vdev = ''ZSHMN'' then MT_VM_DEVICE_MEM OR MT_S2_ACCESS_OFF else MT_VM_NORMAL_MEM
                  else attrs)
     in bind_outcome (vm_vdev_mem_create malloc (ucast (vm_vdev_paddr vdev)) (ucast (vm_vdev_vaddr vdev))
                        (ucast (vm_vdev_size vdev)) attrs (vmem st))
          (\<lambda>(ret, vd). Done (ret, st\<lparr>vmem := vd\<rparr>)))"

text \<open>
  The first argument is the address of the new structure and the results of the allocations behind it. The
  structure is cleared before the pointer is tested.
\<close>

type_synonym malloc_dev = "nat option \<times> bool \<times> bool"

definition new_dev :: "nat \<Rightarrow> string \<Rightarrow> bool \<Rightarrow> bool \<Rightarrow> u64 \<Rightarrow> u64 \<Rightarrow> u32 \<Rightarrow> vm_devs \<Rightarrow> z_virt_dev" where
  "new_dev ptr name pt share pbase vbase sz st =
    \<lparr>dev_ptr = ptr, dev_name = take VIRT_DEV_NAME_LENGTH name, dev_pt_flag = pt, shareable = share,
     zshm = (CONFIG_ZSHM st \<and> strstr (take VIRT_DEV_NAME_LENGTH name) ''ZSHM''), dev_hirq = 0, dev_virq = 0,
     vm_vdev_paddr = ucast pbase, vm_vdev_vaddr = ucast vbase, vm_vdev_size = sz, dev_vm = None, priv_data = None\<rparr>"

definition vm_virt_dev_add :: "malloc_dev \<Rightarrow> string \<Rightarrow> bool \<Rightarrow> bool \<Rightarrow> u64 \<Rightarrow> u64 \<Rightarrow> u32 \<Rightarrow> u32 \<Rightarrow> u32 \<Rightarrow> vm_devs
    \<Rightarrow> (z_virt_dev option \<times> vm_devs) outcome" where
  "vm_virt_dev_add malloc name pt share pbase vbase sz hirq virq st = (case fst malloc of
     None \<Rightarrow> Fault
   | Some ptr \<Rightarrow>
       let vdev = new_dev ptr name pt share pbase vbase sz st
       in bind_outcome (vm_vdev_mem_add (snd malloc) vdev st) (\<lambda>(ret, st).
            if ret \<noteq> 0 then Done (None, st)
            else let vdev = vdev\<lparr>dev_virq := virq, dev_hirq := hirq, dev_vm := Some (vm_id st)\<rparr>
                 in Done (Some vdev, st\<lparr>vdev_list := vdev_list st @ [vdev]\<rparr>)))"

text \<open>This one does not clear the structure: \<^verbatim>\<open>stale\<close> is what the field \<^verbatim>\<open>zshm\<close> held before.\<close>

definition vm_virt_dev_add_no_memmap :: "nat option \<Rightarrow> bool \<Rightarrow> string \<Rightarrow> bool \<Rightarrow> bool \<Rightarrow> u64 \<Rightarrow> u64 \<Rightarrow> u32 \<Rightarrow> u32 \<Rightarrow> u32 \<Rightarrow> vm_devs
    \<Rightarrow> z_virt_dev option \<times> vm_devs" where
  "vm_virt_dev_add_no_memmap malloc stale name pt share pbase vbase sz hirq virq st = (case malloc of
     None \<Rightarrow> (None, st)
   | Some ptr \<Rightarrow>
       let vdev = (new_dev ptr name pt share pbase vbase sz st)
             \<lparr>zshm := stale, dev_virq := virq, dev_hirq := hirq, dev_vm := Some (vm_id st)\<rparr>
       in (Some vdev, st\<lparr>vdev_list := vdev_list st @ [vdev]\<rparr>))"

definition vm_virt_dev_remove :: "z_virt_dev \<Rightarrow> vm_devs \<Rightarrow> int \<times> vm_devs" where
  "vm_virt_dev_remove vm_dev st =
    (let st = st\<lparr>vdev_list := filter (\<lambda>d. dev_ptr d \<noteq> dev_ptr vm_dev) (vdev_list st)\<rparr>
     in case List.find (\<lambda>d. vm_vdev_paddr d = vm_vdev_paddr vm_dev) (dev_used_list st) of
          None \<Rightarrow> (0, st)
        | Some chosen \<Rightarrow> (0, st\<lparr>dev_used_list := remove1 chosen (dev_used_list st),
                               dev_idle_list := dev_idle_list st @ [chosen]\<rparr>))"

text \<open>Writing a field of a device in the list of the VM.\<close>

definition upd_vdev :: "nat \<Rightarrow> (z_virt_dev \<Rightarrow> z_virt_dev) \<Rightarrow> vm_devs \<Rightarrow> vm_devs" where
  "upd_vdev ptr f st = st\<lparr>vdev_list := map (\<lambda>d. if dev_ptr d = ptr then f d else d) (vdev_list st)\<rparr>"

section \<open>Interrupts of devices\<close>

definition vm_device_irq_init :: "z_virt_dev \<Rightarrow> vm_devs \<Rightarrow> vm_devs outcome" where
  "vm_device_irq_init vm_dev st = (case VGIC_GET_VIRQ_DESC 0 (unat (dev_virq vm_dev)) (gic st) of
     None \<Rightarrow> Fault
   | Some d \<Rightarrow>
       let d = (if dev_pt_flag vm_dev then d\<lparr>bind_hwirq_flag := True\<rparr> else d);
           st = st\<lparr>gic := put_desc 0 (unat (dev_virq vm_dev)) (d\<lparr>virq_num := dev_virq vm_dev\<rparr>) (gic st)\<rparr>
       in if \<not> (dev_pt_flag vm_dev \<or> strstr (dev_name vm_dev) ''ZSHMN'') then Done st
          else if \<not> unat (dev_hirq vm_dev) < VM_GLOBAL_VIRQ_NR (gic st) then Fault
          else Done (st\<lparr>pt_irq_bitmap := (pt_irq_bitmap st)(unat (dev_hirq vm_dev) := True)\<rparr>))"

definition vm_device_callback_func :: "z_virt_dev \<Rightarrow> vm_devs \<Rightarrow> vm_devs outcome" where
  "vm_device_callback_func vdev st =
    (if dev_virq vdev = VM_DEVICE_INVALID_VIRQ \<or> dev_vm vdev = None then Done st
     else bind_outcome (set_virq_to_vm (unat (dev_virq vdev)) (gic st)) (\<lambda>(_, g). Done (st\<lparr>gic := g\<rparr>)))"

section \<open>Handing out devices\<close>

text \<open>A device of the host that is passed through or shared: \<^verbatim>\<open>reg_base\<close>, \<^verbatim>\<open>reg_size\<close> and \<^verbatim>\<open>hirq_num\<close> are its configuration.\<close>

definition allocate_device_to_vm :: "malloc_dev \<Rightarrow> string \<Rightarrow> u32 \<Rightarrow> u32 \<Rightarrow> u32 \<Rightarrow> z_virt_dev \<Rightarrow> bool \<Rightarrow> bool \<Rightarrow> vm_devs
    \<Rightarrow> (z_virt_dev option \<times> vm_devs) outcome" where
  "allocate_device_to_vm malloc name reg_base reg_size hirq_num vdev_desc pt share st =
    bind_outcome (vm_virt_dev_add malloc name pt share (ucast reg_base) (ucast (vm_vdev_paddr vdev_desc)) reg_size hirq_num
        (dev_virq vdev_desc) st) (\<lambda>(r, st). case r of
      None \<Rightarrow> Done (None, st)
    | Some vdev \<Rightarrow> bind_outcome (vm_device_irq_init vdev st) (\<lambda>st. Done (Some vdev, st)))"

definition touches :: "u64 \<Rightarrow> z_virt_dev \<Rightarrow> bool" where
  "touches pa d \<longleftrightarrow> ucast (vm_vdev_vaddr d) \<le> pa \<and> pa < ucast (vm_vdev_vaddr d + vm_vdev_size d)"

text \<open>
  \<^verbatim>\<open>init_fn\<close> is the initialisation of the driver of a shared host device. A device whose driver fails stays in
  the list of used devices.
\<close>

type_synonym driver_init = "nat \<Rightarrow> z_virt_dev \<Rightarrow> vm_devs \<Rightarrow> int \<times> vm_devs"

definition bind_host_device :: "driver_init \<Rightarrow> nat \<Rightarrow> z_virt_dev \<Rightarrow> vm_devs \<Rightarrow> int \<times> vm_devs" where
  "bind_host_device init_fn h chosen st =
    (let st = st\<lparr>device_data := (device_data st)(h := Some (dev_ptr chosen))\<rparr>;
         chosen = chosen\<lparr>priv_data := Some (Host_device h)\<rparr>;
         st = (if dev_pt_flag chosen \<or> shareable chosen then upd_vdev (dev_ptr chosen) (\<lambda>_. chosen) st else st);
         (ret, st) = (if shareable chosen then init_fn h chosen st else (0, st))
     in if ret \<noteq> 0 then (- EFAULT, st) else (0, st\<lparr>device_ready := (device_ready st)(h := True)\<rparr>))"

definition handle_vm_device_emulate :: "malloc_dev \<Rightarrow> driver_init \<Rightarrow> u64 \<Rightarrow> vm_devs \<Rightarrow> (int \<times> vm_devs) outcome" where
  "handle_vm_device_emulate malloc init_fn pa st = (case List.find (touches pa) (dev_idle_list st) of
     None \<Rightarrow> Done (- ENODEV, st)
   | Some d \<Rightarrow>
       bind_outcome (vm_virt_dev_add malloc (dev_name d) (dev_pt_flag d) (shareable d) (ucast (vm_vdev_paddr d))
           (ucast (vm_vdev_vaddr d)) (vm_vdev_size d) (dev_hirq d) (dev_virq d) (st\<lparr>chosen_flag := True\<rparr>)) (\<lambda>(r, st).
         case r of
           None \<Rightarrow> Done (- ENODEV, st\<lparr>chosen_flag := False\<rparr>)
         | Some chosen \<Rightarrow>
             bind_outcome (vm_device_irq_init chosen
                 (st\<lparr>dev_idle_list := remove1 d (dev_idle_list st),
                     dev_used_list := dev_used_list st @ [d\<lparr>dev_vm := Some (vm_id st)\<rparr>]\<rparr>)) (\<lambda>st.
               case priv_data d of
                 Some (Host_device h) \<Rightarrow> Done (bind_host_device init_fn h chosen st)
               | _ \<Rightarrow> Fault)))"

end
