(* ===== verification/Vserial_Props.thy ===== *)
theory Vserial_Props
  imports Vserial
begin

text \<open>
  The buffer of the serial port as a queue: what the host sends reaches the guest complete and in order, as long
  as the unread bytes fit. The check of the sender does not ensure that: it looks at the write position only,
  which starts again at the end of the buffer.
\<close>

section \<open>The buffer\<close>

definition buf_ok :: "send_buffer \<Rightarrow> bool" where
  "buf_ok b \<longleftrightarrow> length (sb_data b) = SEND_BUFFER_SIZE \<and> 0 \<le> sb_count b \<and> nat (sb_count b) \<le> SEND_BUFFER_SIZE
     \<and> read_pos b < SEND_BUFFER_SIZE \<and> write_pos b = (read_pos b + nat (sb_count b)) mod SEND_BUFFER_SIZE"

definition unread :: "send_buffer \<Rightarrow> u8 list" where
  "unread b = map (\<lambda>k. sb_data b ! ((read_pos b + k) mod SEND_BUFFER_SIZE)) [0..<nat (sb_count b)]"

lemma length_unread [simp]: "length (unread b) = nat (sb_count b)"
  by (simp add: unread_def)

lemma buffer_size_pos [simp]: "0 < SEND_BUFFER_SIZE" "SEND_BUFFER_SIZE \<noteq> 0"
  by (simp_all add: SEND_BUFFER_SIZE_def)

lemma ring_index_neq: "k < c \<Longrightarrow> c < n \<Longrightarrow> (r + k) mod n \<noteq> (r + c) mod (n :: nat)"
proof
  assume a: "k < c" "c < n" "(r + k) mod n = (r + c) mod n"
  then have "(r + c - (r + k)) mod n = 0" by (intro mod_eq_dvd_iff_nat[THEN iffD1, THEN dvd_imp_mod_0]) auto
  then show False using a(1,2) by auto
qed

lemma put_byte:
  assumes "buf_ok b" "nat (sb_count b) < SEND_BUFFER_SIZE"
    and b': "b' = b\<lparr>sb_data := (sb_data b)[write_pos b := x], write_pos := (write_pos b + 1) mod SEND_BUFFER_SIZE, sb_count := sb_count b + 1\<rparr>"
  shows "buf_ok b' \<and> unread b' = unread b @ [x]"
proof
  have c: "nat (sb_count b + 1) = Suc (nat (sb_count b))" using assms(1) unfolding buf_ok_def by linarith
  have "(write_pos b + 1) mod SEND_BUFFER_SIZE = (read_pos b + Suc (nat (sb_count b))) mod SEND_BUFFER_SIZE"
    using assms(1) by (simp add: buf_ok_def mod_Suc_eq)
  then show "buf_ok b'" using assms c by (simp add: buf_ok_def)
  have old: "(sb_data b)[write_pos b := x] ! ((read_pos b + k) mod SEND_BUFFER_SIZE) = sb_data b ! ((read_pos b + k) mod SEND_BUFFER_SIZE)"
    if "k < nat (sb_count b)" for k
    using ring_index_neq[OF that assms(2)] assms(1) by (metis buf_ok_def nth_list_update_neq)
  have new: "(sb_data b)[write_pos b := x] ! ((read_pos b + nat (sb_count b)) mod SEND_BUFFER_SIZE) = x"
    using assms(1) by (simp add: buf_ok_def)
  show "unread b' = unread b @ [x]" by (simp add: unread_def b' c old new)
qed

lemma put_bytes_ok:
  "buf_ok b \<Longrightarrow> nat (sb_count b) + length xs \<le> SEND_BUFFER_SIZE \<Longrightarrow>
    buf_ok (put_bytes xs b) \<and> unread (put_bytes xs b) = unread b @ xs"
proof (induction xs arbitrary: b)
  case (Cons x xs)
  define b' where "b' = b\<lparr>sb_data := (sb_data b)[write_pos b := x], write_pos := (write_pos b + 1) mod SEND_BUFFER_SIZE, sb_count := sb_count b + 1\<rparr>"
  have b: "buf_ok b'" "unread b' = unread b @ [x]" using put_byte[OF Cons.prems(1) _ b'_def] Cons.prems(2) by auto
  have "nat (sb_count b') + length xs \<le> SEND_BUFFER_SIZE"
    using Cons.prems by (simp add: b'_def buf_ok_def nat_add_distrib)
  then show ?case using Cons.IH[OF b(1)] b(2) by (simp add: b'_def)
qed simp

lemma take_byte_ok:
  assumes "buf_ok b" "unread b = x # xs"
  shows "\<exists>b'. take_byte b = (x, b') \<and> buf_ok b' \<and> unread b' = xs"
proof -
  define n where "n = nat (sb_count b) - 1"
  have c: "sb_count b = int n + 1" using assms(1) arg_cong[OF assms(2), of length] by (simp add: n_def buf_ok_def)
  have up: "[0..<nat (int n + 1)] = 0 # map Suc [0..<n]" by (simp add: nat_add_distrib upt_conv_Cons map_Suc_upt del: upt_Suc)
  have x: "x = sb_data b ! read_pos b" and xs: "xs = map (\<lambda>k. sb_data b ! ((read_pos b + Suc k) mod SEND_BUFFER_SIZE)) [0..<n]"
    using assms unfolding unread_def c up by (auto simp: buf_ok_def)
  define b' where "b' = b\<lparr>read_pos := (read_pos b + 1) mod SEND_BUFFER_SIZE, sb_count := int n\<rparr>"
  have "unread b' = xs" unfolding xs by (simp add: unread_def b'_def mod_simps)
  moreover have "buf_ok b'" using assms(1) by (simp add: b'_def buf_ok_def c nat_add_distrib mod_simps)
  ultimately show ?thesis
    by (cases "n = 0") (auto simp: take_byte_def Let_def c x b'_def buf_ok_def unread_def)
qed

section \<open>The serial port\<close>

definition serial_ok :: "virt_pl011 \<Rightarrow> bool" where
  "serial_ok p \<longleftrightarrow> buf_ok (buffer p) \<and> pl011_count p = of_int (sb_count (buffer p))"

definition waiting :: "virt_pl011 \<Rightarrow> u8 list" where
  "waiting p = unread (buffer p)"

definition fits :: "u8 list \<Rightarrow> virt_pl011 \<Rightarrow> bool" where
  "fits data p \<longleftrightarrow> write_pos (buffer p) + length data \<le> SEND_BUFFER_SIZE \<and> length (waiting p) + length data \<le> SEND_BUFFER_SIZE"

text \<open>A guest that reads the data register; a byte is there if one is counted.\<close>

definition receive :: "virt_pl011 \<Rightarrow> u8 option \<times> virt_pl011" where
  "receive p = (case vserial_vdev_mem_read (ucast (vserial_base p)) p of
     Done (_, v, p') \<Rightarrow> (if pl011_count p = 0 then None else Some (ucast v), p')
   | _ \<Rightarrow> (None, p))"

lemma set_reg_buffer [simp]:
  "buffer (set_reg i v p) = buffer p" "pl011_count (set_reg i v p) = pl011_count p" "vserial_base (set_reg i v p) = vserial_base p"
  by (simp_all add: set_reg_def)

lemma count_zero:
  assumes "serial_ok p"
  shows "pl011_count p = 0 \<longleftrightarrow> waiting p = []" "sb_count (buffer p) = int (length (waiting p))"
proof -
  have c: "0 \<le> sb_count (buffer p)" "nat (sb_count (buffer p)) \<le> 4096"
    using assms by (simp_all add: serial_ok_def buf_ok_def SEND_BUFFER_SIZE_def)
  show "sb_count (buffer p) = int (length (waiting p))" using c(1) by (simp add: waiting_def)
  define n where "n = nat (sb_count (buffer p))"
  have n: "sb_count (buffer p) = int n" "n \<le> 4096" using c by (simp_all add: n_def)
  then have "pl011_count p = of_nat n" using assms by (simp add: serial_ok_def)
  then have "unat (pl011_count p) = n" using n(2) by (simp add: unat_of_nat_small)
  then have "pl011_count p = 0 \<longleftrightarrow> n = 0" by (auto simp: unat_eq_zero)
  then show "pl011_count p = 0 \<longleftrightarrow> waiting p = []" using n(1) by (auto simp: waiting_def unread_def)
qed

lemma send_ok:
  assumes "serial_ok p" "fits data p"
  shows "serial_ok (snd (pl011_virt_serial_send data p)) \<and> waiting (snd (pl011_virt_serial_send data p)) = waiting p @ data"
proof -
  have ok: "buf_ok (put_bytes data (buffer p))" "unread (put_bytes data (buffer p)) = unread (buffer p) @ data"
    using assms put_bytes_ok[of "buffer p" data] by (simp_all add: serial_ok_def fits_def waiting_def)
  show ?thesis using assms(2) ok by (simp add: pl011_virt_serial_send_def fits_def serial_ok_def waiting_def Let_def)
qed

lemma ucast_through_u64: "(ucast (ucast (x :: u32) :: u64) :: u8) = ucast x"
  by (rule bit_word_eqI) (auto simp: bit_ucast_iff)

lemma ucast_u8_u32: "(ucast (ucast (x :: u8) :: u32) :: u8) = x"
  by (rule bit_word_eqI) (auto simp: bit_ucast_iff)

lemma ucast_u8_u64: "(ucast (ucast (x :: u8) :: u32) :: u64) = ucast x"
  by (rule bit_word_eqI) (auto simp: bit_ucast_iff dest: bit_imp_le_length)

lemma receive_read:
  "receive p = (let (v, p') = read_data (p\<lparr>set_irq := False\<rparr>) in (if pl011_count p = 0 then None else Some (ucast v), p'))"
  by (simp add: receive_def vserial_vdev_mem_read_def Let_def ucast_through_u64 split: prod.split)

lemma receive_oldest:
  assumes "serial_ok p" "waiting p = x # xs"
  shows "\<exists>p'. receive p = (Some x, p') \<and> serial_ok p' \<and> waiting p' = xs"
proof -
  have ne: "pl011_count p \<noteq> 0" and cnt: "pl011_count p = of_int (sb_count (buffer p))" "sb_count (buffer p) = int (length xs) + 1"
    using count_zero[OF assms(1)] assms by (simp_all add: serial_ok_def)
  obtain b where b: "take_byte (buffer p) = (x, b)" "buf_ok b" "unread b = xs"
    using take_byte_ok[of "buffer p" x xs] assms by (auto simp: serial_ok_def waiting_def)
  have "sb_count b = int (length xs)" using b(2) length_unread[of b] unfolding b(3) by (simp add: buf_ok_def)
  then have "pl011_count p - 1 = of_int (sb_count b)" using cnt by simp
  then show ?thesis using ne b by (simp add: receive_read read_data_def Let_def serial_ok_def waiting_def ucast_u8_u32)
qed

lemma receive_empty:
  assumes "serial_ok p" "waiting p = []"
  shows "\<exists>p'. receive p = (None, p') \<and> serial_ok p' \<and> waiting p' = []"
  using count_zero(1)[OF assms(1)] assms by (simp add: receive_read read_data_def Let_def serial_ok_def waiting_def)

lemma read_console:
  assumes "serial_ok p" "waiting p = x # xs" "receive p = (Some x, p')"
  shows "\<exists>v. vserial_vdev_mem_read (ucast (vserial_base p)) p = Done (0, v, p') \<and> v = ucast x"
proof -
  have ne: "pl011_count p \<noteq> 0" using count_zero(1)[OF assms(1)] assms(2) by simp
  obtain b where b: "take_byte (buffer p) = (x, b)" using take_byte_ok[of "buffer p" x xs] assms by (auto simp: serial_ok_def waiting_def)
  show ?thesis using assms(3) ne b
    by (auto simp: receive_def vserial_vdev_mem_read_def read_data_def Let_def ucast_u8_u64 split: prod.splits if_splits)
qed

interpretation console: byte_queue serial_ok waiting fits "\<lambda>data p. snd (pl011_virt_serial_send data p)" receive
  by unfold_locales (use send_ok receive_oldest receive_empty in blast)+


definition serial_new :: virt_pl011 where
  "serial_new = snd (vpl011_regs_init True 0x9000000 0x1000
    \<lparr>vserial_regs = [], vserial_base = 0, vserial_size = 0, pl011_irq = 33, pl011_enabled = 0, pl011_level = 0, set_irq = False,
     pl011_count = 0, pl011_connecting = False,
     buffer = \<lparr>sb_data = replicate SEND_BUFFER_SIZE 0, write_pos = 0, read_pos = 0, sb_count = 0, buffer_overflow = False\<rparr>,
     uart_out = [], VPL011_LINUX_OFFSET = 0xfe0\<rparr>)"

lemma set_reg_byte_buffer [simp]: "buffer (set_reg_byte k b p) = buffer p" "pl011_count (set_reg_byte k b p) = pl011_count p"
  by (simp_all add: set_reg_byte_def)

lemma serial_new_buffer:
  "buffer serial_new = \<lparr>sb_data = replicate SEND_BUFFER_SIZE 0, write_pos = 0, read_pos = 0, sb_count = 0, buffer_overflow = False\<rparr>"
  "pl011_count serial_new = 0"
  by (simp_all add: serial_new_def vpl011_regs_init_def Let_def upt_rec)

lemma set_reg_byte_base [simp]: "vserial_base (set_reg_byte k b p) = vserial_base p"
  by (simp add: set_reg_byte_def)

lemma serial_new_base: "vserial_base serial_new = 0x9000000"
  by (simp add: serial_new_def vpl011_regs_init_def Let_def upt_rec)

lemma serial_new_ok: "serial_ok serial_new" "waiting serial_new = []"
  by (simp_all add: serial_ok_def buf_ok_def waiting_def unread_def serial_new_buffer)


text \<open>
  When the buffer is full up to its end, the write position is 0 again and the check of the sender admits more:
  the next byte overwrites the oldest one, which the guest never sees.
\<close>

theorem send_overwrites_unread:
  assumes "serial_ok p" "length (waiting p) = SEND_BUFFER_SIZE" "read_pos (buffer p) = 0"
  shows "\<exists>p'. pl011_virt_serial_send [x] p = (0, p') \<and> fst (receive p') = Some x"
proof -
  have b: "write_pos (buffer p) = 0" "sb_count (buffer p) = int SEND_BUFFER_SIZE" "length (sb_data (buffer p)) = SEND_BUFFER_SIZE"
    using assms count_zero(2)[OF assms(1)] by (auto simp: serial_ok_def buf_ok_def)
  obtain p' where p': "pl011_virt_serial_send [x] p = (0, p')" "buffer p' = put_bytes [x] (buffer p)" "pl011_count p' = of_int (sb_count (buffer p'))"
    using b by (auto simp: pl011_virt_serial_send_def Let_def SEND_BUFFER_SIZE_def)
  have "pl011_count p' \<noteq> 0" using b p'(2,3) by (simp add: SEND_BUFFER_SIZE_def)
  moreover have "fst (take_byte (buffer p')) = x" using b assms(3) p'(2) by (simp add: take_byte_def Let_def)
  ultimately show ?thesis using p'(1) by (auto simp: receive_read read_data_def Let_def ucast_u8_u32 split: prod.split)
qed

end
