(* ===== verification/Vm_Device_Props.thy ===== *)
theory Vm_Device_Props
  imports Vm_Device Vm_Mem_Props Vgic_Bits Vserial_Props
begin

text \<open>
  The devices of the host never get lost and are handed out once: handing an idle device to a VM moves it to the
  list of used devices and gives the VM a device with the same registers; removing that device moves it back.
\<close>

section \<open>Device lists\<close>

text \<open>Every device of the host is in exactly one of the lists; the address of its registers identifies it.\<close>

definition devs_inv :: "vm_devs \<Rightarrow> bool" where
  "devs_inv st \<longleftrightarrow> distinct (map vm_vdev_paddr (dev_idle_list st @ dev_used_list st))"

definition dev_lists :: "vm_devs \<Rightarrow> u32 list \<times> z_virt_dev list \<times> z_virt_dev list" where
  "dev_lists st = (map vm_vdev_paddr (vdev_list st), dev_idle_list st, dev_used_list st)"

lemma u32_u64_u32: "ucast (ucast w :: u64) = (w :: u32)"
  by (rule bit_word_eqI) (simp add: bit_ucast_iff)

lemma vm_vdev_mem_add_ok: "\<exists>vd. vm_vdev_mem_add (True, True) d st = Done (0, st\<lparr>vmem := vd\<rparr>)"
  unfolding vm_vdev_mem_add_def vm_vdev_mem_create_def create_vm_mem_vpart_def alloc_vm_mem_partition_def Let_def
  by (simp del: if_split) blast

lemma vm_virt_dev_add_ok:
  "\<exists>d vd. vm_virt_dev_add (Some ptr, True, True) name pt share pbase vbase sz hirq virq st =
     Done (Some d, st\<lparr>vmem := vd, vdev_list := vdev_list st @ [d]\<rparr>)
   \<and> vm_vdev_paddr d = ucast pbase \<and> dev_ptr d = ptr \<and> dev_virq d = virq \<and> dev_hirq d = hirq"
proof -
  define d where "d = new_dev ptr name pt share pbase vbase sz st"
  obtain vd where vd: "vm_vdev_mem_add (True, True) d st = Done (0, st\<lparr>vmem := vd\<rparr>)" using vm_vdev_mem_add_ok by blast
  let ?d = "d\<lparr>dev_virq := virq, dev_hirq := hirq, dev_vm := Some (vm_id st)\<rparr>"
  have "vm_virt_dev_add (Some ptr, True, True) name pt share pbase vbase sz hirq virq st =
     Done (Some ?d, st\<lparr>vmem := vd, vdev_list := vdev_list st @ [?d]\<rparr>)"
    unfolding vm_virt_dev_add_def by (simp add: d_def[symmetric] vd Let_def)
  moreover have "vm_vdev_paddr ?d = ucast pbase \<and> dev_ptr ?d = ptr \<and> dev_virq ?d = virq \<and> dev_hirq ?d = hirq"
    by (simp add: d_def new_dev_def)
  ultimately show ?thesis by blast
qed

lemma vm_device_irq_init_ok:
  assumes "unat (dev_virq d) < VM_GLOBAL_VIRQ_NR (gic st)" "unat (dev_hirq d) < VM_GLOBAL_VIRQ_NR (gic st)"
  shows "\<exists>st'. vm_device_irq_init d st = Done st' \<and> dev_lists st' = dev_lists st \<and> vdev_list st' = vdev_list st"
  using assms by (auto simp: vm_device_irq_init_def VGIC_GET_VIRQ_DESC_def put_desc_def dev_lists_def Let_def)

lemma upd_vdev_fresh:
  assumes "vdev_list st = ds @ [d]" "dev_ptr d = ptr" "ptr \<notin> dev_ptr ` set ds" "vm_vdev_paddr d' = vm_vdev_paddr d"
  shows "dev_lists (upd_vdev ptr (\<lambda>_. d') st) = dev_lists st"
proof -
  have "map (\<lambda>e. if dev_ptr e = ptr then d' else e) ds = ds" using assms(3) by (intro map_idI) auto
  then show ?thesis using assms by (simp add: upd_vdev_def dev_lists_def)
qed

lemma bind_host_device_keeps:
  assumes "\<And>h c s. dev_lists (snd (init_fn h c s)) = dev_lists s"
    "vdev_list st = ds @ [d]" "dev_ptr d \<notin> dev_ptr ` set ds"
  shows "dev_lists (snd (bind_host_device init_fn h d st)) = dev_lists st"
proof -
  define st1 where "st1 = st\<lparr>device_data := (device_data st)(h := Some (dev_ptr d))\<rparr>"
  define e where "e = d\<lparr>priv_data := Some (Host_device h)\<rparr>"
  define st2 where "st2 = (if dev_pt_flag e \<or> shareable e then upd_vdev (dev_ptr e) (\<lambda>_. e) st1 else st1)"
  define r where "r = (if shareable e then init_fn h e st2 else (0, st2))"
  have 1: "dev_lists st2 = dev_lists st"
    using upd_vdev_fresh[of st1 ds d "dev_ptr d" e] assms(2,3) by (simp add: st2_def e_def st1_def dev_lists_def)
  have "dev_lists (snd r) = dev_lists st2" using assms(1) by (simp add: r_def)
  moreover have "bind_host_device init_fn h d st =
    (if fst r \<noteq> 0 then (- EFAULT, snd r) else (0, (snd r)\<lparr>device_ready := (device_ready (snd r))(h := True)\<rparr>))"
    unfolding bind_host_device_def Let_def st1_def[symmetric] e_def[symmetric] st2_def[symmetric] r_def[symmetric]
    by (simp add: case_prod_beta)
  ultimately show ?thesis using 1 by (simp add: dev_lists_def)
qed

lemma bind_host_device_ok:
  assumes "\<And>h c s. fst (init_fn h c s) = 0"
  shows "fst (bind_host_device init_fn h d st) = 0"
  unfolding bind_host_device_def Let_def using assms by (simp add: case_prod_beta)

section \<open>Handing out and taking back\<close>

text \<open>The first access to the registers of an idle device.\<close>

lemma handle_vm_device_emulate_moves:
  assumes "\<And>h c s. fst (init_fn h c s) = 0 \<and> dev_lists (snd (init_fn h c s)) = dev_lists s"
    "List.find (touches pa) (dev_idle_list st) = Some d" "ptr \<notin> dev_ptr ` set (vdev_list st)"
    "unat (dev_virq d) < VM_GLOBAL_VIRQ_NR (gic st)" "unat (dev_hirq d) < VM_GLOBAL_VIRQ_NR (gic st)"
    "priv_data d = Some (Host_device h)"
  shows "\<exists>st'. handle_vm_device_emulate (Some ptr, True, True) init_fn pa st = Done (0, st')
    \<and> dev_lists st' = (map vm_vdev_paddr (vdev_list st) @ [vm_vdev_paddr d], remove1 d (dev_idle_list st),
        dev_used_list st @ [d\<lparr>dev_vm := Some (vm_id st)\<rparr>])"
proof -
  from vm_virt_dev_add_ok[of ptr "dev_name d" "dev_pt_flag d" "shareable d" "ucast (vm_vdev_paddr d)" "ucast (vm_vdev_vaddr d)"
      "vm_vdev_size d" "dev_hirq d" "dev_virq d" "st\<lparr>chosen_flag := True\<rparr>"]
  obtain c vd where c: "vm_virt_dev_add (Some ptr, True, True) (dev_name d) (dev_pt_flag d) (shareable d) (ucast (vm_vdev_paddr d))
      (ucast (vm_vdev_vaddr d)) (vm_vdev_size d) (dev_hirq d) (dev_virq d) (st\<lparr>chosen_flag := True\<rparr>) =
      Done (Some c, st\<lparr>chosen_flag := True, vmem := vd, vdev_list := vdev_list st @ [c]\<rparr>)"
    "vm_vdev_paddr c = vm_vdev_paddr d" "dev_ptr c = ptr" "dev_virq c = dev_virq d" "dev_hirq c = dev_hirq d" using u32_u64_u32 by auto
  define s1 where "s1 = st\<lparr>chosen_flag := True, vmem := vd, vdev_list := vdev_list st @ [c],
    dev_idle_list := remove1 d (dev_idle_list st), dev_used_list := dev_used_list st @ [d\<lparr>dev_vm := Some (vm_id st)\<rparr>]\<rparr>"
  obtain s2 where s2: "vm_device_irq_init c s1 = Done s2" "dev_lists s2 = dev_lists s1" "vdev_list s2 = vdev_list st @ [c]"
    using vm_device_irq_init_ok[of c s1] assms(4,5) c(4,5) by (auto simp: s1_def)
  define r where "r = bind_host_device init_fn h c s2"
  have "dev_lists (snd r) = dev_lists s2"
    unfolding r_def using s2(3) assms(1,3) c(3) by (intro bind_host_device_keeps[where ds = "vdev_list st"]) auto
  then have r: "fst r = 0" "dev_lists (snd r) = dev_lists s1" using assms(1) bind_host_device_ok s2(2) by (auto simp: r_def)
  have "handle_vm_device_emulate (Some ptr, True, True) init_fn pa st = Done r"
    using assms(2,6) c(1) s2(1) by (simp add: handle_vm_device_emulate_def s1_def r_def)
  then show ?thesis using r c(2) by (intro exI[of _ "snd r"]) (auto simp: dev_lists_def s1_def prod_eq_iff)
qed

text \<open>Taking a device out of a list.\<close>

lemma remove_append_last:
  assumes "distinct (map f (xs @ [y]))" "f y = a"
  shows "List.find (\<lambda>d. f d = a) (xs @ [y]) = Some y" "remove1 y (xs @ [y]) = xs"
proof -
  have "\<forall>x\<in>set xs. f x \<noteq> a" using assms by (auto simp: rev_image_eqI)
  then show "List.find (\<lambda>d. f d = a) (xs @ [y]) = Some y" using assms(2) by (induction xs) auto
  have "y \<notin> set xs" using assms by auto
  then show "remove1 y (xs @ [y]) = xs" by (simp add: remove1_append)
qed

lemma devs_inv_moved:
  assumes "devs_inv st" "d \<in> set (dev_idle_list st)"
    "dev_idle_list st' = remove1 d (dev_idle_list st)" "dev_used_list st' = dev_used_list st @ [d\<lparr>dev_vm := v\<rparr>]"
  shows "devs_inv st'" "distinct (map vm_vdev_paddr (dev_used_list st @ [d\<lparr>dev_vm := v\<rparr>]))"
proof -
  from split_list_first[OF assms(2)] obtain as bs where idle: "dev_idle_list st = as @ d # bs" "d \<notin> set as" by blast
  then have "remove1 d (dev_idle_list st) = as @ bs" by (simp add: remove1_append)
  then show "devs_inv st'" using assms(1) unfolding devs_inv_def assms(3,4) idle by auto
  then show "distinct (map vm_vdev_paddr (dev_used_list st @ [d\<lparr>dev_vm := v\<rparr>]))" by (simp add: devs_inv_def assms(4))
qed

text \<open>
  C23: A device of the host goes to the VM that touches it, and comes back. When a guest accesses an address of an
  idle device whose interrupts are in range, the VM gets a device with the same registers and the device moves from
  the idle to the used list, where it is noted with its owner: it can not be handed out again. Removing the device
  of the VM moves exactly that device back. No device is lost or in both lists. k_malloc is supposed to return fresh memory,
  and the driver of the device to succeed without changing the lists.
\<close>

theorem device_handed_out_and_back:
  assumes "\<And>h c s. fst (init_fn h c s) = 0 \<and> dev_lists (snd (init_fn h c s)) = dev_lists s"
    "devs_inv st" "List.find (touches pa) (dev_idle_list st) = Some d" "ptr \<notin> dev_ptr ` set (vdev_list st)"
    "unat (dev_virq d) < VM_GLOBAL_VIRQ_NR (gic st)" "unat (dev_hirq d) < VM_GLOBAL_VIRQ_NR (gic st)"
    "priv_data d = Some (Host_device h)" "vm_vdev_paddr vd = vm_vdev_paddr d"
  shows "\<exists>st'. handle_vm_device_emulate (Some ptr, True, True) init_fn pa st = Done (0, st')
    \<and> map vm_vdev_paddr (vdev_list st') = map vm_vdev_paddr (vdev_list st) @ [vm_vdev_paddr d]
    \<and> dev_idle_list st' = remove1 d (dev_idle_list st)
    \<and> dev_used_list st' = dev_used_list st @ [d\<lparr>dev_vm := Some (vm_id st)\<rparr>] \<and> devs_inv st'
    \<and> fst (vm_virt_dev_remove vd st') = 0 \<and> dev_used_list (snd (vm_virt_dev_remove vd st')) = dev_used_list st
    \<and> dev_idle_list (snd (vm_virt_dev_remove vd st')) = remove1 d (dev_idle_list st) @ [d\<lparr>dev_vm := Some (vm_id st)\<rparr>]"
proof -
  from handle_vm_device_emulate_moves[where init_fn = init_fn, OF assms(1,3,4,5,6,7)] obtain st' where st':
    "handle_vm_device_emulate (Some ptr, True, True) init_fn pa st = Done (0, st')"
    "map vm_vdev_paddr (vdev_list st') = map vm_vdev_paddr (vdev_list st) @ [vm_vdev_paddr d]"
    "dev_idle_list st' = remove1 d (dev_idle_list st)" "dev_used_list st' = dev_used_list st @ [d\<lparr>dev_vm := Some (vm_id st)\<rparr>]"
    by (auto simp: dev_lists_def)
  have d: "d \<in> set (dev_idle_list st)" using assms(3) by (auto simp: find_Some_iff)
  note inv = devs_inv_moved[OF assms(2) d st'(3,4)]
  note last = remove_append_last[OF inv(2), of "vm_vdev_paddr vd"]
  have "fst (vm_virt_dev_remove vd st') = 0 \<and> dev_used_list (snd (vm_virt_dev_remove vd st')) = dev_used_list st
    \<and> dev_idle_list (snd (vm_virt_dev_remove vd st')) = remove1 d (dev_idle_list st) @ [d\<lparr>dev_vm := Some (vm_id st)\<rparr>]"
    using last assms(8) st'(3,4) by (simp add: vm_virt_dev_remove_def Let_def)
  then show ?thesis using st' inv(1) by blast
qed

text \<open>A VM without devices that touches the registers of a network card.\<close>

definition host_card :: z_virt_dev where
  "host_card = \<lparr>dev_ptr = 9, dev_name = ''eth0'', dev_pt_flag = True, shareable = False, zshm = False, dev_hirq = 40, dev_virq = 41,
     vm_vdev_paddr = 0xA000000, vm_vdev_vaddr = 0xA000000, vm_vdev_size = 0x1000, dev_vm = None, priv_data = Some (Host_device 0)\<rparr>"

definition devs_card :: vm_devs where
  "devs_card = \<lparr>vm_id = 1, vdev_list = [], vmem = mem_new s2_four, gic = vgic_two, serial = serial_new,
     pt_irq_bitmap = (\<lambda>_. False), dev_idle_list = [host_card], dev_used_list = [], chosen_flag = False, device_data = (\<lambda>_. None),
     device_ready = (\<lambda>_. False), vdevice_type = (\<lambda>_. 1), host_regs = (\<lambda>_. 0), zshm_id = 0, CONFIG_ZSHM = False\<rparr>"

theorem device_handed_out_and_back_witness:
  "\<exists>st'. handle_vm_device_emulate (Some 5, True, True) (\<lambda>_ _ s. (0, s)) 0xA000010 devs_card = Done (0, st')
    \<and> dev_idle_list st' = [] \<and> dev_used_list st' = [host_card\<lparr>dev_vm := Some 1\<rparr>]
    \<and> dev_idle_list (snd (vm_virt_dev_remove host_card st')) = [host_card\<lparr>dev_vm := Some 1\<rparr>]"
proof -
  have find: "List.find (touches 0xA000010) (dev_idle_list devs_card) = Some host_card"
    by (simp add: devs_card_def touches_def host_card_def)
  have st: "devs_inv devs_card" "5 \<notin> dev_ptr ` set (vdev_list devs_card)" "unat (dev_virq host_card) < VM_GLOBAL_VIRQ_NR (gic devs_card)"
    "unat (dev_hirq host_card) < VM_GLOBAL_VIRQ_NR (gic devs_card)" "priv_data host_card = Some (Host_device 0)"
    by (simp_all add: devs_inv_def devs_card_def host_card_def vgic_two_def)
  have lists: "dev_idle_list devs_card = [host_card]" "dev_used_list devs_card = []" "vm_id devs_card = 1" by (simp_all add: devs_card_def)
  show ?thesis
    using device_handed_out_and_back[of "\<lambda>_ _ s. (0, s)" devs_card "0xA000010" host_card 5 0 host_card, OF _ st(1) find st(2-5)]
    unfolding lists by auto
qed

end
