(* ===== verification/Zshm.thy ===== *)
theory Zshm
  imports Vm_Device
begin

text \<open>
  Memory shared between VMs (\<^verbatim>\<open>zshm.c\<close>, \<^verbatim>\<open>zshm.h\<close>): every VM gets a unit of the shared region with message slots
  that only it writes, and a ring in which the hypervisor notes who has sent a message. The number of units, the
  addresses and the sizes come from the device tree and are fields of the state. The contents of slots and rings
  are what the hypervisor finds in memory; guests write them as well. An array access out of range and an access
  through a mapping that does not exist fault. The calls of \<^verbatim>\<open>set_virq_to_vcpu\<close> for the first vCPU of a VM are
  recorded in \<^verbatim>\<open>zshm_virqs\<close>.
\<close>

section \<open>State\<close>

definition ZSHM_UNIT_SIZE :: u32 where "ZSHM_UNIT_SIZE = 0x200000"
definition ZSHM_NOTIFY_UNIT_SIZE :: u32 where "ZSHM_NOTIFY_UNIT_SIZE = 0x1000"
definition ZSHM_MESSAGE_SLOT_COUNT :: nat where "ZSHM_MESSAGE_SLOT_COUNT = 16"
definition ZSHM_SEND_SLOT_LIMIT :: u64 where "ZSHM_SEND_SLOT_LIMIT = 10"
definition ZSHM_SYSCALL_SLOT :: u64 where "ZSHM_SYSCALL_SLOT = 10"
definition HEARTBEAT_FLAG :: u64 where "HEARTBEAT_FLAG = 254"
definition MAX_DATA_SIZE :: nat where "MAX_DATA_SIZE = 1024"
definition RING_SIZE :: nat where "RING_SIZE = 128"

record zshm_message =
  receivers :: u64
  msg_data :: "u8 list"
  msg_priority :: u8

record priority_ring =
  prod_tail :: u8
  cons_head :: u8
  ring_entries :: "(u8 \<times> u8) list"

record zshm_alloc_unit =
  unit_id :: u32
  unit_vm_id :: u32
  zshm_paddr :: u32
  zshm_notify_addr :: u32
  zshm_notify_info_addr :: u32

record zshm =
  ZSHM_UNIT_MAX_NUMS :: nat
  ZSHM_START_PHY_ADDR :: u32
  ZSHM_SIZE :: u32
  ZSHM_NOTIFY_SPACE_START_PHY_ADDR :: u32
  ZSHM_NOTIFY_INFO_SPACE_START_PHY_ADDR :: u32
  zshm_irq :: u32
  zshm_bitmap :: "u64 list"
  zshm_units :: "zshm_alloc_unit list"
  vmid_to_units_index :: "int list"
  message_slots :: "nat \<Rightarrow> zshm_message list"
  priority_rings :: "nat \<Rightarrow> priority_ring"
  is_mapped :: "nat \<Rightarrow> bool"
  zshm_virqs :: "nat list"
  CONFIG_HEARTBEAT :: bool
  vm_heartbeat :: "nat \<Rightarrow> int"

section \<open>The bitmap of units\<close>

definition set_bitmap :: "nat \<Rightarrow> bool \<Rightarrow> zshm \<Rightarrow> (int \<times> zshm) outcome" where
  "set_bitmap index on z =
    (if \<not> index < ZSHM_UNIT_MAX_NUMS z then Done (- EINVAL, z)
     else if \<not> index div 64 < length (zshm_bitmap z) then Fault
     else let w = zshm_bitmap z ! (index div 64)
          in Done (0, z\<lparr>zshm_bitmap := (zshm_bitmap z)[index div 64 :=
                         (if on then w OR BIT (index mod 64) else w AND NOT (BIT (index mod 64)))]\<rparr>))"

definition zshm_bitmap_set :: "nat \<Rightarrow> zshm \<Rightarrow> (int \<times> zshm) outcome" where
  "zshm_bitmap_set index = set_bitmap index True"

definition zshm_bitmap_unset :: "nat \<Rightarrow> zshm \<Rightarrow> (int \<times> zshm) outcome" where
  "zshm_bitmap_unset index = set_bitmap index False"

definition bitmap_test :: "nat \<Rightarrow> zshm \<Rightarrow> bool outcome" where
  "bitmap_test index z =
    (if \<not> index div 64 < length (zshm_bitmap z) then Fault
     else Done (zshm_bitmap z ! (index div 64) AND BIT (index mod 64) \<noteq> 0))"

fun find_free :: "nat list \<Rightarrow> zshm \<Rightarrow> nat outcome" where
  "find_free [] z = Done (ZSHM_UNIT_MAX_NUMS z)"
| "find_free (i # is) z = bind_outcome (bitmap_test i z) (\<lambda>used. if \<not> used then Done i else find_free is z)"

definition zshm_bitmap_find_first_free :: "zshm \<Rightarrow> nat outcome" where
  "zshm_bitmap_find_first_free z = find_free [0..<ZSHM_UNIT_MAX_NUMS z] z"

section \<open>Initialisation\<close>

definition zshm_unit_at :: "zshm \<Rightarrow> nat \<Rightarrow> zshm_alloc_unit" where
  "zshm_unit_at z i =
    \<lparr>unit_id = of_nat i, unit_vm_id = 0, zshm_paddr = ZSHM_START_PHY_ADDR z + of_nat i * ZSHM_UNIT_SIZE,
     zshm_notify_addr = ZSHM_NOTIFY_SPACE_START_PHY_ADDR z + of_nat i * ZSHM_NOTIFY_UNIT_SIZE,
     zshm_notify_info_addr = ZSHM_NOTIFY_INFO_SPACE_START_PHY_ADDR z + of_nat i * ZSHM_NOTIFY_UNIT_SIZE\<rparr>"

text \<open>Each unit starts behind its predecessor.\<close>

fun chain_units :: "nat \<Rightarrow> zshm \<Rightarrow> zshm_alloc_unit list" where
  "chain_units 0 z = []"
| "chain_units (Suc 0) z = [zshm_unit_at z 0]"
| "chain_units (Suc (Suc n)) z =
    (let us = chain_units (Suc n) z; p = last us
     in us @ [\<lparr>unit_id = of_nat (Suc n), unit_vm_id = 0, zshm_paddr = zshm_paddr p + ZSHM_UNIT_SIZE,
               zshm_notify_addr = zshm_notify_addr p + ZSHM_NOTIFY_UNIT_SIZE,
               zshm_notify_info_addr = zshm_notify_info_addr p + ZSHM_NOTIFY_UNIT_SIZE\<rparr>])"

definition zshm_init :: "zshm \<Rightarrow> zshm" where
  "zshm_init z = z\<lparr>zshm_bitmap := replicate (ZSHM_UNIT_MAX_NUMS z div 64) 0,
     zshm_units := chain_units (ZSHM_UNIT_MAX_NUMS z) z,
     vmid_to_units_index := replicate (ZSHM_UNIT_MAX_NUMS z) (- 1),
     is_mapped := (\<lambda>_. False)\<rparr>"

section \<open>A unit for a VM\<close>

text \<open>The unit with the number of the VM if it is free, otherwise the first free one.\<close>

definition zshm_index :: "nat \<Rightarrow> zshm \<Rightarrow> nat outcome" where
  "zshm_index vmid z =
    (if vmid < ZSHM_UNIT_MAX_NUMS z
     then bind_outcome (bitmap_test vmid z) (\<lambda>used. if \<not> used then Done vmid else zshm_bitmap_find_first_free z)
     else zshm_bitmap_find_first_free z)"

text \<open>Marking the unit. The identifier of the unit goes to the VM.\<close>

definition zshm_claim :: "nat \<Rightarrow> nat \<Rightarrow> zshm \<Rightarrow> (u32 \<times> zshm) outcome" where
  "zshm_claim vmid index z =
    bind_outcome (zshm_bitmap_set index (z\<lparr>zshm_units := (zshm_units z)[index := (zshm_units z ! index)\<lparr>unit_vm_id := of_nat vmid\<rparr>]\<rparr>))
      (\<lambda>(_, z). if \<not> vmid < length (vmid_to_units_index z) then Fault
                else Done (unit_id (zshm_units z ! index), z\<lparr>vmid_to_units_index := (vmid_to_units_index z)[vmid := int index]\<rparr>))"

definition shm_dev :: "malloc_dev \<Rightarrow> string \<Rightarrow> u32 \<Rightarrow> u32 \<Rightarrow> u32 \<Rightarrow> zshm \<Rightarrow> vm_devs \<Rightarrow> (z_virt_dev option \<times> vm_devs) outcome" where
  "shm_dev malloc name paddr vaddr sz z = vm_virt_dev_add malloc name False False (ucast paddr) (ucast vaddr) sz (zshm_irq z) (zshm_irq z)"

definition zshm_alloc_virt_dev :: "malloc_dev \<Rightarrow> nat \<Rightarrow> nat \<Rightarrow> zshm \<Rightarrow> vm_devs \<Rightarrow> (z_virt_dev option \<times> vm_devs) outcome" where
  "zshm_alloc_virt_dev malloc index type z st =
    (let u = zshm_units z ! index; base = ZSHM_START_PHY_ADDR z
     in if type = 0 then shm_dev malloc ''ZSHMW'' (zshm_paddr u) base ZSHM_UNIT_SIZE z st
        else if type = 1 then
          bind_outcome (shm_dev malloc ''ZSHMN'' (zshm_notify_addr u) (base + ZSHM_UNIT_SIZE) ZSHM_NOTIFY_UNIT_SIZE z st) (\<lambda>(r, st).
            case r of None \<Rightarrow> Fault
            | Some d \<Rightarrow> let d = d\<lparr>priv_data := Some Zshm_dev\<rparr>
                        in bind_outcome (vm_device_irq_init d (upd_vdev (dev_ptr d) (\<lambda>_. d) st)) (\<lambda>st. Done (Some d, st)))
        else shm_dev malloc ''ZSHMI'' (zshm_notify_info_addr u) (base + ZSHM_UNIT_SIZE + ZSHM_NOTIFY_UNIT_SIZE) ZSHM_NOTIFY_UNIT_SIZE z st)"

text \<open>The windows below and above the own unit.\<close>

definition read_window :: "malloc_dev \<Rightarrow> nat \<Rightarrow> nat \<Rightarrow> zshm \<Rightarrow> vm_devs \<Rightarrow> (bool \<times> vm_devs) outcome" where
  "read_window malloc i index z st =
    (let own = zshm_paddr (zshm_units z ! index); start = ZSHM_START_PHY_ADDR z;
         rd = start + ZSHM_UNIT_SIZE + ZSHM_NOTIFY_UNIT_SIZE + ZSHM_NOTIFY_UNIT_SIZE;
         (paddr, vaddr, sz) = (if i = 0 then (start, rd, own - start)
                               else (own + ZSHM_UNIT_SIZE, rd + own - start, ZSHM_SIZE z - (own - start) - ZSHM_UNIT_SIZE))
     in if sz = 0 then Done (True, st)
        else bind_outcome (shm_dev malloc (''ZSHMR'' @ [char_of (48 + i)]) paddr vaddr sz z st) (\<lambda>(r, st). Done (r \<noteq> None, st)))"

definition zshm_alloc_read_space :: "(nat \<Rightarrow> malloc_dev) \<Rightarrow> nat \<Rightarrow> zshm \<Rightarrow> vm_devs \<Rightarrow> (int \<times> vm_devs) outcome" where
  "zshm_alloc_read_space malloc index z st =
    bind_outcome (read_window (malloc 0) 0 index z st) (\<lambda>(ok, st).
      if \<not> ok then Done (- 1, st)
      else bind_outcome (read_window (malloc 1) 1 index z st) (\<lambda>(ok, st). Done (if ok then 0 else - 1, st)))"

definition empty_message :: zshm_message where
  "empty_message = \<lparr>receivers = 0, msg_data = replicate MAX_DATA_SIZE 0, msg_priority = 0\<rparr>"

definition empty_ring :: priority_ring where
  "empty_ring = \<lparr>prod_tail = 0, cons_head = 0, ring_entries = replicate RING_SIZE (0, 0)\<rparr>"

text \<open>
  The whole allocation. The slots and the rings are cleared as soon as their devices exist; the mappings that
  later notifications use are made last.
\<close>

definition zshm_alloc_vm_shm :: "(nat \<Rightarrow> malloc_dev) \<Rightarrow> zshm \<Rightarrow> vm_devs \<Rightarrow> (int \<times> zshm \<times> vm_devs) outcome" where
  "zshm_alloc_vm_shm malloc z st =
    (let vmid = unat (vm_id st) in
     bind_outcome (zshm_index vmid z) (\<lambda>index.
       if index = ZSHM_UNIT_MAX_NUMS z then Done (- 1, z, st)
       else bind_outcome (zshm_claim vmid index z) (\<lambda>(id, z).
         bind_outcome (zshm_alloc_virt_dev (malloc 0) index 0 z (st\<lparr>zshm_id := id\<rparr>)) (\<lambda>(r, st).
           if r = None then Done (- ENOMEM, z, st)
           else let z = z\<lparr>message_slots := (message_slots z)(index := replicate ZSHM_MESSAGE_SLOT_COUNT empty_message)\<rparr> in
           bind_outcome (zshm_alloc_virt_dev (malloc 1) index 1 z st) (\<lambda>(r, st).
             if r = None then Done (- ENOMEM, z, st)
             else bind_outcome (zshm_alloc_virt_dev (malloc 2) index 2 z st) (\<lambda>(r, st).
               if r = None then Done (- ENOMEM, z, st)
               else let z = z\<lparr>priority_rings := (priority_rings z)(index := empty_ring)\<rparr> in
               bind_outcome (zshm_alloc_read_space (\<lambda>i. malloc (3 + i)) index z st) (\<lambda>(ret, st).
                 if ret = - 1 then Done (- ENOMEM, z, st)
                 else Done (0, z\<lparr>is_mapped := (is_mapped z)(index := True)\<rparr>, st))))))))"

definition vm_zshm_deinit :: "z_virt_dev \<Rightarrow> zshm \<Rightarrow> vm_devs \<Rightarrow> (int \<times> zshm \<times> vm_devs) outcome" where
  "vm_zshm_deinit vdev_desc z st =
    (let vmid = unat (vm_id st) in
     if \<not> vmid < length (vmid_to_units_index z) then Fault
     else let index = vmid_to_units_index z ! vmid;
              z = (if CONFIG_HEARTBEAT z then z\<lparr>vm_heartbeat := (vm_heartbeat z)(vmid := 0)\<rparr> else z)
          in if index = - 1 then Fault
             else let i = nat index; z = z\<lparr>is_mapped := (is_mapped z)(i := False)\<rparr>
                  in bind_outcome (zshm_bitmap_unset i z) (\<lambda>(_, z).
                       Done (0, z\<lparr>zshm_units := (zshm_units z)[i := zshm_unit_at z i],
                                  vmid_to_units_index := (vmid_to_units_index z)[vmid := - 1]\<rparr>,
                             snd (vm_virt_dev_remove vdev_desc st))))"

section \<open>Notifications\<close>

text \<open>An entry at the tail of a ring; the tail is a byte in memory that the guest can write.\<close>

definition ring_push :: "nat \<Rightarrow> u8 \<Rightarrow> u8 \<Rightarrow> zshm \<Rightarrow> zshm outcome" where
  "ring_push index sender slot z =
    (let r = priority_rings z index; t = unat (prod_tail r)
     in if \<not> is_mapped z index \<or> \<not> t < length (ring_entries r) then Fault
        else Done (z\<lparr>priority_rings := (priority_rings z)(index :=
               r\<lparr>ring_entries := (ring_entries r)[t := (sender, slot)], prod_tail := of_nat ((t + 1) mod RING_SIZE)\<rparr>)\<rparr>))"

definition unit_of :: "nat \<Rightarrow> zshm \<Rightarrow> nat outcome" where
  "unit_of vmid z =
    (if \<not> vmid < length (vmid_to_units_index z) then Fault
     else if vmid_to_units_index z ! vmid = - 1 then Fault
     else Done (nat (vmid_to_units_index z ! vmid)))"

text \<open>\<^verbatim>\<open>running\<close> says which VMs exist and run; \<^verbatim>\<open>alloced\<close> is the set of allocated identifiers.\<close>

definition notify_one :: "u32 \<Rightarrow> (nat \<Rightarrow> bool) \<Rightarrow> u16 \<Rightarrow> nat \<Rightarrow> u64 \<Rightarrow> nat \<Rightarrow> zshm \<Rightarrow> zshm outcome" where
  "notify_one alloced running vmid unit flag rcv z =
    (if \<not> rcv < ZSHM_UNIT_MAX_NUMS z \<or> (ucast alloced :: u64) AND BIT rcv = 0 \<or> \<not> running rcv
     then let m = message_slots z unit ! unat flag
          in Done (z\<lparr>message_slots := (message_slots z)(unit := (message_slots z unit)[unat flag := m\<lparr>receivers := receivers m AND NOT (BIT rcv)\<rparr>])\<rparr>)
     else bind_outcome (unit_of rcv z) (\<lambda>u.
            bind_outcome (ring_push u (ucast vmid) (ucast flag) z) (\<lambda>z. Done (z\<lparr>zshm_virqs := zshm_virqs z @ [rcv]\<rparr>))))"

fun notify_all :: "u32 \<Rightarrow> (nat \<Rightarrow> bool) \<Rightarrow> u16 \<Rightarrow> nat \<Rightarrow> u64 \<Rightarrow> nat list \<Rightarrow> zshm \<Rightarrow> zshm outcome" where
  "notify_all alloced running vmid unit flag [] z = Done z"
| "notify_all alloced running vmid unit flag (rcv # rcvs) z =
    bind_outcome (notify_one alloced running vmid unit flag rcv z) (notify_all alloced running vmid unit flag rcvs)"

definition zshm_syscall :: "u16 \<Rightarrow> nat \<Rightarrow> zshm \<Rightarrow> (int \<times> zshm) outcome" where
  "zshm_syscall vmid unit z =
    (let k = unat ZSHM_SYSCALL_SLOT; m = message_slots z unit ! k;
         m = (if msg_data m ! 0 = 255 then m\<lparr>msg_data := (msg_data m)[1 := ucast vmid]\<rparr> else m);
         z = z\<lparr>message_slots := (message_slots z)(unit := (message_slots z unit)[k := m])\<rparr>
     in bind_outcome (ring_push unit 255 (ucast ZSHM_SYSCALL_SLOT) z) (\<lambda>z. Done (0, z\<lparr>zshm_virqs := zshm_virqs z @ [unat vmid]\<rparr>)))"

definition zshm_func_notify :: "u32 \<Rightarrow> (nat \<Rightarrow> bool) \<Rightarrow> int \<Rightarrow> u16 \<Rightarrow> u64 \<Rightarrow> zshm \<Rightarrow> (int \<times> zshm) outcome" where
  "zshm_func_notify alloced running uptime vmid flag z =
    (if \<not> unat vmid < length (vmid_to_units_index z) then Fault
     else if CONFIG_HEARTBEAT z \<and> flag = HEARTBEAT_FLAG
     then Done (0, z\<lparr>vm_heartbeat := (vm_heartbeat z)(unat vmid := uptime)\<rparr>)
     else if flag \<noteq> ZSHM_SYSCALL_SLOT \<and> ZSHM_SEND_SLOT_LIMIT - 1 < flag then Done (0, z)
     else bind_outcome (unit_of (unat vmid) z) (\<lambda>unit.
       if \<not> is_mapped z unit then Fault
       else if flag = ZSHM_SYSCALL_SLOT then zshm_syscall vmid unit z
       else bind_outcome (notify_all alloced running vmid unit flag
              (filter (bit (receivers (message_slots z unit ! unat flag))) [0..<64]) z) (\<lambda>z. Done (0, z))))"

end
