(* ===== verification/Zshm_Props.thy ===== *)
theory Zshm_Props
  imports Zshm Id_Pool
begin

text \<open>
  The units of the shared memory are a pool of identifiers when their number is a multiple of 64. For any other
  number the bitmap is too short: with fewer than 64 units it has no word at all.
\<close>

section \<open>The pool of units\<close>

definition units_inv :: "zshm \<Rightarrow> bool" where
  "units_inv z \<longleftrightarrow> ZSHM_UNIT_MAX_NUMS z = 64 * length (zshm_bitmap z)"

definition units_all :: "zshm \<Rightarrow> nat set" where
  "units_all z = {..<ZSHM_UNIT_MAX_NUMS z}"

definition units_used :: "zshm \<Rightarrow> nat set" where
  "units_used z = {i. i < ZSHM_UNIT_MAX_NUMS z \<and> bit (zshm_bitmap z ! (i div 64)) (i mod 64)}"

lemma bitmap_test_inv:
  assumes "units_inv z" "i < ZSHM_UNIT_MAX_NUMS z"
  shows "bitmap_test i z = Done (i \<in> units_used z)"
  using assms by (simp add: bitmap_test_def units_inv_def units_used_def BIT_def zvm_word less_mult_imp_div_less mult.commute)

lemma find_free_inv:
  assumes "units_inv z" "\<forall>i\<in>set is. i < ZSHM_UNIT_MAX_NUMS z"
  shows "find_free is z = Done (case List.find (\<lambda>i. i \<notin> units_used z) is of None \<Rightarrow> ZSHM_UNIT_MAX_NUMS z | Some i \<Rightarrow> i)"
  using assms by (induction "is") (auto simp: bitmap_test_inv)

lemma set_bitmap_inv:
  assumes "units_inv z" "i < ZSHM_UNIT_MAX_NUMS z"
  shows "\<exists>z'. set_bitmap i on z = Done (0, z') \<and> units_inv z' \<and> ZSHM_UNIT_MAX_NUMS z' = ZSHM_UNIT_MAX_NUMS z
    \<and> units_used z' = (if on then insert i (units_used z) else units_used z - {i})"
proof -
  define w where "w = (let w = zshm_bitmap z ! (i div 64) in if on then w OR BIT (i mod 64) else w AND NOT (BIT (i mod 64)))"
  have len: "i div 64 < length (zshm_bitmap z)" using assms by (simp add: units_inv_def less_mult_imp_div_less mult.commute)
  have w: "bit w k \<longleftrightarrow> (if k = i mod 64 then on else bit (zshm_bitmap z ! (i div 64)) k)" if "k < 64" for k
    using that by (auto simp: w_def Let_def BIT_def zvm_word)
  have same: "j div 64 = i div 64 \<and> j mod 64 = i mod 64 \<longleftrightarrow> j = i" for j :: nat by (metis div_mult_mod_eq)
  have b: "bit ((zshm_bitmap z)[i div 64 := w] ! (j div 64)) (j mod 64) \<longleftrightarrow>
      (if j = i then on else bit (zshm_bitmap z ! (j div 64)) (j mod 64))" for j
    using len w[of "j mod 64"] same[of j] by (cases "j div 64 = i div 64") auto
  have "set_bitmap i on z = Done (0, z\<lparr>zshm_bitmap := (zshm_bitmap z)[i div 64 := w]\<rparr>)"
    using assms(2) len by (simp add: set_bitmap_def w_def Let_def)
  moreover have "units_used (z\<lparr>zshm_bitmap := (zshm_bitmap z)[i div 64 := w]\<rparr>) = (if on then insert i (units_used z) else units_used z - {i})"
    using assms(2) by (auto simp: units_used_def b split: if_splits)
  ultimately show ?thesis using assms(1) by (simp add: units_inv_def)
qed

text \<open>A VM asks for a unit, and gives it back.\<close>

definition unit_take :: "nat \<Rightarrow> zshm \<Rightarrow> nat \<times> zshm" where
  "unit_take vmid z = (case bind_outcome (zshm_index vmid z) (\<lambda>i. bind_outcome (zshm_bitmap_set i z) (\<lambda>(_, z). Done (i, z))) of
     Done r \<Rightarrow> r | _ \<Rightarrow> (0, z))"

definition unit_give :: "nat \<Rightarrow> zshm \<Rightarrow> zshm" where
  "unit_give i z = (case zshm_bitmap_unset i z of Done (_, z) \<Rightarrow> z | _ \<Rightarrow> z)"

lemma zshm_index_inv:
  assumes "units_inv z"
  shows "\<exists>i. zshm_index vmid z = Done i \<and> (if units_used z = units_all z then i = ZSHM_UNIT_MAX_NUMS z else i \<in> units_all z - units_used z)"
proof -
  define i where "i = (case List.find (\<lambda>i. i \<notin> units_used z) [0..<ZSHM_UNIT_MAX_NUMS z] of None \<Rightarrow> ZSHM_UNIT_MAX_NUMS z | Some i \<Rightarrow> i)"
  have first: "zshm_bitmap_find_first_free z = Done i"
    using find_free_inv[OF assms, of "[0..<ZSHM_UNIT_MAX_NUMS z]"] by (simp add: zshm_bitmap_find_first_free_def i_def)
  have "units_used z \<subseteq> units_all z" by (auto simp: units_used_def units_all_def)
  then have i: "if units_used z = units_all z then i = ZSHM_UNIT_MAX_NUMS z else i \<in> units_all z - units_used z"
    unfolding i_def by (auto simp: units_all_def find_None_iff find_Some_iff split: option.split)
  show ?thesis
  proof (cases "vmid < ZSHM_UNIT_MAX_NUMS z \<and> vmid \<notin> units_used z")
    case True
    then show ?thesis using assms by (auto simp: zshm_index_def bitmap_test_inv units_all_def)
  next
    case False
    then show ?thesis using assms first i by (auto simp: zshm_index_def bitmap_test_inv)
  qed
qed

lemma unit_give_inv:
  assumes "units_inv z"
  shows "units_used (unit_give i z) = units_used z - {i}" "units_inv (unit_give i z)" "ZSHM_UNIT_MAX_NUMS (unit_give i z) = ZSHM_UNIT_MAX_NUMS z"
proof -
  have "units_used (unit_give i z) = units_used z - {i} \<and> units_inv (unit_give i z) \<and> ZSHM_UNIT_MAX_NUMS (unit_give i z) = ZSHM_UNIT_MAX_NUMS z"
  proof (cases "i < ZSHM_UNIT_MAX_NUMS z")
    case True
    from set_bitmap_inv[OF assms True, of False] obtain y where y: "set_bitmap i False z = Done (0, y)" "units_inv y"
      "ZSHM_UNIT_MAX_NUMS y = ZSHM_UNIT_MAX_NUMS z" "units_used y = units_used z - {i}" by auto
    then show ?thesis by (simp add: unit_give_def zshm_bitmap_unset_def)
  next
    case False
    then have "unit_give i z = z" "i \<notin> units_used z" by (simp_all add: unit_give_def zshm_bitmap_unset_def set_bitmap_def units_used_def)
    then show ?thesis using assms by simp
  qed
  then show "units_used (unit_give i z) = units_used z - {i}" "units_inv (unit_give i z)" "ZSHM_UNIT_MAX_NUMS (unit_give i z) = ZSHM_UNIT_MAX_NUMS z"
    by auto
qed

interpretation unit_pool: id_pool units_used units_all units_inv "unit_take vmid" unit_give for vmid
proof (unfold_locales, goal_cases)
  case (1 z i z')
  from zshm_index_inv[OF 1(1), of vmid] 1(2) obtain k where k: "zshm_index vmid z = Done k" "k \<in> units_all z - units_used z" by auto
  then have "k < ZSHM_UNIT_MAX_NUMS z" by (simp add: units_all_def)
  from set_bitmap_inv[OF 1(1) this, of True] obtain y where y: "set_bitmap k True z = Done (0, y)" "units_inv y"
    "ZSHM_UNIT_MAX_NUMS y = ZSHM_UNIT_MAX_NUMS z" "units_used y = insert k (units_used z)" by auto
  then show ?case using 1(3) k by (auto simp: unit_take_def zshm_bitmap_set_def units_all_def)
next
  case (2 z i z')
  from zshm_index_inv[OF 2(1), of vmid] 2(2) have "zshm_index vmid z = Done (ZSHM_UNIT_MAX_NUMS z)" by simp
  then show ?case using 2(3) by (auto simp: unit_take_def zshm_bitmap_set_def set_bitmap_def units_all_def)
next
  case (3 z i)
  then show ?case by (simp add: unit_give_inv)
next
  case (4 z i)
  then show ?case by (simp add: unit_give_inv units_all_def)
next
  case (5 z i)
  then show ?case by (simp add: unit_give_inv)
qed (auto simp: units_used_def units_all_def)

text \<open>
  The device trees of the supported boards give 63 units. The bitmap then has 63 / 64 = 0 words, and every VM that
  asks for a unit makes the hypervisor access memory behind the array.
\<close>

theorem few_units_fault:
  assumes "0 < ZSHM_UNIT_MAX_NUMS z" "ZSHM_UNIT_MAX_NUMS z < 64"
  shows "zshm_alloc_vm_shm malloc (zshm_init z) st = Fault"
proof -
  have no_word: "bitmap_test i (zshm_init z) = Fault" for i using assms(2) by (simp add: bitmap_test_def zshm_init_def)
  then have "zshm_bitmap_find_first_free (zshm_init z) = Fault"
    using assms(1) by (simp add: zshm_bitmap_find_first_free_def zshm_init_def upt_conv_Cons)
  then have "zshm_index vmid (zshm_init z) = Fault" for vmid by (simp add: zshm_index_def no_word)
  then show ?thesis by (simp add: zshm_alloc_vm_shm_def)
qed

end
