(* ===== verification/Zshm_Notify.thy ===== *)
theory Zshm_Notify
  imports Zshm_Props
begin

text \<open>
  Delivery of messages through the shared memory: what a notification does to the rings of the receivers, to their
  interrupts and to the mask of receivers in the message.
\<close>

section \<open>What a notification promises\<close>

text \<open>The VMs that get the message: they have a unit number, their identifier is allocated and they run.\<close>

definition live :: "u32 \<Rightarrow> (nat \<Rightarrow> bool) \<Rightarrow> zshm \<Rightarrow> nat \<Rightarrow> bool" where
  "live alloced running z r \<longleftrightarrow> r < ZSHM_UNIT_MAX_NUMS z \<and> bit alloced r \<and> running r"

definition receivers_of :: "u64 \<Rightarrow> nat list" where
  "receivers_of w = filter (bit w) [0..<64]"

definition noted :: "u16 \<Rightarrow> u64 \<Rightarrow> priority_ring \<Rightarrow> priority_ring" where
  "noted vmid flag r = r\<lparr>ring_entries := (ring_entries r)[unat (prod_tail r) := (ucast vmid, ucast flag)],
     prod_tail := of_nat ((unat (prod_tail r) + 1) mod RING_SIZE)\<rparr>"

text \<open>A VM whose unit is mapped and whose ring has a tail inside the ring.\<close>

definition ring_ready :: "zshm \<Rightarrow> nat \<Rightarrow> bool" where
  "ring_ready z r \<longleftrightarrow> (\<exists>u. unit_of r z = Done u \<and> is_mapped z u \<and>
     unat (prod_tail (priority_rings z u)) < length (ring_entries (priority_rings z u)))"

text \<open>The state after some receivers were served.\<close>

definition served :: "(nat \<Rightarrow> bool) \<Rightarrow> u16 \<Rightarrow> nat \<Rightarrow> u64 \<Rightarrow> nat list \<Rightarrow> zshm \<Rightarrow> zshm \<Rightarrow> bool" where
  "served ok vmid unit flag rs z z' \<longleftrightarrow>
     zshm_virqs z' = zshm_virqs z @ filter ok rs \<and>
     (\<forall>u. priority_rings z' u =
        (if \<exists>r\<in>set rs. ok r \<and> unit_of r z = Done u then noted vmid flag (priority_rings z u) else priority_rings z u)) \<and>
     (\<exists>w. (\<forall>i. bit w i \<longleftrightarrow> bit (receivers (message_slots z unit ! unat flag)) i \<and> \<not> (i \<in> set rs \<and> \<not> ok i)) \<and>
        message_slots z' = (message_slots z)(unit := (message_slots z unit)[unat flag := (message_slots z unit ! unat flag)\<lparr>receivers := w\<rparr>]))"

definition same_units :: "zshm \<Rightarrow> zshm \<Rightarrow> bool" where
  "same_units z z' \<longleftrightarrow> vmid_to_units_index z' = vmid_to_units_index z \<and> is_mapped z' = is_mapped z
     \<and> ZSHM_UNIT_MAX_NUMS z' = ZSHM_UNIT_MAX_NUMS z \<and> zshm_units z' = zshm_units z \<and> zshm_bitmap z' = zshm_bitmap z"

section \<open>One receiver\<close>

lemma same_units_facts:
  assumes "same_units z z'"
  shows "unit_of r z' = unit_of r z" "live alloced running z' = live alloced running z"
  using assms by (auto simp: same_units_def unit_of_def live_def fun_eq_iff)

lemma live_bit:
  assumes "r < 64"
  shows "(ucast alloced :: u64) AND BIT r = 0 \<longleftrightarrow> \<not> bit (alloced :: u32) r"
  using assms by (simp add: BIT_def zvm_word bit_ucast_iff)

lemma notify_one_dead:
  assumes "r < 64" "\<not> live alloced running z r" "unat flag < length (message_slots z unit)"
  shows "\<exists>z'. notify_one alloced running vmid unit flag r z = Done z' \<and> served (live alloced running z) vmid unit flag [r] z z' \<and> same_units z z'"
proof -
  define m where "m = message_slots z unit ! unat flag"
  define w where "w = receivers m AND NOT (BIT r)"
  have w: "bit w i \<longleftrightarrow> bit (receivers m) i \<and> i \<noteq> r" for i
    using assms(1) bit_imp_le_length[of "receivers m" i] by (auto simp: w_def BIT_def zvm_word)
  have "notify_one alloced running vmid unit flag r z =
    Done (z\<lparr>message_slots := (message_slots z)(unit := (message_slots z unit)[unat flag := m\<lparr>receivers := w\<rparr>])\<rparr>)"
    using assms(1,2) by (auto simp: notify_one_def live_bit live_def m_def w_def Let_def)
  moreover have "served (live alloced running z) vmid unit flag [r] z
    (z\<lparr>message_slots := (message_slots z)(unit := (message_slots z unit)[unat flag := m\<lparr>receivers := w\<rparr>])\<rparr>)"
    unfolding served_def m_def[symmetric] using assms(2) w by (intro conjI exI[of _ w]) auto
  ultimately show ?thesis by (simp add: same_units_def)
qed

lemma notify_one_live:
  assumes "r < 64" "live alloced running z r" "ring_ready z r"
  shows "\<exists>z'. notify_one alloced running vmid unit flag r z = Done z' \<and> served (live alloced running z) vmid unit flag [r] z z' \<and> same_units z z'"
proof -
  from assms(3) obtain u where u: "unit_of r z = Done u" "is_mapped z u"
    "unat (prod_tail (priority_rings z u)) < length (ring_entries (priority_rings z u))" by (auto simp: ring_ready_def)
  have "notify_one alloced running vmid unit flag r z =
    Done (z\<lparr>priority_rings := (priority_rings z)(u := noted vmid flag (priority_rings z u)), zshm_virqs := zshm_virqs z @ [r]\<rparr>)"
    using assms(1,2) u by (simp add: notify_one_def live_bit live_def ring_push_def noted_def Let_def)
  then show ?thesis using assms(2) u(1) by (auto simp: served_def same_units_def)
qed

section \<open>All receivers\<close>

lemma served_trans:
  assumes "served ok vmid unit flag [r] z y" "served ok vmid unit flag rs y x" "same_units z y"
    "unat flag < length (message_slots z unit)" "\<forall>q\<in>set rs. ok q \<longrightarrow> unit_of q z \<noteq> unit_of r z \<or> \<not> ok r"
  shows "served ok vmid unit flag (r # rs) z x"
proof -
  note u = same_units_facts(1)[OF assms(3)]
  have rings: "priority_rings x j = (if \<exists>q\<in>set (r # rs). ok q \<and> unit_of q z = Done j then noted vmid flag (priority_rings z j) else priority_rings z j)" for j
    using assms(1,2,5) unfolding served_def by (auto simp: u)
  from assms(1) obtain v where v: "\<And>i. bit v i \<longleftrightarrow> bit (receivers (message_slots z unit ! unat flag)) i \<and> \<not> (i = r \<and> \<not> ok i)"
    "message_slots y = (message_slots z)(unit := (message_slots z unit)[unat flag := (message_slots z unit ! unat flag)\<lparr>receivers := v\<rparr>])"
    by (auto simp: served_def)
  from assms(2) obtain w where w: "\<And>i. bit w i \<longleftrightarrow> bit (receivers (message_slots y unit ! unat flag)) i \<and> \<not> (i \<in> set rs \<and> \<not> ok i)"
    "message_slots x = (message_slots y)(unit := (message_slots y unit)[unat flag := (message_slots y unit ! unat flag)\<lparr>receivers := w\<rparr>])"
    by (auto simp: served_def)
  have "message_slots x = (message_slots z)(unit := (message_slots z unit)[unat flag := (message_slots z unit ! unat flag)\<lparr>receivers := w\<rparr>])"
    using w(2) v(2) assms(4) by simp
  moreover have "bit w i \<longleftrightarrow> bit (receivers (message_slots z unit ! unat flag)) i \<and> \<not> (i \<in> set (r # rs) \<and> \<not> ok i)" for i
    using w(1)[of i] v assms(4) by auto
  moreover have "zshm_virqs x = zshm_virqs z @ filter ok (r # rs)" using assms(1,2) by (simp add: served_def)
  ultimately show ?thesis unfolding served_def using rings by blast
qed

lemma notify_one_serves:
  assumes "r < 64" "live alloced running z r \<longrightarrow> ring_ready z r" "unat flag < length (message_slots z unit)"
  shows "\<exists>z'. notify_one alloced running vmid unit flag r z = Done z' \<and> served (live alloced running z) vmid unit flag [r] z z' \<and> same_units z z'"
  using assms notify_one_dead notify_one_live by blast

text \<open>Serving one receiver leaves the rings of the receivers of other units alone.\<close>

lemma ring_ready_other:
  assumes "served ok vmid unit flag [r] z y" "same_units z y" "ring_ready z q" "unit_of q z \<noteq> unit_of r z \<or> \<not> ok r"
  shows "ring_ready y q"
proof -
  from assms(3) obtain u where u: "unit_of q z = Done u" "is_mapped z u"
    "unat (prod_tail (priority_rings z u)) < length (ring_entries (priority_rings z u))" by (auto simp: ring_ready_def)
  then have "priority_rings y u = priority_rings z u" using assms(1,4) by (auto simp: served_def)
  then show ?thesis using u assms(2) same_units_facts(1)[OF assms(2)] by (auto simp: ring_ready_def same_units_def)
qed

lemma notify_all_serves:
  assumes "distinct rs" "\<forall>r\<in>set rs. r < 64 \<and> (live alloced running z r \<longrightarrow> ring_ready z r)"
    "unat flag < length (message_slots z unit)"
    "inj_on (\<lambda>r. unit_of r z) {r \<in> set rs. live alloced running z r}"
  shows "\<exists>z'. notify_all alloced running vmid unit flag rs z = Done z'
    \<and> served (live alloced running z) vmid unit flag rs z z' \<and> same_units z z'"
  using assms
proof (induction rs arbitrary: z)
  case Nil
  show ?case by (auto simp: served_def same_units_def)
next
  case (Cons r rs)
  let ?ok = "live alloced running z"
  from Cons.prems notify_one_serves[of r alloced running z flag unit vmid] obtain y where y:
    "notify_one alloced running vmid unit flag r z = Done y" "served ?ok vmid unit flag [r] z y" "same_units z y" by auto
  note eq = same_units_facts[OF y(3)]
  have other: "unit_of q z \<noteq> unit_of r z \<or> \<not> ?ok r" if "q \<in> set rs" "?ok q" for q
    using Cons.prems(1,4) that by (auto dest: inj_onD)
  have "\<forall>q\<in>set rs. q < 64 \<and> (live alloced running y q \<longrightarrow> ring_ready y q)"
    using Cons.prems(2) other ring_ready_other[OF y(2,3)] by (auto simp: eq)
  moreover have "unat flag < length (message_slots y unit)" using Cons.prems(3) y(2) by (auto simp: served_def)
  moreover have "inj_on (\<lambda>r. unit_of r y) {r \<in> set rs. live alloced running y r}"
    using Cons.prems(4) by (auto simp: eq inj_on_def)
  ultimately obtain x where x: "notify_all alloced running vmid unit flag rs y = Done x" "served ?ok vmid unit flag rs y x" "same_units y x"
    using Cons.IH[of y] Cons.prems(1) by (auto simp: eq)
  have "served ?ok vmid unit flag (r # rs) z x" using served_trans[OF y(2) x(2) y(3) Cons.prems(3)] other by blast
  then show ?case using y x by (auto simp: same_units_def)
qed

section \<open>Delivery\<close>

lemma receivers_of_served:
  assumes "\<And>i. bit w' i \<longleftrightarrow> bit w i \<and> \<not> (i \<in> set (receivers_of w) \<and> \<not> ok i)"
  shows "receivers_of w' = filter ok (receivers_of w)"
  using assms by (auto simp: receivers_of_def intro!: filter_cong)

text \<open>
  C22: A message reaches every VM it is meant for. When a VM with a mapped unit notifies the hypervisor of a message
  slot, every receiver in the mask of the message that exists and runs finds the sender and the slot at the tail of
  its ring and gets an interrupt, in the order of the identifiers; no other ring changes. The receivers that do not
  exist or do not run are taken out of the mask, and the other ones stay in it. The receivers are supposed to have
  mapped units of their own, with a tail inside the ring.
\<close>

theorem notification_delivered:
  fixes flag :: u64
  assumes "unit_of (unat vmid) z = Done unit" "is_mapped z unit"
    "flag < ZSHM_SEND_SLOT_LIMIT" "unat flag < length (message_slots z unit)"
    "\<forall>r\<in>set (receivers_of (receivers (message_slots z unit ! unat flag))). live alloced running z r \<longrightarrow> ring_ready z r"
    "inj_on (\<lambda>r. unit_of r z) {r \<in> set (receivers_of (receivers (message_slots z unit ! unat flag))). live alloced running z r}"
  shows "\<exists>z'. zshm_func_notify alloced running uptime vmid flag z = Done (0, z')
    \<and> zshm_virqs z' = zshm_virqs z @ filter (live alloced running z) (receivers_of (receivers (message_slots z unit ! unat flag)))
    \<and> (\<forall>u. priority_rings z' u =
         (if \<exists>r\<in>set (receivers_of (receivers (message_slots z unit ! unat flag))). live alloced running z r \<and> unit_of r z = Done u
          then noted vmid flag (priority_rings z u) else priority_rings z u))
    \<and> receivers_of (receivers (message_slots z' unit ! unat flag)) =
        filter (live alloced running z) (receivers_of (receivers (message_slots z unit ! unat flag)))"
proof -
  define rcvs where "rcvs = receivers_of (receivers (message_slots z unit ! unat flag))"
  have "distinct rcvs" "\<forall>r\<in>set rcvs. r < 64 \<and> (live alloced running z r \<longrightarrow> ring_ready z r)"
    using assms(5) by (auto simp: rcvs_def receivers_of_def)
  from notify_all_serves[OF this assms(4)] assms(6) obtain z' where z':
    "notify_all alloced running vmid unit flag rcvs z = Done z'" "served (live alloced running z) vmid unit flag rcvs z z'"
    by (auto simp: rcvs_def)
  have flag: "\<not> ZSHM_SEND_SLOT_LIMIT - 1 < flag" "flag \<noteq> ZSHM_SYSCALL_SLOT" "flag \<noteq> HEARTBEAT_FLAG"
    using assms(3) by (auto simp: ZSHM_SEND_SLOT_LIMIT_def ZSHM_SYSCALL_SLOT_def HEARTBEAT_FLAG_def word_less_nat_alt)
  have "zshm_func_notify alloced running uptime vmid flag z = Done (0, z')"
    using assms(1,2) flag z'(1) by (auto simp: zshm_func_notify_def unit_of_def rcvs_def receivers_of_def split: if_splits)
  moreover have "receivers_of (receivers (message_slots z' unit ! unat flag)) = filter (live alloced running z) rcvs"
    unfolding rcvs_def using z'(2) assms(4) by (intro receivers_of_served) (auto simp: served_def rcvs_def)
  ultimately show ?thesis using z'(2) unfolding served_def rcvs_def by blast
qed

text \<open>VM 1 sends slot 4 to the VMs 2, which runs, and 3, which does not.\<close>

definition shm_three :: zshm where
  "shm_three = \<lparr>ZSHM_UNIT_MAX_NUMS = 64, ZSHM_START_PHY_ADDR = 0, ZSHM_SIZE = 0, ZSHM_NOTIFY_SPACE_START_PHY_ADDR = 0,
     ZSHM_NOTIFY_INFO_SPACE_START_PHY_ADDR = 0, zshm_irq = 77, zshm_bitmap = [0xE], zshm_units = [], vmid_to_units_index = [-1, 1, 2, 3],
     message_slots = (\<lambda>_. replicate ZSHM_MESSAGE_SLOT_COUNT (empty_message\<lparr>receivers := 0xC\<rparr>)), priority_rings = (\<lambda>_. empty_ring),
     is_mapped = (\<lambda>u. u = 1 \<or> u = 2), zshm_virqs = [], CONFIG_HEARTBEAT = True, vm_heartbeat = (\<lambda>_. 0)\<rparr>"

lemma shm_three_fields:
  "receivers_of (receivers (message_slots shm_three 1 ! unat (4 :: u64))) = [2, 3]" "length (message_slots shm_three 1) = 16"
  "is_mapped shm_three 1" "zshm_virqs shm_three = []" "priority_rings shm_three = (\<lambda>_. empty_ring)"
  by (simp_all add: shm_three_def ZSHM_MESSAGE_SLOT_COUNT_def receivers_of_def upt_conv_Cons)

theorem notification_delivered_witness:
  "\<exists>z'. zshm_func_notify 6 (\<lambda>r. r = 1 \<or> r = 2) 0 1 4 shm_three = Done (0, z')
    \<and> zshm_virqs z' = [2] \<and> ring_entries (priority_rings z' 2) ! 0 = (1, 4) \<and> prod_tail (priority_rings z' 2) = 1
    \<and> priority_rings z' 1 = empty_ring \<and> receivers_of (receivers (message_slots z' 1 ! 4)) = [2]"
proof -
  define run :: "nat \<Rightarrow> bool" where "run = (\<lambda>r. r = 1 \<or> r = 2)"
  have live: "live 6 run shm_three 2" "\<not> live 6 run shm_three 3" by (simp_all add: live_def shm_three_def run_def bit_numeral_rec)
  have u: "unit_of (unat (1 :: u16)) shm_three = Done 1" "unit_of 2 shm_three = Done 2" by (simp_all add: unit_of_def shm_three_def)
  have ring: "ring_ready shm_three 2" by (simp add: ring_ready_def u, simp add: shm_three_def empty_ring_def RING_SIZE_def)
  have inj: "inj_on (\<lambda>r. unit_of r shm_three) {r \<in> set [2, 3]. live 6 run shm_three r}" using live by (auto simp: inj_on_def)
  have ready: "\<forall>r\<in>set [2, 3]. live 6 run shm_three r \<longrightarrow> ring_ready shm_three r" using live ring by simp
  have slot: "(4 :: u64) < ZSHM_SEND_SLOT_LIMIT" "unat (4 :: u64) < 16" by (simp_all add: ZSHM_SEND_SLOT_LIMIT_def)
  from notification_delivered[of 1 shm_three 1 4 6 run 0, unfolded shm_three_fields, OF u(1) shm_three_fields(3) slot ready inj]
  obtain z' where z': "zshm_func_notify 6 run 0 1 4 shm_three = Done (0, z')" "zshm_virqs z' = [] @ filter (live 6 run shm_three) [2, 3]"
    "\<And>u. priority_rings z' u = (if \<exists>r\<in>set [2, 3]. live 6 run shm_three r \<and> unit_of r shm_three = Done u
      then noted 1 4 empty_ring else empty_ring)"
    "receivers_of (receivers (message_slots z' 1 ! unat (4 :: u64))) = filter (live 6 run shm_three) [2, 3]" by blast
  have "ring_entries (priority_rings z' 2) ! 0 = (1, 4)" "prod_tail (priority_rings z' 2) = 1" "priority_rings z' 1 = empty_ring"
    using live u(2) by (simp_all add: z'(3), simp_all add: noted_def empty_ring_def RING_SIZE_def)
  then show ?thesis using z'(1,2,4) live unfolding run_def by auto
qed

end
