(* ===== verification/Vcpu_Trap.thy ===== *)
theory Vcpu_Trap
  imports Vm_Life Zshm
begin

text \<open>
  What a guest can make the hypervisor do, part one: the register frame of a vCPU, the exception syndrome, the
  emulated timer registers (\<^verbatim>\<open>timer.c\<close>), waiting for interrupts (\<^verbatim>\<open>vm_irq.c\<close>) and the power calls (\<^verbatim>\<open>virt_psci.c\<close>). The
  state puts the components together: the VM and its vCPU threads, its devices, the shared memory, and a register
  frame per vCPU.
\<close>

section \<open>State\<close>

datatype timer_reg = CNTP_TVAL | CNTP_CVAL | CNTP_CTL

text \<open>The general registers x0 to x30 (30 is \<^verbatim>\<open>lr\<close>), the system registers that the handlers use, the last exit type, and \<^verbatim>\<open>struct vcpu_wfi\<close>.\<close>

record vcpu_ctxt =
  xreg :: "nat \<Rightarrow> u64"
  pc :: u64
  MPIDR_EL1 :: u64
  esr_el2 :: u64
  exit_type :: nat
  wfi_state :: bool
  yeild_count :: u16

record virt_timer_context =
  t_cntp_ctl :: u32
  t_cntp_tval :: u32
  t_cntp_cval :: u64
  timer_offset :: u64
  timeouts :: "u64 list"

text \<open>
  \<^verbatim>\<open>timer_hw\<close> are the timer registers of the CPU, and \<^verbatim>\<open>timer_readback\<close> what such a register holds after a write.
  \<^verbatim>\<open>mpid_mask\<close>, \<^verbatim>\<open>HOST_CYC_PER_TICK\<close>, \<^verbatim>\<open>RKLD\<close> (the range of the Rockchip devices, if configured) and
  \<^verbatim>\<open>CONFIG_HAS_ARM_VHE\<close> are the configuration.
\<close>

record machine =
  vm :: z_vm
  devs :: vm_devs
  shm :: zshm
  ctxt :: "nat \<Rightarrow> vcpu_ctxt"
  vcpu_id :: nat
  wzr_reg :: u64
  vm_reboot :: bool
  vtimer :: "nat \<Rightarrow> virt_timer_context"
  timer_hw :: "timer_reg \<Rightarrow> u64"
  timer_readback :: "timer_reg \<Rightarrow> u64 \<Rightarrow> u64"
  timer_count :: u64
  hpfar_el2 :: u64
  far_el2 :: u64
  alloced_ids :: u32
  vm_running :: "nat \<Rightarrow> bool"
  uptime :: int
  mpid_mask :: u64
  HOST_CYC_PER_TICK :: u64
  RKLD :: "(u64 \<times> u64) option"
  CONFIG_HAS_ARM_VHE :: bool

text \<open>A pointer to a register of the frame, to the variable \<^verbatim>\<open>wzr_reg\<close> that stands for the zero register in a data
  abort, null for register 31, and wild if it was never set.\<close>

datatype reg_ptr = Reg nat | Wzr | Null | Wild

definition find_index_reg :: "nat \<Rightarrow> reg_ptr" where
  "find_index_reg index = (if index = 31 then Null else Reg index)"

abbreviation cur :: "machine \<Rightarrow> vcpu_ctxt" where
  "cur m \<equiv> ctxt m (vcpu_id m)"

definition upd_ctxt :: "nat \<Rightarrow> (vcpu_ctxt \<Rightarrow> vcpu_ctxt) \<Rightarrow> machine \<Rightarrow> machine" where
  "upd_ctxt i f m = m\<lparr>ctxt := (ctxt m)(i := f (ctxt m i))\<rparr>"

definition load_reg :: "reg_ptr \<Rightarrow> machine \<Rightarrow> u64 outcome" where
  "load_reg p m = (case p of Reg i \<Rightarrow> Done (xreg (cur m) i) | Wzr \<Rightarrow> Done (wzr_reg m) | _ \<Rightarrow> Fault)"

definition store_reg :: "reg_ptr \<Rightarrow> u64 \<Rightarrow> machine \<Rightarrow> machine outcome" where
  "store_reg p v m = (case p of
     Reg i \<Rightarrow> Done (upd_ctxt (vcpu_id m) (\<lambda>c. c\<lparr>xreg := (xreg c)(i := v)\<rparr>) m)
   | Wzr \<Rightarrow> Done (m\<lparr>wzr_reg := v\<rparr>)
   | _ \<Rightarrow> Fault)"

section \<open>The syndrome\<close>

definition GET_ESR_EC :: "u64 \<Rightarrow> u64" where "GET_ESR_EC esr = drop_bit 26 esr AND 0x3F"
definition GET_ESR_IL :: "u64 \<Rightarrow> u64" where "GET_ESR_IL esr = drop_bit 25 esr AND 1"
definition GET_ESR_ISS :: "u64 \<Rightarrow> u64" where "GET_ESR_ISS esr = esr AND 0x1FFFFFF"
definition GET_ESR_ISS_COND :: "u64 \<Rightarrow> u64" where "GET_ESR_ISS_COND esr = drop_bit 15 esr AND 0xF"

definition insn_size :: "u64 \<Rightarrow> u64" where
  "insn_size esr = (if GET_ESR_IL esr \<noteq> 0 then 4 else 2)"

text \<open>The fields of \<^verbatim>\<open>struct esr_dabt_area\<close> and of \<^verbatim>\<open>struct esr_sysreg_area\<close>.\<close>

definition dabt_dfsc :: "u64 \<Rightarrow> u64" where "dabt_dfsc esr = esr AND 0x3F"
definition dabt_wnr :: "u64 \<Rightarrow> bool" where "dabt_wnr esr = bit esr 6"
definition dabt_srt :: "u64 \<Rightarrow> nat" where "dabt_srt esr = unat (drop_bit 16 esr AND 0x1F)"
definition dabt_sas :: "u64 \<Rightarrow> nat" where "dabt_sas esr = unat (drop_bit 22 esr AND 3)"
definition dabt_isv :: "u64 \<Rightarrow> bool" where "dabt_isv esr = bit esr 24"
definition sysreg_dire :: "u64 \<Rightarrow> bool" where "sysreg_dire esr = bit esr 0"
definition sysreg_rt :: "u64 \<Rightarrow> nat" where "sysreg_rt esr = unat (drop_bit 5 esr AND 0x1F)"

definition ESR_SYSINS_REGS_MASK :: u32 where "ESR_SYSINS_REGS_MASK = 0x3FFC1E"

definition ESR_SYSINS :: "u32 \<Rightarrow> u32 \<Rightarrow> u32 \<Rightarrow> u32 \<Rightarrow> u32 \<Rightarrow> u32" where
  "ESR_SYSINS op0 op1 crn crm op2 =
    push_bit 20 op0 OR push_bit 14 op1 OR push_bit 10 crn OR push_bit 1 crm OR push_bit 17 op2"

definition get_fault_ipa :: "u64 \<Rightarrow> u64 \<Rightarrow> u64" where
  "get_fault_ipa hpfar far = push_bit 12 (drop_bit 4 (hpfar AND 0xFFFFFFFFF0)) OR (far AND 0xFFF)"

section \<open>Emulated timer registers\<close>

definition hw_write :: "timer_reg \<Rightarrow> u64 \<Rightarrow> machine \<Rightarrow> machine" where
  "hw_write r v m = m\<lparr>timer_hw := (timer_hw m)(r := timer_readback m r v)\<rparr>"

definition upd_timer :: "(virt_timer_context \<Rightarrow> virt_timer_context) \<Rightarrow> machine \<Rightarrow> machine" where
  "upd_timer f m = m\<lparr>vtimer := (vtimer m)(vcpu_id m := f (vtimer m (vcpu_id m)))\<rparr>"

abbreviation tctx :: "machine \<Rightarrow> virt_timer_context" where
  "tctx m \<equiv> vtimer m (vcpu_id m)"

text \<open>Starting the software timer; the ticks are recorded.\<close>

definition ptimer_start :: "machine \<Rightarrow> machine" where
  "ptimer_start m = upd_timer (\<lambda>t. t\<lparr>timeouts := timeouts t @ [(t_cntp_cval t + timer_offset t) div HOST_CYC_PER_TICK m]\<rparr>) m"

definition simulate_timer_cntp_tval :: "bool \<Rightarrow> reg_ptr \<Rightarrow> machine \<Rightarrow> machine outcome" where
  "simulate_timer_cntp_tval rd p m =
    (if rd then
       if CONFIG_HAS_ARM_VHE m then store_reg p (timer_hw m CNTP_TVAL) m
       else let cycles = timer_count m - timer_offset (tctx m)
            in store_reg p ((ucast (t_cntp_tval (tctx m)) - cycles - timer_offset (tctx m)) AND 0xffffffff) m
     else bind_outcome (load_reg p m) (\<lambda>v.
       if CONFIG_HAS_ARM_VHE m then Done (hw_write CNTP_TVAL v m)
       else Done (upd_timer (\<lambda>t. t\<lparr>t_cntp_cval := timer_count m + v\<rparr>) m)))"

definition simulate_timer_cntp_cval :: "bool \<Rightarrow> reg_ptr \<Rightarrow> machine \<Rightarrow> machine outcome" where
  "simulate_timer_cntp_cval rd p m =
    (if rd then store_reg p (if CONFIG_HAS_ARM_VHE m then timer_hw m CNTP_CVAL else t_cntp_cval (tctx m)) m
     else bind_outcome (load_reg p m) (\<lambda>v.
       if CONFIG_HAS_ARM_VHE m
       then let m = hw_write CNTP_CVAL v m in Done (upd_timer (\<lambda>t. t\<lparr>t_cntp_cval := timer_hw m CNTP_CVAL\<rparr>) m)
       else let m = upd_timer (\<lambda>t. t\<lparr>t_cntp_cval := v + timer_offset t\<rparr>) m
            in if t_cntp_ctl (tctx m) AND 1 \<noteq> 0
               then Done (ptimer_start (upd_timer (\<lambda>t. t\<lparr>t_cntp_ctl := t_cntp_ctl t AND NOT 4\<rparr>) m))
               else Done m))"

definition simulate_timer_cntp_ctl :: "bool \<Rightarrow> reg_ptr \<Rightarrow> machine \<Rightarrow> machine outcome" where
  "simulate_timer_cntp_ctl rd p m = bind_outcome (load_reg p m) (\<lambda>v.
     if rd then store_reg p (if CONFIG_HAS_ARM_VHE m then timer_hw m CNTP_CTL else ucast (t_cntp_ctl (tctx m))) m
     else if CONFIG_HAS_ARM_VHE m
     then let m = hw_write CNTP_CTL v m in Done (upd_timer (\<lambda>t. t\<lparr>t_cntp_ctl := ucast (timer_hw m CNTP_CTL)\<rparr>) m)
     else let r = (ucast v :: u32) AND NOT 4;
              r = (if r AND 1 \<noteq> 0 then r OR (t_cntp_ctl (tctx m) AND 4) else r);
              m = upd_timer (\<lambda>t. t\<lparr>t_cntp_ctl := r\<rparr>) m
          in Done (if r AND 1 \<noteq> 0 \<and> t_cntp_cval (tctx m) \<noteq> 0 then ptimer_start m else m))"

section \<open>Waiting for interrupts\<close>

definition VWFI_YIELD_THRESHOLD :: u16 where "VWFI_YIELD_THRESHOLD = 100"

text \<open>The loop over all virtual interrupts; each test takes the lock of the interrupt controller.\<close>

fun any_virq :: "(nat \<Rightarrow> u32 \<Rightarrow> vgic \<Rightarrow> (bool \<times> vgic) outcome) \<Rightarrow> u32 \<Rightarrow> nat list \<Rightarrow> vgic \<Rightarrow> (bool \<times> vgic) outcome" where
  "any_virq test cmask [] g = Done (False, g)"
| "any_virq test cmask (irq # irqs) g = bind_outcome (test irq cmask g) (\<lambda>(b, g). if b then Done (True, g) else any_virq test cmask irqs g)"

definition virt_irq_isactive :: "nat \<Rightarrow> vgic \<Rightarrow> (bool \<times> vgic) outcome" where
  "virt_irq_isactive vcpu g = any_virq vgic_is_virq_active_lock (ucast (BIT vcpu)) [0..<VM_GLOBAL_VIRQ_NR g] g"

definition virt_irq_ispending :: "nat \<Rightarrow> vgic \<Rightarrow> (bool \<times> vgic) outcome" where
  "virt_irq_ispending vcpu g = any_virq vgic_is_virq_pending_lock (ucast (BIT vcpu)) [0..<VM_GLOBAL_VIRQ_NR g] g"

definition virt_irq_isenabled :: "nat \<Rightarrow> vgic \<Rightarrow> (bool \<times> vgic) outcome" where
  "virt_irq_isenabled vcpu g = any_virq vgic_is_virq_enabled_lock (ucast (BIT vcpu)) [0..<VM_GLOBAL_VIRQ_NR g] g"

text \<open>The lists of pending and active interrupts of a vCPU are initialised and never filled.\<close>

definition vcpu_irq_exist :: "machine \<Rightarrow> (bool \<times> machine) outcome" where
  "vcpu_irq_exist m = bind_outcome (virt_irq_ispending (vcpu_id m) (gic (devs m))) (\<lambda>(b, g).
     Done (b, m\<lparr>devs := (devs m)\<lparr>gic := g\<rparr>\<rparr>))"

definition vcpu_wait_for_irq :: "machine \<Rightarrow> (int \<times> machine) outcome" where
  "vcpu_wait_for_irq m = bind_outcome (vcpu_irq_exist m) (\<lambda>(irq_exist, m).
     if irq_exist then Done (0, upd_ctxt (vcpu_id m) (\<lambda>c. c\<lparr>yeild_count := 0\<rparr>) m)
     else if yeild_count (cur m) < VWFI_YIELD_THRESHOLD
     then Done (0, upd_ctxt (vcpu_id m) (\<lambda>c. c\<lparr>yeild_count := yeild_count c + 1\<rparr>) m)
     else if wfi_state (cur m) then Done (0, m)
     else bind_outcome (vcpu_irq_exist (upd_ctxt (vcpu_id m) (\<lambda>c. c\<lparr>wfi_state := True\<rparr>) m)) (\<lambda>(irq_exist, m).
       Done (0, if irq_exist then upd_ctxt (vcpu_id m) (\<lambda>c. c\<lparr>yeild_count := 0, wfi_state := False\<rparr>) m else m)))"

definition run_vm :: "(z_vm \<Rightarrow> (int \<times> z_vm) outcome) \<Rightarrow> machine \<Rightarrow> (int \<times> machine) outcome" where
  "run_vm f m = bind_outcome (f (vm m)) (\<lambda>(ret, v). Done (ret, m\<lparr>vm := v\<rparr>))"

definition cpu_wfi_wfe_sync :: "u64 \<Rightarrow> machine \<Rightarrow> (int \<times> machine) outcome" where
  "cpu_wfi_wfe_sync esr m =
    (let iss = GET_ESR_ISS esr; cond = GET_ESR_ISS_COND esr
     in if \<not> bit iss 24 \<or> cond AND 1 \<noteq> 0 \<and> cond \<noteq> 0xf then Done (- ESRCH, m)
        else if iss AND 1 \<noteq> 0
        then if map_option vcpu_state (vm_vcpus (vm m) ! vcpu_id m) = Some VCPU_STATE_RUNNING
             then bind_outcome (run_vm (vm_vcpu_ready (vcpu_id m)) m) (\<lambda>(_, m). Done (0, m))
             else Done (0, m)
        else bind_outcome (vcpu_wait_for_irq m) (\<lambda>(_, m). Done (0, m)))"

section \<open>Power calls\<close>

definition PSCI_0_2_FN :: "u32 \<Rightarrow> u32" where "PSCI_0_2_FN n = 0x84000000 + n"
definition PSCI_0_2_FN64 :: "u32 \<Rightarrow> u32" where "PSCI_0_2_FN64 n = 0xC4000000 + n"
definition PSCI_RET_SUCCESS :: int where "PSCI_RET_SUCCESS = 0"
definition PSCI_RET_NOT_SUPPORTED :: int where "PSCI_RET_NOT_SUPPORTED = -1"
definition PSCI_RET_DENIED :: int where "PSCI_RET_DENIED = -3"
definition PSCI_RET_INTERNAL_FAILURE :: int where "PSCI_RET_INTERNAL_FAILURE = -6"
definition PSCI_0_2_TOS_MP :: int where "PSCI_0_2_TOS_MP = 2"

text \<open>A vCPU that does not exist faults in the search, as the code reads it before it compares.\<close>

fun find_mpidr :: "u64 \<Rightarrow> nat list \<Rightarrow> machine \<Rightarrow> nat option outcome" where
  "find_mpidr cpu_id [] m = Done None"
| "find_mpidr cpu_id (i # is) m =
    (if vm_vcpus (vm m) ! i = None then Fault
     else if cpu_id = (MPIDR_EL1 (ctxt m i) AND mpid_mask m) then Done (Some i) else find_mpidr cpu_id is m)"

definition psci_vcpu_on :: "machine \<Rightarrow> (int \<times> machine) outcome" where
  "psci_vcpu_on m =
    (let cpu_id = xreg (cur m) 1
     in if cpu_id = 0 then Done (- 1, m)
        else bind_outcome (find_mpidr cpu_id [0..<length (vm_vcpus (vm m))] m) (\<lambda>found. case found of
          None \<Rightarrow> Done (PSCI_RET_DENIED, m)
        | Some i \<Rightarrow>
            let target_pc = xreg (cur m) 2;
                m = upd_ctxt i (\<lambda>c. c\<lparr>pc := target_pc, xreg := (xreg c)(1 := cpu_id)\<rparr>) m
            in bind_outcome (run_vm (vm_vcpu_ready i) m) (\<lambda>(_, m). Done (PSCI_RET_SUCCESS, m))))"

text \<open>
  The value is None for an unknown function. Switching off and resetting the system call the commands that do
  nothing.
\<close>

definition psci_value :: "u32 \<Rightarrow> machine \<Rightarrow> (int option \<times> machine) outcome" where
  "psci_value fn m =
    (if fn = PSCI_0_2_FN 0 then Done (Some 2, m)
     else if fn \<in> {PSCI_0_2_FN 1, PSCI_0_2_FN64 1, PSCI_0_2_FN 2} then Done (Some PSCI_RET_SUCCESS, m)
     else if fn \<in> {PSCI_0_2_FN 3, PSCI_0_2_FN64 3} then bind_outcome (psci_vcpu_on m) (\<lambda>(v, m). Done (Some v, m))
     else if fn \<in> {PSCI_0_2_FN 4, PSCI_0_2_FN64 4} then Done (Some PSCI_RET_SUCCESS, m)
     else if fn \<in> {PSCI_0_2_FN 5, PSCI_0_2_FN64 5} then Done (Some (- 1), m)
     else if fn = PSCI_0_2_FN 6 then Done (Some PSCI_0_2_TOS_MP, m)
     else if fn \<in> {PSCI_0_2_FN 7, PSCI_0_2_FN64 7} then Done (Some PSCI_RET_NOT_SUPPORTED, m)
     else if fn = PSCI_0_2_FN 8 then let _ = z_shutdown_guest (vm m) in Done (Some PSCI_RET_INTERNAL_FAILURE, m)
     else if fn = PSCI_0_2_FN 9 then let _ = z_reboot_guest (vm m) in Done (Some PSCI_RET_INTERNAL_FAILURE, m)
     else Done (None, m))"

definition psci_0_2_call :: "machine \<Rightarrow> (int \<times> machine) outcome" where
  "psci_0_2_call m = bind_outcome (psci_value (ucast (xreg (cur m) 0)) m) (\<lambda>(v, m). case v of
     None \<Rightarrow> Done (- 1, m)
   | Some v \<Rightarrow> let val = (of_int v :: u32)
               in if val = of_int PSCI_RET_INTERNAL_FAILURE then Done (0, m)
                  else bind_outcome (store_reg (Reg 0) (ucast val) m) (\<lambda>m. Done (0, m)))"

definition cpu_hvc64_sync :: "u64 \<Rightarrow> machine \<Rightarrow> (int \<times> machine) outcome" where
  "cpu_hvc64_sync esr m = (if esr AND 0xFFFF \<noteq> 0 then Done (0, m) else psci_0_2_call m)"

end
