(* ===== verification/Vcpu_Run.thy ===== *)
theory Vcpu_Run
  imports Vcpu_Trap
begin

text \<open>
  What a guest can make the hypervisor do, part two: accesses to emulated devices (\<^verbatim>\<open>vdev_mmio_abort\<close> of
  \<^verbatim>\<open>vm_device.c\<close> and the device functions behind it), data aborts, trapped system registers, the dispatch on the
  exception class, and one run of a vCPU (\<^verbatim>\<open>switch.c\<close>).
\<close>

section \<open>Emulated devices\<close>

text \<open>
  The functions of the drivers. The system controllers read the registers of the board and ignore writes; a driver
  without the function has a null pointer.
\<close>

definition virt_device_read :: "vdev_instance \<Rightarrow> u64 \<Rightarrow> u64 \<Rightarrow> nat \<Rightarrow> vm_devs \<Rightarrow> (int \<times> u64 \<times> vm_devs) outcome" where
  "virt_device_read inst addr old vcpu st = (case inst of
     Vm_vgic \<Rightarrow> bind_outcome (vgic_vdev_mem_read vcpu addr (gic st)) (\<lambda>((ret, v), g). Done (ret, v, st\<lparr>gic := g\<rparr>))
   | Vm_serial \<Rightarrow> bind_outcome (vserial_vdev_mem_read addr (serial st)) (\<lambda>(ret, v, p). Done (ret, v, st\<lparr>serial := p\<rparr>))
   | Vm_syscon \<Rightarrow> Done (0, (old AND NOT 0xFFFFFFFF) OR ucast (host_regs st addr), st)
   | Vm_clock_syscon \<Rightarrow> Done (0, (old AND NOT 0xFFFFFFFF) OR ucast (host_regs st addr), st)
   | Linux_dev \<Rightarrow> Done (0, old, st)
   | _ \<Rightarrow> Fault)"

definition virt_device_write :: "vdev_instance \<Rightarrow> u64 \<Rightarrow> u64 \<Rightarrow> nat \<Rightarrow> vm_devs \<Rightarrow> (int \<times> vm_devs) outcome" where
  "virt_device_write inst addr v vcpu st = (case inst of
     Vm_vgic \<Rightarrow> bind_outcome (vgic_vdev_mem_write vcpu addr v (gic st)) (\<lambda>(ret, g). Done (ret, st\<lparr>gic := g\<rparr>))
   | Vm_serial \<Rightarrow> bind_outcome (vserial_vdev_mem_write addr v (serial st)) (\<lambda>(ret, p). Done (ret, st\<lparr>serial := p\<rparr>))
   | Vm_syscon \<Rightarrow> Done (0, st)
   | Vm_clock_syscon \<Rightarrow> Done (0, st)
   | Linux_dev \<Rightarrow> Done (0, st)
   | _ \<Rightarrow> Fault)"

definition in_paddr :: "u64 \<Rightarrow> z_virt_dev \<Rightarrow> bool" where
  "in_paddr addr d \<longleftrightarrow> ucast (vm_vdev_paddr d) \<le> addr \<and> addr < ucast (vm_vdev_paddr d + vm_vdev_size d)"

datatype mmio_target = Access vdev_instance | Notify "vdev_instance option"

fun find_vdev :: "u64 \<Rightarrow> z_virt_dev list \<Rightarrow> vm_devs \<Rightarrow> mmio_target option" where
  "find_vdev addr [] st = None"
| "find_vdev addr (d # ds) st =
    (if shareable d then find_vdev addr ds st
     else if priv_data d \<noteq> None \<and> \<not> (CONFIG_ZSHM st \<and> zshm d)
     then if vdevice_type st (the (priv_data d)) AND VM_DEVICE_PRE_KERNEL_1 \<noteq> 0 \<and> in_paddr addr d
          then Some (Access (the (priv_data d))) else find_vdev addr ds st
     else if CONFIG_ZSHM st \<and> zshm d \<and> touches addr d then Some (Notify (priv_data d))
     else find_vdev addr ds st)"

definition vdev_mmio_abort :: "bool \<Rightarrow> u64 \<Rightarrow> reg_ptr \<Rightarrow> machine \<Rightarrow> (int \<times> machine) outcome" where
  "vdev_mmio_abort wr addr value m = (case find_vdev addr (vdev_list (devs m)) (devs m) of
     None \<Rightarrow> Done (- ENODEV, m)
   | Some (Access inst) \<Rightarrow> bind_outcome (load_reg value m) (\<lambda>v.
       if wr then bind_outcome (virt_device_write inst addr v (vcpu_id m) (devs m)) (\<lambda>(ret, st). Done (ret, m\<lparr>devs := st\<rparr>))
       else bind_outcome (virt_device_read inst addr v (vcpu_id m) (devs m)) (\<lambda>(ret, v, st).
              bind_outcome (store_reg value v (m\<lparr>devs := st\<rparr>)) (\<lambda>m. Done (ret, m))))
   | Some (Notify inst) \<Rightarrow>
       if \<not> wr then Done (- 1, m)
       else if inst \<noteq> Some Zshm_dev then Fault
       else bind_outcome (load_reg value m) (\<lambda>flag.
         bind_outcome (zshm_func_notify (alloced_ids m) (vm_running m) (uptime m) (vm_id (devs m)) flag (shm m))
           (\<lambda>(ret, z). Done (ret, m\<lparr>shm := z\<rparr>))))"

section \<open>Aborts\<close>

text \<open>\<^verbatim>\<open>malloc\<close> and \<^verbatim>\<open>init_fn\<close> are the arguments of \<^verbatim>\<open>handle_vm_device_emulate\<close>.\<close>

definition handle_ftrans_desc :: "malloc_dev \<Rightarrow> driver_init \<Rightarrow> u64 \<Rightarrow> u64 \<Rightarrow> machine \<Rightarrow> (int \<times> machine) outcome" where
  "handle_ftrans_desc malloc init_fn esr pa m =
    bind_outcome (handle_vm_device_emulate malloc init_fn pa (devs m)) (\<lambda>(ret, st).
      let m = m\<lparr>devs := st\<rparr>
      in if ret \<noteq> 0
         then if 0 < ret then Done (0, m)
              else bind_outcome (store_reg (find_index_reg (dabt_srt esr)) 0xfefefefefefefefe m) (\<lambda>m. Done (ret, m))
         else bind_outcome (vm_mem_domain_partitions_add (vmem (devs m))) (\<lambda>(ret, vd).
                Done (ret, upd_ctxt (vcpu_id m) (\<lambda>c. c\<lparr>pc := pc c - insn_size esr\<rparr>) (m\<lparr>devs := (devs m)\<lparr>vmem := vd\<rparr>\<rparr>))))"

definition handle_faccess_desc :: "u64 \<Rightarrow> u64 \<Rightarrow> machine \<Rightarrow> (int \<times> machine) outcome" where
  "handle_faccess_desc esr pa m =
    (if \<not> dabt_isv esr
     then case RKLD m of
            Some (start, sz) \<Rightarrow> Done (if start \<le> pa \<and> pa < start + sz then 0 else - EFAULT, m)
          | None \<Rightarrow> Done (- EFAULT, m)
     else let p = (case find_index_reg (dabt_srt esr) of Null \<Rightarrow> Wzr | p \<Rightarrow> p)
          in bind_outcome (vdev_mmio_abort (dabt_wnr esr) pa p m) (\<lambda>(ret, m). Done (if ret < 0 then - ENODEV else ret, m)))"

definition cpu_data_abort_low_sync :: "malloc_dev \<Rightarrow> driver_init \<Rightarrow> u64 \<Rightarrow> machine \<Rightarrow> (int \<times> machine) outcome" where
  "cpu_data_abort_low_sync malloc init_fn esr m =
    (let dfsc = dabt_dfsc esr AND NOT 3; ipa = get_fault_ipa (hpfar_el2 m) (far_el2 m)
     in if dfsc = 4 then handle_ftrans_desc malloc init_fn esr ipa m
        else if dfsc = 8 then handle_faccess_desc esr ipa m
        else Done (- ENODEV, m))"

section \<open>System registers\<close>

text \<open>For a read the pointer to the register is never set.\<close>

definition cpu_system_msr_mrs_sync :: "u64 \<Rightarrow> machine \<Rightarrow> (int \<times> machine) outcome" where
  "cpu_system_msr_mrs_sync esr m =
    (let rd = sysreg_dire esr;
         p = (if rd then Wild else find_index_reg (sysreg_rt esr));
         reg_name = ucast esr AND ESR_SYSINS_REGS_MASK;
         ok = (\<lambda>m. Done (0, m))
     in if reg_name \<in> {ESR_SYSINS 3 2 12 11 7, ESR_SYSINS 3 0 12 11 5, ESR_SYSINS 3 1 12 11 6}
        then if rd then Done (0, m)
             else bind_outcome (load_reg p m) (\<lambda>v. bind_outcome (vgicv3_raise_sgi2vcpu (vcpu_id m) v (gic (devs m)))
                    (\<lambda>(_, g). Done (0, m\<lparr>devs := (devs m)\<lparr>gic := g\<rparr>\<rparr>)))
        else if reg_name \<in> {ESR_SYSINS 3 3 14 0 0, ESR_SYSINS 3 3 14 2 0} then bind_outcome (simulate_timer_cntp_tval rd p m) ok
        else if reg_name = ESR_SYSINS 3 3 14 2 1 then bind_outcome (simulate_timer_cntp_ctl rd p m) ok
        else if reg_name = ESR_SYSINS 3 3 14 2 2 then bind_outcome (simulate_timer_cntp_cval rd p m) ok
        else Done (- ENODEV, m))"

section \<open>Dispatch\<close>

text \<open>The handlers of the exception classes 0x00, 0x03, 0x04, 0x07, 0x0e, 0x20, 0x21, 0x22, 0x25 and 0x26 return 0 at once.\<close>

definition sync_handler :: "malloc_dev \<Rightarrow> driver_init \<Rightarrow> u64 \<Rightarrow> machine \<Rightarrow> (int \<times> machine) outcome option" where
  "sync_handler malloc init_fn esr m =
    (let ec = GET_ESR_EC esr
     in if ec \<in> {0x00, 0x03, 0x04, 0x07, 0x0e, 0x20, 0x21, 0x22, 0x25, 0x26} then Some (Done (0, m))
        else if ec = 0x01 then Some (cpu_wfi_wfe_sync esr m)
        else if ec = 0x16 then Some (cpu_hvc64_sync esr m)
        else if ec = 0x18 then Some (cpu_system_msr_mrs_sync esr m)
        else if ec = 0x24 then Some (cpu_data_abort_low_sync malloc init_fn esr m)
        else None)"

definition arch_vm_trap_sync :: "malloc_dev \<Rightarrow> driver_init \<Rightarrow> machine \<Rightarrow> (int \<times> machine) outcome" where
  "arch_vm_trap_sync malloc init_fn m =
    (let esr = esr_el2 (cur m)
     in case sync_handler malloc init_fn esr m of
          None \<Rightarrow> Done (- ENODEV, m)
        | Some h \<Rightarrow> bind_outcome h (\<lambda>(err, m).
            Done (err, if GET_ESR_EC esr \<noteq> 0x16 then upd_ctxt (vcpu_id m) (\<lambda>c. c\<lparr>pc := pc c + insn_size esr\<rparr>) m else m)))"

section \<open>One run\<close>

text \<open>
  \<^verbatim>\<open>sysreg_load\<close> loads the system registers of the CPU after a reboot. \<^verbatim>\<open>guest\<close> is the guest itself with the switch of
  the system registers around it: it yields the exit type and the state at the exit. For a system error the result
  is a variable that was never set, \<^verbatim>\<open>junk\<close>. The end of a time slice, which an interrupt exit checks, is left to the
  scheduler of the host.
\<close>

definition virq_pass :: "(nat \<Rightarrow> vgic \<Rightarrow> (int \<times> vgic) outcome) \<Rightarrow> machine \<Rightarrow> machine outcome" where
  "virq_pass f m =
    (if map_option deleting (vm_vcpus (vm m) ! vcpu_id m) = Some True
     then bind_outcome (f (vcpu_id m) (gic (devs m))) (\<lambda>(_, g). Done (m\<lparr>devs := (devs m)\<lparr>gic := g\<rparr>\<rparr>))
     else Done m)"

definition arch_vcpu_run :: "malloc_dev \<Rightarrow> driver_init \<Rightarrow> (machine \<Rightarrow> machine) \<Rightarrow> (machine \<Rightarrow> nat \<times> machine) \<Rightarrow> int \<Rightarrow> machine \<Rightarrow> (int \<times> machine) outcome" where
  "arch_vcpu_run malloc init_fn sysreg_load guest junk m =
    bind_outcome (virq_pass cpu_virq_flush_lock (if vm_reboot m then (sysreg_load m)\<lparr>vm_reboot := False\<rparr> else m)) (\<lambda>m.
    case guest m of (exit, m) \<Rightarrow>
    bind_outcome (virq_pass cpu_virq_sync_lock (upd_ctxt (vcpu_id m) (\<lambda>c. c\<lparr>exit_type := exit\<rparr>) m)) (\<lambda>m.
      if exit = 1 then arch_vm_trap_sync malloc init_fn m
      else if exit = 4
      then bind_outcome (arch_vm_trap_sync malloc init_fn m) (\<lambda>(ret, m). Done (if ret < 0 then ret else 0, m))
      else if exit = 2 then Done (0, m)
      else if exit = 3 then Done (junk, m)
      else Done (- ESRCH, m)))"

end
