(* ===== verification/Vcpu_Run_Props.thy ===== *)
theory Vcpu_Run_Props
  imports Vcpu_Run Vm_Commands Vserial_Props Vgic_Bits Vm_Mem_Props
begin

text \<open>
  End-to-end properties of traps: a guest that reads its console, a guest that powers on a vCPU, and the accesses
  of a guest that the hypervisor does not survive.
\<close>

lemma upd_ctxt_simps [simp]:
  "ctxt (upd_ctxt i f m) = (ctxt m)(i := f (ctxt m i))" "vm (upd_ctxt i f m) = vm m" "devs (upd_ctxt i f m) = devs m"
  "shm (upd_ctxt i f m) = shm m" "vcpu_id (upd_ctxt i f m) = vcpu_id m" "wzr_reg (upd_ctxt i f m) = wzr_reg m"
  "mpid_mask (upd_ctxt i f m) = mpid_mask m"
  by (simp_all add: upd_ctxt_def)

text \<open>A load that the hardware reports as an access fault with a valid syndrome.\<close>

definition mmio_load :: "u64 \<Rightarrow> nat \<Rightarrow> bool" where
  "mmio_load esr rt \<longleftrightarrow> GET_ESR_EC esr = 0x24 \<and> dabt_dfsc esr AND NOT 3 = 8 \<and> dabt_isv esr \<and> \<not> dabt_wnr esr \<and> dabt_srt esr = rt"

lemma mmio_load_trap:
  assumes "mmio_load (esr_el2 (cur m)) rt"
  shows "arch_vm_trap_sync malloc init_fn m =
    bind_outcome (vdev_mmio_abort False (get_fault_ipa (hpfar_el2 m) (far_el2 m)) (if rt = 31 then Wzr else Reg rt) m)
      (\<lambda>(ret, m'). Done (if ret < 0 then - ENODEV else ret,
         upd_ctxt (vcpu_id m') (\<lambda>c. c\<lparr>pc := pc c + insn_size (esr_el2 (cur m))\<rparr>) m'))"
proof -
  have h: "sync_handler malloc init_fn (esr_el2 (cur m)) m =
      Some (bind_outcome (vdev_mmio_abort False (get_fault_ipa (hpfar_el2 m) (far_el2 m)) (if rt = 31 then Wzr else Reg rt) m)
        (\<lambda>(ret, m). Done (if ret < 0 then - ENODEV else ret, m)))"
    using assms by (simp add: mmio_load_def sync_handler_def cpu_data_abort_low_sync_def handle_faccess_desc_def find_index_reg_def Let_def)
  have ec: "GET_ESR_EC (esr_el2 (cur m)) \<noteq> 0x16" using assms by (simp add: mmio_load_def)
  show ?thesis unfolding arch_vm_trap_sync_def Let_def h option.case using ec
    by (cases "vdev_mmio_abort False (get_fault_ipa (hpfar_el2 m) (far_el2 m)) (if rt = 31 then Wzr else Reg rt) m")
      (auto split: prod.split)
qed

text \<open>
  C20: a guest that loads from the data register of its console gets the oldest byte that waits, in the register
  that the instruction names and no other, and goes on behind the instruction. The byte is taken out of the
  buffer; the VM, the shared memory and the other vCPUs are as before.
\<close>

theorem guest_reads_console:
  assumes esr: "mmio_load (esr_el2 (cur m)) rt" "rt < 31"
    and addr: "get_fault_ipa (hpfar_el2 m) (far_el2 m) = ucast (vserial_base (serial (devs m)))"
      "find_vdev (ucast (vserial_base (serial (devs m)))) (vdev_list (devs m)) (devs m) = Some (Access Vm_serial)"
    and serial: "serial_ok (serial (devs m))" "waiting (serial (devs m)) = x # xs"
  shows "\<exists>m'. arch_vm_trap_sync malloc init_fn m = Done (0, m') \<and> waiting (serial (devs m')) = xs \<and> serial_ok (serial (devs m'))
    \<and> cur m' = (cur m)\<lparr>xreg := (xreg (cur m))(rt := ucast x), pc := pc (cur m) + insn_size (esr_el2 (cur m))\<rparr>
    \<and> (\<forall>i. i \<noteq> vcpu_id m \<longrightarrow> ctxt m' i = ctxt m i) \<and> vm m' = vm m \<and> shm m' = shm m"
proof -
  obtain p where p: "receive (serial (devs m)) = (Some x, p)" "serial_ok p" "waiting p = xs"
    using receive_oldest[OF serial] by blast
  obtain v where v: "vserial_vdev_mem_read (ucast (vserial_base (serial (devs m)))) (serial (devs m)) = Done (0, v, p)" "v = ucast x"
    using read_console[OF serial p(1)] by blast
  have "vdev_mmio_abort False (get_fault_ipa (hpfar_el2 m) (far_el2 m)) (Reg rt) m =
      Done (0, upd_ctxt (vcpu_id m) (\<lambda>c. c\<lparr>xreg := (xreg c)(rt := ucast x)\<rparr>) (m\<lparr>devs := (devs m)\<lparr>serial := p\<rparr>\<rparr>))"
    using v by (simp add: vdev_mmio_abort_def addr load_reg_def store_reg_def virt_device_read_def)
  then show ?thesis using esr(2) p(2,3) unfolding mmio_load_trap[OF esr(1)] by (simp add: fun_upd_apply upd_ctxt_def)
qed

text \<open>A VM with a console in which one byte waits, at a load of its data register into x3.\<close>

definition console_dev :: z_virt_dev where
  "console_dev = \<lparr>dev_ptr = 1, dev_name = ''vpl011'', dev_pt_flag = False, shareable = False, zshm = False, dev_hirq = 33, dev_virq = 33,
     vm_vdev_paddr = 0x9000000, vm_vdev_vaddr = 0x9000000, vm_vdev_size = 0x1000, dev_vm = Some 1, priv_data = Some Vm_serial\<rparr>"

definition devs_one :: vm_devs where
  "devs_one = \<lparr>vm_id = 1, vdev_list = [console_dev], vmem = mem_new s2_four, gic = vgic_two, serial = snd (pl011_virt_serial_send [7] serial_new),
     pt_irq_bitmap = (\<lambda>_. False), dev_idle_list = [], dev_used_list = [], chosen_flag = False, device_data = (\<lambda>_. None),
     device_ready = (\<lambda>_. False), vdevice_type = (\<lambda>_. 1), host_regs = (\<lambda>_. 0), zshm_id = 0, CONFIG_ZSHM = False\<rparr>"

definition shm_none :: zshm where
  "shm_none = \<lparr>ZSHM_UNIT_MAX_NUMS = 0, ZSHM_START_PHY_ADDR = 0, ZSHM_SIZE = 0, ZSHM_NOTIFY_SPACE_START_PHY_ADDR = 0,
     ZSHM_NOTIFY_INFO_SPACE_START_PHY_ADDR = 0, zshm_irq = 0, zshm_bitmap = [], zshm_units = [], vmid_to_units_index = [],
     message_slots = (\<lambda>_. []), priority_rings = (\<lambda>_. empty_ring), is_mapped = (\<lambda>_. False), zshm_virqs = [],
     CONFIG_HEARTBEAT = False, vm_heartbeat = (\<lambda>_. 0)\<rparr>"

definition ctxt_at :: "u64 \<Rightarrow> u64 \<Rightarrow> vcpu_ctxt" where
  "ctxt_at mpidr esr = \<lparr>xreg = (\<lambda>_. 0), pc = 0x40000000, MPIDR_EL1 = mpidr, esr_el2 = esr, exit_type = 0, wfi_state = False, yeild_count = 0\<rparr>"

definition machine_at :: "u64 \<Rightarrow> machine" where
  "machine_at esr = \<lparr>vm = vm_started, devs = devs_one, shm = shm_none, ctxt = (\<lambda>i. ctxt_at (of_nat i) esr), vcpu_id = 0, wzr_reg = 0, vm_reboot = False,
     vtimer = (\<lambda>_. \<lparr>t_cntp_ctl = 0, t_cntp_tval = 0, t_cntp_cval = 0, timer_offset = 0, timeouts = []\<rparr>), timer_hw = (\<lambda>_. 0),
     timer_readback = (\<lambda>_ v. v), timer_count = 0, hpfar_el2 = 0x90000, far_el2 = 0, alloced_ids = 2, vm_running = (\<lambda>_. True),
     uptime = 0, mpid_mask = 0xF, HOST_CYC_PER_TICK = 1, RKLD = None, CONFIG_HAS_ARM_VHE = True\<rparr>"

lemma serial_sent: "serial_ok (serial devs_one)" "waiting (serial devs_one) = [7]" "vserial_base (serial devs_one) = 0x9000000"
proof -
  have "fits [7] serial_new" by (simp add: fits_def serial_new_ok serial_new_buffer SEND_BUFFER_SIZE_def)
  from send_ok[OF serial_new_ok(1) this] show "serial_ok (serial devs_one)" "waiting (serial devs_one) = [7]"
    by (simp_all add: devs_one_def serial_new_ok)
  show "vserial_base (serial devs_one) = 0x9000000"
    by (simp add: devs_one_def pl011_virt_serial_send_def serial_new_buffer SEND_BUFFER_SIZE_def Let_def serial_new_base)
qed

theorem guest_reads_console_witness:
  "\<exists>m'. arch_vm_trap_sync (None, False, False) (\<lambda>_ _ st. (0, st)) (machine_at 0x93830008) = Done (0, m')
    \<and> xreg (cur m') 3 = 7 \<and> pc (cur m') = 0x40000004"
proof -
  define m where "m = machine_at 0x93830008"
  have esr: "mmio_load (esr_el2 (cur m)) 3"
    by (simp add: m_def machine_at_def ctxt_at_def mmio_load_def GET_ESR_EC_def dabt_dfsc_def dabt_isv_def dabt_wnr_def dabt_srt_def)
  have ipa: "get_fault_ipa (hpfar_el2 m) (far_el2 m) = ucast (vserial_base (serial (devs m)))"
    by (simp add: m_def machine_at_def get_fault_ipa_def serial_sent)
  have dev: "find_vdev (ucast (vserial_base (serial (devs m)))) (vdev_list (devs m)) (devs m) = Some (Access Vm_serial)"
    by (simp add: m_def machine_at_def serial_sent, simp add: devs_one_def console_dev_def in_paddr_def VM_DEVICE_PRE_KERNEL_1_def)
  have ser: "serial_ok (serial (devs m))" "waiting (serial (devs m)) = 7 # []" by (simp_all add: m_def machine_at_def serial_sent)
  show ?thesis using guest_reads_console[OF esr _ ipa dev ser, of "(None, False, False)" "\<lambda>_ _ st. (0, st)"]
    unfolding m_def[symmetric] by (auto simp: m_def machine_at_def ctxt_at_def insn_size_def GET_ESR_IL_def)
qed

section \<open>Powering on a vCPU\<close>

lemma find_mpidr_first:
  "\<forall>i\<in>set is. vm_vcpus (vm m) ! i \<noteq> None \<Longrightarrow>
    find_mpidr cpu is m = Done (List.find (\<lambda>i. cpu = (MPIDR_EL1 (ctxt m i) AND mpid_mask m)) is)"
  by (induction "is") auto

definition cpu_on_call :: "machine \<Rightarrow> bool" where
  "cpu_on_call m \<longleftrightarrow> GET_ESR_EC (esr_el2 (cur m)) = 0x16 \<and> esr_el2 (cur m) AND 0xFFFF = 0
     \<and> ucast (xreg (cur m) 0) \<in> {PSCI_0_2_FN 3, PSCI_0_2_FN64 3} \<and> xreg (cur m) 1 \<noteq> 0"

lemma cpu_on_trap:
  assumes "cpu_on_call m"
  shows "arch_vm_trap_sync malloc init_fn m = bind_outcome (psci_vcpu_on m) (\<lambda>(v, m).
    let val = (of_int v :: u32) in if val = of_int PSCI_RET_INTERNAL_FAILURE then Done (0, m)
      else bind_outcome (store_reg (Reg 0) (ucast val) m) (\<lambda>m. Done (0, m)))"
proof -
  have "psci_value (ucast (xreg (cur m) 0)) m = bind_outcome (psci_vcpu_on m) (\<lambda>(v, m). Done (Some v, m))"
    using assms by (auto simp: cpu_on_call_def psci_value_def PSCI_0_2_FN_def PSCI_0_2_FN64_def)
  then have call: "psci_0_2_call m = bind_outcome (psci_vcpu_on m) (\<lambda>(v, m).
    let val = (of_int v :: u32) in if val = of_int PSCI_RET_INTERNAL_FAILURE then Done (0, m)
      else bind_outcome (store_reg (Reg 0) (ucast val) m) (\<lambda>m. Done (0, m)))"
    by (cases "psci_vcpu_on m") (auto simp: psci_0_2_call_def)
  have "arch_vm_trap_sync malloc init_fn m = psci_0_2_call m"
    using assms by (cases "psci_0_2_call m") (auto simp: cpu_on_call_def arch_vm_trap_sync_def sync_handler_def cpu_hvc64_sync_def Let_def)
  then show ?thesis unfolding call .
qed


definition calling :: machine where
  "calling = upd_ctxt 0 (\<lambda>c. c\<lparr>xreg := (\<lambda>_. 0)(0 := 0xC4000003, 1 := 1, 2 := 0x80000)\<rparr>) (machine_at 0x5A000000)"


section \<open>Accesses that the hypervisor does not survive\<close>

definition CNTP_REGS :: "u32 set" where
  "CNTP_REGS = {ESR_SYSINS 3 3 14 0 0, ESR_SYSINS 3 3 14 2 0, ESR_SYSINS 3 3 14 2 1, ESR_SYSINS 3 3 14 2 2}"

text \<open>
  A guest brings the hypervisor down by reading one of its physical timer registers, or by writing the zero
  register to one: for a read the handler uses a pointer that was never set, and for register 31 a null pointer.
\<close>

theorem timer_access_faults:
  assumes "GET_ESR_EC (esr_el2 (cur m)) = 0x18" "ucast (esr_el2 (cur m)) AND ESR_SYSINS_REGS_MASK \<in> CNTP_REGS"
    and "sysreg_dire (esr_el2 (cur m)) \<or> sysreg_rt (esr_el2 (cur m)) = 31"
  shows "arch_vm_trap_sync malloc init_fn m = Fault"
proof -
  define p where "p = (if sysreg_dire (esr_el2 (cur m)) then Wild else find_index_reg (sysreg_rt (esr_el2 (cur m))))"
  have p: "load_reg p m = Fault" "store_reg p v m = Fault" for v
    using assms(3) by (auto simp: p_def find_index_reg_def load_reg_def store_reg_def)
  have "cpu_system_msr_mrs_sync (esr_el2 (cur m)) m = Fault"
    using assms(2) p unfolding cpu_system_msr_mrs_sync_def p_def[symmetric] CNTP_REGS_def Let_def
    by (auto simp: simulate_timer_cntp_tval_def simulate_timer_cntp_ctl_def simulate_timer_cntp_cval_def ESR_SYSINS_def)
  then show ?thesis using assms(1) by (simp add: arch_vm_trap_sync_def sync_handler_def Let_def)
qed

theorem timer_access_faults_witness:
  "arch_vm_trap_sync (None, False, False) (\<lambda>_ _ st. (0, st)) (machine_at 0x6232F805) = Fault"
  by (rule timer_access_faults)
    (simp_all add: machine_at_def ctxt_at_def GET_ESR_EC_def sysreg_dire_def ESR_SYSINS_REGS_MASK_def CNTP_REGS_def ESR_SYSINS_def)

text \<open>
  The variable that stands for the zero register keeps what a load has put there: a later store of the zero
  register to a device writes that value.
\<close>

theorem zero_register_keeps_load:
  assumes "mmio_load (esr_el2 (cur m)) 31"
    and "get_fault_ipa (hpfar_el2 m) (far_el2 m) = ucast (vserial_base (serial (devs m)))"
      "find_vdev (ucast (vserial_base (serial (devs m)))) (vdev_list (devs m)) (devs m) = Some (Access Vm_serial)"
    and serial: "serial_ok (serial (devs m))" "waiting (serial (devs m)) = x # xs"
  shows "\<exists>m'. arch_vm_trap_sync malloc init_fn m = Done (0, m') \<and> load_reg Wzr m' = Done (ucast x)"
proof -
  obtain p where p: "receive (serial (devs m)) = (Some x, p)" using receive_oldest[OF serial] by blast
  obtain v where v: "vserial_vdev_mem_read (ucast (vserial_base (serial (devs m)))) (serial (devs m)) = Done (0, v, p)" "v = ucast x"
    using read_console[OF serial p] by blast
  then show ?thesis unfolding mmio_load_trap[OF assms(1)]
    by (simp add: vdev_mmio_abort_def assms(2,3) load_reg_def store_reg_def virt_device_read_def)
qed

end
