(* ===== verification/Os_Config.thy ===== *)
theory Os_Config
  imports Vm_Mem Vcpu_Alloc
begin

text \<open>
  The configuration of a new guest (second part of \<^verbatim>\<open>os.c\<close>): choosing the type of the operating system, its image,
  memory and number of vCPUs. It takes an identifier, a region of the guest memory and a check of the CPUs, and
  gives everything back when one of them fails. The templates and the lists of available configurations come from
  the device tree and are fields of the state.
\<close>

section \<open>State\<close>

definition OS_TYPE_ZEPHYR :: u16 where "OS_TYPE_ZEPHYR = 0"
definition OS_TYPE_FREERTOS :: u16 where "OS_TYPE_FREERTOS = 2"

record z_os_info = os_mem_info +
  os_type :: u16
  os_vcpu_num :: u16
  vm_image_base :: u64
  vm_image_size :: u64
  entry_point :: u64

record z_os =
  os_name :: string
  os_is_rtos :: bool
  os_info :: z_os_info

record cpy_config =
  cpy_vcpu_num :: u16
  max_mem_size :: u32
  cpy_image_base :: u32
  cpy_image_size :: u32

text \<open>\<^verbatim>\<open>z_overall_vm_info\<close> is an array with an entry per identifier.\<close>

record os_state =
  sched :: vcpu_sched
  guest_mem :: GuestMemoryManager
  z_overall_vm_info :: "z_os_info list"
  guest_os_template :: "z_os_info list"
  zephyr_cpies_config :: "cpy_config list"
  linux_dtb_cpies_config :: "cpy_config list"
  freertos_cpies_config :: "cpy_config list"
  linux_image_addr :: u64
  linux_image_size :: u64
  LINUX_DTB_MEM_BASE :: u64
  LINUX_DTB_MEM_SIZE :: u64
  CONFIG_MAX_VCPU_PER_VM :: nat

abbreviation overall :: "os_state \<Rightarrow> zvm_manage_info" where
  "overall s \<equiv> zvm_overall_info (sched s)"

definition set_overall :: "zvm_manage_info \<Rightarrow> os_state \<Rightarrow> os_state" where
  "set_overall z s = s\<lparr>sched := (sched s)\<lparr>zvm_overall_info := z\<rparr>\<rparr>"

definition set_info :: "nat \<Rightarrow> z_os_info \<Rightarrow> os_state \<Rightarrow> os_state" where
  "set_info i e s = s\<lparr>z_overall_vm_info := (z_overall_vm_info s)[i := e]\<rparr>"

section \<open>Operations\<close>

definition get_os_type_from_args :: "string \<Rightarrow> int" where
  "get_os_type_from_args name =
    (if name = ''zephyr'' then uint OS_TYPE_ZEPHYR else if name = ''linux'' then uint OS_TYPE_LINUX
     else if name = ''freertos'' then uint OS_TYPE_FREERTOS else - EINVAL)"

definition guest_config_available :: "u16 \<Rightarrow> u16 \<Rightarrow> u32 \<Rightarrow> os_state \<Rightarrow> cpy_config option" where
  "guest_config_available num type mem s =
    (let fits = (\<lambda>c. num = cpy_vcpu_num c \<and> mem = max_mem_size c)
     in if type = OS_TYPE_ZEPHYR then List.find fits (zephyr_cpies_config s)
        else if type = OS_TYPE_LINUX then List.find fits (linux_dtb_cpies_config s)
        else if type = OS_TYPE_FREERTOS then List.find fits (freertos_cpies_config s)
        else None)"

text \<open>The entry as the template gives it; the load address stays what it was.\<close>

definition from_template :: "z_os_info \<Rightarrow> z_os_info \<Rightarrow> z_os_info" where
  "from_template t e = e\<lparr>os_type := os_type t, os_vcpu_num := os_vcpu_num t, vm_mem_base := vm_mem_base t,
     vm_mem_size := vm_mem_size t, vm_image_base := vm_image_base t, vm_image_size := vm_image_size t,
     entry_point := entry_point t\<rparr>"

definition with_config :: "nat \<Rightarrow> u16 \<Rightarrow> u16 \<Rightarrow> u32 \<Rightarrow> cpy_config \<Rightarrow> os_state \<Rightarrow> z_os_info \<Rightarrow> z_os_info" where
  "with_config i type num mem cfg s e =
    (let e = (if type = OS_TYPE_LINUX then e\<lparr>vm_image_base := linux_image_addr s, vm_image_size := linux_image_size s\<rparr>
              else if type = OS_TYPE_ZEPHYR \<or> type = OS_TYPE_FREERTOS
              then e\<lparr>vm_image_base := ucast (cpy_image_base cfg), vm_image_size := ucast (cpy_image_size cfg)\<rparr>
              else e)
     in e\<lparr>os_vcpu_num := num, vm_mem_size := ucast mem,
          linux_dtb_load_addr := LINUX_DTB_MEM_BASE s + LINUX_DTB_MEM_SIZE s * of_nat i,
          linux_dtb_load_size := LINUX_DTB_MEM_SIZE s\<rparr>)"

text \<open>The exit on failure: the memory at the recorded address is freed, whether or not it was allocated here.\<close>

definition config_fail :: "nat \<Rightarrow> os_state \<Rightarrow> int \<times> os_state" where
  "config_fail i s =
    (let e = z_overall_vm_info s ! i;
         s = s\<lparr>guest_mem := free_guest_memory_part (vm_load_base e) (guest_mem s)\<rparr>;
         s = set_info i (e\<lparr>os_type := 0, os_vcpu_num := 0, vm_mem_base := 0, vm_mem_size := 0, vm_image_base := 0,
               vm_image_size := 0, vm_load_base := 0, entry_point := 0\<rparr>) s
     in (- EINVAL, set_overall (snd (free_vmid (of_nat i) (overall s))) s))"

text \<open>The part behind the allocation of memory.\<close>

definition config_guest :: "nat \<Rightarrow> z_os_info \<Rightarrow> bool \<Rightarrow> u32 \<Rightarrow> os_state \<Rightarrow> int \<times> os_state" where
  "config_guest i guest_os special_cpu mem s =
    (let e = z_overall_vm_info s ! i;
         num = (if special_cpu then os_vcpu_num guest_os else os_vcpu_num e)
     in if special_cpu \<and> CONFIG_MAX_VCPU_PER_VM s < unat num then config_fail i s
        else if \<not> vcpu_margin_check (os_type guest_os) (uint num) (sched s) then config_fail i s
        else case guest_config_available num (os_type guest_os) mem s of
               None \<Rightarrow> config_fail i s
             | Some cfg \<Rightarrow> (int i, set_info i (with_config i (os_type guest_os) num mem cfg s e) s))"

definition get_os_template_type :: "z_os_info \<Rightarrow> bool \<Rightarrow> bool \<Rightarrow> os_state \<Rightarrow> (int \<times> os_state) outcome" where
  "get_os_template_type guest_os special_cpu special_mem s =
    (case allocate_vmid (overall s) of (vmid, z) \<Rightarrow>
      let s = set_overall z s; i = unat vmid
      in if CONFIG_MAX_VM_NUM z \<le> i then Done (- EOVERFLOW, s)
         else if \<not> unat (os_type guest_os) < length (guest_os_template s) then Fault
         else let t = guest_os_template s ! unat (os_type guest_os);
                  e = from_template t (z_overall_vm_info s ! i);
                  mem = ucast (if special_mem then vm_mem_size guest_os else vm_mem_size t) :: u32
              in case allocate_guest_memory_part (os_type e) (ucast mem) (guest_mem s) of (base, mm) \<Rightarrow>
                   let s = set_info i e (s\<lparr>guest_mem := mm\<rparr>)
                   in if base = 0 then Done (config_fail i s)
                      else Done (config_guest i guest_os special_cpu mem (set_info i (e\<lparr>vm_load_base := base\<rparr>) s)))"

text \<open>The operating system of a VM; the name is cleared before the pointer is tested.\<close>

definition vm_os_create :: "bool \<Rightarrow> nat \<Rightarrow> os_state \<Rightarrow> (int \<times> z_os option) outcome" where
  "vm_os_create malloc i s =
    (if \<not> malloc \<or> \<not> i < length (z_overall_vm_info s) then Fault
     else let e = z_overall_vm_info s ! i
          in if os_type e = OS_TYPE_LINUX then Done (0, Some \<lparr>os_name = ''linux_os'', os_is_rtos = False, os_info = e\<rparr>)
             else if os_type e = OS_TYPE_ZEPHYR then Done (0, Some \<lparr>os_name = ''zephyr_os'', os_is_rtos = True, os_info = e\<rparr>)
             else if os_type e = OS_TYPE_FREERTOS then Done (0, Some \<lparr>os_name = ''freertos_os'', os_is_rtos = True, os_info = e\<rparr>)
             else Done (- ENXIO, None))"

end
