(* ===== verification/Os_Config_Props.thy ===== *)
theory Os_Config_Props
  imports Os_Config
begin

text \<open>
  The configuration of a guest takes an identifier and a region of memory, or neither: when the memory was there,
  every later failure gives both back. When the memory was not there, the exit frees the address that an earlier VM
  with the same identifier had, which may belong to another VM by now.
\<close>

section \<open>Invariant\<close>

definition os_inv :: "os_state \<Rightarrow> bool" where
  "os_inv s \<longleftrightarrow> vmid_inv (overall s) \<and> gm_inv (guest_mem s) \<and> 0 < base_addr (guest_mem s)
     \<and> length (z_overall_vm_info s) = CONFIG_MAX_VM_NUM (overall s)"

lemma state_simps [simp]:
  "overall (set_overall z s) = z" "guest_mem (set_overall z s) = guest_mem s" "z_overall_vm_info (set_overall z s) = z_overall_vm_info s"
  "overall (set_info i e s) = overall s" "guest_mem (set_info i e s) = guest_mem s" "sched (set_info i e s) = sched s"
  "z_overall_vm_info (set_info i e s) = (z_overall_vm_info s)[i := e]" "guest_os_template (set_overall z s) = guest_os_template s"
  by (simp_all add: set_overall_def set_info_def)

lemma tiles_size: "tiles a bs e \<Longrightarrow> b \<in> set bs \<Longrightarrow> 0 < part_size b"
  by (induction bs arbitrary: a) auto

lemma live_size:
  assumes "gm_inv mm" "(a, n, os) \<in> live_regions mm"
  shows "0 < n"
  using assms tiles_size by (auto simp: gm_inv_def live_regions_def part_region_def)

text \<open>Regions that are disjoint and not empty start at different addresses.\<close>

lemma disjoint_start:
  assumes "region_disjoint (a, n, x) (b, m, y)" "0 < n" "0 < m"
  shows "a \<noteq> b"
  using assms by (auto simp: word_less_nat_alt)

text \<open>Allocating a region and freeing its address leaves the regions in use as they were.\<close>

lemma allocate_then_free:
  assumes "gm_inv mm" "0 < sz" "allocate_guest_memory_part_check sz mm" "allocate_guest_memory_part os sz mm = (a, mm')"
  shows "live_regions (free_guest_memory_part a mm') = live_regions mm"
proof -
  note al = guest_memory.alloc_ok[OF assms]
  have "b \<noteq> a" if "(b, n, x) \<in> live_regions mm" for b n x
    using disjoint_start[of b n x a sz os] live_size[OF assms(1) that] that al assms(2) by blast
  then have "\<forall>r\<in>live_regions mm. fst r \<noteq> a" by (metis prod.collapse)
  then show ?thesis using guest_memory.release_ok[of mm' a] al by auto
qed

section \<open>The exit on failure\<close>

lemma config_fail_state:
  assumes "os_inv s" "i < CONFIG_MAX_VM_NUM (overall s)"
  shows "fst (config_fail i s) = - EINVAL" "os_inv (snd (config_fail i s))"
    "vm_ids (overall (snd (config_fail i s))) = vm_ids (overall s) - {of_nat i}"
    "live_regions (guest_mem (snd (config_fail i s))) = {r \<in> live_regions (guest_mem s). fst r \<noteq> vm_load_base (z_overall_vm_info s ! i)}"
    "\<forall>j. j \<noteq> i \<longrightarrow> z_overall_vm_info (snd (config_fail i s)) ! j = z_overall_vm_info s ! j"
proof -
  have inv: "vmid_inv (overall s)" "gm_inv (guest_mem s)" using assms by (auto simp: os_inv_def)
  note rel = guest_memory.release_ok[OF inv(2), of "vm_load_base (z_overall_vm_info s ! i)"]
  have "length (vms (snd (free_vmid (of_nat i) (overall s)))) = length (vms (overall s))" by (simp add: free_vmid_def)
  then show "os_inv (snd (config_fail i s))"
    using assms rel vmid_pool.give_back_inv[OF inv(1)] by (auto simp: os_inv_def config_fail_def Let_def word_less_nat_alt)
  show "fst (config_fail i s) = - EINVAL" "vm_ids (overall (snd (config_fail i s))) = vm_ids (overall s) - {of_nat i}"
    "live_regions (guest_mem (snd (config_fail i s))) = {r \<in> live_regions (guest_mem s). fst r \<noteq> vm_load_base (z_overall_vm_info s ! i)}"
    "\<forall>j. j \<noteq> i \<longrightarrow> z_overall_vm_info (snd (config_fail i s)) ! j = z_overall_vm_info s ! j"
    using rel vmid_pool.give_back_ids[OF inv(1)] by (simp_all add: config_fail_def Let_def)
qed

section \<open>Configuration\<close>

text \<open>The size that a request asks for: the one given, or that of the template.\<close>

definition requested :: "z_os_info \<Rightarrow> bool \<Rightarrow> os_state \<Rightarrow> u32" where
  "requested guest_os special_mem s =
    ucast (if special_mem then vm_mem_size guest_os else vm_mem_size (guest_os_template s ! unat (os_type guest_os)))"

lemma allocate_vmid_vms: "allocate_vmid z = (i, z') \<Longrightarrow> vms z' = vms z"
  by (auto simp: allocate_vmid_def find_next_vmid_def Let_def split: if_splits prod.splits bool.splits)

text \<open>The state after the memory was asked for.\<close>

definition entered :: "nat \<Rightarrow> zvm_manage_info \<Rightarrow> GuestMemoryManager \<Rightarrow> z_os_info \<Rightarrow> os_state \<Rightarrow> os_state" where
  "entered i z mm guest_os s =
    set_info i (from_template (guest_os_template s ! unat (os_type guest_os)) (z_overall_vm_info s ! i)) ((set_overall z s)\<lparr>guest_mem := mm\<rparr>)"

lemma get_os_template_type_run:
  assumes "allocate_vmid (overall s) = (vmid, z)" "unat vmid < CONFIG_MAX_VM_NUM z" "unat (os_type g) < length (guest_os_template s)"
    "allocate_guest_memory_part (os_type (guest_os_template s ! unat (os_type g))) (ucast (requested g sm s)) (guest_mem s) = (base, mm)"
  shows "get_os_template_type g sc sm s = Done
    (let s' = entered (unat vmid) z mm g s
     in if base = 0 then config_fail (unat vmid) s'
        else config_guest (unat vmid) g sc (requested g sm s)
          (set_info (unat vmid) ((from_template (guest_os_template s ! unat (os_type g)) (z_overall_vm_info s ! unat vmid))\<lparr>vm_load_base := base\<rparr>) s'))"
  using assms by (simp add: get_os_template_type_def requested_def entered_def Let_def from_template_def set_info_def set_overall_def)

lemma config_guest_cases:
  obtains "config_guest i g sc mem s = config_fail i s"
  | num cfg where "vcpu_margin_check (os_type g) (uint num) (sched s)" "guest_config_available num (os_type g) mem s = Some cfg"
      "config_guest i g sc mem s = (int i, set_info i (with_config i (os_type g) num mem cfg s (z_overall_vm_info s ! i)) s)"
proof -
  define num where "num = (if sc then os_vcpu_num g else os_vcpu_num (z_overall_vm_info s ! i))"
  have run: "config_guest i g sc mem s =
    (if sc \<and> CONFIG_MAX_VCPU_PER_VM s < unat num \<or> \<not> vcpu_margin_check (os_type g) (uint num) (sched s) then config_fail i s
     else case guest_config_available num (os_type g) mem s of None \<Rightarrow> config_fail i s
       | Some cfg \<Rightarrow> (int i, set_info i (with_config i (os_type g) num mem cfg s (z_overall_vm_info s ! i)) s))"
    unfolding config_guest_def Let_def num_def[symmetric] by simp
  show thesis
  proof (cases "guest_config_available num (os_type g) mem s")
    case None
    then show thesis using that(1) run by simp
  next
    case (Some cfg)
    then show thesis using that run by (cases "sc \<and> CONFIG_MAX_VCPU_PER_VM s < unat num \<or> \<not> vcpu_margin_check (os_type g) (uint num) (sched s)") auto
  qed
qed

lemma with_config_keeps [simp]:
  "vm_load_base (with_config i type num mem cfg s e) = vm_load_base e" "os_type (with_config i type num mem cfg s e) = os_type e"
  "vm_mem_size (with_config i type num mem cfg s e) = ucast mem" "os_vcpu_num (with_config i type num mem cfg s e) = num"
  by (auto simp: with_config_def Let_def)

lemma from_template_keeps [simp]: "vm_load_base (from_template t e) = vm_load_base e" "os_type (from_template t e) = os_type t"
  by (simp_all add: from_template_def)

text \<open>The state in which the CPUs are checked.\<close>

lemma config_start:
  assumes "os_inv s" "vm_ids (overall s) \<noteq> vmid_universe (overall s)" "unat (os_type g) < length (guest_os_template s)"
    "0 < requested g sm s" "allocate_guest_memory_part_check (ucast (requested g sm s)) (guest_mem s)"
  defines "i \<equiv> unat (fst (allocate_vmid (overall s)))"
    and "sz \<equiv> ucast (requested g sm s) :: u64" and "ty \<equiv> os_type (guest_os_template s ! unat (os_type g))"
  shows "\<exists>s1. get_os_template_type g sc sm s = Done (config_guest i g sc (requested g sm s) s1)
    \<and> os_inv s1 \<and> i < CONFIG_MAX_VM_NUM (overall s) \<and> of_nat i \<notin> vm_ids (overall s) \<and> CONFIG_MAX_VM_NUM (overall s1) = CONFIG_MAX_VM_NUM (overall s)
    \<and> vm_ids (overall s1) = insert (of_nat i) (vm_ids (overall s))
    \<and> live_regions (guest_mem s1) = insert (vm_load_base (z_overall_vm_info s1 ! i), sz, ty) (live_regions (guest_mem s))
    \<and> (\<forall>r\<in>live_regions (guest_mem s). region_disjoint r (vm_load_base (z_overall_vm_info s1 ! i), sz, ty))
    \<and> (\<forall>r\<in>live_regions (guest_mem s). fst r \<noteq> vm_load_base (z_overall_vm_info s1 ! i))
    \<and> (\<forall>j. j \<noteq> i \<longrightarrow> z_overall_vm_info s1 ! j = z_overall_vm_info s ! j) \<and> os_type (z_overall_vm_info s1 ! i) = ty"
proof -
  obtain vmid z where v: "allocate_vmid (overall s) = (vmid, z)" by force
  obtain base mm where m: "allocate_guest_memory_part ty sz (guest_mem s) = (base, mm)" by force
  have inv: "vmid_inv (overall s)" "gm_inv (guest_mem s)" "0 < base_addr (guest_mem s)"
    "length (z_overall_vm_info s) = CONFIG_MAX_VM_NUM (overall s)" using assms(1) by (auto simp: os_inv_def)
  have sz: "0 < sz" using assms(4) by (simp add: sz_def word_less_nat_alt unat_ucast_32_64)
  note pool = vmid_pool.acquire_some[OF inv(1) assms(2) v]
  note mem = guest_memory.alloc_ok[OF inv(2) sz assms(5)[folded sz_def] m]
  have base: "base \<noteq> 0" using allocate_returns[OF inv(2,3) sz, of ty] assms(5) m by (simp add: sz_def)
  have start: "\<forall>r\<in>live_regions (guest_mem s). fst r \<noteq> base"
    using mem disjoint_start[OF _ _ sz] live_size[OF inv(2)] by (metis prod.collapse)
  have i: "i = unat vmid" "of_nat i = vmid" "i < CONFIG_MAX_VM_NUM z" "vms z = vms (overall s)"
    using v pool allocate_vmid_vms[OF v] by (auto simp: i_def vmid_universe_def)
  let ?e = "(from_template (guest_os_template s ! unat (os_type g)) (z_overall_vm_info s ! i))\<lparr>vm_load_base := base\<rparr>"
  let ?s = "set_info i ?e (entered i z mm g s)"
  have "get_os_template_type g sc sm s = Done (config_guest i g sc (requested g sm s) ?s)"
    using get_os_template_type_run[of s vmid z g sm base mm sc] v i assms(3) m base by (simp add: ty_def sz_def Let_def)
  moreover have "os_inv ?s" using pool mem inv i by (simp add: os_inv_def entered_def word_less_nat_alt)
  ultimately show ?thesis using pool mem start i inv(4) by (intro exI[of _ ?s]) (auto simp: entered_def ty_def)
qed

text \<open>Both outcomes.\<close>

lemma config_outcome:
  assumes "os_inv s" "vm_ids (overall s) \<noteq> vmid_universe (overall s)" "unat (os_type g) < length (guest_os_template s)"
    "0 < requested g sm s" "allocate_guest_memory_part_check (ucast (requested g sm s)) (guest_mem s)"
  shows "\<exists>ret s'. get_os_template_type g sc sm s = Done (ret, s') \<and> os_inv s'
    \<and> (\<forall>j. int j \<noteq> ret \<and> of_nat j \<in> vm_ids (overall s) \<longrightarrow> z_overall_vm_info s' ! j = z_overall_vm_info s ! j)
    \<and> (if 0 \<le> ret
       then of_int ret \<in> vmid_universe (overall s) - vm_ids (overall s)
         \<and> vm_ids (overall s') = insert (of_int ret) (vm_ids (overall s))
         \<and> live_regions (guest_mem s') = insert (vm_load_base (z_overall_vm_info s' ! nat ret), ucast (requested g sm s),
             os_type (guest_os_template s ! unat (os_type g))) (live_regions (guest_mem s))
         \<and> (\<forall>r\<in>live_regions (guest_mem s). region_disjoint r (vm_load_base (z_overall_vm_info s' ! nat ret), ucast (requested g sm s),
             os_type (guest_os_template s ! unat (os_type g))))
         \<and> vcpu_margin_check (os_type g) (uint (os_vcpu_num (z_overall_vm_info s' ! nat ret))) (sched s')
       else ret = - EINVAL \<and> vm_ids (overall s') = vm_ids (overall s) \<and> live_regions (guest_mem s') = live_regions (guest_mem s))"
proof -
  define i where "i = unat (fst (allocate_vmid (overall s)))"
  define ty where "ty = os_type (guest_os_template s ! unat (os_type g))"
  define sz where "sz = (ucast (requested g sm s) :: u64)"
  from config_start[OF assms] obtain s1 where s1: "get_os_template_type g sc sm s = Done (config_guest i g sc (requested g sm s) s1)"
    "os_inv s1" "i < CONFIG_MAX_VM_NUM (overall s)" "of_nat i \<notin> vm_ids (overall s)" "CONFIG_MAX_VM_NUM (overall s1) = CONFIG_MAX_VM_NUM (overall s)"
    "vm_ids (overall s1) = insert (of_nat i) (vm_ids (overall s))"
    "live_regions (guest_mem s1) = insert (vm_load_base (z_overall_vm_info s1 ! i), sz, ty) (live_regions (guest_mem s))"
    "\<forall>r\<in>live_regions (guest_mem s). region_disjoint r (vm_load_base (z_overall_vm_info s1 ! i), sz, ty)"
    "\<forall>r\<in>live_regions (guest_mem s). fst r \<noteq> vm_load_base (z_overall_vm_info s1 ! i)"
    "\<forall>j. j \<noteq> i \<longrightarrow> z_overall_vm_info s1 ! j = z_overall_vm_info s ! j"
    unfolding i_def ty_def sz_def by blast
  have univ: "of_nat i \<in> vmid_universe (overall s)" "nat (int i) = i" "length (z_overall_vm_info s1) = CONFIG_MAX_VM_NUM (overall s)"
    using s1 assms(1) by (auto simp: vmid_universe_def os_inv_def vmid_inv_def unat_of_nat)
  show ?thesis
  proof (cases rule: config_guest_cases[of i g sc "requested g sm s" s1])
    case 1
    have "{r \<in> live_regions (guest_mem s1). fst r \<noteq> vm_load_base (z_overall_vm_info s1 ! i)} = live_regions (guest_mem s)" using s1(7,9) by auto
    moreover have "insert (of_nat i) (vm_ids (overall s)) - {of_nat i} = vm_ids (overall s)" using s1(4) by auto
    moreover have "i < CONFIG_MAX_VM_NUM (overall s1)" using s1(3,5) by simp
    note fail = config_fail_state[OF s1(2) this]
    ultimately have "live_regions (guest_mem (snd (config_fail i s1))) = live_regions (guest_mem s)"
      "vm_ids (overall (snd (config_fail i s1))) = vm_ids (overall s)" using s1(6) by simp_all
    moreover have "get_os_template_type g sc sm s = Done (- EINVAL, snd (config_fail i s1))" using s1(1) 1 fail(1) by (metis prod.collapse)
    moreover have "\<forall>j. of_nat j \<in> vm_ids (overall s) \<longrightarrow> z_overall_vm_info (snd (config_fail i s1)) ! j = z_overall_vm_info s ! j"
      using fail(5) s1(4,10) by metis
    ultimately show ?thesis using fail(2) by (intro exI[of _ "- EINVAL"] exI[of _ "snd (config_fail i s1)"]) (simp add: EINVAL_def)
  next
    case (2 num cfg)
    let ?s = "set_info i (with_config i (os_type g) num (requested g sm s) cfg s1 (z_overall_vm_info s1 ! i)) s1"
    have "os_inv ?s" using s1(2) by (simp add: os_inv_def)
    then show ?thesis using s1 univ 2 by (intro exI[of _ "int i"] exI[of _ ?s]) (auto simp: sz_def ty_def nth_list_update)
  qed
qed


text \<open>A board with templates of 16 MB; the Linux configurations have one vCPU and 16 or 32 MB.\<close>

definition info_zero :: z_os_info where
  "info_zero = \<lparr>vm_mem_base = 0, vm_mem_size = 0, vm_load_base = 0, linux_dtb_load_addr = 0, linux_dtb_load_size = 0, os_type = 0,
     os_vcpu_num = 0, vm_image_base = 0, vm_image_size = 0, entry_point = 0\<rparr>"

definition template :: "u16 \<Rightarrow> z_os_info" where
  "template type = info_zero\<lparr>os_type := type, os_vcpu_num := 1, vm_mem_base := 0x40000000, vm_mem_size := 0x1000000, entry_point := 0x40000000\<rparr>"

definition os_new :: os_state where
  "os_new = \<lparr>sched = sched_4, guest_mem = gm_example, z_overall_vm_info = replicate 3 info_zero, guest_os_template = map template [0, 1, 2],
     zephyr_cpies_config = [], linux_dtb_cpies_config = map (\<lambda>m. \<lparr>cpy_vcpu_num = 1, max_mem_size = m, cpy_image_base = 0, cpy_image_size = 0\<rparr>)
       [0x1000000, 0x2000000], freertos_cpies_config = [], linux_image_addr = 0x60000000, linux_image_size = 0x1000000,
     LINUX_DTB_MEM_BASE = 0x70000000, LINUX_DTB_MEM_SIZE = 0x100000, CONFIG_MAX_VCPU_PER_VM = 4\<rparr>"

lemma os_new_inv: "os_inv os_new" "vm_ids (overall os_new) = {}" "vmid_universe (overall os_new) \<noteq> {}" "live_regions (guest_mem os_new) = {}"
proof -
  have "0 < base_addr gm_example" by code_simp
  moreover have "CONFIG_MAX_VM_NUM zvm_info_3 = 3" by (simp add: zvm_info_3_def)
  moreover from this have "0 \<in> vmid_universe zvm_info_3" by (simp add: vmid_universe_def)
  ultimately show "os_inv os_new" "vm_ids (overall os_new) = {}" "vmid_universe (overall os_new) \<noteq> {}" "live_regions (guest_mem os_new) = {}"
    by (auto simp: os_inv_def os_new_def sched_4_def gm_example_inv)
qed

lemma os_new_check: "unat (os_type (template 1)) < length (guest_os_template os_new)" "requested (template 1) False os_new = 0x1000000"
  "allocate_guest_memory_part_check (ucast (0x1000000 :: u32)) (guest_mem os_new)"
  "case get_os_template_type (template 1) False False os_new of Done (ret, s) \<Rightarrow>
     ret = 0 \<and> vm_load_base (z_overall_vm_info s ! 0) = 0x48000000 | _ \<Rightarrow> False"
  by code_simp+


section \<open>The stale address\<close>

text \<open>
  A request that finds no memory frees memory of another VM. When no free block is large enough, the request
  returns -EINVAL and gives its identifier back; but it also frees whatever region starts at the address in the old
  entry of the identifier, which the last VM with that identifier left there. All other regions stay in use.
\<close>

theorem failed_config_frees_stale_region:
  assumes "os_inv s" "vm_ids (overall s) \<noteq> vmid_universe (overall s)" "unat (os_type g) < length (guest_os_template s)"
    "first_fit (ucast (requested g sm s)) (guest_mem s) = None"
  shows "\<exists>s'. get_os_template_type g sc sm s = Done (- EINVAL, s') \<and> os_inv s' \<and> vm_ids (overall s') = vm_ids (overall s)
    \<and> live_regions (guest_mem s') = {r \<in> live_regions (guest_mem s).
        fst r \<noteq> vm_load_base (z_overall_vm_info s ! unat (fst (allocate_vmid (overall s))))}"
proof -
  obtain vmid z where v: "allocate_vmid (overall s) = (vmid, z)" by force
  have inv: "vmid_inv (overall s)" "gm_inv (guest_mem s)" "0 < base_addr (guest_mem s)"
    "length (z_overall_vm_info s) = CONFIG_MAX_VM_NUM (overall s)" using assms(1) by (auto simp: os_inv_def)
  note pool = vmid_pool.acquire_some[OF inv(1) assms(2) v]
  have i: "unat vmid < CONFIG_MAX_VM_NUM z" "vms z = vms (overall s)"
    using pool allocate_vmid_vms[OF v] by (auto simp: vmid_universe_def)
  define s1 where "s1 = entered (unat vmid) z (guest_mem s) g s"
  have none: "allocate_guest_memory_part ty (ucast (requested g sm s)) (guest_mem s) = (0, guest_mem s)" for ty
    using assms(4) by (simp add: allocate_guest_memory_part_def)
  have run: "get_os_template_type g sc sm s = Done (config_fail (unat vmid) s1)"
    using get_os_template_type_run[OF v i(1) assms(3) none] by (simp add: s1_def)
  have s1: "os_inv s1" "unat vmid < CONFIG_MAX_VM_NUM (overall s1)" "vm_load_base (z_overall_vm_info s1 ! unat vmid) = vm_load_base (z_overall_vm_info s ! unat vmid)"
    "guest_mem s1 = guest_mem s" "overall s1 = z"
    using pool inv i by (simp_all add: s1_def os_inv_def entered_def)
  note fail = config_fail_state[OF s1(1,2)]
  have "get_os_template_type g sc sm s = Done (- EINVAL, snd (config_fail (unat vmid) s1))" using run fail(1) by (metis prod.collapse)
  moreover have "insert vmid (vm_ids (overall s)) - {vmid} = vm_ids (overall s)" using pool by auto
  ultimately show ?thesis using fail(2-4) s1(3-5) pool v by auto
qed

text \<open>
  Three guests of 16, 16 and 32 MB are configured, the first and the last one are deleted, and a guest of 32 MB is
  configured: it gets the identifier 0 and the memory of the last one. The next request, for 128 MB, gets the
  identifier 2 and frees that memory.
\<close>

definition guest :: "u64 \<Rightarrow> z_os_info" where
  "guest mem = (template 1)\<lparr>vm_mem_size := mem\<rparr>"

definition configured :: "u64 \<Rightarrow> os_state \<Rightarrow> os_state" where
  "configured mem s = (case get_os_template_type (guest mem) False True s of Done (_, s') \<Rightarrow> s' | _ \<Rightarrow> s)"

definition deleted :: "nat \<Rightarrow> os_state \<Rightarrow> os_state" where
  "deleted i s = set_overall (snd (free_vmid (of_nat i) (overall s)))
     (s\<lparr>guest_mem := free_guest_memory_part (vm_load_base (z_overall_vm_info s ! i)) (guest_mem s)\<rparr>)"

definition os_story :: os_state where
  "os_story = configured 0x2000000 (deleted 2 (deleted 0 (configured 0x2000000 (configured 0x1000000 (configured 0x1000000 os_new)))))"

definition can_configure :: "u64 \<Rightarrow> os_state \<Rightarrow> bool" where
  "can_configure mem s \<longleftrightarrow> unat (fst (allocate_vmid (overall s))) < CONFIG_MAX_VM_NUM (overall s) \<and> length (guest_os_template s) = 3
     \<and> 0 < (ucast mem :: u32) \<and> allocate_guest_memory_part_check (ucast (ucast mem :: u32)) (guest_mem s)"

lemma not_full:
  assumes "os_inv s" "unat (fst (allocate_vmid (overall s))) < CONFIG_MAX_VM_NUM (overall s)"
  shows "vm_ids (overall s) \<noteq> vmid_universe (overall s)"
proof
  assume "vm_ids (overall s) = vmid_universe (overall s)"
  moreover obtain i z where "allocate_vmid (overall s) = (i, z)" by force
  ultimately show False using vmid_pool.acquire_full[of "overall s" i z] assms by (auto simp: os_inv_def vmid_universe_def)
qed

lemma configured_inv:
  assumes "os_inv s" "can_configure mem s"
  shows "os_inv (configured mem s)"
proof -
  have g: "os_type (guest mem) = 1" "vm_mem_size (guest mem) = mem" by (simp_all add: guest_def template_def)
  then have "requested (guest mem) True s = ucast mem" by (simp add: requested_def)
  then show ?thesis using config_outcome[OF assms(1) not_full[OF assms(1)], of "guest mem" True False] assms(2) g
    by (auto simp: can_configure_def configured_def)
qed

lemma deleted_inv: "os_inv s \<Longrightarrow> os_inv (deleted i s)"
  using guest_memory.release_ok vmid_pool.give_back_inv by (auto simp: os_inv_def deleted_def free_vmid_def Let_def word_less_nat_alt)

lemma os_story_inv: "os_inv os_story"
proof -
  have "can_configure 0x1000000 os_new" "can_configure 0x1000000 (configured 0x1000000 os_new)"
    "can_configure 0x2000000 (configured 0x1000000 (configured 0x1000000 os_new))"
    "can_configure 0x2000000 (deleted 2 (deleted 0 (configured 0x2000000 (configured 0x1000000 (configured 0x1000000 os_new)))))"
    by code_simp+
  then show ?thesis unfolding os_story_def by (intro configured_inv deleted_inv os_new_inv(1))
qed

lemma os_story_facts:
  "unat (fst (allocate_vmid (overall os_story))) = 2 \<and> 2 < CONFIG_MAX_VM_NUM (overall os_story)"
  "unat (os_type (guest 0x8000000)) < length (guest_os_template os_story)"
  "first_fit (ucast (requested (guest 0x8000000) True os_story)) (guest_mem os_story) = None"
  "vm_load_base (z_overall_vm_info os_story ! 2) = 0x4A000000" "vm_load_base (z_overall_vm_info os_story ! 0) = 0x4A000000"
  "list_ex (\<lambda>b. is_allocated b \<and> part_region b = (0x4A000000, 0x2000000, 1)) (blocks (guest_mem os_story))"
  by code_simp+

theorem failed_config_frees_stale_region_witness:
  "(0x4A000000, 0x2000000, 1) \<in> live_regions (guest_mem os_story) \<and> vm_load_base (z_overall_vm_info os_story ! 0) = 0x4A000000
   \<and> (\<exists>s'. get_os_template_type (guest 0x8000000) False True os_story = Done (- EINVAL, s')
        \<and> (0x4A000000, 0x2000000, 1) \<notin> live_regions (guest_mem s'))"
proof -
  have "(0x4A000000, 0x2000000, 1) \<in> live_regions (guest_mem os_story)"
    using os_story_facts(6) by (auto simp: live_regions_def list_ex_iff intro: rev_image_eqI)
  moreover have "vm_ids (overall os_story) \<noteq> vmid_universe (overall os_story)" using not_full[OF os_story_inv] os_story_facts(1) by simp
  from failed_config_frees_stale_region[OF os_story_inv this os_story_facts(2,3), of False] os_story_facts(1,4)
  have "\<exists>s'. get_os_template_type (guest 0x8000000) False True os_story = Done (- EINVAL, s')
        \<and> (0x4A000000, 0x2000000, 1) \<notin> live_regions (guest_mem s')" by auto
  ultimately show ?thesis using os_story_facts(5) by simp
qed

end
