(* ===== verification/Vm_Create.thy ===== *)
theory Vm_Create
  imports Os_Config Vm_Life
begin

text \<open>
  The creation of a VM (\<^verbatim>\<open>vm_create\<close>, \<^verbatim>\<open>vm_vcpus_create\<close>, \<^verbatim>\<open>vm_vcpus_init\<close> and \<^verbatim>\<open>vm_mem_init\<close> of \<^verbatim>\<open>vm.c\<close>, \<^verbatim>\<open>vm_vcpu_init\<close> of
  \<^verbatim>\<open>vm_cpu.c\<close>, \<^verbatim>\<open>z_create_guest\<close> of \<^verbatim>\<open>vm_manager.c\<close>), from its configuration to a VM that can be run. The k-th
  call of k_malloc of a function succeeds if \<^verbatim>\<open>m k\<close> holds; the results are cleared before they are tested. Pointers
  to VMs and vCPUs are numbers. The CPU masks of threads, the interrupt descriptors and the registers of a vCPU,
  which are filled with constants, are not part of this model; \<^verbatim>\<open>arch_vcpu_init\<close> is represented by its result.
\<close>

section \<open>State\<close>

text \<open>A VM in the making; a vCPU comes with its pointer.\<close>

record vm_inst =
  in_handle :: nat
  in_vmid :: nat
  in_reboot :: bool
  in_os :: "z_os option"
  in_mem :: "vm_mem_domain option"
  in_pgd :: nat
  in_name :: string
  in_status :: vm_status
  in_vcpus :: "(nat \<times> z_vcpu) option list"
  exist_vcpu :: int

abbreviation vcpu_num_of :: "vm_inst \<Rightarrow> nat" where
  "vcpu_num_of vm \<equiv> length (in_vcpus vm)"

section \<open>The structure of a VM\<close>

definition vm_vcpus_create :: "bool \<Rightarrow> u16 \<Rightarrow> vm_inst \<Rightarrow> os_state \<Rightarrow> vm_inst outcome" where
  "vm_vcpus_create malloc num vm s =
    (if \<not> malloc then Fault
     else Done (vm\<lparr>in_vcpus := replicate (if CONFIG_MAX_VCPU_PER_VM s < unat num then CONFIG_MAX_VCPU_PER_VM s else unat num) None\<rparr>))"

text \<open>The decimal digits of a number.\<close>

function digits :: "nat \<Rightarrow> string" where
  "digits n = (if n < 10 then [char_of (48 + n)] else digits (n div 10) @ [char_of (48 + n mod 10)])"
  by pat_completeness auto
termination by (relation "measure id") auto

declare digits.simps [simp del]

definition set_rtos :: "nat \<Rightarrow> bool \<Rightarrow> os_state \<Rightarrow> os_state" where
  "set_rtos h b s = s\<lparr>sched := (sched s)\<lparr>vm_is_rtos := (vm_is_rtos (sched s))(h := b)\<rparr>\<rparr>"

text \<open>\<^verbatim>\<open>parts\<close> is the number of partitions of a domain, \<^verbatim>\<open>dtb\<close> is CONFIG_VM_DTB_FILE_INPUT, and \<^verbatim>\<open>st\<close> are the tables of the VM.
  The number is printed into four bytes, which are too few for three digits.\<close>

definition vm_create :: "(nat \<Rightarrow> bool) \<Rightarrow> nat \<Rightarrow> bool \<Rightarrow> s2_tables \<Rightarrow> vm_inst \<Rightarrow> os_state \<Rightarrow> (int \<times> vm_inst \<times> os_state) outcome" where
  "vm_create m parts dtb st vm s =
    (let vm = vm\<lparr>in_reboot := False\<rparr> in
     if \<not> m 0 then Fault
     else bind_outcome (vm_os_create (m 1) (in_vmid vm) s) (\<lambda>(ret, os). case os of
       None \<Rightarrow> Done (ret, vm, s)
     | Some os \<Rightarrow>
         let vm = vm\<lparr>in_os := Some os\<rparr>; s = set_rtos (in_handle vm) (os_is_rtos os) s in
         bind_outcome (vm_mem_domain_create (m 2, m 3) (m 4, m 5) (m 6, m 7) parts (dtb \<and> os_type (os_info os) = OS_TYPE_LINUX)
             (os_mem_info.truncate (os_info os)) st) (\<lambda>(ret, vd).
           if ret \<noteq> 0 then Done (ret, vm\<lparr>in_mem := vd\<rparr>, s)
           else bind_outcome (vm_vcpus_create (m 8) (os_vcpu_num (os_info os)) (vm\<lparr>in_mem := vd\<rparr>) s) (\<lambda>vm.
             if \<not> m 9 \<or> \<not> m 10 \<or> 100 \<le> in_vmid vm then Fault
             else case vd of
               None \<Rightarrow> Fault
             | Some d \<Rightarrow> (case vm_mm_domain d of
                 None \<Rightarrow> Fault
               | Some md \<Rightarrow>
                   Done (0, vm\<lparr>in_name := os_name os @ ''-'' @ digits (in_vmid vm), in_status := VM_STATE_NEVER_RUN, in_pgd := base_xlat_table md\<rparr>,
                         set_overall ((overall s)\<lparr>vms := (vms (overall s))[in_vmid vm := Some (in_handle vm)]\<rparr>) s))))))"

section \<open>vCPUs\<close>

text \<open>A new vCPU; its thread waits to be started.\<close>

definition fresh_vcpu :: z_vcpu where
  "fresh_vcpu = \<lparr>vcpu_state = VCPU_STATE_UNKNOWN, is_poweroff = False, resume_signal = False, deleting = False,
     vcpu_thread = \<lparr>prestart = True, suspended = False, dead = False, pending = False, timeout = False\<rparr>\<rparr>"

text \<open>\<^verbatim>\<open>h\<close> is the pointer to the new structure and \<^verbatim>\<open>arch\<close> the result of \<^verbatim>\<open>arch_vcpu_init\<close>. A vCPU that has no CPU
  or whose registers fail is not freed completely, and a CPU that was found stays taken.\<close>

definition vm_vcpu_init :: "(nat \<Rightarrow> bool) \<Rightarrow> nat \<Rightarrow> int \<Rightarrow> vm_inst \<Rightarrow> os_state \<Rightarrow> (z_vcpu option \<times> os_state) outcome" where
  "vm_vcpu_init m h arch vm s =
    (if \<not> (m 0 \<and> m 1 \<and> m 2 \<and> m 3) then Fault
     else let s = s\<lparr>sched := (sched s)\<lparr>vcpu_vm := (vcpu_vm (sched s))(h := in_handle vm)\<rparr>\<rparr>
          in bind_outcome (pre_alloc_vcpu_single (m 4) h (sched s)) (\<lambda>(ok, sc).
               Done (if ok \<and> arch = 0 then Some fresh_vcpu else None, s\<lparr>sched := sc\<rparr>)))"

fun init_vcpus :: "(nat \<Rightarrow> nat \<Rightarrow> bool) \<Rightarrow> (nat \<Rightarrow> nat) \<Rightarrow> (nat \<Rightarrow> int) \<Rightarrow> nat list \<Rightarrow> vm_inst \<Rightarrow> os_state \<Rightarrow> (int \<times> vm_inst \<times> os_state) outcome" where
  "init_vcpus m h arch [] vm s = Done (0, vm, s)"
| "init_vcpus m h arch (i # is) vm s = bind_outcome (vm_vcpu_init (m i) (h i) (arch i) vm s) (\<lambda>(r, s). case r of
     None \<Rightarrow> Done (- ENODEV, vm, s)
   | Some v \<Rightarrow> init_vcpus m h arch is (vm\<lparr>in_vcpus := (in_vcpus vm)[i := Some (h i, v\<lparr>is_poweroff := i \<noteq> 0\<rparr>)]\<rparr>) s)"

definition vm_vcpus_init :: "(nat \<Rightarrow> nat \<Rightarrow> bool) \<Rightarrow> (nat \<Rightarrow> nat) \<Rightarrow> (nat \<Rightarrow> int) \<Rightarrow> vm_inst \<Rightarrow> os_state \<Rightarrow> (int \<times> vm_inst \<times> os_state) outcome" where
  "vm_vcpus_init m h arch vm s =
    (if CONFIG_MAX_VCPU_PER_VM s < vcpu_num_of vm then Done (- ESRCH, vm, s)
     else bind_outcome (init_vcpus m h arch [0..<vcpu_num_of vm] vm s) (\<lambda>(ret, vm, s).
            Done (ret, if ret = 0 then vm\<lparr>exist_vcpu := int (vcpu_num_of vm)\<rparr> else vm, s)))"

section \<open>The whole creation\<close>

text \<open>The memory; the flag for a second initialisation is never set.\<close>

definition vm_mem_init :: "vm_inst \<Rightarrow> (int \<times> vm_inst) outcome" where
  "vm_mem_init vm = (case in_mem vm of
     None \<Rightarrow> Fault
   | Some d \<Rightarrow> bind_outcome (vm_mem_domain_partitions_add d) (\<lambda>(ret, d). Done (ret, vm\<lparr>in_mem := Some d\<rparr>)))"

text \<open>
  \<^verbatim>\<open>lr_num\<close> is the number of list registers. \<^verbatim>\<open>dev_init\<close> is \<^verbatim>\<open>vm_device_init\<close>, which calls the init function of every
  driver that is linked in; these add devices and their memory. \<^verbatim>\<open>vm_ops_init\<close> does nothing.
  A failure behind \<^verbatim>\<open>vm_create\<close> leaves the VM in the table.
\<close>

definition z_create_guest :: "(nat \<Rightarrow> bool) \<Rightarrow> (nat \<Rightarrow> nat \<Rightarrow> bool) \<Rightarrow> (nat \<Rightarrow> nat) \<Rightarrow> (nat \<Rightarrow> int) \<Rightarrow> nat \<Rightarrow> bool \<Rightarrow> s2_tables \<Rightarrow> nat
    \<Rightarrow> (vm_inst \<Rightarrow> (int \<times> vm_inst) outcome) \<Rightarrow> vm_inst \<Rightarrow> os_state \<Rightarrow> (int \<times> vm_inst \<times> os_state) outcome" where
  "z_create_guest m mv h arch parts dtb st lr_num dev_init vm s =
    bind_outcome (vm_create m parts dtb st vm s) (\<lambda>(ret, vm, s).
      if ret \<noteq> 0 then Done (ret, vm, s)
      else if lr_num = 0 then Done (- ENODEV, vm, s)
      else bind_outcome (vm_vcpus_init mv h arch vm s) (\<lambda>(ret, vm, s).
        if ret < 0 then Done (- ENXIO, vm, s)
        else bind_outcome (dev_init vm) (\<lambda>(ret, vm).
          if ret \<noteq> 0 then Done (ret, vm, s)
          else bind_outcome (vm_mem_init vm) (\<lambda>(ret, vm). Done (if ret < 0 then ret else 0, vm, s)))))"

end
