(* ===== verification/Vm_Create_Props.thy ===== *)
theory Vm_Create_Props
  imports Vm_Create Os_Config_Props Vm_Life_Props
begin

text \<open>
  From a configuration to a VM: the check of the CPUs that the configuration made is enough for all vCPUs to find
  a CPU, and the VM that results is one from which the life of a VM starts.
\<close>

section \<open>The CPUs\<close>

text \<open>A vCPU that is not placed and a VM without vCPUs can be changed freely.\<close>

lemma new_vcpu_sched:
  assumes "\<not> placed c v"
  shows "sched_inv (c\<lparr>vcpu_vm := (vcpu_vm c)(v := x)\<rparr>) = sched_inv c"
    "placed (c\<lparr>vcpu_vm := (vcpu_vm c)(v := x)\<rparr>) = placed c"
    "sched_inv c \<Longrightarrow> free_pcpus y (c\<lparr>vcpu_vm := (vcpu_vm c)(v := x)\<rparr>) = free_pcpus y c"
proof -
  have other: "w \<noteq> v" if "w \<in> set (vcpu_pcpu_map c ! p)" "p < mp_max_num_cpus c" for w p using assms that by (auto simp: placed_def)
  have eq: "map ((vcpu_vm c)(v := x)) (vcpu_pcpu_map c ! p) = map (vcpu_vm c) (vcpu_pcpu_map c ! p)" if "p < mp_max_num_cpus c" for p
    using other[OF _ that] by (intro map_cong) auto
  have "pcpu_ok (c\<lparr>vcpu_vm := (vcpu_vm c)(v := x)\<rparr>) p = pcpu_ok c p" if "p < mp_max_num_cpus c" for p
    using other[OF _ that] by (auto simp: pcpu_ok_def domain_of_def pcpu_cap_def eq[OF that])
  then show "sched_inv (c\<lparr>vcpu_vm := (vcpu_vm c)(v := x)\<rparr>) = sched_inv c" by (simp add: sched_inv_def sched_cfg_def)
  show "placed (c\<lparr>vcpu_vm := (vcpu_vm c)(v := x)\<rparr>) = placed c" by (simp add: placed_def fun_eq_iff)
  assume inv: "sched_inv c"
  define c' where "c' = c\<lparr>vcpu_vm := (vcpu_vm c)(v := x)\<rparr>"
  have same: "vcpu_pcpu_map c' = vcpu_pcpu_map c" "vm_is_rtos c' = vm_is_rtos c" "domain_of r c' = domain_of r c" "pcpu_cap r c' = pcpu_cap r c" for r
    by (simp_all add: c'_def domain_of_def pcpu_cap_def)
  have "vcpu_vm c' ` set (vcpu_pcpu_map c ! p) = vcpu_vm c ` set (vcpu_pcpu_map c ! p)" if "p \<in> domain_of r c" for p r
    using other domain_less[of c p r] inv that by (intro image_cong) (auto simp: sched_inv_def c'_def)
  then show "free_pcpus y (c\<lparr>vcpu_vm := (vcpu_vm c)(v := x)\<rparr>) = free_pcpus y c"
    unfolding c'_def[symmetric] free_pcpus_def same by blast
qed

lemma new_vm_sched:
  assumes "\<forall>v. placed c v \<longrightarrow> vcpu_vm c v \<noteq> m" "sched_inv c"
  shows "sched_inv (c\<lparr>vm_is_rtos := (vm_is_rtos c)(m := b)\<rparr>)" "placed (c\<lparr>vm_is_rtos := (vm_is_rtos c)(m := b)\<rparr>) = placed c"
proof -
  have other: "vcpu_vm c w \<noteq> m" if "w \<in> set (vcpu_pcpu_map c ! p)" "p < mp_max_num_cpus c" for w p using assms that by (auto simp: placed_def)
  have "pcpu_ok (c\<lparr>vm_is_rtos := (vm_is_rtos c)(m := b)\<rparr>) p = pcpu_ok c p" if "p < mp_max_num_cpus c" for p
    using other[OF _ that] by (auto simp: pcpu_ok_def domain_of_def pcpu_cap_def)
  then show "sched_inv (c\<lparr>vm_is_rtos := (vm_is_rtos c)(m := b)\<rparr>)" using assms(2) by (simp add: sched_inv_def sched_cfg_def)
  show "placed (c\<lparr>vm_is_rtos := (vm_is_rtos c)(m := b)\<rparr>) = placed c" by (simp add: placed_def fun_eq_iff)
qed

lemma new_table_sched:
  fixes c :: vcpu_sched and t :: "nat option list"
  defines "c' \<equiv> c\<lparr>zvm_overall_info := (zvm_overall_info c)\<lparr>vms := t\<rparr>\<rparr>"
  shows "sched_inv c' = sched_inv c" "placed c' = placed c" "free_pcpus y c' = free_pcpus y c" "vcpu_vm c' = vcpu_vm c"
  by (simp_all add: c'_def sched_inv_def sched_cfg_def pcpu_ok_def domain_of_def pcpu_cap_def placed_def free_pcpus_def fun_eq_iff)

lemma margin_check_rtos: "vcpu_margin_check type n (c\<lparr>vm_is_rtos := f\<rparr>) = vcpu_margin_check type n c"
  by (simp add: vcpu_margin_check_def get_vcpu_domain_range_def)

text \<open>What \<^verbatim>\<open>vm_create\<close> does to the CPUs: the kind of the VM is known from now on.\<close>

lemma registered_sched:
  fixes s :: os_state and t :: "nat option list" and x :: nat and type :: u16
  assumes "sched_inv (sched s)" "\<forall>v. placed (sched s) v \<longrightarrow> vcpu_vm (sched s) v \<noteq> x" "vcpu_margin_check type (int n) (sched s)"
  defines "s1 \<equiv> set_overall ((overall s)\<lparr>vms := t\<rparr>) (set_rtos x (guest_os_is_rtos type) s)"
  shows "sched_inv (sched s1)" "placed (sched s1) = placed (sched s)" "n \<le> card (free_pcpus x (sched s1))" "vcpu_vm (sched s1) = vcpu_vm (sched s)"
    "vms (overall s1) = t"
proof -
  define c where "c = (sched s)\<lparr>vm_is_rtos := (vm_is_rtos (sched s))(x := guest_os_is_rtos type)\<rparr>"
  have s1: "sched s1 = c\<lparr>zvm_overall_info := (zvm_overall_info c)\<lparr>vms := t\<rparr>\<rparr>" by (simp add: s1_def set_overall_def set_rtos_def c_def)
  note c = new_vm_sched[OF assms(2,1), of "guest_os_is_rtos type", folded c_def]
  show "sched_inv (sched s1)" "placed (sched s1) = placed (sched s)" unfolding s1 new_table_sched by (rule c)+
  show "vcpu_vm (sched s1) = vcpu_vm (sched s)" "vms (overall s1) = t" by (simp_all add: s1 c_def)
  have "vcpu_margin_check type (int n) c" using assms(3) by (simp add: c_def margin_check_rtos)
  then show "n \<le> card (free_pcpus x (sched s1))" unfolding s1 new_table_sched
    using vcpu_margin_check_free[OF c(1), of type x "int n"] assms(2) c(2) by (simp add: c_def)
qed

section \<open>All vCPUs\<close>

definition vcpus_done :: "(nat \<Rightarrow> nat) \<Rightarrow> nat list \<Rightarrow> (nat \<times> z_vcpu) option list \<Rightarrow> (nat \<times> z_vcpu) option list" where
  "vcpus_done h is l = fold (\<lambda>i l. l[i := Some (h i, fresh_vcpu\<lparr>is_poweroff := i \<noteq> 0\<rparr>)]) is l"

text \<open>One vCPU, when a CPU is left.\<close>

lemma pre_alloc_vms:
  "pre_alloc_vcpu_single b v c = Done (ok, c') \<Longrightarrow> vms (zvm_overall_info c') = vms (zvm_overall_info c)"
  by (auto simp: pre_alloc_vcpu_single_def add_vcpu_to_pcpu_def set_use_def Let_def split: option.splits if_splits)

lemma vm_vcpu_init_ok:
  assumes "\<And>k. m k" "sched_inv (sched s)" "\<not> placed (sched s) h" "free_pcpus (in_handle vm) (sched s) \<noteq> {}"
  shows "\<exists>c. vm_vcpu_init m h 0 vm s = Done (Some fresh_vcpu, s\<lparr>sched := c\<rparr>) \<and> sched_inv c
    \<and> card (free_pcpus (in_handle vm) c) + 1 = card (free_pcpus (in_handle vm) (sched s))
    \<and> (\<forall>x. placed c x \<longleftrightarrow> placed (sched s) x \<or> x = h)
    \<and> vcpu_vm c = (vcpu_vm (sched s))(h := in_handle vm) \<and> vms (zvm_overall_info c) = vms (zvm_overall_info (sched s))"
proof -
  define c0 where "c0 = (sched s)\<lparr>vcpu_vm := (vcpu_vm (sched s))(h := in_handle vm)\<rparr>"
  note c0 = new_vcpu_sched[OF assms(3), where x = "in_handle vm", folded c0_def]
  have inv: "sched_inv c0" using assms(2) c0(1) by simp
  have free: "free_pcpus y c0 = free_pcpus y (sched s)" for y using c0(3) assms(2) by blast
  obtain ok c where c: "pre_alloc_vcpu_single True h c0 = Done (ok, c)" using pre_alloc_returns[OF inv] .
  have vm: "vcpu_vm c0 h = in_handle vm" by (simp add: c0_def)
  have "\<not> placed c0 h" using assms(3) c0(2) by simp
  note st = pre_alloc_step[OF inv this c, unfolded vm free c0(2)]
  have ok: ok using st(5) assms(4) by blast
  have "vm_vcpu_init m h 0 vm s = Done (Some fresh_vcpu, s\<lparr>sched := c\<rparr>)"
    using assms(1) c ok by (simp add: vm_vcpu_init_def c0_def[symmetric])
  moreover have "vcpu_vm c = (vcpu_vm (sched s))(h := in_handle vm)" using st(2) by (simp add: c0_def)
  moreover have "vms (zvm_overall_info c) = vms (zvm_overall_info (sched s))" using pre_alloc_vms[OF c] by (simp add: c0_def)
  ultimately show ?thesis using st(1,7,8) ok by auto
qed

lemma init_vcpus_ok:
  assumes "\<And>i k. m i k" "\<And>i. arch i = 0" "sched_inv (sched s)" "distinct (map h is)" "\<forall>i\<in>set is. \<not> placed (sched s) (h i)"
    "length is \<le> card (free_pcpus (in_handle vm) (sched s))"
  shows "\<exists>c. init_vcpus m h arch is vm s = Done (0, vm\<lparr>in_vcpus := vcpus_done h is (in_vcpus vm)\<rparr>, s\<lparr>sched := c\<rparr>)
    \<and> sched_inv c \<and> (\<forall>x. placed c x \<longleftrightarrow> placed (sched s) x \<or> x \<in> h ` set is)
    \<and> (\<forall>x. vcpu_vm c x = (if x \<in> h ` set is then in_handle vm else vcpu_vm (sched s) x)) \<and> vms (zvm_overall_info c) = vms (zvm_overall_info (sched s))"
  using assms
proof (induction "is" arbitrary: vm s)
  case Nil
  then show ?case by (intro exI[of _ "sched s"]) (simp add: vcpus_done_def)
next
  case (Cons i ks)
  have free: "free_pcpus (in_handle vm) (sched s) \<noteq> {}" using Cons.prems(6) by auto
  obtain c where c: "vm_vcpu_init (m i) (h i) 0 vm s = Done (Some fresh_vcpu, s\<lparr>sched := c\<rparr>)" "sched_inv c"
    "card (free_pcpus (in_handle vm) c) + 1 = card (free_pcpus (in_handle vm) (sched s))"
    "\<forall>x. placed c x \<longleftrightarrow> placed (sched s) x \<or> x = h i"
    "vcpu_vm c = (vcpu_vm (sched s))(h i := in_handle vm)" "vms (zvm_overall_info c) = vms (zvm_overall_info (sched s))"
    using vm_vcpu_init_ok[where m = "m i", OF Cons.prems(1,3) _ free, of "h i"] Cons.prems(5) by auto
  let ?vm = "vm\<lparr>in_vcpus := (in_vcpus vm)[i := Some (h i, fresh_vcpu\<lparr>is_poweroff := i \<noteq> 0\<rparr>)]\<rparr>"
  have "\<exists>c'. init_vcpus m h arch ks ?vm (s\<lparr>sched := c\<rparr>) = Done (0, ?vm\<lparr>in_vcpus := vcpus_done h ks (in_vcpus ?vm)\<rparr>, s\<lparr>sched := c\<rparr>\<lparr>sched := c'\<rparr>)
    \<and> sched_inv c' \<and> (\<forall>x. placed c' x \<longleftrightarrow> placed (sched (s\<lparr>sched := c\<rparr>)) x \<or> x \<in> h ` set ks)
    \<and> (\<forall>x. vcpu_vm c' x = (if x \<in> h ` set ks then in_handle ?vm else vcpu_vm (sched (s\<lparr>sched := c\<rparr>)) x))
    \<and> vms (zvm_overall_info c') = vms (zvm_overall_info (sched (s\<lparr>sched := c\<rparr>)))"
    using Cons.prems c by (intro Cons.IH) (auto simp: image_iff)
  then show ?case using c Cons.prems(2)[of i] by (auto simp: vcpus_done_def)
qed

lemma vcpus_done_upt:
  "n \<le> length l \<Longrightarrow> vcpus_done h [0..<n] l = map (\<lambda>i. Some (h i, fresh_vcpu\<lparr>is_poweroff := i \<noteq> 0\<rparr>)) [0..<n] @ drop n l"
  by (induction n) (simp_all add: vcpus_done_def list_update_append Cons_nth_drop_Suc[symmetric])

section \<open>The creation\<close>

text \<open>The VM behind the structure, as the commands see it.\<close>

definition vm_of :: "vm_inst \<Rightarrow> z_vm" where
  "vm_of vm = \<lparr>vm_status = in_status vm, vm_vcpus = map (map_option snd) (in_vcpus vm), vm_lock = False, vm_vmid = of_nat (in_vmid vm), events = []\<rparr>"

text \<open>The new domain holds the partition of the configured memory, which is not mapped yet.\<close>

definition ram_vpart :: "os_mem_info \<Rightarrow> vm_mem_partition" where
  "ram_vpart info = \<lparr>vm_mm_partition = \<lparr>pt_start = vm_mem_base info, pt_size = vm_mem_size info, pt_attrs = MT_VM_NORMAL_MEM\<rparr>,
     part_hpa_base = vm_load_base info, part_hpa_size = vm_mem_size info\<rparr>"

lemma new_domain:
  assumes "arch_vm_mem_domain_init st = (0, Some root, st')"
  obtains d md where "vm_mem_domain_create (True, True) (True, True) (True, True) parts dtb info st = Done (0, Some d)"
    "vm_mm_domain d = Some md" "base_xlat_table md = root" "ram_vpart info \<in> set (idle_vpart_list d)" "mapped_vpart_list d = []"
  using assms
  by (cases dtb) (simp_all add: vm_mem_domain_create_def vm_domain_init_def vm_init_mem_create_def vm_ram_mem_create_def vm_dtb_mem_create_def
      create_vm_mem_vpart_def alloc_vm_mem_partition_def add_idle_vpart_def ram_vpart_def)

lemma vm_create_ok:
  assumes "\<And>k. m k" "in_vmid vm < length (z_overall_vm_info s)" "in_vmid vm < 100"
    "os_type (z_overall_vm_info s ! in_vmid vm) \<in> {OS_TYPE_ZEPHYR, OS_TYPE_LINUX, OS_TYPE_FREERTOS}"
    "unat (os_vcpu_num (z_overall_vm_info s ! in_vmid vm)) \<le> CONFIG_MAX_VCPU_PER_VM s" "arch_vm_mem_domain_init st = (0, Some root, st')"
  shows "\<exists>vm'. vm_create m parts dtb st vm s = Done (0, vm',
       set_overall ((overall s)\<lparr>vms := (vms (overall s))[in_vmid vm := Some (in_handle vm)]\<rparr>)
         (set_rtos (in_handle vm) (guest_os_is_rtos (os_type (z_overall_vm_info s ! in_vmid vm))) s))
    \<and> in_handle vm' = in_handle vm \<and> in_vmid vm' = in_vmid vm \<and> in_status vm' = VM_STATE_NEVER_RUN \<and> in_pgd vm' = root \<and> (\<exists>d. in_mem vm' = Some d \<and> ram_vpart (os_mem_info.truncate (z_overall_vm_info s ! in_vmid vm)) \<in> set (idle_vpart_list d))
    \<and> in_vcpus vm' = replicate (unat (os_vcpu_num (z_overall_vm_info s ! in_vmid vm))) None"
proof -
  define e where "e = z_overall_vm_info s ! in_vmid vm"
  obtain name where os: "vm_os_create True (in_vmid vm) s = Done (0, Some \<lparr>os_name = name, os_is_rtos = guest_os_is_rtos (os_type e), os_info = e\<rparr>)"
    using assms(2,4) by (auto simp: vm_os_create_def e_def guest_os_is_rtos_def OS_TYPE_ZEPHYR_def OS_TYPE_LINUX_def OS_TYPE_FREERTOS_def)
  obtain d md where d: "vm_mem_domain_create (True, True) (True, True) (True, True) parts (dtb \<and> os_type e = OS_TYPE_LINUX) (os_mem_info.truncate e) st =
      Done (0, Some d)" "vm_mm_domain d = Some md" "base_xlat_table md = root" "ram_vpart (os_mem_info.truncate e) \<in> set (idle_vpart_list d)"
    using new_domain[OF assms(6)] by metis
  show ?thesis using assms(1,3,5) os d unfolding vm_create_def
    by (simp add: vm_vcpus_create_def e_def[symmetric] Let_def) (simp add: set_rtos_def)
qed


text \<open>A Linux guest with two vCPUs on the board with four CPUs; the vCPUs are at the addresses 10 and 11. The devices are
  taken to fail, so that the state before the mapping of the memory is returned.\<close>

definition two_vcpus :: z_os_info where
  "two_vcpus = (template 1)\<lparr>os_vcpu_num := 2\<rparr>"

definition os_two :: os_state where
  "os_two = os_new\<lparr>z_overall_vm_info := [two_vcpus, info_zero, info_zero]\<rparr>"

definition vm_blank :: vm_inst where
  "vm_blank = \<lparr>in_handle = 1, in_vmid = 0, in_reboot = False, in_os = None, in_mem = None, in_pgd = 0, in_name = [],
     in_status = VM_STATE_NEVER_RUN, in_vcpus = [], exist_vcpu = 0\<rparr>"


end
