(* ===== verification/Sys_Dlist.thy ===== *)
theory Sys_Dlist
  imports ZVM_Prelude
begin

text \<open>
  The doubly linked lists of the kernel (\<^verbatim>\<open>include/zephyr/sys/dlist.h\<close>) on a heap of nodes. A list is a ring of nodes
  through its own header; a node is known by its address and the address 0 is NULL. Every operation is proved to
  implement an operation on the list of addresses and to leave other lists alone.
\<close>

section \<open>Nodes and operations\<close>

record dnodes =
  dn_next :: "nat \<Rightarrow> nat"
  dn_prev :: "nat \<Rightarrow> nat"

definition set_next :: "nat \<Rightarrow> nat \<Rightarrow> dnodes \<Rightarrow> dnodes" where
  "set_next n v h = h\<lparr>dn_next := (dn_next h)(n := v)\<rparr>"

definition set_prev :: "nat \<Rightarrow> nat \<Rightarrow> dnodes \<Rightarrow> dnodes" where
  "set_prev n v h = h\<lparr>dn_prev := (dn_prev h)(n := v)\<rparr>"

definition sys_dlist_init :: "nat \<Rightarrow> dnodes \<Rightarrow> dnodes" where
  "sys_dlist_init l h = set_prev l l (set_next l l h)"

definition sys_dnode_init :: "nat \<Rightarrow> dnodes \<Rightarrow> dnodes" where
  "sys_dnode_init n h = set_prev n 0 (set_next n 0 h)"

definition sys_dnode_is_linked :: "nat \<Rightarrow> dnodes \<Rightarrow> bool" where
  "sys_dnode_is_linked n h \<longleftrightarrow> dn_next h n \<noteq> 0"

definition sys_dlist_is_head :: "nat \<Rightarrow> nat \<Rightarrow> dnodes \<Rightarrow> bool" where
  "sys_dlist_is_head l n h \<longleftrightarrow> dn_next h l = n"

definition sys_dlist_is_tail :: "nat \<Rightarrow> nat \<Rightarrow> dnodes \<Rightarrow> bool" where
  "sys_dlist_is_tail l n h \<longleftrightarrow> dn_prev h l = n"

definition sys_dlist_is_empty :: "nat \<Rightarrow> dnodes \<Rightarrow> bool" where
  "sys_dlist_is_empty l h \<longleftrightarrow> dn_next h l = l"

definition sys_dlist_has_multiple_nodes :: "nat \<Rightarrow> dnodes \<Rightarrow> bool" where
  "sys_dlist_has_multiple_nodes l h \<longleftrightarrow> dn_next h l \<noteq> dn_prev h l"

definition sys_dlist_peek_head :: "nat \<Rightarrow> dnodes \<Rightarrow> nat" where
  "sys_dlist_peek_head l h = (if sys_dlist_is_empty l h then 0 else dn_next h l)"

definition sys_dlist_peek_next_no_check :: "nat \<Rightarrow> nat \<Rightarrow> dnodes \<Rightarrow> nat" where
  "sys_dlist_peek_next_no_check l n h = (if n = dn_prev h l then 0 else dn_next h n)"

definition sys_dlist_peek_next :: "nat \<Rightarrow> nat \<Rightarrow> dnodes \<Rightarrow> nat" where
  "sys_dlist_peek_next l n h = (if n \<noteq> 0 then sys_dlist_peek_next_no_check l n h else 0)"

definition sys_dlist_peek_prev_no_check :: "nat \<Rightarrow> nat \<Rightarrow> dnodes \<Rightarrow> nat" where
  "sys_dlist_peek_prev_no_check l n h = (if n = dn_next h l then 0 else dn_prev h n)"

definition sys_dlist_peek_prev :: "nat \<Rightarrow> nat \<Rightarrow> dnodes \<Rightarrow> nat" where
  "sys_dlist_peek_prev l n h = (if n \<noteq> 0 then sys_dlist_peek_prev_no_check l n h else 0)"

definition sys_dlist_peek_tail :: "nat \<Rightarrow> dnodes \<Rightarrow> nat" where
  "sys_dlist_peek_tail l h = (if sys_dlist_is_empty l h then 0 else dn_prev h l)"

text \<open>The operations that write through a pointer they read; the writes are in the order of the code.\<close>

definition sys_dlist_append :: "nat \<Rightarrow> nat \<Rightarrow> dnodes \<Rightarrow> dnodes outcome" where
  "sys_dlist_append l n h =
    (let tl = dn_prev h l; h = set_prev n tl (set_next n l h)
     in if tl = 0 then Fault else Done (set_prev l n (set_next tl n h)))"

definition sys_dlist_prepend :: "nat \<Rightarrow> nat \<Rightarrow> dnodes \<Rightarrow> dnodes outcome" where
  "sys_dlist_prepend l n h =
    (let hd = dn_next h l; h = set_prev n l (set_next n hd h)
     in if hd = 0 then Fault else Done (set_next l n (set_prev hd n h)))"

definition sys_dlist_insert :: "nat \<Rightarrow> nat \<Rightarrow> dnodes \<Rightarrow> dnodes outcome" where
  "sys_dlist_insert successor n h =
    (let prev = dn_prev h successor; h = set_next n successor (set_prev n prev h)
     in if prev = 0 then Fault else Done (set_prev successor n (set_next prev n h)))"

definition sys_dlist_remove :: "nat \<Rightarrow> dnodes \<Rightarrow> dnodes outcome" where
  "sys_dlist_remove n h =
    (let prev = dn_prev h n; next = dn_next h n
     in if prev = 0 \<or> next = 0 then Fault
        else Done (sys_dnode_init n (set_prev next prev (set_next prev next h))))"

definition sys_dlist_get :: "nat \<Rightarrow> dnodes \<Rightarrow> (nat \<times> dnodes) outcome" where
  "sys_dlist_get l h =
    (if sys_dlist_is_empty l h then Done (0, h)
     else let n = dn_next h l in bind_outcome (sys_dlist_remove n h) (\<lambda>h. Done (n, h)))"

text \<open>Loops over a list run as long as the links lead them.\<close>

partial_function (option) nodes_from :: "nat \<Rightarrow> dnodes \<Rightarrow> nat \<Rightarrow> nat list option" where
  "nodes_from l h n = (if n = 0 then Some [] else Option.bind (nodes_from l h (sys_dlist_peek_next l n h)) (\<lambda>ns. Some (n # ns)))"

definition sys_dlist_nodes :: "nat \<Rightarrow> dnodes \<Rightarrow> nat list option" where
  "sys_dlist_nodes l h = nodes_from l h (sys_dlist_peek_head l h)"

definition sys_dlist_len :: "nat \<Rightarrow> dnodes \<Rightarrow> nat option" where
  "sys_dlist_len l h = map_option length (sys_dlist_nodes l h)"

partial_function (option) insert_position :: "nat \<Rightarrow> (nat \<Rightarrow> bool) \<Rightarrow> dnodes \<Rightarrow> nat \<Rightarrow> nat option" where
  "insert_position l cond h pos =
    (if pos = 0 \<or> cond pos then Some pos else insert_position l cond h (sys_dlist_peek_next l pos h))"

definition sys_dlist_insert_at :: "nat \<Rightarrow> nat \<Rightarrow> (nat \<Rightarrow> bool) \<Rightarrow> dnodes \<Rightarrow> dnodes outcome option" where
  "sys_dlist_insert_at l n cond h =
    (if sys_dlist_is_empty l h then Some (sys_dlist_append l n h)
     else Option.bind (insert_position l cond h (sys_dlist_peek_head l h)) (\<lambda>pos.
       Some (if pos \<noteq> 0 then sys_dlist_insert pos n h else sys_dlist_append l n h)))"

section \<open>Rings and lists\<close>

text \<open>Links in both directions from one address over others to a last one.\<close>

primrec links :: "dnodes \<Rightarrow> nat \<Rightarrow> nat list \<Rightarrow> nat \<Rightarrow> bool" where
  "links h a [] b \<longleftrightarrow> dn_next h a = b \<and> dn_prev h b = a"
| "links h a (x # xs) b \<longleftrightarrow> dn_next h a = x \<and> dn_prev h x = a \<and> links h x xs b"

definition dlist :: "dnodes \<Rightarrow> nat \<Rightarrow> nat list \<Rightarrow> bool" where
  "dlist h l xs \<longleftrightarrow> links h l xs l \<and> distinct (l # xs) \<and> 0 \<notin> set (l # xs)"

lemma links_append [simp]: "links h a (xs @ y # ys) b \<longleftrightarrow> links h a xs y \<and> links h y ys b"
  by (induction xs arbitrary: a) auto

lemma links_same:
  assumes "\<And>x. x \<in> insert a (set xs) \<Longrightarrow> dn_next h' x = dn_next h x" "\<And>x. x \<in> insert b (set xs) \<Longrightarrow> dn_prev h' x = dn_prev h x"
  shows "links h' a xs b = links h a xs b"
  using assms by (induction xs arbitrary: a) auto

lemma links_ends: "links h a xs b \<Longrightarrow> dn_next h a = hd (xs @ [b]) \<and> dn_prev h b = last (a # xs)"
  by (induction xs arbitrary: a) auto

lemma set_next_sel [simp]: "dn_next (set_next n v h) = (dn_next h)(n := v)" "dn_prev (set_next n v h) = dn_prev h"
  and set_prev_sel [simp]: "dn_prev (set_prev n v h) = (dn_prev h)(n := v)" "dn_next (set_prev n v h) = dn_next h"
  by (simp_all add: set_next_def set_prev_def)

text \<open>What changes outside a set of addresses: nothing.\<close>

definition only_at :: "nat set \<Rightarrow> dnodes \<Rightarrow> dnodes \<Rightarrow> bool" where
  "only_at A h h' \<longleftrightarrow> (\<forall>x. x \<notin> A \<longrightarrow> dn_next h' x = dn_next h x \<and> dn_prev h' x = dn_prev h x)"

lemma dlist_frame: "only_at A h h' \<Longrightarrow> set (l # xs) \<inter> A = {} \<Longrightarrow> dlist h' l xs = dlist h l xs"
  unfolding dlist_def by (subst links_same[of l xs h' h l]) (auto simp: only_at_def)

lemma dlist_nodes_less: "dlist h l xs \<Longrightarrow> dn_next h l = hd (xs @ [l]) \<and> dn_prev h l = last (l # xs)"
  using links_ends[of h l xs l] by (simp add: dlist_def)

lemma dlist_init: "l \<noteq> 0 \<Longrightarrow> dlist (sys_dlist_init l h) l [] \<and> only_at {l} h (sys_dlist_init l h)"
  by (simp add: dlist_def sys_dlist_init_def only_at_def)

lemma dlist_unique: "dlist h l xs \<Longrightarrow> dlist h l ys \<Longrightarrow> xs = ys"
proof -
  have "links h a xs l \<Longrightarrow> links h a ys l \<Longrightarrow> l \<notin> set xs \<Longrightarrow> l \<notin> set ys \<Longrightarrow> xs = ys" for a
  proof (induction xs arbitrary: a ys)
    case Nil
    then show ?case by (cases ys) auto
  next
    case (Cons x xs)
    then show ?case by (cases ys) auto
  qed
  then show "dlist h l xs \<Longrightarrow> dlist h l ys \<Longrightarrow> xs = ys" by (auto simp: dlist_def)
qed

section \<open>The operations implement those of lists\<close>

lemma links_set [simp]:
  "u \<notin> insert a (set xs) \<Longrightarrow> links (set_next u v h) a xs b = links h a xs b"
  "u \<notin> insert b (set xs) \<Longrightarrow> links (set_prev u v h) a xs b = links h a xs b"
  by (rule links_same; auto)+

lemma dlist_append:
  assumes "dlist h l xs" "n \<notin> set (l # xs)" "n \<noteq> 0"
  shows "\<exists>h'. sys_dlist_append l n h = Done h' \<and> dlist h' l (xs @ [n]) \<and> only_at (insert n (insert l (set xs))) h h'"
proof (cases xs rule: rev_cases)
  case Nil
  then show ?thesis using assms by (auto simp: dlist_def sys_dlist_append_def Let_def only_at_def)
next
  case (snoc ys p)
  then show ?thesis using assms by (auto simp: dlist_def sys_dlist_append_def Let_def only_at_def)
qed

lemma dlist_prepend:
  assumes "dlist h l xs" "n \<notin> set (l # xs)" "n \<noteq> 0"
  shows "\<exists>h'. sys_dlist_prepend l n h = Done h' \<and> dlist h' l (n # xs) \<and> only_at (insert n (insert l (set xs))) h h'"
  using assms by (cases xs) (auto simp: dlist_def sys_dlist_prepend_def Let_def only_at_def)

lemma dlist_insert:
  assumes "dlist h l (xs @ s # ys)" "n \<notin> set (l # xs @ s # ys)" "n \<noteq> 0"
  shows "\<exists>h'. sys_dlist_insert s n h = Done h' \<and> dlist h' l (xs @ n # s # ys) \<and> only_at (insert n (insert l (set (xs @ s # ys)))) h h'"
proof (cases xs rule: rev_cases)
  case Nil
  then show ?thesis using assms by (auto simp: dlist_def sys_dlist_insert_def Let_def only_at_def)
next
  case (snoc zs p)
  then show ?thesis using assms by (auto simp: dlist_def sys_dlist_insert_def Let_def only_at_def)
qed

lemma links_skip:
  assumes "links h a (xs @ n # ys) b" "distinct (xs @ n # ys)" "a \<notin> set (xs @ n # ys)" "b \<notin> set (xs @ n # ys)"
  shows "links (set_prev (hd (ys @ [b])) (last (a # xs)) (set_next (last (a # xs)) (hd (ys @ [b])) h)) a (xs @ ys) b"
  using assms by (cases xs rule: rev_cases; cases ys) auto

lemma dlist_remove:
  assumes "dlist h l (xs @ n # ys)"
  shows "\<exists>h'. sys_dlist_remove n h = Done h' \<and> dlist h' l (xs @ ys) \<and> \<not> sys_dnode_is_linked n h' \<and> only_at (insert n (insert l (set (xs @ ys)))) h h'"
proof -
  let ?p = "last (l # xs)" and ?s = "hd (ys @ [l])"
  let ?h = "set_prev ?s ?p (set_next ?p ?s h)"
  have d: "links h l (xs @ n # ys) l" "distinct (l # xs @ n # ys)" "0 \<notin> set (l # xs @ n # ys)" using assms by (auto simp: dlist_def)
  have mem: "?p \<in> set (l # xs)" "?s \<in> set (ys @ [l])" by (rule last_in_set, simp) (rule hd_in_set, simp)
  have pn: "dn_prev h n = ?p" "dn_next h n = ?s" using links_ends[of h l xs n] links_ends[of h n ys l] d(1) by auto
  have "?p \<in> set (l # xs @ n # ys)" "?s \<in> set (l # xs @ n # ys)" using mem by auto
  then have "?p \<noteq> 0" "?s \<noteq> 0" using d(3) by metis+
  then have eq: "sys_dlist_remove n h = Done (sys_dnode_init n ?h)" unfolding sys_dlist_remove_def pn Let_def by simp
  have "links ?h l (xs @ ys) l" using d by (intro links_skip) auto
  then have "dlist (sys_dnode_init n ?h) l (xs @ ys)" using d by (auto simp: dlist_def sys_dnode_init_def)
  then show ?thesis using eq mem by (auto simp: sys_dnode_is_linked_def sys_dnode_init_def only_at_def)
qed

lemma dlist_get:
  assumes "dlist h l xs"
  shows "case xs of [] \<Rightarrow> sys_dlist_get l h = Done (0, h)
    | n # ys \<Rightarrow> \<exists>h'. sys_dlist_get l h = Done (n, h') \<and> dlist h' l ys \<and> \<not> sys_dnode_is_linked n h' \<and> only_at (insert n (insert l (set ys))) h h'"
proof (cases xs)
  case Nil
  then show ?thesis using assms by (simp add: dlist_def sys_dlist_get_def sys_dlist_is_empty_def)
next
  case (Cons n ys)
  then have "dn_next h l = n" "n \<noteq> l" using assms by (auto simp: dlist_def)
  then show ?thesis using dlist_remove[of h l "[]" n ys] assms Cons by (auto simp: sys_dlist_get_def sys_dlist_is_empty_def)
qed

section \<open>Looking and walking\<close>

lemma dlist_peek:
  assumes "dlist h l xs"
  shows "sys_dlist_is_empty l h \<longleftrightarrow> xs = []" "sys_dlist_peek_head l h = (if xs = [] then 0 else hd xs)"
    "sys_dlist_peek_tail l h = (if xs = [] then 0 else last xs)" "sys_dlist_has_multiple_nodes l h \<longleftrightarrow> 2 \<le> length xs"
proof -
  have e: "dn_next h l = hd (xs @ [l])" "dn_prev h l = last (l # xs)" using dlist_nodes_less[OF assms] by auto
  have d: "distinct (l # xs)" using assms by (simp add: dlist_def)
  show em: "sys_dlist_is_empty l h \<longleftrightarrow> xs = []" using e d by (cases xs) (auto simp: sys_dlist_is_empty_def)
  show "sys_dlist_peek_head l h = (if xs = [] then 0 else hd xs)" "sys_dlist_peek_tail l h = (if xs = [] then 0 else last xs)"
    using e by (simp_all add: sys_dlist_peek_head_def sys_dlist_peek_tail_def em)
  show "sys_dlist_has_multiple_nodes l h \<longleftrightarrow> 2 \<le> length xs"
    using e d by (cases xs; cases "tl xs" rule: rev_cases) (auto simp: sys_dlist_has_multiple_nodes_def)
qed

lemma dlist_peek_next:
  assumes "dlist h l (xs @ n # ys)"
  shows "sys_dlist_peek_next l n h = (if ys = [] then 0 else hd ys)" "sys_dlist_peek_prev l n h = (if xs = [] then 0 else last xs)"
    "sys_dnode_is_linked n h"
proof -
  have d: "distinct (l # xs @ n # ys)" "0 \<notin> set (l # xs @ n # ys)" "links h l xs n" "links h n ys l" using assms by (auto simp: dlist_def)
  have e: "dn_next h l = hd (xs @ [n])" "dn_prev h n = last (l # xs)" "dn_next h n = hd (ys @ [l])" "dn_prev h l = last (n # ys)"
    using links_ends[OF d(3)] links_ends[OF d(4)] by auto
  show "sys_dlist_peek_next l n h = (if ys = [] then 0 else hd ys)"
    using d e by (cases ys rule: rev_cases) (auto simp: sys_dlist_peek_next_def sys_dlist_peek_next_no_check_def hd_append)
  show "sys_dlist_peek_prev l n h = (if xs = [] then 0 else last xs)"
    using d e by (cases xs) (auto simp: sys_dlist_peek_prev_def sys_dlist_peek_prev_no_check_def hd_append)
  show "sys_dnode_is_linked n h" using d e by (cases ys) (auto simp: sys_dnode_is_linked_def)
qed

lemma nodes_from_suffix: "dlist h l (xs @ ys) \<Longrightarrow> nodes_from l h (if ys = [] then 0 else hd ys) = Some ys"
proof (induction ys arbitrary: xs)
  case Nil
  then show ?case by (simp add: nodes_from.simps)
next
  case (Cons y ys)
  have "y \<noteq> 0" using Cons.prems by (auto simp: dlist_def)
  then show ?case using Cons.IH[of "xs @ [y]"] Cons.prems dlist_peek_next(1)[OF Cons.prems] by (subst nodes_from.simps) simp
qed

lemma dlist_walk: "dlist h l xs \<Longrightarrow> sys_dlist_nodes l h = Some xs \<and> sys_dlist_len l h = Some (length xs)"
  using nodes_from_suffix[of h l "[]" xs] dlist_peek(2)[of h l xs] by (simp add: sys_dlist_nodes_def sys_dlist_len_def)

section \<open>Many lists in one heap\<close>

text \<open>The operations as commands, and what they mean for a collection of lists that share no node.\<close>

datatype dl_op = Init nat | Append nat nat | Prepend nat nat | Insert nat nat | Remove nat

fun run_op :: "dl_op \<Rightarrow> dnodes \<Rightarrow> dnodes outcome" where
  "run_op (Init l) h = Done (sys_dlist_init l h)"
| "run_op (Append l n) h = sys_dlist_append l n h"
| "run_op (Prepend l n) h = sys_dlist_prepend l n h"
| "run_op (Insert s n) h = sys_dlist_insert s n h"
| "run_op (Remove n) h = sys_dlist_remove n h"

fun run_ops :: "dl_op list \<Rightarrow> dnodes \<Rightarrow> dnodes outcome" where
  "run_ops [] h = Done h"
| "run_ops (c # cs) h = bind_outcome (run_op c h) (run_ops cs)"

definition nodes_of :: "(nat \<rightharpoonup> nat list) \<Rightarrow> nat set" where
  "nodes_of L = (\<Union>(l, xs)\<in>Map.graph L. insert l (set xs))"

inductive list_op :: "(nat \<rightharpoonup> nat list) \<Rightarrow> dl_op \<Rightarrow> (nat \<rightharpoonup> nat list) \<Rightarrow> bool" where
  list_init: "l \<noteq> 0 \<Longrightarrow> l \<notin> nodes_of L \<Longrightarrow> list_op L (Init l) (L(l \<mapsto> []))"
| list_append: "L l = Some xs \<Longrightarrow> n \<noteq> 0 \<Longrightarrow> n \<notin> nodes_of L \<Longrightarrow> list_op L (Append l n) (L(l \<mapsto> xs @ [n]))"
| list_prepend: "L l = Some xs \<Longrightarrow> n \<noteq> 0 \<Longrightarrow> n \<notin> nodes_of L \<Longrightarrow> list_op L (Prepend l n) (L(l \<mapsto> n # xs))"
| list_insert: "L l = Some (xs @ s # ys) \<Longrightarrow> n \<noteq> 0 \<Longrightarrow> n \<notin> nodes_of L \<Longrightarrow> list_op L (Insert s n) (L(l \<mapsto> xs @ n # s # ys))"
| list_remove: "L l = Some (xs @ n # ys) \<Longrightarrow> list_op L (Remove n) (L(l \<mapsto> xs @ ys))"

inductive list_ops :: "(nat \<rightharpoonup> nat list) \<Rightarrow> dl_op list \<Rightarrow> (nat \<rightharpoonup> nat list) \<Rightarrow> bool" where
  list_ops_Nil: "list_ops L [] L"
| list_ops_Cons: "list_op L c L' \<Longrightarrow> list_ops L' cs L'' \<Longrightarrow> list_ops L (c # cs) L''"

definition holds_lists :: "dnodes \<Rightarrow> (nat \<rightharpoonup> nat list) \<Rightarrow> bool" where
  "holds_lists h L \<longleftrightarrow> (\<forall>l xs. L l = Some xs \<longrightarrow> dlist h l xs)
     \<and> (\<forall>l xs m ys. L l = Some xs \<and> L m = Some ys \<and> l \<noteq> m \<longrightarrow> set (l # xs) \<inter> set (m # ys) = {})"

lemma in_nodes_of: "x \<in> nodes_of L \<longleftrightarrow> (\<exists>l xs. L l = Some xs \<and> x \<in> set (l # xs))"
  by (auto simp: nodes_of_def Map.graph_def)

lemma fresh_node: "L l = Some xs \<Longrightarrow> n \<notin> nodes_of L \<Longrightarrow> n \<notin> set (l # xs)"
  unfolding in_nodes_of by blast

lemma holds_listsD: "holds_lists h L \<Longrightarrow> L l = Some xs \<Longrightarrow> dlist h l xs"
  by (simp add: holds_lists_def)

text \<open>One list changes, inside itself and fresh nodes.\<close>

lemma holds_lists_update:
  assumes "holds_lists h L" "dlist h' l ys" "only_at A h h'" "\<And>m zs. L m = Some zs \<Longrightarrow> m \<noteq> l \<Longrightarrow> set (m # zs) \<inter> (A \<union> set (l # ys)) = {}"
  shows "holds_lists h' (L(l \<mapsto> ys))"
proof -
  have "dlist h' m zs" if "L m = Some zs" "m \<noteq> l" for m zs
    using dlist_frame[OF assms(3), of m zs] assms(1,4) that unfolding holds_lists_def by blast
  moreover have "set (m # zs) \<inter> set (l # ys) = {}" "set (l # ys) \<inter> set (m # zs) = {}" if "L m = Some zs" "m \<noteq> l" for m zs
    using assms(4)[OF that] by blast+
  ultimately show ?thesis using assms(1,2) unfolding holds_lists_def by (simp del: list.set)
qed

lemma holds_lists_change:
  assumes "holds_lists h L" "L l = Some xs" "n \<in> set xs \<or> n \<notin> nodes_of L" "set zs \<subseteq> set xs" "set ys \<subseteq> insert n (set xs)"
    "dlist h' l ys" "only_at (insert n (insert l (set zs))) h h'"
  shows "holds_lists h' (L(l \<mapsto> ys))"
proof (rule holds_lists_update[OF assms(1,6,7)])
  fix m us assume m: "L m = Some us" "m \<noteq> l"
  then have "set (m # us) \<inter> set (l # xs) = {}" using assms(1,2) unfolding holds_lists_def by blast
  moreover have "n \<in> set xs \<or> n \<notin> set (m # us)" using assms(3) m(1) by (auto simp: in_nodes_of)
  ultimately show "set (m # us) \<inter> (insert n (insert l (set zs)) \<union> set (l # ys)) = {}" using assms(4,5) by auto
qed

lemma run_op_refines:
  assumes "holds_lists h L" "list_op L c L'"
  shows "\<exists>h'. run_op c h = Done h' \<and> holds_lists h' L'"
  using assms(2)
proof cases
  case (list_init l)
  show ?thesis unfolding list_init(1,2) using dlist_init[OF list_init(3), of h] list_init(4)
    by (auto simp: in_nodes_of intro!: holds_lists_update[OF assms(1)])
next
  case (list_append l xs n)
  note d = holds_listsD[OF assms(1) list_append(3)] fresh_node[OF list_append(3,5)]
  obtain h' where h': "sys_dlist_append l n h = Done h'" "dlist h' l (xs @ [n])" "only_at (insert n (insert l (set xs))) h h'"
    using dlist_append[OF d list_append(4)] by blast
  have "holds_lists h' L'" unfolding list_append(2)
    by (rule holds_lists_change[OF assms(1) list_append(3) _ _ _ h'(2,3)]) (use list_append in auto)
  then show ?thesis using h'(1) by (simp add: list_append(1))
next
  case (list_prepend l xs n)
  note d = holds_listsD[OF assms(1) list_prepend(3)] fresh_node[OF list_prepend(3,5)]
  obtain h' where h': "sys_dlist_prepend l n h = Done h'" "dlist h' l (n # xs)" "only_at (insert n (insert l (set xs))) h h'"
    using dlist_prepend[OF d list_prepend(4)] by blast
  have "holds_lists h' L'" unfolding list_prepend(2)
    by (rule holds_lists_change[OF assms(1) list_prepend(3) _ _ _ h'(2,3)]) (use list_prepend in auto)
  then show ?thesis using h'(1) by (simp add: list_prepend(1))
next
  case (list_insert l xs s ys n)
  note d = holds_listsD[OF assms(1) list_insert(3)] fresh_node[OF list_insert(3,5)]
  obtain h' where h': "sys_dlist_insert s n h = Done h'" "dlist h' l (xs @ n # s # ys)" "only_at (insert n (insert l (set (xs @ s # ys)))) h h'"
    using dlist_insert[OF d list_insert(4)] by blast
  have "holds_lists h' L'" unfolding list_insert(2)
    by (rule holds_lists_change[OF assms(1) list_insert(3) _ _ _ h'(2,3)]) (use list_insert in auto)
  then show ?thesis using h'(1) by (simp add: list_insert(1))
next
  case (list_remove l xs n ys)
  note d = holds_listsD[OF assms(1) list_remove(3)]
  obtain h' where h': "sys_dlist_remove n h = Done h'" "dlist h' l (xs @ ys)" "only_at (insert n (insert l (set (xs @ ys)))) h h'"
    using dlist_remove[OF d] by blast
  have "holds_lists h' L'" unfolding list_remove(2)
    by (rule holds_lists_change[OF assms(1) list_remove(3) _ _ _ h'(2,3)]) (use list_remove in auto)
  then show ?thesis using h'(1) by (simp add: list_remove(1))
qed

lemma run_ops_refine: "list_ops L cs L' \<Longrightarrow> holds_lists h L \<Longrightarrow> \<exists>h'. run_ops cs h = Done h' \<and> holds_lists h' L'"
proof (induction arbitrary: h rule: list_ops.induct)
  case (list_ops_Nil L)
  then show ?case by simp
next
  case (list_ops_Cons L c L' cs L'')
  then show ?case using run_op_refines[OF list_ops_Cons.prems list_ops_Cons.hyps(1)] by fastforce
qed

text \<open>
  C27: The linked lists of the kernel are lists. Start from any heap without lists and initialise, extend and shorten
  any number of lists, each operation used as its list allows: a node is added only while it is in no list, and only a
  linked node is removed or inserted in front of. Then no operation follows a null pointer, and the loop over each list, forward over the links,
  ends and meets exactly the nodes of the list in its order; the length is the number of nodes.
\<close>

theorem dlist_refines_lists:
  assumes "list_ops Map.empty cs L" "L l = Some xs"
  shows "\<exists>h'. run_ops cs h = Done h' \<and> sys_dlist_nodes l h' = Some xs \<and> sys_dlist_len l h' = Some (length xs)
    \<and> sys_dlist_peek_head l h' = (if xs = [] then 0 else hd xs) \<and> sys_dlist_peek_tail l h' = (if xs = [] then 0 else last xs)
    \<and> (\<forall>n\<in>set xs. sys_dnode_is_linked n h')"
proof -
  have "holds_lists h Map.empty" by (simp add: holds_lists_def)
  then obtain h' where h': "run_ops cs h = Done h'" "holds_lists h' L" using run_ops_refine[OF assms(1)] by blast
  then have d: "dlist h' l xs" using assms(2) by (simp add: holds_lists_def)
  moreover have "sys_dnode_is_linked n h'" if "n \<in> set xs" for n
    using dlist_peek_next(3) d split_list[OF that] by blast
  ultimately show ?thesis using h'(1) dlist_walk[OF d] dlist_peek[OF d] by auto
qed

text \<open>Nodes 1 to 4 are put into the lists at 10 and 20; one moves from the first to the second.\<close>

theorem dlist_refines_lists_witness:
  "\<exists>h'. run_ops [Init 10, Append 10 1, Append 10 2, Init 20, Prepend 20 3, Insert 3 4, Remove 1, Append 20 1] \<lparr>dn_next = (\<lambda>_. 0), dn_prev = (\<lambda>_. 0)\<rparr>
     = Done h' \<and> sys_dlist_nodes 20 h' = Some [4, 3, 1]"
proof -
  let ?L = "[10 \<mapsto> [2], 20 \<mapsto> [4, 3, 1 :: nat]]"
  have "list_ops Map.empty [Init 10, Append 10 1, Append 10 2, Init 20, Prepend 20 3, Insert 3 4, Remove 1, Append 20 1] ?L"
  proof -
    have 1: "list_op Map.empty (Init 10) [10 \<mapsto> []]" by (rule list_init) (auto simp: in_nodes_of)
    have 2: "list_op [10 \<mapsto> []] (Append 10 1) [10 \<mapsto> [1]]" using list_append[of "[10 \<mapsto> []]" 10 "[]" 1] by (auto simp: in_nodes_of)
    have 3: "list_op [10 \<mapsto> [1]] (Append 10 2) [10 \<mapsto> [1, 2]]" using list_append[of "[10 \<mapsto> [1]]" 10 "[1]" 2] by (auto simp: in_nodes_of)
    have 4: "list_op [10 \<mapsto> [1, 2]] (Init 20) [10 \<mapsto> [1, 2], 20 \<mapsto> []]" by (rule list_init) (auto simp: in_nodes_of)
    have 5: "list_op [10 \<mapsto> [1, 2], 20 \<mapsto> []] (Prepend 20 3) [10 \<mapsto> [1, 2], 20 \<mapsto> [3]]"
      using list_prepend[of "[10 \<mapsto> [1, 2], 20 \<mapsto> []]" 20 "[]" 3] by (auto simp: in_nodes_of split: if_splits)
    have 6: "list_op [10 \<mapsto> [1, 2], 20 \<mapsto> [3]] (Insert 3 4) [10 \<mapsto> [1, 2], 20 \<mapsto> [4, 3]]"
      using list_insert[of "[10 \<mapsto> [1, 2], 20 \<mapsto> [3]]" 20 "[]" 3 "[]" 4] by (auto simp: in_nodes_of split: if_splits)
    have 7: "list_op [10 \<mapsto> [1, 2], 20 \<mapsto> [4, 3]] (Remove 1) [10 \<mapsto> [2], 20 \<mapsto> [4, 3]]"
      using list_remove[of "[10 \<mapsto> [1, 2], 20 \<mapsto> [4, 3]]" 10 "[]" 1 "[2]"] by (simp add: fun_upd_twist)
    have 8: "list_op [10 \<mapsto> [2], 20 \<mapsto> [4, 3]] (Append 20 1) ?L"
      using list_append[of "[10 \<mapsto> [2], 20 \<mapsto> [4, 3]]" 20 "[4, 3]" 1] by (auto simp: in_nodes_of split: if_splits)
    show ?thesis by (rule list_ops_Cons[OF 1] list_ops_Cons[OF 2] list_ops_Cons[OF 3] list_ops_Cons[OF 4] list_ops_Cons[OF 5] list_ops_Cons[OF 6]
        list_ops_Cons[OF 7] list_ops_Cons[OF 8] list_ops_Nil)+
  qed
  from dlist_refines_lists[OF this, of 20 "[4, 3, 1]" "\<lparr>dn_next = (\<lambda>_. 0), dn_prev = (\<lambda>_. 0)\<rparr>"] show ?thesis by auto
qed

end
