(* ===== verification/Timeout_Q.thy ===== *)
theory Timeout_Q
  imports Sys_Dlist
begin

text \<open>
  The timeouts of the kernel (\<^verbatim>\<open>kernel/timeout.c\<close>) on the linked lists of \<^verbatim>\<open>Sys_Dlist\<close>, with CONFIG_TIMEOUT_64BIT, which is the
  default. A timeout is known by the address of its node and holds the ticks behind its predecessor in the list. The
  counter of the clock driver (\<^verbatim>\<open>sys_clock_elapsed\<close>) and the time it was last programmed with are part of the state.
  Ticks are integers; the one sum that can leave 64 bits faults.
\<close>

record timeouts =
  tq_nodes :: dnodes
  timeout_list :: nat
  dticks :: "nat \<Rightarrow> int"
  timeout_fn :: "nat \<Rightarrow> nat"
  curr_tick :: int
  announce_remaining :: int
  sys_clock_elapsed :: int
  programmed :: "int option"
  CONFIG_SMP :: bool
  CONFIG_SYSTEM_CLOCK_SLOPPY_IDLE :: bool

definition K_TICKS_FOREVER :: int where "K_TICKS_FOREVER = -1"
definition Z_TICK_ABS :: "int \<Rightarrow> int" where "Z_TICK_ABS t = K_TICKS_FOREVER - 1 - t"
definition INT_MAX :: int where "INT_MAX = 2 ^ 31 - 1"

definition MAX_WAIT :: "timeouts \<Rightarrow> int" where
  "MAX_WAIT s = (if CONFIG_SYSTEM_CLOCK_SLOPPY_IDLE s then K_TICKS_FOREVER else INT_MAX)"

definition first :: "timeouts \<Rightarrow> nat" where
  "first s = sys_dlist_peek_head (timeout_list s) (tq_nodes s)"

definition next_of :: "nat \<Rightarrow> timeouts \<Rightarrow> nat" where
  "next_of t s = sys_dlist_peek_next (timeout_list s) t (tq_nodes s)"

definition set_dticks :: "nat \<Rightarrow> int \<Rightarrow> timeouts \<Rightarrow> timeouts" where
  "set_dticks t d s = s\<lparr>dticks := (dticks s)(t := d)\<rparr>"

definition remove_timeout :: "nat \<Rightarrow> timeouts \<Rightarrow> timeouts outcome" where
  "remove_timeout t s =
    (let n = next_of t s; s = (if n \<noteq> 0 then set_dticks n (dticks s n + dticks s t) s else s)
     in bind_outcome (sys_dlist_remove t (tq_nodes s)) (\<lambda>h. Done (s\<lparr>tq_nodes := h\<rparr>)))"

definition elapsed :: "timeouts \<Rightarrow> int" where
  "elapsed s = (if announce_remaining s = 0 then sys_clock_elapsed s else 0)"

definition next_timeout :: "timeouts \<Rightarrow> int" where
  "next_timeout s =
    (let t = first s
     in if t = 0 \<or> INT_MAX < dticks s t - elapsed s then MAX_WAIT s else max 0 (dticks s t - elapsed s))"

definition sys_clock_set_timeout :: "int \<Rightarrow> timeouts \<Rightarrow> timeouts" where
  "sys_clock_set_timeout ticks s = s\<lparr>programmed := Some ticks\<rparr>"

text \<open>The loop that looks for the place of a new timeout; the ticks of the new one become those behind the last one passed.\<close>

partial_function (option) add_loop :: "nat \<Rightarrow> nat \<Rightarrow> timeouts \<Rightarrow> timeouts outcome option" where
  "add_loop new t s =
    (if t = 0 then Some (bind_outcome (sys_dlist_append (timeout_list s) new (tq_nodes s)) (\<lambda>h. Done (s\<lparr>tq_nodes := h\<rparr>)))
     else if dticks s new < dticks s t
     then Some (bind_outcome (sys_dlist_insert t new (tq_nodes s)) (\<lambda>h. Done ((set_dticks t (dticks s t - dticks s new) s)\<lparr>tq_nodes := h\<rparr>)))
     else add_loop new (next_of t s) (set_dticks new (dticks s new - dticks s t) s))"

definition new_ticks :: "int \<Rightarrow> timeouts \<Rightarrow> int" where
  "new_ticks ticks s =
    (if 0 \<le> Z_TICK_ABS ticks then max 1 (Z_TICK_ABS ticks - curr_tick s) else ticks + 1 + elapsed s)"

definition z_add_timeout :: "nat \<Rightarrow> nat \<Rightarrow> int \<Rightarrow> timeouts \<Rightarrow> timeouts outcome option" where
  "z_add_timeout new fn ticks s =
    (if ticks = K_TICKS_FOREVER then Some (Done s)
     else if sys_dnode_is_linked new (tq_nodes s) then Some Assertion
     else if 2 ^ 63 \<le> new_ticks ticks s then Some Fault
     else let s = set_dticks new (new_ticks ticks s) (s\<lparr>timeout_fn := (timeout_fn s)(new := fn)\<rparr>)
          in Option.bind (add_loop new (first s) s) (\<lambda>r. Some (bind_outcome r (\<lambda>s.
               Done (if new = first s \<and> announce_remaining s = 0 then sys_clock_set_timeout (next_timeout s) s else s)))))"

definition z_abort_timeout :: "nat \<Rightarrow> timeouts \<Rightarrow> (int \<times> timeouts) outcome" where
  "z_abort_timeout t s =
    (if sys_dnode_is_linked t (tq_nodes s) then bind_outcome (remove_timeout t s) (\<lambda>s. Done (0, s)) else Done (- EINVAL, s))"

definition z_is_inactive_timeout :: "nat \<Rightarrow> timeouts \<Rightarrow> bool" where
  "z_is_inactive_timeout t s \<longleftrightarrow> \<not> sys_dnode_is_linked t (tq_nodes s)"

partial_function (option) rem_loop :: "nat \<Rightarrow> nat \<Rightarrow> int \<Rightarrow> timeouts \<Rightarrow> int option" where
  "rem_loop timeout t ticks s =
    (if t = 0 then Some ticks
     else let ticks = ticks + dticks s t in if timeout = t then Some ticks else rem_loop timeout (next_of t s) ticks s)"

definition timeout_rem :: "nat \<Rightarrow> timeouts \<Rightarrow> int option" where
  "timeout_rem timeout s = rem_loop timeout (first s) 0 s"

definition z_timeout_remaining :: "nat \<Rightarrow> timeouts \<Rightarrow> int option" where
  "z_timeout_remaining timeout s =
    (if z_is_inactive_timeout timeout s then Some 0 else map_option (\<lambda>r. r - elapsed s) (timeout_rem timeout s))"

definition z_timeout_expires :: "nat \<Rightarrow> timeouts \<Rightarrow> int option" where
  "z_timeout_expires timeout s =
    (if z_is_inactive_timeout timeout s then Some (curr_tick s) else map_option (\<lambda>r. curr_tick s + r) (timeout_rem timeout s))"

definition z_get_next_timeout_expiry :: "timeouts \<Rightarrow> int" where
  "z_get_next_timeout_expiry s = next_timeout s"

definition sys_clock_tick_get :: "timeouts \<Rightarrow> int" where
  "sys_clock_tick_get s = curr_tick s + elapsed s"

text \<open>Points in time for waiting in several steps.\<close>

definition UINT64_MAX :: int where "UINT64_MAX = 2 ^ 64 - 1"

definition sys_timepoint_calc :: "int \<Rightarrow> timeouts \<Rightarrow> int" where
  "sys_timepoint_calc ticks s =
    (if ticks = K_TICKS_FOREVER then UINT64_MAX
     else if ticks = 0 then 0
     else if 0 \<le> Z_TICK_ABS ticks then Z_TICK_ABS ticks
     else sys_clock_tick_get s + max 1 ticks)"

definition sys_timepoint_timeout :: "int \<Rightarrow> timeouts \<Rightarrow> int" where
  "sys_timepoint_timeout tick s =
    (if tick = UINT64_MAX then K_TICKS_FOREVER
     else if tick = 0 then 0
     else let now = sys_clock_tick_get s in if now < tick then tick - now else 0)"

text \<open>
  The announcement of ticks by the clock driver. \<^verbatim>\<open>cb\<close> runs the function of a timeout, without the lock; it works on the rest
  of the kernel, of type \<^typ>\<open>'w\<close>, and may add and abort timeouts.
\<close>

partial_function (option) announce_loop :: "(nat \<Rightarrow> nat \<Rightarrow> 'w \<times> timeouts \<Rightarrow> ('w \<times> timeouts) outcome) \<Rightarrow> 'w \<Rightarrow> timeouts \<Rightarrow> ('w \<times> timeouts) outcome option" where
  "announce_loop cb w s =
    (let t = first s
     in if t \<noteq> 0 \<and> dticks s t \<le> announce_remaining s
        then let dt = dticks s t
             in case remove_timeout t (set_dticks t 0 (s\<lparr>curr_tick := curr_tick s + dt\<rparr>)) of
                  Done s1 \<Rightarrow> (case cb (timeout_fn s1 t) t (w, s1) of
                      Done r \<Rightarrow> announce_loop cb (fst r) ((snd r)\<lparr>announce_remaining := announce_remaining (snd r) - dt\<rparr>)
                    | Fault \<Rightarrow> Some Fault
                    | Assertion \<Rightarrow> Some Assertion)
                | Fault \<Rightarrow> Some Fault
                | Assertion \<Rightarrow> Some Assertion
        else Some (Done (w, s)))"

definition announce_rest :: "timeouts \<Rightarrow> timeouts" where
  "announce_rest s =
    (let t = first s;
         s = (if t \<noteq> 0 then set_dticks t (dticks s t - announce_remaining s) s else s);
         s = s\<lparr>curr_tick := curr_tick s + announce_remaining s, announce_remaining := 0\<rparr>
     in sys_clock_set_timeout (next_timeout s) s)"

definition sys_clock_announce :: "(nat \<Rightarrow> nat \<Rightarrow> 'w \<times> timeouts \<Rightarrow> ('w \<times> timeouts) outcome) \<Rightarrow> int \<Rightarrow> 'w \<Rightarrow> timeouts \<Rightarrow> ('w \<times> timeouts) outcome option" where
  "sys_clock_announce cb ticks w s =
    (if CONFIG_SMP s \<and> announce_remaining s \<noteq> 0 then Some (Done (w, s\<lparr>announce_remaining := announce_remaining s + ticks\<rparr>))
     else Option.bind (announce_loop cb w (s\<lparr>announce_remaining := ticks\<rparr>)) (\<lambda>r.
       Some (bind_outcome r (\<lambda>(w, s). Done (w, announce_rest s)))))"

end
