(* ===== verification/Timeout_Q_Props.thy ===== *)
theory Timeout_Q_Props
  imports Timeout_Q
begin

text \<open>
  The queue of differences as an agenda: a list of timeouts with the ticks at which they expire, in order. Adding,
  aborting and announcing are operations on the agenda.
\<close>

section \<open>Agendas\<close>

primrec deltas :: "(nat \<Rightarrow> int) \<Rightarrow> int \<Rightarrow> (nat \<times> int) list \<Rightarrow> bool" where
  "deltas d c [] \<longleftrightarrow> True"
| "deltas d c (x # ag) \<longleftrightarrow> d (fst x) = snd x - c \<and> c \<le> snd x \<and> deltas d (snd x) ag"

definition agenda :: "timeouts \<Rightarrow> (nat \<times> int) list \<Rightarrow> bool" where
  "agenda s ag \<longleftrightarrow> dlist (tq_nodes s) (timeout_list s) (map fst ag) \<and> deltas (dticks s) (curr_tick s) ag"

text \<open>A new entry comes behind all that expire no later.\<close>

definition schedule :: "nat \<times> int \<Rightarrow> (nat \<times> int) list \<Rightarrow> (nat \<times> int) list" where
  "schedule x ag = takeWhile (\<lambda>y. snd y \<le> snd x) ag @ x # dropWhile (\<lambda>y. snd y \<le> snd x) ag"

lemma schedule_simps [simp]:
  "schedule x [] = [x]"
  "schedule x (y # ag) = (if snd y \<le> snd x then y # schedule x ag else x # y # ag)"
  by (simp_all add: schedule_def)

lemma set_schedule [simp]: "set (schedule x ag) = insert x (set ag)"
  by (induction ag) auto

lemma deltas_cong: "(\<And>x. x \<in> fst ` set ag \<Longrightarrow> d' x = d x) \<Longrightarrow> deltas d' c ag = deltas d c ag"
  by (induction ag arbitrary: c) auto

lemma deltas_other [simp]: "n \<notin> fst ` set ag \<Longrightarrow> deltas (d(n := v)) c ag = deltas d c ag"
  by (rule deltas_cong) auto

lemma deltas_sorted: "deltas d c ag \<Longrightarrow> sorted (map snd ag) \<and> (\<forall>x\<in>set ag. c \<le> snd x)"
  by (induction ag arbitrary: c) fastforce+

lemma set_dticks_sel [simp]:
  "dticks (set_dticks t d s) = (dticks s)(t := d)" "tq_nodes (set_dticks t d s) = tq_nodes s" "timeout_list (set_dticks t d s) = timeout_list s"
  "curr_tick (set_dticks t d s) = curr_tick s" "announce_remaining (set_dticks t d s) = announce_remaining s" "timeout_fn (set_dticks t d s) = timeout_fn s"
  "sys_clock_elapsed (set_dticks t d s) = sys_clock_elapsed s" "CONFIG_SMP (set_dticks t d s) = CONFIG_SMP s"
  by (simp_all add: set_dticks_def)

section \<open>Adding\<close>

text \<open>Everything but the links and ticks of a queue.\<close>

definition same_clock :: "timeouts \<Rightarrow> timeouts \<Rightarrow> bool" where
  "same_clock s s' \<longleftrightarrow> timeout_list s' = timeout_list s \<and> curr_tick s' = curr_tick s \<and> announce_remaining s' = announce_remaining s
     \<and> sys_clock_elapsed s' = sys_clock_elapsed s \<and> CONFIG_SMP s' = CONFIG_SMP s \<and> timeout_fn s' = timeout_fn s"

lemma add_loop_correct:
  assumes "dlist (tq_nodes s) (timeout_list s) (map fst (pre @ post))" "new \<notin> set (timeout_list s # map fst (pre @ post))" "new \<noteq> 0"
    "deltas (dticks s) c post" "dticks s new = e - c" "c \<le> e"
  shows "\<exists>s'. add_loop new (if post = [] then 0 else fst (hd post)) s = Some (Done s')
    \<and> dlist (tq_nodes s') (timeout_list s) (map fst (pre @ schedule (new, e) post)) \<and> deltas (dticks s') c (schedule (new, e) post)
    \<and> (\<forall>x. x \<notin> insert new (fst ` set post) \<longrightarrow> dticks s' x = dticks s x) \<and> same_clock s s'
    \<and> only_at (insert new (insert (timeout_list s) (set (map fst (pre @ post))))) (tq_nodes s) (tq_nodes s')"
  using assms
proof (induction post arbitrary: pre c s)
  case Nil
  obtain h where "sys_dlist_append (timeout_list s) new (tq_nodes s) = Done h" "dlist h (timeout_list s) (map fst pre @ [new])"
    "only_at (insert new (insert (timeout_list s) (set (map fst pre)))) (tq_nodes s) h"
    using dlist_append[of "tq_nodes s" "timeout_list s" "map fst pre" new] Nil.prems(1-3) by auto
  then show ?case using Nil.prems by (subst add_loop.simps) (auto simp: same_clock_def)
next
  case (Cons y ys)
  obtain t et where y: "y = (t, et)" by force
  have t: "t \<noteq> 0" "t \<noteq> new" "t \<notin> fst ` set ys" "dlist (tq_nodes s) (timeout_list s) (map fst pre @ t # map fst ys)"
    using Cons.prems(1,2) by (auto simp: y dlist_def)
  have dt: "dticks s t = et - c" "c \<le> et" "deltas (dticks s) et ys" using Cons.prems(4) by (auto simp: y)
  show ?case
  proof (cases "dticks s new < dticks s t")
    case True
    obtain h where "sys_dlist_insert t new (tq_nodes s) = Done h" "dlist h (timeout_list s) (map fst pre @ new # t # map fst ys)"
      "only_at (insert new (insert (timeout_list s) (set (map fst pre @ t # map fst ys)))) (tq_nodes s) h"
      using dlist_insert[OF t(4), of new] Cons.prems(2,3) by (auto simp: y)
    then show ?thesis using True t dt Cons.prems(2,5,6) by (subst add_loop.simps) (auto simp: y same_clock_def)
  next
    case False
    let ?s = "set_dticks new (dticks s new - dticks s t) s"
    have nx: "next_of t s = (if ys = [] then 0 else fst (hd ys))" using dlist_peek_next(1)[OF t(4)] by (auto simp: next_of_def hd_map)
    have new: "new \<notin> fst ` set ys" using Cons.prems(2) by auto
    have prems: "dlist (tq_nodes ?s) (timeout_list ?s) (map fst ((pre @ [y]) @ ys))" "new \<notin> set (timeout_list ?s # map fst ((pre @ [y]) @ ys))"
      "deltas (dticks ?s) et ys" "dticks ?s new = e - et" "et \<le> e"
      using Cons.prems(1,2,5,6) False dt new by (auto simp del: fun_upd_apply) (auto simp: y)
    obtain s' where s': "add_loop new (if ys = [] then 0 else fst (hd ys)) ?s = Some (Done s')"
      "dlist (tq_nodes s') (timeout_list s) (map fst ((pre @ [y]) @ schedule (new, e) ys))" "deltas (dticks s') et (schedule (new, e) ys)"
      "\<forall>x. x \<notin> insert new (fst ` set ys) \<longrightarrow> dticks s' x = dticks ?s x" "same_clock ?s s'"
      "only_at (insert new (insert (timeout_list s) (set (map fst (pre @ y # ys))))) (tq_nodes s) (tq_nodes s')"
      using Cons.IH[OF prems(1,2) Cons.prems(3) prems(3-5)] by auto
    then show ?thesis using False t dt Cons.prems(5) by (subst add_loop.simps) (auto simp: y nx same_clock_def)
  qed
qed

lemma first_agenda: "agenda s ag \<Longrightarrow> first s = (if ag = [] then 0 else fst (hd ag))"
  using dlist_peek(2)[of "tq_nodes s" "timeout_list s" "map fst ag"] by (simp add: agenda_def first_def hd_map)

lemma agenda_linked: "agenda s ag \<Longrightarrow> x \<in> fst ` set ag \<Longrightarrow> sys_dnode_is_linked x (tq_nodes s) \<and> x \<noteq> 0"
proof -
  assume a: "agenda s ag" "x \<in> fst ` set ag"
  then obtain us vs where "map fst ag = us @ x # vs" using split_list[of x "map fst ag"] by auto
  then have d: "dlist (tq_nodes s) (timeout_list s) (us @ x # vs)" using a(1) by (simp add: agenda_def)
  then show ?thesis using dlist_peek_next(3)[OF d] by (auto simp: dlist_def)
qed

lemma agenda_distinct: "agenda s ag \<Longrightarrow> distinct (map fst ag)"
  by (simp add: agenda_def dlist_def)

lemma agenda_cong:
  "tq_nodes s' = tq_nodes s \<Longrightarrow> timeout_list s' = timeout_list s \<Longrightarrow> dticks s' = dticks s \<Longrightarrow> curr_tick s' = curr_tick s \<Longrightarrow> agenda s' ag = agenda s ag"
  by (simp add: agenda_def)

lemma new_ticks_pos: "ticks \<noteq> K_TICKS_FOREVER \<Longrightarrow> 0 \<le> sys_clock_elapsed s \<Longrightarrow> 1 \<le> new_ticks ticks s"
  by (auto simp: new_ticks_def Z_TICK_ABS_def K_TICKS_FOREVER_def elapsed_def)

definition clock_kept :: "timeouts \<Rightarrow> timeouts \<Rightarrow> bool" where
  "clock_kept s s' \<longleftrightarrow> timeout_list s' = timeout_list s \<and> curr_tick s' = curr_tick s \<and> announce_remaining s' = announce_remaining s
     \<and> sys_clock_elapsed s' = sys_clock_elapsed s \<and> CONFIG_SMP s' = CONFIG_SMP s"

lemma z_add_timeout_correct:
  assumes "agenda s ag" "new \<noteq> 0" "new \<noteq> timeout_list s" "\<not> sys_dnode_is_linked new (tq_nodes s)" "ticks \<noteq> K_TICKS_FOREVER"
    "0 \<le> sys_clock_elapsed s" "new_ticks ticks s < 2 ^ 63"
  shows "\<exists>s'. z_add_timeout new fn ticks s = Some (Done s') \<and> agenda s' (schedule (new, curr_tick s + new_ticks ticks s) ag) \<and> clock_kept s s'
    \<and> only_at (insert new (insert (timeout_list s) (set (map fst ag)))) (tq_nodes s) (tq_nodes s')"
proof -
  define s1 where "s1 = set_dticks new (new_ticks ticks s) (s\<lparr>timeout_fn := (timeout_fn s)(new := fn)\<rparr>)"
  let ?e = "curr_tick s + new_ticks ticks s"
  have new: "new \<notin> fst ` set ag" using agenda_linked[OF assms(1)] assms(4) by blast
  have sel: "tq_nodes s1 = tq_nodes s" "timeout_list s1 = timeout_list s" "curr_tick s1 = curr_tick s" "dticks s1 = (dticks s)(new := new_ticks ticks s)"
    "announce_remaining s1 = announce_remaining s" "sys_clock_elapsed s1 = sys_clock_elapsed s" "CONFIG_SMP s1 = CONFIG_SMP s"
    by (simp_all add: s1_def)
  have ag1: "agenda s1 ag" using assms(1) new by (simp add: agenda_def sel del: fun_upd_apply)
  have f: "first s1 = (if ag = [] then 0 else fst (hd ag))" by (rule first_agenda[OF ag1])
  have prems: "dlist (tq_nodes s1) (timeout_list s1) (map fst ([] @ ag))" "new \<notin> set (timeout_list s1 # map fst ([] @ ag))"
    "deltas (dticks s1) (curr_tick s1) ag" "dticks s1 new = ?e - curr_tick s1" "curr_tick s1 \<le> ?e"
    using ag1 new assms(3) new_ticks_pos[OF assms(5,6)] by (auto simp: agenda_def sel(1-3)) (simp add: sel)
  obtain s2 where s2: "add_loop new (first s1) s1 = Some (Done s2)" "agenda s2 (schedule (new, ?e) ag)" "same_clock s1 s2"
    "only_at (insert new (insert (timeout_list s) (set (map fst ag)))) (tq_nodes s) (tq_nodes s2)"
    using add_loop_correct[OF prems(1,2) assms(2) prems(3-5)] by (auto simp: f agenda_def same_clock_def sel(1,2))
  let ?s = "if new = first s2 \<and> announce_remaining s2 = 0 then sys_clock_set_timeout (next_timeout s2) s2 else s2"
  have eq: "z_add_timeout new fn ticks s = Some (Done ?s)"
    using s2(1) assms(4,5,7) unfolding z_add_timeout_def s1_def[symmetric] by (simp add: Let_def)
  have "agenda ?s (schedule (new, ?e) ag)" "clock_kept s ?s" "tq_nodes ?s = tq_nodes s2"
    using s2(2,3) by (auto simp: sys_clock_set_timeout_def agenda_def same_clock_def clock_kept_def sel)
  then show ?thesis using eq s2(4) by (intro exI[of _ ?s]) simp
qed

section \<open>Removing and reading\<close>

lemma deltas_remove:
  assumes "deltas d c (pre @ (t, e) # post)" "distinct (map fst (pre @ (t, e) # post))"
  shows "deltas (if post = [] then d else d(fst (hd post) := d (fst (hd post)) + d t)) c (pre @ post)"
  using assms by (induction pre arbitrary: c) (cases post; auto simp del: fun_upd_apply; force)+

lemma remove_timeout_correct:
  assumes "agenda s (pre @ (t, e) # post)"
  shows "\<exists>s'. remove_timeout t s = Done s' \<and> agenda s' (pre @ post) \<and> same_clock s s' \<and> \<not> sys_dnode_is_linked t (tq_nodes s')
    \<and> only_at (insert t (insert (timeout_list s) (set (map fst (pre @ post))))) (tq_nodes s) (tq_nodes s')"
proof -
  have d: "dlist (tq_nodes s) (timeout_list s) (map fst pre @ t # map fst post)" "deltas (dticks s) (curr_tick s) (pre @ (t, e) # post)"
    using assms by (auto simp: agenda_def)
  have nx: "next_of t s = (if post = [] then 0 else fst (hd post))" using dlist_peek_next(1)[OF d(1)] by (auto simp: next_of_def hd_map)
  have hd0: "post \<noteq> [] \<Longrightarrow> fst (hd post) \<noteq> 0" using d(1) by (cases post) (auto simp: dlist_def)
  obtain h where h: "sys_dlist_remove t (tq_nodes s) = Done h" "dlist h (timeout_list s) (map fst pre @ map fst post)" "\<not> sys_dnode_is_linked t h"
    "only_at (insert t (insert (timeout_list s) (set (map fst pre @ map fst post)))) (tq_nodes s) h"
    using dlist_remove[OF d(1)] by blast
  let ?s = "(if post \<noteq> [] then set_dticks (fst (hd post)) (dticks s (fst (hd post)) + dticks s t) s else s)\<lparr>tq_nodes := h\<rparr>"
  have "remove_timeout t s = Done ?s" using h(1) hd0 by (simp add: remove_timeout_def nx Let_def)
  moreover have "agenda ?s (pre @ post)"
    using h(2) deltas_remove[OF d(2) agenda_distinct[OF assms]] by (auto simp: agenda_def split: if_splits)
  ultimately show ?thesis using h(3,4) by (auto simp: same_clock_def)
qed

lemma rem_loop_correct:
  assumes "dlist (tq_nodes s) (timeout_list s) (map fst (pre @ post))" "deltas (dticks s) c post" "(t, e) \<in> set post"
  shows "rem_loop t (fst (hd post)) r s = Some (r + (e - c))"
  using assms
proof (induction post arbitrary: pre c r)
  case Nil
  then show ?case by simp
next
  case (Cons y ys)
  have d: "dlist (tq_nodes s) (timeout_list s) (map fst pre @ fst y # map fst ys)" using Cons.prems(1) by simp
  have y: "fst y \<noteq> 0" "fst y \<notin> fst ` set ys" using d by (auto simp: dlist_def)
  have nx: "next_of (fst y) s = (if ys = [] then 0 else fst (hd ys))" using dlist_peek_next(1)[OF d] by (auto simp: next_of_def hd_map)
  show ?case
  proof (cases "fst y = t")
    case True
    then have "y = (t, e)" using Cons.prems(3) y(2) by (auto simp: rev_image_eqI)
    then show ?thesis using Cons.prems(2) y(1) by (subst rem_loop.simps) simp
  next
    case False
    then have m: "(t, e) \<in> set ys" using Cons.prems(3) by auto
    then have "rem_loop t (fst (hd ys)) (r + (snd y - c)) s = Some (r + (snd y - c) + (e - snd y))"
      using Cons.IH[of "pre @ [y]" "snd y" "r + (snd y - c)"] Cons.prems(1,2) by simp
    then show ?thesis using False y(1) nx m Cons.prems(2) by (subst rem_loop.simps) auto
  qed
qed

lemma expires_agenda:
  assumes "agenda s ag" "(t, e) \<in> set ag"
  shows "z_timeout_expires t s = Some e" "z_timeout_remaining t s = Some (e - sys_clock_tick_get s)"
proof -
  have l: "sys_dnode_is_linked t (tq_nodes s)" using agenda_linked[OF assms(1), of t] assms(2) by force
  have "ag \<noteq> []" using assms(2) by auto
  then have "timeout_rem t s = Some (e - curr_tick s)"
    using rem_loop_correct[of s "[]" ag "curr_tick s" t e 0] assms first_agenda[OF assms(1)] by (simp add: timeout_rem_def agenda_def)
  then show "z_timeout_expires t s = Some e" "z_timeout_remaining t s = Some (e - sys_clock_tick_get s)"
    using l by (simp_all add: z_timeout_expires_def z_timeout_remaining_def z_is_inactive_timeout_def sys_clock_tick_get_def)
qed

lemma z_abort_timeout_correct:
  assumes "agenda s ag" "t \<notin> fst ` set ag \<longrightarrow> \<not> sys_dnode_is_linked t (tq_nodes s)"
  shows "\<exists>s'. z_abort_timeout t s = Done (if t \<in> fst ` set ag then 0 else - EINVAL, s') \<and> agenda s' (filter (\<lambda>x. fst x \<noteq> t) ag) \<and> same_clock s s'
    \<and> (t \<in> fst ` set ag \<longrightarrow> \<not> sys_dnode_is_linked t (tq_nodes s')) \<and> only_at (insert (timeout_list s) (set (map fst ag))) (tq_nodes s) (tq_nodes s')"
proof (cases "t \<in> fst ` set ag")
  case True
  then obtain e where "(t, e) \<in> set ag" by auto
  then obtain pre post where ag: "ag = pre @ (t, e) # post" by (meson split_list)
  have "t \<notin> fst ` set (pre @ post)" using agenda_distinct[OF assms(1)] by (auto simp: ag)
  then have "\<forall>x\<in>set (pre @ post). fst x \<noteq> t" by (metis imageI)
  then have fl: "filter (\<lambda>x. fst x \<noteq> t) ag = pre @ post" by (simp add: ag)
  show ?thesis using remove_timeout_correct[OF assms(1)[unfolded ag]] agenda_linked[OF assms(1) True] True fl
    by (auto simp: z_abort_timeout_def ag insert_commute)
next
  case False
  then have "\<forall>x\<in>set ag. fst x \<noteq> t" by (metis imageI)
  then have "filter (\<lambda>x. fst x \<noteq> t) ag = ag" by simp
  then show ?thesis using False assms by (simp add: z_abort_timeout_def same_clock_def only_at_def)
qed

section \<open>Sequences of requests\<close>

datatype tq_op = Add_Timeout nat nat int | Abort_Timeout nat

fun run_tq :: "tq_op \<Rightarrow> timeouts \<Rightarrow> timeouts outcome option" where
  "run_tq (Add_Timeout t fn ticks) s = z_add_timeout t fn ticks s"
| "run_tq (Abort_Timeout t) s = Some (bind_outcome (z_abort_timeout t s) (\<lambda>(_, s). Done s))"

fun run_tqs :: "tq_op list \<Rightarrow> timeouts \<Rightarrow> timeouts outcome option" where
  "run_tqs [] s = Some (Done s)"
| "run_tqs (c # cs) s = (case run_tq c s of Some (Done s) \<Rightarrow> run_tqs cs s | r \<Rightarrow> r)"

text \<open>What a request does to an agenda, at the current tick and with the ticks that passed since the last announcement.\<close>

fun plan :: "int \<Rightarrow> int \<Rightarrow> tq_op \<Rightarrow> (nat \<times> int) list \<Rightarrow> (nat \<times> int) list" where
  "plan now el (Add_Timeout t fn ticks) ag =
    (if ticks = K_TICKS_FOREVER then ag
     else schedule (t, if ticks < 0 then max (now + 1) (Z_TICK_ABS ticks) else now + (ticks + 1 + el)) ag)"
| "plan now el (Abort_Timeout t) ag = filter (\<lambda>x. fst x \<noteq> t) ag"

fun admissible :: "nat set \<Rightarrow> int \<Rightarrow> tq_op \<Rightarrow> (nat \<times> int) list \<Rightarrow> bool" where
  "admissible T el (Add_Timeout t fn ticks) ag \<longleftrightarrow> t \<in> T \<and> t \<notin> fst ` set ag \<and> ticks + 1 + el < 2 ^ 63 \<and> Z_TICK_ABS ticks < 2 ^ 63"
| "admissible T el (Abort_Timeout t) ag \<longleftrightarrow> t \<in> T"

fun plans :: "int \<Rightarrow> int \<Rightarrow> tq_op list \<Rightarrow> (nat \<times> int) list \<Rightarrow> (nat \<times> int) list" where
  "plans now el [] ag = ag"
| "plans now el (c # cs) ag = plans now el cs (plan now el c ag)"

fun all_admissible :: "nat set \<Rightarrow> int \<Rightarrow> int \<Rightarrow> tq_op list \<Rightarrow> (nat \<times> int) list \<Rightarrow> bool" where
  "all_admissible T now el [] ag \<longleftrightarrow> True"
| "all_admissible T now el (c # cs) ag \<longleftrightarrow> admissible T el c ag \<and> all_admissible T now el cs (plan now el c ag)"

text \<open>The timeouts of a set, of which those in the agenda are linked.\<close>

definition queue :: "nat set \<Rightarrow> timeouts \<Rightarrow> (nat \<times> int) list \<Rightarrow> bool" where
  "queue T s ag \<longleftrightarrow> agenda s ag \<and> fst ` set ag \<subseteq> T \<and> 0 \<notin> T \<and> timeout_list s \<notin> T \<and> 0 \<le> sys_clock_elapsed s \<and> sys_clock_elapsed s \<le> INT_MAX \<and> 0 \<le> curr_tick s
     \<and> (\<forall>t\<in>T. sys_dnode_is_linked t (tq_nodes s) \<longleftrightarrow> t \<in> fst ` set ag)"

lemma clock_kept_elapsed: "clock_kept s s' \<Longrightarrow> elapsed s' = elapsed s"
  by (simp add: clock_kept_def elapsed_def)

lemma same_clock_kept: "same_clock s s' \<Longrightarrow> clock_kept s s'"
  by (simp add: clock_kept_def same_clock_def)

lemma linked_frame: "only_at A h h' \<Longrightarrow> t \<notin> A \<Longrightarrow> sys_dnode_is_linked t h' = sys_dnode_is_linked t h"
  by (simp add: only_at_def sys_dnode_is_linked_def)

lemma queue_step:
  assumes "queue T s ag" "agenda s' ag'" "clock_kept s s'" "only_at (insert (timeout_list s) (A \<union> set (map fst ag))) (tq_nodes s) (tq_nodes s')"
    "fst ` set ag' \<subseteq> T" "A \<subseteq> fst ` set ag'" "\<And>t. t \<in> fst ` set ag \<Longrightarrow> t \<notin> fst ` set ag' \<Longrightarrow> \<not> sys_dnode_is_linked t (tq_nodes s')"
  shows "queue T s' ag'"
proof -
  have "sys_dnode_is_linked t (tq_nodes s') \<longleftrightarrow> t \<in> fst ` set ag'" if t: "t \<in> T" for t
  proof (cases "t \<in> A \<union> fst ` set ag")
    case True
    then show ?thesis using assms(6,7) agenda_linked[OF assms(2)] by blast
  next
    case False
    have "t \<noteq> timeout_list s" using assms(1) t by (auto simp: queue_def)
    then have "\<not> sys_dnode_is_linked t (tq_nodes s')" using linked_frame[OF assms(4)] False assms(1) t by (auto simp: queue_def)
    then show ?thesis using agenda_linked[OF assms(2)] by blast
  qed
  then show ?thesis using assms(1,2,3,5) by (auto simp: queue_def clock_kept_def)
qed

lemma run_tq_correct:
  assumes "queue T s ag" "admissible T (elapsed s) c ag"
  shows "\<exists>s'. run_tq c s = Some (Done s') \<and> queue T s' (plan (curr_tick s) (elapsed s) c ag) \<and> clock_kept s s'"
proof (cases c)
  case (Add_Timeout t fn ticks)
  have ag: "agenda s ag" and t: "t \<in> T" "t \<noteq> 0" "t \<noteq> timeout_list s" "t \<notin> fst ` set ag" "\<not> sys_dnode_is_linked t (tq_nodes s)"
    and el: "0 \<le> sys_clock_elapsed s" "0 \<le> curr_tick s" and b: "ticks + 1 + elapsed s < 2 ^ 63" "Z_TICK_ABS ticks < 2 ^ 63"
    using assms by (auto simp: queue_def Add_Timeout)
  show ?thesis
  proof (cases "ticks = K_TICKS_FOREVER")
    case True
    then show ?thesis using assms(1) by (simp add: Add_Timeout z_add_timeout_def clock_kept_def)
  next
    case False
    let ?e = "curr_tick s + new_ticks ticks s"
    have lt: "new_ticks ticks s < 2 ^ 63" using b el(2) by (auto simp: new_ticks_def)
    obtain s' where s': "z_add_timeout t fn ticks s = Some (Done s')" "agenda s' (schedule (t, ?e) ag)" "clock_kept s s'"
      "only_at (insert t (insert (timeout_list s) (set (map fst ag)))) (tq_nodes s) (tq_nodes s')"
      using z_add_timeout_correct[OF ag t(2,3,5) False el(1) lt, of fn] by blast
    have e: "plan (curr_tick s) (elapsed s) c ag = schedule (t, ?e) ag"
      using False by (auto simp: Add_Timeout new_ticks_def Z_TICK_ABS_def K_TICKS_FOREVER_def max_def)
    have "queue T s' (schedule (t, ?e) ag)"
      by (rule queue_step[OF assms(1) s'(2,3), of "{t}"]) (use s'(4) t(1) assms(1) in \<open>auto simp: insert_commute queue_def\<close>)
    then show ?thesis using s'(1,3) e by (simp add: Add_Timeout)
  qed
next
  case (Abort_Timeout t)
  have "t \<in> T" using assms(2) by (simp add: Abort_Timeout)
  then have pre: "agenda s ag" "t \<notin> fst ` set ag \<longrightarrow> \<not> sys_dnode_is_linked t (tq_nodes s)" using assms(1) by (auto simp: queue_def)
  obtain s' where s': "z_abort_timeout t s = Done (if t \<in> fst ` set ag then 0 else - EINVAL, s')" "agenda s' (filter (\<lambda>x. fst x \<noteq> t) ag)"
    "same_clock s s'" "t \<in> fst ` set ag \<longrightarrow> \<not> sys_dnode_is_linked t (tq_nodes s')" "only_at (insert (timeout_list s) (set (map fst ag))) (tq_nodes s) (tq_nodes s')"
    using z_abort_timeout_correct[OF pre] by blast
  have "queue T s' (filter (\<lambda>x. fst x \<noteq> t) ag)"
    by (rule queue_step[OF assms(1) s'(2) same_clock_kept[OF s'(3)], of "{}"]) (use s'(4,5) assms(1) in \<open>auto simp: queue_def\<close>)
  then show ?thesis using s'(1) same_clock_kept[OF s'(3)] by (simp add: Abort_Timeout)
qed

lemma run_tqs_correct:
  assumes "queue T s ag" "all_admissible T (curr_tick s) (elapsed s) cs ag"
  shows "\<exists>s'. run_tqs cs s = Some (Done s') \<and> queue T s' (plans (curr_tick s) (elapsed s) cs ag) \<and> clock_kept s s'"
  using assms
proof (induction cs arbitrary: s ag)
  case Nil
  then show ?case by (simp add: clock_kept_def)
next
  case (Cons c cs)
  obtain s1 where s1: "run_tq c s = Some (Done s1)" "queue T s1 (plan (curr_tick s) (elapsed s) c ag)" "clock_kept s s1"
    using run_tq_correct[OF Cons.prems(1), of c] Cons.prems(2) by auto
  have k: "curr_tick s1 = curr_tick s" "elapsed s1 = elapsed s" using s1(3) clock_kept_elapsed[OF s1(3)] by (auto simp: clock_kept_def)
  show ?case using Cons.IH[OF s1(2)] Cons.prems(2) s1(1,3) by (auto simp: k clock_kept_def)
qed


text \<open>An empty queue at tick 100, seven ticks behind the last announcement; the timeouts are at 1 to 3, the list at 9.\<close>

definition tq_100 :: timeouts where
  "tq_100 = \<lparr>tq_nodes = sys_dlist_init 9 \<lparr>dn_next = (\<lambda>_. 0), dn_prev = (\<lambda>_. 0)\<rparr>, timeout_list = 9, dticks = (\<lambda>_. 0), timeout_fn = (\<lambda>_. 0),
     curr_tick = 100, announce_remaining = 0, sys_clock_elapsed = 7, programmed = None, CONFIG_SMP = True, CONFIG_SYSTEM_CLOCK_SLOPPY_IDLE = False\<rparr>"

lemma tq_100_queue: "queue {1, 2, 3} tq_100 []"
  using dlist_init[of 9 "\<lparr>dn_next = (\<lambda>_. 0), dn_prev = (\<lambda>_. 0)\<rparr>"]
  by (simp add: queue_def tq_100_def agenda_def sys_dnode_is_linked_def INT_MAX_def) (simp add: sys_dlist_init_def)


section \<open>Announcing ticks\<close>

text \<open>
  What the functions of timeouts may do to the queue: add timeouts, which expire later than the present tick, and abort
  some of a given set.
\<close>

definition keeps_queue :: "nat set \<Rightarrow> nat set \<Rightarrow> (nat \<Rightarrow> nat \<Rightarrow> 'w \<times> timeouts \<Rightarrow> ('w \<times> timeouts) outcome) \<Rightarrow> bool" where
  "keeps_queue T A cb \<longleftrightarrow> (\<forall>f t w s ag. queue T s ag \<longrightarrow> (\<exists>w' s' ag'. cb f t (w, s) = Done (w', s') \<and> queue T s' ag' \<and> clock_kept s s'
     \<and> (\<forall>x\<in>set ag'. x \<in> set ag \<or> curr_tick s < snd x) \<and> (\<forall>x\<in>set ag. fst x \<notin> A \<longrightarrow> x \<in> set ag')))"

text \<open>The functions with a record of the timeouts that fired, each with the tick at that moment.\<close>

definition logged :: "(nat \<Rightarrow> nat \<Rightarrow> 'w \<times> timeouts \<Rightarrow> ('w \<times> timeouts) outcome)
    \<Rightarrow> nat \<Rightarrow> nat \<Rightarrow> ((nat \<times> int) list \<times> 'w) \<times> timeouts \<Rightarrow> (((nat \<times> int) list \<times> 'w) \<times> timeouts) outcome" where
  "logged cb f t r = (case r of ((log, w), s) \<Rightarrow> bind_outcome (cb f t (w, s)) (\<lambda>(w, s'). Done ((log @ [(t, curr_tick s)], w), s')))"

lemma queue_pop:
  assumes "queue T s ((t, e) # ag)"
  shows "\<exists>s'. remove_timeout t (set_dticks t 0 (s\<lparr>curr_tick := curr_tick s + dticks s t\<rparr>)) = Done s' \<and> queue T s' ag
    \<and> curr_tick s' = e \<and> announce_remaining s' = announce_remaining s \<and> sys_clock_elapsed s' = sys_clock_elapsed s \<and> timeout_list s' = timeout_list s
    \<and> dticks s t = e - curr_tick s \<and> timeout_fn s' = timeout_fn s"
proof -
  let ?s = "set_dticks t 0 (s\<lparr>curr_tick := curr_tick s + dticks s t\<rparr>)"
  have ag: "agenda s ((t, e) # ag)" and d: "dticks s t = e - curr_tick s" "curr_tick s \<le> e" using assms by (auto simp: queue_def agenda_def)
  have "t \<notin> fst ` set ag" using agenda_distinct[OF ag] by simp
  then have ag1: "agenda ?s ([] @ (t, e) # ag)" using ag d by (simp add: agenda_def del: fun_upd_apply) simp
  have q1: "queue T ?s ((t, e) # ag)" using assms ag1 d by (auto simp: queue_def)
  obtain s' where s': "remove_timeout t ?s = Done s'" "agenda s' ([] @ ag)" "same_clock ?s s'" "\<not> sys_dnode_is_linked t (tq_nodes s')"
    "only_at (insert t (insert (timeout_list ?s) (set (map fst ([] @ ag))))) (tq_nodes ?s) (tq_nodes s')"
    using remove_timeout_correct[OF ag1] by blast
  have "queue T s' ag"
    by (rule queue_step[OF q1 _ same_clock_kept[OF s'(3)], of _ "{}"]) (use s' assms in \<open>auto simp: queue_def insert_commute\<close>)
  then show ?thesis using s'(1,3) d by (auto simp: same_clock_def)
qed

definition fired_well :: "nat set \<Rightarrow> int \<Rightarrow> int \<Rightarrow> (nat \<times> int) list \<Rightarrow> (nat \<times> int) list \<Rightarrow> (nat \<times> int) list \<Rightarrow> bool" where
  "fired_well A start target ag log ag' \<longleftrightarrow> sorted (map snd log) \<and> (\<forall>x\<in>set log. start \<le> snd x \<and> snd x \<le> target \<and> (x \<in> set ag \<or> start < snd x))
     \<and> (\<forall>x\<in>set ag'. target < snd x) \<and> (\<forall>x\<in>set ag. fst x \<notin> A \<longrightarrow> (if snd x \<le> target then x \<in> set log else x \<in> set ag'))"

lemma fired_well_step:
  assumes "fired_well A e target ag1 log ag'" "start \<le> e" "e \<le> target" "\<forall>x\<in>set ag1. x \<in> set ag \<or> e < snd x" "\<forall>x\<in>set ag. fst x \<notin> A \<longrightarrow> x \<in> set ag1"
  shows "fired_well A start target ((t, e) # ag) ((t, e) # log) ag'"
  using assms unfolding fired_well_def by (force split: if_splits)

lemma announce_loop_correct:
  assumes "keeps_queue T A cb" "queue T s ag" "0 \<le> announce_remaining s"
  shows "\<exists>log w' s' ag'. announce_loop (logged cb) (log0, w) s = Some (Done ((log0 @ log, w'), s')) \<and> queue T s' ag'
    \<and> 0 \<le> announce_remaining s' \<and> curr_tick s' + announce_remaining s' = curr_tick s + announce_remaining s
    \<and> fired_well A (curr_tick s) (curr_tick s + announce_remaining s) ag log ag'"
  using assms(2,3)
proof (induction "(nat (announce_remaining s), card {x \<in> set ag. snd x \<le> curr_tick s})" arbitrary: s ag log0 w rule: wf_induct_rule[OF wf_lex_prod[OF wf_less_than wf_less_than]])
  case 1
  show ?case
  proof (cases "\<exists>t e ag0. ag = (t, e) # ag0 \<and> e \<le> curr_tick s + announce_remaining s")
    case False
    have due: "\<forall>x\<in>set ag. curr_tick s + announce_remaining s < snd x"
    proof (cases ag)
      case (Cons x xs)
      have "sorted (map snd ag)" using "1.prems"(1) deltas_sorted by (auto simp: queue_def agenda_def)
      then show ?thesis using False Cons by (cases x) auto
    qed simp
    have st: "first s = (if ag = [] then 0 else fst (hd ag))" using first_agenda "1.prems"(1) by (auto simp: queue_def)
    have "\<not> (first s \<noteq> 0 \<and> dticks s (first s) \<le> announce_remaining s)"
      using due "1.prems"(1) by (cases ag) (auto simp: st queue_def agenda_def)
    then have "announce_loop (logged cb) (log0, w) s = Some (Done ((log0, w), s))" by (subst announce_loop.simps) (auto simp: Let_def)
    then show ?thesis using "1.prems" due by (intro exI[of _ "[]"] exI[of _ w] exI[of _ s] exI[of _ ag]) (auto simp: fired_well_def)
  next
    case True
    then obtain t e ag0 where ag: "ag = (t, e) # ag0" and e: "e \<le> curr_tick s + announce_remaining s" by blast
    have q: "queue T s ((t, e) # ag0)" using "1.prems"(1) by (simp add: ag)
    have le: "curr_tick s \<le> e" using q by (auto simp: queue_def agenda_def)
    obtain s1 where s1: "remove_timeout t (set_dticks t 0 (s\<lparr>curr_tick := curr_tick s + dticks s t\<rparr>)) = Done s1" "queue T s1 ag0"
      "curr_tick s1 = e" "announce_remaining s1 = announce_remaining s" "dticks s t = e - curr_tick s"
      using queue_pop[OF q] by blast
    obtain w2 s2 ag2 where s2: "cb (timeout_fn s1 t) t (w, s1) = Done (w2, s2)" "queue T s2 ag2" "clock_kept s1 s2"
      "\<forall>x\<in>set ag2. x \<in> set ag0 \<or> curr_tick s1 < snd x" "\<forall>x\<in>set ag0. fst x \<notin> A \<longrightarrow> x \<in> set ag2"
      using assms(1) s1(2) unfolding keeps_queue_def by metis
    define s3 where "s3 = s2\<lparr>announce_remaining := announce_remaining s2 - (e - curr_tick s)\<rparr>"
    have c3: "curr_tick s3 = e" "announce_remaining s3 = announce_remaining s - (e - curr_tick s)" using s1(3,4) s2(3) by (auto simp: s3_def clock_kept_def)
    have q3: "queue T s3 ag2" using s2(2) by (simp add: s3_def queue_def agenda_def)
    have t0: "first s = t" "t \<noteq> 0" using first_agenda q agenda_linked[of s "(t, e) # ag0" t] by (auto simp: queue_def)
    have step: "announce_loop (logged cb) (log0, w) s = announce_loop (logged cb) (log0 @ [(t, e)], w2) s3"
      using e s1 s2(1) t0 by (subst announce_loop.simps) (simp add: Let_def logged_def s3_def)
    have dec: "((nat (announce_remaining s3), card {x \<in> set ag2. snd x \<le> curr_tick s3}), nat (announce_remaining s), card {x \<in> set ag. snd x \<le> curr_tick s})
        \<in> less_than <*lex*> less_than"
    proof (cases "e = curr_tick s")
      case True
      have "{x \<in> set ag2. snd x \<le> e} \<subseteq> {x \<in> set ag0. snd x \<le> e}" using s2(4) s1(3) by auto
      moreover have "(t, e) \<notin> set ag0" using agenda_distinct q by (force simp: queue_def)
      ultimately have "{x \<in> set ag2. snd x \<le> e} \<subset> {x \<in> set ag. snd x \<le> e}" by (auto simp: ag)
      then have "card {x \<in> set ag2. snd x \<le> e} < card {x \<in> set ag. snd x \<le> e}" by (intro psubset_card_mono) auto
      then show ?thesis using True c3 by simp
    next
      case False
      then show ?thesis using c3 le e by auto
    qed
    have tgt: "e + announce_remaining s3 = curr_tick s + announce_remaining s" using c3 by simp
    have "0 \<le> announce_remaining s3" using c3 e by simp
    from "1.hyps"[OF dec q3 this, of "log0 @ [(t, e)]" w2, unfolded c3(1), unfolded tgt] obtain log w' s' ag'
      where r: "announce_loop (logged cb) (log0 @ [(t, e)], w2) s3 = Some (Done (((log0 @ [(t, e)]) @ log, w'), s'))" "queue T s' ag'"
        "0 \<le> announce_remaining s'" "curr_tick s' + announce_remaining s' = curr_tick s + announce_remaining s"
        "fired_well A e (curr_tick s + announce_remaining s) ag2 log ag'" by blast
    have "fired_well A (curr_tick s) (curr_tick s + announce_remaining s) ag ((t, e) # log) ag'"
      unfolding ag by (rule fired_well_step[OF r(5)]) (use le e s2(4,5) s1(3) in auto)
    then show ?thesis using step r(1-4) by (intro exI[of _ "(t, e) # log"] exI[of _ w'] exI[of _ s'] exI[of _ ag']) simp
  qed
qed

lemma announce_rest_queue:
  assumes "queue T s ag" "0 \<le> announce_remaining s" "\<forall>x\<in>set ag. curr_tick s + announce_remaining s < snd x"
  shows "queue T (announce_rest s) ag \<and> curr_tick (announce_rest s) = curr_tick s + announce_remaining s \<and> announce_remaining (announce_rest s) = 0
    \<and> programmed (announce_rest s) = Some (let s' = announce_rest s in if ag = [] \<or> INT_MAX < snd (hd ag) - sys_clock_tick_get s' then MAX_WAIT s'
        else max 0 (snd (hd ag) - sys_clock_tick_get s'))"
proof -
  let ?now = "curr_tick s + announce_remaining s"
  define s1 where "s1 = (if first s \<noteq> 0 then set_dticks (first s) (dticks s (first s) - announce_remaining s) s else s)\<lparr>curr_tick := ?now, announce_remaining := 0\<rparr>"
  have f: "first s = (if ag = [] then 0 else fst (hd ag))" using first_agenda assms(1) by (auto simp: queue_def)
  have ag: "agenda s ag" using assms(1) by (simp add: queue_def)
  have "agenda s1 ag"
  proof (cases ag)
    case (Cons x xs)
    then have "fst x \<notin> fst ` set xs" "fst x \<noteq> 0" using agenda_distinct[OF ag] agenda_linked[OF ag, of "fst x"] by auto
    then show ?thesis using ag assms(3) f Cons by (simp add: s1_def agenda_def del: fun_upd_apply) simp
  qed (use ag f in \<open>simp add: s1_def agenda_def\<close>)
  then have q1: "queue T s1 ag" using assms(1,2) by (auto simp: queue_def s1_def)
  have r: "announce_rest s = sys_clock_set_timeout (next_timeout s1) s1" by (simp add: announce_rest_def Let_def s1_def)
  have f1: "first s1 = (if ag = [] then 0 else fst (hd ag))" using first_agenda q1 by (auto simp: queue_def)
  have "ag \<noteq> [] \<Longrightarrow> first s1 \<noteq> 0 \<and> dticks s1 (first s1) = snd (hd ag) - curr_tick s1" using q1 agenda_linked[of s1 ag] by (cases ag) (auto simp: f1 queue_def agenda_def)
  then have n: "next_timeout s1 = (if ag = [] \<or> INT_MAX < snd (hd ag) - sys_clock_tick_get s1 then MAX_WAIT s1 else max 0 (snd (hd ag) - sys_clock_tick_get s1))"
    by (cases "ag = []") (auto simp: next_timeout_def Let_def f1 sys_clock_tick_get_def algebra_simps)
  have same: "sys_clock_tick_get (announce_rest s) = sys_clock_tick_get s1" "MAX_WAIT (announce_rest s) = MAX_WAIT s1" "curr_tick s1 = ?now" "announce_remaining s1 = 0"
    by (simp_all add: r sys_clock_set_timeout_def sys_clock_tick_get_def elapsed_def MAX_WAIT_def s1_def)
  have "programmed (announce_rest s) = Some (next_timeout s1)" "queue T (announce_rest s) ag" using q1 by (simp_all add: r sys_clock_set_timeout_def queue_def agenda_def)
  moreover have "curr_tick (announce_rest s) = ?now" "announce_remaining (announce_rest s) = 0" using same(3,4) by (simp_all add: r sys_clock_set_timeout_def)
  ultimately show ?thesis by (simp add: n Let_def same(1,2))
qed

text \<open>
  C29: The announcement of ticks ends, whatever timeouts the called functions add or abort, and fires every timeout at its
  tick: the timeouts fire in the order of their times, each when the clock shows its time and within the announced
  ticks; every timeout that was due and not aborted fires, every other one stays, and none that is due is left. The clock then
  shows the announced time, and the driver is told to wake up when the first remaining timeout expires.
\<close>

theorem announce_fires_on_time:
  assumes "queue T s ag" "keeps_queue T A cb" "0 \<le> ticks" "announce_remaining s = 0"
  shows "\<exists>log w' s' ag'. sys_clock_announce (logged cb) ticks ([], w) s = Some (Done ((log, w'), s')) \<and> queue T s' ag'
    \<and> curr_tick s' = curr_tick s + ticks \<and> announce_remaining s' = 0
    \<and> sorted (map snd log) \<and> (\<forall>x\<in>set log. curr_tick s \<le> snd x \<and> snd x \<le> curr_tick s + ticks)
    \<and> (\<forall>x\<in>set ag'. curr_tick s + ticks < snd x)
    \<and> (\<forall>x\<in>set ag. fst x \<notin> A \<longrightarrow> (if snd x \<le> curr_tick s + ticks then x \<in> set log else x \<in> set ag'))
    \<and> programmed s' = Some (if ag' = [] \<or> INT_MAX < snd (hd ag') - sys_clock_tick_get s' then MAX_WAIT s' else max 0 (snd (hd ag') - sys_clock_tick_get s'))"
proof -
  let ?s = "s\<lparr>announce_remaining := ticks\<rparr>"
  have q: "queue T ?s ag" "0 \<le> announce_remaining ?s" using assms(1,3) by (simp_all add: queue_def agenda_def)
  obtain log w' s2 ag' where r: "announce_loop (logged cb) ([], w) ?s = Some (Done ((log, w'), s2))" "queue T s2 ag'" "0 \<le> announce_remaining s2"
    "curr_tick s2 + announce_remaining s2 = curr_tick s + ticks" "fired_well A (curr_tick s) (curr_tick s + ticks) ag log ag'"
    using announce_loop_correct[OF assms(2) q, of "[]" w] by auto
  have due: "\<forall>x\<in>set ag'. curr_tick s2 + announce_remaining s2 < snd x" using r(4,5) by (simp add: fired_well_def)
  have "sys_clock_announce (logged cb) ticks ([], w) s = Some (Done ((log, w'), announce_rest s2))" using r(1) assms(4) by (simp add: sys_clock_announce_def)
  then show ?thesis using announce_rest_queue[OF r(2,3) due] r(4,5) unfolding fired_well_def Let_def
    by (intro exI[of _ log] exI[of _ w'] exI[of _ "announce_rest s2"] exI[of _ ag']) simp
qed

text \<open>A timeout that starts itself again, as a periodic timer does.\<close>

definition restart :: "nat set \<Rightarrow> int \<Rightarrow> nat \<Rightarrow> nat \<Rightarrow> unit \<times> timeouts \<Rightarrow> (unit \<times> timeouts) outcome" where
  "restart T period f t r = (case r of (w, s) \<Rightarrow>
     if t \<in> T \<and> z_is_inactive_timeout t s
     then (case z_add_timeout t f period s of Some r \<Rightarrow> bind_outcome r (\<lambda>s. Done (w, s)) | None \<Rightarrow> Fault)
     else Done (w, s))"

lemma restart_keeps_queue:
  assumes "0 \<le> period" "period \<le> INT_MAX"
  shows "keeps_queue T {} (restart T period)"
  unfolding keeps_queue_def
proof (intro allI impI)
  fix f t w s ag assume q: "queue T s ag"
  show "\<exists>w' s' ag'. restart T period f t (w, s) = Done (w', s') \<and> queue T s' ag' \<and> clock_kept s s'
    \<and> (\<forall>x\<in>set ag'. x \<in> set ag \<or> curr_tick s < snd x) \<and> (\<forall>x\<in>set ag. fst x \<notin> {} \<longrightarrow> x \<in> set ag')"
  proof (cases "t \<in> T \<and> z_is_inactive_timeout t s")
    case False
    then show ?thesis using q by (intro exI[of _ w] exI[of _ s] exI[of _ ag]) (auto simp: restart_def clock_kept_def)
  next
    case True
    have el: "0 \<le> elapsed s" "elapsed s \<le> INT_MAX" using q by (auto simp: queue_def elapsed_def INT_MAX_def)
    have "t \<notin> fst ` set ag" using True q by (auto simp: queue_def z_is_inactive_timeout_def)
    then have adm: "admissible T (elapsed s) (Add_Timeout t f period) ag" using True assms el by (simp add: Z_TICK_ABS_def K_TICKS_FOREVER_def INT_MAX_def)
    obtain s' where "z_add_timeout t f period s = Some (Done s')" "queue T s' (schedule (t, curr_tick s + (period + 1 + elapsed s)) ag)" "clock_kept s s'"
      using run_tq_correct[OF q adm] assms by (auto simp: K_TICKS_FOREVER_def)
    then show ?thesis using True assms(1) el(1) by (intro exI[of _ w] exI[of _ s']) (auto simp: restart_def)
  qed
qed

theorem announce_fires_on_time_witness:
  "\<exists>s log w' s'. run_tqs [Add_Timeout 1 0 2] tq_100 = Some (Done s) \<and> sys_clock_announce (logged (restart {1, 2, 3} 9)) 25 ([], ()) s = Some (Done ((log, w'), s'))
    \<and> (1, 110) \<in> set log \<and> curr_tick s' = 125"
proof -
  have c: "curr_tick tq_100 = 100" "elapsed tq_100 = 7" by (simp_all add: tq_100_def elapsed_def)
  have a: "all_admissible {1, 2, 3} 100 7 [Add_Timeout 1 0 2] []" "plans 100 7 [Add_Timeout 1 0 2] [] = [(1, 110)]"
    by (simp_all add: K_TICKS_FOREVER_def Z_TICK_ABS_def)
  obtain s where s: "run_tqs [Add_Timeout 1 0 2] tq_100 = Some (Done s)" "queue {1, 2, 3} s [(1, 110)]" "clock_kept tq_100 s"
    using run_tqs_correct[OF tq_100_queue, unfolded c, OF a(1), unfolded a(2)] by blast
  have k: "curr_tick s = 100" "announce_remaining s = 0" using s(3) by (simp_all add: clock_kept_def tq_100_def)
  have "keeps_queue {1, 2, 3} {} (restart {1, 2, 3} 9)" by (rule restart_keeps_queue) (simp_all add: INT_MAX_def)
  from announce_fires_on_time[OF s(2) this _ k(2), of 25 "()"] show ?thesis using s(1) k(1) by auto
qed

section \<open>Two timeouts at the last tick\<close>

text \<open>
  The comment at \<^verbatim>\<open>elapsed\<close> says that timeouts added by a function of a timeout count from the tick of that timeout. For the
  second of two timeouts at the last announced tick this is not so: the ticks left are already zero and the
  counter of the driver is added.
\<close>

definition observe :: "nat \<Rightarrow> nat \<Rightarrow> int list \<times> timeouts \<Rightarrow> (int list \<times> timeouts) outcome" where
  "observe f t r = (case r of (w, s) \<Rightarrow> Done (w @ [elapsed s], s))"

lemma announce_loop_pop:
  assumes "queue T s ((t, e) # ag)" "e \<le> curr_tick s + announce_remaining s"
  shows "\<exists>s'. announce_loop observe w s = announce_loop observe (w @ [elapsed s]) s' \<and> queue T s' ag \<and> curr_tick s' = e
    \<and> announce_remaining s' = announce_remaining s - (e - curr_tick s) \<and> sys_clock_elapsed s' = sys_clock_elapsed s"
proof -
  obtain s1 where s1: "remove_timeout t (set_dticks t 0 (s\<lparr>curr_tick := curr_tick s + dticks s t\<rparr>)) = Done s1" "queue T s1 ag"
    "curr_tick s1 = e" "announce_remaining s1 = announce_remaining s" "sys_clock_elapsed s1 = sys_clock_elapsed s" "dticks s t = e - curr_tick s"
    using queue_pop[OF assms(1)] by blast
  have t0: "first s = t" "t \<noteq> 0" using first_agenda assms(1) agenda_linked[of s "(t, e) # ag" t] by (auto simp: queue_def)
  have el: "elapsed s1 = elapsed s" using s1(4,5) by (simp add: elapsed_def)
  let ?s = "s1\<lparr>announce_remaining := announce_remaining s1 - (e - curr_tick s)\<rparr>"
  have "announce_loop observe w s = announce_loop observe (w @ [elapsed s]) ?s"
    using assms(2) s1 t0 el by (subst announce_loop.simps) (simp add: Let_def observe_def)
  moreover have "queue T ?s ag" using s1(2) by (simp add: queue_def agenda_def)
  ultimately show ?thesis using s1 by (intro exI[of _ ?s]) simp
qed

theorem last_tick_counts_from_driver:
  assumes "queue T s [(t1, e), (t2, e)]" "curr_tick s < e" "announce_remaining s = 0"
  shows "\<exists>s'. sys_clock_announce observe (e - curr_tick s) [] s = Some (Done ([0, sys_clock_elapsed s], s'))"
proof -
  let ?s = "s\<lparr>announce_remaining := e - curr_tick s\<rparr>"
  have q: "queue T ?s [(t1, e), (t2, e)]" using assms(1) by (simp add: queue_def agenda_def)
  obtain s1 where s1: "announce_loop observe [] ?s = announce_loop observe [elapsed ?s] s1" "queue T s1 [(t2, e)]" "curr_tick s1 = e"
    "announce_remaining s1 = 0" "sys_clock_elapsed s1 = sys_clock_elapsed s"
    using announce_loop_pop[OF q, of "[]"] by auto
  obtain s2 where s2: "announce_loop observe [elapsed ?s] s1 = announce_loop observe [elapsed ?s, elapsed s1] s2" "queue T s2 []"
    using announce_loop_pop[OF s1(2), of "[elapsed ?s]"] s1(3,4) by auto
  have "first s2 = 0" using s2(2) first_agenda by (auto simp: queue_def)
  then have "announce_loop observe [elapsed ?s, elapsed s1] s2 = Some (Done ([elapsed ?s, elapsed s1], s2))" by (subst announce_loop.simps) simp
  moreover have "elapsed ?s = 0" "elapsed s1 = sys_clock_elapsed s" using assms(2) s1(4,5) by (simp_all add: elapsed_def)
  ultimately show ?thesis using s1(1) s2(1) assms(3) by (simp add: sys_clock_announce_def)
qed

end
