(* ===== verification/Vcpu_Context.thy ===== *)
theory Vcpu_Context
  imports Vgic
begin

text \<open>
  The switch between guests and host (\<^verbatim>\<open>arch/arm64/core/zvm/cpu.c\<close> and the entry and exit code of \<^verbatim>\<open>hyp_entry.S\<close>), with
  CONFIG_HAS_ARM_VHE. A CPU has general registers x0 to x30 (30 is \<^verbatim>\<open>lr\<close>) and system registers. Under VHE the accessors of
  SPSR_EL1 and CPACR_EL1 reach SPSR_EL2 and CPTR_EL2. Barriers and the invalidation of the TLB are left out; the
  entry and exit code is a function of the registers and the context, without the stack it uses meanwhile.
\<close>

section \<open>Registers and contexts\<close>

datatype sysreg =
    CSSELR_EL1 | VPIDR_EL2 | VMPIDR_EL2 | ACTLR_EL1 | SCTLR_EL12 | TCR_EL12 | CPACR_EL12 | TTBR0_EL12 | TTBR1_EL12 | ESR_EL12
  | AFSR0_EL12 | AFSR1_EL12 | FAR_EL12 | MAIR_EL12 | VBAR_EL12 | CONTEXTIDR_EL12 | TPIDR_EL0 | TPIDRRO_EL0 | AMAIR_EL12
  | CNTKCTL_EL12 | PAR_EL1 | TPIDR_EL1 | SP_EL0 | SP_EL1 | ELR_EL12 | SPSR_EL12 | MDSCR_EL1 | HSTR_EL2 | MDCR_EL2
  | SPSR_EL2 | ELR_EL2 | HCR_EL2 | VTCR_EL2 | VTTBR_EL2 | CPTR_EL2 | VBAR_EL2 | ICC_CTLR_EL1
  | CNTV_CTL_EL02 | CNTV_CVAL_EL02 | CNTVOFF_EL2 | CNTP_CTL_EL02 | CNTVCT_EL0 | CNTPCT_EL0 | MIDR_EL1

datatype vcpu_reg =
    VCPU_ELR_EL1 | VCPU_SPSR_EL1 | VCPU_MIDR_EL1 | VCPU_MPIDR_EL1 | VCPU_CSSELR_EL1 | VCPU_SCTLR_EL1 | VCPU_ACTLR_EL1
  | VCPU_CPACR_EL1 | VCPU_TTBR0_EL1 | VCPU_TTBR1_EL1 | VCPU_TCR_EL1 | VCPU_ESR_EL1 | VCPU_AFSR0_EL1 | VCPU_AFSR1_EL1
  | VCPU_FAR_EL1 | VCPU_MAIR_EL1 | VCPU_VBAR_EL1 | VCPU_CONTEXTIDR_EL1 | VCPU_TPIDR_EL0 | VCPU_TPIDRRO_EL0 | VCPU_TPIDR_EL1
  | VCPU_AMAIR_EL1 | VCPU_CNTKCTL_EL1 | VCPU_PAR_EL1 | VCPU_MDSCR_EL1 | VCPU_DISR_EL1 | VCPU_VPIDR | VCPU_SP_EL1

record cpu =
  gpr :: "nat \<Rightarrow> u64"
  sysr :: "sysreg \<Rightarrow> u64"

record zvm_vcpu_context =
  xregs :: "nat \<Rightarrow> u64"
  ctx_sp_el0 :: u64
  sp_elx :: u64
  esf_elr :: u64
  esf_spsr :: u64
  ctx_pc :: u64
  pstate :: u64
  sys_regs :: "vcpu_reg \<Rightarrow> u64"

text \<open>\<^verbatim>\<open>struct vcpu_arch\<close> with the saved state of the virtual timer and of the interrupt controller, and what of \<^verbatim>\<open>struct z_vcpu\<close> is used here.\<close>

record vcpu_arch =
  a_id :: nat
  a_first_run :: bool
  a_cpu :: nat
  gctxt :: zvm_vcpu_context
  hctxt :: zvm_vcpu_context
  hcr_el2 :: u64
  host_mdcr_el2 :: u64
  guest_mdcr_el2 :: u64
  vcpu_sys_register_loaded :: bool
  v_cntv_ctl :: u32
  v_cntv_cval :: u64
  v_timer_offset :: u64
  v_cntp_cnt :: u64
  v_cntp_ctl :: u32
  virt_virq :: nat
  virt_pirq :: nat
  virq_data :: gicv3_vcpuif_ctxt

record vm_arch =
  vtcr_el2 :: u64
  vttbr :: u64
  vm_pgd_base :: u64

definition wr :: "sysreg \<Rightarrow> u64 \<Rightarrow> cpu \<Rightarrow> cpu" where
  "wr r v c = c\<lparr>sysr := (sysr c)(r := v)\<rparr>"

definition put_ctx :: "vcpu_reg \<Rightarrow> u64 \<Rightarrow> zvm_vcpu_context \<Rightarrow> zvm_vcpu_context" where
  "put_ctx i v x = x\<lparr>sys_regs := (sys_regs x)(i := v)\<rparr>"

section \<open>Entry and exit\<close>

text \<open>The macros that store all general registers and both stack pointers into a context and load them from there.\<close>

definition save_registers_context :: "cpu \<Rightarrow> zvm_vcpu_context \<Rightarrow> zvm_vcpu_context" where
  "save_registers_context c x = x\<lparr>xregs := (\<lambda>i. if i \<le> 30 then gpr c i else xregs x i), ctx_sp_el0 := sysr c SP_EL0, sp_elx := sysr c SP_EL1\<rparr>"

definition load_registers_context :: "zvm_vcpu_context \<Rightarrow> cpu \<Rightarrow> cpu" where
  "load_registers_context x c = wr SP_EL0 (ctx_sp_el0 x) (wr SP_EL1 (sp_elx x) (c\<lparr>gpr := (\<lambda>i. if i \<le> 30 then xregs x i else gpr c i)\<rparr>))"

text \<open>The entry stores the registers of the host and loads those of the guest; the exit does the reverse. The host finds the
  kind of exit in x0 and x1.\<close>

definition guest_vm_entry :: "vcpu_arch \<Rightarrow> cpu \<Rightarrow> vcpu_arch \<times> cpu" where
  "guest_vm_entry a c = (a\<lparr>hctxt := save_registers_context c (hctxt a)\<rparr>, load_registers_context (gctxt a) c)"

definition guest_vm_exit :: "u64 \<Rightarrow> vcpu_arch \<Rightarrow> cpu \<Rightarrow> vcpu_arch \<times> cpu" where
  "guest_vm_exit kind a c =
    (let c' = load_registers_context (hctxt a) c
     in (a\<lparr>gctxt := save_registers_context c (gctxt a)\<rparr>, c'\<lparr>gpr := (gpr c')(0 := kind, 1 := kind)\<rparr>))"

section \<open>The registers of EL1\<close>

text \<open>Which register goes where, in the order of the code.\<close>

definition sysreg_load_table :: "(sysreg \<times> vcpu_reg) list" where
  "sysreg_load_table =
    [(CSSELR_EL1, VCPU_CSSELR_EL1), (VPIDR_EL2, VCPU_MIDR_EL1), (VMPIDR_EL2, VCPU_MPIDR_EL1), (ACTLR_EL1, VCPU_ACTLR_EL1),
     (SCTLR_EL12, VCPU_SCTLR_EL1), (TCR_EL12, VCPU_TCR_EL1), (CPACR_EL12, VCPU_CPACR_EL1), (TTBR0_EL12, VCPU_TTBR0_EL1),
     (TTBR1_EL12, VCPU_TTBR1_EL1), (ESR_EL12, VCPU_ESR_EL1), (AFSR0_EL12, VCPU_AFSR0_EL1), (AFSR1_EL12, VCPU_AFSR1_EL1),
     (FAR_EL12, VCPU_FAR_EL1), (MAIR_EL12, VCPU_MAIR_EL1), (VBAR_EL12, VCPU_VBAR_EL1), (CONTEXTIDR_EL12, VCPU_CONTEXTIDR_EL1),
     (TPIDR_EL0, VCPU_TPIDR_EL0), (AMAIR_EL12, VCPU_AMAIR_EL1), (CNTKCTL_EL12, VCPU_CNTKCTL_EL1), (PAR_EL1, VCPU_PAR_EL1),
     (TPIDR_EL1, VCPU_TPIDR_EL1), (SP_EL1, VCPU_SP_EL1), (ELR_EL12, VCPU_ELR_EL1), (SPSR_EL12, VCPU_SPSR_EL1)]"

definition sysreg_save_table :: "(vcpu_reg \<times> sysreg) list" where
  "sysreg_save_table =
    [(VCPU_MIDR_EL1, VPIDR_EL2), (VCPU_MPIDR_EL1, VMPIDR_EL2), (VCPU_CSSELR_EL1, CSSELR_EL1), (VCPU_ACTLR_EL1, ACTLR_EL1),
     (VCPU_SCTLR_EL1, SCTLR_EL12), (VCPU_CPACR_EL1, CPACR_EL12), (VCPU_TTBR0_EL1, TTBR0_EL12), (VCPU_TTBR1_EL1, TTBR1_EL12),
     (VCPU_ESR_EL1, ESR_EL12), (VCPU_TCR_EL1, TCR_EL12), (VCPU_AFSR0_EL1, AFSR0_EL12), (VCPU_AFSR1_EL1, AFSR1_EL12),
     (VCPU_FAR_EL1, FAR_EL12), (VCPU_MAIR_EL1, MAIR_EL12), (VCPU_VBAR_EL1, VBAR_EL12), (VCPU_CONTEXTIDR_EL1, CONTEXTIDR_EL12),
     (VCPU_TPIDR_EL0, TPIDR_EL0), (VCPU_AMAIR_EL1, AMAIR_EL12), (VCPU_CNTKCTL_EL1, CNTKCTL_EL12), (VCPU_PAR_EL1, PAR_EL1),
     (VCPU_TPIDR_EL1, TPIDR_EL1), (VCPU_ELR_EL1, ELR_EL12), (VCPU_SPSR_EL1, SPSR_EL12)]"

definition vcpu_sysreg_load :: "vcpu_arch \<Rightarrow> cpu \<Rightarrow> vcpu_arch \<times> cpu" where
  "vcpu_sysreg_load a c =
    (let c = fold (\<lambda>(r, i). wr r (sys_regs (gctxt a) i)) sysreg_load_table c;
         c = wr HSTR_EL2 (BIT 15) c
     in (a\<lparr>vcpu_sys_register_loaded := True, host_mdcr_el2 := sysr c MDCR_EL2\<rparr>, wr MDCR_EL2 (guest_mdcr_el2 a) c))"

definition vcpu_sysreg_save :: "vcpu_arch \<Rightarrow> cpu \<Rightarrow> vcpu_arch" where
  "vcpu_sysreg_save a c =
    a\<lparr>gctxt := (fold (\<lambda>(i, r). put_ctx i (sysr c r)) sysreg_save_table (gctxt a))\<lparr>esf_elr := sysr c ELR_EL12, esf_spsr := sysr c SPSR_EL12\<rparr>,
      vcpu_sys_register_loaded := False\<rparr>"

section \<open>Around a run\<close>

definition HCR_VHE_FLAGS :: u64 where "HCR_VHE_FLAGS = BIT 31 OR BIT 27 OR BIT 34"

definition HCR_VM_FLAGS :: u64 where
  "HCR_VM_FLAGS = BIT 0 OR BIT 9 OR BIT 5 OR BIT 3 OR BIT 4 OR BIT 10 OR BIT 21 OR BIT 34 OR BIT 20 OR BIT 31 OR BIT 2"

text \<open>The value of CPTR_EL2 during a run; it is computed in 32 bits.\<close>

definition guest_cptr :: "u64 \<Rightarrow> u32" where
  "guest_cptr v = ((ucast v OR push_bit 28 1) AND NOT (push_bit 16 3)) OR push_bit 30 1 OR push_bit 20 3"

definition switch_to_guest_sysreg :: "u64 \<Rightarrow> vm_arch \<Rightarrow> vcpu_arch \<Rightarrow> cpu \<Rightarrow> vcpu_arch \<times> cpu" where
  "switch_to_guest_sysreg hyp_vector_table va a c =
    (let h = put_ctx VCPU_TPIDRRO_EL0 (sysr c TPIDRRO_EL0) (put_ctx VCPU_MDSCR_EL1 (sysr c MDSCR_EL1) (put_ctx VCPU_SPSR_EL1 (sysr c SPSR_EL2) (hctxt a)));
         g = gctxt a;
         c = wr VTTBR_EL2 (vttbr va) (wr VTCR_EL2 (vtcr_el2 va) c);
         c = wr HCR_EL2 (hcr_el2 a) c;
         c = wr CPTR_EL2 (ucast (guest_cptr (sysr c CPTR_EL2))) c;
         c = wr VBAR_EL2 hyp_vector_table c;
         c = wr VMPIDR_EL2 (sys_regs g VCPU_MPIDR_EL1) (wr TPIDR_EL1 (sys_regs g VCPU_TPIDR_EL1) (wr TPIDRRO_EL0 (sys_regs g VCPU_TPIDRRO_EL0) c));
         c = wr SPSR_EL2 (pstate g) (wr ELR_EL2 (ctx_pc g) c)
     in (a\<lparr>hctxt := h\<rparr>, wr ICC_CTLR_EL1 (ucast (icc_ctlr_el1 (virq_data a) AND NOT 2)) c))"

definition switch_to_host_sysreg :: "u64 \<Rightarrow> vm_arch \<Rightarrow> vcpu_arch \<Rightarrow> cpu \<Rightarrow> vm_arch \<times> vcpu_arch \<times> cpu" where
  "switch_to_host_sysreg vector_table va a c =
    (let g = put_ctx VCPU_TPIDR_EL1 (sysr c TPIDR_EL1) (put_ctx VCPU_TPIDRRO_EL0 (sysr c TPIDRRO_EL0) (gctxt a));
         g = g\<lparr>ctx_pc := sysr c ELR_EL2, pstate := sysr c SPSR_EL2\<rparr>;
         c = wr ICC_CTLR_EL1 (ucast (icc_ctlr_el1 (virq_data a) OR 2)) c;
         a = a\<lparr>gctxt := g, hcr_el2 := if hcr_el2 a AND BIT 8 \<noteq> 0 then sysr c HCR_EL2 else hcr_el2 a\<rparr>;
         c = wr VBAR_EL2 vector_table (wr HCR_EL2 HCR_VHE_FLAGS c);
         va = va\<lparr>vtcr_el2 := sysr c VTCR_EL2, vttbr := sysr c VTTBR_EL2\<rparr>;
         h = hctxt a
     in (va, a, wr TPIDRRO_EL0 (sys_regs h VCPU_TPIDRRO_EL0) (wr SPSR_EL2 (sys_regs h VCPU_SPSR_EL1) (wr MDSCR_EL1 (sys_regs h VCPU_MDSCR_EL1) c))))"

text \<open>One run as \<^verbatim>\<open>arch_vcpu_run\<close> has it: \<^verbatim>\<open>guest\<close> is what the guest does with the CPU until it leaves it, with the kind of exit.\<close>

definition run_guest :: "u64 \<Rightarrow> u64 \<Rightarrow> (cpu \<Rightarrow> u64 \<times> cpu) \<Rightarrow> vm_arch \<Rightarrow> vcpu_arch \<Rightarrow> cpu \<Rightarrow> vm_arch \<times> vcpu_arch \<times> cpu" where
  "run_guest hyp_vector_table vector_table guest va a c =
    (case switch_to_guest_sysreg hyp_vector_table va a c of (a, c) \<Rightarrow>
     case guest_vm_entry a c of (a, c) \<Rightarrow>
     case guest c of (kind, c) \<Rightarrow>
     case guest_vm_exit kind a c of (a, c) \<Rightarrow> switch_to_host_sysreg vector_table va a c)"

section \<open>Between vCPUs\<close>

definition vcpu_vtimer_save :: "vcpu_arch \<Rightarrow> cpu \<Rightarrow> vcpu_arch \<times> cpu" where
  "vcpu_vtimer_save a c =
    (a\<lparr>v_cntv_ctl := ucast (sysr c CNTV_CTL_EL02), v_cntv_cval := sysr c CNTV_CVAL_EL02, v_timer_offset := sysr c CNTVOFF_EL2\<rparr>,
     wr CNTV_CTL_EL02 0 c)"

text \<open>\<^verbatim>\<open>main_offset\<close> is the offset of the first vCPU of the VM.\<close>

definition vcpu_vtimer_load :: "u64 \<Rightarrow> vcpu_arch \<Rightarrow> cpu \<Rightarrow> vcpu_arch \<times> cpu" where
  "vcpu_vtimer_load main_offset a c =
    (let a = (if a_first_run a
              then (if a_id a \<noteq> 0 then a\<lparr>a_first_run := False, v_timer_offset := main_offset\<rparr>
                    else a\<lparr>a_first_run := False, v_cntp_cnt := sysr c CNTPCT_EL0, v_timer_offset := sysr c CNTVCT_EL0\<rparr>)
              else a)
     in (a, wr CNTV_CTL_EL02 (ucast (v_cntv_ctl a)) (wr CNTV_CVAL_EL02 (v_cntv_cval a) (wr CNTVOFF_EL2 (v_timer_offset a) c))))"

text \<open>
  The contexts with the interrupt controller of the VM. \<^verbatim>\<open>n\<close> is CONFIG_NUM_IRQS and \<^verbatim>\<open>devs\<close> the devices of the VM.
\<close>

definition vcpu_vgic_save :: "nat \<Rightarrow> (bool \<times> nat) list \<Rightarrow> vcpu_arch \<Rightarrow> vgic \<times> gich_regs \<Rightarrow> (vcpu_arch \<times> vgic \<times> gich_regs) outcome" where
  "vcpu_vgic_save n devs a g = bind_outcome (cpu_virq_sync_lock (a_id a) (fst g)) (\<lambda>(_, vg).
     case vgicv3_state_save n devs (a_id a) (vg, snd g) (virq_data a) of (x, vg) \<Rightarrow> Done (a\<lparr>virq_data := x\<rparr>, vg, snd g))"

definition vcpu_vgic_load :: "nat \<Rightarrow> (bool \<times> nat) list \<Rightarrow> vcpu_arch \<Rightarrow> vgic \<times> gich_regs \<Rightarrow> (vgic \<times> gich_regs) outcome" where
  "vcpu_vgic_load n devs a g =
    (case vgicv3_state_load n devs (a_id a) (virq_data a) g of (vg, hw) \<Rightarrow>
       bind_outcome (cpu_virq_flush_lock (a_id a) vg) (\<lambda>(_, vg). Done (vg, hw)))"

definition arch_vcpu_context_save :: "nat \<Rightarrow> (bool \<times> nat) list \<Rightarrow> vcpu_arch \<Rightarrow> cpu \<Rightarrow> vgic \<times> gich_regs \<Rightarrow> (vcpu_arch \<times> cpu \<times> vgic \<times> gich_regs) outcome" where
  "arch_vcpu_context_save n devs a c g = bind_outcome (vcpu_vgic_save n devs a g) (\<lambda>(a, g).
     case vcpu_vtimer_save a c of (a, c) \<Rightarrow> Done (vcpu_sysreg_save a c, c, g))"

definition arch_vcpu_context_load :: "nat \<Rightarrow> (bool \<times> nat) list \<Rightarrow> nat \<Rightarrow> u64 \<Rightarrow> vcpu_arch \<Rightarrow> cpu \<Rightarrow> vgic \<times> gich_regs
    \<Rightarrow> (vcpu_arch \<times> cpu \<times> vgic \<times> gich_regs) outcome" where
  "arch_vcpu_context_load n devs this_cpu main_offset a c g =
    (case vcpu_sysreg_load (a\<lparr>a_cpu := this_cpu\<rparr>) c of (a, c) \<Rightarrow>
     case vcpu_vtimer_load main_offset a c of (a, c) \<Rightarrow>
     bind_outcome (vcpu_vgic_load n devs a g) (\<lambda>g.
       Done (a\<lparr>hcr_el2 := (hcr_el2 a AND NOT (BIT 14)) AND NOT (BIT 13)\<rparr>, c, g)))"

section \<open>A new vCPU\<close>

text \<open>
  \<^verbatim>\<open>mpidr_list\<close> are the identities of the CPUs and \<^verbatim>\<open>mpidr_bits\<close> the number of bits that the board keeps; \<^verbatim>\<open>m\<close> are the results of k_malloc.
\<close>

definition arch_vcpu_sys_regs_init :: "(nat \<Rightarrow> u64) \<Rightarrow> nat \<Rightarrow> nat \<Rightarrow> cpu \<Rightarrow> vcpu_reg \<Rightarrow> u64" where
  "arch_vcpu_sys_regs_init mpidr_list mpidr_bits i c =
    (\<lambda>_. 0)(VCPU_MIDR_EL1 := sysr c MIDR_EL1, VCPU_MPIDR_EL1 := take_bit mpidr_bits (mpidr_list i), VCPU_CPACR_EL1 := push_bit 20 3,
      VCPU_VPIDR := 0x410fc050, VCPU_TPIDR_EL0 := sysr c TPIDR_EL0, VCPU_TPIDRRO_EL0 := sysr c TPIDRRO_EL0, VCPU_CSSELR_EL1 := sysr c CSSELR_EL1,
      VCPU_SCTLR_EL1 := 0x30C50838, VCPU_SPSR_EL1 := 5)"

definition arch_vcpu_common_regs_init :: "u64 \<Rightarrow> zvm_vcpu_context" where
  "arch_vcpu_common_regs_init entry_point = \<lparr>xregs = (\<lambda>_. 0), ctx_sp_el0 = 0, sp_elx = 0, esf_elr = 0, esf_spsr = 0,
     ctx_pc = entry_point, pstate = 5 OR BIT 9 OR BIT 8 OR BIT 7 OR BIT 6, sys_regs = (\<lambda>_. 0)\<rparr>"

text \<open>The timer: its interrupt numbers are those of the global timer. The interrupt of the virtual timer is passed through (\<^verbatim>\<open>pt\<close> is the
  bitmap of the VM) and bound to the hardware.\<close>

definition arch_vcpu_timer_init :: "bool \<Rightarrow> nat \<times> nat \<Rightarrow> vcpu_arch \<Rightarrow> cpu \<Rightarrow> (nat \<Rightarrow> bool) \<Rightarrow> vgic \<Rightarrow> (int \<times> vcpu_arch \<times> (nat \<Rightarrow> bool) \<times> vgic) outcome" where
  "arch_vcpu_timer_init malloc irqs a c pt g =
    (if \<not> malloc then Fault
     else let a = a\<lparr>v_timer_offset := sysr c CNTPCT_EL0, v_cntv_ctl := 2, v_cntp_ctl := 2, v_cntv_cval := 0, v_cntp_cnt := 0,
                virt_virq := fst irqs, virt_pirq := snd irqs\<rparr>
          in case VGIC_GET_VIRQ_DESC (a_id a) (virt_virq a) g of
               None \<Rightarrow> Fault
             | Some d \<Rightarrow> Done (0, a, pt(virt_virq a := True), put_desc (a_id a) (virt_virq a) (d\<lparr>bind_hwirq_flag := True\<rparr>) g))"

definition arch_vcpu_timer_deinit :: "cpu \<Rightarrow> int \<times> cpu" where
  "arch_vcpu_timer_deinit c =
    (0, wr CNTP_CTL_EL02 (sysr c CNTP_CTL_EL02 AND NOT 1) (wr CNTV_CTL_EL02 (sysr c CNTV_CTL_EL02 AND NOT 1) c))"

definition vcpu_virq_init :: "bool \<Rightarrow> vcpu_arch \<Rightarrow> cpu \<Rightarrow> int \<times> vcpu_arch" where
  "vcpu_virq_init malloc a c =
    (if \<not> malloc then (- ENXIO, a)
     else (0, a\<lparr>virq_data := vcpu_gicv3_init (ucast (sysr c ICC_CTLR_EL1))
       \<lparr>c_lr = (\<lambda>_. 0), c_ap0r = (\<lambda>_. 0), c_ap1r = (\<lambda>_. 0), icc_sre_el1 = 0, icc_ctlr_el1 = 0, ich_vmcr_el2 = 0, ich_hcr_el2 = 0\<rparr>\<rparr>))"

definition pass_dtb :: "u64 option \<Rightarrow> vcpu_arch \<Rightarrow> vcpu_arch" where
  "pass_dtb dtb a = (case dtb of
     None \<Rightarrow> a
   | Some addr \<Rightarrow> a\<lparr>gctxt := (gctxt a)\<lparr>xregs := (xregs (gctxt a))(0 := addr, 1 := 0, 2 := 0, 3 := 0, 20 := addr, 21 := 0, 22 := 0, 23 := 0)\<rparr>\<rparr>)"

text \<open>The address of the device tree is passed if CONFIG_VM_DTB_FILE_INPUT is set.\<close>

definition arch_vcpu_init :: "bool \<times> bool \<Rightarrow> (nat \<Rightarrow> u64) \<Rightarrow> nat \<Rightarrow> nat \<times> nat \<Rightarrow> u64 \<Rightarrow> u64 option \<Rightarrow> u16 \<Rightarrow> vm_arch \<Rightarrow> vcpu_arch \<Rightarrow> cpu \<Rightarrow> (nat \<Rightarrow> bool) \<Rightarrow> vgic
    \<Rightarrow> (int \<times> vm_arch \<times> vcpu_arch \<times> (nat \<Rightarrow> bool) \<times> vgic) outcome" where
  "arch_vcpu_init m mpidr_list mpidr_bits irqs entry_point dtb vmid va a c pt g =
    (let a = a\<lparr>hcr_el2 := HCR_VM_FLAGS, guest_mdcr_el2 := 0, host_mdcr_el2 := 0, vcpu_sys_register_loaded := False\<rparr>;
         va = va\<lparr>vtcr_el2 := 0x20 OR BIT 6 OR BIT 8 OR BIT 10 OR BIT 12 OR BIT 13 OR BIT 31, vttbr := ucast vmid OR vm_pgd_base va\<rparr>;
         a = a\<lparr>gctxt := (arch_vcpu_common_regs_init entry_point)\<lparr>sys_regs := arch_vcpu_sys_regs_init mpidr_list mpidr_bits (a_id a) c\<rparr>\<rparr>
     in case vcpu_virq_init (fst m) a c of (ret, a) \<Rightarrow>
          if ret \<noteq> 0 then Done (ret, va, a, pt, g)
          else bind_outcome (arch_vcpu_timer_init (snd m) irqs a c pt g) (\<lambda>(ret, a, pt, g).
            if ret \<noteq> 0 then Done (ret, va, a, pt, g) else Done (ret, va, pass_dtb dtb a, pt, g)))"

definition arch_vcpu_sys_regs_deinit :: "vcpu_arch \<Rightarrow> vcpu_arch" where
  "arch_vcpu_sys_regs_deinit a = a\<lparr>gctxt := (gctxt a)\<lparr>sys_regs := (\<lambda>_. 0)\<rparr>\<rparr>"

section \<open>Interrupts of the timers\<close>

text \<open>The virtual timer of the running vCPU fired: it is masked and the vCPU gets the interrupt. A vCPU that is being deleted loses its timer.\<close>

definition arm_arch_virt_vtimer_compare_isr :: "bool \<Rightarrow> vcpu_arch \<Rightarrow> cpu \<Rightarrow> vgic \<Rightarrow> (int \<times> vcpu_arch \<times> cpu \<times> vgic) outcome" where
  "arm_arch_virt_vtimer_compare_isr deleting a c g =
    (let cntvctl = ucast (sysr c CNTV_CTL_EL02) :: u32
     in if cntvctl AND 4 = 0 then Done (- EINTR, a, c, g)
        else let a = a\<lparr>v_cntv_ctl := cntvctl OR 2\<rparr>; c = wr CNTV_CTL_EL02 (ucast (v_cntv_ctl a)) c
             in bind_outcome (set_virq_to_vcpu (a_id a) (virt_virq a) 1 g) (\<lambda>(ret, g).
                  if ret \<noteq> 0 then Done (ret, a, c, g)
                  else if deleting
                  then let a = a\<lparr>v_cntv_ctl := v_cntv_ctl a AND NOT 1\<rparr>
                       in Done (0, a, wr CNTV_CTL_EL02 (ucast (v_cntv_ctl a)) c, g\<lparr>hw_irq := (hw_irq g)(virt_virq a := False)\<rparr>)
                  else Done (0, a, c, g)))"

definition arm_arch_virt_ptimer_compare_isr :: "vcpu_arch \<Rightarrow> vgic \<Rightarrow> (int \<times> vgic) outcome" where
  "arm_arch_virt_ptimer_compare_isr a g = bind_outcome (set_virq_to_vcpu (a_id a) (virt_pirq a) 1 g) (\<lambda>(ret, g). Done (if ret \<noteq> 0 then ret else 0, g))"

end
