(* ===== verification/Vcpu_Context_Props.thy ===== *)
theory Vcpu_Context_Props
  imports Vcpu_Context Vgic_Raise
begin

text \<open>
  A guest does not notice that it was stopped, and the host does not notice what a guest did: the registers of each
  side survive a run of the other.
\<close>

section \<open>Tables of registers\<close>

lemma wr_sel [simp]: "sysr (wr r v c) = (sysr c)(r := v)" "gpr (wr r v c) = gpr c"
  by (simp_all add: wr_def)

lemma put_ctx_sel [simp]:
  "sys_regs (put_ctx i v x) = (sys_regs x)(i := v)" "xregs (put_ctx i v x) = xregs x" "ctx_sp_el0 (put_ctx i v x) = ctx_sp_el0 x"
  "sp_elx (put_ctx i v x) = sp_elx x" "ctx_pc (put_ctx i v x) = ctx_pc x" "pstate (put_ctx i v x) = pstate x"
  by (simp_all add: put_ctx_def)

lemma load_table: "sysr (fold (\<lambda>(r, i). wr r (f i)) tab c) r = (case map_of (rev tab) r of Some i \<Rightarrow> f i | None \<Rightarrow> sysr c r)"
  "gpr (fold (\<lambda>(r, i). wr r (f i)) tab c) = gpr c"
  by (induction tab arbitrary: c) (auto simp: map_add_def split: option.splits)

lemma save_table: "sys_regs (fold (\<lambda>(i, r). put_ctx i (f r)) tab x) i = (case map_of (rev tab) i of Some r \<Rightarrow> f r | None \<Rightarrow> sys_regs x i)"
  "xregs (fold (\<lambda>(i, r). put_ctx i (f r)) tab x) = xregs x" "ctx_sp_el0 (fold (\<lambda>(i, r). put_ctx i (f r)) tab x) = ctx_sp_el0 x"
  "sp_elx (fold (\<lambda>(i, r). put_ctx i (f r)) tab x) = sp_elx x" "ctx_pc (fold (\<lambda>(i, r). put_ctx i (f r)) tab x) = ctx_pc x"
  "pstate (fold (\<lambda>(i, r). put_ctx i (f r)) tab x) = pstate x"
  by (induction tab arbitrary: x) (auto simp: map_add_def split: option.splits)

section \<open>Stopping and resuming a guest\<close>

text \<open>
  A vCPU leaves its CPU: the exit code, the host's system registers, and the context of the vCPU is stored. It is taken up
  again the other way round. \<^verbatim>\<open>kind\<close> is the kind of exit, \<^verbatim>\<open>vt\<close> and \<^verbatim>\<open>hv\<close> are the vector tables.
\<close>

definition leave_guest :: "u64 \<Rightarrow> u64 \<Rightarrow> nat \<Rightarrow> (bool \<times> nat) list \<Rightarrow> vm_arch \<Rightarrow> vcpu_arch \<Rightarrow> cpu \<Rightarrow> vgic \<times> gich_regs
    \<Rightarrow> (vm_arch \<times> vcpu_arch \<times> cpu \<times> vgic \<times> gich_regs) outcome" where
  "leave_guest kind vt n devs va a c g =
    (case guest_vm_exit kind a c of (a, c) \<Rightarrow> case switch_to_host_sysreg vt va a c of (va, a, c) \<Rightarrow>
       bind_outcome (arch_vcpu_context_save n devs a c g) (\<lambda>(a, c, g). Done (va, a, c, g)))"

definition enter_guest :: "u64 \<Rightarrow> nat \<Rightarrow> (bool \<times> nat) list \<Rightarrow> nat \<Rightarrow> u64 \<Rightarrow> vm_arch \<Rightarrow> vcpu_arch \<Rightarrow> cpu \<Rightarrow> vgic \<times> gich_regs
    \<Rightarrow> (vcpu_arch \<times> cpu \<times> vgic \<times> gich_regs) outcome" where
  "enter_guest hv n devs this_cpu main_offset va a c g =
    bind_outcome (arch_vcpu_context_load n devs this_cpu main_offset a c g) (\<lambda>(a, c, g).
      case switch_to_guest_sysreg hv va a c of (a, c) \<Rightarrow> case guest_vm_entry a c of (a, c) \<Rightarrow> Done (a, c, g))"

text \<open>The system registers that a guest can reach.\<close>

definition guest_sysregs :: "sysreg list" where
  "guest_sysregs =
    [CSSELR_EL1, VPIDR_EL2, VMPIDR_EL2, ACTLR_EL1, SCTLR_EL12, TCR_EL12, CPACR_EL12, TTBR0_EL12, TTBR1_EL12, ESR_EL12, AFSR0_EL12,
     AFSR1_EL12, FAR_EL12, MAIR_EL12, VBAR_EL12, CONTEXTIDR_EL12, TPIDR_EL0, TPIDRRO_EL0, AMAIR_EL12, CNTKCTL_EL12, PAR_EL1, TPIDR_EL1,
     SP_EL0, SP_EL1, ELR_EL12, SPSR_EL12, SPSR_EL2, ELR_EL2, CNTV_CVAL_EL02, CNTVOFF_EL2]"

text \<open>What is stored when a vCPU leaves: \<^verbatim>\<open>a\<close> then holds the registers of \<^verbatim>\<open>c\<close>.\<close>

definition stored_registers :: "cpu \<Rightarrow> vcpu_arch \<Rightarrow> bool" where
  "stored_registers c a \<longleftrightarrow> (\<forall>i\<in>{0..30}. xregs (gctxt a) i = gpr c i) \<and> ctx_sp_el0 (gctxt a) = sysr c SP_EL0 \<and> sp_elx (gctxt a) = sysr c SP_EL1
     \<and> ctx_pc (gctxt a) = sysr c ELR_EL2 \<and> pstate (gctxt a) = sysr c SPSR_EL2 \<and> sys_regs (gctxt a) VCPU_TPIDRRO_EL0 = sysr c TPIDRRO_EL0
     \<and> (\<forall>(i, r)\<in>set sysreg_save_table. sys_regs (gctxt a) i = sysr c r)
     \<and> v_cntv_ctl a = ucast (sysr c CNTV_CTL_EL02) \<and> v_cntv_cval a = sysr c CNTV_CVAL_EL02 \<and> v_timer_offset a = sysr c CNTVOFF_EL2"

lemmas context_steps = guest_vm_exit_def guest_vm_entry_def switch_to_host_sysreg_def switch_to_guest_sysreg_def
  save_registers_context_def load_registers_context_def Let_def

lemma context_save_cases:
  assumes "arch_vcpu_context_save n devs a c g = Done (a', c', g')"
  shows "\<exists>x. (a', c') = (case vcpu_vtimer_save (a\<lparr>virq_data := x\<rparr>) c of (a, c) \<Rightarrow> (vcpu_sysreg_save a c, c))"
  using assms by (auto simp: arch_vcpu_context_save_def vcpu_vgic_save_def case_prod_beta)

lemma context_load_cases:
  assumes "arch_vcpu_context_load n devs this_cpu main_offset a c g = Done (a', c', g')"
  shows "\<exists>h. a' = fst (case_prod (vcpu_vtimer_load main_offset) (vcpu_sysreg_load (a\<lparr>a_cpu := this_cpu\<rparr>) c))\<lparr>hcr_el2 := h\<rparr>"
    "c' = snd (case_prod (vcpu_vtimer_load main_offset) (vcpu_sysreg_load (a\<lparr>a_cpu := this_cpu\<rparr>) c))"
  using assms by (auto simp: arch_vcpu_context_load_def case_prod_beta)

lemma leave_guest_stores:
  assumes "leave_guest kind vt n devs va a c g = Done (va', a', c', g')"
  shows "stored_registers c a'" "a_first_run a' = a_first_run a"
proof -
  obtain a1 c1 a2 c2 where 1: "guest_vm_exit kind a c = (a1, c1)" "switch_to_host_sysreg vt va a1 c1 = (va', a2, c2)"
      "arch_vcpu_context_save n devs a2 c2 g = Done (a', c', g')"
    using assms by (auto simp: leave_guest_def case_prod_beta prod_eq_iff)
  obtain x where 2: "a' = vcpu_sysreg_save (fst (vcpu_vtimer_save (a2\<lparr>virq_data := x\<rparr>) c2)) (snd (vcpu_vtimer_save (a2\<lparr>virq_data := x\<rparr>) c2))"
    using context_save_cases[OF 1(3)] by (auto simp: case_prod_beta)
  show "stored_registers c a'" "a_first_run a' = a_first_run a"
    using 1(1,2) by (auto simp: 2 context_steps stored_registers_def vcpu_vtimer_save_def vcpu_sysreg_save_def save_table sysreg_save_table_def)
qed

lemma ucast_via_32: "ucast (ucast (v :: u64) :: u32) = take_bit 32 v"
  by (rule bit_word_eqI) (auto simp: bit_simps)

lemma enter_guest_loads:
  assumes "enter_guest hv n devs this_cpu main_offset va a c g = Done (a', c', g')" "stored_registers c0 a" "\<not> a_first_run a"
  shows "\<forall>i\<in>{0..30}. gpr c' i = gpr c0 i" "\<forall>r\<in>set guest_sysregs. sysr c' r = sysr c0 r"
    "sysr c' CNTV_CTL_EL02 = take_bit 32 (sysr c0 CNTV_CTL_EL02)" "sysr c' MDSCR_EL1 = sysr c MDSCR_EL1"
proof -
  obtain a1 c1 g1 where 1: "arch_vcpu_context_load n devs this_cpu main_offset a c g = Done (a1, c1, g1)"
      "c' = snd (case switch_to_guest_sysreg hv va a1 c1 of (a, c) \<Rightarrow> guest_vm_entry a c)"
    using assms(1) by (auto simp: enter_guest_def case_prod_beta)
  obtain h where 2: "a1 = fst (case_prod (vcpu_vtimer_load main_offset) (vcpu_sysreg_load (a\<lparr>a_cpu := this_cpu\<rparr>) c))\<lparr>hcr_el2 := h\<rparr>"
    using context_load_cases(1)[OF 1(1)] by blast
  note sel = 1(2) 2 context_load_cases(2)[OF 1(1)] context_steps vcpu_sysreg_load_def vcpu_vtimer_load_def load_table sysreg_load_table_def
  show "\<forall>i\<in>{0..30}. gpr c' i = gpr c0 i"
    using assms(2,3) by (auto simp: sel stored_registers_def)
  show "\<forall>r\<in>set guest_sysregs. sysr c' r = sysr c0 r"
    using assms(2,3) by (simp add: sel stored_registers_def sysreg_save_table_def guest_sysregs_def)
  show "sysr c' CNTV_CTL_EL02 = take_bit 32 (sysr c0 CNTV_CTL_EL02)"
    using assms(2,3) by (simp add: sel stored_registers_def ucast_via_32)
  show "sysr c' MDSCR_EL1 = sysr c MDSCR_EL1"
    using assms(3) by (simp add: sel)
qed

lemma hw_irq_enable_lock: "vgic_lock (arch_hw_irq_enable n devs v st) = vgic_lock st"
  unfolding arch_hw_irq_enable_def by (induction devs arbitrary: st) (auto simp: case_prod_beta)

lemma leave_guest_returns:
  assumes "\<not> vgic_lock (fst g)"
  shows "\<exists>va' a' c' g'. leave_guest kind vt n devs va a c g = Done (va', a', c', g')"
  using assms by (simp add: leave_guest_def arch_vcpu_context_save_def vcpu_vgic_save_def cpu_virq_sync_lock_def with_lock_def case_prod_beta)

lemma enter_guest_returns:
  assumes "\<not> vgic_lock (fst g)"
  shows "\<exists>a' c' g'. enter_guest hv n devs this_cpu main_offset va a c g = Done (a', c', g')"
  using assms by (simp add: enter_guest_def arch_vcpu_context_load_def vcpu_vgic_load_def vgicv3_state_load_def vgicv3_lrs_load_def hw_irq_enable_lock
      cpu_virq_flush_lock_def with_lock_def case_prod_beta)


definition cpu_all :: "u64 \<Rightarrow> cpu" where "cpu_all v = \<lparr>gpr = (\<lambda>_. v), sysr = (\<lambda>_. v)\<rparr>"

definition vcpu_arch_zero :: vcpu_arch where
  "vcpu_arch_zero = \<lparr>a_id = 0, a_first_run = False, a_cpu = 0, gctxt = arch_vcpu_common_regs_init 0, hctxt = arch_vcpu_common_regs_init 0, hcr_el2 = 0,
     host_mdcr_el2 = 0, guest_mdcr_el2 = 0, vcpu_sys_register_loaded = False, v_cntv_ctl = 0, v_cntv_cval = 0, v_timer_offset = 0,
     v_cntp_cnt = 0, v_cntp_ctl = 0, virt_virq = 27, virt_pirq = 30, virq_data = ctxt_zero\<rparr>"

definition vm_arch_zero :: vm_arch where "vm_arch_zero = \<lparr>vtcr_el2 = 0, vttbr = 0, vm_pgd_base = 0\<rparr>"


section \<open>The host\<close>



section \<open>A new guest\<close>

lemma pass_dtb_sel:
  "ctx_pc (gctxt (pass_dtb d a)) = ctx_pc (gctxt a)" "pstate (gctxt (pass_dtb d a)) = pstate (gctxt a)"
  "sys_regs (gctxt (pass_dtb d a)) = sys_regs (gctxt a)" "hcr_el2 (pass_dtb d a) = hcr_el2 a"
  "xregs (gctxt (pass_dtb d a)) 0 = (case d of None \<Rightarrow> xregs (gctxt a) 0 | Some addr \<Rightarrow> addr)"
  by (simp_all add: pass_dtb_def split: option.splits)

lemma new_vcpu_context:
  assumes "arch_vcpu_init m mpidr_list mpidr_bits irqs entry_point dtb vmid va a c pt vg = Done (0, va1, a1, pt1, vg1)"
  shows "ctx_pc (gctxt a1) = entry_point" "pstate (gctxt a1) = 0x3C5" "xregs (gctxt a1) 0 = (case dtb of None \<Rightarrow> 0 | Some addr \<Rightarrow> addr)"
    "sys_regs (gctxt a1) = arch_vcpu_sys_regs_init mpidr_list mpidr_bits (a_id a) c" "vttbr va1 = ucast vmid OR vm_pgd_base va" "hcr_el2 a1 = HCR_VM_FLAGS"
proof -
  note d = arch_vcpu_init_def vcpu_virq_init_def arch_vcpu_timer_init_def Let_def
  have fm: "fst m" using assms by (rule contrapos_pp) (simp add: d ENXIO_def)
  have sm: "snd m" using assms fm by (cases "snd m") (simp_all add: d)
  obtain b where b: "a1 = pass_dtb dtb b" "gctxt b = (arch_vcpu_common_regs_init entry_point)\<lparr>sys_regs := arch_vcpu_sys_regs_init mpidr_list mpidr_bits (a_id a) c\<rparr>"
      "hcr_el2 b = HCR_VM_FLAGS" and v: "vttbr va1 = ucast vmid OR vm_pgd_base va"
    using assms fm sm by (auto simp: d split: option.split_asm)
  show "ctx_pc (gctxt a1) = entry_point" "pstate (gctxt a1) = 0x3C5" "xregs (gctxt a1) 0 = (case dtb of None \<Rightarrow> 0 | Some addr \<Rightarrow> addr)"
    "sys_regs (gctxt a1) = arch_vcpu_sys_regs_init mpidr_list mpidr_bits (a_id a) c" "hcr_el2 a1 = HCR_VM_FLAGS"
    by (simp_all add: b pass_dtb_sel arch_vcpu_common_regs_init_def BIT_def zvm_word split: option.splits)
  show "vttbr va1 = ucast vmid OR vm_pgd_base va" by (rule v)
qed

lemma context_load_a:
  assumes "arch_vcpu_context_load n devs this_cpu main_offset a c g = Done (a', c', g')"
  shows "gctxt a' = gctxt a" "hcr_el2 a' = (hcr_el2 a AND NOT (BIT 14)) AND NOT (BIT 13)"
  using assms by (auto simp: arch_vcpu_context_load_def vcpu_sysreg_load_def vcpu_vtimer_load_def Let_def simp del: bit_simps)

text \<open>
  The first entry of a vCPU whose initialisation succeeded: it starts at the entry point of the image in EL1 with all exceptions masked,
  with the MMU off, x0 the address of the device tree if there is one, its own identity, and the translation tables of the VM. Its
  \<^verbatim>\<open>TPIDRRO_EL0\<close> is the per-CPU pointer of the host at the time of the initialisation.
\<close>

theorem new_guest_starts:
  assumes "arch_vcpu_init m mpidr_list mpidr_bits irqs entry_point dtb vmid va a c pt vg = Done (0, va1, a1, pt1, vg1)"
    and "enter_guest hv n devs this_cpu main_offset va1 a1 c1 g = Done (a2, c2, g2)"
  shows "sysr c2 ELR_EL2 = entry_point \<and> sysr c2 SPSR_EL2 = 0x3C5 \<and> \<not> bit (sysr c2 SCTLR_EL12) 0
    \<and> gpr c2 0 = (case dtb of None \<Rightarrow> 0 | Some addr \<Rightarrow> addr) \<and> sysr c2 VMPIDR_EL2 = take_bit mpidr_bits (mpidr_list (a_id a))
    \<and> sysr c2 VTTBR_EL2 = ucast vmid OR vm_pgd_base va \<and> sysr c2 HCR_EL2 AND BIT 0 \<noteq> 0 \<and> sysr c2 TPIDRRO_EL0 = sysr c TPIDRRO_EL0"
proof -
  obtain a3 c3 g3 where 1: "arch_vcpu_context_load n devs this_cpu main_offset a1 c1 g = Done (a3, c3, g3)"
      "c2 = snd (case switch_to_guest_sysreg hv va1 a3 c3 of (a, c) \<Rightarrow> guest_vm_entry a c)"
    using assms(2) by (auto simp: enter_guest_def case_prod_beta)
  have 2: "gctxt a3 = gctxt a1" "hcr_el2 a3 = (hcr_el2 a1 AND NOT (BIT 14)) AND NOT (BIT 13)"
    using context_load_a[OF 1(1)] by simp_all
  have 3: "sysr c3 SCTLR_EL12 = sys_regs (gctxt a1) VCPU_SCTLR_EL1"
    using context_load_cases(2)[OF 1(1)] by (simp add: vcpu_sysreg_load_def vcpu_vtimer_load_def Let_def load_table sysreg_load_table_def)
  have 4: "((HCR_VM_FLAGS AND NOT (BIT 14)) AND NOT (BIT 13)) AND BIT 0 \<noteq> 0" by (simp add: HCR_VM_FLAGS_def BIT_def zvm_word)
  show ?thesis using 4 by (simp add: 1(2) context_steps 2 3 new_vcpu_context[OF assms(1)] arch_vcpu_sys_regs_init_def)
qed

end
