(* ===== verification/Load_Image.thy ===== *)
theory Load_Image
  imports Os_Config_Props
begin

text \<open>
  Loading a guest (\<^verbatim>\<open>load_vm_image\<close> of \<^verbatim>\<open>os.c\<close>, \<^verbatim>\<open>load_os_image\<close> of \<^verbatim>\<open>zvm.c\<close>): the image, and for Linux its device tree and its root
  file system, are copied to their places in whole megabytes. Memory is a function from physical addresses; the windows that are mapped
  for each megabyte and unmapped behind it are left out. Of \<^verbatim>\<open>linux_dtb_cpy_config_t\<close> the address is \<^verbatim>\<open>cpy_image_base\<close>.
\<close>

section \<open>Operations\<close>

type_synonym memory = "u64 \<Rightarrow> u8"

definition MB_SIZE :: nat where "MB_SIZE = 1024 * 1024"

definition memcpy :: "u64 \<Rightarrow> u64 \<Rightarrow> nat \<Rightarrow> memory \<Rightarrow> memory" where
  "memcpy d s n mem = (\<lambda>a. if unat (a - d) < n then mem (s + (a - d)) else mem a)"

primrec copy_mbs :: "nat \<Rightarrow> u64 \<Rightarrow> u64 \<Rightarrow> memory \<Rightarrow> memory" where
  "copy_mbs 0 src_hpa des_hpa mem = mem"
| "copy_mbs (Suc num_m) src_hpa des_hpa mem =
     copy_mbs num_m (src_hpa + of_nat MB_SIZE) (des_hpa + of_nat MB_SIZE) (memcpy des_hpa src_hpa MB_SIZE mem)"

definition mbs :: "u64 \<Rightarrow> nat" where
  "mbs sz = unat (sz div of_nat MB_SIZE)"

text \<open>\<^verbatim>\<open>rfs\<close> is the first entry of \<^verbatim>\<open>linux_cpies_rootfs_addr\<close> and \<^verbatim>\<open>linux_cpies_rootfs_size\<close>. The address of the device tree is read
  from the configuration without a test that there is one.\<close>

definition load_vm_image :: "u64 \<times> u64 \<Rightarrow> z_os \<Rightarrow> os_state \<Rightarrow> memory \<Rightarrow> (int \<times> memory) outcome" where
  "load_vm_image rfs os s mem =
    (let i = os_info os; mem = copy_mbs (mbs (vm_image_size i)) (vm_image_base i) (vm_load_base i) mem
     in if os_type i \<noteq> OS_TYPE_LINUX then Done (0, mem)
        else case guest_config_available (os_vcpu_num i) (os_type i) (ucast (vm_mem_size i)) s of
               None \<Rightarrow> Fault
             | Some cfg \<Rightarrow>
                 let mem = copy_mbs (mbs (linux_dtb_load_size i)) (ucast (cpy_image_base cfg)) (linux_dtb_load_addr i) mem
                 in Done (0, copy_mbs (mbs (snd rfs)) (fst rfs) (vm_load_base i + 0x9000000) mem))"

definition load_os_image :: "u64 \<times> u64 \<Rightarrow> z_os \<Rightarrow> os_state \<Rightarrow> memory \<Rightarrow> (int \<times> memory) outcome" where
  "load_os_image rfs os s mem =
    (if os_type (os_info os) \<in> {OS_TYPE_LINUX, OS_TYPE_ZEPHYR, OS_TYPE_FREERTOS}
     then bind_outcome (load_vm_image rfs os s mem) (\<lambda>(_, mem). Done (0, mem))
     else Done (- EINVAL, mem))"

section \<open>Copies\<close>

text \<open>A region of memory; one that ends behind the last address is none.\<close>

definition region :: "u64 \<Rightarrow> nat \<Rightarrow> nat set" where
  "region b n = {unat b..<unat b + n}"

definition fits :: "u64 \<Rightarrow> nat \<Rightarrow> bool" where
  "fits b n \<longleftrightarrow> unat b + n \<le> 2 ^ 64"

lemma of_nat_lt: "k < n \<Longrightarrow> unat (of_nat k :: u64) < n"
  by (rule le_less_trans[of _ k]) (simp_all add: unat_of_nat)

lemma in_region: "fits b n \<Longrightarrow> unat (a - b) < n \<longleftrightarrow> unat a \<in> region b n"
  using unsigned_less[of a] unsigned_less[of b] by (auto simp: region_def fits_def unat_sub_if' word_size)

lemma offset_in_region: "fits b n \<Longrightarrow> unat k < n \<Longrightarrow> unat (b + k) \<in> region b n"
  by (auto simp: region_def fits_def unat_word_ariths)

text \<open>What a copy in megabytes does if neither region wraps around and they do not meet.\<close>

lemma copy_mbs_region:
  assumes "fits s (n * MB_SIZE)" "fits d (n * MB_SIZE)" "disjnt (region s (n * MB_SIZE)) (region d (n * MB_SIZE))"
  shows "copy_mbs n s d mem = (\<lambda>a. if unat a \<in> region d (n * MB_SIZE) then mem (s + (a - d)) else mem a)"
  using assms
proof (induction n arbitrary: s d mem)
  case 0
  then show ?case by (simp add: region_def)
next
  case (Suc n)
  let ?M = "of_nat MB_SIZE :: u64"
  show ?case
  proof (cases "n = 0")
    case True
    then show ?thesis using Suc.prems in_region[of d MB_SIZE] by (auto simp: memcpy_def)
  next
    case False
    have lt: "MB_SIZE < 2 ^ 64" by (simp add: MB_SIZE_def)
    then have uM: "unat ?M = MB_SIZE" by (simp add: unat_of_nat)
    have u: "unat (s + ?M) = unat s + MB_SIZE" "unat (d + ?M) = unat d + MB_SIZE"
      using Suc.prems(1,2) False by (auto simp: fits_def unat_word_ariths uM MB_SIZE_def)
    have r: "region (b + ?M) (n * MB_SIZE) = {unat b + MB_SIZE..<unat b + Suc n * MB_SIZE}" if "b \<in> {s, d}" for b
      using that u by (auto simp: region_def)
    have IH: "copy_mbs n (s + ?M) (d + ?M) mem' = (\<lambda>a. if unat a \<in> region (d + ?M) (n * MB_SIZE) then mem' (s + ?M + (a - (d + ?M))) else mem' a)" for mem'
    proof (rule Suc.IH)
      show "fits (s + ?M) (n * MB_SIZE)" "fits (d + ?M) (n * MB_SIZE)" using Suc.prems(1,2) by (simp_all add: fits_def u)
      show "disjnt (region (s + ?M) (n * MB_SIZE)) (region (d + ?M) (n * MB_SIZE))"
        using Suc.prems(3) r by (auto simp: disjnt_iff region_def)
    qed
    have fd: "fits d MB_SIZE" using Suc.prems(2) by (simp add: fits_def)
    have *: "\<not> unat (s + (a - d)) - 0 \<in> region d MB_SIZE" if "unat a \<in> region d (Suc n * MB_SIZE)" for a
    proof -
      have "unat (a - d) < Suc n * MB_SIZE" using that in_region[OF Suc.prems(2)] by blast
      then have "unat (s + (a - d)) \<in> region s (Suc n * MB_SIZE)" by (rule offset_in_region[OF Suc.prems(1)])
      then have "unat (s + (a - d)) \<notin> region d (Suc n * MB_SIZE)" using Suc.prems(3) by (auto simp: disjnt_iff)
      then show ?thesis by (auto simp: region_def)
    qed
    show ?thesis
    proof
      fix a
      have sub: "region (d + ?M) (n * MB_SIZE) \<subseteq> region d (Suc n * MB_SIZE)" using r by (auto simp: region_def)
      show "copy_mbs (Suc n) s d mem a = (if unat a \<in> region d (Suc n * MB_SIZE) then mem (s + (a - d)) else mem a)"
        using * sub r[of d] by (auto simp: IH memcpy_def in_region[OF fd] region_def)
    qed
  qed
qed

section \<open>Several copies\<close>

text \<open>The copies of a guest as a list of source, destination and number of megabytes.\<close>

type_synonym piece = "u64 \<times> u64 \<times> nat"

definition piece_src :: "piece \<Rightarrow> nat set" where "piece_src p = (case p of (s, d, n) \<Rightarrow> region s (n * MB_SIZE))"
definition piece_dst :: "piece \<Rightarrow> nat set" where "piece_dst p = (case p of (s, d, n) \<Rightarrow> region d (n * MB_SIZE))"
definition copy_piece :: "piece \<Rightarrow> memory \<Rightarrow> memory" where "copy_piece p = (case p of (s, d, n) \<Rightarrow> copy_mbs n s d)"

text \<open>No copy wraps around, none overwrites what is still to be read, and no two have a place in common.\<close>

definition well_placed :: "piece list \<Rightarrow> bool" where
  "well_placed ps \<longleftrightarrow> (\<forall>(s, d, n)\<in>set ps. fits s (n * MB_SIZE) \<and> fits d (n * MB_SIZE))
     \<and> (\<forall>p\<in>set ps. \<forall>q\<in>set ps. disjnt (piece_src p) (piece_dst q)) \<and> sorted_wrt (\<lambda>p q. disjnt (piece_dst p) (piece_dst q)) ps"

definition image_pieces :: "u64 \<times> u64 \<Rightarrow> z_os_info \<Rightarrow> cpy_config \<Rightarrow> piece list" where
  "image_pieces rfs i cfg = (vm_image_base i, vm_load_base i, mbs (vm_image_size i)) #
    (if os_type i \<noteq> OS_TYPE_LINUX then []
     else [(ucast (cpy_image_base cfg), linux_dtb_load_addr i, mbs (linux_dtb_load_size i)), (fst rfs, vm_load_base i + 0x9000000, mbs (snd rfs))])"

lemma load_vm_image_pieces:
  assumes "os_type (os_info os) = OS_TYPE_LINUX \<Longrightarrow>
    guest_config_available (os_vcpu_num (os_info os)) OS_TYPE_LINUX (ucast (vm_mem_size (os_info os))) s = Some cfg"
  shows "load_vm_image rfs os s mem = Done (0, fold copy_piece (image_pieces rfs (os_info os) cfg) mem)"
  using assms by (simp add: load_vm_image_def image_pieces_def copy_piece_def Let_def)

lemma copy_piece_at:
  assumes "fits s (n * MB_SIZE)" "fits d (n * MB_SIZE)" "disjnt (piece_src (s, d, n)) (piece_dst (s, d, n))"
  shows "unat a \<notin> piece_dst (s, d, n) \<Longrightarrow> copy_piece (s, d, n) mem a = mem a"
    "k < n * MB_SIZE \<Longrightarrow> copy_piece (s, d, n) mem (d + of_nat k) = mem (s + of_nat k)"
proof -
  note c = copy_mbs_region[OF assms(1,2) assms(3)[unfolded piece_src_def piece_dst_def prod.case]]
  show "unat a \<notin> piece_dst (s, d, n) \<Longrightarrow> copy_piece (s, d, n) mem a = mem a" by (simp add: copy_piece_def piece_dst_def c)
  assume k: "k < n * MB_SIZE"
  then show "copy_piece (s, d, n) mem (d + of_nat k) = mem (s + of_nat k)"
    using offset_in_region[OF assms(2), of "of_nat k"] of_nat_lt[OF k] by (simp add: copy_piece_def c)
qed

lemma piece_at:
  assumes "fits b (n * MB_SIZE)" "k < n * MB_SIZE"
  shows "unat (b + of_nat k) \<in> region b (n * MB_SIZE)"
  using offset_in_region[OF assms(1)] of_nat_lt[OF assms(2)] by blast

lemma well_placed_Cons:
  assumes "well_placed ((s, d, n) # ps)"
  shows "well_placed ps" "fits s (n * MB_SIZE)" "fits d (n * MB_SIZE)" "disjnt (piece_src (s, d, n)) (piece_dst (s, d, n))"
    "\<And>q. q \<in> set ps \<Longrightarrow> disjnt (piece_src q) (piece_dst (s, d, n))" "\<And>q. q \<in> set ps \<Longrightarrow> disjnt (piece_dst (s, d, n)) (piece_dst q)"
  using assms by (auto simp: well_placed_def)

lemma fold_copy_outside:
  "well_placed ps \<Longrightarrow> (\<forall>p\<in>set ps. unat a \<notin> piece_dst p) \<Longrightarrow> fold copy_piece ps mem a = mem a"
proof (induction ps arbitrary: mem)
  case (Cons p ps)
  obtain s d n where p: "p = (s, d, n)" by (cases p)
  note w = well_placed_Cons[OF Cons.prems(1)[unfolded p]]
  show ?case using Cons.IH[OF w(1)] copy_piece_at(1)[OF w(2-4)] Cons.prems(2) by (simp add: p)
qed simp

lemma fold_copy_inside:
  "well_placed ps \<Longrightarrow> (s, d, n) \<in> set ps \<Longrightarrow> k < n * MB_SIZE \<Longrightarrow> fold copy_piece ps mem (d + of_nat k) = mem (s + of_nat k)"
proof (induction ps arbitrary: mem)
  case (Cons p ps)
  obtain s0 d0 n0 where p: "p = (s0, d0, n0)" by (cases p)
  note w = well_placed_Cons[OF Cons.prems(1)[unfolded p]]
  show ?case
  proof (cases "(s, d, n) \<in> set ps")
    case True
    then have "fits s (n * MB_SIZE)" using w(1) by (auto simp: well_placed_def)
    then have "unat (s + of_nat k) \<in> piece_src (s, d, n)" using piece_at Cons.prems(3) by (simp add: piece_src_def)
    then have "unat (s + of_nat k) \<notin> piece_dst (s0, d0, n0)" using w(5)[OF True] by (auto simp: disjnt_iff)
    then show ?thesis using Cons.IH[OF w(1) True Cons.prems(3)] copy_piece_at(1)[OF w(2-4)] by (simp add: p)
  next
    case False
    then have e: "s = s0" "d = d0" "n = n0" using Cons.prems(2) p by auto
    then have "unat (d + of_nat k) \<in> piece_dst (s0, d0, n0)" using piece_at w(3) Cons.prems(3) by (simp add: piece_dst_def)
    then have "\<forall>q\<in>set ps. unat (d + of_nat k) \<notin> piece_dst q" using w(6) by (auto simp: disjnt_iff)
    then show ?thesis using fold_copy_outside[OF w(1)] copy_piece_at(2)[OF w(2-4)] Cons.prems(3) e by (simp add: p)
  qed
qed simp

section \<open>From the configuration to the loaded guest\<close>

lemma ucast_mem: "ucast (ucast (m :: u32) :: u64) = m"
  by (rule bit_word_eqI) (auto simp: bit_simps)

lemma mbs_le: "mbs sz * MB_SIZE \<le> unat sz"
  by (simp add: mbs_def MB_SIZE_def unat_div)

lemma config_set_info [simp]: "guest_config_available num t m (set_info j e s) = guest_config_available num t m s"
  by (simp add: guest_config_available_def set_info_def Let_def)

text \<open>What a successful configuration has put into the entry of the guest: its type, the requested size of memory, and, for Linux, a number of
  vCPUs for which there is a device tree.\<close>

lemma configured_entry:
  assumes "os_inv s" "vm_ids (overall s) \<noteq> vmid_universe (overall s)" "unat (os_type g) < length (guest_os_template s)"
    "0 < requested g sm s" "allocate_guest_memory_part_check (ucast (requested g sm s)) (guest_mem s)"
    and ok: "get_os_template_type g sc sm s = Done (int i, s')" and t: "os_type (guest_os_template s ! unat (os_type g)) = os_type g"
  shows "i < length (z_overall_vm_info s')" "os_type (z_overall_vm_info s' ! i) = os_type g" "vm_mem_size (z_overall_vm_info s' ! i) = ucast (requested g sm s)"
    "\<exists>cfg. guest_config_available (os_vcpu_num (z_overall_vm_info s' ! i)) (os_type g) (requested g sm s) s' = Some cfg"
    "\<forall>r\<in>live_regions (guest_mem s). region_disjoint r (vm_load_base (z_overall_vm_info s' ! i), ucast (requested g sm s), os_type g)"
proof -
  define j where "j = unat (fst (allocate_vmid (overall s)))"
  from config_start[OF assms(1-5), of sc] obtain s1 where s1: "get_os_template_type g sc sm s = Done (config_guest j g sc (requested g sm s) s1)" "os_inv s1"
    "j < CONFIG_MAX_VM_NUM (overall s)" "CONFIG_MAX_VM_NUM (overall s1) = CONFIG_MAX_VM_NUM (overall s)" "os_type (z_overall_vm_info s1 ! j) = os_type g"
    "\<forall>r\<in>live_regions (guest_mem s). region_disjoint r (vm_load_base (z_overall_vm_info s1 ! j), ucast (requested g sm s), os_type g)"
    unfolding j_def t by blast
  have len: "j < length (z_overall_vm_info s1)" using s1(2-4) by (simp add: os_inv_def)
  obtain num cfg where c: "guest_config_available num (os_type g) (requested g sm s) s1 = Some cfg" "i = j"
      "s' = set_info j (with_config j (os_type g) num (requested g sm s) cfg s1 (z_overall_vm_info s1 ! j)) s1"
    by (cases rule: config_guest_cases[of j g sc "requested g sm s" s1]) (use ok s1(1) in \<open>auto simp: config_fail_def Let_def EINVAL_def\<close>)
  have "guest_config_available num (os_type g) (requested g sm s) s' = Some cfg" using c by simp
  then show "i < length (z_overall_vm_info s')" "os_type (z_overall_vm_info s' ! i) = os_type g" "vm_mem_size (z_overall_vm_info s' ! i) = ucast (requested g sm s)"
    "\<exists>cfg. guest_config_available (os_vcpu_num (z_overall_vm_info s' ! i)) (os_type g) (requested g sm s) s' = Some cfg"
    "\<forall>r\<in>live_regions (guest_mem s). region_disjoint r (vm_load_base (z_overall_vm_info s' ! i), ucast (requested g sm s), os_type g)"
    using s1(5,6) len c by auto
qed

text \<open>The places of the copies lie in the memory of the guest and in the place of its device tree.\<close>

lemma image_places:
  assumes "p \<in> set (image_pieces rfs i cfg)" "unat (vm_image_size i) \<le> unat (vm_mem_size i)"
    "os_type i = OS_TYPE_LINUX \<Longrightarrow> 0x9000000 + unat (snd rfs) \<le> unat (vm_mem_size i)" "fits (vm_load_base i) (unat (vm_mem_size i))"
  shows "piece_dst p \<subseteq> region (vm_load_base i) (unat (vm_mem_size i))
    \<or> os_type i = OS_TYPE_LINUX \<and> piece_dst p \<subseteq> region (linux_dtb_load_addr i) (unat (linux_dtb_load_size i))"
proof -
  consider "p = (vm_image_base i, vm_load_base i, mbs (vm_image_size i))"
    | "os_type i = OS_TYPE_LINUX" "p = (ucast (cpy_image_base cfg), linux_dtb_load_addr i, mbs (linux_dtb_load_size i))"
    | "os_type i = OS_TYPE_LINUX" "p = (fst rfs, vm_load_base i + 0x9000000, mbs (snd rfs))"
    using assms(1) by (auto simp: image_pieces_def split: if_splits)
  then show ?thesis
  proof cases
    case 1
    then show ?thesis using mbs_le[of "vm_image_size i"] assms(2) by (auto simp: piece_dst_def region_def)
  next
    case 2
    then show ?thesis using mbs_le[of "linux_dtb_load_size i"] by (auto simp: piece_dst_def region_def)
  next
    case 3
    have "unat (vm_load_base i + 0x9000000) \<le> unat (vm_load_base i) + 0x9000000" by (simp add: unat_word_ariths)
    moreover have "0x9000000 \<le> unat (vm_mem_size i)" using 3(1) assms(3) by simp
    then have "unat (vm_load_base i + 0x9000000) = unat (vm_load_base i) + 0x9000000 \<or> snd rfs = 0"
      using assms(3)[OF 3(1)] assms(4) unat_gt_0[of "snd rfs"] by (cases "snd rfs = 0") (auto simp: unat_word_ariths fits_def)
    ultimately show ?thesis using 3 mbs_le[of "snd rfs"] assms(3)[OF 3(1)] by (auto simp: piece_dst_def region_def mbs_def)
  qed
qed

text \<open>
  C32: A guest that was configured can be loaded, and loading it reaches no other guest. Its type is known and, for Linux, there is a device
  tree for its size, so that loading succeeds; every whole megabyte of the image, the device tree and the root file system is then at its
  place; and no byte changes in a region that another guest had when the configuration was made. This needs an image that is not larger
  than the memory asked for, for Linux the file system 144 megabytes behind the start within that memory and the place of the device tree
  outside the memory of the other guests, and copies that do not overlap.
\<close>

theorem configured_guest_loads:
  assumes "os_inv s" "vm_ids (overall s) \<noteq> vmid_universe (overall s)" "unat (os_type g) < length (guest_os_template s)"
    "0 < requested g sm s" "allocate_guest_memory_part_check (ucast (requested g sm s)) (guest_mem s)"
    and "get_os_template_type g sc sm s = Done (int i, s')" and "os_type (guest_os_template s ! unat (os_type g)) = os_type g"
    and "vm_os_create True i s' = Done (0, Some os)"
  shows "\<exists>cfg. guest_config_available (os_vcpu_num (os_info os)) (os_type (os_info os)) (ucast (vm_mem_size (os_info os))) s' = Some cfg
    \<and> (well_placed (image_pieces rfs (os_info os) cfg) \<and> fits (vm_load_base (os_info os)) (unat (vm_mem_size (os_info os)))
         \<and> unat (vm_image_size (os_info os)) \<le> unat (vm_mem_size (os_info os))
         \<and> (os_type g = OS_TYPE_LINUX \<longrightarrow> 0x9000000 + unat (snd rfs) \<le> unat (vm_mem_size (os_info os))
             \<and> (\<forall>(b, n, _)\<in>live_regions (guest_mem s).
                  disjnt (region b (unat n)) (region (linux_dtb_load_addr (os_info os)) (unat (linux_dtb_load_size (os_info os))))))
       \<longrightarrow> (\<exists>mem'. load_os_image rfs os s' mem = Done (0, mem')
         \<and> (\<forall>(src, dst, n)\<in>set (image_pieces rfs (os_info os) cfg). \<forall>k<n * MB_SIZE. mem' (dst + of_nat k) = mem (src + of_nat k))
         \<and> (\<forall>(b, n, _)\<in>live_regions (guest_mem s). \<forall>a. unat a \<in> region b (unat n) \<longrightarrow> mem' a = mem a)))"
proof -
  note e = configured_entry[OF assms(1-7)]
  have info: "os_info os = z_overall_vm_info s' ! i" and ty: "os_type g \<in> {OS_TYPE_LINUX, OS_TYPE_ZEPHYR, OS_TYPE_FREERTOS}"
    using assms(8) e(1,2) by (auto simp: vm_os_create_def Let_def split: if_splits)
  let ?i = "os_info os"
  obtain cfg where cfg: "guest_config_available (os_vcpu_num ?i) (os_type ?i) (ucast (vm_mem_size ?i)) s' = Some cfg"
    using e(2-4) by (auto simp: info ucast_mem)
  let ?ps = "image_pieces rfs ?i cfg"
  have load: "load_os_image rfs os s' mem = Done (0, fold copy_piece ?ps mem)"
  proof -
    have "load_vm_image rfs os s' mem = Done (0, fold copy_piece ?ps mem)" by (rule load_vm_image_pieces) (use cfg in simp)
    then show ?thesis using ty e(2) by (simp add: load_os_image_def info)
  qed
  have spare: "fold copy_piece ?ps mem a = mem a"
    if wp: "well_placed ?ps" and sz: "unat (vm_image_size ?i) \<le> unat (vm_mem_size ?i)" "fits (vm_load_base ?i) (unat (vm_mem_size ?i))"
      and lx: "os_type ?i = OS_TYPE_LINUX \<Longrightarrow> 0x9000000 + unat (snd rfs) \<le> unat (vm_mem_size ?i)"
      "os_type ?i = OS_TYPE_LINUX \<Longrightarrow> disjnt (region b (unat n)) (region (linux_dtb_load_addr ?i) (unat (linux_dtb_load_size ?i)))"
      and a: "(b, n, t) \<in> live_regions (guest_mem s)" "unat a \<in> region b (unat n)" for a b n t
  proof (rule fold_copy_outside[OF wp], rule ballI)
    fix p assume p: "p \<in> set ?ps"
    have "region_disjoint (b, n, t) (vm_load_base ?i, vm_mem_size ?i, os_type g)" using e(3,5) a(1) by (auto simp: info)
    then have "unat a \<notin> region (vm_load_base ?i) (unat (vm_mem_size ?i))" using a(2) by (auto simp: region_def)
    moreover have "os_type ?i = OS_TYPE_LINUX \<Longrightarrow> unat a \<notin> region (linux_dtb_load_addr ?i) (unat (linux_dtb_load_size ?i))"
      using lx(2) a(2) by (auto simp: disjnt_iff)
    ultimately show "unat a \<notin> piece_dst p" using image_places[OF p sz(1) lx(1) sz(2)] by blast
  qed
  have "os_type ?i = os_type g" using e(2) by (simp add: info)
  then show ?thesis using cfg load spare fold_copy_inside[of ?ps] by (intro exI[of _ cfg]) auto
qed

definition os_zephyr :: os_state where
  "os_zephyr = os_new\<lparr>zephyr_cpies_config := [\<lparr>cpy_vcpu_num = 1, max_mem_size = 0x1000000, cpy_image_base = 0xA0000000, cpy_image_size = 0x200000\<rparr>]\<rparr>"

lemma os_zephyr_configured:
  "(case get_os_template_type (template 0) False False os_zephyr of
     Done (ret, s') \<Rightarrow> ret = 0 \<and> (case z_overall_vm_info s' ! 0 of e \<Rightarrow> os_type e = 0 \<and> vm_load_base e = 0x48000000 \<and> vm_mem_size e = 0x1000000
       \<and> vm_image_base e = 0xA0000000 \<and> vm_image_size e = 0x200000)
   | _ \<Rightarrow> False)"
  by code_simp

lemma os_zephyr_start:
  "os_inv os_zephyr" "vm_ids (overall os_zephyr) \<noteq> vmid_universe (overall os_zephyr)" "unat (os_type (template 0)) < length (guest_os_template os_zephyr)"
  "0 < requested (template 0) False os_zephyr" "allocate_guest_memory_part_check (ucast (requested (template 0) False os_zephyr)) (guest_mem os_zephyr)"
  "os_type (guest_os_template os_zephyr ! unat (os_type (template 0))) = os_type (template 0)"
proof -
  show "os_inv os_zephyr" "vm_ids (overall os_zephyr) \<noteq> vmid_universe (overall os_zephyr)"
    using os_new_inv by (auto simp: os_zephyr_def os_inv_def)
  show "unat (os_type (template 0)) < length (guest_os_template os_zephyr)" "0 < requested (template 0) False os_zephyr"
    "allocate_guest_memory_part_check (ucast (requested (template 0) False os_zephyr)) (guest_mem os_zephyr)"
    "os_type (guest_os_template os_zephyr ! unat (os_type (template 0))) = os_type (template 0)"
    by code_simp+
qed

theorem configured_guest_loads_witness:
  "\<exists>s' os mem'. get_os_template_type (template 0) False False os_zephyr = Done (0, s') \<and> vm_os_create True 0 s' = Done (0, Some os)
    \<and> load_os_image (0, 0) os s' (\<lambda>a. if a = 0xA0100005 then 7 else 0) = Done (0, mem') \<and> mem' 0x48100005 = 7"
proof -
  obtain s' where c: "get_os_template_type (template 0) False False os_zephyr = Done (int 0, s')"
      and e: "os_type (z_overall_vm_info s' ! 0) = 0" "vm_load_base (z_overall_vm_info s' ! 0) = 0x48000000" "vm_mem_size (z_overall_vm_info s' ! 0) = 0x1000000"
        "vm_image_base (z_overall_vm_info s' ! 0) = 0xA0000000" "vm_image_size (z_overall_vm_info s' ! 0) = 0x200000"
    using os_zephyr_configured by (auto split: outcome.splits prod.splits)
  have len: "0 < length (z_overall_vm_info s')" by (rule configured_entry(1)[OF os_zephyr_start(1-5) c os_zephyr_start(6)])
  define os where "os = \<lparr>os_name = ''zephyr_os'', os_is_rtos = True, os_info = z_overall_vm_info s' ! 0\<rparr>"
  have o: "vm_os_create True 0 s' = Done (0, Some os)"
    using len e(1) by (simp add: vm_os_create_def os_def Let_def OS_TYPE_LINUX_def OS_TYPE_ZEPHYR_def)
  have t: "os_type (template 0) \<noteq> OS_TYPE_LINUX" by (simp add: template_def OS_TYPE_LINUX_def)
  have p: "image_pieces (0, 0) (os_info os) cfg = [(0xA0000000, 0x48000000, 2)]" for cfg
    using e by (simp add: image_pieces_def os_def mbs_def MB_SIZE_def OS_TYPE_LINUX_def)
  have w: "well_placed [(0xA0000000, 0x48000000, 2)]"
    by (simp add: well_placed_def fits_def piece_src_def piece_dst_def region_def MB_SIZE_def disjnt_iff)
  have f: "fits (vm_load_base (os_info os)) (unat (vm_mem_size (os_info os)))" "unat (vm_image_size (os_info os)) \<le> unat (vm_mem_size (os_info os))"
    using e by (simp_all add: os_def fits_def)
  obtain mem' where m: "load_os_image (0, 0) os s' (\<lambda>a. if a = 0xA0100005 then 7 else 0) = Done (0, mem')"
      "\<forall>k<2 * MB_SIZE. mem' (0x48000000 + of_nat k) = (if (0xA0000000 :: u64) + of_nat k = 0xA0100005 then 7 else 0)"
    using configured_guest_loads[OF os_zephyr_start(1-5) c os_zephyr_start(6) o, where rfs = "(0, 0)" and mem = "\<lambda>a. if a = 0xA0100005 then 7 else 0"] w f t unfolding p by auto
  have "mem' 0x48100005 = 7" using m(2)[rule_format, of "0x100005"] by (simp add: MB_SIZE_def)
  then show ?thesis using c o m(1) by auto
qed

end
