(* ===== verification/Cmd_Args.thy ===== *)
theory Cmd_Args
  imports ZVM_Prelude
begin

text \<open>
  The arguments of commands: \<^verbatim>\<open>strtol\<close> of the C library (\<^verbatim>\<open>lib/libc/minimal/source/stdlib/strtol.c\<close>) and \<^verbatim>\<open>getopt\<close>
  (\<^verbatim>\<open>lib/posix/options/getopt/getopt.c\<close>). A string is the list of its characters in front of the terminating zero. A pointer into a
  string is the rest of the string.
\<close>

section \<open>Numbers\<close>

abbreviation code_of :: "char \<Rightarrow> nat" where "code_of c \<equiv> of_char c"

definition isspace :: "char \<Rightarrow> bool" where "isspace c \<longleftrightarrow> code_of c = 32 \<or> 9 \<le> code_of c \<and> code_of c < 14"
definition isdigit :: "char \<Rightarrow> bool" where "isdigit c \<longleftrightarrow> 48 \<le> code_of c \<and> code_of c < 58"
definition isupper :: "char \<Rightarrow> bool" where "isupper c \<longleftrightarrow> 65 \<le> code_of c \<and> code_of c < 91"
definition isalpha :: "char \<Rightarrow> bool" where "isalpha c \<longleftrightarrow> isupper c \<or> 97 \<le> code_of c \<and> code_of c < 123"

text \<open>The value of a digit or letter.\<close>

definition digit_value :: "char \<Rightarrow> nat option" where
  "digit_value c =
    (if isdigit c then Some (code_of c - 48)
     else if isalpha c then Some (code_of c - (if isupper c then 65 - 10 else 97 - 10))
     else None)"

definition LONG_MAX :: int where "LONG_MAX = 2 ^ 63 - 1"
definition LONG_MIN :: int where "LONG_MIN = - (2 ^ 63)"

text \<open>The loop over the digits: \<^verbatim>\<open>any\<close> is 0 before the first digit, 1 behind it, and -1 once the number is too large.\<close>

fun strtol_loop :: "nat \<Rightarrow> u64 \<Rightarrow> nat \<Rightarrow> string \<Rightarrow> u64 \<Rightarrow> int \<Rightarrow> u64 \<times> int \<times> string" where
  "strtol_loop base cutoff cutlim [] acc any = (acc, any, [])"
| "strtol_loop base cutoff cutlim (c # s) acc any = (case digit_value c of
     None \<Rightarrow> (acc, any, c # s)
   | Some d \<Rightarrow>
       if base \<le> d then (acc, any, c # s)
       else if any < 0 \<or> cutoff < acc \<or> acc = cutoff \<and> cutlim < d then strtol_loop base cutoff cutlim s acc (- 1)
       else strtol_loop base cutoff cutlim s (acc * of_nat base + of_nat d) 1)"

definition strtol_sign :: "string \<Rightarrow> bool \<times> string" where
  "strtol_sign s = (case s of
     c # s' \<Rightarrow> if c = CHR ''-'' then (True, s') else if c = CHR ''+'' then (False, s') else (False, s)
   | [] \<Rightarrow> (False, s))"

definition strtol_prefix :: "nat \<Rightarrow> string \<Rightarrow> nat \<times> string" where
  "strtol_prefix base s =
    (if (base = 0 \<or> base = 16) \<and> (take 2 s = ''0x'' \<or> take 2 s = ''0X'') then (16, drop 2 s)
     else if base = 0 then (if take 1 s = ''0'' then 8 else 10, s) else (base, s))"

definition strtol :: "string \<Rightarrow> nat \<Rightarrow> int \<times> string" where
  "strtol nptr base =
    (case strtol_sign (dropWhile isspace nptr) of (neg, s) \<Rightarrow>
     case strtol_prefix base s of (base, s) \<Rightarrow>
     let cutoff = (if neg then 2 ^ 63 else 2 ^ 63 - 1) :: u64;
         cutlim = unat (cutoff mod of_nat base);
         cutoff = cutoff div of_nat base
     in case strtol_loop base cutoff cutlim s 0 0 of (acc, any, rest) \<Rightarrow>
        (if any < 0 then (if neg then LONG_MIN else LONG_MAX) else sint (if neg then - acc else acc),
         if any \<noteq> 0 then rest else nptr))"

section \<open>Options\<close>

text \<open>\<^verbatim>\<open>argv\<close> has \<^verbatim>\<open>argc\<close> arguments and a null pointer behind them; the entry at an index behind that is outside of the array.\<close>

record getopt_state =
  optind :: nat
  optopt :: char
  optreset :: bool
  optarg :: "string option"
  place :: string

definition getopt_init :: getopt_state where
  "getopt_init = \<lparr>optind = 1, optopt = CHR 0x00, optreset = False, optarg = None, place = []\<rparr>"

definition strchr :: "string \<Rightarrow> char \<Rightarrow> string option" where
  "strchr s c = (case dropWhile (\<lambda>x. x \<noteq> c) s of [] \<Rightarrow> None | r \<Rightarrow> Some r)"

text \<open>The part that looks up the option letter and takes its argument.\<close>

definition getopt_letter :: "string list \<Rightarrow> string \<Rightarrow> getopt_state \<Rightarrow> char option \<times> getopt_state" where
  "getopt_letter argv ostr st = (case (if optopt st = CHR '':'' then None else strchr ostr (optopt st)) of
     None \<Rightarrow> (Some (CHR ''?''), if place st = [] then st\<lparr>optind := optind st + 1\<rparr> else st)
   | Some oli \<Rightarrow>
       if take 1 (drop 1 oli) \<noteq> '':'' then
         (Some (optopt st), if place st = [] then st\<lparr>optarg := None, optind := optind st + 1\<rparr> else st\<lparr>optarg := None\<rparr>)
       else if place st \<noteq> [] then (Some (optopt st), st\<lparr>optarg := Some (place st), place := [], optind := optind st + 1\<rparr>)
       else let st = st\<lparr>optind := optind st + 1\<rparr>
            in if optind st < length argv then
                 (Some (optopt st), st\<lparr>optarg := Some (argv ! optind st), place := [], optind := optind st + 1\<rparr>)
               else (Some (if take 1 ostr = '':'' then CHR '':'' else CHR ''?''), st\<lparr>place := []\<rparr>))"

definition getopt :: "string list \<Rightarrow> string \<Rightarrow> getopt_state \<Rightarrow> (char option \<times> getopt_state) outcome" where
  "getopt argv ostr st =
    (if optreset st \<or> place st = [] then
       if length argv < optind st then Fault
       else let st = st\<lparr>optreset := False\<rparr>
            in if optind st = length argv then Done (None, st\<lparr>place := []\<rparr>)
               else case argv ! optind st of
                 [] \<Rightarrow> Done (None, st\<lparr>place := []\<rparr>)
               | c # p \<Rightarrow>
                   if c \<noteq> CHR ''-'' then Done (None, st\<lparr>place := []\<rparr>)
                   else case p of
                     [] \<Rightarrow>
                       if strchr ostr (CHR ''-'') = None then Done (None, st\<lparr>optopt := CHR 0x00, place := []\<rparr>)
                       else Done (getopt_letter argv ostr (st\<lparr>optopt := CHR ''-'', place := []\<rparr>))
                   | x # p \<Rightarrow>
                       if x = CHR ''-'' \<and> p = [] then Done (None, st\<lparr>optopt := x, optind := optind st + 1, place := []\<rparr>)
                       else Done (getopt_letter argv ostr (st\<lparr>optopt := x, place := p\<rparr>))
     else Done (getopt_letter argv ostr (st\<lparr>optopt := hd (place st), place := tl (place st)\<rparr>)))"

end
