(* ===== verification/Cmd_Args_Props.thy ===== *)
theory Cmd_Args_Props
  imports Cmd_Args
begin

text \<open>
  \<^verbatim>\<open>strtol\<close> reads a number, limited to the range of \<^verbatim>\<open>long\<close>, and \<^verbatim>\<open>getopt\<close> takes the options of a command one by one.
\<close>

section \<open>Numbers\<close>

definition is_digit_of :: "nat \<Rightarrow> char \<Rightarrow> bool" where
  "is_digit_of base c \<longleftrightarrow> (case digit_value c of None \<Rightarrow> False | Some d \<Rightarrow> d < base)"

text \<open>The value of digits, behind a number that was read already.\<close>

definition number_from :: "nat \<Rightarrow> nat \<Rightarrow> string \<Rightarrow> nat" where
  "number_from base n ds = foldl (\<lambda>n c. n * base + the (digit_value c)) n ds"

lemma number_from_simps [simp]:
  "number_from base n [] = n" "number_from base n (c # ds) = number_from base (n * base + the (digit_value c)) ds"
  by (simp_all add: number_from_def)

lemma number_from_grows: "0 < base \<Longrightarrow> n \<le> number_from base n ds"
proof (induction ds arbitrary: n)
  case (Cons c ds)
  have "n \<le> n * base" using Cons.prems by (cases base) auto
  also have "\<dots> \<le> number_from base (n * base + the (digit_value c)) ds" using Cons.IH[OF Cons.prems] by (rule le_trans[rotated]) simp
  finally show ?case by simp
qed simp

lemma cut_test:
  fixes n d base L :: nat
  assumes "d < base"
  shows "n * base + d \<le> L \<longleftrightarrow> \<not> (L div base < n \<or> n = L div base \<and> L mod base < d)"
proof -
  obtain q r where L: "L = q * base + r" "r < base" "L div base = q" "L mod base = r"
    using div_mult_mod_eq[of L base] mod_less_divisor[of base L] assms by (metis less_nat_zero_code neq0_conv)
  consider "n < q" | "n = q" | "q < n" by linarith
  then show ?thesis
  proof cases
    case 1
    then have "Suc n * base \<le> q * base" by (intro mult_right_mono) auto
    then show ?thesis using 1 assms unfolding L(3,4) unfolding L(1) by simp
  next
    case 2
    then show ?thesis unfolding L(3,4) unfolding L(1) by auto
  next
    case 3
    then have "Suc q * base \<le> n * base" by (intro mult_right_mono) auto
    then show ?thesis using 3 L(2) unfolding L(3,4) unfolding L(1) by simp
  qed
qed

lemma strtol_loop_over: "strtol_loop base cutoff cutlim s acc (- 1) = (acc, - 1, dropWhile (is_digit_of base) s)"
  by (induction s arbitrary: acc) (auto simp: is_digit_of_def split: option.splits)

lemma strtol_loop_number:
  assumes L: "L < 2 ^ 64" "0 < base" "base < 2 ^ 64" and "any \<in> {0, 1}" "n \<le> L"
  shows "\<exists>acc. strtol_loop base (of_nat (L div base)) (L mod base) s (of_nat n) any =
    (let ds = takeWhile (is_digit_of base) s; m = number_from base n ds
     in (if m \<le> L then of_nat m else acc, if m \<le> L then if ds = [] then any else 1 else - 1, dropWhile (is_digit_of base) s))"
  using assms(4,5)
proof (induction s arbitrary: n any)
  case (Cons c s)
  show ?case
  proof (cases "is_digit_of base c")
    case False
    then show ?thesis using Cons.prems by (auto simp: is_digit_of_def split: option.splits)
  next
    case True
    then obtain d where d: "digit_value c = Some d" "d < base" by (auto simp: is_digit_of_def split: option.splits)
    have "L div base \<le> L" by simp
    then have le: "L div base < 2 ^ 64" "n < 2 ^ 64" using L(1) Cons.prems(2) by linarith+
    have cmp: "(of_nat (L div base) :: u64) < of_nat n \<longleftrightarrow> L div base < n" "(of_nat n :: u64) = of_nat (L div base) \<longleftrightarrow> n = L div base"
      using le by (simp_all add: word_less_nat_alt unat_of_nat word_unat_eq_iff)
    show ?thesis
    proof (cases "n * base + d \<le> L")
      case fits: True
      obtain acc where "strtol_loop base (of_nat (L div base)) (L mod base) s (of_nat (n * base + d)) 1 =
        (let ds = takeWhile (is_digit_of base) s; m = number_from base (n * base + d) ds
         in (if m \<le> L then of_nat m else acc, if m \<le> L then if ds = [] then 1 else 1 else - 1, dropWhile (is_digit_of base) s))"
        using Cons.IH[of 1, OF _ fits] by auto
      then show ?thesis using True fits d cut_test[OF d(2), of n L] Cons.prems(1)
        by (intro exI[of _ acc]) (auto simp: cmp Let_def)
    next
      case over: False
      have "n * base + d \<le> number_from base (n * base + d) (takeWhile (is_digit_of base) s)" by (rule number_from_grows[OF L(2)])
      then have "\<not> number_from base n (takeWhile (is_digit_of base) (c # s)) \<le> L" using over True d(1) by simp
      then show ?thesis using over True d cut_test[OF d(2), of n L] by (auto simp: cmp Let_def strtol_loop_over)
    qed
  qed
qed auto

text \<open>What the C standard asks for: white space, a sign, digits; the value limited to the range of \<^verbatim>\<open>long\<close>, and the rest of the string.\<close>

definition strtol_spec :: "string \<Rightarrow> nat \<Rightarrow> int \<times> string" where
  "strtol_spec nptr base =
    (case strtol_sign (dropWhile isspace nptr) of (neg, s) \<Rightarrow>
     let ds = takeWhile (is_digit_of base) s; n = int (number_from base 0 ds)
     in (max LONG_MIN (min LONG_MAX (if neg then - n else n)), if ds = [] then nptr else dropWhile (is_digit_of base) s))"

lemma of_nat_div_mod:
  assumes "L < 2 ^ 64" "base < 2 ^ 64"
  shows "(of_nat L :: u64) div of_nat base = of_nat (L div base)" "unat ((of_nat L :: u64) mod of_nat base) = L mod base"
proof -
  have "L div base < 2 ^ 64" by (rule le_less_trans[OF div_le_dividend assms(1)])
  then show "(of_nat L :: u64) div of_nat base = of_nat (L div base)" "unat ((of_nat L :: u64) mod of_nat base) = L mod base"
    using assms by (simp_all add: word_unat_eq_iff unat_div unat_mod unat_of_nat)
qed

lemma sint_int: "LONG_MIN \<le> x \<Longrightarrow> x \<le> LONG_MAX \<Longrightarrow> sint (word_of_int x :: u64) = x"
  by (simp add: LONG_MIN_def LONG_MAX_def signed_of_int signed_take_bit_int_eq_self)

lemma strtol_spec_eq:
  assumes "2 \<le> base" "base \<le> 36" "base \<noteq> 16"
  shows "strtol nptr base = strtol_spec nptr base"
proof -
  obtain neg s where s: "strtol_sign (dropWhile isspace nptr) = (neg, s)" by force
  define L :: nat where "L = (if neg then 2 ^ 63 else 2 ^ 63 - 1)"
  define ds where "ds = takeWhile (is_digit_of base) s"
  have L: "L < 2 ^ 64" "0 < base" "base < 2 ^ 64" "(of_nat L :: u64) = (if neg then 2 ^ 63 else 2 ^ 63 - 1)" using assms by (auto simp: L_def)
  obtain acc where r: "strtol_loop base (of_nat (L div base)) (L mod base) s 0 0 =
      (if number_from base 0 ds \<le> L then of_nat (number_from base 0 ds) else acc, if number_from base 0 ds \<le> L then if ds = [] then 0 else 1 else - 1,
       dropWhile (is_digit_of base) s)"
    using strtol_loop_number[OF L(1-3), of 0 0 s, folded ds_def, unfolded Let_def of_nat_0 semiring_1_class.of_nat_0] by (metis insertI1 le0)
  have zero: "number_from base 0 ds \<le> L" if "ds = []" using that by simp
  have p: "strtol_prefix base s = (base, s)" using assms by (simp add: strtol_prefix_def)
  define n where "n = number_from base 0 ds"
  have run: "strtol nptr base = (if n \<le> L then sint (if neg then - of_nat n else of_nat n :: u64) else if neg then LONG_MIN else LONG_MAX,
      if ds = [] then nptr else dropWhile (is_digit_of base) s)"
    unfolding strtol_def s prod.case p Let_def L(4)[symmetric] of_nat_div_mod[OF L(1,3)] r n_def[symmetric] using zero n_def by auto
  have pos: "sint (of_nat n :: u64) = int n" if "int n \<le> LONG_MAX" for n
    using sint_int[of "int n"] that by (simp add: LONG_MIN_def)
  have negv: "sint (- of_nat n :: u64) = - int n" if "LONG_MIN \<le> - int n" for n
    using sint_int[of "- int n"] that by (simp add: LONG_MAX_def)
  have spec: "strtol_spec nptr base = (max LONG_MIN (min LONG_MAX (if neg then - int n else int n)), if ds = [] then nptr else dropWhile (is_digit_of base) s)"
    unfolding strtol_spec_def s prod.case Let_def ds_def[symmetric] n_def[symmetric] by simp
  show ?thesis using pos[of n] negv[of n] by (auto simp: run spec L_def LONG_MIN_def LONG_MAX_def)
qed



section \<open>Options\<close>

text \<open>What is left to read: it becomes less with every option, so that every loop over the options ends.\<close>

definition rest_from :: "string list \<Rightarrow> nat \<Rightarrow> nat" where
  "rest_from argv i = sum_list (map (\<lambda>a. length a + 1) (drop i argv))"

definition todo :: "string list \<Rightarrow> getopt_state \<Rightarrow> nat" where
  "todo argv st = (if optreset st \<or> place st = [] then rest_from argv (optind st) else length (place st) + rest_from argv (optind st + 1))"

lemma rest_from_nth: "i < length argv \<Longrightarrow> rest_from argv i = length (argv ! i) + 1 + rest_from argv (i + 1)"
  by (simp add: rest_from_def Cons_nth_drop_Suc[symmetric])

lemma rest_from_Suc: "rest_from argv (i + 1) \<le> rest_from argv i"
  by (cases "i < length argv") (simp_all add: rest_from_nth, simp add: rest_from_def)

lemma letter_todo:
  assumes "getopt_letter argv ostr st = (r, st')" "\<not> optreset st"
  shows "todo argv st' \<le> length (place st) + rest_from argv (optind st + 1)"
  using assms rest_from_Suc[of argv "optind st + 1"] rest_from_Suc[of argv "optind st"]
  by (auto simp: getopt_letter_def todo_def Let_def split: if_splits option.splits)

lemma getopt_todo:
  assumes "getopt argv ostr st = Done (Some c, st')"
  shows "todo argv st' < todo argv st"
proof (cases "optreset st \<or> place st = []")
  case False
  then have "todo argv st' \<le> length (tl (place st)) + rest_from argv (optind st + 1)"
    using assms letter_todo[of argv ostr "st\<lparr>optopt := hd (place st), place := tl (place st)\<rparr>"] by (simp add: getopt_def)
  then show ?thesis using False by (cases "place st") (auto simp: todo_def)
next
  case True
  then have i: "optind st < length argv" using assms by (auto simp: getopt_def Let_def split: if_splits)
  then obtain x p where x: "getopt_letter argv ostr (st\<lparr>optreset := False, optopt := x, place := p\<rparr>) = (Some c, st')" "length p < length (argv ! optind st)"
    using assms True by (fastforce simp: getopt_def Let_def split: if_splits list.splits)
  then show ?thesis using letter_todo[OF x(1)] True rest_from_nth[OF i] by (simp add: todo_def)
qed

text \<open>The index stays inside the arguments.\<close>

definition scanning :: "string list \<Rightarrow> getopt_state \<Rightarrow> bool" where
  "scanning argv st \<longleftrightarrow> \<not> optreset st \<and> optind st \<le> length argv \<and> (place st \<noteq> [] \<longrightarrow> optind st < length argv)"

lemma letter_scanning:
  assumes "getopt_letter argv ostr st = (r, st')" "\<not> optreset st" "optind st < length argv"
  shows "scanning argv st'"
  using assms by (auto simp: getopt_letter_def scanning_def Let_def split: if_splits option.splits)

lemma getopt_cases:
  assumes "scanning argv st"
  obtains "getopt argv ostr st = Done (None, st\<lparr>place := []\<rparr>)" "place st = []"
  | "optind st < length argv" "place st = []" "getopt argv ostr st = Done (None, st\<lparr>optopt := CHR 0x00, place := []\<rparr>)"
  | "optind st < length argv" "place st = []" "getopt argv ostr st = Done (None, st\<lparr>optopt := CHR ''-'', optind := optind st + 1, place := []\<rparr>)"
  | x p where "optind st < length argv" "getopt argv ostr st = Done (getopt_letter argv ostr (st\<lparr>optopt := x, place := p\<rparr>))"
proof (cases "place st = []")
  case False
  then show thesis using that(4) assms by (auto simp: getopt_def scanning_def)
next
  case True
  have r: "st\<lparr>optreset := False\<rparr> = st" "optind st \<le> length argv" using assms by (simp_all add: scanning_def)
  show thesis
  proof (cases "optind st = length argv")
    case e: True
    then show thesis using that(1) True r by (simp add: getopt_def)
  next
    case False
    then have i: "optind st < length argv" using r(2) by simp
    show thesis
    proof (cases "argv ! optind st")
      case Nil
      then show thesis using that(1) True r i by (simp add: getopt_def)
    next
      case (Cons c p)
      consider "c \<noteq> CHR ''-''" | "c = CHR ''-''" "p = []" "strchr ostr (CHR ''-'') = None" | "c = CHR ''-''" "p = []" "strchr ostr (CHR ''-'') \<noteq> None"
        | "c = CHR ''-''" "p = ''-''" | x q where "c = CHR ''-''" "p = x # q" "\<not> (x = CHR ''-'' \<and> q = [])" by (cases p) blast+
      then show thesis
      proof cases
        case 1
        then show thesis using that(1) True r i Cons by (simp add: getopt_def)
      next
        case 2
        then show thesis using that(2) True r i Cons by (simp add: getopt_def)
      next
        case 3
        then show thesis using that(4)[where x = "CHR ''-''" and p = "[]"] True r i Cons by (auto simp: getopt_def)
      next
        case 4
        then show thesis using that(3) True r i Cons by (simp add: getopt_def)
      next
        case (5 x q)
        then show thesis using that(4)[where x = x and p = q] True r i Cons by (auto simp: getopt_def)
      qed
    qed
  qed
qed

lemma getopt_scanning:
  assumes "scanning argv st"
  shows "\<exists>r st'. getopt argv ostr st = Done (r, st') \<and> scanning argv st'"
proof (cases rule: getopt_cases[OF assms, of ostr])
  case (4 x p)
  obtain r st' where "getopt_letter argv ostr (st\<lparr>optopt := x, place := p\<rparr>) = (r, st')" by force
  then show ?thesis using 4 letter_scanning assms by (fastforce simp: scanning_def)
qed (use assms in \<open>auto simp: scanning_def\<close>)

text \<open>The options of the commands: a letter with an argument, in two forms, and the end.\<close>

lemma getopt_separate:
  assumes "scanning argv st" "place st = []" "optind st + 1 < length argv" "argv ! optind st = [CHR ''-'', c]"
    "strchr ostr c = Some (c # CHR '':'' # opts)" "c \<noteq> CHR ''-''" "c \<noteq> CHR '':''"
  shows "getopt argv ostr st = Done (Some c, st\<lparr>optopt := c, optarg := Some (argv ! (optind st + 1)), optind := optind st + 2\<rparr>)"
  using assms by (simp add: getopt_def getopt_letter_def scanning_def)

lemma getopt_attached:
  assumes "scanning argv st" "place st = []" "optind st < length argv" "argv ! optind st = CHR ''-'' # c # v" "v \<noteq> []"
    "strchr ostr c = Some (c # CHR '':'' # opts)" "c \<noteq> CHR ''-''" "c \<noteq> CHR '':''"
  shows "getopt argv ostr st = Done (Some c, st\<lparr>optopt := c, optarg := Some v, optind := optind st + 1\<rparr>)"
  using assms by (simp add: getopt_def getopt_letter_def scanning_def)

lemma getopt_end:
  assumes "scanning argv st" "place st = []" "optind st = length argv"
  shows "getopt argv ostr st = Done (None, st)"
  using assms by (simp add: getopt_def scanning_def)

end
