(* ===== verification/Vm_Cmd.thy ===== *)
theory Vm_Cmd
  imports Cmd_Args_Props Vm_Create_Props
begin

text \<open>
  The commands of the shell (second part of \<^verbatim>\<open>vm_manager.c\<close>, \<^verbatim>\<open>zvm_shell.c\<close>): the options of a command give the configuration of a new VM
  or the identifier of an existing one; then the operation of the command is called for that VM. Messages are left out.
  The tables of VMs are in \<^verbatim>\<open>os_state\<close>; \<^verbatim>\<open>'w\<close> is the rest of the system, on which the operations work.
\<close>

section \<open>Options\<close>

text \<open>The identifier. The value is an \<^verbatim>\<open>int\<close>, and the error is returned as \<^verbatim>\<open>uint16_t\<close>.\<close>

definition EINVAL_u16 :: u16 where "EINVAL_u16 = word_of_int (- EINVAL)"

function vmid_loop :: "nat \<Rightarrow> string list \<Rightarrow> getopt_state \<Rightarrow> u16 \<Rightarrow> u16 outcome" where
  "vmid_loop max_vm argv st vm_id = (case getopt argv ''t:n:'' st of
     Done (Some opt, st') \<Rightarrow>
       if opt \<noteq> CHR ''n'' then Done EINVAL_u16
       else (case optarg st' of
         None \<Rightarrow> Fault
       | Some arg \<Rightarrow> (case strtol arg 10 of (v, endptr) \<Rightarrow>
           let val = sint (word_of_int v :: u32)
           in if endptr \<noteq> [] \<or> val < 0 \<or> int max_vm - 1 < val then Done EINVAL_u16
              else vmid_loop max_vm argv st' (word_of_int val)))
   | Done (None, _) \<Rightarrow> Done vm_id
   | Fault \<Rightarrow> Fault | Assertion \<Rightarrow> Assertion)"
  by pat_completeness auto
termination by (relation "measure (\<lambda>(_, argv, st, _). todo argv st)") (auto dest: getopt_todo)

declare vmid_loop.simps [simp del]

definition get_vmid_by_id :: "string list \<Rightarrow> os_state \<Rightarrow> u16 outcome" where
  "get_vmid_by_id argv s = vmid_loop (CONFIG_MAX_VM_NUM (overall s)) argv getopt_init (of_nat (CONFIG_MAX_VM_NUM (overall s)))"

text \<open>The options of a new VM: what was given so far, or an error.\<close>

record create_opts =
  guest_os :: z_os_info
  special_cpu :: bool
  special_mem :: bool

definition set_type :: "string \<Rightarrow> create_opts \<Rightarrow> int + create_opts" where
  "set_type arg co = (let val = get_os_type_from_args arg
     in if val < 0 then Inl (- EINVAL) else Inr (co\<lparr>guest_os := (guest_os co)\<lparr>os_type := word_of_int val\<rparr>\<rparr>))"

definition set_cpus :: "string \<Rightarrow> os_state \<Rightarrow> create_opts \<Rightarrow> int + create_opts" where
  "set_cpus arg s co = (case strtol arg 10 of (val, endptr) \<Rightarrow>
     if endptr \<noteq> [] \<or> val \<le> 0 \<or> int (CONFIG_MAX_VCPU_PER_VM s) < val \<or> \<not> vcpu_margin_check (os_type (guest_os co)) val (sched s)
     then Inl (- EINVAL)
     else Inr (co\<lparr>guest_os := (guest_os co)\<lparr>os_vcpu_num := word_of_int val\<rparr>, special_cpu := True\<rparr>))"

definition set_memory :: "string \<Rightarrow> create_opts \<Rightarrow> int + create_opts" where
  "set_memory arg co = (case strtol arg 10 of (val, endptr) \<Rightarrow>
     if endptr \<noteq> [] \<or> val \<le> 0 \<or> 1024 < val then Inl (- EINVAL)
     else Inr (co\<lparr>guest_os := (guest_os co)\<lparr>vm_mem_size := ucast (word_of_int (val * 1024 * 1024) :: u32)\<rparr>, special_mem := True\<rparr>))"

definition create_option :: "char \<Rightarrow> string \<Rightarrow> os_state \<Rightarrow> create_opts \<Rightarrow> int + create_opts" where
  "create_option opt arg s co =
    (if opt = CHR ''t'' then set_type arg co
     else if opt = CHR ''c'' then set_cpus arg s co
     else if opt = CHR ''m'' then set_memory arg co
     else Inl (- EINVAL))"

function create_loop :: "os_state \<Rightarrow> string list \<Rightarrow> getopt_state \<Rightarrow> create_opts \<Rightarrow> (int + create_opts) outcome" where
  "create_loop s argv st co = (case getopt argv ''t:c:m:'' st of
     Done (Some opt, st') \<Rightarrow>
       if opt \<notin> set ''tcm'' then Done (Inl (- EINVAL))
       else (case optarg st' of
         None \<Rightarrow> Fault
       | Some arg \<Rightarrow> (case create_option opt arg s co of Inl e \<Rightarrow> Done (Inl e) | Inr co' \<Rightarrow> create_loop s argv st' co'))
   | Done (None, _) \<Rightarrow> Done (Inr co)
   | Fault \<Rightarrow> Fault | Assertion \<Rightarrow> Assertion)"
  by pat_completeness auto
termination by (relation "measure (\<lambda>(_, argv, st, _). todo argv st)") (auto dest: getopt_todo)

declare create_loop.simps [simp del]

definition UINT16_MAX :: u16 where "UINT16_MAX = 0xFFFF"

definition no_opts :: create_opts where
  "no_opts = \<lparr>guest_os = \<lparr>vm_mem_base = 0, vm_mem_size = 0, vm_load_base = 0, linux_dtb_load_addr = 0, linux_dtb_load_size = 0,
      os_type = UINT16_MAX, os_vcpu_num = 0, vm_image_base = 0, vm_image_size = 0, entry_point = 0\<rparr>, special_cpu = False, special_mem = False\<rparr>"

definition handle_vm_create_cmd :: "string list \<Rightarrow> os_state \<Rightarrow> (int \<times> os_state) outcome" where
  "handle_vm_create_cmd argv s = bind_outcome (create_loop s argv getopt_init no_opts) (\<lambda>r. case r of
     Inl e \<Rightarrow> Done (e, s)
   | Inr co \<Rightarrow> if os_type (guest_os co) = UINT16_MAX then Done (- EINVAL, s)
             else get_os_template_type (guest_os co) (special_cpu co) (special_mem co) s)"

section \<open>Commands\<close>

datatype cmd_guest = CMD_CREATE_GUEST | CMD_RUN_GUEST | CMD_PAUSE_GUEST | CMD_SHUTDOWN_GUEST | CMD_REBOOT_GUEST | CMD_DELETE_GUEST | CMD_INFO_GUEST

definition z_parse_vm_cmd :: "cmd_guest \<Rightarrow> string list \<Rightarrow> os_state \<Rightarrow> (int \<times> os_state) outcome" where
  "z_parse_vm_cmd cmd argv s = (case cmd of
     CMD_CREATE_GUEST \<Rightarrow> handle_vm_create_cmd argv s
   | CMD_INFO_GUEST \<Rightarrow> Done (0, s)
   | _ \<Rightarrow> bind_outcome (get_vmid_by_id argv s) (\<lambda>vm_id. Done (uint vm_id, s)))"

text \<open>The VM of a command: a new one with its identifier, or the pointer in the table. The new structure is cleared before the pointer is tested. A bit
  behind the last one of a word is taken as 0.\<close>

datatype vm_ref = New_VM u16 | Old_VM nat

definition zvm_get_vm_by_cmd :: "bool \<Rightarrow> cmd_guest \<Rightarrow> string list \<Rightarrow> os_state \<Rightarrow> (vm_ref option \<times> os_state) outcome" where
  "zvm_get_vm_by_cmd malloc cmd argv s = bind_outcome (z_parse_vm_cmd cmd argv s) (\<lambda>(ret, s).
     if ret < 0 then Done (None, s)
     else let vm_id = word_of_int ret :: u16
          in if cmd = CMD_CREATE_GUEST then (if malloc then Done (Some (New_VM vm_id), s) else Fault)
             else if (BIT (unat vm_id) :: u64) AND ucast (alloced_vmid (overall s)) = 0 then Done (None, s)
             else if \<not> unat vm_id < length (vms (overall s)) then Fault
             else Done (map_option Old_VM (vms (overall s) ! unat vm_id), s))"

text \<open>The table of operations and its entry.\<close>

type_synonym 'w vm_op = "vm_ref option \<Rightarrow> os_state \<times> 'w \<Rightarrow> (int \<times> os_state \<times> 'w) outcome"

record 'w zvm_ops =
  op_create :: "'w vm_op"
  op_run :: "'w vm_op"
  op_pause :: "'w vm_op"
  op_shutdown :: "'w vm_op"
  op_reboot :: "'w vm_op"
  op_delete :: "'w vm_op"
  op_info :: "'w vm_op"

definition zvm_vm_ops_entry :: "'w zvm_ops \<Rightarrow> vm_ref option \<Rightarrow> cmd_guest \<Rightarrow> os_state \<times> 'w \<Rightarrow> (int \<times> os_state \<times> 'w) outcome" where
  "zvm_vm_ops_entry ops vm cmd = (case cmd of
     CMD_CREATE_GUEST \<Rightarrow> op_create ops vm
   | CMD_RUN_GUEST \<Rightarrow> op_run ops vm
   | CMD_PAUSE_GUEST \<Rightarrow> op_pause ops vm
   | CMD_SHUTDOWN_GUEST \<Rightarrow> op_shutdown ops vm
   | CMD_REBOOT_GUEST \<Rightarrow> op_reboot ops vm
   | CMD_DELETE_GUEST \<Rightarrow> op_delete ops vm
   | CMD_INFO_GUEST \<Rightarrow> op_info ops vm)"

definition zvm_vm_operation_template :: "'w zvm_ops \<Rightarrow> bool \<Rightarrow> cmd_guest \<Rightarrow> string list \<Rightarrow> os_state \<times> 'w \<Rightarrow> (int \<times> os_state \<times> 'w) outcome" where
  "zvm_vm_operation_template ops malloc cmd argv sw = (case sw of (s, w) \<Rightarrow>
     bind_outcome (zvm_get_vm_by_cmd malloc cmd argv s) (\<lambda>(vm, s).
       if vm = None \<and> cmd \<noteq> CMD_INFO_GUEST then Done (- EINVAL, s, w) else zvm_vm_ops_entry ops vm cmd (s, w)))"

text \<open>The subcommands of the shell command \<^verbatim>\<open>zvm\<close>; \<^verbatim>\<open>argv\<close> starts with the name. They run one after the other, under a mutex.\<close>

definition zvm_shell :: "'w zvm_ops \<Rightarrow> bool \<Rightarrow> string list \<Rightarrow> os_state \<times> 'w \<Rightarrow> (int \<times> os_state \<times> 'w) outcome" where
  "zvm_shell ops malloc argv sw = (case argv of
     [] \<Rightarrow> Done (- EINVAL, sw)
   | name # _ \<Rightarrow>
       if name = ''create'' \<or> name = ''new'' then zvm_vm_operation_template ops malloc CMD_CREATE_GUEST argv sw
       else if name = ''run'' then zvm_vm_operation_template ops malloc CMD_RUN_GUEST argv sw
       else if name = ''pause'' then zvm_vm_operation_template ops malloc CMD_PAUSE_GUEST argv sw
       else if name = ''delete'' then zvm_vm_operation_template ops malloc CMD_DELETE_GUEST argv sw
       else if name = ''info'' then zvm_vm_ops_entry ops None CMD_INFO_GUEST sw
       else if name = ''update'' then Done (0, sw)
       else Done (- EINVAL, sw))"

section \<open>The operations\<close>

text \<open>
  \<^verbatim>\<open>zvm_guest_ops\<close> with the operations of the other components. The rest of the system holds the VMs that exist. The
  arguments of the creation are those of \<^verbatim>\<open>z_create_guest\<close>, \<^verbatim>\<open>new\<close> is the pointer to the new structure; \<^verbatim>\<open>stale\<close> and \<^verbatim>\<open>wait\<close> belong to the deletion.
\<close>

type_synonym vm_table = "nat \<Rightarrow> z_vm option"

definition on_vm :: "(z_vm \<Rightarrow> (int \<times> z_vm) outcome) \<Rightarrow> vm_table vm_op" where
  "on_vm f vm sw = (case (vm, sw) of
     (Some (Old_VM h), s, w) \<Rightarrow> (case w h of
       None \<Rightarrow> Fault
     | Some v \<Rightarrow> bind_outcome (f v) (\<lambda>(ret, v). Done (ret, s, w(h \<mapsto> v))))
   | _ \<Rightarrow> Fault)"

definition delete_vm :: "u16 \<Rightarrow> (z_vm \<Rightarrow> z_vm) \<Rightarrow> vm_table vm_op" where
  "delete_vm stale wait vm sw = (case (vm, sw) of
     (Some (Old_VM h), s, w) \<Rightarrow> (case w h of
       None \<Rightarrow> Fault
     | Some v \<Rightarrow> bind_outcome (z_delete_guest stale wait v (overall s)) (\<lambda>(ret, evs, z).
         Done (ret, set_overall z s, if ret = 0 then w(h := None) else w)))
   | _ \<Rightarrow> Fault)"

text \<open>The structure of a new VM has a pointer and is cleared; it belongs to the VMs when it was entered into the table.\<close>

definition blank_vm :: "nat \<Rightarrow> u16 \<Rightarrow> vm_inst" where
  "blank_vm new vm_id = \<lparr>in_handle = new, in_vmid = unat vm_id, in_reboot = False, in_os = None, in_mem = None, in_pgd = 0, in_name = [],
     in_status = VM_STATE_NEVER_RUN, in_vcpus = [], exist_vcpu = 0\<rparr>"

definition create_vm :: "(vm_inst \<Rightarrow> os_state \<Rightarrow> (int \<times> vm_inst \<times> os_state) outcome) \<Rightarrow> nat \<Rightarrow> vm_table vm_op" where
  "create_vm create new vm sw = (case (vm, sw) of
     (Some (New_VM vm_id), s, w) \<Rightarrow> bind_outcome (create (blank_vm new vm_id) s) (\<lambda>(ret, vm, s). Done (ret, s, w(new \<mapsto> vm_of vm)))
   | _ \<Rightarrow> Fault)"

definition zvm_guest_ops :: "(vm_inst \<Rightarrow> os_state \<Rightarrow> (int \<times> vm_inst \<times> os_state) outcome) \<Rightarrow> nat \<Rightarrow> u16 \<Rightarrow> (z_vm \<Rightarrow> z_vm) \<Rightarrow> vm_table zvm_ops" where
  "zvm_guest_ops create new stale wait =
    \<lparr>op_create = create_vm create new, op_run = on_vm z_run_guest, op_pause = on_vm z_pause_guest,
     op_shutdown = on_vm (\<lambda>v. Done (z_shutdown_guest v, v)), op_reboot = on_vm (\<lambda>v. Done (z_reboot_guest v, v)),
     op_delete = delete_vm stale wait, op_info = (\<lambda>vm (s, w). Done (0, s, w))\<rparr>"

end
