(* ===== verification/Vm_Cmd_Props.thy ===== *)
theory Vm_Cmd_Props
  imports Vm_Cmd
begin

text \<open>
  A command reaches the VM that it names, and the options of a new VM are understood as they are written. A number that does not fit
  into an \<^verbatim>\<open>int\<close> names the VM of its low 32 bits.
\<close>

section \<open>Numbers\<close>

lemma digit_char:
  assumes "d < (10 :: nat)"
  shows "digit_value (char_of (48 + d)) = Some d" "is_digit_of 10 (char_of (48 + d))" "\<not> isspace (char_of (48 + d))"
    "char_of (48 + d) \<noteq> CHR ''-''" "char_of (48 + d) \<noteq> CHR ''+''"
proof -
  have m: "(48 + d) mod 256 = 48 + d" using assms by simp
  show "digit_value (char_of (48 + d)) = Some d" using assms by (simp add: digit_value_def isdigit_def m)
  then show "is_digit_of 10 (char_of (48 + d))" using assms by (simp add: is_digit_of_def)
  show "\<not> isspace (char_of (48 + d))" by (simp add: isspace_def m)
  have "code_of (CHR ''-'') = 45" "code_of (CHR ''+'') = 43" by code_simp+
  moreover have "code_of (char_of (48 + d)) \<noteq> 45" "code_of (char_of (48 + d)) \<noteq> 43" by (simp_all add: m)
  ultimately show "char_of (48 + d) \<noteq> CHR ''-''" "char_of (48 + d) \<noteq> CHR ''+''" by metis+
qed

lemma digits_chars: "c \<in> set (digits n) \<Longrightarrow> \<exists>d<(10 :: nat). c = char_of (48 + d)"
proof (induction n rule: digits.induct)
  case (1 n)
  then show ?case by (cases "n < 10") (auto simp: digits.simps[of n] intro: exI[of _ n] exI[of _ "n mod 10"])
qed

lemma number_from_append: "number_from base n (xs @ ys) = number_from base (number_from base n xs) ys"
  by (simp add: number_from_def)

lemma number_digits: "number_from 10 0 (digits n) = n"
proof (induction n rule: digits.induct)
  case (1 n)
  show ?case
  proof (cases "n < 10")
    case True
    then show ?thesis by (simp add: digits.simps[of n] digit_char)
  next
    case False
    then show ?thesis using 1 digit_char(1)[of "n mod 10"] by (simp add: digits.simps[of n] number_from_append)
  qed
qed

lemma digits_nonempty: "digits n \<noteq> []"
  by (simp add: digits.simps[of n])

text \<open>Printing a number and reading it gives the number.\<close>

lemma strtol_digits:
  assumes "int n \<le> LONG_MAX"
  shows "strtol (digits n) 10 = (int n, [])"
proof -
  obtain c cs where c: "digits n = c # cs" using digits_nonempty by (cases "digits n") auto
  then obtain d :: nat where d: "d < 10" "c = char_of (48 + d)" using digits_chars[of c n] by auto
  have all: "\<forall>x\<in>set (digits n). is_digit_of 10 x" using digits_chars digit_char(2) by metis
  have "dropWhile isspace (digits n) = digits n" using digit_char(3)[OF d(1)] d(2) c by simp
  moreover have "strtol_sign (digits n) = (False, digits n)" using digit_char(4,5)[OF d(1)] d(2) c by (simp add: strtol_sign_def)
  moreover have tw: "takeWhile (is_digit_of 10) (digits n) = digits n" "dropWhile (is_digit_of 10) (digits n) = []" using all by simp_all
  ultimately show ?thesis using assms digits_nonempty[of n]
    by (simp add: strtol_spec_eq strtol_spec_def tw number_digits Let_def LONG_MIN_def)
qed

section \<open>The VM of a command\<close>

lemma init_scanning: "argv \<noteq> [] \<Longrightarrow> scanning argv getopt_init"
  by (cases argv) (simp_all add: scanning_def getopt_init_def)

lemma vmid_options: "strchr ''t:n:'' (CHR ''n'') = Some ''n:''" by code_simp

text \<open>The identifier that is read: the low 32 bits of the number.\<close>

lemma vmid_one_option:
  assumes "argv = [name, ''-n'', arg] \<or> argv = [name, ''-n'' @ arg] \<and> arg \<noteq> []"
  shows "vmid_loop m argv getopt_init d = (case strtol arg 10 of (v, endptr) \<Rightarrow>
    let val = sint (word_of_int v :: u32)
    in if endptr \<noteq> [] \<or> val < 0 \<or> int m - 1 < val then Done EINVAL_u16 else Done (word_of_int val))"
proof -
  have ne: "argv \<noteq> []" using assms by auto
  let ?st = "getopt_init\<lparr>optopt := CHR ''n'', optarg := Some arg, optind := length argv\<rparr>"
  have g: "getopt argv ''t:n:'' getopt_init = Done (Some (CHR ''n''), ?st)"
    using assms
  proof
    assume a: "argv = [name, ''-n'', arg]"
    show ?thesis using getopt_separate[OF init_scanning[OF ne] _ _ _ vmid_options] a by (simp add: getopt_init_def)
  next
    assume a: "argv = [name, ''-n'' @ arg] \<and> arg \<noteq> []"
    then show ?thesis using getopt_attached[OF init_scanning[OF ne] _ _ _ _ vmid_options] by (simp add: getopt_init_def)
  qed
  have e: "getopt argv ''t:n:'' ?st = Done (None, ?st)" by (rule getopt_end) (auto simp: scanning_def getopt_init_def)
  have stop: "vmid_loop m argv ?st v = Done v" for v by (simp add: vmid_loop.simps[of _ _ ?st] e)
  show ?thesis by (simp add: vmid_loop.simps[of _ _ getopt_init] g stop Let_def split: prod.splits)
qed

lemma get_vmid_number:
  assumes "argv = [name, ''-n'', digits n] \<or> argv = [name, ''-n'' @ digits n]" "int n \<le> LONG_MAX" "CONFIG_MAX_VM_NUM (overall s) < 2 ^ 15"
  shows "get_vmid_by_id argv s = Done (if n mod 2 ^ 32 < CONFIG_MAX_VM_NUM (overall s) then of_nat (n mod 2 ^ 32) else EINVAL_u16)"
proof -
  let ?v = "sint (word_of_int (int n) :: u32)"
  have v: "?v = (if n mod 2 ^ 32 < 2 ^ 31 then int (n mod 2 ^ 32) else int (n mod 2 ^ 32) - 2 ^ 32)"
  proof -
    have "(int n + 2 ^ 31) mod 2 ^ 32 = (int (n mod 2 ^ 32) + 2 ^ 31) mod 2 ^ 32" by (simp add: zmod_int mod_add_left_eq)
    also have "\<dots> = (if n mod 2 ^ 32 < 2 ^ 31 then int (n mod 2 ^ 32) + 2 ^ 31 else int (n mod 2 ^ 32) - 2 ^ 31)"
    proof (cases "n mod 2 ^ 32 < 2 ^ 31")
      case False
      then have "(int (n mod 2 ^ 32) + 2 ^ 31) mod 2 ^ 32 = (int (n mod 2 ^ 32) - 2 ^ 31 + 2 ^ 32) mod 2 ^ 32" by (simp add: algebra_simps)
      also have "\<dots> = int (n mod 2 ^ 32) - 2 ^ 31" unfolding mod_add_self2 using False by (intro mod_pos_pos_trivial) auto
      finally show ?thesis using False by simp
    qed (auto intro: mod_pos_pos_trivial)
    finally show ?thesis using int_word_sint[of "int n", where 'a = 32] by simp
  qed
  have a: "argv = [name, ''-n'', digits n] \<or> argv = [name, ''-n'' @ digits n] \<and> digits n \<noteq> []" using assms(1) digits_nonempty by simp
  show ?thesis
    unfolding get_vmid_by_id_def vmid_one_option[OF a] strtol_digits[OF assms(2)] prod.case Let_def v using assms(3) by auto
qed

text \<open>The entry that an identifier leads to.\<close>

definition vm_with_id :: "nat \<Rightarrow> zvm_manage_info \<Rightarrow> nat option" where
  "vm_with_id k z = (if k < CONFIG_MAX_VM_NUM z \<and> of_nat k \<in> vm_ids z then vms z ! k else None)"

lemma unat_ucast_16_32: "unat (ucast (i :: u16) :: u32) = unat i"
proof -
  have "unat i < 2 ^ 16" using unsigned_less[of i] by simp
  then have "take_bit 32 (unat i) = unat i" by (intro take_bit_nat_eq_self) simp
  then show ?thesis by (simp add: unsigned_ucast_eq)
qed

lemma id_bit:
  assumes "vmid_inv z"
  shows "(BIT (unat (i :: u16)) :: u64) AND ucast (alloced_vmid z) = 0 \<longleftrightarrow> \<not> (unat i < CONFIG_MAX_VM_NUM z \<and> of_nat (unat i) \<in> vm_ids z)"
proof -
  have b: "j < CONFIG_MAX_VM_NUM z" if "bit (alloced_vmid z) j" for j
  proof -
    have "j < 32" using bit_imp_le_length[OF that] by simp
    then show ?thesis using assms that subsetD[of "vm_ids z" "vmid_universe z" "of_nat j"]
      by (simp add: vmid_inv_def vm_ids_def vmid_universe_def unat_of_nat)
  qed
  have m: "CONFIG_MAX_VM_NUM z < 32" using assms by (simp add: vmid_inv_def)
  have "(BIT j :: u64) AND ucast a = 0 \<longleftrightarrow> \<not> (j < 64 \<and> bit a j)" for j and a :: u32
    by (auto simp: BIT_def bit_eq_iff[of _ "0 :: u64"] bit_simps)
  then have "(BIT (unat i) :: u64) AND ucast (alloced_vmid z) = 0 \<longleftrightarrow> \<not> (unat i < 64 \<and> bit (alloced_vmid z) (unat i))" .
  also have "\<dots> \<longleftrightarrow> \<not> (unat i < CONFIG_MAX_VM_NUM z \<and> of_nat (unat i) \<in> vm_ids z)"
    using b[of "unat i"] m by (auto simp: vm_ids_def unat_ucast_16_32)
  finally show ?thesis .
qed

abbreviation by_number :: "cmd_guest \<Rightarrow> bool" where
  "by_number cmd \<equiv> cmd \<noteq> CMD_CREATE_GUEST \<and> cmd \<noteq> CMD_INFO_GUEST"

lemma command_vm:
  assumes "vmid_inv (overall s)" "by_number cmd" "get_vmid_by_id argv s = Done i"
  shows "zvm_vm_operation_template ops malloc cmd argv (s, w) = (case vm_with_id (unat i) (overall s) of
    None \<Rightarrow> Done (- EINVAL, s, w) | Some h \<Rightarrow> zvm_vm_ops_entry ops (Some (Old_VM h)) cmd (s, w))"
proof -
  have p: "z_parse_vm_cmd cmd argv s = Done (uint i, s)" using assms(2,3) by (cases cmd) (simp_all add: z_parse_vm_cmd_def)
  have g: "zvm_get_vm_by_cmd malloc cmd argv s = Done (map_option Old_VM (vm_with_id (unat i) (overall s)), s)"
    using assms(2) by (simp add: zvm_get_vm_by_cmd_def p id_bit[OF assms(1)] vm_with_id_def)
  show ?thesis using assms(2) by (auto simp: zvm_vm_operation_template_def g split: option.splits)
qed

lemma no_vm_with_EINVAL: "vmid_inv z \<Longrightarrow> vm_with_id (unat EINVAL_u16) z = None"
  by (simp add: vm_with_id_def vmid_inv_def EINVAL_u16_def EINVAL_def)

lemma command_number:
  assumes "vmid_inv (overall s)" "by_number cmd" "argv = [name, ''-n'', digits n] \<or> argv = [name, ''-n'' @ digits n]" "int n \<le> LONG_MAX"
  shows "zvm_vm_operation_template ops malloc cmd argv (s, w) = (case vm_with_id (n mod 2 ^ 32) (overall s) of
    None \<Rightarrow> Done (- EINVAL, s, w) | Some h \<Rightarrow> zvm_vm_ops_entry ops (Some (Old_VM h)) cmd (s, w))"
proof -
  have m: "CONFIG_MAX_VM_NUM (overall s) < 32" using assms(1) by (simp add: vmid_inv_def)
  have "vm_with_id (unat (if n mod 2 ^ 32 < CONFIG_MAX_VM_NUM (overall s) then of_nat (n mod 2 ^ 32) else EINVAL_u16)) (overall s)
      = vm_with_id (n mod 2 ^ 32) (overall s)"
  proof (cases "n mod 2 ^ 32 < CONFIG_MAX_VM_NUM (overall s)")
    case True
    then have "unat (of_nat (n mod 2 ^ 32) :: u16) = n mod 2 ^ 32" using m by (simp add: unat_of_nat)
    then show ?thesis using True by simp
  next
    case False
    then show ?thesis using no_vm_with_EINVAL[OF assms(1)] by (simp add: vm_with_id_def)
  qed
  then show ?thesis using command_vm[OF assms(1,2) get_vmid_number[OF assms(3,4)]] m by simp
qed

lemma shell_dispatch:
  "argv = ''run'' # rest \<Longrightarrow> zvm_shell ops malloc argv sw = zvm_vm_operation_template ops malloc CMD_RUN_GUEST argv sw"
  "argv = ''pause'' # rest \<Longrightarrow> zvm_shell ops malloc argv sw = zvm_vm_operation_template ops malloc CMD_PAUSE_GUEST argv sw"
  "argv = ''delete'' # rest \<Longrightarrow> zvm_shell ops malloc argv sw = zvm_vm_operation_template ops malloc CMD_DELETE_GUEST argv sw"
  "argv = ''create'' # rest \<Longrightarrow> zvm_shell ops malloc argv sw = zvm_vm_operation_template ops malloc CMD_CREATE_GUEST argv sw"
  by (simp_all add: zvm_shell_def)

text \<open>
  C33: The commands run, pause and delete act on the VM with the identifier that is written behind -n, with or without a space, and on
  no other one: the named VM gets the operation of the command, all other VMs stay what they are. When no VM has the identifier,
  the command returns -EINVAL and nothing changes. The number is below two to the power of 31.
\<close>

theorem command_acts_on_named_vm:
  assumes "vmid_inv (overall s)" "k < 2 ^ 31" "name \<in> {''run'', ''pause'', ''delete''}" "argv = [name, ''-n'', digits k] \<or> argv = [name, ''-n'' @ digits k]"
  shows "zvm_shell (zvm_guest_ops create new stale wait) malloc argv (s, w) = (case vm_with_id k (overall s) of
      None \<Rightarrow> Done (- EINVAL, s, w)
    | Some h \<Rightarrow> (case w h of
        None \<Rightarrow> Fault
      | Some v \<Rightarrow>
          if name = ''run'' then bind_outcome (z_run_guest v) (\<lambda>(ret, v'). Done (ret, s, w(h \<mapsto> v')))
          else if name = ''pause'' then bind_outcome (z_pause_guest v) (\<lambda>(ret, v'). Done (ret, s, w(h \<mapsto> v')))
          else bind_outcome (z_delete_guest stale wait v (overall s)) (\<lambda>(ret, evs, z). Done (ret, set_overall z s, if ret = 0 then w(h := None) else w))))"
proof -
  have k: "int k \<le> LONG_MAX" "k mod 2 ^ 32 = k" using assms(2) by (simp_all add: LONG_MAX_def)
  have run: "zvm_vm_operation_template ops malloc cmd argv (s, w) = (case vm_with_id k (overall s) of
      None \<Rightarrow> Done (- EINVAL, s, w) | Some h \<Rightarrow> zvm_vm_ops_entry ops (Some (Old_VM h)) cmd (s, w))"
    if "by_number cmd" for cmd and ops :: "vm_table zvm_ops"
    using command_number[OF assms(1) that assms(4) k(1)] k(2) by simp
  obtain rest where a: "argv = name # rest" using assms(4) by auto
  from assms(3) consider "name = ''run''" | "name = ''pause''" | "name = ''delete''" by blast
  then show ?thesis
  proof cases
    case 1
    then show ?thesis unfolding shell_dispatch(1)[OF a[unfolded 1]] by (simp add: run zvm_vm_ops_entry_def zvm_guest_ops_def on_vm_def cong: option.case_cong)
  next
    case 2
    then show ?thesis unfolding shell_dispatch(2)[OF a[unfolded 2]] by (simp add: run zvm_vm_ops_entry_def zvm_guest_ops_def on_vm_def cong: option.case_cong)
  next
    case 3
    then show ?thesis unfolding shell_dispatch(3)[OF a[unfolded 3]] by (simp add: run zvm_vm_ops_entry_def zvm_guest_ops_def delete_vm_def cong: option.case_cong)
  qed
qed

definition one_vm :: zvm_manage_info where
  "one_vm = zvm_info_3\<lparr>vms := [Some 5, None, None], alloced_vmid := 1, vm_total_num := 1\<rparr>"

definition vm_idle :: z_vm where
  "vm_idle = \<lparr>vm_status = VM_STATE_RUNNING, vm_vcpus = [], vm_lock = False, vm_vmid = 0, events = []\<rparr>"

lemma one_vm_facts: "vmid_inv one_vm" "vm_with_id 0 one_vm = Some 5"
proof -
  have "vm_ids one_vm = {0}" by (auto simp: one_vm_def vm_ids_def bit_1_iff unat_eq_0)
  then show "vmid_inv one_vm" "vm_with_id 0 one_vm = Some 5" by (simp_all add: vmid_inv_def vmid_universe_def vm_with_id_def one_vm_def)
qed

theorem command_acts_on_named_vm_witness:
  "zvm_shell (zvm_guest_ops (\<lambda>vm s. Fault) 0 0 id) True [''pause'', ''-n'', ''0''] (set_overall one_vm os_new, [5 \<mapsto> vm_idle])
    = Done (0, set_overall one_vm os_new, [5 \<mapsto> vm_idle\<lparr>vm_status := VM_STATE_PAUSE\<rparr>])"
proof -
  have d: "digits 0 = ''0''" by code_simp
  have p: "z_pause_guest vm_idle = Done (0, vm_idle\<lparr>vm_status := VM_STATE_PAUSE\<rparr>)" by code_simp
  show ?thesis
    using command_acts_on_named_vm[of "set_overall one_vm os_new" 0 "''pause''" "[''pause'', ''-n'', ''0'']" "\<lambda>vm s. Fault" 0 0 id True "[5 \<mapsto> vm_idle]"]
    by (simp add: one_vm_facts d p)
qed

text \<open>The value is kept in 32 bits: a number names the VM of its low 32 bits.\<close>

theorem large_number_names_vm:
  assumes "vmid_inv (overall s)" "int (k + 2 ^ 32 * j) \<le> LONG_MAX" "k < 2 ^ 31" "by_number cmd"
  shows "zvm_vm_operation_template ops malloc cmd [name, ''-n'', digits (k + 2 ^ 32 * j)] (s, w)
    = zvm_vm_operation_template ops malloc cmd [name, ''-n'', digits k] (s, w)"
proof -
  have "(k + 2 ^ 32 * j) mod 2 ^ 32 = k mod 2 ^ 32" by simp
  moreover have "int k \<le> LONG_MAX" using assms(3) by (simp add: LONG_MAX_def)
  ultimately show ?thesis by (simp only: command_number[OF assms(1,4) disjI1[OF refl] assms(2)] command_number[OF assms(1,4) disjI1[OF refl]])
qed

text \<open>An empty argument names the VM with the identifier 0.\<close>

lemma empty_number_names_vm:
  assumes "0 < CONFIG_MAX_VM_NUM (overall s)"
  shows "get_vmid_by_id [name, ''-n'', []] s = Done 0"
proof -
  have "strtol [] 10 = (0, [])" by (simp add: strtol_spec_eq strtol_spec_def strtol_sign_def LONG_MIN_def LONG_MAX_def)
  then show ?thesis using assms by (simp add: get_vmid_by_id_def vmid_one_option[where arg = "[]"] Let_def)
qed

section \<open>The options of a new VM\<close>

datatype vm_opt = Os_Type string | Cpus nat | Memory nat

fun opt_letter :: "vm_opt \<Rightarrow> char" where
  "opt_letter (Os_Type _) = CHR ''t''"
| "opt_letter (Cpus _) = CHR ''c''"
| "opt_letter (Memory _) = CHR ''m''"

fun opt_value :: "vm_opt \<Rightarrow> string" where
  "opt_value (Os_Type os) = os"
| "opt_value (Cpus n) = digits n"
| "opt_value (Memory m) = digits m"

text \<open>The arguments of a command with options, and the options taken one after the other.\<close>

definition opt_args :: "vm_opt list \<Rightarrow> string list" where
  "opt_args opts = concat (map (\<lambda>p. [[CHR ''-'', opt_letter p], opt_value p]) opts)"

primrec take_opts :: "os_state \<Rightarrow> vm_opt list \<Rightarrow> create_opts \<Rightarrow> int + create_opts" where
  "take_opts s [] co = Inr co"
| "take_opts s (p # opts) co = (case create_option (opt_letter p) (opt_value p) s co of Inl e \<Rightarrow> Inl e | Inr co \<Rightarrow> take_opts s opts co)"

lemma create_letters:
  "\<exists>opts. strchr ''t:c:m:'' (opt_letter p) = Some (opt_letter p # CHR '':'' # opts)" "opt_letter p \<noteq> CHR ''-''" "opt_letter p \<noteq> CHR '':''"
  "opt_letter p \<in> set ''tcm''"
  by (cases p; simp add: strchr_def)+

lemma create_loop_opts:
  assumes "scanning (pre @ opt_args opts) st" "getopt_state.place st = []" "optind st = length pre"
  shows "create_loop s (pre @ opt_args opts) st co = Done (take_opts s opts co)"
  using assms
proof (induction opts arbitrary: pre st co)
  case Nil
  have "getopt (pre @ opt_args []) ''t:c:m:'' st = Done (None, st)" by (rule getopt_end[OF Nil(1,2)]) (simp add: Nil(3) opt_args_def)
  then show ?case by (simp add: create_loop.simps[of s "pre @ opt_args []" st])
next
  case (Cons p opts)
  let ?argv = "pre @ opt_args (p # opts)"
  let ?st = "st\<lparr>optopt := opt_letter p, optarg := Some (?argv ! (optind st + 1)), optind := optind st + 2\<rparr>"
  have a: "?argv = (pre @ [[CHR ''-'', opt_letter p], opt_value p]) @ opt_args opts" by (simp add: opt_args_def)
  obtain ls where ls: "strchr ''t:c:m:'' (opt_letter p) = Some (opt_letter p # CHR '':'' # ls)" using create_letters(1) by blast
  have g: "getopt ?argv ''t:c:m:'' st = Done (Some (opt_letter p), ?st)"
    by (rule getopt_separate[OF Cons.prems(1,2) _ _ ls create_letters(2,3)]) (simp_all add: Cons.prems(3) opt_args_def nth_append)
  have v: "?argv ! (optind st + 1) = opt_value p" by (simp add: Cons.prems(3) opt_args_def nth_append)
  have IH: "create_loop s ?argv ?st co' = Done (take_opts s opts co')" for co'
    unfolding a by (rule Cons.IH) (use Cons.prems in \<open>auto simp: scanning_def opt_args_def\<close>)
  show ?case using create_letters(4)[of p]
    by (simp add: create_loop.simps[of s ?argv st] g[unfolded v] IH[unfolded v, simplified] split: sum.splits del: set_simps)
qed

text \<open>The request that options stand for: a type, and a number of vCPUs and a size of memory if they were given.\<close>

definition request :: "u16 \<Rightarrow> nat option \<Rightarrow> nat option \<Rightarrow> create_opts" where
  "request ty n m = \<lparr>guest_os = (guest_os no_opts)\<lparr>os_type := ty, os_vcpu_num := (case n of None \<Rightarrow> 0 | Some n \<Rightarrow> of_nat n),
      vm_mem_size := (case m of None \<Rightarrow> 0 | Some m \<Rightarrow> of_nat (m * 1024 * 1024))\<rparr>, special_cpu = (n \<noteq> None), special_mem = (m \<noteq> None)\<rparr>"

lemma memory_word:
  assumes "m \<le> 1024"
  shows "(ucast (word_of_int (int m * 1024 * 1024) :: u32) :: u64) = of_nat (m * 1024 * 1024)"
proof -
  have "(ucast (of_nat k :: u32) :: u64) = of_nat k" if "k < 2 ^ 32" for k
    using that by (simp add: word_unat_eq_iff unat_ucast_32_64 unat_of_nat)
  moreover have "m * 1024 * 1024 < 2 ^ 32" using assms by simp
  moreover have "word_of_int (int m * 1024 * 1024) = (of_nat (m * 1024 * 1024) :: u32)" by simp
  ultimately show ?thesis by metis
qed

lemma take_one_opt:
  assumes "get_os_type_from_args os = uint ty" "0 < n" "n \<le> CONFIG_MAX_VCPU_PER_VM s" "CONFIG_MAX_VCPU_PER_VM s < 2 ^ 16"
    "vcpu_margin_check ty (int n) (sched s)" "0 < m" "m \<le> 1024" "p \<in> {Os_Type os, Cpus n, Memory m}"
  shows "create_option (opt_letter p) (opt_value p) s (request ty x y) =
    Inr (request ty (if p = Cpus n then Some n else x) (if p = Memory m then Some m else y))"
proof -
  have l: "int n \<le> LONG_MAX" "int m \<le> LONG_MAX" using assms(3,4,7) by (simp_all add: LONG_MAX_def)
  from assms(8) consider "p = Os_Type os" | "p = Cpus n" | "p = Memory m" by blast
  then show ?thesis
  proof cases
    case 1
    then show ?thesis using assms(1) by (simp add: create_option_def set_type_def request_def)
  next
    case 2
    then show ?thesis using assms(2-5) by (simp add: create_option_def set_cpus_def strtol_digits[OF l(1)] request_def)
  next
    case 3
    then show ?thesis using assms(6,7) memory_word[OF assms(7)] by (simp add: create_option_def set_memory_def strtol_digits[OF l(2)] request_def)
  qed
qed

lemma take_opts_request:
  assumes "get_os_type_from_args os = uint ty" "0 < n" "n \<le> CONFIG_MAX_VCPU_PER_VM s" "CONFIG_MAX_VCPU_PER_VM s < 2 ^ 16"
    "vcpu_margin_check ty (int n) (sched s)" "0 < m" "m \<le> 1024" "set opts \<subseteq> {Os_Type os, Cpus n, Memory m}"
  shows "take_opts s opts (request ty x y) =
    Inr (request ty (if Cpus n \<in> set opts then Some n else x) (if Memory m \<in> set opts then Some m else y))"
  using assms(8)
proof (induction opts arbitrary: x y)
  case (Cons p opts)
  then have "p \<in> {Os_Type os, Cpus n, Memory m}" by simp
  note one = take_one_opt[OF assms(1-7) this]
  show ?case using Cons by (auto simp: one)
qed simp

text \<open>
  C34: The command create understands its options: behind the type of the operating system, the number of vCPUs and the size of the memory may be
  given in any order and more than once. When the number is one that the hypervisor allows and for which there are CPUs, and the memory is between
  1 and 1024 megabytes, the guest is configured with exactly this request, and the VM with the identifier that the configuration returned is
  created and entered among the VMs; when the configuration fails the command returns -EINVAL and creates nothing.
\<close>

theorem create_command_understood:
  assumes "get_os_type_from_args os = uint ty" "0 < n" "n \<le> CONFIG_MAX_VCPU_PER_VM s" "CONFIG_MAX_VCPU_PER_VM s < 2 ^ 16"
    "vcpu_margin_check ty (int n) (sched s)" "0 < m" "m \<le> 1024" "set opts \<subseteq> {Os_Type os, Cpus n, Memory m}"
  shows "zvm_shell (zvm_guest_ops create new stale wait) True (''create'' # opt_args (Os_Type os # opts)) (s, w) =
    (let q = request ty (if Cpus n \<in> set opts then Some n else None) (if Memory m \<in> set opts then Some m else None)
     in bind_outcome (get_os_template_type (guest_os q) (special_cpu q) (special_mem q) s) (\<lambda>(ret, s').
       if ret < 0 then Done (- EINVAL, s', w)
       else bind_outcome (create (blank_vm new (word_of_int ret)) s') (\<lambda>(ret, vm, s''). Done (ret, s'', w(new \<mapsto> vm_of vm)))))"
proof -
  let ?argv = "''create'' # opt_args (Os_Type os # opts)"
  let ?q = "request ty (if Cpus n \<in> set opts then Some n else None) (if Memory m \<in> set opts then Some m else None)"
  have ty: "ty \<noteq> UINT16_MAX" using assms(1)
    by (auto simp: get_os_type_from_args_def EINVAL_def OS_TYPE_LINUX_def OS_TYPE_ZEPHYR_def OS_TYPE_FREERTOS_def UINT16_MAX_def split: if_splits)
  have first: "set_type os no_opts = Inr (request ty None None)" using assms(1) by (simp add: set_type_def request_def no_opts_def)
  have "create_loop s ([''create''] @ opt_args (Os_Type os # opts)) getopt_init no_opts = Done (take_opts s (Os_Type os # opts) no_opts)"
    by (rule create_loop_opts) (auto simp: scanning_def getopt_init_def opt_args_def)
  then have loop: "create_loop s ?argv getopt_init no_opts = Done (Inr ?q)"
    using first take_opts_request[OF assms, of None None] by (simp add: create_option_def)
  have q: "os_type (guest_os ?q) = ty" by (simp add: request_def)
  have parse: "z_parse_vm_cmd CMD_CREATE_GUEST ?argv s = get_os_template_type (guest_os ?q) (special_cpu ?q) (special_mem ?q) s"
    using ty by (simp add: z_parse_vm_cmd_def handle_vm_create_cmd_def loop q)
  have get: "zvm_get_vm_by_cmd True CMD_CREATE_GUEST ?argv s = bind_outcome (get_os_template_type (guest_os ?q) (special_cpu ?q) (special_mem ?q) s)
      (\<lambda>(ret, s'). Done (if ret < 0 then None else Some (New_VM (word_of_int ret)), s'))"
    unfolding zvm_get_vm_by_cmd_def parse by (rule bind_outcome_cong) (auto simp: Let_def)
  show ?thesis
    unfolding shell_dispatch(4)[OF refl] zvm_vm_operation_template_def prod.case get Let_def
    by (cases "get_os_template_type (guest_os ?q) (special_cpu ?q) (special_mem ?q) s")
      (auto simp: zvm_vm_ops_entry_def zvm_guest_ops_def create_vm_def)
qed

theorem create_command_understood_witness:
  "\<exists>s' w'. zvm_shell (zvm_guest_ops (\<lambda>vm s. Done (0, vm, s)) 7 0 id) True (''create'' # opt_args [Os_Type ''linux'', Memory 16, Cpus 1]) (os_new, \<lambda>_. None)
      = Done (0, s', w') \<and> w' 7 \<noteq> None"
proof -
  let ?g = "(guest_os no_opts)\<lparr>os_type := 1, os_vcpu_num := 1, vm_mem_size := 0x1000000\<rparr>"
  have c: "case get_os_template_type ?g True True os_new of Done (ret, _) \<Rightarrow> ret = 0 | _ \<Rightarrow> False" by code_simp
  then obtain s' where s': "get_os_template_type ?g True True os_new = Done (0, s')" by (auto split: outcome.splits)
  have t: "get_os_type_from_args ''linux'' = uint (1 :: u16)" "1 \<le> CONFIG_MAX_VCPU_PER_VM os_new" "CONFIG_MAX_VCPU_PER_VM os_new < 2 ^ 16"
    "vcpu_margin_check 1 (int 1) (sched os_new)"
    by (simp_all add: get_os_type_from_args_def OS_TYPE_LINUX_def os_new_def) code_simp
  have q: "guest_os (request 1 (Some 1) (Some 16)) = ?g" "special_cpu (request 1 (Some 1) (Some 16))" "special_mem (request 1 (Some 1) (Some 16))"
    by (simp_all add: request_def)
  have "zvm_shell (zvm_guest_ops (\<lambda>vm s. Done (0, vm, s)) 7 0 id) True (''create'' # opt_args (Os_Type ''linux'' # [Memory 16, Cpus 1])) (os_new, \<lambda>_. None)
      = Done (0, s', [7 \<mapsto> vm_of (blank_vm 7 0)])"
    using create_command_understood[OF t(1) zero_less_one t(2-4), of 16 "[Memory 16, Cpus 1]" "\<lambda>vm s. Done (0, vm, s)" 7 0 id "\<lambda>_. None"] q s' by (simp add: Let_def)
  then show ?thesis by auto
qed

text \<open>The number of vCPUs in front of the type is checked for a guest with real-time vCPUs: a Linux guest for which there are CPUs is refused.\<close>

lemma cpus_before_type_refused:
  assumes "0 < n" "n \<le> CONFIG_MAX_VCPU_PER_VM s" "CONFIG_MAX_VCPU_PER_VM s < 2 ^ 16" "\<not> vcpu_margin_check OS_TYPE_ZEPHYR (int n) (sched s)"
  shows "take_opts s [Cpus n, Os_Type ''linux''] no_opts = Inl (- EINVAL)"
proof -
  have "vcpu_margin_check UINT16_MAX (int n) (sched s) = vcpu_margin_check OS_TYPE_ZEPHYR (int n) (sched s)"
    by (simp add: vcpu_margin_check_def guest_os_is_rtos_def UINT16_MAX_def OS_TYPE_ZEPHYR_def OS_TYPE_LINUX_def)
  moreover have "int n \<le> LONG_MAX" using assms(2,3) by (simp add: LONG_MAX_def)
  ultimately show ?thesis using assms by (simp add: create_option_def set_cpus_def strtol_digits no_opts_def)
qed

end
