(* ===== verification/Vconsole.thy ===== *)
theory Vconsole
  imports Vserial_Props Vm_Life
begin

text \<open>
  The console of the host (\<^verbatim>\<open>vserial.c\<close>): the list of serial ports of the VMs, and the one that is connected to the shell. While a port is
  connected the input of the shell goes to it (bypass). Pointers are numbers; a port that was given back is no longer in \<^verbatim>\<open>serials\<close>. The list is
  kept as a list of pointers, which \<^verbatim>\<open>Sys_Dlist\<close> implements. Output to the host and printing are left out.
\<close>

section \<open>State\<close>

record virt_serial =
  vs_name :: string
  vs_vm :: nat
  vs_priv :: nat

text \<open>\<^verbatim>\<open>z_virt_serial_ctrl\<close>, the structures it leads to, the bypass and the receive buffer of the shell. \<^verbatim>\<open>vmid_of\<close> gives the identifier of a VM.\<close>

record vconsole =
  virt_serial_list :: "nat list"
  connecting :: bool
  connecting_vm_id :: u8
  connecting_virt_serial :: "nat option"
  serials :: "nat \<Rightarrow> virt_serial option"
  ports :: "nat \<Rightarrow> virt_pl011"
  vmid_of :: "nat \<Rightarrow> u16"
  bypass :: bool
  rx_ringbuf :: "u8 list"
  connect_vm_sem :: nat

definition VM_FIELD_NAME_SIZE :: nat where "VM_FIELD_NAME_SIZE = 32"
definition EXIT_VSERIAL_KEY :: u8 where "EXIT_VSERIAL_KEY = 0x18"

definition set_port :: "nat \<Rightarrow> (virt_pl011 \<Rightarrow> virt_pl011) \<Rightarrow> vconsole \<Rightarrow> vconsole" where
  "set_port p f st = st\<lparr>ports := (ports st)(p := f (ports st p))\<rparr>"

section \<open>Operations\<close>

definition virt_serial_ctrl_init :: "vconsole \<Rightarrow> vconsole" where
  "virt_serial_ctrl_init st = st\<lparr>virt_serial_list := [], connecting := False, connecting_vm_id := 0, connecting_virt_serial := None\<rparr>"

definition virt_serial_count :: "vconsole \<Rightarrow> nat" where
  "virt_serial_count st = length (virt_serial_list st)"

text \<open>The last port of the list that belongs to the VM.\<close>

definition get_vserial :: "u8 \<Rightarrow> vconsole \<Rightarrow> nat option" where
  "get_vserial vmid st = fold (\<lambda>v serial. case serials st v of
     Some r \<Rightarrow> if vmid_of st (vs_vm r) = ucast vmid then Some v else serial
   | None \<Rightarrow> serial) (virt_serial_list st) None"

text \<open>\<^verbatim>\<open>new\<close> is the pointer that k_malloc returns, \<^verbatim>\<open>vm\<close> the VM of the port \<^verbatim>\<open>priv\<close>. The structure is cleared before the pointer is tested.\<close>

definition virt_serial_create :: "nat option \<Rightarrow> string \<Rightarrow> nat \<Rightarrow> nat \<Rightarrow> vconsole \<Rightarrow> (nat option \<times> vconsole) outcome" where
  "virt_serial_create new name vm priv st =
    (case List.find (\<lambda>v. map_option vs_name (serials st v) = Some name) (virt_serial_list st) of
       Some v \<Rightarrow> Done (Some v, st\<lparr>serials := (serials st)(v := map_option (\<lambda>r. r\<lparr>vs_vm := vm, vs_priv := priv\<rparr>) (serials st v))\<rparr>)
     | None \<Rightarrow> (case new of
         None \<Rightarrow> Fault
       | Some v \<Rightarrow>
           if VM_FIELD_NAME_SIZE \<le> length name then Done (None, st)
           else Done (Some v, st\<lparr>serials := (serials st)(v \<mapsto> \<lparr>vs_name = name, vs_vm = vm, vs_priv = priv\<rparr>),
                                virt_serial_list := virt_serial_list st @ [v]\<rparr>)))"

definition virt_serial_destroy :: "nat \<Rightarrow> vconsole \<Rightarrow> int \<times> vconsole" where
  "virt_serial_destroy v st =
    (0, st\<lparr>bypass := False, virt_serial_list := remove1 v (virt_serial_list st), serials := (serials st)(v := None)\<rparr>)"

text \<open>What follows a pointer to a port.\<close>

definition with_serial :: "nat option \<Rightarrow> vconsole \<Rightarrow> (virt_serial \<Rightarrow> 'a outcome) \<Rightarrow> 'a outcome" where
  "with_serial v st f = (case v of None \<Rightarrow> Fault | Some v \<Rightarrow> (case serials st v of None \<Rightarrow> Fault | Some r \<Rightarrow> f r))"

definition virt_serial_disconnect_all :: "vconsole \<Rightarrow> vconsole outcome" where
  "virt_serial_disconnect_all st =
    (let st = st\<lparr>bypass := False\<rparr>
     in with_serial (connecting_virt_serial st) st (\<lambda>r.
          Done ((set_port (vs_priv r) (\<lambda>p. p\<lparr>pl011_connecting := False\<rparr>) st)\<lparr>connecting := False, connecting_vm_id := - 1\<rparr>)))"

definition transfer :: "u8 list \<Rightarrow> vconsole \<Rightarrow> vconsole outcome" where
  "transfer data st =
    (if take 1 data = [EXIT_VSERIAL_KEY] then virt_serial_disconnect_all st
     else with_serial (connecting_virt_serial st) st (\<lambda>r. Done (set_port (vs_priv r) (\<lambda>p. snd (pl011_virt_serial_send data p)) st)))"

definition virt_serial_connect :: "u8 \<Rightarrow> vconsole \<Rightarrow> vconsole outcome" where
  "virt_serial_connect vm_id st =
    (let serial = get_vserial vm_id st;
         st = st\<lparr>connecting := True, connecting_vm_id := vm_id, connecting_virt_serial := serial\<rparr>
     in with_serial serial st (\<lambda>r.
          Done ((set_port (vs_priv r) (\<lambda>p. p\<lparr>pl011_connecting := True\<rparr>) st)
            \<lparr>bypass := True, rx_ringbuf := rx_ringbuf st @ [13], connect_vm_sem := 1\<rparr>)))"

text \<open>The command. \<^verbatim>\<open>status\<close> is the status of the VM behind a pointer; an identifier that is taken leads to the table of VMs, whatever is there.\<close>

definition switch_virtual_serial_handler :: "(nat \<Rightarrow> vm_status) \<Rightarrow> string list \<Rightarrow> zvm_manage_info \<Rightarrow> vconsole \<Rightarrow> vconsole outcome" where
  "switch_virtual_serial_handler status argv z st =
    (if length argv \<le> 1 then Done st
     else if argv ! 1 = [] then Fault
     else if 1 < length (argv ! 1) then Done st
     else let c = of_char (hd (argv ! 1)) :: nat; i = c - 48
          in if c > 57 \<or> c < 48 \<or> CONFIG_MAX_VM_NUM z - 1 < i then Done st
             else if BIT i AND ucast (alloced_vmid z) = 0 then Done st
             else case vms z ! i of
                 None \<Rightarrow> Fault
               | Some h \<Rightarrow>
                   if status h \<noteq> VM_STATE_RUNNING then Done st
                   else virt_serial_connect (of_nat i) (st\<lparr>connecting := True\<rparr>))"

section \<open>The shell and the thread\<close>

text \<open>The shell takes its input, of which \<^verbatim>\<open>n\<close> bytes have come: up to sixteen bytes at a time for the port while there is a bypass, and byte by byte
  for the command line otherwise. A command of the line is a step of its own.\<close>

definition shell_collect :: "nat \<Rightarrow> vconsole \<Rightarrow> vconsole outcome" where
  "shell_collect n st =
    (let size = min n (if bypass st then 16 else 1); data = take size (rx_ringbuf st); st' = st\<lparr>rx_ringbuf := drop size (rx_ringbuf st)\<rparr>
     in if data = [] then Done st else if bypass st then transfer data st' else Done st')"

text \<open>A round of the thread: whether the VM of the connected port gets the interrupt of the port. The thread holds the pointer to the port.\<close>

definition vserial_it_emulator_round :: "vconsole \<Rightarrow> (nat \<times> u32) option outcome" where
  "vserial_it_emulator_round st =
    (if \<not> connecting st then Done None
     else with_serial (connecting_virt_serial st) st (\<lambda>r.
       let p = ports st (vs_priv r)
       in Done (if pl011_enabled p AND pl011_level p \<noteq> 0 then Some (vs_vm r, pl011_irq p) else None)))"

end
