(* ===== verification/Vm_Dev_Init.thy ===== *)
theory Vm_Dev_Init
  imports Zshm Vconsole Vcpu_Alloc
begin

text \<open>
  The devices that a VM gets when it is created and loses when it is deleted (\<^verbatim>\<open>vm_device_init\<close> and \<^verbatim>\<open>vm_device_deinit\<close> of
  \<^verbatim>\<open>vm_device.c\<close>, the init and deinit functions of the drivers under \<^verbatim>\<open>vdev\<close>). The drivers that are linked in are a list; the
  addresses of the device tree are fields of the state. Pointers are numbers. The driver of the serial port enters it into the list of the
  console. Virtio (CONFIG_VM_VIRTIO_MMIO) is left out.
\<close>

section \<open>State\<close>

text \<open>
  \<^verbatim>\<open>priv_vdev\<close> is the field of that name of the device at a pointer, \<^verbatim>\<open>vserial_of\<close> the field \<^verbatim>\<open>vserial\<close> of a port. The port of the
  VM is \<^verbatim>\<open>serial\<close> of its devices; the console reaches it through its pointer.
\<close>

record virt_syscon =
  sc_name :: string
  reg_base :: u32
  reg_size :: u32

record dev_sys =
  d_vm :: vm_devs
  d_console :: vconsole
  d_shm :: zshm
  d_handle :: nat
  vm_name :: string
  priv_vdev :: "nat \<Rightarrow> nat option"
  vserial_of :: "nat \<Rightarrow> nat option"
  instances :: "vdev_instance list"
  syscon_list :: "virt_syscon list"
  clk_syscon_list :: "virt_syscon list"
  VGIC_DIST_BASE :: u32
  VGIC_DIST_SIZE :: u32
  VGIC_RDIST_BASE :: u32
  VGIC_RDIST_SIZE :: u32
  VSERIAL_REG_BASE :: u64
  VSERIAL_REG_SIZE :: u64
  VSERIAL_DEV_VIRQ :: u64
  RKLD_START_PHY_ADDR :: u64
  RKLD_SIZE :: u32

abbreviation upd_vm :: "(vm_devs \<Rightarrow> vm_devs) \<Rightarrow> dev_sys \<Rightarrow> dev_sys" where
  "upd_vm f s \<equiv> s\<lparr>d_vm := f (d_vm s)\<rparr>"

text \<open>The results of k_malloc in the drivers.\<close>

record dev_mallocs =
  m_gic :: malloc_dev
  m_vgicv3 :: "nat option"
  m_gicr :: "nat \<Rightarrow> bool"
  m_serial :: malloc_dev
  m_vpl011 :: "nat option"
  m_regs :: bool
  m_vserial :: "nat option"
  m_syscon :: "nat \<Rightarrow> malloc_dev"
  m_clk :: "nat \<Rightarrow> malloc_dev"
  m_ld :: malloc_dev
  m_shm :: "nat \<Rightarrow> malloc_dev"

text \<open>What the drivers do with a device: adding it, naming its driver, clearing its private data and removing it.\<close>

definition add_dev :: "malloc_dev \<Rightarrow> string \<Rightarrow> u64 \<Rightarrow> u32 \<Rightarrow> u32 \<Rightarrow> u32 \<Rightarrow> dev_sys \<Rightarrow> (z_virt_dev option \<times> dev_sys) outcome" where
  "add_dev malloc name base sz hirq virq s =
    bind_outcome (vm_virt_dev_add malloc name False False base base sz hirq virq (d_vm s)) (\<lambda>(r, v). Done (r, s\<lparr>d_vm := v\<rparr>))"

definition set_driver :: "nat \<Rightarrow> vdev_instance \<Rightarrow> dev_sys \<Rightarrow> dev_sys" where
  "set_driver ptr i = upd_vm (upd_vdev ptr (\<lambda>d. d\<lparr>priv_data := Some i\<rparr>))"

definition drop_dev :: "z_virt_dev \<Rightarrow> dev_sys \<Rightarrow> int \<times> dev_sys" where
  "drop_dev d s = (case vm_virt_dev_remove d (d_vm s) of (ret, v) \<Rightarrow> (ret, s\<lparr>d_vm := v, priv_vdev := (priv_vdev s)(dev_ptr d := None)\<rparr>))"

section \<open>Interrupts\<close>

text \<open>The block of interrupts of a VM. Only an eighth of the flags for interrupts that are passed through is cleared.\<close>

definition vm_irq_ctrlblock_create :: "nat \<Rightarrow> vm_devs \<Rightarrow> int \<times> vm_devs" where
  "vm_irq_ctrlblock_create lr_num v =
    (if lr_num = 0 then (- ENODEV, v)
     else (0, v\<lparr>pt_irq_bitmap := (\<lambda>i. if i < VM_GLOBAL_VIRQ_NR (gic v) div 8 then False else pt_irq_bitmap v i)\<rparr>))"

section \<open>Interrupt controller\<close>

definition vm_vgicv3_init :: "dev_mallocs \<Rightarrow> dev_sys \<Rightarrow> (int \<times> dev_sys) outcome" where
  "vm_vgicv3_init m s =
    (if VGIC_DIST_BASE s = 0 \<or> VGIC_DIST_SIZE s = 0 \<or> VGIC_RDIST_BASE s = 0 \<or> VGIC_RDIST_SIZE s = 0 then Done (- ENODEV, s)
     else bind_outcome (add_dev (m_gic m) ''vm_gic_v3'' (ucast (VGIC_DIST_BASE s))
         (VGIC_RDIST_BASE s + VGIC_RDIST_SIZE s - VGIC_DIST_BASE s) 0 0 s) (\<lambda>(r, s). case r of
       None \<Rightarrow> Done (- ENODEV, s)
     | Some d \<Rightarrow> (case m_vgicv3 m of
         None \<Rightarrow> Fault
       | Some p \<Rightarrow> (case vdev_gicv3_init (m_gicr m) (VGIC_DIST_BASE s) (VGIC_DIST_SIZE s) (VGIC_RDIST_BASE s) (gic (d_vm s)) of (ret, g) \<Rightarrow>
           let s = upd_vm (\<lambda>v. v\<lparr>gic := g\<rparr>) s
           in if ret \<noteq> 0 then Done (- ENODEV, s)
              else Done (0, (set_driver (dev_ptr d) Vm_vgic s)\<lparr>priv_vdev := (priv_vdev s)(dev_ptr d := Some p)\<rparr>)))))"

definition vm_vgicv3_deinit :: "z_virt_dev \<Rightarrow> dev_sys \<Rightarrow> (int \<times> dev_sys) outcome" where
  "vm_vgicv3_deinit d s = (case priv_vdev s (dev_ptr d) of None \<Rightarrow> Done (0, s) | Some p \<Rightarrow> Done (drop_dev d s))"

section \<open>Serial port\<close>

text \<open>A port whose memory was cleared; what was printed and the offset of the board are not part of that memory.\<close>

definition cleared_pl011 :: "virt_pl011 \<Rightarrow> virt_pl011" where
  "cleared_pl011 p = \<lparr>vserial_regs = [], vserial_base = 0, vserial_size = 0, pl011_irq = 0, pl011_enabled = 0, pl011_level = 0, set_irq = False,
     pl011_count = 0, pl011_connecting = False,
     buffer = \<lparr>sb_data = replicate SEND_BUFFER_SIZE 0, write_pos = 0, read_pos = 0, sb_count = 0, buffer_overflow = False\<rparr>,
     uart_out = uart_out p, VPL011_LINUX_OFFSET = VPL011_LINUX_OFFSET p\<rparr>"

text \<open>The name of the port is put together in 64 bytes. Without an entry in the list of ports the device works, but can not be looked at.\<close>

definition vm_virt_serial_init :: "dev_mallocs \<Rightarrow> dev_sys \<Rightarrow> (int \<times> dev_sys) outcome" where
  "vm_virt_serial_init m s =
    (let virq = VSERIAL_DEV_VIRQ s in
     if VSERIAL_REG_BASE s = 0 \<or> VSERIAL_REG_SIZE s = 0 then Done (- ENODEV, s)
     else bind_outcome (add_dev (m_serial m) ''vpl011'' (VSERIAL_REG_BASE s) (ucast (VSERIAL_REG_SIZE s)) (ucast virq) (ucast virq) s) (\<lambda>(r, s).
       case r of
         None \<Rightarrow> Done (- ENODEV, s)
       | Some d \<Rightarrow> (case m_vpl011 m of
           None \<Rightarrow> Fault
         | Some p \<Rightarrow> (case vpl011_regs_init (m_regs m) (ucast (VSERIAL_REG_BASE s)) (ucast (VSERIAL_REG_SIZE s)) (cleared_pl011 (serial (d_vm s))) of
             (ret, q) \<Rightarrow>
               if ret \<noteq> 0 then Done (- ENODEV, upd_vm (\<lambda>v. v\<lparr>serial := q\<rparr>) s)
               else if 64 \<le> length (vm_name s) + 7 then Fault
               else let q = q\<lparr>pl011_irq := ucast virq, pl011_count := 0\<rparr>
                    in bind_outcome (virt_serial_create (m_vserial m) (vm_name s @ ''/vpl011'') (d_handle s) p (d_console s)) (\<lambda>(vs, c).
                       bind_outcome (vm_device_irq_init d ((d_vm s)\<lparr>serial := q\<rparr>)) (\<lambda>v.
                         Done (0, (set_driver (dev_ptr d) Vm_serial
                           (s\<lparr>d_vm := v, d_console := c\<lparr>ports := (ports c)(p := q)\<rparr>, vserial_of := (vserial_of s)(p := vs)\<rparr>))
                           \<lparr>priv_vdev := (priv_vdev s)(dev_ptr d := Some p)\<rparr>)))))))"

definition vm_virt_serial_deinit :: "z_virt_dev \<Rightarrow> dev_sys \<Rightarrow> (int \<times> dev_sys) outcome" where
  "vm_virt_serial_deinit d s = (case priv_vdev s (dev_ptr d) of
     None \<Rightarrow> Fault
   | Some p \<Rightarrow> Done (drop_dev d (case vserial_of s p of None \<Rightarrow> s | Some v \<Rightarrow> s\<lparr>d_console := snd (virt_serial_destroy v (d_console s))\<rparr>)))"

section \<open>System controllers, Linux devices and shared memory\<close>

text \<open>One device for each controller of the list; the allocations are counted from \<^verbatim>\<open>k\<close>.\<close>

fun add_syscons :: "(nat \<Rightarrow> malloc_dev) \<Rightarrow> vdev_instance \<Rightarrow> nat \<Rightarrow> virt_syscon list \<Rightarrow> dev_sys \<Rightarrow> (int \<times> dev_sys) outcome" where
  "add_syscons malloc i k [] s = Done (0, s)"
| "add_syscons malloc i k (c # cs) s =
    bind_outcome (add_dev (malloc k) (sc_name c) (ucast (reg_base c)) (reg_size c) VM_DEVICE_INVALID_VIRQ VM_DEVICE_INVALID_VIRQ s) (\<lambda>(r, s).
      case r of None \<Rightarrow> Done (- ENODEV, s) | Some d \<Rightarrow> add_syscons malloc i (Suc k) cs (set_driver (dev_ptr d) i s))"

definition vm_syscons_init :: "dev_mallocs \<Rightarrow> dev_sys \<Rightarrow> (int \<times> dev_sys) outcome" where
  "vm_syscons_init m s = add_syscons (m_syscon m) Vm_syscon 0 (syscon_list s) s"

definition vm_clock_syscons_init :: "dev_mallocs \<Rightarrow> dev_sys \<Rightarrow> (int \<times> dev_sys) outcome" where
  "vm_clock_syscons_init m s = add_syscons (m_clk m) Vm_clock_syscon 0 (clk_syscon_list s) s"

definition vm_syscons_deinit :: "z_virt_dev \<Rightarrow> dev_sys \<Rightarrow> (int \<times> dev_sys) outcome" where
  "vm_syscons_deinit d s = Done (0, snd (drop_dev d s))"

definition vm_clock_syscons_deinit :: "z_virt_dev \<Rightarrow> dev_sys \<Rightarrow> (int \<times> dev_sys) outcome" where
  "vm_clock_syscons_deinit d s = Done (0, snd (drop_dev d s))"

text \<open>The name of the VM is appended to the name of the device, which has 32 bytes.\<close>

definition vm_ld_dev_init :: "dev_mallocs \<Rightarrow> dev_sys \<Rightarrow> (int \<times> dev_sys) outcome" where
  "vm_ld_dev_init m s =
    bind_outcome (add_dev (m_ld m) ''linux_dev'' (RKLD_START_PHY_ADDR s) (RKLD_SIZE s) VM_DEVICE_INVALID_VIRQ VM_DEVICE_INVALID_VIRQ s) (\<lambda>(r, s).
      case r of
        None \<Rightarrow> Done (- ENODEV, s)
      | Some d \<Rightarrow>
          let name = dev_name d @ ''/'' @ vm_name s; d = d\<lparr>dev_name := name, priv_data := Some Linux_dev\<rparr>
          in if VIRT_DEV_NAME_LENGTH \<le> length name then Fault
             else bind_outcome (vm_device_irq_init d (upd_vdev (dev_ptr d) (\<lambda>_. d) (d_vm s))) (\<lambda>v. Done (0, s\<lparr>d_vm := v\<rparr>)))"

definition vm_ld_dev_deinit :: "z_virt_dev \<Rightarrow> dev_sys \<Rightarrow> (int \<times> dev_sys) outcome" where
  "vm_ld_dev_deinit d s = Done (0, snd (drop_dev d s))"

definition shm_init :: "dev_mallocs \<Rightarrow> dev_sys \<Rightarrow> (int \<times> dev_sys) outcome" where
  "shm_init m s = bind_outcome (zshm_alloc_vm_shm (m_shm m) (d_shm s) (d_vm s)) (\<lambda>(ret, z, v). Done (ret, s\<lparr>d_shm := z, d_vm := v\<rparr>))"

definition shm_deinit :: "z_virt_dev \<Rightarrow> dev_sys \<Rightarrow> (int \<times> dev_sys) outcome" where
  "shm_deinit d s = bind_outcome (vm_zshm_deinit d (d_shm s) (d_vm s)) (\<lambda>(ret, z, v). Done (ret, s\<lparr>d_shm := z, d_vm := v\<rparr>))"

text \<open>A device of the host that is passed through.\<close>

definition vm_ptdevice_deinit :: "z_virt_dev \<Rightarrow> dev_sys \<Rightarrow> (int \<times> dev_sys) outcome" where
  "vm_ptdevice_deinit d s = Done (0, upd_vm (\<lambda>v. snd (vm_virt_dev_remove d v)) s)"

section \<open>All devices\<close>

text \<open>The functions of \<^verbatim>\<open>virt_device_api\<close> of the drivers. Devices of the host are not among the instances.\<close>

definition init_fn :: "dev_mallocs \<Rightarrow> vdev_instance \<Rightarrow> dev_sys \<Rightarrow> (int \<times> dev_sys) outcome" where
  "init_fn m i = (case i of
     Vm_vgic \<Rightarrow> vm_vgicv3_init m
   | Vm_serial \<Rightarrow> vm_virt_serial_init m
   | Vm_syscon \<Rightarrow> vm_syscons_init m
   | Vm_clock_syscon \<Rightarrow> vm_clock_syscons_init m
   | Linux_dev \<Rightarrow> vm_ld_dev_init m
   | Zshm_dev \<Rightarrow> shm_init m
   | Host_device h \<Rightarrow> (\<lambda>_. Fault))"

definition deinit_fn :: "vdev_instance \<Rightarrow> z_virt_dev \<Rightarrow> dev_sys \<Rightarrow> (int \<times> dev_sys) outcome" where
  "deinit_fn i d = (case i of
     Vm_vgic \<Rightarrow> vm_vgicv3_deinit d
   | Vm_serial \<Rightarrow> vm_virt_serial_deinit d
   | Vm_syscon \<Rightarrow> vm_syscons_deinit d
   | Vm_clock_syscon \<Rightarrow> vm_clock_syscons_deinit d
   | Linux_dev \<Rightarrow> vm_ld_dev_deinit d
   | Zshm_dev \<Rightarrow> shm_deinit d
   | Host_device h \<Rightarrow> vm_ptdevice_deinit d)"

text \<open>What the drivers do at boot: the virtual devices of all drivers that are linked in are needed by every VM.\<close>

definition virt_device_boot :: "vdev_instance \<Rightarrow> dev_sys \<Rightarrow> dev_sys" where
  "virt_device_boot i s =
    (if i \<in> set (instances s) then upd_vm (\<lambda>v. v\<lparr>vdevice_type := (vdevice_type v)(i := vdevice_type v i OR VM_DEVICE_PRE_KERNEL_1)\<rparr>) s else s)"

definition zshm_device_init :: "dev_sys \<Rightarrow> dev_sys" where
  "zshm_device_init s =
    (if Zshm_dev \<in> set (instances s) then (virt_device_boot Zshm_dev s)\<lparr>d_shm := zshm_init (d_shm s)\<rparr> else s)"

text \<open>The results of the drivers are ignored.\<close>

fun init_all :: "(vdev_instance \<Rightarrow> dev_sys \<Rightarrow> (int \<times> dev_sys) outcome) \<Rightarrow> vdev_instance list \<Rightarrow> dev_sys \<Rightarrow> dev_sys outcome" where
  "init_all init [] s = Done s"
| "init_all init (i # is) s =
    (if vdevice_type (d_vm s) i AND VM_DEVICE_PRE_KERNEL_1 \<noteq> 0 then bind_outcome (init i s) (\<lambda>(_, s). init_all init is s)
     else init_all init is s)"

definition vm_init_bdspecific_device :: "dev_sys \<Rightarrow> int" where
  "vm_init_bdspecific_device s = 0"

definition vm_device_init :: "dev_mallocs \<Rightarrow> u16 \<Rightarrow> dev_sys \<Rightarrow> (int \<times> dev_sys) outcome" where
  "vm_device_init m ty s =
    bind_outcome (init_all (init_fn m) (instances s) (upd_vm (\<lambda>v. v\<lparr>vdev_list := []\<rparr>) s))
      (\<lambda>s. Done (if ty = OS_TYPE_LINUX then vm_init_bdspecific_device s else 0, s))"

text \<open>
  A device that was removed is no longer in the list, and following its pointer faults. \<^verbatim>\<open>share\<close> is the deinit function of a shared device of
  the host; it gets the device that is noted with the host device.
\<close>

type_synonym vdev_deinit = "vdev_instance \<Rightarrow> z_virt_dev \<Rightarrow> dev_sys \<Rightarrow> (int \<times> dev_sys) outcome"
type_synonym share_deinit = "nat \<Rightarrow> nat option \<Rightarrow> dev_sys \<Rightarrow> (int \<times> dev_sys) outcome"

definition deinit_dev :: "vdev_deinit \<Rightarrow> share_deinit \<Rightarrow> int \<Rightarrow> z_virt_dev \<Rightarrow> dev_sys \<Rightarrow> (int \<times> dev_sys) outcome" where
  "deinit_dev deinit share ret d s =
    (if \<not> shareable d \<and> \<not> dev_pt_flag d then (case priv_data d of None \<Rightarrow> Done (ret, s) | Some i \<Rightarrow> deinit i d s)
     else case priv_data d of
       Some (Host_device h) \<Rightarrow>
         if dev_pt_flag d \<and> \<not> shareable d then vm_ptdevice_deinit d s
         else bind_outcome (share h (device_data (d_vm s) h) s) (\<lambda>(ret, s).
                Done (ret, upd_vm (\<lambda>v. v\<lparr>device_ready := (device_ready v)(h := False)\<rparr>) s))
     | _ \<Rightarrow> Fault)"

fun deinit_devs :: "vdev_deinit \<Rightarrow> share_deinit \<Rightarrow> nat list \<Rightarrow> int \<Rightarrow> dev_sys \<Rightarrow> (int \<times> dev_sys) outcome" where
  "deinit_devs deinit share [] ret s = Done (ret, s)"
| "deinit_devs deinit share (p # ps) ret s = (case List.find (\<lambda>d. dev_ptr d = p) (vdev_list (d_vm s)) of
     None \<Rightarrow> Fault
   | Some d \<Rightarrow> bind_outcome (deinit_dev deinit share ret d s) (\<lambda>(ret, s). deinit_devs deinit share ps ret s))"

definition vm_device_deinit :: "share_deinit \<Rightarrow> dev_sys \<Rightarrow> (int \<times> dev_sys) outcome" where
  "vm_device_deinit share s = deinit_devs deinit_fn share (map dev_ptr (vdev_list (d_vm s))) 0 s"

end
