(* ===== verification/Vdev_Api.thy ===== *)
theory Vdev_Api
  imports Vm_Dev_Init
begin

text \<open>
  The interface between the devices of a VM and their drivers: the init function of a driver appends its devices to the list of the VM, the
  deinit function takes out the device it is called for. Drivers in \<^verbatim>\<open>anon\<close> also add devices that no driver answers for. All drivers together then set the devices up and remove them.
\<close>

abbreviation devs_of :: "dev_sys \<Rightarrow> z_virt_dev list" where
  "devs_of s \<equiv> vdev_list (d_vm s)"

text \<open>The registers of a device, and the devices of a driver.\<close>

definition dev_window :: "z_virt_dev \<Rightarrow> u32 \<times> u32" where
  "dev_window d = (vm_vdev_paddr d, vm_vdev_size d)"

definition driven :: "vdev_instance \<Rightarrow> z_virt_dev list \<Rightarrow> z_virt_dev list" where
  "driven i ds = filter (\<lambda>d. priv_data d = Some i) ds"

lemma driven_append [simp]: "driven i (ds @ ds') = driven i ds @ driven i ds'" "driven i [] = []"
  by (simp_all add: driven_def)

lemma find_unique:
  assumes "x \<in> set xs" "P x" "\<forall>y\<in>set xs. P y \<longrightarrow> y = x"
  shows "List.find P xs = Some x"
proof (cases "List.find P xs")
  case None
  then have "\<not> (\<exists>y. y \<in> set xs \<and> P y)" by (simp add: find_None_iff)
  then show ?thesis using assms(1,2) by blast
next
  case (Some y)
  then have "y \<in> set xs \<and> P y" unfolding find_Some_iff by force
  then show ?thesis using Some assms(3) by simp
qed

locale vdev_api =
  fixes init :: "vdev_instance \<Rightarrow> dev_sys \<Rightarrow> (int \<times> dev_sys) outcome" and deinit :: vdev_deinit
    and inv :: "dev_sys \<Rightarrow> bool" and can :: "vdev_instance \<Rightarrow> dev_sys \<Rightarrow> bool" and wins :: "vdev_instance \<Rightarrow> (u32 \<times> u32) list \<Rightarrow> bool"
    and anon :: "vdev_instance set"
  assumes inv_list: "inv s \<Longrightarrow> distinct (map dev_ptr (devs_of s))" "inv s \<Longrightarrow> d \<in> set (devs_of s) \<Longrightarrow> \<not> shareable d \<and> \<not> dev_pt_flag d"
    and init_law: "inv s \<Longrightarrow> can i s \<Longrightarrow> \<exists>r s' ds. init i s = Done (r, s') \<and> inv s' \<and> devs_of s' = devs_of s @ ds
      \<and> (\<forall>d\<in>set ds. priv_data d = Some i \<or> priv_data d = None \<and> i \<in> anon) \<and> wins i (map dev_window (driven i ds))
      \<and> vdevice_type (d_vm s') = vdevice_type (d_vm s) \<and> (\<forall>j. j \<noteq> i \<longrightarrow> can j s \<longrightarrow> can j s')"
    and deinit_law: "inv s \<Longrightarrow> d \<in> set (devs_of s) \<Longrightarrow> priv_data d = Some i \<Longrightarrow>
      \<exists>r s'. deinit i d s = Done (r, s') \<and> inv s' \<and> devs_of s' = filter (\<lambda>e. dev_ptr e \<noteq> dev_ptr d) (devs_of s)"
begin

lemma init_all_ok:
  assumes "inv s" "distinct is" "\<forall>i\<in>set is. can i s \<and> vdevice_type (d_vm s) i AND VM_DEVICE_PRE_KERNEL_1 \<noteq> 0"
  shows "\<exists>s' ds. init_all init is s = Done s' \<and> inv s' \<and> devs_of s' = devs_of s @ ds \<and> (\<forall>i\<in>set is. wins i (map dev_window (driven i ds)))
    \<and> (\<forall>d\<in>set ds. priv_data d \<in> Some ` set is \<or> priv_data d = None \<and> set is \<inter> anon \<noteq> {})"
  using assms
proof (induction "is" arbitrary: s)
  case Nil
  then show ?case by (intro exI[of _ s] exI[of _ "[]"]) simp
next
  case (Cons i "is")
  from Cons.prems(3) have "can i s" by simp
  from init_law[OF Cons.prems(1) this] obtain r s1 ds where 1: "init i s = Done (r, s1)" "inv s1" "devs_of s1 = devs_of s @ ds"
    "\<forall>d\<in>set ds. priv_data d = Some i \<or> priv_data d = None \<and> i \<in> anon" "wins i (map dev_window (driven i ds))"
    "vdevice_type (d_vm s1) = vdevice_type (d_vm s)" "\<forall>j. j \<noteq> i \<longrightarrow> can j s \<longrightarrow> can j s1" by (elim exE conjE) (rule that)
  have "\<forall>j\<in>set is. can j s1 \<and> vdevice_type (d_vm s1) j AND VM_DEVICE_PRE_KERNEL_1 \<noteq> 0" using Cons.prems(2,3) 1(6,7) by auto
  from Cons.IH[OF 1(2) _ this] Cons.prems(2) obtain s2 ds' where 2: "init_all init is s1 = Done s2" "inv s2" "devs_of s2 = devs_of s1 @ ds'"
    "\<forall>i\<in>set is. wins i (map dev_window (driven i ds'))" "\<forall>d\<in>set ds'. priv_data d \<in> Some ` set is \<or> priv_data d = None \<and> set is \<inter> anon \<noteq> {}" by auto
  have "driven i ds' = []" using 2(5) Cons.prems(2) by (auto simp: driven_def filter_empty_conv)
  moreover have "driven j ds = []" if "j \<in> set is" for j using 1(4) that Cons.prems(2) by (auto simp: driven_def filter_empty_conv)
  ultimately show ?case using 1 2 Cons.prems(3) by (intro exI[of _ s2] exI[of _ "ds @ ds'"]) auto
qed

lemma deinit_devs_ok:
  assumes "inv s" "distinct ps" "set ps \<subseteq> dev_ptr ` set (devs_of s)"
  shows "\<exists>r s'. deinit_devs deinit share ps ret s = Done (r, s') \<and> inv s'
    \<and> devs_of s' = filter (\<lambda>d. dev_ptr d \<in> set ps \<longrightarrow> priv_data d = None) (devs_of s)"
  using assms
proof (induction ps arbitrary: ret s)
  case Nil
  then show ?case by simp
next
  case (Cons p ps)
  from Cons.prems(3) obtain d where d: "d \<in> set (devs_of s)" "dev_ptr d = p" by auto
  have u: "e = d" if "e \<in> set (devs_of s)" "dev_ptr e = p" for e
    using inv_list(1)[OF Cons.prems(1)] that d by (auto simp: distinct_map dest: inj_onD)
  have f: "List.find (\<lambda>d. dev_ptr d = p) (devs_of s) = Some d" using d u by (intro find_unique) blast+
  note e = inv_list(2)[OF Cons.prems(1) d(1)]
  show ?case
  proof (cases "priv_data d")
    case None
    have "deinit_devs deinit share (p # ps) ret s = deinit_devs deinit share ps ret s" using f e None by (simp add: deinit_dev_def)
    moreover have "filter (\<lambda>x. dev_ptr x \<in> set (p # ps) \<longrightarrow> priv_data x = None) (devs_of s)
      = filter (\<lambda>x. dev_ptr x \<in> set ps \<longrightarrow> priv_data x = None) (devs_of s)" using u None by (intro filter_cong) auto
    ultimately show ?thesis using Cons.IH[OF Cons.prems(1), of ret] Cons.prems(2,3) by simp
  next
    case (Some i)
    from deinit_law[OF Cons.prems(1) d(1) Some] obtain r s1 where 1: "deinit i d s = Done (r, s1)" "inv s1"
      "devs_of s1 = filter (\<lambda>e. dev_ptr e \<noteq> p) (devs_of s)" using d(2) by auto
    have "set ps \<subseteq> dev_ptr ` set (devs_of s) - {p}" using Cons.prems(2,3) by auto
    also have "\<dots> \<subseteq> dev_ptr ` set (devs_of s1)" unfolding 1(3) by auto
    finally have "set ps \<subseteq> dev_ptr ` set (devs_of s1)" .
    from Cons.IH[OF 1(2) _ this, of r] Cons.prems(2) obtain r2 s2 where 2: "deinit_devs deinit share ps r s1 = Done (r2, s2)" "inv s2"
      "devs_of s2 = filter (\<lambda>d. dev_ptr d \<in> set ps \<longrightarrow> priv_data d = None) (devs_of s1)" by auto
    have "filter (\<lambda>x. dev_ptr x \<in> set ps \<longrightarrow> priv_data x = None) (devs_of s1)
      = filter (\<lambda>x. dev_ptr x \<in> set (p # ps) \<longrightarrow> priv_data x = None) (devs_of s)" unfolding 1(3) filter_filter
      using u Some Cons.prems(2) by (intro filter_cong) auto
    then show ?thesis using f e Some 1 2 by (simp add: deinit_dev_def)
  qed
qed

lemma deinit_all_ok:
  assumes "inv s"
  shows "\<exists>r s'. deinit_devs deinit share (map dev_ptr (devs_of s)) ret s = Done (r, s') \<and> inv s' \<and> devs_of s' = filter (\<lambda>d. priv_data d = None) (devs_of s)"
proof -
  have "filter (\<lambda>d. dev_ptr d \<in> set (map dev_ptr (devs_of s)) \<longrightarrow> priv_data d = None) (devs_of s) = filter (\<lambda>d. priv_data d = None) (devs_of s)"
    by (intro filter_cong) auto
  then show ?thesis using deinit_devs_ok[OF assms inv_list(1)[OF assms], of share ret] by auto
qed

end

end
