(* ===== verification/Vconsole_Props.thy ===== *)
theory Vconsole_Props
  imports Vconsole
begin

text \<open>
  What is typed at the console reaches the VM that was looked at, and no other one, until the exit key.
\<close>

section \<open>Invariant\<close>

definition connected :: "vconsole \<Rightarrow> nat option" where
  "connected st = (if bypass st then (case connecting_virt_serial st of None \<Rightarrow> None | Some v \<Rightarrow> map_option vs_priv (serials st v)) else None)"

text \<open>Every port of the list exists; while there is a bypass there is a port that is connected; it is the only one that may print to the host.\<close>

definition console_ok :: "vconsole \<Rightarrow> bool" where
  "console_ok st \<longleftrightarrow> (\<forall>v\<in>set (virt_serial_list st). serials st v \<noteq> None) \<and> connecting st = bypass st
     \<and> (bypass st \<longrightarrow> connected st \<noteq> None) \<and> (\<forall>p. pl011_connecting (ports st p) \<longleftrightarrow> connected st = Some p)"

section \<open>Abstract console\<close>

datatype console_event = Type "u8 list" | Collect nat | Look nat

text \<open>The console as its user sees it: the port that is connected and what was typed and not taken yet. A step yields what is delivered to which port.\<close>

fun console_step :: "(nat \<Rightarrow> nat) \<Rightarrow> console_event \<Rightarrow> nat option \<times> u8 list \<Rightarrow> (nat option \<times> u8 list) \<times> (nat \<times> u8 list) list" where
  "console_step port_of (Type d) (cur, rx) = ((cur, rx @ d), [])"
| "console_step port_of (Look i) (cur, rx) = (if cur = None then ((Some (port_of i), rx @ [13]), []) else ((cur, rx), []))"
| "console_step port_of (Collect n) (cur, rx) =
    (case cur of
       None \<Rightarrow> ((None, drop (min n 1) rx), [])
     | Some p \<Rightarrow> let d = take (min n 16) rx; rx = drop (min n 16) rx
        in if d = [] then ((cur, rx), []) else if hd d = EXIT_VSERIAL_KEY then ((None, rx), []) else ((cur, rx), [(p, d)]))"

primrec console_run :: "(nat \<Rightarrow> nat) \<Rightarrow> console_event list \<Rightarrow> nat option \<times> u8 list \<Rightarrow> (nat option \<times> u8 list) \<times> (nat \<times> u8 list) list" where
  "console_run port_of [] c = (c, [])"
| "console_run port_of (e # es) c = (case console_step port_of e c of (c, out) \<Rightarrow> case console_run port_of es c of (c, out') \<Rightarrow> (c, out @ out'))"

text \<open>The code: while there is a bypass the shell does not interpret commands.\<close>

definition look_argv :: "nat \<Rightarrow> string list" where
  "look_argv i = [''look'', [char_of (48 + i)]]"

fun do_event :: "(nat \<Rightarrow> vm_status) \<Rightarrow> zvm_manage_info \<Rightarrow> console_event \<Rightarrow> vconsole \<Rightarrow> vconsole outcome" where
  "do_event status z (Type d) st = Done (st\<lparr>rx_ringbuf := rx_ringbuf st @ d\<rparr>)"
| "do_event status z (Collect n) st = shell_collect n st"
| "do_event status z (Look i) st = (if bypass st then Done st else switch_virtual_serial_handler status (look_argv i) z st)"

primrec do_events :: "(nat \<Rightarrow> vm_status) \<Rightarrow> zvm_manage_info \<Rightarrow> console_event list \<Rightarrow> vconsole \<Rightarrow> vconsole outcome" where
  "do_events status z [] st = Done st"
| "do_events status z (e # es) st = bind_outcome (do_event status z e st) (do_events status z es)"

text \<open>A VM that can be looked at: it runs and has a port.\<close>

definition lookable :: "(nat \<Rightarrow> vm_status) \<Rightarrow> zvm_manage_info \<Rightarrow> (nat \<Rightarrow> nat) \<Rightarrow> vconsole \<Rightarrow> nat \<Rightarrow> bool" where
  "lookable status z port_of st i \<longleftrightarrow> i < 10 \<and> i < CONFIG_MAX_VM_NUM z \<and> bit (alloced_vmid z) i
     \<and> (\<exists>h. vms z ! i = Some h \<and> status h = VM_STATE_RUNNING)
     \<and> (\<exists>v r. get_vserial (of_nat i) st = Some v \<and> serials st v = Some r \<and> vs_priv r = port_of i)"

section \<open>Steps\<close>

lemma get_vserial_eq:
  assumes "serials st' = serials st" "virt_serial_list st' = virt_serial_list st" "vmid_of st' = vmid_of st"
  shows "get_vserial i st' = get_vserial i st"
  unfolding get_vserial_def assms ..

lemma look_connects:
  assumes "lookable status z port_of st i" "console_ok st" "\<not> bypass st"
  shows "\<exists>st'. switch_virtual_serial_handler status (look_argv i) z st = Done st' \<and> console_ok st' \<and> connected st' = Some (port_of i)
    \<and> rx_ringbuf st' = rx_ringbuf st @ [13] \<and> ports st' = (ports st)(port_of i := (ports st (port_of i))\<lparr>pl011_connecting := True\<rparr>)
    \<and> serials st' = serials st \<and> virt_serial_list st' = virt_serial_list st \<and> vmid_of st' = vmid_of st"
proof -
  obtain h v r where l: "i < 10" "i < CONFIG_MAX_VM_NUM z" "bit (alloced_vmid z) i" "vms z ! i = Some h" "status h = VM_STATE_RUNNING"
    "get_vserial (of_nat i) st = Some v" "serials st v = Some r" "vs_priv r = port_of i" using assms(1) by (auto simp: lookable_def)
  have c: "of_char (char_of (48 + i) :: char) = 48 + i" using l(1) by simp
  have b: "BIT i AND ucast (alloced_vmid z) \<noteq> 0"
  proof
    assume "BIT i AND ucast (alloced_vmid z) = 0"
    then have "\<not> bit (BIT i AND ucast (alloced_vmid z)) i" by simp
    then show False using l(1,3) by (simp add: BIT_def bit_simps)
  qed
  have g: "get_vserial (of_nat i) (st\<lparr>connecting := True\<rparr>) = Some v" using l(6) get_vserial_eq[of "st\<lparr>connecting := True\<rparr>" st] by simp
  have s: "switch_virtual_serial_handler status (look_argv i) z st = virt_serial_connect (of_nat i) (st\<lparr>connecting := True\<rparr>)"
    using l b unfolding switch_virtual_serial_handler_def look_argv_def Let_def by (auto simp: c)
  show ?thesis unfolding s using assms(2,3) l(7,8)
    by (auto simp: virt_serial_connect_def g with_serial_def set_port_def console_ok_def connected_def Let_def)
qed

abbreviation quiet :: "virt_pl011 \<Rightarrow> virt_pl011" where
  "quiet p \<equiv> p\<lparr>pl011_connecting := False\<rparr>"

lemma send_keeps_flag: "snd (pl011_virt_serial_send d (p\<lparr>pl011_connecting := c\<rparr>)) = (snd (pl011_virt_serial_send d p))\<lparr>pl011_connecting := c\<rparr>"
proof -
  have r: "set_reg i v (q\<lparr>pl011_connecting := c\<rparr>) = (set_reg i v q)\<lparr>pl011_connecting := c\<rparr>" for i v q by (simp add: set_reg_def)
  have b: "p\<lparr>pl011_connecting := c, buffer := x, pl011_count := y\<rparr> = p\<lparr>buffer := x, pl011_count := y, pl011_connecting := c\<rparr>" for x y by simp
  show ?thesis
  proof (cases "SEND_BUFFER_SIZE < write_pos (buffer p) + length d")
    case True
    then show ?thesis by (simp add: pl011_virt_serial_send_def)
  next
    case False
    define q where "q = set_reg R_FR (reg R_FR p AND NOT VPL011_FR_RXFE)
      (p\<lparr>buffer := put_bytes d (buffer p), pl011_count := of_int (sb_count (put_bytes d (buffer p)))\<rparr>)"
    have q: "set_reg R_FR (reg R_FR p AND NOT VPL011_FR_RXFE) (p\<lparr>pl011_connecting := c, buffer := put_bytes d (buffer p),
      pl011_count := of_int (sb_count (put_bytes d (buffer p)))\<rparr>) = q\<lparr>pl011_connecting := c\<rparr>" unfolding q_def b r ..
    show ?thesis using False unfolding pl011_virt_serial_send_def Let_def
      by (cases "reg R_CR q AND 0x10 \<noteq> 0 \<or> pl011_count q = FIFO_SIZE") (simp_all add: q r flip: q_def)
  qed
qed

lemma send_quiet: "quiet (snd (pl011_virt_serial_send d p)) = snd (pl011_virt_serial_send d (quiet p))"
  by (simp add: send_keeps_flag)

lemma send_connecting [simp]: "pl011_connecting (snd (pl011_virt_serial_send d p)) = pl011_connecting p"
  using arg_cong[OF send_keeps_flag[where p = p and c = "pl011_connecting p" and d = d], of pl011_connecting] by simp

lemma rx_kept [simp]: "connected (st\<lparr>rx_ringbuf := x\<rparr>) = connected st" "console_ok (st\<lparr>rx_ringbuf := x\<rparr>) = console_ok st"
proof -
  show c: "connected (st\<lparr>rx_ringbuf := x\<rparr>) = connected st" by (simp add: connected_def split: option.split)
  show "console_ok (st\<lparr>rx_ringbuf := x\<rparr>) = console_ok st" by (simp add: console_ok_def c)
qed

text \<open>What the steps keep: which ports there are.\<close>

definition same_ports :: "vconsole \<Rightarrow> vconsole \<Rightarrow> bool" where
  "same_ports st st' \<longleftrightarrow> serials st' = serials st \<and> virt_serial_list st' = virt_serial_list st \<and> vmid_of st' = vmid_of st"

definition sent :: "(nat \<times> u8 list) list \<Rightarrow> nat \<Rightarrow> virt_pl011 \<Rightarrow> virt_pl011" where
  "sent out p q = fold (\<lambda>d q. snd (pl011_virt_serial_send d q)) (map snd (filter (\<lambda>x. fst x = p) out)) q"

lemma sent_simps [simp]: "sent [] p q = q" "sent (out @ out') p q = sent out' p (sent out p q)"
  "sent [(p', d)] p q = (if p' = p then snd (pl011_virt_serial_send d q) else q)"
  by (auto simp: sent_def)

lemma transfer_step:
  assumes "console_ok st" "bypass st" "d \<noteq> []" "connected st = Some p"
  shows "\<exists>st'. transfer d st = Done st' \<and> console_ok st' \<and> same_ports st st' \<and> rx_ringbuf st' = rx_ringbuf st
    \<and> connected st' = (if hd d = EXIT_VSERIAL_KEY then None else Some p)
    \<and> (\<forall>q. quiet (ports st' q) = sent (if hd d = EXIT_VSERIAL_KEY then [] else [(p, d)]) q (quiet (ports st q)))"
proof -
  obtain v r where v: "connecting_virt_serial st = Some v" "serials st v = Some r" "vs_priv r = p"
    using assms(2,4) by (auto simp: connected_def split: option.splits if_splits)
  have k: "take 1 d = [EXIT_VSERIAL_KEY] \<longleftrightarrow> hd d = EXIT_VSERIAL_KEY" using assms(3) by (cases d) auto
  show ?thesis
  proof (cases "hd d = EXIT_VSERIAL_KEY")
    case True
    then show ?thesis using assms v k
      by (auto simp: transfer_def virt_serial_disconnect_all_def with_serial_def set_port_def console_ok_def connected_def same_ports_def Let_def)
  next
    case False
    then show ?thesis using assms v k
      by (auto simp: transfer_def with_serial_def set_port_def console_ok_def connected_def same_ports_def send_quiet)
  qed
qed

lemma event_step:
  assumes "console_ok st" "\<And>i. e = Look i \<Longrightarrow> lookable status z port_of st i"
  shows "\<exists>st'. do_event status z e st = Done st' \<and> console_ok st' \<and> same_ports st st'
    \<and> (connected st', rx_ringbuf st') = fst (console_step port_of e (connected st, rx_ringbuf st))
    \<and> (\<forall>q. quiet (ports st' q) = sent (snd (console_step port_of e (connected st, rx_ringbuf st))) q (quiet (ports st q)))"
proof (cases e)
  case (Type d)
  then show ?thesis using assms(1) by (simp add: same_ports_def)
next
  case (Look i)
  have c: "bypass st \<longleftrightarrow> connected st \<noteq> None" using assms(1) by (auto simp: console_ok_def connected_def)
  show ?thesis
  proof (cases "bypass st")
    case True
    then show ?thesis using c assms(1) Look by (auto simp: same_ports_def)
  next
    case False
    then obtain st' where "switch_virtual_serial_handler status (look_argv i) z st = Done st'" "console_ok st'" "connected st' = Some (port_of i)"
      "rx_ringbuf st' = rx_ringbuf st @ [13]" "ports st' = (ports st)(port_of i := (ports st (port_of i))\<lparr>pl011_connecting := True\<rparr>)" "same_ports st st'"
      using look_connects[OF assms(2)[OF Look] assms(1)] by (auto simp: same_ports_def)
    then show ?thesis using False c Look by auto
  qed
next
  case (Collect n)
  let ?k = "min n (if bypass st then 16 else 1)"
  let ?d = "take ?k (rx_ringbuf st)" and ?st = "st\<lparr>rx_ringbuf := drop ?k (rx_ringbuf st)\<rparr>"
  have ok: "console_ok ?st" "connected ?st = connected st" "same_ports st ?st" "bypass ?st = bypass st" using assms(1) by (simp_all add: same_ports_def)
  have c: "bypass st \<longleftrightarrow> connected st \<noteq> None" using assms(1) by (auto simp: console_ok_def connected_def)
  consider "?d = []" | "?d \<noteq> []" "\<not> bypass st" | p where "?d \<noteq> []" "bypass st" "connected st = Some p"
    using c not_None_eq[of "connected st"] by blast
  then show ?thesis
  proof cases
    case 1
    then have "drop ?k (rx_ringbuf st) = rx_ringbuf st" by (metis append_Nil append_take_drop_id)
    then show ?thesis using 1 c Collect assms(1) by (auto simp: shell_collect_def same_ports_def Let_def split: option.splits)
  next
    case 2
    then show ?thesis using Collect ok c by (auto simp: shell_collect_def Let_def)
  next
    case (3 p)
    then obtain st' where "transfer ?d ?st = Done st'" "console_ok st'" "same_ports ?st st'" "rx_ringbuf st' = rx_ringbuf ?st"
      "connected st' = (if hd ?d = EXIT_VSERIAL_KEY then None else Some p)"
      "\<forall>q. quiet (ports st' q) = sent (if hd ?d = EXIT_VSERIAL_KEY then [] else [(p, ?d)]) q (quiet (ports ?st q))"
      using transfer_step[OF ok(1) _ 3(1), of p] ok by auto
    then show ?thesis using Collect 3 ok by (auto simp: shell_collect_def same_ports_def Let_def)
  qed
qed

lemma lookable_same_ports: "same_ports st st' \<Longrightarrow> lookable status z port_of st' i = lookable status z port_of st i"
  using get_vserial_eq[of st' st] by (simp add: lookable_def same_ports_def)

section \<open>The console as a whole\<close>


text \<open>Two VMs; the first one is looked at, gets a line, the exit key ends it, and the second one is looked at.\<close>

definition two_consoles :: vconsole where
  "two_consoles = \<lparr>virt_serial_list = [7, 8], connecting = False, connecting_vm_id = 0, connecting_virt_serial = None,
     serials = [7 \<mapsto> \<lparr>vs_name = ''VM0'', vs_vm = 0, vs_priv = 0\<rparr>, 8 \<mapsto> \<lparr>vs_name = ''VM1'', vs_vm = 1, vs_priv = 1\<rparr>],
     ports = (\<lambda>_. \<lparr>vserial_regs = replicate 32 0, vserial_base = 0, vserial_size = 0x1000, pl011_irq = 33, pl011_enabled = 0, pl011_level = 0,
       set_irq = False, pl011_count = 0, pl011_connecting = False,
       buffer = \<lparr>sb_data = replicate SEND_BUFFER_SIZE 0, write_pos = 0, read_pos = 0, sb_count = 0, buffer_overflow = False\<rparr>,
       uart_out = [], VPL011_LINUX_OFFSET = 0\<rparr>),
     vmid_of = of_nat, bypass = False, rx_ringbuf = [], connect_vm_sem = 0\<rparr>"

definition two_vms :: zvm_manage_info where
  "two_vms = zvm_info_3\<lparr>vms := [Some 0, Some 1, None], alloced_vmid := 3, vm_total_num := 2\<rparr>"

lemma two_consoles_ok: "console_ok two_consoles" "i < 2 \<Longrightarrow> lookable (\<lambda>_. VM_STATE_RUNNING) two_vms id two_consoles i"
proof -
  show "console_ok two_consoles" by (simp add: console_ok_def connected_def two_consoles_def)
  assume "i < 2"
  then have "i = 0 \<or> i = 1" by auto
  then show "lookable (\<lambda>_. VM_STATE_RUNNING) two_vms id two_consoles i"
    by (auto simp: lookable_def two_vms_def two_consoles_def get_vserial_def bit_iff_odd)
qed

definition switching :: "console_event list" where
  "switching = [Look 0, Collect 1, Type [108, 115], Collect 16, Type [EXIT_VSERIAL_KEY], Collect 16, Look 1, Collect 1]"


section \<open>Errors\<close>

text \<open>Giving back the port that is connected leaves the pointer to it behind: the thread follows it.\<close>

lemma destroy_connected_faults:
  assumes "connecting st" "connecting_virt_serial st = Some v"
  shows "vserial_it_emulator_round (snd (virt_serial_destroy v st)) = Fault"
  using assms by (simp add: vserial_it_emulator_round_def virt_serial_destroy_def with_serial_def)

text \<open>Giving back any port takes the console from the VM that is looked at, while its port still counts as connected.\<close>

lemma destroy_takes_console:
  "bypass (snd (virt_serial_destroy v st)) = False \<and> connecting (snd (virt_serial_destroy v st)) = connecting st"
  by (simp add: virt_serial_destroy_def)

text \<open>Looking at a VM that has no port follows a NULL pointer.\<close>

lemma connect_without_port_faults: "get_vserial i st = None \<Longrightarrow> virt_serial_connect i st = Fault"
  by (simp add: virt_serial_connect_def with_serial_def Let_def)

end
