(* ===== verification/Vm_Dev_Init_Props.thy ===== *)
theory Vm_Dev_Init_Props
  imports Vdev_Api Vm_Device_Props Zshm_Notify Vconsole_Props "HOL-Library.Sublist"
begin

text \<open>
  Every VM gets the devices of all drivers when it is created, and loses them when it is deleted; the port of the console and the unit of
  shared memory are given back.
\<close>

section \<open>What the drivers need\<close>

text \<open>The allocations of a driver, the pointers they yield and the registers of its devices.\<close>

definition mallocs :: "dev_mallocs \<Rightarrow> dev_sys \<Rightarrow> vdev_instance \<Rightarrow> malloc_dev list" where
  "mallocs m s i = (case i of
     Vm_vgic \<Rightarrow> [m_gic m]
   | Vm_serial \<Rightarrow> [m_serial m]
   | Vm_syscon \<Rightarrow> map (m_syscon m) [0..<length (syscon_list s)]
   | Vm_clock_syscon \<Rightarrow> map (m_clk m) [0..<length (clk_syscon_list s)]
   | Linux_dev \<Rightarrow> [m_ld m]
   | Zshm_dev \<Rightarrow> map (m_shm m) [0..<5]
   | Host_device h \<Rightarrow> [])"

definition ptrs :: "dev_mallocs \<Rightarrow> dev_sys \<Rightarrow> vdev_instance \<Rightarrow> nat list" where
  "ptrs m s i = map (\<lambda>d. the (fst d)) (mallocs m s i)"

definition windows :: "dev_sys \<Rightarrow> vdev_instance \<Rightarrow> (u32 \<times> u32) list" where
  "windows s i = (case i of
     Vm_vgic \<Rightarrow> [(VGIC_DIST_BASE s, VGIC_RDIST_BASE s + VGIC_RDIST_SIZE s - VGIC_DIST_BASE s)]
   | Vm_serial \<Rightarrow> [(ucast (VSERIAL_REG_BASE s), ucast (VSERIAL_REG_SIZE s))]
   | Vm_syscon \<Rightarrow> map (\<lambda>c. (reg_base c, reg_size c)) (syscon_list s)
   | Vm_clock_syscon \<Rightarrow> map (\<lambda>c. (reg_base c, reg_size c)) (clk_syscon_list s)
   | Linux_dev \<Rightarrow> [(ucast (RKLD_START_PHY_ADDR s), RKLD_SIZE s)]
   | _ \<Rightarrow> [])"

text \<open>The window for notifications lies at the unit of shared memory that was free.\<close>

definition windows_ok :: "dev_sys \<Rightarrow> vdev_instance \<Rightarrow> (u32 \<times> u32) list \<Rightarrow> bool" where
  "windows_ok s i ws \<longleftrightarrow> (if i = Zshm_dev then length ws = 1 else ws = windows s i)"

text \<open>A driver can be started: k_malloc returns fresh memory, the device tree describes the device and the names are not too long.\<close>

definition port_name :: "dev_sys \<Rightarrow> string" where
  "port_name s = vm_name s @ ''/vpl011''"

definition startable :: "dev_mallocs \<Rightarrow> dev_sys \<Rightarrow> vdev_instance \<Rightarrow> bool" where
  "startable m s i \<longleftrightarrow> (\<forall>d\<in>set (mallocs m s i). \<exists>p. d = (Some p, True, True)) \<and> distinct (ptrs m s i)
    \<and> (\<forall>j. j \<noteq> i \<longrightarrow> set (ptrs m s i) \<inter> set (ptrs m s j) = {})
    \<and> (case i of
         Vm_vgic \<Rightarrow> VGIC_DIST_BASE s \<noteq> 0 \<and> VGIC_DIST_SIZE s \<noteq> 0 \<and> VGIC_RDIST_BASE s \<noteq> 0 \<and> VGIC_RDIST_SIZE s \<noteq> 0
           \<and> m_vgicv3 m \<noteq> None \<and> (\<forall>k. m_gicr m k)
       | Vm_serial \<Rightarrow> VSERIAL_REG_BASE s \<noteq> 0 \<and> VSERIAL_REG_SIZE s \<noteq> 0 \<and> m_vpl011 m \<noteq> None \<and> m_regs m \<and> length (port_name s) < VM_FIELD_NAME_SIZE
           \<and> unat (ucast (VSERIAL_DEV_VIRQ s) :: u32) < VM_GLOBAL_VIRQ_NR (gic (d_vm s))
           \<and> (\<exists>v. m_vserial m = Some v \<and> v \<notin> set (virt_serial_list (d_console s)))
           \<and> (\<forall>v\<in>set (virt_serial_list (d_console s)). map_option vs_name (serials (d_console s) v) \<noteq> Some (port_name s))
       | Linux_dev \<Rightarrow> length (vm_name s) < 22 \<and> 255 < VM_GLOBAL_VIRQ_NR (gic (d_vm s))
       | Zshm_dev \<Rightarrow> units_inv (d_shm s) \<and> units_used (d_shm s) \<noteq> units_all (d_shm s) \<and> unat (vm_id (d_vm s)) < length (vmid_to_units_index (d_shm s))
           \<and> unat (zshm_irq (d_shm s)) < VM_GLOBAL_VIRQ_NR (gic (d_vm s))
       | Host_device h \<Rightarrow> False
       | _ \<Rightarrow> True)"

section \<open>Invariant\<close>

text \<open>The fields that no driver changes.\<close>

definition conf where
  "conf s = ((syscon_list s, clk_syscon_list s, vm_name s, vm_id (d_vm s), VM_GLOBAL_VIRQ_NR (gic (d_vm s))),
     (VGIC_DIST_BASE s, VGIC_DIST_SIZE s, VGIC_RDIST_BASE s, VGIC_RDIST_SIZE s),
     (VSERIAL_REG_BASE s, VSERIAL_REG_SIZE s, VSERIAL_DEV_VIRQ s, RKLD_START_PHY_ADDR s, RKLD_SIZE s))"

definition dev_ok :: "dev_sys \<Rightarrow> z_virt_dev \<Rightarrow> bool" where
  "dev_ok s d \<longleftrightarrow> \<not> shareable d \<and> \<not> dev_pt_flag d \<and> (priv_data d \<in> {Some Vm_vgic, Some Vm_serial} \<longrightarrow> priv_vdev s (dev_ptr d) \<noteq> None)
     \<and> (\<forall>h. priv_data d \<noteq> Some (Host_device h))"

definition list_inv :: "dev_sys \<Rightarrow> bool" where
  "list_inv s \<longleftrightarrow> distinct (map dev_ptr (devs_of s)) \<and> (\<forall>d\<in>set (devs_of s). dev_ok s d)"

text \<open>The ports of the console are those from before and the one of the VM, while it has a serial device.\<close>

definition console_inv :: "dev_sys \<Rightarrow> dev_sys \<Rightarrow> bool" where
  "console_inv s0 s \<longleftrightarrow> (\<forall>v\<in>set (virt_serial_list (d_console s0)). serials (d_console s) v = serials (d_console s0) v)
    \<and> (case driven Vm_serial (devs_of s) of
         [] \<Rightarrow> virt_serial_list (d_console s) = virt_serial_list (d_console s0)
       | [d] \<Rightarrow> (\<exists>p v. priv_vdev s (dev_ptr d) = Some p \<and> vserial_of s p = Some v \<and> v \<notin> set (virt_serial_list (d_console s0))
                 \<and> virt_serial_list (d_console s) = virt_serial_list (d_console s0) @ [v])
       | _ \<Rightarrow> False)"

text \<open>The units in use are those from before and the one of the VM, while it has its window for notifications.\<close>

definition shm_inv :: "dev_sys \<Rightarrow> dev_sys \<Rightarrow> bool" where
  "shm_inv s0 s \<longleftrightarrow> (case driven Zshm_dev (devs_of s) of
      [] \<Rightarrow> units_inv (d_shm s0) \<longrightarrow> units_used (d_shm s) = units_used (d_shm s0) \<and> units_inv (d_shm s)
        \<and> ZSHM_UNIT_MAX_NUMS (d_shm s) = ZSHM_UNIT_MAX_NUMS (d_shm s0) \<and> zshm_irq (d_shm s) = zshm_irq (d_shm s0)
        \<and> length (vmid_to_units_index (d_shm s)) = length (vmid_to_units_index (d_shm s0))
    | [d] \<Rightarrow> units_inv (d_shm s) \<and> ZSHM_UNIT_MAX_NUMS (d_shm s) = ZSHM_UNIT_MAX_NUMS (d_shm s0) \<and> zshm_irq (d_shm s) = zshm_irq (d_shm s0)
        \<and> length (vmid_to_units_index (d_shm s)) = length (vmid_to_units_index (d_shm s0)) \<and> unat (vm_id (d_vm s)) < length (vmid_to_units_index (d_shm s))
        \<and> (\<exists>k. vmid_to_units_index (d_shm s) ! unat (vm_id (d_vm s)) = int k \<and> k \<in> units_all (d_shm s0) - units_used (d_shm s0)
             \<and> units_used (d_shm s) = insert k (units_used (d_shm s0)))
    | _ \<Rightarrow> False)"

definition setup_inv :: "dev_sys \<Rightarrow> dev_sys \<Rightarrow> bool" where
  "setup_inv s0 s \<longleftrightarrow> conf s = conf s0 \<and> list_inv s \<and> console_inv s0 s \<and> shm_inv s0 s"

definition can_start :: "dev_mallocs \<Rightarrow> dev_sys \<Rightarrow> vdev_instance \<Rightarrow> dev_sys \<Rightarrow> bool" where
  "can_start m s0 i s \<longleftrightarrow> startable m s0 i \<and> set (ptrs m s0 i) \<inter> dev_ptr ` set (devs_of s) = {} \<and> driven i (devs_of s) = []"

section \<open>Starting a driver\<close>

text \<open>What a driver leaves as it was, and the devices it appends.\<close>

definition grown :: "dev_mallocs \<Rightarrow> dev_sys \<Rightarrow> vdev_instance \<Rightarrow> dev_sys \<Rightarrow> z_virt_dev list \<Rightarrow> dev_sys \<Rightarrow> bool" where
  "grown m s0 i s ds s' \<longleftrightarrow> devs_of s' = devs_of s @ ds \<and> conf s' = conf s \<and> vdevice_type (d_vm s') = vdevice_type (d_vm s)
    \<and> distinct (map dev_ptr ds) \<and> dev_ptr ` set ds \<subseteq> set (ptrs m s0 i)
    \<and> (\<forall>d\<in>set ds. \<not> shareable d \<and> \<not> dev_pt_flag d \<and> (priv_data d = Some i \<or> priv_data d = None \<and> i = Zshm_dev))
    \<and> (\<forall>p. p \<notin> set (ptrs m s0 i) \<longrightarrow> priv_vdev s' p = priv_vdev s p)
    \<and> (i \<in> {Vm_vgic, Vm_serial} \<longrightarrow> (\<forall>d\<in>set ds. priv_vdev s' (dev_ptr d) \<noteq> None))
    \<and> (i \<noteq> Vm_serial \<longrightarrow> d_console s' = d_console s \<and> vserial_of s' = vserial_of s) \<and> (i \<noteq> Zshm_dev \<longrightarrow> d_shm s' = d_shm s)"

lemma grown_inv:
  assumes "setup_inv s0 s" "can_start m s0 i s" "grown m s0 i s ds s'"
    "i = Vm_serial \<Longrightarrow> console_inv s0 s'" "i = Zshm_dev \<Longrightarrow> shm_inv s0 s'"
  shows "setup_inv s0 s'" "j \<noteq> i \<Longrightarrow> can_start m s0 j s \<Longrightarrow> can_start m s0 j s'"
proof -
  have g: "devs_of s' = devs_of s @ ds" "conf s' = conf s" "distinct (map dev_ptr ds)" "dev_ptr ` set ds \<subseteq> set (ptrs m s0 i)"
    "\<forall>d\<in>set ds. \<not> shareable d \<and> \<not> dev_pt_flag d \<and> (priv_data d = Some i \<or> priv_data d = None \<and> i = Zshm_dev)"
    "\<forall>p. p \<notin> set (ptrs m s0 i) \<longrightarrow> priv_vdev s' p = priv_vdev s p"
    "i \<in> {Vm_vgic, Vm_serial} \<longrightarrow> (\<forall>d\<in>set ds. priv_vdev s' (dev_ptr d) \<noteq> None)"
    "i \<noteq> Vm_serial \<longrightarrow> d_console s' = d_console s \<and> vserial_of s' = vserial_of s" "i \<noteq> Zshm_dev \<longrightarrow> d_shm s' = d_shm s"
    using assms(3) by (simp_all add: grown_def)
  have c: "set (ptrs m s0 i) \<inter> dev_ptr ` set (devs_of s) = {}" "startable m s0 i" using assms(2) by (simp_all add: can_start_def)
  have host: "i \<noteq> Host_device h" for h using c(2) by (auto simp: startable_def)
  have inv: "conf s = conf s0" "list_inv s" "console_inv s0 s" "shm_inv s0 s" using assms(1) by (simp_all add: setup_inv_def)
  have old: "priv_vdev s' (dev_ptr d) = priv_vdev s (dev_ptr d)" if "d \<in> set (devs_of s)" for d
    using c(1) g(6) that by blast
  have other: "driven j (devs_of s') = driven j (devs_of s)" if "j \<noteq> i" for j
    using g(1,5) that by (auto simp: driven_def filter_empty_conv)
  have "dev_ok s' d" if "d \<in> set ds" for d using g(5,7) that host by (auto simp: dev_ok_def)
  moreover have "dev_ok s' d" if "d \<in> set (devs_of s)" for d using inv(2) old[OF that] that by (simp add: list_inv_def dev_ok_def)
  moreover have "set (map dev_ptr (devs_of s)) \<inter> set (map dev_ptr ds) = {}" using c(1) g(4) by auto
  ultimately have "list_inv s'" using inv(2) g(1,3) by (auto simp: list_inv_def)
  moreover have "console_inv s0 s'"
  proof (cases "i = Vm_serial")
    case False
    have "priv_vdev s' (dev_ptr d) = priv_vdev s (dev_ptr d)" if "driven Vm_serial (devs_of s) = [d]" for d
    proof -
      have "d \<in> set (driven Vm_serial (devs_of s))" using that by simp
      then show ?thesis using old by (auto simp: driven_def)
    qed
    then show ?thesis using inv(3) g(8) other[of Vm_serial] False unfolding console_inv_def by (auto split: list.splits)
  qed (rule assms(4))
  moreover have "shm_inv s0 s'"
  proof (cases "i = Zshm_dev")
    case False
    then have "driven Zshm_dev (devs_of s') = driven Zshm_dev (devs_of s)" "d_shm s' = d_shm s" "vm_id (d_vm s') = vm_id (d_vm s)"
      using g(2,9) other[of Zshm_dev] by (simp_all add: conf_def)
    then show ?thesis using inv(4) by (simp only: shm_inv_def)
  qed (rule assms(5))
  ultimately show "setup_inv s0 s'" using inv(1) g(2) by (simp add: setup_inv_def)
  show "can_start m s0 j s'" if "j \<noteq> i" "can_start m s0 j s"
  proof -
    have "set (ptrs m s0 j) \<inter> set (ptrs m s0 i) = {}" using c(2) that(1) by (auto simp: startable_def)
    then show ?thesis using that g(1,4) other[of j] by (auto simp: can_start_def)
  qed
qed

text \<open>A driver that has done its work.\<close>

definition started :: "dev_mallocs \<Rightarrow> dev_sys \<Rightarrow> vdev_instance \<Rightarrow> dev_sys \<Rightarrow> z_virt_dev list \<Rightarrow> dev_sys \<Rightarrow> bool" where
  "started m s0 i s ds s' \<longleftrightarrow> grown m s0 i s ds s' \<and> windows_ok s0 i (map dev_window (driven i ds))
     \<and> (i = Vm_serial \<longrightarrow> console_inv s0 s') \<and> (i = Zshm_dev \<longrightarrow> shm_inv s0 s')"

text \<open>The device that is added.\<close>

definition added :: "nat \<Rightarrow> string \<Rightarrow> u64 \<Rightarrow> u32 \<Rightarrow> u32 \<Rightarrow> u32 \<Rightarrow> dev_sys \<Rightarrow> z_virt_dev" where
  "added p name base sz hirq virq s =
    (new_dev p name False False base base sz (d_vm s))\<lparr>dev_virq := virq, dev_hirq := hirq, dev_vm := Some (vm_id (d_vm s))\<rparr>"

lemma added_simps [simp]:
  "dev_ptr (added p name base sz hirq virq s) = p" "priv_data (added p name base sz hirq virq s) = None"
  "\<not> shareable (added p name base sz hirq virq s)" "\<not> dev_pt_flag (added p name base sz hirq virq s)"
  "dev_virq (added p name base sz hirq virq s) = virq" "dev_hirq (added p name base sz hirq virq s) = hirq"
  "vm_vdev_paddr (added p name base sz hirq virq s) = ucast base" "vm_vdev_size (added p name base sz hirq virq s) = sz"
  "dev_name (added p name base sz hirq virq s) = take VIRT_DEV_NAME_LENGTH name"
  by (simp_all add: added_def new_dev_def)

lemma add_dev_ok:
  "\<exists>vd. add_dev (Some p, True, True) name base sz hirq virq s =
     Done (Some (added p name base sz hirq virq s), s\<lparr>d_vm := (d_vm s)\<lparr>vmem := vd, vdev_list := devs_of s @ [added p name base sz hirq virq s]\<rparr>\<rparr>)"
proof -
  define d where "d = new_dev p name False False base base sz (d_vm s)"
  obtain vd where vd: "vm_vdev_mem_add (True, True) d (d_vm s) = Done (0, (d_vm s)\<lparr>vmem := vd\<rparr>)" using vm_vdev_mem_add_ok by blast
  have "vm_virt_dev_add (Some p, True, True) name False False base base sz hirq virq (d_vm s) =
     Done (Some (added p name base sz hirq virq s), (d_vm s)\<lparr>vmem := vd, vdev_list := devs_of s @ [added p name base sz hirq virq s]\<rparr>)"
    unfolding vm_virt_dev_add_def by (simp add: d_def[symmetric] vd Let_def added_def)
  then show ?thesis unfolding add_dev_def by (intro exI[of _ vd]) simp
qed

lemma upd_vdev_last:
  assumes "vdev_list v = xs @ [d]" "dev_ptr d = p" "p \<notin> dev_ptr ` set xs"
  shows "upd_vdev p f v = v\<lparr>vdev_list := xs @ [f d]\<rparr>"
proof -
  have "map (\<lambda>e. if dev_ptr e = p then f e else e) xs = xs" using assms(3) by (intro map_idI) auto
  then show ?thesis using assms(1,2) by (simp add: upd_vdev_def)
qed

lemma gic_kept: "VM_GLOBAL_VIRQ_NR (snd (vdev_gicv3_init alloc db dsz rb g)) = VM_GLOBAL_VIRQ_NR g"
  "(\<And>k. alloc k) \<Longrightarrow> fst (vdev_gicv3_init alloc db dsz rb g) = 0"
  by (auto simp: vdev_gicv3_init_def vgicv3_lrs_init_def find_Some_iff Let_def split: option.split)

lemma gic_starts:
  assumes "setup_inv s0 s" "can_start m s0 Vm_vgic s"
  shows "\<exists>r s' ds. init_fn m Vm_vgic s = Done (r, s') \<and> started m s0 Vm_vgic s ds s'"
proof -
  have st: "startable m s0 Vm_vgic" and fr: "set (ptrs m s0 Vm_vgic) \<inter> dev_ptr ` set (devs_of s) = {}" using assms(2) by (simp_all add: can_start_def)
  obtain p q where p: "m_gic m = (Some p, True, True)" "m_vgicv3 m = Some q" using st by (auto simp: startable_def mallocs_def)
  have c: "VGIC_DIST_BASE s = VGIC_DIST_BASE s0" "VGIC_DIST_SIZE s = VGIC_DIST_SIZE s0" "VGIC_RDIST_BASE s = VGIC_RDIST_BASE s0"
    "VGIC_RDIST_SIZE s = VGIC_RDIST_SIZE s0" using assms(1) by (simp_all add: setup_inv_def conf_def)
  have nz: "VGIC_DIST_BASE s0 \<noteq> 0" "VGIC_DIST_SIZE s0 \<noteq> 0" "VGIC_RDIST_BASE s0 \<noteq> 0" "VGIC_RDIST_SIZE s0 \<noteq> 0" "\<And>k. m_gicr m k"
    using st by (simp_all add: startable_def)
  let ?sz = "VGIC_RDIST_BASE s0 + VGIC_RDIST_SIZE s0 - VGIC_DIST_BASE s0" and ?b = "VGIC_DIST_BASE s0"
  define d where "d = added p ''vm_gic_v3'' (ucast ?b) ?sz 0 0 s"
  obtain vd where a: "add_dev (Some p, True, True) ''vm_gic_v3'' (ucast ?b) ?sz 0 0 s = Done (Some d, s\<lparr>d_vm := (d_vm s)\<lparr>vmem := vd, vdev_list := devs_of s @ [d]\<rparr>\<rparr>)"
    using add_dev_ok unfolding d_def by blast
  define g where "g = snd (vdev_gicv3_init (m_gicr m) ?b (VGIC_DIST_SIZE s0) (VGIC_RDIST_BASE s0) (gic (d_vm s)))"
  have g: "vdev_gicv3_init (m_gicr m) ?b (VGIC_DIST_SIZE s0) (VGIC_RDIST_BASE s0) (gic (d_vm s)) = (0, g)"
    using gic_kept(2)[of "m_gicr m", OF nz(5)] by (simp add: g_def prod_eq_iff)
  let ?s = "s\<lparr>d_vm := (d_vm s)\<lparr>vmem := vd, vdev_list := devs_of s @ [d\<lparr>priv_data := Some Vm_vgic\<rparr>], gic := g\<rparr>, priv_vdev := (priv_vdev s)(p := Some q)\<rparr>"
  have np: "p \<notin> dev_ptr ` set (devs_of s)" using fr p by (auto simp: ptrs_def mallocs_def)
  have "init_fn m Vm_vgic s = Done (0, ?s)"
    using a g nz np p by (simp add: init_fn_def vm_vgicv3_init_def c set_driver_def upd_vdev_last[where d = d and p = p] d_def)
  moreover have "started m s0 Vm_vgic s [d\<lparr>priv_data := Some Vm_vgic\<rparr>] ?s"
    using p gic_kept(1) by (auto simp: started_def grown_def conf_def g_def driven_def dev_window_def windows_def windows_ok_def d_def ptrs_def mallocs_def u32_u64_u32)
  ultimately show ?thesis by blast
qed

lemma irq_init_ok:
  assumes "unat (dev_virq d) < VM_GLOBAL_VIRQ_NR (gic v)" "unat (dev_hirq d) < VM_GLOBAL_VIRQ_NR (gic v)"
  shows "\<exists>g b. vm_device_irq_init d v = Done (v\<lparr>gic := g, pt_irq_bitmap := b\<rparr>) \<and> VM_GLOBAL_VIRQ_NR g = VM_GLOBAL_VIRQ_NR (gic v)"
proof -
  obtain e where e: "VGIC_GET_VIRQ_DESC 0 (unat (dev_virq d)) (gic v) = Some e" using assms(1) by (auto simp: VGIC_GET_VIRQ_DESC_def)
  define e' where "e' = (if dev_pt_flag d then e\<lparr>bind_hwirq_flag := True\<rparr> else e)\<lparr>virq_num := dev_virq d\<rparr>"
  have k: "VM_GLOBAL_VIRQ_NR (put_desc 0 n x g) = VM_GLOBAL_VIRQ_NR g" for n x g by (simp add: put_desc_def)
  have "vm_device_irq_init d v = Done (v\<lparr>gic := put_desc 0 (unat (dev_virq d)) e' (gic v),
      pt_irq_bitmap := (if dev_pt_flag d \<or> strstr (dev_name d) ''ZSHMN'' then (pt_irq_bitmap v)(unat (dev_hirq d) := True) else pt_irq_bitmap v)\<rparr>)"
    unfolding vm_device_irq_init_def e Let_def by (simp add: k assms(2) e'_def)
  then show ?thesis using k by blast
qed

lemma create_port_ok:
  assumes "\<forall>v\<in>set (virt_serial_list c). map_option vs_name (serials c v) \<noteq> Some name" "length name < VM_FIELD_NAME_SIZE"
  shows "virt_serial_create (Some v) name h p c = Done (Some v, c\<lparr>serials := (serials c)(v \<mapsto> \<lparr>vs_name = name, vs_vm = h, vs_priv = p\<rparr>),
    virt_serial_list := virt_serial_list c @ [v]\<rparr>)"
proof -
  have "List.find (\<lambda>v. map_option vs_name (serials c v) = Some name) (virt_serial_list c) = None" using assms(1) by (simp add: find_None_iff)
  then show ?thesis using assms(2) by (simp add: virt_serial_create_def)
qed

lemma serial_starts:
  assumes "setup_inv s0 s" "can_start m s0 Vm_serial s"
  shows "\<exists>r s' ds. init_fn m Vm_serial s = Done (r, s') \<and> started m s0 Vm_serial s ds s'"
proof -
  have st: "startable m s0 Vm_serial" and fr: "set (ptrs m s0 Vm_serial) \<inter> dev_ptr ` set (devs_of s) = {}" and no: "driven Vm_serial (devs_of s) = []"
    using assms(2) by (simp_all add: can_start_def)
  obtain p q v where p: "m_serial m = (Some p, True, True)" "m_vpl011 m = Some q" "m_regs m" "m_vserial m = Some v" "v \<notin> set (virt_serial_list (d_console s0))"
    using st by (auto simp: startable_def mallocs_def)
  have c: "VSERIAL_REG_BASE s = VSERIAL_REG_BASE s0" "VSERIAL_REG_SIZE s = VSERIAL_REG_SIZE s0" "VSERIAL_DEV_VIRQ s = VSERIAL_DEV_VIRQ s0"
    "vm_name s = vm_name s0" "VM_GLOBAL_VIRQ_NR (gic (d_vm s)) = VM_GLOBAL_VIRQ_NR (gic (d_vm s0))" using assms(1) by (simp_all add: setup_inv_def conf_def)
  have nz: "VSERIAL_REG_BASE s0 \<noteq> 0" "VSERIAL_REG_SIZE s0 \<noteq> 0" "length (port_name s0) < VM_FIELD_NAME_SIZE"
    "unat (ucast (VSERIAL_DEV_VIRQ s0) :: u32) < VM_GLOBAL_VIRQ_NR (gic (d_vm s0))" using st by (simp_all add: startable_def)
  have con: "virt_serial_list (d_console s) = virt_serial_list (d_console s0)" "\<forall>w\<in>set (virt_serial_list (d_console s0)). serials (d_console s) w = serials (d_console s0) w"
    using assms(1) no by (auto simp: setup_inv_def console_inv_def)
  have nm: "\<forall>w\<in>set (virt_serial_list (d_console s)). map_option vs_name (serials (d_console s) w) \<noteq> Some (port_name s0)"
    using st con by (simp add: startable_def)
  let ?b = "VSERIAL_REG_BASE s0" and ?z = "ucast (VSERIAL_REG_SIZE s0) :: u32" and ?i = "ucast (VSERIAL_DEV_VIRQ s0) :: u32"
  define d where "d = added p ''vpl011'' ?b ?z ?i ?i s"
  obtain vd where a: "add_dev (Some p, True, True) ''vpl011'' ?b ?z ?i ?i s = Done (Some d, s\<lparr>d_vm := (d_vm s)\<lparr>vmem := vd, vdev_list := devs_of s @ [d]\<rparr>\<rparr>)"
    using add_dev_ok unfolding d_def by blast
  obtain x where x: "vpl011_regs_init True (ucast ?b) ?z (cleared_pl011 (serial (d_vm s))) = (0, x)" by (auto simp: vpl011_regs_init_def Let_def)
  define y where "y = x\<lparr>pl011_irq := ?i, pl011_count := 0\<rparr>"
  have "unat (dev_virq d) < VM_GLOBAL_VIRQ_NR (gic ((d_vm s)\<lparr>vmem := vd, vdev_list := devs_of s @ [d], serial := y\<rparr>))"
    "unat (dev_hirq d) < VM_GLOBAL_VIRQ_NR (gic ((d_vm s)\<lparr>vmem := vd, vdev_list := devs_of s @ [d], serial := y\<rparr>))" using nz(4) c(5) by (simp_all add: d_def)
  from irq_init_ok[OF this] obtain g b where g: "vm_device_irq_init d ((d_vm s)\<lparr>vmem := vd, vdev_list := devs_of s @ [d], serial := y\<rparr>) =
      Done ((d_vm s)\<lparr>vmem := vd, vdev_list := devs_of s @ [d], serial := y, gic := g, pt_irq_bitmap := b\<rparr>)" "VM_GLOBAL_VIRQ_NR g = VM_GLOBAL_VIRQ_NR (gic (d_vm s))"
    by auto
  let ?c = "(d_console s)\<lparr>serials := (serials (d_console s))(v \<mapsto> \<lparr>vs_name = port_name s0, vs_vm = d_handle s, vs_priv = q\<rparr>),
    virt_serial_list := virt_serial_list (d_console s) @ [v]\<rparr>"
  note cr = create_port_ok[OF nm nz(3), of v "d_handle s" q]
  let ?s = "s\<lparr>d_vm := (d_vm s)\<lparr>vmem := vd, vdev_list := devs_of s @ [d\<lparr>priv_data := Some Vm_serial\<rparr>], serial := y, gic := g, pt_irq_bitmap := b\<rparr>,
    d_console := ?c\<lparr>ports := (ports ?c)(q := y)\<rparr>, vserial_of := (vserial_of s)(q := Some v), priv_vdev := (priv_vdev s)(p := Some q)\<rparr>"
  have np: "p \<notin> dev_ptr ` set (devs_of s)" using fr p by (auto simp: ptrs_def mallocs_def)
  have len: "\<not> 64 \<le> length (vm_name s0) + 7" using nz(3) by (simp add: port_name_def VM_FIELD_NAME_SIZE_def)
  have "init_fn m Vm_serial s = Done (0, ?s)"
    using a x g(1) cr nz(1,2) np p len
    by (simp add: init_fn_def vm_virt_serial_init_def c set_driver_def upd_vdev_last[where d = d and p = p] port_name_def[symmetric] y_def[symmetric] d_def Let_def)
  moreover have "started m s0 Vm_serial s [d\<lparr>priv_data := Some Vm_serial\<rparr>] ?s"
    using p g(2) con no by (auto simp: started_def grown_def conf_def driven_def dev_window_def windows_def windows_ok_def d_def ptrs_def mallocs_def console_inv_def)
  ultimately show ?thesis by blast
qed

text \<open>The system controllers: one device after the other.\<close>

lemma fresh_rest: "p \<notin> A \<Longrightarrow> D = insert p E \<Longrightarrow> A \<subseteq> B \<Longrightarrow> B \<inter> E = {} \<Longrightarrow> A \<inter> D = {}"
  by blast

lemma add_syscons_ok:
  assumes "\<forall>j\<in>{k..<k + length cs}. \<exists>p. malloc j = (Some p, True, True)" "distinct (map (\<lambda>j. the (fst (malloc j))) [k..<k + length cs])"
    "(\<lambda>j. the (fst (malloc j))) ` {k..<k + length cs} \<inter> dev_ptr ` set (devs_of s) = {}"
  shows "\<exists>vd ds. add_syscons malloc i k cs s = Done (0, s\<lparr>d_vm := (d_vm s)\<lparr>vmem := vd, vdev_list := devs_of s @ ds\<rparr>\<rparr>)
    \<and> map dev_ptr ds = map (\<lambda>j. the (fst (malloc j))) [k..<k + length cs] \<and> map dev_window ds = map (\<lambda>c. (reg_base c, reg_size c)) cs
    \<and> (\<forall>d\<in>set ds. \<not> shareable d \<and> \<not> dev_pt_flag d \<and> priv_data d = Some i)"
  using assms
proof (induction cs arbitrary: k s)
  case Nil
  show ?case by (intro exI[of _ "vmem (d_vm s)"] exI[of _ "[]"]) simp
next
  case (Cons c cs)
  have up: "[k..<k + length (c # cs)] = k # [Suc k..<Suc k + length cs]" using upt_rec[of k "k + length (c # cs)"] by simp
  have "\<exists>p. malloc k = (Some p, True, True)" using Cons.prems(1) by (rule bspec) simp
  then obtain p where p: "malloc k = (Some p, True, True)" by blast
  let ?x = VM_DEVICE_INVALID_VIRQ
  define d where "d = (added p (sc_name c) (ucast (reg_base c)) (reg_size c) ?x ?x s)\<lparr>priv_data := Some i\<rparr>"
  have np: "p \<notin> dev_ptr ` set (devs_of s)" using Cons.prems(3) p by force
  obtain vd where a: "add_dev (Some p, True, True) (sc_name c) (ucast (reg_base c)) (reg_size c) ?x ?x s =
      Done (Some (added p (sc_name c) (ucast (reg_base c)) (reg_size c) ?x ?x s),
        s\<lparr>d_vm := (d_vm s)\<lparr>vmem := vd, vdev_list := devs_of s @ [added p (sc_name c) (ucast (reg_base c)) (reg_size c) ?x ?x s]\<rparr>\<rparr>)"
    using add_dev_ok by blast
  define s1 where "s1 = s\<lparr>d_vm := (d_vm s)\<lparr>vmem := vd, vdev_list := devs_of s @ [d]\<rparr>\<rparr>"
  have run: "add_syscons malloc i k (c # cs) s = add_syscons malloc i (Suc k) cs s1"
    using a np p by (simp add: set_driver_def upd_vdev_last[where d = "added p (sc_name c) (ucast (reg_base c)) (reg_size c) ?x ?x s" and p = p] s1_def d_def)
  have devs: "devs_of s1 = devs_of s @ [d]" "dev_ptr d = p" by (simp_all add: s1_def d_def)
  have "p \<notin> (\<lambda>j. the (fst (malloc j))) ` {Suc k..<Suc k + length cs}" using Cons.prems(2) p unfolding up by auto
  moreover have "dev_ptr ` set (devs_of s1) = insert p (dev_ptr ` set (devs_of s))" using devs by auto
  moreover have "(\<lambda>j. the (fst (malloc j))) ` {Suc k..<Suc k + length cs} \<subseteq> (\<lambda>j. the (fst (malloc j))) ` {k..<k + length (c # cs)}"
    by (intro image_mono) auto
  ultimately have fresh: "(\<lambda>j. the (fst (malloc j))) ` {Suc k..<Suc k + length cs} \<inter> dev_ptr ` set (devs_of s1) = {}"
    using Cons.prems(3) by (rule fresh_rest)
  have "\<forall>j\<in>{Suc k..<Suc k + length cs}. \<exists>p. malloc j = (Some p, True, True)" "distinct (map (\<lambda>j. the (fst (malloc j))) [Suc k..<Suc k + length cs])"
    using Cons.prems(1,2) unfolding up by auto
  from Cons.IH[OF this fresh] obtain vd' ds where 2: "add_syscons malloc i (Suc k) cs s1 = Done (0, s1\<lparr>d_vm := (d_vm s1)\<lparr>vmem := vd', vdev_list := devs_of s1 @ ds\<rparr>\<rparr>)"
    "map dev_ptr ds = map (\<lambda>j. the (fst (malloc j))) [Suc k..<Suc k + length cs]" "map dev_window ds = map (\<lambda>c. (reg_base c, reg_size c)) cs"
    "\<forall>d\<in>set ds. \<not> shareable d \<and> \<not> dev_pt_flag d \<and> priv_data d = Some i" by blast
  have "dev_window d = (reg_base c, reg_size c)" by (simp add: d_def dev_window_def u32_u64_u32)
  then show ?case using 2 p unfolding run up by (intro exI[of _ vd'] exI[of _ "d # ds"]) (auto simp: s1_def d_def)
qed

lemma syscons_start:
  assumes "setup_inv s0 s" "can_start m s0 i s" "i = Vm_syscon \<and> malloc = m_syscon m \<and> cs = syscon_list s0 \<or> i = Vm_clock_syscon \<and> malloc = m_clk m \<and> cs = clk_syscon_list s0"
  shows "\<exists>r s' ds. init_fn m i s = Done (r, s') \<and> started m s0 i s ds s'"
proof -
  have st: "startable m s0 i" and fr: "set (ptrs m s0 i) \<inter> dev_ptr ` set (devs_of s) = {}" using assms(2) by (simp_all add: can_start_def)
  have p: "ptrs m s0 i = map (\<lambda>j. the (fst (malloc j))) [0..<length cs]" using assms(3) by (auto simp: ptrs_def mallocs_def)
  have init: "init_fn m i s = add_syscons malloc i 0 cs s" and w: "windows s0 i = map (\<lambda>c. (reg_base c, reg_size c)) cs"
    using assms(1,3) by (auto simp: init_fn_def vm_syscons_init_def vm_clock_syscons_init_def setup_inv_def conf_def windows_def windows_ok_def)
  have "\<forall>j\<in>{0..<0 + length cs}. \<exists>p. malloc j = (Some p, True, True)" using st assms(3) by (auto simp: startable_def mallocs_def)
  moreover have "distinct (map (\<lambda>j. the (fst (malloc j))) [0..<0 + length cs])" using st p by (simp add: startable_def)
  moreover have "(\<lambda>j. the (fst (malloc j))) ` {0..<0 + length cs} \<inter> dev_ptr ` set (devs_of s) = {}" using fr p by simp
  ultimately obtain vd ds where 1: "add_syscons malloc i 0 cs s = Done (0, s\<lparr>d_vm := (d_vm s)\<lparr>vmem := vd, vdev_list := devs_of s @ ds\<rparr>\<rparr>)"
    "map dev_ptr ds = ptrs m s0 i" "map dev_window ds = windows s0 i" "\<forall>d\<in>set ds. \<not> shareable d \<and> \<not> dev_pt_flag d \<and> priv_data d = Some i"
    unfolding p w using add_syscons_ok[of 0 cs malloc s i] by auto
  have "driven i ds = ds" using 1(4) by (simp add: driven_def)
  moreover have "i \<notin> {Vm_vgic, Vm_serial, Zshm_dev}" using assms(3) by auto
  moreover have "distinct (map dev_ptr ds)" "dev_ptr ` set ds \<subseteq> set (ptrs m s0 i)" unfolding 1(2) using st 1(2)[symmetric] by (simp_all add: startable_def)
  ultimately have "started m s0 i s ds (s\<lparr>d_vm := (d_vm s)\<lparr>vmem := vd, vdev_list := devs_of s @ ds\<rparr>\<rparr>)"
    using 1(3,4) by (auto simp: started_def grown_def conf_def windows_ok_def)
  then show ?thesis using init 1(1) by auto
qed

lemma ld_starts:
  assumes "setup_inv s0 s" "can_start m s0 Linux_dev s"
  shows "\<exists>r s' ds. init_fn m Linux_dev s = Done (r, s') \<and> started m s0 Linux_dev s ds s'"
proof -
  have st: "startable m s0 Linux_dev" and fr: "set (ptrs m s0 Linux_dev) \<inter> dev_ptr ` set (devs_of s) = {}" using assms(2) by (simp_all add: can_start_def)
  obtain p where p: "m_ld m = (Some p, True, True)" using st by (auto simp: startable_def mallocs_def)
  have c: "RKLD_START_PHY_ADDR s = RKLD_START_PHY_ADDR s0" "RKLD_SIZE s = RKLD_SIZE s0" "vm_name s = vm_name s0"
    "VM_GLOBAL_VIRQ_NR (gic (d_vm s)) = VM_GLOBAL_VIRQ_NR (gic (d_vm s0))" using assms(1) by (simp_all add: setup_inv_def conf_def)
  have nz: "length (vm_name s0) < 22" "255 < VM_GLOBAL_VIRQ_NR (gic (d_vm s0))" using st by (simp_all add: startable_def)
  let ?x = VM_DEVICE_INVALID_VIRQ
  define d where "d = added p ''linux_dev'' (RKLD_START_PHY_ADDR s0) (RKLD_SIZE s0) ?x ?x s"
  define e where "e = d\<lparr>dev_name := dev_name d @ ''/'' @ vm_name s0, priv_data := Some Linux_dev\<rparr>"
  obtain vd where a: "add_dev (Some p, True, True) ''linux_dev'' (RKLD_START_PHY_ADDR s0) (RKLD_SIZE s0) ?x ?x s =
      Done (Some d, s\<lparr>d_vm := (d_vm s)\<lparr>vmem := vd, vdev_list := devs_of s @ [d]\<rparr>\<rparr>)" using add_dev_ok unfolding d_def by blast
  have "unat (dev_virq e) < VM_GLOBAL_VIRQ_NR (gic ((d_vm s)\<lparr>vmem := vd, vdev_list := devs_of s @ [e]\<rparr>))"
    "unat (dev_hirq e) < VM_GLOBAL_VIRQ_NR (gic ((d_vm s)\<lparr>vmem := vd, vdev_list := devs_of s @ [e]\<rparr>))"
    using nz(2) c(4) by (simp_all add: e_def d_def VM_DEVICE_INVALID_VIRQ_def)
  from irq_init_ok[OF this] obtain g b where g: "vm_device_irq_init e ((d_vm s)\<lparr>vmem := vd, vdev_list := devs_of s @ [e]\<rparr>) =
      Done ((d_vm s)\<lparr>vmem := vd, vdev_list := devs_of s @ [e], gic := g, pt_irq_bitmap := b\<rparr>)" "VM_GLOBAL_VIRQ_NR g = VM_GLOBAL_VIRQ_NR (gic (d_vm s))" by auto
  let ?s = "s\<lparr>d_vm := (d_vm s)\<lparr>vmem := vd, vdev_list := devs_of s @ [e], gic := g, pt_irq_bitmap := b\<rparr>\<rparr>"
  have np: "p \<notin> dev_ptr ` set (devs_of s)" using fr p by (auto simp: ptrs_def mallocs_def)
  have len: "\<not> VIRT_DEV_NAME_LENGTH \<le> length (dev_name d @ ''/'' @ vm_name s0)" using nz(1) by (simp add: d_def VIRT_DEV_NAME_LENGTH_def)
  have "dev_ptr d = p" by (simp add: d_def)
  then have u: "upd_vdev p (\<lambda>_. e) ((d_vm s)\<lparr>vmem := vd, vdev_list := devs_of s @ [d]\<rparr>) = (d_vm s)\<lparr>vmem := vd, vdev_list := devs_of s @ [e]\<rparr>"
    using np by (subst upd_vdev_last[where d = d and p = p and xs = "devs_of s"]) simp_all
  have e: "d\<lparr>dev_name := dev_name d @ CHR ''/'' # vm_name s0, priv_data := Some Linux_dev\<rparr> = e" "dev_ptr e = p"
    by (simp_all add: e_def d_def)
  have "init_fn m Linux_dev s = Done (0, ?s)"
    unfolding init_fn_def vm_ld_dev_init_def using a g(1) p len u \<open>dev_ptr d = p\<close> by (simp add: c e Let_def)
  moreover have "started m s0 Linux_dev s [e] ?s"
    using p g(2) by (auto simp: started_def grown_def conf_def driven_def dev_window_def windows_def windows_ok_def e_def d_def ptrs_def mallocs_def)
  ultimately show ?thesis by blast
qed

text \<open>The shared memory: three windows of the own unit, of which the one for notifications belongs to the driver, and up to two for reading.\<close>

lemma shm_dev_ok:
  "\<exists>d vd. shm_dev (Some p, True, True) name pa va sz z v = Done (Some d, v\<lparr>vmem := vd, vdev_list := vdev_list v @ [d]\<rparr>)
     \<and> dev_ptr d = p \<and> dev_virq d = zshm_irq z \<and> dev_hirq d = zshm_irq z \<and> \<not> shareable d \<and> \<not> dev_pt_flag d \<and> priv_data d = None"
proof -
  define d where "d = new_dev p name False False (ucast pa) (ucast va) sz v"
  obtain vd where vd: "vm_vdev_mem_add (True, True) d v = Done (0, v\<lparr>vmem := vd\<rparr>)" using vm_vdev_mem_add_ok by blast
  let ?d = "d\<lparr>dev_virq := zshm_irq z, dev_hirq := zshm_irq z, dev_vm := Some (vm_id v)\<rparr>"
  have "shm_dev (Some p, True, True) name pa va sz z v = Done (Some ?d, v\<lparr>vmem := vd, vdev_list := vdev_list v @ [?d]\<rparr>)"
    unfolding shm_dev_def vm_virt_dev_add_def by (simp add: d_def[symmetric] vd Let_def)
  moreover have "dev_ptr ?d = p \<and> dev_virq ?d = zshm_irq z \<and> dev_hirq ?d = zshm_irq z \<and> \<not> shareable ?d \<and> \<not> dev_pt_flag ?d \<and> priv_data ?d = None"
    by (simp add: d_def new_dev_def)
  ultimately show ?thesis by blast
qed

text \<open>What is appended to the devices of a VM, as far as the other components see it.\<close>

definition extends :: "vm_devs \<Rightarrow> z_virt_dev list \<Rightarrow> vm_devs \<Rightarrow> bool" where
  "extends v ds v' \<longleftrightarrow> vdev_list v' = vdev_list v @ ds \<and> vm_id v' = vm_id v \<and> VM_GLOBAL_VIRQ_NR (gic v') = VM_GLOBAL_VIRQ_NR (gic v)
     \<and> vdevice_type v' = vdevice_type v \<and> (\<forall>d\<in>set ds. \<not> shareable d \<and> \<not> dev_pt_flag d)"

lemma extends_trans: "extends v ds v' \<Longrightarrow> extends v' ds' v'' \<Longrightarrow> extends v (ds @ ds') v''"
  by (auto simp: extends_def)

lemma shm_dev_extends:
  "\<exists>d v'. shm_dev (Some p, True, True) name pa va sz z v = Done (Some d, v') \<and> extends v [d] v' \<and> dev_ptr d = p \<and> priv_data d = None"
proof -
  obtain d vd where "shm_dev (Some p, True, True) name pa va sz z v = Done (Some d, v\<lparr>vmem := vd, vdev_list := vdev_list v @ [d]\<rparr>)" "dev_ptr d = p"
    "\<not> shareable d" "\<not> dev_pt_flag d" "priv_data d = None" using shm_dev_ok by blast
  then show ?thesis by (intro exI[of _ d]) (auto simp: extends_def)
qed

lemma unit_window_ok:
  assumes "type \<noteq> 1"
  shows "\<exists>d v'. zshm_alloc_virt_dev (Some p, True, True) k type z v = Done (Some d, v') \<and> extends v [d] v' \<and> dev_ptr d = p \<and> priv_data d = None"
  unfolding zshm_alloc_virt_dev_def Let_def using assms by (cases "type = 0") (simp_all add: shm_dev_extends)

lemma notify_window_ok:
  assumes "unat (zshm_irq z) < VM_GLOBAL_VIRQ_NR (gic v)" "p \<notin> dev_ptr ` set (vdev_list v)"
  shows "\<exists>d v'. zshm_alloc_virt_dev (Some p, True, True) k 1 z v = Done (Some d, v') \<and> extends v [d] v' \<and> dev_ptr d = p \<and> priv_data d = Some Zshm_dev"
proof -
  let ?u = "zshm_units z ! k"
  obtain d vd where d: "shm_dev (Some p, True, True) ''ZSHMN'' (zshm_notify_addr ?u) (ZSHM_START_PHY_ADDR z + ZSHM_UNIT_SIZE) ZSHM_NOTIFY_UNIT_SIZE z v =
      Done (Some d, v\<lparr>vmem := vd, vdev_list := vdev_list v @ [d]\<rparr>)" "dev_ptr d = p" "dev_virq d = zshm_irq z" "dev_hirq d = zshm_irq z"
    "\<not> shareable d" "\<not> dev_pt_flag d" using shm_dev_ok by blast
  define e where "e = d\<lparr>priv_data := Some Zshm_dev\<rparr>"
  have u: "upd_vdev p (\<lambda>_. e) (v\<lparr>vmem := vd, vdev_list := vdev_list v @ [d]\<rparr>) = v\<lparr>vmem := vd, vdev_list := vdev_list v @ [e]\<rparr>"
    using d(2) assms(2) by (subst upd_vdev_last[where d = d and p = p and xs = "vdev_list v"]) simp_all
  have "unat (dev_virq e) < VM_GLOBAL_VIRQ_NR (gic (v\<lparr>vmem := vd, vdev_list := vdev_list v @ [e]\<rparr>))"
    "unat (dev_hirq e) < VM_GLOBAL_VIRQ_NR (gic (v\<lparr>vmem := vd, vdev_list := vdev_list v @ [e]\<rparr>))" using assms(1) d by (simp_all add: e_def)
  from irq_init_ok[OF this] obtain g b where g: "vm_device_irq_init e (v\<lparr>vmem := vd, vdev_list := vdev_list v @ [e]\<rparr>) =
    Done (v\<lparr>vmem := vd, vdev_list := vdev_list v @ [e], gic := g, pt_irq_bitmap := b\<rparr>)" "VM_GLOBAL_VIRQ_NR g = VM_GLOBAL_VIRQ_NR (gic v)" by auto
  have "dev_ptr e = p" using d(2) by (simp add: e_def)
  then have "zshm_alloc_virt_dev (Some p, True, True) k 1 z v = Done (Some e, v\<lparr>vmem := vd, vdev_list := vdev_list v @ [e], gic := g, pt_irq_bitmap := b\<rparr>)"
    unfolding zshm_alloc_virt_dev_def using d(1,2) u g(1) by (simp add: e_def[symmetric] Let_def)
  then show ?thesis using d g(2) by (intro exI[of _ e]) (auto simp: extends_def e_def)
qed

lemma read_window_ok:
  "\<exists>ds v'. read_window (Some p, True, True) i k z v = Done (True, v') \<and> extends v ds v' \<and> (\<forall>d\<in>set ds. priv_data d = None) \<and> (ds = [] \<or> map dev_ptr ds = [p])"
proof -
  obtain pa va sz where w: "read_window (Some p, True, True) i k z v = (if sz = 0 then Done (True, v)
      else bind_outcome (shm_dev (Some p, True, True) (''ZSHMR'' @ [char_of (48 + i)]) pa va sz z v) (\<lambda>(r, st). Done (r \<noteq> None, st)))"
    unfolding read_window_def Let_def case_prod_beta by blast
  obtain d v' where "shm_dev (Some p, True, True) (''ZSHMR'' @ [char_of (48 + i)]) pa va sz z v = Done (Some d, v')" "extends v [d] v'" "dev_ptr d = p"
    "priv_data d = None" using shm_dev_extends by blast
  moreover have "extends v [] v" by (simp add: extends_def)
  ultimately show ?thesis unfolding w by (cases "sz = 0") (force, intro exI[of _ "[d]"] exI[of _ v'], simp)
qed

lemma set_bitmap_frame: "set_bitmap i on z = Done (r, z') \<Longrightarrow> \<exists>b. z' = z\<lparr>zshm_bitmap := b\<rparr>"
  by (auto simp: set_bitmap_def Let_def split: if_splits) (metis zshm.surjective zshm.update_convs(7))

lemma unit_claimed:
  assumes "units_inv z" "k \<in> units_all z" "vmid < length (vmid_to_units_index z)"
  shows "\<exists>id b us. zshm_claim vmid k z = Done (id, z\<lparr>zshm_units := us, zshm_bitmap := b, vmid_to_units_index := (vmid_to_units_index z)[vmid := int k]\<rparr>)
    \<and> units_inv (z\<lparr>zshm_bitmap := b\<rparr>) \<and> units_used (z\<lparr>zshm_bitmap := b\<rparr>) = insert k (units_used z)"
proof -
  define y where "y = z\<lparr>zshm_units := (zshm_units z)[k := (zshm_units z ! k)\<lparr>unit_vm_id := of_nat vmid\<rparr>]\<rparr>"
  have y: "units_inv y" "k < ZSHM_UNIT_MAX_NUMS y" using assms by (simp_all add: y_def units_inv_def units_all_def)
  from set_bitmap_inv[OF y, of True] obtain y' where y': "set_bitmap k True y = Done (0, y')" "units_inv y'" "units_used y' = insert k (units_used y)" by auto
  from set_bitmap_frame[OF y'(1)] obtain b where b: "y' = y\<lparr>zshm_bitmap := b\<rparr>" by blast
  have c: "zshm_claim vmid k z = Done (unit_id (zshm_units y' ! k), y'\<lparr>vmid_to_units_index := (vmid_to_units_index z)[vmid := int k]\<rparr>)"
    unfolding zshm_claim_def y_def[symmetric] zshm_bitmap_set_def y'(1) using assms(3) by (simp add: b y_def)
  have "units_inv (z\<lparr>zshm_bitmap := b\<rparr>)" "units_used (z\<lparr>zshm_bitmap := b\<rparr>) = insert k (units_used z)"
    using y'(2,3) by (simp_all add: b y_def units_inv_def units_used_def)
  then show ?thesis using c unfolding b y_def by auto
qed

lemma shm_alloc_ok:
  assumes z: "units_inv z" "units_used z \<noteq> units_all z" "unat (vm_id v) < length (vmid_to_units_index z)" "unat (zshm_irq z) < VM_GLOBAL_VIRQ_NR (gic v)"
    and m: "\<forall>j<5. m j = (Some (p j), True, True)" "p 1 \<notin> insert (p 0) (dev_ptr ` set (vdev_list v))"
  shows "\<exists>k z' v' ds d. zshm_alloc_vm_shm m z v = Done (0, z', v') \<and> extends v ds v' \<and> k \<in> units_all z - units_used z
    \<and> units_inv z' \<and> units_used z' = insert k (units_used z) \<and> ZSHM_UNIT_MAX_NUMS z' = ZSHM_UNIT_MAX_NUMS z \<and> zshm_irq z' = zshm_irq z
    \<and> vmid_to_units_index z' = (vmid_to_units_index z)[unat (vm_id v) := int k]
    \<and> driven Zshm_dev ds = [d] \<and> (\<forall>d\<in>set ds. priv_data d = None \<or> priv_data d = Some Zshm_dev) \<and> subseq (map dev_ptr ds) (map p [0..<5])"
proof -
  from zshm_index_inv[OF z(1), of "unat (vm_id v)"] z(2) obtain k where k: "zshm_index (unat (vm_id v)) z = Done k" "k \<in> units_all z - units_used z" by auto
  from unit_claimed[OF z(1) _ z(3), of k] k(2) obtain id b us where cl: "zshm_claim (unat (vm_id v)) k z =
      Done (id, z\<lparr>zshm_units := us, zshm_bitmap := b, vmid_to_units_index := (vmid_to_units_index z)[unat (vm_id v) := int k]\<rparr>)"
    "units_inv (z\<lparr>zshm_bitmap := b\<rparr>)" "units_used (z\<lparr>zshm_bitmap := b\<rparr>) = insert k (units_used z)" by auto
  define z1 where "z1 = z\<lparr>zshm_units := us, zshm_bitmap := b, vmid_to_units_index := (vmid_to_units_index z)[unat (vm_id v) := int k]\<rparr>"
  define z2 where "z2 = z1\<lparr>message_slots := (message_slots z1)(k := replicate ZSHM_MESSAGE_SLOT_COUNT empty_message)\<rparr>"
  define z3 where "z3 = z2\<lparr>priority_rings := (priority_rings z2)(k := empty_ring)\<rparr>"
  have e0: "extends v [] (v\<lparr>zshm_id := id\<rparr>)" by (simp add: extends_def)
  obtain d0 v1 where 1: "zshm_alloc_virt_dev (m 0) k 0 z1 (v\<lparr>zshm_id := id\<rparr>) = Done (Some d0, v1)" "extends (v\<lparr>zshm_id := id\<rparr>) [d0] v1"
    "dev_ptr d0 = p 0" "priv_data d0 = None" using unit_window_ok[of 0 "p 0" k z1] m(1)[rule_format, of 0] by fastforce
  have "unat (zshm_irq z2) < VM_GLOBAL_VIRQ_NR (gic v1)" "p 1 \<notin> dev_ptr ` set (vdev_list v1)"
    using z(4) m(2) 1(2,3) by (auto simp: extends_def z2_def z1_def)
  from notify_window_ok[OF this] obtain d1 v2 where 2: "zshm_alloc_virt_dev (m 1) k 1 z2 v1 = Done (Some d1, v2)" "extends v1 [d1] v2" "dev_ptr d1 = p 1"
    "priv_data d1 = Some Zshm_dev" using m(1)[rule_format, of 1] by fastforce
  obtain d2 v3 where 3: "zshm_alloc_virt_dev (m 2) k 2 z2 v2 = Done (Some d2, v3)" "extends v2 [d2] v3" "dev_ptr d2 = p 2" "priv_data d2 = None"
    using unit_window_ok[of 2 "p 2" k z2] m(1)[rule_format, of 2] by fastforce
  obtain ds3 v4 where 4: "read_window (m 3) 0 k z3 v3 = Done (True, v4)" "extends v3 ds3 v4" "\<forall>d\<in>set ds3. priv_data d = None" "ds3 = [] \<or> map dev_ptr ds3 = [p 3]"
    using read_window_ok[of "p 3" 0 k z3 v3] m(1)[rule_format, of 3] by fastforce
  obtain ds4 v5 where 5: "read_window (m 4) 1 k z3 v4 = Done (True, v5)" "extends v4 ds4 v5" "\<forall>d\<in>set ds4. priv_data d = None" "ds4 = [] \<or> map dev_ptr ds4 = [p 4]"
    using read_window_ok[of "p 4" 1 k z3 v4] m(1)[rule_format, of 4] by fastforce
  let ?ds = "[d0, d1, d2] @ ds3 @ ds4" and ?z = "z3\<lparr>is_mapped := (is_mapped z3)(k := True)\<rparr>"
  have r: "zshm_alloc_read_space (\<lambda>i. m (3 + i)) k z3 v3 = Done (0, v5)" using 4(1) 5(1) by (simp add: zshm_alloc_read_space_def numeral_eq_Suc)
  have k': "k \<noteq> ZSHM_UNIT_MAX_NUMS z" using k(2) by (auto simp: units_all_def)
  have "zshm_alloc_vm_shm m z v = Done (0, ?z, v5)"
    unfolding zshm_alloc_vm_shm_def Let_def k(1)
    using cl(1)[folded z1_def] 1(1) 2(1) 3(1) r k' by (simp add: z2_def[symmetric] z3_def[symmetric] del: bind_outcome_Done_iff)
  moreover have "extends v ?ds v5" using extends_trans[OF e0 extends_trans[OF 1(2) extends_trans[OF 2(2) extends_trans[OF 3(2) extends_trans[OF 4(2) 5(2)]]]]] by simp
  moreover have "driven Zshm_dev ?ds = [d1]" using 1(4) 2(4) 3(4) 4(3) 5(3) by (auto simp: driven_def filter_empty_conv)
  moreover have "\<forall>d\<in>set ?ds. priv_data d = None \<or> priv_data d = Some Zshm_dev" using 1(4) 2(4) 3(4) 4(3) 5(3) by auto
  moreover have "subseq (map dev_ptr ?ds) (map p [0..<5])" using 1(3) 2(3) 3(3) 4(4) 5(4) by (auto simp: numeral_eq_Suc)
  moreover have "units_inv ?z" "units_used ?z = insert k (units_used z)" using cl(2,3) by (simp_all add: z3_def z2_def z1_def units_inv_def units_used_def)
  ultimately show ?thesis using k(2) by (intro exI[of _ k] exI[of _ ?z] exI[of _ v5] exI[of _ ?ds] exI[of _ d1]) (simp add: z3_def z2_def z1_def)
qed

lemma subseq_props: "subseq xs ys \<Longrightarrow> set xs \<subseteq> set ys \<and> (distinct ys \<longrightarrow> distinct xs)"
  by (induction rule: list_emb.induct) auto

lemma shm_starts:
  assumes "setup_inv s0 s" "can_start m s0 Zshm_dev s"
  shows "\<exists>r s' ds. init_fn m Zshm_dev s = Done (r, s') \<and> started m s0 Zshm_dev s ds s'"
proof -
  have st: "startable m s0 Zshm_dev" and fr: "set (ptrs m s0 Zshm_dev) \<inter> dev_ptr ` set (devs_of s) = {}" and no: "driven Zshm_dev (devs_of s) = []"
    using assms(2) by (simp_all add: can_start_def)
  define p where "p j = the (fst (m_shm m j))" for j
  have m: "\<forall>j<5. m_shm m j = (Some (p j), True, True)"
  proof (intro allI impI)
    fix j :: nat
    assume "j < 5"
    then have "m_shm m j \<in> set (mallocs m s0 Zshm_dev)" by (auto simp: mallocs_def)
    then show "m_shm m j = (Some (p j), True, True)" using st by (auto simp: startable_def p_def)
  qed
  have ps: "ptrs m s0 Zshm_dev = map p [0..<5]" by (simp add: ptrs_def mallocs_def p_def comp_def)
  have c: "vm_id (d_vm s) = vm_id (d_vm s0)" "VM_GLOBAL_VIRQ_NR (gic (d_vm s)) = VM_GLOBAL_VIRQ_NR (gic (d_vm s0))" using assms(1) by (simp_all add: setup_inv_def conf_def)
  have z: "units_inv (d_shm s0)" "units_used (d_shm s0) \<noteq> units_all (d_shm s0)" "unat (vm_id (d_vm s0)) < length (vmid_to_units_index (d_shm s0))"
    "unat (zshm_irq (d_shm s0)) < VM_GLOBAL_VIRQ_NR (gic (d_vm s0))" using st by (simp_all add: startable_def)
  have u: "units_used (d_shm s) = units_used (d_shm s0)" "units_inv (d_shm s)" "ZSHM_UNIT_MAX_NUMS (d_shm s) = ZSHM_UNIT_MAX_NUMS (d_shm s0)"
    "zshm_irq (d_shm s) = zshm_irq (d_shm s0)" "length (vmid_to_units_index (d_shm s)) = length (vmid_to_units_index (d_shm s0))"
    using assms(1) z(1) no by (simp_all add: setup_inv_def shm_inv_def)
  have all: "units_all (d_shm s) = units_all (d_shm s0)" using u(3) by (simp add: units_all_def)
  have "distinct (map p [0..<5])" using st ps by (simp add: startable_def)
  then have "p 1 \<noteq> p 0" by (auto simp: upt_rec)
  moreover have "p 1 \<in> set (map p [0..<5])" by simp
  ultimately have p1: "p 1 \<notin> insert (p 0) (dev_ptr ` set (devs_of s))" using fr unfolding ps by blast
  have zs: "units_used (d_shm s) \<noteq> units_all (d_shm s)" "unat (vm_id (d_vm s)) < length (vmid_to_units_index (d_shm s))"
    "unat (zshm_irq (d_shm s)) < VM_GLOBAL_VIRQ_NR (gic (d_vm s))" using z u c all by simp_all
  obtain k z' v' ds d where a: "zshm_alloc_vm_shm (m_shm m) (d_shm s) (d_vm s) = Done (0, z', v')" "extends (d_vm s) ds v'"
    "k \<in> units_all (d_shm s) - units_used (d_shm s)" "units_inv z'" "units_used z' = insert k (units_used (d_shm s))"
    "ZSHM_UNIT_MAX_NUMS z' = ZSHM_UNIT_MAX_NUMS (d_shm s)" "zshm_irq z' = zshm_irq (d_shm s)"
    "vmid_to_units_index z' = (vmid_to_units_index (d_shm s))[unat (vm_id (d_vm s)) := int k]" "driven Zshm_dev ds = [d]"
    "\<forall>d\<in>set ds. priv_data d = None \<or> priv_data d = Some Zshm_dev" "subseq (map dev_ptr ds) (map p [0..<5])"
    using shm_alloc_ok[OF u(2) zs m p1] by (elim exE conjE) (rule that)
  let ?s = "s\<lparr>d_shm := z', d_vm := v'\<rparr>"
  have i: "init_fn m Zshm_dev s = Done (0, ?s)" using a(1) by (simp add: init_fn_def shm_init_def)
  have "distinct (map dev_ptr ds)" using subseq_props[OF a(11)] \<open>distinct (map p [0..<5])\<close> by simp
  moreover have "dev_ptr ` set ds \<subseteq> set (ptrs m s0 Zshm_dev)" using subseq_props[OF a(11)] ps by simp
  ultimately have "grown m s0 Zshm_dev s ds ?s" using a(2,10) by (auto simp: grown_def extends_def conf_def)
  moreover have "shm_inv s0 ?s" using a(2-9) no u c z all by (simp add: shm_inv_def extends_def)
  ultimately have "started m s0 Zshm_dev s ds ?s" using a(9) by (simp add: started_def windows_ok_def)
  then show ?thesis using i by blast
qed

section \<open>Removing a device\<close>

definition shrunk :: "z_virt_dev \<Rightarrow> dev_sys \<Rightarrow> dev_sys \<Rightarrow> bool" where
  "shrunk d s s' \<longleftrightarrow> devs_of s' = filter (\<lambda>e. dev_ptr e \<noteq> dev_ptr d) (devs_of s) \<and> conf s' = conf s
    \<and> (\<forall>p. p \<noteq> dev_ptr d \<longrightarrow> priv_vdev s' p = priv_vdev s p) \<and> vserial_of s' = vserial_of s
    \<and> (priv_data d \<noteq> Some Vm_serial \<longrightarrow> d_console s' = d_console s) \<and> (priv_data d \<noteq> Some Zshm_dev \<longrightarrow> d_shm s' = d_shm s)"

lemma shrunk_inv:
  assumes "setup_inv s0 s" "d \<in> set (devs_of s)" "shrunk d s s'"
    "priv_data d = Some Vm_serial \<Longrightarrow> console_inv s0 s'" "priv_data d = Some Zshm_dev \<Longrightarrow> shm_inv s0 s'"
  shows "setup_inv s0 s'"
proof -
  have g: "devs_of s' = filter (\<lambda>e. dev_ptr e \<noteq> dev_ptr d) (devs_of s)" "conf s' = conf s"
    "\<forall>p. p \<noteq> dev_ptr d \<longrightarrow> priv_vdev s' p = priv_vdev s p" "vserial_of s' = vserial_of s"
    "priv_data d \<noteq> Some Vm_serial \<longrightarrow> d_console s' = d_console s" "priv_data d \<noteq> Some Zshm_dev \<longrightarrow> d_shm s' = d_shm s"
    using assms(3) by (simp_all add: shrunk_def)
  have inv: "conf s = conf s0" "list_inv s" "console_inv s0 s" "shm_inv s0 s" using assms(1) by (simp_all add: setup_inv_def)
  have same: "e = d" if "e \<in> set (devs_of s)" "dev_ptr e = dev_ptr d" for e
    using inv(2) that assms(2) by (auto simp: list_inv_def distinct_map dest: inj_onD)
  have other: "driven j (devs_of s') = driven j (devs_of s)" if "priv_data d \<noteq> Some j" for j
    unfolding g(1) driven_def filter_filter using same that by (intro filter_cong) auto
  have "distinct (map dev_ptr (devs_of s'))" unfolding g(1) using inv(2) by (simp add: list_inv_def distinct_map_filter)
  moreover have "dev_ok s' e" if "e \<in> set (devs_of s')" for e using that inv(2) g(1,3) by (auto simp: list_inv_def dev_ok_def)
  ultimately have "list_inv s'" by (simp add: list_inv_def)
  moreover have "console_inv s0 s'"
  proof (cases "priv_data d = Some Vm_serial")
    case False
    have "dev_ptr e \<noteq> dev_ptr d" if "driven Vm_serial (devs_of s) = [e]" for e
    proof
      assume "dev_ptr e = dev_ptr d"
      moreover have "e \<in> set (driven Vm_serial (devs_of s))" using that by simp
      ultimately show False using same False by (auto simp: driven_def)
    qed
    then show ?thesis using inv(3) g(3,4,5) other[OF False] False unfolding console_inv_def by (auto split: list.splits)
  qed (rule assms(4))
  moreover have "shm_inv s0 s'"
  proof (cases "priv_data d = Some Zshm_dev")
    case False
    then have "driven Zshm_dev (devs_of s') = driven Zshm_dev (devs_of s)" "d_shm s' = d_shm s" "vm_id (d_vm s') = vm_id (d_vm s)"
      using g(2,6) other by (simp_all add: conf_def)
    then show ?thesis using inv(4) by (simp only: shm_inv_def)
  qed (rule assms(5))
  ultimately show ?thesis using inv(1) g(2) by (simp add: setup_inv_def)
qed

lemma remove_frame:
  "vdev_list (snd (vm_virt_dev_remove d v)) = filter (\<lambda>e. dev_ptr e \<noteq> dev_ptr d) (vdev_list v)"
  "vm_id (snd (vm_virt_dev_remove d v)) = vm_id v" "gic (snd (vm_virt_dev_remove d v)) = gic v"
  by (simp_all add: vm_virt_dev_remove_def Let_def split: option.split)

lemma drop_shrinks: "shrunk d s (snd (drop_dev d s))"
  by (simp add: shrunk_def drop_dev_def remove_frame conf_def case_prod_beta)

lemma only_driven:
  assumes "d \<in> set ds" "priv_data d = Some i" "length (driven i ds) \<le> 1"
  shows "driven i ds = [d]"
proof -
  have "d \<in> set (driven i ds)" using assms(1,2) by (simp add: driven_def)
  then show ?thesis using assms(3) by (cases "driven i ds") auto
qed

lemma none_driven:
  assumes "driven i ds = [d]" shows "driven i (filter (\<lambda>e. dev_ptr e \<noteq> dev_ptr d) ds) = []"
proof -
  have "driven i (filter (\<lambda>e. dev_ptr e \<noteq> dev_ptr d) ds) = filter (\<lambda>e. dev_ptr e \<noteq> dev_ptr d) (driven i ds)"
    by (simp add: driven_def filter_filter conj_commute)
  then show ?thesis using assms by simp
qed

lemma serial_stops:
  assumes "setup_inv s0 s" "d \<in> set (devs_of s)" "priv_data d = Some Vm_serial"
  shows "\<exists>r s'. deinit_fn Vm_serial d s = Done (r, s') \<and> setup_inv s0 s' \<and> devs_of s' = filter (\<lambda>e. dev_ptr e \<noteq> dev_ptr d) (devs_of s)"
proof -
  have con: "console_inv s0 s" using assms(1) by (simp add: setup_inv_def)
  then have "length (driven Vm_serial (devs_of s)) \<le> 1" by (auto simp: console_inv_def split: list.splits)
  from only_driven[OF assms(2,3) this] have dr: "driven Vm_serial (devs_of s) = [d]" .
  from con dr obtain p v where v: "priv_vdev s (dev_ptr d) = Some p" "vserial_of s p = Some v" "v \<notin> set (virt_serial_list (d_console s0))"
    "virt_serial_list (d_console s) = virt_serial_list (d_console s0) @ [v]"
    and ser: "\<forall>v\<in>set (virt_serial_list (d_console s0)). serials (d_console s) v = serials (d_console s0) v" by (auto simp: console_inv_def)
  define t where "t = s\<lparr>d_console := snd (virt_serial_destroy v (d_console s))\<rparr>"
  have "deinit_fn Vm_serial d s = Done (drop_dev d t)" by (simp add: deinit_fn_def vm_virt_serial_deinit_def v t_def)
  moreover have sh: "shrunk d s (snd (drop_dev d t))" using drop_shrinks[of d t] assms(3) by (simp add: shrunk_def t_def conf_def)
  have l: "virt_serial_list (d_console (snd (drop_dev d t))) = virt_serial_list (d_console s0)"
    "\<forall>w\<in>set (virt_serial_list (d_console s0)). serials (d_console (snd (drop_dev d t))) w = serials (d_console s0) w"
    using v(3,4) ser by (auto simp: drop_dev_def t_def virt_serial_destroy_def remove1_append case_prod_beta)
  have "driven Vm_serial (devs_of (snd (drop_dev d t))) = []" using sh none_driven[OF dr] by (simp add: shrunk_def)
  then have "console_inv s0 (snd (drop_dev d t))" using l by (simp add: console_inv_def)
  then have "setup_inv s0 (snd (drop_dev d t))" using shrunk_inv[OF assms(1,2) sh] assms(3) by simp
  ultimately show ?thesis using sh by (intro exI[of _ "fst (drop_dev d t)"] exI[of _ "snd (drop_dev d t)"]) (simp add: shrunk_def)
qed

lemma shm_given_back:
  assumes "units_inv z" "unat (vm_id v) < length (vmid_to_units_index z)" "vmid_to_units_index z ! unat (vm_id v) = int k" "k \<in> units_all z"
  shows "\<exists>z'. vm_zshm_deinit d z v = Done (0, z', snd (vm_virt_dev_remove d v)) \<and> units_inv z' \<and> units_used z' = units_used z - {k}
    \<and> ZSHM_UNIT_MAX_NUMS z' = ZSHM_UNIT_MAX_NUMS z \<and> zshm_irq z' = zshm_irq z \<and> length (vmid_to_units_index z') = length (vmid_to_units_index z)"
proof -
  define y where "y = (if CONFIG_HEARTBEAT z then z\<lparr>vm_heartbeat := (vm_heartbeat z)(unat (vm_id v) := 0)\<rparr> else z)"
  define x where "x = y\<lparr>is_mapped := (is_mapped y)(k := False)\<rparr>"
  have x: "units_inv x" "k < ZSHM_UNIT_MAX_NUMS x" "units_used x = units_used z" "vmid_to_units_index x = vmid_to_units_index z" "zshm_irq x = zshm_irq z"
    "ZSHM_UNIT_MAX_NUMS x = ZSHM_UNIT_MAX_NUMS z" using assms(1,4) by (simp_all add: x_def y_def units_inv_def units_all_def units_used_def)
  from set_bitmap_inv[OF x(1,2), of False] obtain w where w: "set_bitmap k False x = Done (0, w)" "units_inv w" "ZSHM_UNIT_MAX_NUMS w = ZSHM_UNIT_MAX_NUMS x"
    "units_used w = units_used x - {k}" by auto
  from set_bitmap_frame[OF w(1)] obtain b where b: "w = x\<lparr>zshm_bitmap := b\<rparr>" by blast
  let ?z = "w\<lparr>zshm_units := (zshm_units w)[k := zshm_unit_at w k], vmid_to_units_index := (vmid_to_units_index w)[unat (vm_id v) := - 1]\<rparr>"
  have "vm_zshm_deinit d z v = Done (0, ?z, snd (vm_virt_dev_remove d v))"
    unfolding vm_zshm_deinit_def Let_def y_def[symmetric] using assms(2,3) w(1) by (simp add: zshm_bitmap_unset_def x_def[symmetric])
  moreover have "units_inv ?z \<and> units_used ?z = units_used z - {k}" using w x by (simp add: units_inv_def units_used_def)
  ultimately show ?thesis using x w by (intro exI[of _ ?z]) (simp add: b)
qed

lemma shm_stops:
  assumes "setup_inv s0 s" "d \<in> set (devs_of s)" "priv_data d = Some Zshm_dev"
  shows "\<exists>r s'. deinit_fn Zshm_dev d s = Done (r, s') \<and> setup_inv s0 s' \<and> devs_of s' = filter (\<lambda>e. dev_ptr e \<noteq> dev_ptr d) (devs_of s)"
proof -
  have shm: "shm_inv s0 s" using assms(1) by (simp add: setup_inv_def)
  then have "length (driven Zshm_dev (devs_of s)) \<le> 1" by (auto simp: shm_inv_def split: list.splits)
  from only_driven[OF assms(2,3) this] have dr: "driven Zshm_dev (devs_of s) = [d]" .
  from shm dr obtain k where k: "units_inv (d_shm s)" "ZSHM_UNIT_MAX_NUMS (d_shm s) = ZSHM_UNIT_MAX_NUMS (d_shm s0)" "zshm_irq (d_shm s) = zshm_irq (d_shm s0)"
    "length (vmid_to_units_index (d_shm s)) = length (vmid_to_units_index (d_shm s0))" "unat (vm_id (d_vm s)) < length (vmid_to_units_index (d_shm s))"
    "vmid_to_units_index (d_shm s) ! unat (vm_id (d_vm s)) = int k" "k \<in> units_all (d_shm s0) - units_used (d_shm s0)"
    "units_used (d_shm s) = insert k (units_used (d_shm s0))" by (auto simp: shm_inv_def)
  have "k \<in> units_all (d_shm s)" using k(2,7) by (simp add: units_all_def)
  from shm_given_back[OF k(1,5,6) this, of d] obtain z where z: "vm_zshm_deinit d (d_shm s) (d_vm s) = Done (0, z, snd (vm_virt_dev_remove d (d_vm s)))"
    "units_inv z" "units_used z = units_used (d_shm s) - {k}" "ZSHM_UNIT_MAX_NUMS z = ZSHM_UNIT_MAX_NUMS (d_shm s)" "zshm_irq z = zshm_irq (d_shm s)"
    "length (vmid_to_units_index z) = length (vmid_to_units_index (d_shm s))" by blast
  define t where "t = s\<lparr>d_shm := z, d_vm := snd (vm_virt_dev_remove d (d_vm s))\<rparr>"
  have run: "deinit_fn Zshm_dev d s = Done (0, t)" using z(1) by (simp add: deinit_fn_def shm_deinit_def t_def)
  have sh: "shrunk d s t" using assms(3) by (simp add: shrunk_def t_def conf_def remove_frame)
  have "driven Zshm_dev (devs_of t) = []" using none_driven[OF dr] by (simp add: t_def remove_frame)
  moreover have "units_used z = units_used (d_shm s0)" using z(3) k(7,8) by auto
  ultimately have "shm_inv s0 t" using z k by (simp add: shm_inv_def t_def)
  then have "setup_inv s0 t" using shrunk_inv[OF assms(1,2) sh] assms(3) by simp
  then show ?thesis using run sh by (auto simp: shrunk_def)
qed

lemma device_stops:
  assumes "setup_inv s0 s" "d \<in> set (devs_of s)" "priv_data d = Some i"
  shows "\<exists>r s'. deinit_fn i d s = Done (r, s') \<and> setup_inv s0 s' \<and> devs_of s' = filter (\<lambda>e. dev_ptr e \<noteq> dev_ptr d) (devs_of s)"
proof -
  have ok: "dev_ok s d" using assms(1,2) by (simp add: setup_inv_def list_inv_def)
  have rest: "\<exists>r s'. deinit_fn i d s = Done (r, s') \<and> setup_inv s0 s' \<and> devs_of s' = filter (\<lambda>e. dev_ptr e \<noteq> dev_ptr d) (devs_of s)"
    if "\<exists>r. deinit_fn i d s = Done (r, snd (drop_dev d s))" "i \<noteq> Vm_serial" "i \<noteq> Zshm_dev"
  proof -
    have "setup_inv s0 (snd (drop_dev d s))" using shrunk_inv[OF assms(1,2) drop_shrinks] that(2,3) assms(3) by simp
    moreover have "devs_of (snd (drop_dev d s)) = filter (\<lambda>e. dev_ptr e \<noteq> dev_ptr d) (devs_of s)" using drop_shrinks[of d s] by (simp add: shrunk_def)
    ultimately show ?thesis using that(1) by blast
  qed
  show ?thesis
  proof (cases i)
    case Vm_vgic
    then obtain p where "priv_vdev s (dev_ptr d) = Some p" using ok assms(3) by (auto simp: dev_ok_def)
    then have "deinit_fn i d s = Done (fst (drop_dev d s), snd (drop_dev d s))" using Vm_vgic by (simp add: deinit_fn_def vm_vgicv3_deinit_def)
    then have "\<exists>r. deinit_fn i d s = Done (r, snd (drop_dev d s))" by blast
    from rest[OF this] Vm_vgic show ?thesis by blast
  next
    case Vm_serial
    then show ?thesis using serial_stops assms by blast
  next
    case Zshm_dev
    then show ?thesis using shm_stops assms by blast
  next
    case (Host_device h)
    then show ?thesis using ok assms(3) by (simp add: dev_ok_def)
  qed (use rest in \<open>simp_all add: deinit_fn_def vm_syscons_deinit_def vm_clock_syscons_deinit_def vm_ld_dev_deinit_def\<close>)
qed

section \<open>All drivers\<close>

lemma driver_starts:
  assumes "setup_inv s0 s" "can_start m s0 i s"
  shows "\<exists>r s' ds. init_fn m i s = Done (r, s') \<and> started m s0 i s ds s'"
proof (cases i)
  case Vm_vgic
  then show ?thesis using gic_starts[OF assms(1)] assms(2) by simp
next
  case Vm_serial
  then show ?thesis using serial_starts[OF assms(1)] assms(2) by simp
next
  case Linux_dev
  then show ?thesis using ld_starts[OF assms(1)] assms(2) by simp
next
  case Zshm_dev
  then show ?thesis using shm_starts[OF assms(1)] assms(2) by simp
next
  case (Host_device h)
  then show ?thesis using assms(2) by (simp add: can_start_def startable_def)
qed (use syscons_start[OF assms] in simp_all)

interpretation drivers: vdev_api "init_fn m" deinit_fn "setup_inv s0" "can_start m s0" "windows_ok s0" "{Zshm_dev}" for m s0
proof (unfold_locales, goal_cases)
  case (1 s)
  then show ?case by (simp add: setup_inv_def list_inv_def)
next
  case (2 s d)
  then show ?case by (simp add: setup_inv_def list_inv_def dev_ok_def)
next
  case (3 s i)
  from driver_starts[OF 3] obtain r s' ds where run: "init_fn m i s = Done (r, s')" and st: "started m s0 i s ds s'" by blast
  then have g: "grown m s0 i s ds s'" "windows_ok s0 i (map dev_window (driven i ds))" by (simp_all add: started_def)
  note inv = grown_inv[OF 3 g(1)]
  have "setup_inv s0 s'" "\<forall>j. j \<noteq> i \<longrightarrow> can_start m s0 j s \<longrightarrow> can_start m s0 j s'" using st inv by (simp_all add: started_def)
  moreover have "devs_of s' = devs_of s @ ds" "\<forall>d\<in>set ds. priv_data d = Some i \<or> priv_data d = None \<and> i \<in> {Zshm_dev}"
    "vdevice_type (d_vm s') = vdevice_type (d_vm s)" using g(1) by (simp_all add: grown_def)
  ultimately show ?case using run g(2) by (intro exI[of _ r] exI[of _ s'] exI[of _ ds]) simp
next
  case (4 s d i)
  then show ?case by (rule device_stops)
qed


text \<open>A VM with an interrupt controller, a serial port and shared memory, while two other VMs have consoles and three have units.\<close>

definition boot_mallocs :: dev_mallocs where
  "boot_mallocs = \<lparr>m_gic = (Some 1, True, True), m_vgicv3 = Some 2, m_gicr = (\<lambda>_. True), m_serial = (Some 3, True, True), m_vpl011 = Some 4, m_regs = True,
     m_vserial = Some 5, m_syscon = (\<lambda>k. (Some (100 + k), True, True)), m_clk = (\<lambda>k. (Some (200 + k), True, True)), m_ld = (Some 6, True, True),
     m_shm = (\<lambda>k. (Some (10 + k), True, True))\<rparr>"

definition boot_devs :: dev_sys where
  "boot_devs = \<lparr>d_vm = devs_card\<lparr>vm_id := 0\<rparr>, d_console = two_consoles, d_shm = shm_three, d_handle = 3, vm_name = ''zephyr-0'', priv_vdev = (\<lambda>_. None),
     vserial_of = (\<lambda>_. None), instances = [Vm_vgic, Vm_serial, Zshm_dev], syscon_list = [], clk_syscon_list = [], VGIC_DIST_BASE = 0x8000000,
     VGIC_DIST_SIZE = 0x10000, VGIC_RDIST_BASE = 0x80A0000, VGIC_RDIST_SIZE = 0xF60000, VSERIAL_REG_BASE = 0x9000000, VSERIAL_REG_SIZE = 0x1000,
     VSERIAL_DEV_VIRQ = 33, RKLD_START_PHY_ADDR = 0, RKLD_SIZE = 0\<rparr>"

lemma boot_ptrs:
  "ptrs boot_mallocs boot_devs i = (case i of Vm_vgic \<Rightarrow> [1] | Vm_serial \<Rightarrow> [3] | Linux_dev \<Rightarrow> [6] | Zshm_dev \<Rightarrow> [10, 11, 12, 13, 14] | _ \<Rightarrow> [])"
  by (cases i) (simp_all add: ptrs_def mallocs_def boot_mallocs_def boot_devs_def upt_rec)

lemma boot_startable: "i \<in> {Vm_vgic, Vm_serial, Zshm_dev} \<Longrightarrow> startable boot_mallocs boot_devs i"
proof -
  have nr: "VM_GLOBAL_VIRQ_NR (gic (d_vm boot_devs)) = 256" by (simp add: boot_devs_def devs_card_def vgic_two_def)
  have free: "0 \<in> units_all shm_three - units_used shm_three" by (simp add: units_all_def units_used_def shm_three_def)
  then have shm: "units_inv shm_three" "units_used shm_three \<noteq> units_all shm_three" by (auto simp: units_inv_def shm_three_def)
  assume "i \<in> {Vm_vgic, Vm_serial, Zshm_dev}"
  then consider "i = Vm_vgic" | "i = Vm_serial" | "i = Zshm_dev" by auto
  then show ?thesis
  proof cases
    case 1
    then show ?thesis by (auto simp: startable_def boot_ptrs split: vdev_instance.splits) (auto simp: mallocs_def boot_mallocs_def boot_devs_def)
  next
    case 2
    have "unat (ucast (33 :: u64) :: u32) < 256" by simp
    then show ?thesis using 2 nr by (auto simp: startable_def boot_ptrs split: vdev_instance.splits)
      (auto simp: mallocs_def boot_mallocs_def boot_devs_def port_name_def two_consoles_def VM_FIELD_NAME_SIZE_def)
  next
    case 3
    have "shm_three = d_shm boot_devs" "unat (vm_id (d_vm boot_devs)) = 0" "zshm_irq shm_three = 77" "length (vmid_to_units_index shm_three) = 4"
      by (simp_all add: boot_devs_def shm_three_def)
    then show ?thesis using 3 nr shm by (auto simp: startable_def boot_ptrs split: vdev_instance.splits) (auto simp: mallocs_def boot_mallocs_def)
  qed
qed


end
