(* ===== verification/Zvm_Init.thy ===== *)
theory Zvm_Init
  imports Os_Config_Props Vm_Device_Props
begin

text \<open>
  The start of the hypervisor (\<^verbatim>\<open>subsys/zvm/zvm.c\<close>, end of \<^verbatim>\<open>arch/arm64/core/zvm/cpu.c\<close>): the hardware is checked, the manager's
  record and the guest memory are set up, and the devices of the host that wait for a VM are collected. The second part
  are the flags by which a CPU is asked to clean its cache.

  \<^verbatim>\<open>zvm_board\<close> holds registers, the device tree and the build configuration. Results of k_malloc are arguments.
\<close>

section \<open>State\<close>

record host_device =
  hd_id :: nat
  hd_name :: string
  init_res :: u8
  device_type :: string
  reg_base :: u32
  reg_size :: u32
  hirq_num :: u32

record zvm_board =
  id_aa64pfr0_el1 :: u64
  currentel :: u64
  CONFIG_GIC_V3 :: bool
  host_devices :: "host_device list"
  RTOS_VM_LOAD_BASE :: u64
  zshm_reg_addr :: "u64 option"
  CONFIG_DEFAULT_TOTAL_GUEST_MEMSIZE :: u64
  VM_DEBUG_CONSOLE_BASE :: u32
  VM_DEBUG_CONSOLE_IRQ :: u32
  vm_blk :: "(u32 \<times> u32) option"
  vm_net :: "(u32 \<times> u32) option"

text \<open>The pointer to the manager's record: it is not cleared when the record is freed.\<close>

datatype info_pointer = Info_null | Info_valid | Info_freed

record zvm_state =
  info_ptr :: info_pointer
  zvm_os :: os_state
  zvm_idle_list :: "z_virt_dev list"
  zvm_used_list :: "z_virt_dev list"

section \<open>Hardware\<close>

definition MODE_EL2 :: nat where "MODE_EL2 = 2"

definition is_el_implemented :: "nat \<Rightarrow> zvm_board \<Rightarrow> bool" where
  "is_el_implemented el b \<longleftrightarrow> \<not> 3 < el \<and> drop_bit (4 * el) (id_aa64pfr0_el1 b) AND 0xf \<noteq> 0"

definition GET_EL :: "u64 \<Rightarrow> u64" where "GET_EL mode = drop_bit 2 mode AND 3"

definition is_el2_vhe_supported :: "zvm_board \<Rightarrow> bool" where
  "is_el2_vhe_supported b \<longleftrightarrow> of_nat MODE_EL2 = GET_EL (currentel b)"

definition is_basic_hardware_support :: "zvm_board \<Rightarrow> bool" where
  "is_basic_hardware_support b \<longleftrightarrow> (if \<not> is_el_implemented MODE_EL2 b then False else if is_el2_vhe_supported b then True else False)"

definition is_gicv3_device_support :: "zvm_board \<Rightarrow> bool" where
  "is_gicv3_device_support b = CONFIG_GIC_V3 b"

definition zvm_arch_init :: "zvm_board \<Rightarrow> int" where
  "zvm_arch_init b = (if \<not> is_basic_hardware_support b then - ESRCH else if \<not> is_gicv3_device_support b then - ENODEV else 0)"

section \<open>Manager\<close>

definition zvm_hwsys_info_init :: "zvm_hwsys_info \<Rightarrow> int \<times> zvm_hwsys_info" where
  "zvm_hwsys_info_init z = (0, z\<lparr>phy_mem_used := 0\<rparr>)"

text \<open>The guest memory ends where the memory that VMs share starts.\<close>

definition guest_memsize :: "zvm_board \<Rightarrow> u64" where
  "guest_memsize b = (case zshm_reg_addr b of
     Some addr \<Rightarrow> addr - RTOS_VM_LOAD_BASE b
   | None \<Rightarrow> CONFIG_DEFAULT_TOTAL_GUEST_MEMSIZE b)"

text \<open>\<^verbatim>\<open>junk\<close> and \<^verbatim>\<open>hw\<close> are the contents of the new blocks, None when k_malloc failed. The sizes of the arrays are constants.\<close>

definition zvm_overall_init :: "zvm_manage_info option \<Rightarrow> zvm_hwsys_info option \<Rightarrow> zvm_board \<Rightarrow> zvm_state \<Rightarrow> int \<times> zvm_state" where
  "zvm_overall_init junk hw b zs = (case junk of
     None \<Rightarrow> (- ENOMEM, zs\<lparr>info_ptr := Info_null\<rparr>)
   | Some z \<Rightarrow> (case hw of
       None \<Rightarrow> (- ENOMEM, zs\<lparr>info_ptr := Info_freed\<rparr>)
     | Some h \<Rightarrow> (case zvm_hwsys_info_init h of (ret, h) \<Rightarrow>
         if ret \<noteq> 0 then (ret, zs\<lparr>info_ptr := Info_freed\<rparr>)
         else let z = z\<lparr>hw_info := h, vms := replicate (CONFIG_MAX_VM_NUM z) None, vcpu_use := replicate (length (vcpu_use z)) 0,
                    alloced_vmid := 0, vm_total_num := 0\<rparr>
              in (ret, zs\<lparr>info_ptr := Info_valid, zvm_os := (set_overall z (zvm_os zs))
                   \<lparr>guest_mem := guest_memory_manager_init (RTOS_VM_LOAD_BASE b) (guest_memsize b)\<rparr>\<rparr>))))"

section \<open>Devices of the host\<close>

definition VM_DEVICE_INIT_RES :: u8 where "VM_DEVICE_INIT_RES = 0xFF"
definition VM_DEFAULT_CONSOLE_NAME_LEN :: nat where "VM_DEFAULT_CONSOLE_NAME_LEN = 4"
definition VM_DEFAULT_VIRTIO_NAME_LEN :: nat where "VM_DEFAULT_VIRTIO_NAME_LEN = 9"

definition strncmp_eq :: "string \<Rightarrow> string \<Rightarrow> nat \<Rightarrow> bool" where
  "strncmp_eq a b n \<longleftrightarrow> take n a = take n b"

text \<open>The address and the interrupt at which a VM sees a device.\<close>

definition guest_window :: "zvm_board \<Rightarrow> string \<Rightarrow> u32 \<Rightarrow> u32 \<Rightarrow> u32 \<times> u32" where
  "guest_window b name paddr hirq =
    (if strncmp_eq ''UART'' name VM_DEFAULT_CONSOLE_NAME_LEN then (VM_DEBUG_CONSOLE_BASE b, VM_DEBUG_CONSOLE_IRQ b)
     else case (vm_blk b, strncmp_eq ''VIRTIOBLK'' name VM_DEFAULT_VIRTIO_NAME_LEN) of
       (Some w, True) \<Rightarrow> w
     | _ \<Rightarrow> (case (vm_net b, strncmp_eq ''VIRTIONET'' name VM_DEFAULT_VIRTIO_NAME_LEN) of
         (Some w, True) \<Rightarrow> w
       | _ \<Rightarrow> (paddr, hirq)))"

text \<open>
  The structure of a device, at address \<^verbatim>\<open>ptr\<close>. The length of the name is 16 bits wide. The byte behind a name of full length is
  the field behind the array, \<^verbatim>\<open>dev_pt_flag\<close>, which was set before.
\<close>

definition idle_device :: "zvm_board \<Rightarrow> nat \<Rightarrow> host_device \<Rightarrow> z_virt_dev" where
  "idle_device b ptr d =
    (let n = unat (of_nat (length (hd_name d)) :: u16);
         name_len = (if VIRT_DEV_NAME_LENGTH < n then VIRT_DEV_NAME_LENGTH else n);
         name = take name_len (hd_name d);
         (vaddr, virq) = guest_window b name (reg_base d) (hirq_num d)
     in \<lparr>dev_ptr = ptr, dev_name = name, dev_pt_flag = (name_len \<noteq> VIRT_DEV_NAME_LENGTH), shareable = (device_type d = ''virtio''),
         zshm = False, dev_hirq = hirq_num d, dev_virq = virq, vm_vdev_paddr = reg_base d, vm_vdev_vaddr = vaddr,
         vm_vdev_size = reg_size d, dev_vm = None, priv_data = Some (Host_device (hd_id d))\<rparr>)"

definition zvm_init_idle_device_1 :: "zvm_board \<Rightarrow> nat \<Rightarrow> host_device \<Rightarrow> zvm_state \<Rightarrow> zvm_state" where
  "zvm_init_idle_device_1 b ptr d zs = zs\<lparr>zvm_idle_list := zvm_idle_list zs @ [idle_device b ptr d]\<rparr>"

text \<open>The loop over all devices; the new structure is cleared before the pointer is tested.\<close>

fun scan_devices :: "(nat \<Rightarrow> nat option) \<Rightarrow> zvm_board \<Rightarrow> host_device list \<Rightarrow> zvm_state \<Rightarrow> zvm_state outcome" where
  "scan_devices malloc b [] zs = Done zs"
| "scan_devices malloc b (d # ds) zs =
    (if init_res d = VM_DEVICE_INIT_RES
     then (case malloc (hd_id d) of None \<Rightarrow> Fault | Some ptr \<Rightarrow> scan_devices malloc b ds (zvm_init_idle_device_1 b ptr d zs))
     else scan_devices malloc b ds zs)"

definition zvm_devices_list_init :: "(nat \<Rightarrow> nat option) \<Rightarrow> zvm_board \<Rightarrow> zvm_state \<Rightarrow> (int \<times> zvm_state) outcome" where
  "zvm_devices_list_init malloc b zs =
    bind_outcome (scan_devices malloc b (host_devices b) (zs\<lparr>zvm_idle_list := [], zvm_used_list := []\<rparr>)) (\<lambda>zs. Done (0, zs))"

definition zvm_init :: "zvm_manage_info option \<Rightarrow> zvm_hwsys_info option \<Rightarrow> (nat \<Rightarrow> nat option) \<Rightarrow> zvm_board \<Rightarrow> zvm_state \<Rightarrow> (int \<times> zvm_state) outcome" where
  "zvm_init junk hw malloc b zs =
    (let ret = zvm_arch_init b
     in if ret \<noteq> 0 then Done (ret, zs)
        else case zvm_overall_init junk hw b zs of (ret, zs) \<Rightarrow>
          if ret \<noteq> 0 then Done (ret, zs) else zvm_devices_list_init malloc b zs)"

section \<open>Cache flags\<close>

text \<open>The boards for which the number of the own CPU is a field of MPIDR; \<^verbatim>\<open>pcpu_list\<close> is the array of flags.\<close>

datatype soc = SOC_QEMU | SOC_RK | SOC_S5000C

definition set_all_pcpu_cache_clean :: "u32 list \<Rightarrow> u32 list" where
  "set_all_pcpu_cache_clean l = map (\<lambda>_. 1) l"

definition set_pcpu_cache_clean :: "nat \<Rightarrow> u32 list \<Rightarrow> u32 list outcome" where
  "set_pcpu_cache_clean cpu l = (if cpu < length l then Done (l[cpu := 1]) else Fault)"

definition reset_pcpu_cache_clean :: "u64 \<Rightarrow> u32 list \<Rightarrow> u32 list outcome" where
  "reset_pcpu_cache_clean mpidr l = (let pcpu_id = unat (drop_bit 8 (mpidr AND 0xFFF)) in if pcpu_id < length l then Done (l[pcpu_id := 0]) else Fault)"

definition mpidr_cpu :: "soc \<Rightarrow> u64 \<Rightarrow> nat" where
  "mpidr_cpu soc mpidr = unat (case soc of
     SOC_QEMU \<Rightarrow> mpidr AND 0xF
   | SOC_RK \<Rightarrow> drop_bit 8 (mpidr AND 0xF00)
   | SOC_S5000C \<Rightarrow> drop_bit 16 (mpidr AND 0xF0000))"

definition get_pcpu_cache_clean :: "soc \<Rightarrow> u64 \<Rightarrow> u32 list \<Rightarrow> u32 outcome" where
  "get_pcpu_cache_clean soc mpidr l = (let pcpu_id = mpidr_cpu soc mpidr in if pcpu_id < length l then Done (l ! pcpu_id) else Fault)"

text \<open>The end of the interrupt handler: a CPU that is asked to clean its cache does so; the first result says whether.\<close>

definition ipi_cache_clean :: "soc \<Rightarrow> u64 \<Rightarrow> u32 list \<Rightarrow> (bool \<times> u32 list) outcome" where
  "ipi_cache_clean soc mpidr l =
    (if soc = SOC_QEMU then Done (False, l)
     else bind_outcome (get_pcpu_cache_clean soc mpidr l) (\<lambda>flag.
       if flag \<noteq> 0 then bind_outcome (reset_pcpu_cache_clean mpidr l) (\<lambda>l. Done (True, l)) else Done (False, l)))"

end
