(* ===== verification/Zvm_Init_Props.thy ===== *)
theory Zvm_Init_Props
  imports Zvm_Init
begin

text \<open>
  What holds after the start of the hypervisor: the invariants of the identifiers, the guest memory and the placement of
  vCPUs, with nothing in use, and an idle entry per device of the host that is ready. After an error nothing is set up that works.
\<close>

section \<open>Devices\<close>

definition vm_ready :: "host_device \<Rightarrow> bool" where
  "vm_ready d \<longleftrightarrow> init_res d = VM_DEVICE_INIT_RES"

lemma scan_devices_ok:
  assumes "\<forall>d\<in>set ds. vm_ready d \<longrightarrow> malloc (hd_id d) \<noteq> None"
  shows "scan_devices malloc b ds zs = Done (zs\<lparr>zvm_idle_list := zvm_idle_list zs
    @ map (\<lambda>d. idle_device b (the (malloc (hd_id d))) d) (filter vm_ready ds)\<rparr>)"
  using assms by (induction ds arbitrary: zs) (auto simp: vm_ready_def zvm_init_idle_device_1_def)

lemma scan_devices_fault:
  assumes "d \<in> set ds" "vm_ready d" "malloc (hd_id d) = None"
  shows "scan_devices malloc b ds zs = Fault"
  using assms by (induction ds arbitrary: zs) (auto simp: vm_ready_def split: option.split)

lemma idle_device_fields [simp]:
  "vm_vdev_paddr (idle_device b p d) = reg_base d" "vm_vdev_size (idle_device b p d) = reg_size d" "dev_hirq (idle_device b p d) = hirq_num d"
  "dev_vm (idle_device b p d) = None" "priv_data (idle_device b p d) = Some (Host_device (hd_id d))"
  by (simp_all add: idle_device_def Let_def split_beta)

text \<open>A device with a name of at least 32 characters is not passed through.\<close>

lemma long_name_not_passed_through:
  assumes "VIRT_DEV_NAME_LENGTH \<le> length (hd_name d)" "length (hd_name d) < 2 ^ 16"
  shows "\<not> dev_pt_flag (idle_device b p d)"
  using assms by (simp add: idle_device_def Let_def split_beta unat_of_nat_small)

lemma short_name_passed_through:
  assumes "length (hd_name d) < VIRT_DEV_NAME_LENGTH"
  shows "dev_pt_flag (idle_device b p d)" "dev_name (idle_device b p d) = hd_name d"
proof -
  have "unat (of_nat (length (hd_name d)) :: u16) = length (hd_name d)"
    using assms by (intro unat_of_nat_small) (simp add: VIRT_DEV_NAME_LENGTH_def)
  then show "dev_pt_flag (idle_device b p d)" "dev_name (idle_device b p d) = hd_name d"
    using assms by (simp_all add: idle_device_def Let_def split_beta)
qed

section \<open>The whole start\<close>

text \<open>The hardware is usable.\<close>

definition hyp_hardware :: "zvm_board \<Rightarrow> bool" where
  "hyp_hardware b \<longleftrightarrow> drop_bit 8 (id_aa64pfr0_el1 b) AND 0xf \<noteq> 0 \<and> drop_bit 2 (currentel b) AND 3 = 2 \<and> CONFIG_GIC_V3 b"

lemma zvm_arch_init_ok: "zvm_arch_init b = 0 \<longleftrightarrow> hyp_hardware b"
  by (simp add: zvm_arch_init_def is_basic_hardware_support_def is_el_implemented_def is_el2_vhe_supported_def GET_EL_def
      is_gicv3_device_support_def MODE_EL2_def hyp_hardware_def ESRCH_def ENODEV_def eq_commute[of "2 :: u64"])

text \<open>What the configuration of the board has to satisfy, and the static contents of the tables.\<close>

definition board_ok :: "zvm_board \<Rightarrow> zvm_manage_info \<Rightarrow> os_state \<Rightarrow> bool" where
  "board_ok b z s \<longleftrightarrow> 0 < RTOS_VM_LOAD_BASE b \<and> 0 < guest_memsize b \<and> unat (RTOS_VM_LOAD_BASE b) + unat (guest_memsize b) < 2 ^ 64
     \<and> CONFIG_MAX_VM_NUM z < 32 \<and> length (z_overall_vm_info s) = CONFIG_MAX_VM_NUM z
     \<and> 1 + max_guest_num_linux_pcpu (sched s) \<le> mp_max_num_cpus (sched s) \<and> mp_max_num_cpus (sched s) < 2 ^ 16
     \<and> max_vcpu_percpu (sched s) \<in> {1, 2} \<and> length (vcpu_use z) = mp_max_num_cpus (sched s)
     \<and> vcpu_pcpu_map (sched s) = replicate (mp_max_num_cpus (sched s)) []"

definition fresh_info :: "zvm_manage_info \<Rightarrow> zvm_hwsys_info \<Rightarrow> zvm_manage_info" where
  "fresh_info z h = z\<lparr>hw_info := h\<lparr>phy_mem_used := 0\<rparr>, vms := replicate (CONFIG_MAX_VM_NUM z) None, vcpu_use := replicate (length (vcpu_use z)) 0,
     alloced_vmid := 0, vm_total_num := 0\<rparr>"

definition fresh_os :: "zvm_board \<Rightarrow> zvm_manage_info \<Rightarrow> zvm_hwsys_info \<Rightarrow> os_state \<Rightarrow> os_state" where
  "fresh_os b z h s = (set_overall (fresh_info z h) s)\<lparr>guest_mem := guest_memory_manager_init (RTOS_VM_LOAD_BASE b) (guest_memsize b)\<rparr>"

lemma fresh_os_simps [simp]:
  "overall (fresh_os b z h s) = fresh_info z h" "guest_mem (fresh_os b z h s) = guest_memory_manager_init (RTOS_VM_LOAD_BASE b) (guest_memsize b)"
  "z_overall_vm_info (fresh_os b z h s) = z_overall_vm_info s" "sched (fresh_os b z h s) = (sched s)\<lparr>zvm_overall_info := fresh_info z h\<rparr>"
  by (simp_all add: fresh_os_def set_overall_def)

lemma zvm_overall_init_ok:
  "zvm_overall_init (Some z) (Some h) b zs = (0, zs\<lparr>info_ptr := Info_valid, zvm_os := fresh_os b z h (zvm_os zs)\<rparr>)"
  by (simp add: zvm_overall_init_def zvm_hwsys_info_init_def fresh_os_def fresh_info_def)

lemma fresh_info_inv: "CONFIG_MAX_VM_NUM z < 32 \<Longrightarrow> vmid_inv (fresh_info z h)" "vm_ids (fresh_info z h) = {}"
  by (simp_all add: vmid_inv_def vm_ids_def fresh_info_def)

lemma fresh_os_inv: "board_ok b z s \<Longrightarrow> os_inv (fresh_os b z h s)"
  by (simp add: os_inv_def board_ok_def fresh_info_inv guest_memory_manager_init_inv)
    (simp add: guest_memory_manager_init_def Let_def fresh_info_def)

lemma fresh_sched_inv: "board_ok b z s \<Longrightarrow> sched_inv (sched (fresh_os b z h s))" "board_ok b z s \<Longrightarrow> \<not> placed (sched (fresh_os b z h s)) v"
  by (simp_all add: board_ok_def sched_inv_def sched_cfg_def pcpu_ok_def placed_def fresh_info_def)

text \<open>
  C38: the start on usable hardware, when every allocation succeeds, returns 0 and sets up the whole state: the invariants of
  the identifiers, of the guest memory and of the placement of vCPUs hold, no identifier, no region and no CPU is in use,
  the guest memory is one free block, no device is handed out, and the idle devices are the ready devices of the host,
  in their order, with their registers and interrupts.
\<close>

theorem zvm_init_establishes:
  assumes "hyp_hardware b" "board_ok b z (zvm_os zs)" "\<forall>d\<in>set (host_devices b). vm_ready d \<longrightarrow> malloc (hd_id d) \<noteq> None"
  shows "\<exists>zs'. zvm_init (Some z) (Some h) malloc b zs = Done (0, zs') \<and> info_ptr zs' = Info_valid
    \<and> os_inv (zvm_os zs') \<and> sched_inv (sched (zvm_os zs'))
    \<and> vm_ids (overall (zvm_os zs')) = {} \<and> live_regions (guest_mem (zvm_os zs')) = {} \<and> (\<forall>v. \<not> placed (sched (zvm_os zs')) v)
    \<and> blocks (guest_mem (zvm_os zs')) = [zero_part\<lparr>start_addr := RTOS_VM_LOAD_BASE b, part_size := guest_memsize b\<rparr>]
    \<and> zvm_used_list zs' = []
    \<and> map (\<lambda>v. (priv_data v, vm_vdev_paddr v, vm_vdev_size v, dev_hirq v, dev_vm v)) (zvm_idle_list zs')
        = map (\<lambda>d. (Some (Host_device (hd_id d)), reg_base d, reg_size d, hirq_num d, None)) (filter vm_ready (host_devices b))"
proof -
  let ?zs = "zs\<lparr>info_ptr := Info_valid, zvm_os := fresh_os b z h (zvm_os zs),
    zvm_idle_list := map (\<lambda>d. idle_device b (the (malloc (hd_id d))) d) (filter vm_ready (host_devices b)), zvm_used_list := []\<rparr>"
  have "zvm_init (Some z) (Some h) malloc b zs = Done (0, ?zs)"
    using assms(1) scan_devices_ok[OF assms(3)]
    by (simp add: zvm_init_def zvm_arch_init_ok zvm_overall_init_ok zvm_devices_list_init_def)
  moreover have "live_regions (guest_mem (fresh_os b z h (zvm_os zs))) = {}"
    using assms(2) by (simp add: board_ok_def guest_memory_manager_init_inv)
  ultimately show ?thesis
    using fresh_os_inv[OF assms(2)] fresh_sched_inv[OF assms(2)] by (simp add: fresh_info_inv blocks_init)
qed

definition boot_board :: zvm_board where
  "boot_board = \<lparr>id_aa64pfr0_el1 = 0x1100, currentel = 8, CONFIG_GIC_V3 = True,
     host_devices = [\<lparr>hd_id = 0, hd_name = ''GIC'', init_res = 0, device_type = ''irq'', reg_base = 0x8000000, reg_size = 0x1000, hirq_num = 0\<rparr>,
       \<lparr>hd_id = 1, hd_name = ''UART1'', init_res = 0xFF, device_type = ''serial'', reg_base = 0x9000000, reg_size = 0x1000, hirq_num = 33\<rparr>],
     RTOS_VM_LOAD_BASE = 0x48000000, zshm_reg_addr = Some 0x60000000, CONFIG_DEFAULT_TOTAL_GUEST_MEMSIZE = 0x10000000,
     VM_DEBUG_CONSOLE_BASE = 0xb000000, VM_DEBUG_CONSOLE_IRQ = 42, vm_blk = None, vm_net = None\<rparr>"

definition boot_state :: zvm_state where
  "boot_state = \<lparr>info_ptr = Info_null, zvm_os = os_new, zvm_idle_list = [], zvm_used_list = []\<rparr>"

lemma boot_facts: "hyp_hardware boot_board" "board_ok boot_board zvm_info_3 (zvm_os boot_state)"
  by (simp_all add: hyp_hardware_def boot_board_def board_ok_def guest_memsize_def boot_state_def os_new_def sched_4_def zvm_info_3_def drop_bit_eq_div)

theorem zvm_init_establishes_witness:
  "hyp_hardware boot_board \<and> (\<exists>zs'. zvm_init (Some zvm_info_3) (Some (hw_info zvm_info_3)) Some boot_board boot_state = Done (0, zs')
    \<and> os_inv (zvm_os zs') \<and> map vm_vdev_paddr (zvm_idle_list zs') = [0x9000000])"
proof -
  have m: "\<forall>d\<in>set (host_devices boot_board). vm_ready d \<longrightarrow> Some (hd_id d) \<noteq> None" by simp
  from zvm_init_establishes[OF boot_facts m, of "hw_info zvm_info_3"] obtain zs' where
    zs: "zvm_init (Some zvm_info_3) (Some (hw_info zvm_info_3)) Some boot_board boot_state = Done (0, zs')" "os_inv (zvm_os zs')"
    and d: "map (\<lambda>v. (priv_data v, vm_vdev_paddr v, vm_vdev_size v, dev_hirq v, dev_vm v)) (zvm_idle_list zs')
        = map (\<lambda>d. (Some (Host_device (hd_id d)), reg_base d, reg_size d, hirq_num d, None)) (filter vm_ready (host_devices boot_board))" by (elim exE conjE) (rule that)
  from arg_cong[OF d, of "map (\<lambda>(_, p, _). p)"] have "map vm_vdev_paddr (zvm_idle_list zs') = [0x9000000]"
    by (simp add: boot_board_def vm_ready_def VM_DEVICE_INIT_RES_def comp_def)
  with zs show ?thesis by (intro conjI exI[of _ zs'] boot_facts(1))
qed

text \<open>The errors: hardware, interrupt controller, the two blocks of the manager. A block that fails later leaves the pointer to a freed record.\<close>

lemma zvm_init_no_hardware:
  "\<not> is_basic_hardware_support b \<Longrightarrow> zvm_init junk hw malloc b zs = Done (- ESRCH, zs)"
  "is_basic_hardware_support b \<Longrightarrow> \<not> CONFIG_GIC_V3 b \<Longrightarrow> zvm_init junk hw malloc b zs = Done (- ENODEV, zs)"
  by (simp_all add: zvm_init_def zvm_arch_init_def is_gicv3_device_support_def ESRCH_def ENODEV_def)

lemma zvm_init_no_memory:
  assumes "hyp_hardware b"
  shows "zvm_init None hw malloc b zs = Done (- ENOMEM, zs\<lparr>info_ptr := Info_null\<rparr>)"
    "zvm_init (Some z) None malloc b zs = Done (- ENOMEM, zs\<lparr>info_ptr := Info_freed\<rparr>)"
    "d \<in> set (host_devices b) \<Longrightarrow> vm_ready d \<Longrightarrow> malloc (hd_id d) = None \<Longrightarrow> zvm_init (Some z) (Some h) malloc b zs = Fault"
proof -
  have "zvm_arch_init b = 0" using assms by (simp add: zvm_arch_init_ok)
  then show "zvm_init None hw malloc b zs = Done (- ENOMEM, zs\<lparr>info_ptr := Info_null\<rparr>)"
    "zvm_init (Some z) None malloc b zs = Done (- ENOMEM, zs\<lparr>info_ptr := Info_freed\<rparr>)"
    "d \<in> set (host_devices b) \<Longrightarrow> vm_ready d \<Longrightarrow> malloc (hd_id d) = None \<Longrightarrow> zvm_init (Some z) (Some h) malloc b zs = Fault"
    by (simp_all add: zvm_init_def zvm_overall_init_def zvm_hwsys_info_init_def zvm_devices_list_init_def scan_devices_fault ENOMEM_def)
qed

section \<open>Cache flags\<close>

text \<open>On the boards with the CPU number in bits 8 to 11 a request is seen once.\<close>

lemma mpidr_field: "(mpidr :: u64) AND 0xFFF = (mpidr AND 0xF00) OR (mpidr AND 0xFF)"
  by (simp flip: bit.conj_disj_distrib)

lemma rk_same_cpu: "unat (drop_bit 8 (mpidr AND 0xFFF)) = mpidr_cpu SOC_RK mpidr"
proof -
  have "drop_bit 8 (mpidr AND 0xFF) = 0" by (rule bit_word_eqI) (simp add: bit_simps bit_numeral_rec)
  then show ?thesis by (simp add: mpidr_field drop_bit_or mpidr_cpu_def)
qed

lemma reset_rk:
  "reset_pcpu_cache_clean mpidr l = (if mpidr_cpu SOC_RK mpidr < length l then Done (l[mpidr_cpu SOC_RK mpidr := 0]) else Fault)"
  unfolding reset_pcpu_cache_clean_def rk_same_cpu Let_def ..

lemma rk_cache_clean_once:
  assumes "mpidr_cpu SOC_RK mpidr < length l" "set_pcpu_cache_clean (mpidr_cpu SOC_RK mpidr) l = Done l1"
  shows "\<exists>l2. ipi_cache_clean SOC_RK mpidr l1 = Done (True, l2) \<and> ipi_cache_clean SOC_RK mpidr l2 = Done (False, l2)"
  using assms by (auto simp: set_pcpu_cache_clean_def ipi_cache_clean_def get_pcpu_cache_clean_def reset_rk Let_def)

text \<open>On the S5000C the number is in bits 16 to 19, but the flag of another CPU is cleared: the request is never done.\<close>

lemma s5000c_cache_clean_forever:
  assumes "mpidr_cpu SOC_S5000C mpidr < length l" "mpidr AND 0xFFF = 0" "mpidr_cpu SOC_S5000C mpidr \<noteq> 0" "l ! mpidr_cpu SOC_S5000C mpidr \<noteq> 0"
  shows "\<exists>l'. ipi_cache_clean SOC_S5000C mpidr l = Done (True, l') \<and> l' ! mpidr_cpu SOC_S5000C mpidr \<noteq> 0"
  using assms by (auto simp: ipi_cache_clean_def get_pcpu_cache_clean_def reset_pcpu_cache_clean_def Let_def)

end
