(* ===== verification/Zvm_System.thy ===== *)
theory Zvm_System
  imports Zvm_Init_Props Vm_Cmd_Props Vcpu_Context
begin

text \<open>
  The hypervisor as a whole: the commands of the shell on all VMs, with the creation and the deletion put together from the parts of the
  other theories, and the steps of the system after its start.

  What the hypervisor does not determine is the record \<^verbatim>\<open>choices\<close>: the results of k_malloc, the contents of freed memory, the
  number of list registers, and the VM after the threads of its vCPUs went on while a command waits.
\<close>

section \<open>State\<close>

text \<open>A VM: what the creation sets up, and what changes in its life.\<close>

record guest_vm =
  g_inst :: vm_inst
  g_life :: z_vm

record zvm_world =
  guests :: "nat \<Rightarrow> guest_vm option"
  host_cpu :: cpu

record choices =
  m_struct :: bool
  m_vm :: "nat \<Rightarrow> bool"
  m_vcpu :: "nat \<Rightarrow> nat \<Rightarrow> bool"
  vm_ptr :: nat
  vcpu_ptr :: "nat \<Rightarrow> nat"
  arch_ret :: "nat \<Rightarrow> int"
  max_parts :: nat
  dtb_file :: bool
  vm_tables :: s2_tables
  list_regs :: nat
  devices_init :: "vm_inst \<Rightarrow> vm_mem_domain \<Rightarrow> (int \<times> vm_mem_domain) outcome"
  devices_deinit :: "vm_inst \<Rightarrow> int outcome"
  freed_vmid :: u16
  waiting :: "z_vm \<Rightarrow> z_vm"

section \<open>Creating a VM\<close>

text \<open>The devices of a VM change its memory domain only.\<close>

definition on_domain :: "(vm_inst \<Rightarrow> vm_mem_domain \<Rightarrow> (int \<times> vm_mem_domain) outcome) \<Rightarrow> vm_inst \<Rightarrow> (int \<times> vm_inst) outcome" where
  "on_domain f vm = (case in_mem vm of
     None \<Rightarrow> Fault
   | Some d \<Rightarrow> bind_outcome (f vm d) (\<lambda>(ret, d). Done (ret, vm\<lparr>in_mem := Some d\<rparr>)))"

definition sys_create :: "choices \<Rightarrow> zvm_world vm_op" where
  "sys_create e vm sw = (case (vm, sw) of
     (Some (New_VM i), s, w) \<Rightarrow>
       bind_outcome (z_create_guest (m_vm e) (m_vcpu e) (vcpu_ptr e) (arch_ret e) (max_parts e) (dtb_file e) (vm_tables e) (list_regs e)
           (on_domain (devices_init e)) (blank_vm (vm_ptr e) i) s)
         (\<lambda>(ret, vm, s). Done (ret, s, w\<lparr>guests := (guests w)(vm_ptr e \<mapsto> \<lparr>g_inst = vm, g_life = vm_of vm\<rparr>)\<rparr>))
   | _ \<Rightarrow> Fault)"

section \<open>Deleting a VM\<close>

text \<open>The registers of a vCPU and its interrupt context are given back with its structure. The timer of the CPU that runs the command is stopped.\<close>

definition arch_vcpu_deinit :: "nat \<Rightarrow> os_state \<times> cpu \<Rightarrow> (int \<times> os_state \<times> cpu) outcome" where
  "arch_vcpu_deinit vcpu sc = (case sc of (s, c) \<Rightarrow> (case arch_vcpu_timer_deinit c of (ret, c) \<Rightarrow>
     if ret \<noteq> 0 then Done (ret, s, c)
     else bind_outcome (release_vcpu vcpu (sched s)) (\<lambda>sch. Done (ret, s\<lparr>sched := sch\<rparr>, c))))"

text \<open>A vCPU that fails is kept; else its thread is aborted and all of it freed.\<close>

definition vm_vcpu_deinit :: "nat \<Rightarrow> os_state \<times> cpu \<Rightarrow> (int \<times> os_state \<times> cpu) outcome" where
  "vm_vcpu_deinit vcpu sc = arch_vcpu_deinit vcpu sc"

text \<open>
  The parts of \<^verbatim>\<open>vm_delete\<close>, in the order in which it calls them. Errors of a part are only reported. The table of VMs and the identifier,
  which \<^verbatim>\<open>z_delete_guest\<close> changes, are written by none of them.
\<close>

definition delete_part :: "choices \<Rightarrow> vm_inst \<Rightarrow> event \<Rightarrow> os_state \<times> cpu \<Rightarrow> (os_state \<times> cpu) outcome" where
  "delete_part e vm ev sc = (case ev of
     Device_deinit \<Rightarrow> bind_outcome (devices_deinit e vm) (\<lambda>_. Done sc)
   | Mem_apart_remove \<Rightarrow> (case (in_os vm, in_mem vm, sc) of
       (Some os, Some d, s, c) \<Rightarrow> bind_outcome (vm_mem_apart_remove (os_mem_info.truncate (os_info os)) d (guest_mem s))
         (\<lambda>(_, _, mm). Done (s\<lparr>guest_mem := mm\<rparr>, c))
     | _ \<Rightarrow> Fault)
   | Vcpu_deinit i \<Rightarrow>
       if \<not> i < length (in_vcpus vm) then Fault
       else (case in_vcpus vm ! i of None \<Rightarrow> Fault | Some (h, _) \<Rightarrow> bind_outcome (vm_vcpu_deinit h sc) (\<lambda>(_, sc). Done sc))
   | _ \<Rightarrow> Done sc)"

fun delete_parts :: "choices \<Rightarrow> vm_inst \<Rightarrow> event list \<Rightarrow> os_state \<times> cpu \<Rightarrow> (os_state \<times> cpu) outcome" where
  "delete_parts e vm [] sc = Done sc"
| "delete_parts e vm (ev # evs) sc = bind_outcome (delete_part e vm ev sc) (delete_parts e vm evs)"

definition sys_delete :: "choices \<Rightarrow> zvm_world vm_op" where
  "sys_delete e vm sw = (case (vm, sw) of
     (Some (Old_VM h), s, w) \<Rightarrow> (case guests w h of
       None \<Rightarrow> Fault
     | Some g \<Rightarrow> bind_outcome (z_delete_guest (freed_vmid e) (waiting e) (g_life g) (overall s)) (\<lambda>(ret, evs, z).
         bind_outcome (delete_parts e (g_inst g) evs (set_overall z s, host_cpu w)) (\<lambda>(s, c).
           Done (ret, s, w\<lparr>guests := if ret = 0 then (guests w)(h := None) else guests w, host_cpu := c\<rparr>))))
   | _ \<Rightarrow> Fault)"

section \<open>The other commands\<close>

definition on_guest :: "(z_vm \<Rightarrow> (int \<times> z_vm) outcome) \<Rightarrow> zvm_world vm_op" where
  "on_guest f vm sw = (case (vm, sw) of
     (Some (Old_VM h), s, w) \<Rightarrow> (case guests w h of
       None \<Rightarrow> Fault
     | Some g \<Rightarrow> bind_outcome (f (g_life g)) (\<lambda>(ret, v). Done (ret, s, w\<lparr>guests := (guests w)(h \<mapsto> g\<lparr>g_life := v\<rparr>)\<rparr>)))
   | _ \<Rightarrow> Fault)"

definition sys_ops :: "choices \<Rightarrow> zvm_world zvm_ops" where
  "sys_ops e = \<lparr>op_create = sys_create e, op_run = on_guest z_run_guest, op_pause = on_guest z_pause_guest,
     op_shutdown = on_guest (\<lambda>v. Done (z_shutdown_guest v, v)), op_reboot = on_guest (\<lambda>v. Done (z_reboot_guest v, v)),
     op_delete = sys_delete e, op_info = (\<lambda>vm (s, w). Done (0, s, w))\<rparr>"

definition zvm_command :: "choices \<Rightarrow> string list \<Rightarrow> os_state \<times> zvm_world \<Rightarrow> (int \<times> os_state \<times> zvm_world) outcome" where
  "zvm_command e argv sw = zvm_shell (sys_ops e) (m_struct e) argv sw"

section \<open>Steps\<close>

text \<open>
  A request for a new VM goes well with the guest memory when a block is found for it. When there is none, the address that the entry of
  its identifier still holds must not be in use, since it is freed.
\<close>

definition memory_ok :: "string list \<Rightarrow> os_state \<Rightarrow> bool" where
  "memory_ok argv s = (case create_loop s argv getopt_init no_opts of
     Done (Inr co) \<Rightarrow>
       let sz = ucast (requested (guest_os co) (special_mem co) s);
           old = vm_load_base (z_overall_vm_info s ! unat (fst (allocate_vmid (overall s))))
       in allocate_guest_memory_part_check sz (guest_mem s)
          \<or> first_fit sz (guest_mem s) = None \<and> list_all (\<lambda>b. is_allocated b \<longrightarrow> start_addr b \<noteq> old) (blocks (guest_mem s))
   | _ \<Rightarrow> True)"

text \<open>The system goes on by a command, whose new structure is at an address that is not in use, or by a step of a VM.\<close>

inductive sys_step :: "os_state \<times> zvm_world \<Rightarrow> os_state \<times> zvm_world \<Rightarrow> bool" where
  sys_command: "\<lbrakk>zvm_command e argv (s, w) = Done (ret, s', w'); guests w (vm_ptr e) = None; memory_ok argv s\<rbrakk> \<Longrightarrow> sys_step (s, w) (s', w')"
| sys_vm: "\<lbrakk>guests w h = Some g; vm_step (g_life g) v\<rbrakk> \<Longrightarrow> sys_step (s, w) (s, w\<lparr>guests := (guests w)(h \<mapsto> g\<lparr>g_life := v\<rparr>)\<rparr>)"

inductive_cases sys_stepE: "sys_step (s, w) (s', w')"

definition no_guests :: "cpu \<Rightarrow> zvm_world" where
  "no_guests c = \<lparr>guests = (\<lambda>_. None), host_cpu = c\<rparr>"

end
