(* ===== verification/Zvm_System_Props.thy ===== *)
theory Zvm_System_Props
  imports Zvm_System
begin

text \<open>
  The isolation of VMs over the whole life of the system: whatever commands are given and however the VMs run in between, the memory of every VM
  is a region that the guest memory has handed out, and no two VMs have memory in common.
\<close>

section \<open>Regions\<close>

lemma live_pairwise:
  assumes "gm_inv mm"
  shows "pairwise region_disjoint (live_regions mm)"
proof (rule pairwiseI)
  fix r r' assume r: "r \<in> live_regions mm" "r' \<in> live_regions mm" "r \<noteq> r'"
  then obtain b x where b: "b \<in> set (blocks mm)" "r' = part_region b" "x \<in> set (blocks mm)" "r = part_region x" by (auto simp: live_regions_def)
  obtain xs ys where s: "blocks mm = xs @ b # ys" using b(1) by (auto dest: split_list)
  then have "x \<in> set xs \<union> set ys" using b r(3) by auto
  moreover have "tiles (unat (base_addr mm)) (xs @ b # ys) (gm_end mm)" using assms s by (simp add: gm_inv_def)
  ultimately show "region_disjoint r r'" using tiles_disjoint[of _ xs b ys _ x "part_size b" "part_os_type b"] b by (simp add: part_region_def)
qed

lemma same_start:
  assumes "gm_inv mm" "(a, n, x) \<in> live_regions mm" "(a, m, y) \<in> live_regions mm"
  shows "(n, x) = (m, y)"
proof (rule ccontr)
  assume "(n, x) \<noteq> (m, y)"
  then have "region_disjoint (a, n, x) (a, m, y)" using live_pairwise[OF assms(1)] assms(2,3) unfolding pairwise_def by blast
  from disjoint_start[OF this live_size[OF assms(1,2)] live_size[OF assms(1,3)]] show False by simp
qed

text \<open>The memory that a configuration names.\<close>

definition vm_region :: "z_os_info \<Rightarrow> u64 \<times> u64 \<times> u16" where
  "vm_region i = (vm_load_base i, vm_mem_size i, os_type i)"

section \<open>Configuration\<close>

lemma config_fail_template [simp]: "guest_os_template (snd (config_fail i s)) = guest_os_template s"
  by (simp add: config_fail_def Let_def set_info_def)

lemma config_template:
  assumes "get_os_template_type g sc sm s = Done (ret, s')"
  shows "guest_os_template s' = guest_os_template s"
proof -
  have "guest_os_template (snd (config_guest i g sc mem s)) = guest_os_template s" for i mem s
    by (rule config_guest_cases[of i g sc mem s]) (simp_all add: set_info_def)
  then show ?thesis using assms
    by (auto simp: get_os_template_type_def Let_def set_info_def split: prod.splits if_splits
        dest!: arg_cong[of "config_fail _ _" _ "\<lambda>x. guest_os_template (snd x)"] arg_cong[of "config_guest _ _ _ _ _" _ "\<lambda>x. guest_os_template (snd x)"])
qed

text \<open>The managed memory is the same.\<close>

definition bounds_of :: "GuestMemoryManager \<Rightarrow> u64 \<times> u64" where
  "bounds_of mm = (base_addr mm, total_memory mm)"

lemma allocate_keeps_bounds: "allocate_guest_memory_part os sz mm = (a, mm') \<Longrightarrow> bounds_of mm' = bounds_of mm"
  by (auto simp: allocate_guest_memory_part_def Let_def bounds_of_def split: option.splits if_splits)

lemma free_keeps_bounds [simp]: "bounds_of (free_guest_memory_part a mm) = bounds_of mm"
  by (auto simp: free_guest_memory_part_def merge_next_def merge_prev_def Let_def bounds_of_def split: option.splits)

lemma config_bounds:
  assumes "get_os_template_type g sc sm s = Done (ret, s')"
  shows "bounds_of (guest_mem s') = bounds_of (guest_mem s)"
proof -
  have fail: "bounds_of (guest_mem (snd (config_fail i s))) = bounds_of (guest_mem s)" for i s
    by (simp add: config_fail_def Let_def)
  have guest: "bounds_of (guest_mem (snd (config_guest i g sc mem s))) = bounds_of (guest_mem s)" for i mem s
    by (rule config_guest_cases[of i g sc mem s]) (simp_all add: fail)
  show ?thesis using assms
    by (auto simp: get_os_template_type_def Let_def fail guest split: prod.splits if_splits
        dest!: allocate_keeps_bounds arg_cong[of "config_fail _ _" _ "\<lambda>x. bounds_of (guest_mem (snd x))"]
          arg_cong[of "config_guest _ _ _ _ _" _ "\<lambda>x. bounds_of (guest_mem (snd x))"])
qed

text \<open>The new entry names what was requested.\<close>

lemma config_entry:
  assumes "os_inv s" "vm_ids (overall s) \<noteq> vmid_universe (overall s)" "unat (os_type g) < length (guest_os_template s)"
    "0 < requested g sm s" "allocate_guest_memory_part_check (ucast (requested g sm s)) (guest_mem s)"
    "get_os_template_type g sc sm s = Done (ret, s')" "0 \<le> ret"
  shows "vm_mem_size (z_overall_vm_info s' ! nat ret) = ucast (requested g sm s)
    \<and> os_type (z_overall_vm_info s' ! nat ret) = os_type (guest_os_template s ! unat (os_type g)) \<and> nat ret < CONFIG_MAX_VM_NUM (overall s)"
proof -
  define i where "i = unat (fst (allocate_vmid (overall s)))"
  from config_start[OF assms(1-5), of sc, folded i_def] obtain s1 where
    s1: "get_os_template_type g sc sm s = Done (config_guest i g sc (requested g sm s) s1)" "os_inv s1"
      "i < CONFIG_MAX_VM_NUM (overall s)" "CONFIG_MAX_VM_NUM (overall s1) = CONFIG_MAX_VM_NUM (overall s)"
      "os_type (z_overall_vm_info s1 ! i) = os_type (guest_os_template s ! unat (os_type g))" by blast
  have "i < length (z_overall_vm_info s1)" using s1(2-4) by (simp add: os_inv_def)
  moreover have "config_fail i s1 \<noteq> (ret, s')" using config_fail_state(1)[OF s1(2), of i] s1(3,4) assms(7) by (auto simp: EINVAL_def)
  ultimately show ?thesis using s1(1,3,5) assms(6)
    by (cases rule: config_guest_cases[of i g sc "requested g sm s" s1]) (auto simp: set_info_def)
qed

text \<open>Every outcome of a request: regions in use stay in use, and a new VM gets a region of its own.\<close>

lemma config_keeps:
  assumes "os_inv s" and pos: "unat (os_type g) < length (guest_os_template s) \<Longrightarrow> 0 < requested g sm s"
    and "get_os_template_type g sc sm s = Done (ret, s')"
    and mem: "allocate_guest_memory_part_check (ucast (requested g sm s)) (guest_mem s)
      \<or> first_fit (ucast (requested g sm s)) (guest_mem s) = None
        \<and> (\<forall>r\<in>live_regions (guest_mem s). fst r \<noteq> vm_load_base (z_overall_vm_info s ! unat (fst (allocate_vmid (overall s)))))"
  shows "os_inv s' \<and> live_regions (guest_mem s) \<subseteq> live_regions (guest_mem s')
    \<and> (0 \<le> ret \<longrightarrow> nat ret < CONFIG_MAX_VM_NUM (overall s)
        \<and> vm_region (z_overall_vm_info s' ! nat ret) \<in> live_regions (guest_mem s') - live_regions (guest_mem s))"
proof (cases "vm_ids (overall s) = vmid_universe (overall s)")
  case True
  obtain i z where "allocate_vmid (overall s) = (i, z)" by force
  moreover from vmid_inv_full[OF _ True this] assms(1) have "unat i = CONFIG_MAX_VM_NUM (overall s)" "z = overall s" by (auto simp: os_inv_def)
  ultimately have "ret = - EOVERFLOW" "s' = set_overall (overall s) s" using assms(3) by (auto simp: get_os_template_type_def Let_def)
  then show ?thesis using assms(1) by (simp add: os_inv_def EOVERFLOW_def)
next
  case False
  have ty: "unat (os_type g) < length (guest_os_template s)"
  proof (rule ccontr)
    assume "\<not> ?thesis"
    moreover obtain i z where a: "allocate_vmid (overall s) = (i, z)" by force
    moreover have "unat i < CONFIG_MAX_VM_NUM z"
      using vmid_pool.acquire_some[OF _ False a] allocate_vmid_vms[OF a] assms(1) by (auto simp: os_inv_def vmid_universe_def)
    ultimately show False using assms(3) by (simp add: get_os_template_type_def set_overall_def)
  qed
  show ?thesis
  proof (cases "allocate_guest_memory_part_check (ucast (requested g sm s)) (guest_mem s)")
    case True
    note pre = assms(1) False ty pos[OF ty] True
    note out = config_outcome[OF pre, of sc]
    show ?thesis
    proof (cases "0 \<le> ret")
      case True
      define r where "r = vm_region (z_overall_vm_info s' ! nat ret)"
      have e: "r = (vm_load_base (z_overall_vm_info s' ! nat ret), ucast (requested g sm s), os_type (guest_os_template s ! unat (os_type g)))"
        "nat ret < CONFIG_MAX_VM_NUM (overall s)" using config_entry[OF pre assms(3) True] by (simp_all add: r_def vm_region_def)
      have "os_inv s'" "live_regions (guest_mem s') = insert r (live_regions (guest_mem s))" "\<forall>x\<in>live_regions (guest_mem s). region_disjoint x r"
        using out assms(3) True by (simp_all add: e(1))
      moreover have "\<not> region_disjoint r r" using pos[OF ty] by (simp add: e(1) unat_ucast_32_64 word_less_nat_alt)
      ultimately show ?thesis using e(2) by (fold r_def) blast
    qed (use out assms(3) in auto)
  next
    case nocheck: False
    with mem failed_config_frees_stale_region[OF assms(1) False ty, of sm sc] assms(3) show ?thesis by (auto simp: EINVAL_def)
  qed
qed

section \<open>What the creation keeps\<close>

text \<open>Memory, configurations and identifiers are the same; the table of VMs and the placement of vCPUs may differ.\<close>

definition same_books :: "os_state \<Rightarrow> os_state \<Rightarrow> bool" where
  "same_books s s' \<longleftrightarrow> guest_mem s' = guest_mem s \<and> z_overall_vm_info s' = z_overall_vm_info s \<and> guest_os_template s' = guest_os_template s
     \<and> alloced_vmid (overall s') = alloced_vmid (overall s) \<and> vm_total_num (overall s') = vm_total_num (overall s)
     \<and> CONFIG_MAX_VM_NUM (overall s') = CONFIG_MAX_VM_NUM (overall s)"

lemma same_books_refl [simp]: "same_books s s"
  by (simp add: same_books_def)

lemma same_books_trans: "same_books s t \<Longrightarrow> same_books t u \<Longrightarrow> same_books s u"
  by (simp add: same_books_def)

lemma same_books_inv: "same_books s s' \<Longrightarrow> os_inv s \<Longrightarrow> os_inv s'"
  by (simp add: same_books_def os_inv_def vmid_inv_def vm_ids_def vmid_universe_def)

lemma vm_vcpu_init_books: "vm_vcpu_init m h a vm s = Done (r, s') \<Longrightarrow> same_books s s'"
  by (auto simp: vm_vcpu_init_def pre_alloc_vcpu_single_def add_vcpu_to_pcpu_def set_use_def same_books_def Let_def
      split: option.splits if_splits)

lemma init_vcpus_books:
  "init_vcpus m h a is vm s = Done (ret, vm', s') \<Longrightarrow> same_books s s' \<and> in_os vm' = in_os vm"
proof (induction "is" arbitrary: vm s)
  case (Cons i "is")
  from Cons.prems obtain r s1 where r: "vm_vcpu_init (m i) (h i) (a i) vm s = Done (r, s1)" by auto
  note b = vm_vcpu_init_books[OF r]
  show ?case
  proof (cases r)
    case None
    then show ?thesis using Cons.prems r b by auto
  next
    case (Some v)
    then show ?thesis using Cons.prems r b Cons.IH same_books_trans by fastforce
  qed
qed simp

lemma vm_vcpus_init_books: "vm_vcpus_init m h a vm s = Done (ret, vm', s') \<Longrightarrow> same_books s s' \<and> in_os vm' = in_os vm"
  by (auto simp: vm_vcpus_init_def split: if_splits dest!: init_vcpus_books)

lemma vm_os_create_info: "vm_os_create b i s = Done (ret, Some os) \<Longrightarrow> os_info os = z_overall_vm_info s ! i"
  by (auto simp: vm_os_create_def Let_def split: if_splits)

lemma on_done_bindI: "(\<And>x. r = Done x \<Longrightarrow> on_done (f x) P) \<Longrightarrow> on_done (bind_outcome r f) P"
  by (cases r) auto

lemma vm_create_books:
  assumes "vm_create m parts dtb st vm s = Done (ret, vm', s')" "in_os vm = None"
  shows "same_books s s' \<and> (\<forall>os. in_os vm' = Some os \<longrightarrow> os_info os = z_overall_vm_info s ! in_vmid vm)"
proof -
  have "on_done (vm_create m parts dtb st vm s) (\<lambda>(ret, vm', s'). same_books s s' \<and> (\<forall>os. in_os vm' = Some os \<longrightarrow> os_info os = z_overall_vm_info s ! in_vmid vm))"
    unfolding vm_create_def Let_def
    by (auto intro!: on_done_bindI simp del: bind_outcome_Done_iff simp: assms(2) same_books_def set_rtos_def set_overall_def vm_vcpus_create_def
        dest!: vm_os_create_info split: option.split)
  from on_doneD[OF this assms(1)] show ?thesis by simp
qed

lemma on_domain_os: "on_domain f vm = Done (ret, vm') \<Longrightarrow> in_os vm' = in_os vm"
  by (auto simp: on_domain_def split: option.splits)

lemma vm_mem_init_os: "vm_mem_init vm = Done (ret, vm') \<Longrightarrow> in_os vm' = in_os vm"
  by (auto simp: vm_mem_init_def split: option.splits)

lemma z_create_guest_books:
  assumes "z_create_guest m mv h a parts dtb st lr (on_domain f) vm s = Done (ret, vm', s')" "in_os vm = None"
  shows "same_books s s' \<and> (\<forall>os. in_os vm' = Some os \<longrightarrow> os_info os = z_overall_vm_info s ! in_vmid vm)"
proof -
  from assms(1) obtain r1 vm1 s1 where c: "vm_create m parts dtb st vm s = Done (r1, vm1, s1)"
    by (auto simp: z_create_guest_def)
  note c1 = vm_create_books[OF this assms(2)]
  have "same_books s1 s' \<and> in_os vm' = in_os vm1"
    using assms(1) c by (auto simp: z_create_guest_def split: if_splits dest!: vm_vcpus_init_books on_domain_os vm_mem_init_os)
  then show ?thesis using c1 same_books_trans by metis
qed

section \<open>What the deletion keeps\<close>

lemma release_vcpu_books: "release_vcpu v sc = Done sc' \<Longrightarrow> same_books (s\<lparr>sched := sc\<rparr>) (s\<lparr>sched := sc'\<rparr>)"
  by (auto simp: release_vcpu_def remove_vcpu_from_pcpu_def set_use_def same_books_def split: if_splits)

lemma vm_vcpu_deinit_books:
  assumes "vm_vcpu_deinit v (s, c) = Done (ret, s', c')"
  shows "same_books s s'"
  using assms release_vcpu_books[of v "sched s" _ s]
  by (auto simp: vm_vcpu_deinit_def arch_vcpu_deinit_def split: prod.splits if_splits)

lemma deinit_vcpus_books:
  "delete_parts e vm (map Vcpu_deinit is) (s, c) = Done (s', c') \<Longrightarrow> same_books s s'"
proof (induction "is" arbitrary: s c)
  case (Cons i "is")
  from Cons.prems obtain h v ret s1 c1 where d: "vm_vcpu_deinit h (s, c) = Done (ret, s1, c1)" "delete_parts e vm (map Vcpu_deinit is) (s1, c1) = Done (s', c')"
    by (auto simp: delete_part_def split: if_splits option.splits)
  from same_books_trans[OF vm_vcpu_deinit_books[OF d(1)] Cons.IH[OF d(2)]] show ?case .
qed simp

text \<open>All parts: the memory of the VM is given back, everything else stays.\<close>

lemma delete_parts_books:
  assumes "delete_parts e vm ([Device_deinit, Mem_apart_remove] @ map Vcpu_deinit is) (s, c) = Done (s', c')"
  obtains os where "in_os vm = Some os"
    "same_books (s\<lparr>guest_mem := free_guest_memory_part (vm_load_base (os_info os)) (guest_mem s)\<rparr>) s'"
proof -
  obtain os where os: "in_os vm = Some os" using assms by (auto simp: delete_part_def split: option.splits)
  have "\<exists>s1. delete_part e vm Mem_apart_remove (s, c) = Done (s1, c) \<and> delete_parts e vm (map Vcpu_deinit is) (s1, c) = Done (s', c')"
    using assms os by (auto simp: delete_part_def split: option.splits)
  then obtain s1 where s1: "delete_part e vm Mem_apart_remove (s, c) = Done (s1, c)" "delete_parts e vm (map Vcpu_deinit is) (s1, c) = Done (s', c')" by blast
  have "vm_load_base (os_mem_info.truncate (os_info os)) = vm_load_base (os_info os)" by (simp add: os_mem_info.truncate_def)
  then have "s1 = s\<lparr>guest_mem := free_guest_memory_part (vm_load_base (os_info os)) (guest_mem s)\<rparr>"
    using s1(1) os by (auto simp: delete_part_def vm_mem_apart_remove_def split: option.splits)
  with os deinit_vcpus_books[OF s1(2)] that show thesis by blast
qed

definition removal_parts :: "nat \<Rightarrow> event list" where
  "removal_parts n = [Device_deinit, Mem_apart_remove] @ map Vcpu_deinit [0..<n]"

lemma vm_delete_result:
  "vm_delete stale v z = Done (ret, evs, z') \<Longrightarrow> \<exists>n k. evs = removal_parts n \<and> z' = snd (free_vmid (ucast stale) (z\<lparr>vms := (vms z)[k := None]\<rparr>))"
  by (auto simp: vm_delete_def removal_parts_def Let_def split: if_splits prod.splits intro: exI[of _ "unat (vm_vmid v)"])

lemma z_delete_guest_result:
  assumes "z_delete_guest stale wait v z = Done (ret, evs, z')"
  shows "ret \<noteq> 0 \<and> evs = [] \<and> z' = z
    \<or> ret = 0 \<and> (\<exists>n k. evs = removal_parts n \<and> z' = snd (free_vmid (ucast stale) (z\<lparr>vms := (vms z)[k := None]\<rparr>)))"
  using assms by (auto simp: z_delete_guest_def ENODEV_def Let_def split: vm_status.splits if_splits dest!: vm_delete_result)

lemma vmid_inv_removed:
  assumes "vmid_inv z"
  shows "vmid_inv (snd (free_vmid i (z\<lparr>vms := (vms z)[k := None]\<rparr>)))"
  using assms by (intro vmid_inv_free) (simp add: vmid_inv_def vm_ids_def vmid_universe_def)

section \<open>Commands\<close>

lemma parse_other: "z_parse_vm_cmd cmd argv s = Done (ret, s') \<Longrightarrow> cmd \<noteq> CMD_CREATE_GUEST \<Longrightarrow> s' = s"
  by (cases cmd) (auto simp: z_parse_vm_cmd_def)

lemma get_vm_other:
  assumes "zvm_get_vm_by_cmd malloc cmd argv s = Done (vm, s')" "cmd \<noteq> CMD_CREATE_GUEST"
  shows "s' = s \<and> (vm = None \<or> (\<exists>h. vm = Some (Old_VM h)))"
  using assms by (auto simp: zvm_get_vm_by_cmd_def Let_def split: if_splits dest!: parse_other)

lemma template_other:
  assumes "zvm_vm_operation_template ops malloc cmd argv (s, w) = Done (ret, s', w')" "cmd \<noteq> CMD_CREATE_GUEST" "cmd \<noteq> CMD_INFO_GUEST"
  shows "(s', w') = (s, w) \<or> (\<exists>h. zvm_vm_ops_entry ops (Some (Old_VM h)) cmd (s, w) = Done (ret, s', w'))"
  using assms by (auto simp: zvm_vm_operation_template_def split: if_splits dest!: get_vm_other)

lemma template_create:
  assumes "zvm_vm_operation_template ops malloc CMD_CREATE_GUEST argv (s, w) = Done (ret, s', w')"
  shows "\<exists>i s1. handle_vm_create_cmd argv s = Done (i, s1)
    \<and> (i < 0 \<and> (s', w') = (s1, w) \<or> 0 \<le> i \<and> op_create ops (Some (New_VM (word_of_int i))) (s1, w) = Done (ret, s', w'))"
proof (cases "handle_vm_create_cmd argv s")
  case (Done r)
  obtain i s1 where "r = (i, s1)" by force
  then show ?thesis using assms Done
    by (simp add: zvm_vm_operation_template_def zvm_get_vm_by_cmd_def z_parse_vm_cmd_def zvm_vm_ops_entry_def Let_def del: bind_outcome_Done_iff split: if_splits)
qed (use assms in \<open>simp_all add: zvm_vm_operation_template_def zvm_get_vm_by_cmd_def z_parse_vm_cmd_def\<close>)

text \<open>Whatever the line is, it does nothing, creates a VM, lets a VM go on, or deletes a VM.\<close>

lemma command_cases:
  assumes "zvm_command e argv (s, w) = Done (ret, s', w')"
  obtains "(s', w') = (s, w)"
  | i s1 where "handle_vm_create_cmd argv s = Done (i, s1)"
      "i < 0 \<and> (s', w') = (s1, w) \<or> 0 \<le> i \<and> sys_create e (Some (New_VM (word_of_int i))) (s1, w) = Done (ret, s', w')"
  | f h where "on_guest f (Some (Old_VM h)) (s, w) = Done (ret, s', w')"
  | h where "sys_delete e (Some (Old_VM h)) (s, w) = Done (ret, s', w')"
proof -
  note ops = zvm_vm_ops_entry_def sys_ops_def
  from assms consider "(s', w') = (s, w)"
    | "zvm_vm_operation_template (sys_ops e) (m_struct e) CMD_CREATE_GUEST argv (s, w) = Done (ret, s', w')"
    | cmd where "zvm_vm_operation_template (sys_ops e) (m_struct e) cmd argv (s, w) = Done (ret, s', w')" "cmd \<in> {CMD_RUN_GUEST, CMD_PAUSE_GUEST, CMD_DELETE_GUEST}"
    by (auto simp: zvm_command_def zvm_shell_def ops split: list.splits if_splits)
  then show thesis
  proof cases
    case 2
    from template_create[OF this] that(2) show thesis by (auto simp: ops)
  next
    case 3
    from template_other[OF 3(1)] 3(2) that(1,3,4) show thesis by (auto simp: ops)
  qed (rule that(1))
qed

section \<open>The options of a new VM\<close>

text \<open>A size that is given is not 0.\<close>

lemma memory_positive:
  assumes "0 < val" "val \<le> 1024"
  shows "0 < (ucast (ucast (word_of_int (val * 1024 * 1024) :: u32) :: u64) :: u32)"
proof -
  have "uint (word_of_int n :: u32) = n" if "0 \<le> n" "n < 2 ^ 32" for n using that by (simp add: uint_word_of_int)
  moreover have "0 \<le> val * 1024 * 1024" "val * 1024 * 1024 < 2 ^ 32" using assms by simp_all
  ultimately have "uint (word_of_int (val * 1024 * 1024) :: u32) = val * 1024 * 1024" by blast
  then show ?thesis unfolding u32_u64_u32 word_less_def using assms by simp
qed

definition sized :: "create_opts \<Rightarrow> bool" where
  "sized co \<longleftrightarrow> (special_mem co \<longrightarrow> 0 < (ucast (vm_mem_size (guest_os co)) :: u32))"

lemma create_option_sized: "create_option opt arg s co = Inr co' \<Longrightarrow> sized co \<Longrightarrow> sized co'"
  by (auto simp: create_option_def set_type_def set_cpus_def set_memory_def sized_def memory_positive[simplified] Let_def split: if_splits prod.splits)

lemma create_loop_sized: "create_loop s argv st co = Done (Inr co') \<Longrightarrow> sized co \<Longrightarrow> sized co'"
proof (induction s argv st co rule: create_loop.induct)
  case (1 s argv st co)
  from 1(2)[unfolded create_loop.simps[of s argv st co]] consider "co' = co"
    | opt st' arg co1 where "getopt argv ''t:c:m:'' st = Done (Some opt, st')" "opt \<in> set ''tcm''" "optarg st' = Some arg"
        "create_option opt arg s co = Inr co1" "create_loop s argv st' co1 = Done (Inr co')"
    by (auto split: outcome.splits option.splits if_splits sum.splits prod.splits)
  then show ?case
  proof cases
    case 2
    have "\<not> opt \<notin> set ''tcm''" using 2(2) by simp
    from 1(1)[OF 2(1) refl refl this 2(3,4,5) create_option_sized[OF 2(4) 1(3)]] show ?thesis .
  qed (use 1(3) in simp)
qed

lemma create_loop_error: "create_loop s argv st co = Done (Inl i) \<Longrightarrow> i = - EINVAL"
proof (induction s argv st co rule: create_loop.induct)
  case (1 s argv st co)
  have err: "create_option opt arg s co = Inl i \<Longrightarrow> i = - EINVAL" for opt arg
    by (auto simp: create_option_def set_type_def set_cpus_def set_memory_def Let_def split: if_splits prod.splits)
  from 1(2)[unfolded create_loop.simps[of s argv st co]] consider "i = - EINVAL" | opt arg where "create_option opt arg s co = Inl i"
    | opt st' arg co1 where "getopt argv ''t:c:m:'' st = Done (Some opt, st')" "opt \<in> set ''tcm''" "optarg st' = Some arg"
        "create_option opt arg s co = Inr co1" "create_loop s argv st' co1 = Done (Inl i)"
    by (auto split: outcome.splits option.splits if_splits sum.splits prod.splits)
  then show ?case
  proof cases
    case 3
    have "\<not> opt \<notin> set ''tcm''" using 3(2) by simp
    from 1(1)[OF 3(1) refl refl this 3(3,4,5)] show ?thesis .
  qed (use err in blast)+
qed

section \<open>Invariant\<close>

text \<open>The memory of a VM.\<close>

definition memory_of :: "zvm_world \<Rightarrow> nat \<Rightarrow> (u64 \<times> u64 \<times> u16) option" where
  "memory_of w h = Option.bind (guests w h) (\<lambda>g. map_option (\<lambda>os. vm_region (os_info os)) (in_os (g_inst g)))"

definition templates_ok :: "os_state \<Rightarrow> bool" where
  "templates_ok s \<longleftrightarrow> (\<forall>t\<in>set (guest_os_template s). 0 < (ucast (vm_mem_size t) :: u32))"

text \<open>Every VM has memory that is in use, and it is the only one that has it.\<close>

definition owned :: "os_state \<Rightarrow> (nat \<Rightarrow> (u64 \<times> u64 \<times> u16) option) \<Rightarrow> bool" where
  "owned s m \<longleftrightarrow> (\<forall>h r. m h = Some r \<longrightarrow> r \<in> live_regions (guest_mem s)) \<and> (\<forall>h h' r. m h = Some r \<and> m h' = Some r \<longrightarrow> h = h')"

definition sys_inv :: "os_state \<Rightarrow> zvm_world \<Rightarrow> bool" where
  "sys_inv s w \<longleftrightarrow> os_inv s \<and> templates_ok s \<and> owned s (memory_of w)"

lemma owned_more:
  assumes "owned s m" "live_regions (guest_mem s) \<subseteq> live_regions (guest_mem s')"
  shows "owned s' m"
  using assms unfolding owned_def by blast

lemma owned_new:
  assumes "owned s m" "live_regions (guest_mem s) \<subseteq> live_regions (guest_mem s')" "\<And>r. x = Some r \<Longrightarrow> r \<in> live_regions (guest_mem s') - live_regions (guest_mem s)"
  shows "owned s' (m(h := x))"
  using assms unfolding owned_def by (auto split: if_splits)

lemma owned_less:
  assumes "owned s m" "gm_inv (guest_mem s)" "m h = Some (a, n, x)" "live_regions (guest_mem s') = {r \<in> live_regions (guest_mem s). fst r \<noteq> a}"
  shows "owned s' (m(h := None))"
proof -
  have own: "\<And>h r. m h = Some r \<Longrightarrow> r \<in> live_regions (guest_mem s)" "\<And>h h' r. m h = Some r \<Longrightarrow> m h' = Some r \<Longrightarrow> h = h'"
    using assms(1) unfolding owned_def by blast+
  have "fst r \<noteq> a" if "m h' = Some r" "h' \<noteq> h" for h' r
  proof
    assume "fst r = a"
    then obtain m' y where r: "r = (a, m', y)" by (metis prod.collapse)
    with same_start[OF assms(2) own(1)[OF assms(3)], of m' y] own(1)[OF that(1)] have "r = (a, n, x)" by simp
    with own(2)[OF that(1)] assms(3) that(2) show False by simp
  qed
  then have keep: "r \<in> live_regions (guest_mem s')" if "(m(h := None)) h' = Some r" for h' r
    using that own(1) unfolding assms(4) by (cases "h' = h") auto
  moreover have "h1 = h2" if "(m(h := None)) h1 = Some r" "(m(h := None)) h2 = Some r" for h1 h2 r
    using that own(2) by (auto split: if_splits)
  ultimately show ?thesis unfolding owned_def by blast
qed

lemma memory_of_update: "memory_of (w\<lparr>guests := (guests w)(h := x)\<rparr>) = (memory_of w)(h := Option.bind x (\<lambda>g. map_option (\<lambda>os. vm_region (os_info os)) (in_os (g_inst g))))"
  by (rule ext) (simp add: memory_of_def)

lemma memory_of_life: "guests w h = Some g \<Longrightarrow> memory_of (w\<lparr>guests := (guests w)(h \<mapsto> g\<lparr>g_life := v\<rparr>)\<rparr>) = memory_of w"
  by (rule ext) (simp add: memory_of_def)

section \<open>Every step keeps it\<close>

text \<open>A line that asks for a new VM.\<close>

lemma handle_create_keeps:
  assumes "os_inv s" "templates_ok s" "handle_vm_create_cmd argv s = Done (ret, s')" "memory_ok argv s"
  shows "os_inv s' \<and> guest_os_template s' = guest_os_template s \<and> bounds_of (guest_mem s') = bounds_of (guest_mem s)
    \<and> live_regions (guest_mem s) \<subseteq> live_regions (guest_mem s')
    \<and> (0 \<le> ret \<longrightarrow> nat ret < CONFIG_MAX_VM_NUM (overall s)
        \<and> vm_region (z_overall_vm_info s' ! nat ret) \<in> live_regions (guest_mem s') - live_regions (guest_mem s))"
proof -
  from assms(3) obtain r where r: "create_loop s argv getopt_init no_opts = Done r" by (auto simp: handle_vm_create_cmd_def)
  show ?thesis
  proof (cases "\<exists>co. r = Inr co \<and> os_type (guest_os co) \<noteq> UINT16_MAX")
    case True
    then obtain co where co: "r = Inr co" "os_type (guest_os co) \<noteq> UINT16_MAX" by blast
    let ?g = "guest_os co" and ?sm = "special_mem co"
    have run: "get_os_template_type ?g (special_cpu co) ?sm s = Done (ret, s')" using assms(3) r co by (simp add: handle_vm_create_cmd_def)
    have "sized co" using create_loop_sized[of s argv getopt_init no_opts co] r co by (simp add: sized_def no_opts_def)
    then have pos: "0 < requested ?g ?sm s" if "unat (os_type ?g) < length (guest_os_template s)"
      using that assms(2) by (cases ?sm) (simp_all add: sized_def requested_def templates_ok_def)
    have "(\<forall>x\<in>live_regions (guest_mem s). fst x \<noteq> a) \<longleftrightarrow> list_all (\<lambda>b. is_allocated b \<longrightarrow> start_addr b \<noteq> a) (blocks (guest_mem s))" for a
      by (auto simp: live_regions_def part_region_def list_all_iff)
    with assms(4) r co(1) have "allocate_guest_memory_part_check (ucast (requested ?g ?sm s)) (guest_mem s)
      \<or> first_fit (ucast (requested ?g ?sm s)) (guest_mem s) = None
        \<and> (\<forall>r\<in>live_regions (guest_mem s). fst r \<noteq> vm_load_base (z_overall_vm_info s ! unat (fst (allocate_vmid (overall s)))))"
      by (simp add: memory_ok_def Let_def)
    from config_keeps[OF assms(1) pos run this] config_template[OF run] config_bounds[OF run] show ?thesis by blast
  next
    case False
    then have "ret < 0 \<and> s' = s"
    proof (cases r)
      case (Inl i)
      then show ?thesis using assms(3) r create_loop_error[of s argv getopt_init no_opts i] by (simp add: handle_vm_create_cmd_def EINVAL_def)
    qed (use False assms(3) r in \<open>simp add: handle_vm_create_cmd_def EINVAL_def\<close>)
    then show ?thesis using assms(1) by simp
  qed
qed

lemma books_keep:
  assumes "same_books s s'" "os_inv s" "templates_ok s"
  shows "os_inv s'" "templates_ok s'" "guest_mem s' = guest_mem s"
  using assms same_books_inv by (simp_all add: same_books_def templates_ok_def)

lemma sys_create_keeps:
  assumes "sys_inv s w" "handle_vm_create_cmd argv s = Done (i, s1)" "memory_ok argv s" "0 \<le> i"
    "sys_create e (Some (New_VM (word_of_int i))) (s1, w) = Done (ret, s', w')"
  shows "sys_inv s' w' \<and> bounds_of (guest_mem s') = bounds_of (guest_mem s)"
proof -
  have inv: "os_inv s" "templates_ok s" "owned s (memory_of w)" using assms(1) by (simp_all add: sys_inv_def)
  note c = handle_create_keeps[OF inv(1,2) assms(2,3)]
  have s1: "os_inv s1" "templates_ok s1" using c inv(2) by (simp_all add: templates_ok_def)
  have "i < 32" using c assms(4) inv(1) by (auto simp: os_inv_def vmid_inv_def)
  then have i: "unat (word_of_int i :: u16) = nat i" using assms(4) by (simp add: unat_eq_nat_uint uint_word_of_int)
  obtain vm where vm: "z_create_guest (m_vm e) (m_vcpu e) (vcpu_ptr e) (arch_ret e) (max_parts e) (dtb_file e) (vm_tables e) (list_regs e)
      (on_domain (devices_init e)) (blank_vm (vm_ptr e) (word_of_int i)) s1 = Done (ret, vm, s')"
    "w' = w\<lparr>guests := (guests w)(vm_ptr e \<mapsto> \<lparr>g_inst = vm, g_life = vm_of vm\<rparr>)\<rparr>" using assms(5) by (auto simp: sys_create_def)
  from z_create_guest_books[OF vm(1)] have b: "same_books s1 s'" "\<And>os. in_os vm = Some os \<Longrightarrow> os_info os = z_overall_vm_info s1 ! nat i"
    by (simp_all add: blank_vm_def i)
  note s' = books_keep[OF b(1) s1]
  have "owned s' (memory_of w')" unfolding vm(2) memory_of_update
    by (rule owned_new[OF inv(3)]) (use c assms(4) b(2) s'(3) in auto)
  then show ?thesis using s' c by (simp add: sys_inv_def)
qed

lemma sys_delete_keeps:
  assumes "sys_inv s w" "sys_delete e (Some (Old_VM h)) (s, w) = Done (ret, s', w')"
  shows "sys_inv s' w' \<and> bounds_of (guest_mem s') = bounds_of (guest_mem s)"
proof -
  have inv: "os_inv s" "templates_ok s" "owned s (memory_of w)" using assms(1) by (simp_all add: sys_inv_def)
  have gm: "vmid_inv (overall s)" "gm_inv (guest_mem s)" using inv(1) by (simp_all add: os_inv_def)
  from assms(2) obtain g evs z c where d: "guests w h = Some g" "z_delete_guest (freed_vmid e) (waiting e) (g_life g) (overall s) = Done (ret, evs, z)"
      "delete_parts e (g_inst g) evs (set_overall z s, host_cpu w) = Done (s', c)"
      "w' = w\<lparr>guests := if ret = 0 then (guests w)(h := None) else guests w, host_cpu := c\<rparr>"
    by (auto simp: sys_delete_def split: option.splits)
  from z_delete_guest_result[OF d(2)] show ?thesis
  proof (elim disjE conjE exE)
    assume "ret \<noteq> 0" "evs = []" "z = overall s"
    then show ?thesis using d(3,4) inv by (simp add: sys_inv_def os_inv_def templates_ok_def owned_def memory_of_def set_overall_def)
  next
    fix n k assume r: "ret = 0" "evs = removal_parts n" "z = snd (free_vmid (ucast (freed_vmid e)) ((overall s)\<lparr>vms := (vms (overall s))[k := None]\<rparr>))"
    define t where "t = set_overall z s"
    have t: "os_inv t" "templates_ok t" "guest_mem t = guest_mem s"
      using inv vmid_inv_removed[OF gm(1)] by (simp_all add: t_def r(3) os_inv_def templates_ok_def)
    obtain os where os: "in_os (g_inst g) = Some os" "same_books (t\<lparr>guest_mem := free_guest_memory_part (vm_load_base (os_info os)) (guest_mem t)\<rparr>) s'"
      using d(3)[folded t_def] unfolding r(2) removal_parts_def by (rule delete_parts_books)
    note free = guest_memory.release_ok[OF gm(2), of "vm_load_base (os_info os)"]
    have "os_inv (t\<lparr>guest_mem := free_guest_memory_part (vm_load_base (os_info os)) (guest_mem t)\<rparr>)"
      using t(1,3) free by (simp add: os_inv_def word_less_nat_alt)
    note s' = books_keep[OF os(2) this] 
    have "memory_of w h = Some (vm_load_base (os_info os), vm_mem_size (os_info os), os_type (os_info os))"
      using d(1) os(1) by (simp add: memory_of_def vm_region_def)
    then have "owned s' ((memory_of w)(h := None))" using s'(3) t free templates_ok_def by (intro owned_less[OF inv(3) gm(2)]) (auto simp: templates_ok_def)
    moreover have "memory_of w' = (memory_of w)(h := None)" by (rule ext) (simp add: d(4) r(1) memory_of_def)
    ultimately show ?thesis using s' t by (simp add: sys_inv_def templates_ok_def)
  qed
qed

lemma sys_step_keeps:
  assumes "sys_step (s, w) (s', w')" "sys_inv s w"
  shows "sys_inv s' w' \<and> bounds_of (guest_mem s') = bounds_of (guest_mem s)"
  using assms(1)
proof (rule sys_stepE)
  fix e argv ret
  assume cmd: "zvm_command e argv (s, w) = Done (ret, s', w')" "guests w (vm_ptr e) = None" "memory_ok argv s"
  from cmd(1) show ?thesis
  proof (cases rule: command_cases)
    case (2 i s1)
    from 2(2) show ?thesis
    proof (elim disjE conjE)
      assume "i < 0" "(s', w') = (s1, w)"
      then show ?thesis using handle_create_keeps[OF _ _ 2(1) cmd(3)] assms(2) owned_more
        by (auto simp: sys_inv_def templates_ok_def)
    qed (rule sys_create_keeps[OF assms(2) 2(1) cmd(3)])
  next
    case (3 f h)
    then show ?thesis using assms(2) by (auto simp: on_guest_def sys_inv_def memory_of_life split: option.splits)
  next
    case (4 h)
    from sys_delete_keeps[OF assms(2) 4] show ?thesis .
  qed (use assms(2) in simp)
next
  fix h g v
  assume "guests w h = Some g" "vm_step (g_life g) v" "s' = s" "w' = w\<lparr>guests := (guests w)(h \<mapsto> g\<lparr>g_life := v\<rparr>)\<rparr>"
  then show ?thesis using assms(2) by (simp add: sys_inv_def memory_of_life)
qed

section \<open>Isolation\<close>

lemma sys_steps_keep:
  assumes "sys_step\<^sup>*\<^sup>* (s, w) (s', w')" "sys_inv s w"
  shows "sys_inv s' w' \<and> bounds_of (guest_mem s') = bounds_of (guest_mem s)"
  using assms by (induction rule: rtranclp_induct2) (auto dest: sys_step_keeps)

lemma init_result:
  assumes "zvm_init (Some z) hw malloc b zs = Done (0, zs')"
  obtains h where "hw = Some h" "zvm_os zs' = fresh_os b z h (zvm_os zs)"
proof -
  have "zvm_os zs1 = zvm_os zs0" if "scan_devices malloc b ds zs0 = Done zs1" for ds zs0 zs1
    using that by (induction ds arbitrary: zs0) (auto simp: zvm_init_idle_device_1_def split: if_splits option.splits)
  with assms show thesis
    by (cases hw) (auto simp: zvm_init_def zvm_overall_init_ok zvm_devices_list_init_def zvm_overall_init_def zvm_hwsys_info_init_def ENOMEM_def Let_def
        fresh_os_def fresh_info_def split: if_splits intro!: that)
qed

text \<open>
  C1: isolation of guest memory. From a start that succeeds, after any sequence of commands and of steps of the VMs, the region
  that the configuration of a VM names is handed out and lies between the load address and the end of the guest
  memory, and the regions of two VMs never share an address. This holds for all results of k_malloc, for every error in a creation, and for
  whatever a deletion finds in freed memory. The requests that find no block, but an old address that is in use again,
  are excluded, as are those that split a block when no entry is left.
\<close>

theorem guests_isolated:
  assumes "board_ok b z (zvm_os zs)" "templates_ok (zvm_os zs)" "zvm_init (Some z) hw malloc b zs = Done (0, zs')"
    and "sys_step\<^sup>*\<^sup>* (zvm_os zs', no_guests c) (s, w)"
  shows "os_inv s
    \<and> (\<forall>h r. memory_of w h = Some r \<longrightarrow> r \<in> live_regions (guest_mem s)
        \<and> region_within (unat (RTOS_VM_LOAD_BASE b)) (unat (RTOS_VM_LOAD_BASE b) + unat (guest_memsize b)) r)
    \<and> (\<forall>h h' r r'. memory_of w h = Some r \<and> memory_of w h' = Some r' \<and> h \<noteq> h' \<longrightarrow> region_disjoint r r')"
proof -
  obtain h where h: "zvm_os zs' = fresh_os b z h (zvm_os zs)" using assms(3) by (rule init_result)
  have "sys_inv (zvm_os zs') (no_guests c)"
    using fresh_os_inv[OF assms(1), of h] assms(2)
    by (simp add: sys_inv_def h templates_ok_def owned_def memory_of_def no_guests_def) (simp add: fresh_os_def set_overall_def)
  from sys_steps_keep[OF assms(4) this] have inv: "os_inv s" "owned s (memory_of w)" "bounds_of (guest_mem s) = bounds_of (guest_mem (zvm_os zs'))"
    by (simp_all add: sys_inv_def)
  have gm: "gm_inv (guest_mem s)" using inv(1) by (simp add: os_inv_def)
  have b: "base_addr (guest_mem s) = RTOS_VM_LOAD_BASE b" "total_memory (guest_mem s) = guest_memsize b"
    using inv(3) by (simp_all add: bounds_of_def h guest_memory_manager_init_def Let_def)
  have own: "\<And>h r. memory_of w h = Some r \<Longrightarrow> r \<in> live_regions (guest_mem s)" "\<And>h h' r. memory_of w h = Some r \<Longrightarrow> memory_of w h' = Some r \<Longrightarrow> h = h'"
    using inv(2) unfolding owned_def by blast+
  have "region_disjoint r r'" if "memory_of w h = Some r" "memory_of w h' = Some r'" "h \<noteq> h'" for h h' r r'
  proof -
    have "r \<noteq> r'" using own(2)[OF that(1)] that(2,3) by blast
    then show ?thesis using live_pairwise[OF gm] own(1)[OF that(1)] own(1)[OF that(2)] unfolding pairwise_def by blast
  qed
  then show ?thesis using inv(1) own(1) guest_memory.live_within[OF gm] unfolding b by blast
qed

definition run_choices :: "nat \<Rightarrow> choices" where
  "run_choices p = \<lparr>m_struct = True, m_vm = (\<lambda>_. True), m_vcpu = (\<lambda>_ _. True), vm_ptr = p, vcpu_ptr = (\<lambda>i. 10 * p + i), arch_ret = (\<lambda>_. 0),
     max_parts = 8, dtb_file = False, vm_tables = s2_four, list_regs = 4, devices_init = (\<lambda>_ d. Done (- EINVAL, d)), devices_deinit = (\<lambda>_. Done 0),
     freed_vmid = 0, waiting = id\<rparr>"

definition boot_os :: os_state where
  "boot_os = fresh_os boot_board zvm_info_3 (hw_info zvm_info_3) os_new"

definition zero_cpu :: cpu where
  "zero_cpu = \<lparr>gpr = (\<lambda>_. 0), sysr = (\<lambda>_. 0)\<rparr>"

text \<open>Two Linux guests, one after the other; their devices fail, so that their memory is not mapped.\<close>

definition line_linux :: "string list" where "line_linux = [''create'', ''-t'', ''linux'']"

definition run_linux :: "choices \<Rightarrow> os_state \<times> zvm_world \<Rightarrow> (os_state \<times> zvm_world) outcome" where
  "run_linux e sw = (case (sw, guests (snd sw) (vm_ptr e)) of
     ((s, w), None) \<Rightarrow> if memory_ok line_linux s then bind_outcome (zvm_command e line_linux (s, w)) (\<lambda>(_, sw). Done sw) else Fault
   | _ \<Rightarrow> Fault)"

lemma run_linux_step: "run_linux e (s, w) = Done sw \<Longrightarrow> sys_step (s, w) sw"
  by (cases sw) (auto simp: run_linux_def split: option.splits if_splits intro: sys_command)

lemma two_guests:
  "case bind_outcome (run_linux (run_choices 7) (boot_os, no_guests zero_cpu)) (run_linux (run_choices 8)) of
     Done (s, w) \<Rightarrow> memory_of w 7 = Some (0x48000000, 0x1000000, 1) \<and> memory_of w 8 = Some (0x49000000, 0x1000000, 1)
   | _ \<Rightarrow> False"
  by code_simp

theorem guests_isolated_witness:
  "\<exists>zs' s w r r'. zvm_init (Some zvm_info_3) (Some (hw_info zvm_info_3)) Some boot_board boot_state = Done (0, zs')
    \<and> sys_step\<^sup>*\<^sup>* (zvm_os zs', no_guests zero_cpu) (s, w) \<and> memory_of w 7 = Some r \<and> memory_of w 8 = Some r' \<and> region_disjoint r r'"
proof -
  obtain s1 w1 s w where run: "run_linux (run_choices 7) (boot_os, no_guests zero_cpu) = Done (s1, w1)" "run_linux (run_choices 8) (s1, w1) = Done (s, w)"
    and m: "memory_of w 7 = Some (0x48000000, 0x1000000, 1)" "memory_of w 8 = Some (0x49000000, 0x1000000, 1)"
    using two_guests by (auto split: outcome.splits)
  let ?init = "zvm_init (Some zvm_info_3) (Some (hw_info zvm_info_3)) Some boot_board boot_state"
  have "zvm_arch_init boot_board = 0" using boot_facts(1) by (simp add: zvm_arch_init_ok)
  moreover have "\<forall>d\<in>set (host_devices boot_board). vm_ready d \<longrightarrow> Some (hd_id d) \<noteq> None" by simp
  ultimately obtain zs' where zs: "?init = Done (0, zs')"
    by (simp add: zvm_init_def zvm_overall_init_ok zvm_devices_list_init_def scan_devices_ok)
  obtain h where h: "Some (hw_info zvm_info_3) = Some h" "zvm_os zs' = fresh_os boot_board zvm_info_3 h (zvm_os boot_state)" using zs by (rule init_result)
  then have "zvm_os zs' = boot_os" by (simp add: boot_os_def boot_state_def)
  then have steps: "sys_step\<^sup>*\<^sup>* (zvm_os zs', no_guests zero_cpu) (s, w)" using run[THEN run_linux_step] by (metis r_into_rtranclp rtranclp.rtrancl_into_rtrancl)
  have "templates_ok (zvm_os boot_state)" by (simp add: templates_ok_def boot_state_def os_new_def template_def info_zero_def)
  from guests_isolated[OF boot_facts(2) this zs steps] m have "region_disjoint (0x48000000, 0x1000000, 1) (0x49000000, 0x1000000, 1 :: u16)" by fastforce
  with zs steps m show ?thesis by blast
qed

end
