(* ===== verification/Vcpu_Thread.thy ===== *)
theory Vcpu_Thread
  imports Vcpu_Run Zvm_Init
begin

text \<open>
  The thread of a vCPU (\<^verbatim>\<open>vcpu_thread_entry\<close> of \<^verbatim>\<open>vm_cpu.c\<close>), which runs the guest until the VM is halted, and the interrupt by which CPUs
  call each other (\<^verbatim>\<open>zvm_ipi_handler\<close> of \<^verbatim>\<open>zvm.c\<close>, \<^verbatim>\<open>vm_ipi_handler\<close> of \<^verbatim>\<open>vm.c\<close>). Barriers and the invalidation of caches and
  translations are left out.
\<close>

section \<open>The interrupt between CPUs\<close>

text \<open>The counters of the vCPU that runs here, and its last software generated interrupt.\<close>

record ipi_counts =
  hcpuipi_count :: int
  vcpuipi_count :: int
  pending_sgi_num :: nat

definition upd_gic :: "vgic \<Rightarrow> machine \<Rightarrow> machine" where
  "upd_gic g m = m\<lparr>devs := (devs m)\<lparr>gic := g\<rparr>\<rparr>"

definition intra_vm_msg_handler :: "nat \<Rightarrow> machine \<Rightarrow> (int \<times> machine) outcome" where
  "intra_vm_msg_handler sgi m = (case current_vcpu (gic (devs m)) of
     None \<Rightarrow> Done (- ENODEV, m)
   | Some v \<Rightarrow> bind_outcome (set_virq_to_vcpu v sgi 1 (gic (devs m))) (\<lambda>(_, g). Done (0, upd_gic g m)))"

definition pause_vm_handler :: "machine \<Rightarrow> int" where "pause_vm_handler m = 0"
definition stop_vm_handler :: "machine \<Rightarrow> int" where "stop_vm_handler m = 0"

definition vm_ipi_handler :: "nat \<Rightarrow> machine \<Rightarrow> (int \<times> machine) outcome" where
  "vm_ipi_handler sgi m = (case vm_status (vm m) of
     VM_STATE_RUNNING \<Rightarrow> intra_vm_msg_handler sgi m
   | VM_STATE_PAUSE \<Rightarrow> Done (pause_vm_handler m, m)
   | VM_STATE_HALT \<Rightarrow> Done (stop_vm_handler m, m)
   | _ \<Rightarrow> Done (- 1, m))"

definition virt_sync_and_flush_vcpu_irq :: "nat \<Rightarrow> vgic \<Rightarrow> (unit \<times> vgic) outcome" where
  "virt_sync_and_flush_vcpu_irq = virt_sync_and_flush_vcpu_vgic_lock"

text \<open>The interrupts of devices, when the VM is deleted.\<close>

fun disable_virqs :: "nat \<Rightarrow> nat list \<Rightarrow> vgic \<Rightarrow> vgic outcome" where
  "disable_virqs v [] g = Done g"
| "disable_virqs v (i # is) g = bind_outcome (vgic_unset_enable_lock i (ucast (BIT v)) g) (\<lambda>(_, g). disable_virqs v is g)"

definition ipi_for_vcpu :: "nat \<Rightarrow> ipi_counts \<Rightarrow> machine \<Rightarrow> (ipi_counts \<times> machine) outcome" where
  "ipi_for_vcpu v c m =
    (if 0 < hcpuipi_count c
     then bind_outcome (virt_sync_and_flush_vcpu_irq v (gic (devs m))) (\<lambda>(_, g). Done (c\<lparr>hcpuipi_count := hcpuipi_count c - 1\<rparr>, upd_gic g m))
     else if 0 < vcpuipi_count c
     then bind_outcome (vm_ipi_handler (pending_sgi_num c) m) (\<lambda>(_, m). Done (c\<lparr>vcpuipi_count := vcpuipi_count c - 1\<rparr>, m))
     else Done (c, m))"

definition zvm_ipi_handler :: "soc \<Rightarrow> u64 \<Rightarrow> ipi_counts \<times> machine \<times> u32 list \<Rightarrow> (ipi_counts \<times> machine \<times> u32 list) outcome" where
  "zvm_ipi_handler soc mpidr st = (case st of (c, m, l) \<Rightarrow>
     bind_outcome (case current_vcpu (gic (devs m)) of
         None \<Rightarrow> Done (c, m)
       | Some v \<Rightarrow> bind_outcome (ipi_for_vcpu v c m) (\<lambda>(c, m).
           if map_option deleting (vm_vcpus (vm m) ! v) = Some True
           then bind_outcome (disable_virqs v [32..<VM_GLOBAL_VIRQ_NR (gic (devs m))] (gic (devs m))) (\<lambda>g. Done (c, upd_gic g m))
           else Done (c, m)))
       (\<lambda>(c, m). bind_outcome (ipi_cache_clean soc mpidr l) (\<lambda>(_, l). Done (c, m, l))))"

section \<open>The thread of a vCPU\<close>

text \<open>
  One round of the loop. \<^verbatim>\<open>run k\<close> is the k-th run of the vCPU with what other CPUs do meanwhile. The first result is whether
  the thread leaves. The mask of the test for pending interrupts is made from \<^verbatim>\<open>cpu\<close>, the number of the physical CPU.
\<close>

definition vcpu_round :: "(nat \<Rightarrow> machine \<Rightarrow> (int \<times> machine) outcome) \<Rightarrow> nat \<Rightarrow> nat \<Rightarrow> machine \<Rightarrow> (bool \<times> int \<times> machine) outcome" where
  "vcpu_round run cpu k m = bind_outcome (run k m) (\<lambda>(ret, m).
     if ret < 0 \<or> vm_status (vm m) = VM_STATE_HALT
     then bind_outcome (any_virq vgic_is_virq_pending_lock (ucast (BIT cpu)) [0..<VM_GLOBAL_VIRQ_NR (gic (devs m))] (gic (devs m)))
            (\<lambda>(pend, g). Done (\<not> pend, ret, upd_gic g m))
     else Done (False, ret, m))"

partial_function (option) vcpu_loop :: "(nat \<Rightarrow> machine \<Rightarrow> (int \<times> machine) outcome) \<Rightarrow> nat \<Rightarrow> nat \<Rightarrow> machine \<Rightarrow> (int \<times> machine) outcome option" where
  "vcpu_loop run cpu k m = (case vcpu_round run cpu k m of
     Done (leave, ret, m) \<Rightarrow> if leave then Some (Done (ret, m)) else vcpu_loop run cpu (k + 1) m
   | Fault \<Rightarrow> Some Fault
   | Assertion \<Rightarrow> Some Assertion)"

text \<open>The number of vCPUs whose threads exist is counted down at the end.\<close>

definition vcpu_thread_entry :: "(nat \<Rightarrow> machine \<Rightarrow> (int \<times> machine) outcome) \<Rightarrow> nat \<Rightarrow> int \<Rightarrow> machine \<Rightarrow> (int \<times> machine \<times> int) outcome option" where
  "vcpu_thread_entry run cpu exist m = map_option (\<lambda>r. bind_outcome r (\<lambda>(ret, m). Done (ret, m, exist - 1))) (vcpu_loop run cpu 0 m)"

text \<open>The runs of a vCPU: \<^verbatim>\<open>others k\<close> is what the other CPUs do before round k.\<close>

definition vcpu_runs :: "malloc_dev \<Rightarrow> driver_init \<Rightarrow> (machine \<Rightarrow> machine) \<Rightarrow> (nat \<Rightarrow> machine \<Rightarrow> nat \<times> machine) \<Rightarrow> (nat \<Rightarrow> int) \<Rightarrow> (nat \<Rightarrow> machine \<Rightarrow> machine)
    \<Rightarrow> nat \<Rightarrow> machine \<Rightarrow> (int \<times> machine) outcome" where
  "vcpu_runs malloc init_fn sysreg_load code junk others k m = arch_vcpu_run malloc init_fn sysreg_load (code k) (junk k) (others k m)"

end
