(* ===== verification/Vcpu_Thread_Props.thy ===== *)
theory Vcpu_Thread_Props
  imports Vcpu_Thread Vcpu_Run_Props
begin

text \<open>
  When the thread of a vCPU ends, and what the interrupt does that asks it to.
\<close>

section \<open>Pending interrupts\<close>

text \<open>The interrupts that the thread looks for: those of the vCPU that has the number of the CPU.\<close>

definition sees_pending :: "nat \<Rightarrow> vgic \<Rightarrow> bool" where
  "sees_pending cpu g \<longleftrightarrow> cpu < vcpu_num g \<and> (\<exists>irq<VM_GLOBAL_VIRQ_NR g. virq_bit_of Pending cpu irq g)"

lemma cpu_mask: "cpu < 32 \<Longrightarrow> (ucast (BIT cpu :: u64) :: u32) = push_bit cpu 1"
  by (rule bit_word_eqI) (auto simp: BIT_def bit_simps)

lemma any_virq_pending:
  assumes "\<not> vgic_lock g"
  shows "any_virq vgic_is_virq_pending_lock cm irqs g = Done (\<exists>irq\<in>set irqs. vgic_is_virq_pending irq cm g, g)"
proof (induction irqs)
  case (Cons irq irqs)
  have "vgic_is_virq_pending irq cm (g\<lparr>vgic_lock := True\<rparr>) = vgic_is_virq_pending irq cm g"
    by (simp add: vgic_is_virq_pending_def virq_bit_of_def)
  moreover have "g\<lparr>vgic_lock := False\<rparr> = g" using assms by (cases g) simp
  ultimately have "vgic_is_virq_pending_lock irq cm g = Done (vgic_is_virq_pending irq cm g, g)"
    using assms by (simp add: vgic_is_virq_pending_lock_def with_lock_def)
  then show ?case using Cons by simp
qed simp

lemma pending_test:
  assumes "\<not> vgic_lock g" "cpu < 32" "32 \<le> VM_GLOBAL_VIRQ_NR g"
  shows "any_virq vgic_is_virq_pending_lock (ucast (BIT cpu :: u64)) [0..<VM_GLOBAL_VIRQ_NR g] g = Done (sees_pending cpu g, g)"
proof -
  have "vgic_is_virq_pending irq (push_bit cpu 1) g \<longleftrightarrow> cpu < vcpu_num g \<and> virq_bit_of Pending cpu irq g" if "irq < VM_GLOBAL_VIRQ_NR g" for irq
    using that assms(2) virq_tests(2)[of cpu g irq] by (cases "cpu < vcpu_num g") (auto simp: vgic_is_virq_pending_def bit_self)
  then show ?thesis unfolding any_virq_pending[OF assms(1)] cpu_mask[OF assms(2)] by (auto simp: sees_pending_def)
qed

section \<open>The loop\<close>

text \<open>The state before round k, when the thread does not leave before.\<close>

fun rounds :: "(nat \<Rightarrow> machine \<Rightarrow> (int \<times> machine) outcome) \<Rightarrow> nat \<Rightarrow> nat \<Rightarrow> machine \<Rightarrow> machine outcome" where
  "rounds run j 0 m = Done m"
| "rounds run j (Suc k) m = bind_outcome (run j m) (\<lambda>(_, m). rounds run (j + 1) k m)"

definition stopped_idle :: "nat \<Rightarrow> int \<Rightarrow> machine \<Rightarrow> bool" where
  "stopped_idle cpu ret m \<longleftrightarrow> (ret < 0 \<or> vm_status (vm m) = VM_STATE_HALT) \<and> \<not> sees_pending cpu (gic (devs m))"

text \<open>Every run ends and leaves the interrupt controller unlocked.\<close>

definition runs_end :: "(nat \<Rightarrow> machine \<Rightarrow> (int \<times> machine) outcome) \<Rightarrow> nat \<Rightarrow> machine \<Rightarrow> bool" where
  "runs_end run j m \<longleftrightarrow> (\<forall>k mk. rounds run j k m = Done mk \<longrightarrow>
     (\<exists>ret m'. run (j + k) mk = Done (ret, m') \<and> \<not> vgic_lock (gic (devs m')) \<and> 32 \<le> VM_GLOBAL_VIRQ_NR (gic (devs m'))))"

lemma runs_end_step:
  assumes "runs_end run j m"
  obtains ret m' where "run j m = Done (ret, m')" "\<not> vgic_lock (gic (devs m'))" "32 \<le> VM_GLOBAL_VIRQ_NR (gic (devs m'))" "runs_end run (j + 1) m'"
proof -
  from assms[unfolded runs_end_def, rule_format, of 0 m] obtain ret m' where
    r: "run j m = Done (ret, m')" "\<not> vgic_lock (gic (devs m'))" "32 \<le> VM_GLOBAL_VIRQ_NR (gic (devs m'))" by auto
  have "runs_end run (j + 1) m'" unfolding runs_end_def
  proof (intro allI impI)
    fix k mk assume "rounds run (j + 1) k m' = Done mk"
    then have "rounds run j (Suc k) m = Done mk" using r(1) by simp
    from assms[unfolded runs_end_def, rule_format, OF this]
    show "\<exists>ret m'. run (j + 1 + k) mk = Done (ret, m') \<and> \<not> vgic_lock (gic (devs m')) \<and> 32 \<le> VM_GLOBAL_VIRQ_NR (gic (devs m'))" by simp
  qed
  with r that show thesis by blast
qed

lemma upd_gic_same: "upd_gic (gic (devs m)) m = m"
  by (cases m) (simp add: upd_gic_def)

lemma vcpu_round_result:
  assumes "run j m = Done (ret, m')" "\<not> vgic_lock (gic (devs m'))" "32 \<le> VM_GLOBAL_VIRQ_NR (gic (devs m'))" "cpu < 32"
  shows "vcpu_round run cpu j m = Done (stopped_idle cpu ret m', ret, m')"
  using assms by (auto simp: vcpu_round_def pending_test upd_gic_same stopped_idle_def)

lemma vcpu_loop_step:
  assumes "run j m = Done (ret, m')" "\<not> vgic_lock (gic (devs m'))" "32 \<le> VM_GLOBAL_VIRQ_NR (gic (devs m'))" "cpu < 32"
  shows "vcpu_loop run cpu j m = (if stopped_idle cpu ret m' then Some (Done (ret, m')) else vcpu_loop run cpu (j + 1) m')"
  by (subst vcpu_loop.simps) (simp add: vcpu_round_result[of run j m, OF assms])

text \<open>A round in which the thread may leave is reached.\<close>

lemma vcpu_loop_ends:
  assumes "runs_end run j m" "cpu < 32" "rounds run j k m = Done mk" "run (j + k) mk = Done (ret, m')" "stopped_idle cpu ret m'"
  shows "\<exists>r. vcpu_loop run cpu j m = Some r"
  using assms(1,3-5)
proof (induction k arbitrary: j m)
  case 0
  from 0(1) show ?case
  proof (rule runs_end_step)
    fix r1 m1 assume "run j m = Done (r1, m1)" "\<not> vgic_lock (gic (devs m1))" "32 \<le> VM_GLOBAL_VIRQ_NR (gic (devs m1))"
    from vcpu_loop_step[of run j m, OF this assms(2)] this(1) 0 show ?thesis by simp
  qed
next
  case (Suc k)
  from Suc.prems(1) show ?case
  proof (rule runs_end_step)
    fix r1 m1 assume r: "run j m = Done (r1, m1)" "\<not> vgic_lock (gic (devs m1))" "32 \<le> VM_GLOBAL_VIRQ_NR (gic (devs m1))" "runs_end run (j + 1) m1"
    have "\<exists>r. vcpu_loop run cpu (j + 1) m1 = Some r" using Suc.prems r(1) by (intro Suc.IH[OF r(4)]) auto
    then show ?thesis using vcpu_loop_step[of run j m, OF r(1-3) assms(2)] by auto
  qed
qed

text \<open>None of the first k runs lets the thread leave.\<close>

definition busy_before :: "(nat \<Rightarrow> machine \<Rightarrow> (int \<times> machine) outcome) \<Rightarrow> nat \<Rightarrow> nat \<Rightarrow> nat \<Rightarrow> machine \<Rightarrow> bool" where
  "busy_before run cpu j k m \<longleftrightarrow>
    (\<forall>i<k. \<forall>mi ret m'. rounds run j i m = Done mi \<longrightarrow> run (j + i) mi = Done (ret, m') \<longrightarrow> \<not> stopped_idle cpu ret m')"

lemma busy_before_Suc:
  assumes "run j m = Done (ret, m')" "\<not> stopped_idle cpu ret m'" "busy_before run cpu (j + 1) k m'"
  shows "busy_before run cpu j (Suc k) m"
  unfolding busy_before_def
proof (intro allI impI)
  fix i mi ret1 m1
  assume a: "i < Suc k" "rounds run j i m = Done mi" "run (j + i) mi = Done (ret1, m1)"
  show "\<not> stopped_idle cpu ret1 m1"
  proof (cases i)
    case 0
    then show ?thesis using a assms(1,2) by simp
  next
    case (Suc n)
    then have "n < k" "rounds run (j + 1) n m' = Done mi" "run (j + 1 + n) mi = Done (ret1, m1)" using a assms(1) by simp_all
    then show ?thesis using assms(3) unfolding busy_before_def by blast
  qed
qed

text \<open>What it leaves with.\<close>

definition left_with :: "(nat \<Rightarrow> machine \<Rightarrow> (int \<times> machine) outcome) \<Rightarrow> nat \<Rightarrow> nat \<Rightarrow> machine \<Rightarrow> (int \<times> machine) outcome \<Rightarrow> bool" where
  "left_with run cpu j m r \<longleftrightarrow> (\<exists>k mk ret m'. r = Done (ret, m') \<and> rounds run j k m = Done mk \<and> run (j + k) mk = Done (ret, m') \<and> stopped_idle cpu ret m'
    \<and> busy_before run cpu j k m)"

lemma left_with_first: "run j m = Done (ret, m') \<Longrightarrow> stopped_idle cpu ret m' \<Longrightarrow> left_with run cpu j m (Done (ret, m'))"
  unfolding left_with_def by (intro exI[of _ 0] exI[of _ m] exI[of _ ret] exI[of _ m']) (simp add: busy_before_def)

lemma left_with_later:
  assumes "run j m = Done (ret, m')" "\<not> stopped_idle cpu ret m'" "left_with run cpu (j + 1) m' r"
  shows "left_with run cpu j m r"
proof -
  obtain k mk ret1 m1 where "r = Done (ret1, m1)" "rounds run (j + 1) k m' = Done mk" "run (j + 1 + k) mk = Done (ret1, m1)" "stopped_idle cpu ret1 m1"
    "busy_before run cpu (j + 1) k m'"
    using assms(3) unfolding left_with_def by (elim exE conjE) (rule that)
  then show ?thesis unfolding left_with_def using assms(1) busy_before_Suc[of run j m, OF assms(1,2)] by (intro exI[of _ "Suc k"] exI[of _ mk] exI[of _ ret1] exI[of _ m1]) simp
qed

lemma vcpu_loop_result:
  assumes "vcpu_loop run cpu j m = Some r"
  shows "runs_end run j m \<longrightarrow> cpu < 32 \<longrightarrow> left_with run cpu j m r"
proof (rule vcpu_loop.raw_induct[where P = "\<lambda>run cpu j m r. runs_end run j m \<longrightarrow> cpu < 32 \<longrightarrow> left_with run cpu j m r", OF _ assms], intro impI)
  fix loop run cpu j m r
  assume IH: "\<And>run cpu j m r. loop run cpu j m = Some r \<Longrightarrow> runs_end run j m \<longrightarrow> cpu < 32 \<longrightarrow> left_with run cpu j m r"
    and body: "(case vcpu_round run cpu j m of Done (leave, ret, m) \<Rightarrow> if leave then Some (Done (ret, m)) else loop run cpu (j + 1) m
      | Fault \<Rightarrow> Some Fault | Assertion \<Rightarrow> Some Assertion) = Some r" and e: "runs_end run j m" "cpu < (32 :: nat)"
  obtain r1 m1 where s: "run j m = Done (r1, m1)" "\<not> vgic_lock (gic (devs m1))" "32 \<le> VM_GLOBAL_VIRQ_NR (gic (devs m1))" "runs_end run (j + 1) m1"
    using e(1) by (rule runs_end_step)
  note round = vcpu_round_result[of run j m, OF s(1-3) e(2)]
  show "left_with run cpu j m r"
  proof (cases "stopped_idle cpu r1 m1")
    case True
    then have "r = Done (r1, m1)" using body round by simp
    then show ?thesis using left_with_first[of run j m, OF s(1) True] by simp
  next
    case False
    then have "loop run cpu (j + 1) m1 = Some r" using body round by simp
    from IH[OF this] s(4) e(2) have "left_with run cpu (j + 1) m1 r" by simp
    then show ?thesis by (rule left_with_later[of run j m, OF s(1) False])
  qed
qed

text \<open>
  C39: the thread of a vCPU ends exactly when some run leaves it stopped, that is with an error or with the VM halted, while no interrupt is
  pending for the vCPU whose number is that of the physical CPU. It then ends after the first such run, returns what the run
  returned, and counts itself out; otherwise it runs forever.
\<close>

theorem vcpu_thread_ends_iff:
  assumes "runs_end run 0 m" "cpu < 32"
  shows "((\<exists>r. vcpu_thread_entry run cpu exist m = Some r) \<longleftrightarrow>
      (\<exists>k mk ret m'. rounds run 0 k m = Done mk \<and> run k mk = Done (ret, m') \<and> stopped_idle cpu ret m'))
    \<and> (\<forall>r. vcpu_thread_entry run cpu exist m = Some r \<longrightarrow> (\<exists>k mk ret m'. r = Done (ret, m', exist - 1)
        \<and> rounds run 0 k m = Done mk \<and> run k mk = Done (ret, m') \<and> stopped_idle cpu ret m' \<and> busy_before run cpu 0 k m))"
proof -
  have out: "\<exists>k mk ret m'. r = Done (ret, m') \<and> rounds run 0 k m = Done mk \<and> run k mk = Done (ret, m') \<and> stopped_idle cpu ret m'
      \<and> busy_before run cpu 0 k m"
    if "vcpu_loop run cpu 0 m = Some r" for r using vcpu_loop_result[OF that] assms unfolding left_with_def by simp
  have "\<exists>r. vcpu_loop run cpu 0 m = Some r" if "rounds run 0 k m = Done mk" "run k mk = Done (ret, m')" "stopped_idle cpu ret m'" for k mk ret m'
    using vcpu_loop_ends[OF assms that(1) _ that(3)] that(2) by simp
  with out show ?thesis unfolding vcpu_thread_entry_def map_option_eq_Some by fastforce
qed

text \<open>A guest that leaves for interrupts only; the VM is halted before the fourth run.\<close>

definition halts_at :: "nat \<Rightarrow> nat \<Rightarrow> machine \<Rightarrow> machine" where
  "halts_at n k m = (if k = n then m\<lparr>vm := (vm m)\<lparr>vm_status := VM_STATE_HALT\<rparr>\<rparr> else m)"

definition idle_runs :: "nat \<Rightarrow> machine \<Rightarrow> (int \<times> machine) outcome" where
  "idle_runs = vcpu_runs (None, False, False) (\<lambda>_ _ st. (0, st)) id (\<lambda>_ m. (2, m)) (\<lambda>_. 0) (halts_at 3)"

definition at_rest :: "machine \<Rightarrow> bool" where
  "at_rest m \<longleftrightarrow> vcpu_id m = 0 \<and> map_option deleting (vm_vcpus (vm m) ! 0) = Some False \<and> \<not> vm_reboot m \<and> gic (devs m) = vgic_two"

lemma idle_run:
  assumes "at_rest m"
  obtains m' where "idle_runs k m = Done (0, m')" "at_rest m'" "vm_status (vm m') = (if k = 3 then VM_STATE_HALT else vm_status (vm m))"
proof
  let ?m = "upd_ctxt 0 (\<lambda>c. c\<lparr>exit_type := 2\<rparr>) (halts_at 3 k m)"
  show "idle_runs k m = Done (0, ?m)" "at_rest ?m" "vm_status (vm ?m) = (if k = 3 then VM_STATE_HALT else vm_status (vm m))"
    using assms by (auto simp: idle_runs_def vcpu_runs_def arch_vcpu_run_def virq_pass_def halts_at_def at_rest_def upd_ctxt_def)
qed

lemma idle_rounds: "at_rest m \<Longrightarrow> \<exists>mk. rounds idle_runs j k m = Done mk \<and> at_rest mk"
proof (induction k arbitrary: j m)
  case (Suc k)
  from Suc.prems obtain m' where "idle_runs j m = Done (0, m')" "at_rest m'" by (rule idle_run)
  with Suc.IH[of m' "j + 1"] show ?case by simp
qed simp

theorem vcpu_thread_ends_iff_witness:
  "\<exists>m'. vcpu_thread_entry idle_runs 1 2 (machine_at 0) = Some (Done (0, m', 1)) \<and> vm_status (vm m') = VM_STATE_HALT"
proof -
  have rest: "at_rest (machine_at 0)" by (simp add: at_rest_def machine_at_def devs_one_def vm_started_def vm_new_defs)
  have run: "\<exists>m'. idle_runs k m = Done (0, m') \<and> at_rest m' \<and> (k = 3 \<longrightarrow> vm_status (vm m') = VM_STATE_HALT)" if "at_rest m" for k m
    using that by (rule idle_run[where k = k]) auto
  have quiet: "\<not> sees_pending 1 (gic (devs m))" if "at_rest m" for m
    using that by (simp add: at_rest_def sees_pending_def virq_bit_of_def vgic_two_def gicr_new_def)
  have e: "runs_end idle_runs 0 (machine_at 0)" unfolding runs_end_def
  proof (intro allI impI)
    fix k mk assume "rounds idle_runs 0 k (machine_at 0) = Done mk"
    then have "at_rest mk" using idle_rounds[OF rest, of 0 k] by auto
    from run[OF this, of "0 + k"] show "\<exists>ret m'. idle_runs (0 + k) mk = Done (ret, m') \<and> \<not> vgic_lock (gic (devs m')) \<and> 32 \<le> VM_GLOBAL_VIRQ_NR (gic (devs m'))"
      by (auto simp: at_rest_def)
  qed
  obtain mk where mk: "rounds idle_runs 0 3 (machine_at 0) = Done mk" "at_rest mk" using idle_rounds[OF rest, of 0 3] by auto
  from run[OF mk(2), of 3] obtain m3 where "idle_runs 3 mk = Done (0, m3)" "stopped_idle 1 0 m3" using quiet by (auto simp: stopped_idle_def)
  with vcpu_thread_ends_iff[OF e, of 1 2] mk(1) obtain r where r: "vcpu_thread_entry idle_runs 1 2 (machine_at 0) = Some r" by auto
  with vcpu_thread_ends_iff[OF e, of 1 2] obtain k mk ret m' where
    "r = Done (ret, m', 2 - 1)" "rounds idle_runs 0 k (machine_at 0) = Done mk" "idle_runs k mk = Done (ret, m')" "stopped_idle 1 ret m'" by auto
  moreover from this idle_rounds[OF rest, of 0 k] run[of mk k] have "ret = 0" by auto
  ultimately show ?thesis using r by (auto simp: stopped_idle_def)
qed

text \<open>The number of the CPU is not the number of the vCPU: the thread does not see the interrupts of its own vCPU, but waits for those of another one.\<close>

lemma sees_other_vcpu:
  "vcpu_num g \<le> cpu \<Longrightarrow> \<not> sees_pending cpu g"
  "cpu < vcpu_num g \<Longrightarrow> irq < VM_GLOBAL_VIRQ_NR g \<Longrightarrow> virq_bit_of Pending cpu irq g \<Longrightarrow> sees_pending cpu g"
  by (auto simp: sees_pending_def)

section \<open>The interrupt for a deleted VM\<close>

text \<open>Every device interrupt of the vCPU is disabled; no other bit changes.\<close>

lemma disable_virqs_bits:
  assumes "\<not> vgic_lock g" "v < vcpu_num g" "v < 32"
  shows "\<exists>g'. disable_virqs v is g = Done g' \<and> \<not> vgic_lock g'
    \<and> (\<forall>b v' irq. virq_bit_of b v' irq g' \<longleftrightarrow> (if b = Enabled \<and> v' = v \<and> irq \<in> set is then False else virq_bit_of b v' irq g))"
  using assms
proof (induction "is" arbitrary: g)
  case (Cons i "is")
  define g1 where "g1 = (VGIC_UNSET_ENABLE i (push_bit v 1) (g\<lparr>vgic_lock := True\<rparr>))\<lparr>vgic_lock := False\<rparr>"
  have "vcpu_num (for_masked (\<lambda>n. VGIC_TEST_AND_SET Enabled n i 32 False) cm s) = vcpu_num s" for cm s
  proof -
    have "vcpu_num (fold (\<lambda>n st. if bit cm n then VGIC_TEST_AND_SET Enabled n i 32 False st else st) ns s) = vcpu_num s" for ns
      by (induction ns arbitrary: s) (simp_all add: VGIC_TEST_AND_SET_def)
    then show ?thesis by (simp add: for_masked_def)
  qed
  then have g1: "\<not> vgic_lock g1" "vcpu_num g1 = vcpu_num g" by (simp_all add: g1_def vgic_masked_defs)
  have bits: "virq_bit_of b v' irq g1 \<longleftrightarrow> (if b = Enabled \<and> v' = v \<and> irq = i then False else virq_bit_of b v' irq g)" for b v' irq
  proof -
    have "virq_bit_of b v' irq g1 = virq_bit_of b v' irq (VGIC_UNSET_ENABLE i (push_bit v 1) (g\<lparr>vgic_lock := True\<rparr>))"
      by (rule virq_bit_of_cong) (simp_all add: g1_def)
    also have "\<dots> \<longleftrightarrow> (if b = Enabled \<and> v' = v \<and> irq = i then False else virq_bit_of b v' irq (g\<lparr>vgic_lock := True\<rparr>))"
      using Cons.prems(2,3) by (auto simp: vgic_masked_defs virq_bit_of_masked bit_self)
    finally show ?thesis using virq_bit_of_cong[of "g\<lparr>vgic_lock := True\<rparr>" g] by simp
  qed
  have "disable_virqs v (i # is) g = disable_virqs v is g1"
    using Cons.prems(1,3) by (simp add: vgic_unset_enable_lock_def with_lock_def cpu_mask g1_def)
  moreover obtain g' where "disable_virqs v is g1 = Done g'" "\<not> vgic_lock g'"
      "\<forall>b v' irq. virq_bit_of b v' irq g' \<longleftrightarrow> (if b = Enabled \<and> v' = v \<and> irq \<in> set is then False else virq_bit_of b v' irq g1)"
    using Cons.IH[of g1] g1 Cons.prems(2,3) by auto
  ultimately show ?case using bits by auto
qed simp

lemma deleting_ipi:
  assumes "current_vcpu (gic (devs m)) = Some v" "ipi_for_vcpu v c m = Done (c1, m1)" "map_option deleting (vm_vcpus (vm m1) ! v) = Some True"
    "\<not> vgic_lock (gic (devs m1))" "v < vcpu_num (gic (devs m1))" "v < 32"
  shows "\<exists>g. zvm_ipi_handler SOC_QEMU mpidr (c, m, l) = Done (c1, upd_gic g m1, l) \<and> \<not> vgic_lock g
    \<and> (\<forall>b v' irq. virq_bit_of b v' irq g \<longleftrightarrow> (if b = Enabled \<and> v' = v \<and> 32 \<le> irq \<and> irq < VM_GLOBAL_VIRQ_NR (gic (devs m1)) then False
         else virq_bit_of b v' irq (gic (devs m1))))"
proof -
  obtain g where g: "disable_virqs v [32..<VM_GLOBAL_VIRQ_NR (gic (devs m1))] (gic (devs m1)) = Done g" "\<not> vgic_lock g"
    "\<forall>b v' irq. virq_bit_of b v' irq g \<longleftrightarrow> (if b = Enabled \<and> v' = v \<and> irq \<in> set [32..<VM_GLOBAL_VIRQ_NR (gic (devs m1))] then False
       else virq_bit_of b v' irq (gic (devs m1)))" using disable_virqs_bits[OF assms(4-6)] by blast
  have "zvm_ipi_handler SOC_QEMU mpidr (c, m, l) = Done (c1, upd_gic g m1, l)"
    using assms(1-3) g(1) by (simp add: zvm_ipi_handler_def ipi_cache_clean_def)
  then show ?thesis using g(2,3) by (intro exI[of _ g]) simp
qed

end
