(* ===== verification/Pt_Device.thy ===== *)
theory Pt_Device
  imports Zvm_Init
begin

text \<open>
  The drivers of devices that are passed through to a VM (\<^verbatim>\<open>pt_device_qemu_max.c\<close>, \<^verbatim>\<open>pt_device_roc_rk3568_pc.c\<close>) and the debugger of the Rockchip
  boards, whose interrupt is passed on (\<^verbatim>\<open>fiq_debugger.c\<close>). \<^verbatim>\<open>device_data\<close> of a device of the host is the address of a structure of a VM; a
  structure that is not in the list of the VM was freed. The configurations of both files have no special init function.
\<close>

section \<open>Passing a device through\<close>

datatype pt_board = Pt_qemu_max | Pt_rk3568

definition pass_through_device_init :: "host_device \<Rightarrow> host_device" where
  "pass_through_device_init d = d\<lparr>init_res := init_res d OR VM_DEVICE_INIT_RES\<rparr>"

text \<open>The structure is written before the pointer is tested. The message about an address that is there already is left out.\<close>

definition vm_ptdevice_init :: "pt_board \<Rightarrow> malloc_dev \<Rightarrow> host_device \<Rightarrow> z_virt_dev \<Rightarrow> vm_devs \<Rightarrow> (int \<times> vm_devs) outcome" where
  "vm_ptdevice_init b malloc d desc st =
    bind_outcome (allocate_device_to_vm malloc (hd_name d) (reg_base d) (reg_size d) (hirq_num d) desc True False st) (\<lambda>(r, st).
      case r of
        None \<Rightarrow> Fault
      | Some v \<Rightarrow>
          let st = upd_vdev (dev_ptr v) (\<lambda>e. e\<lparr>priv_data := Some (Host_device (hd_id d))\<rparr>) st
          in Done (0, if b = Pt_qemu_max \<and> device_data st (hd_id d) \<noteq> None then st
                      else st\<lparr>device_data := (device_data st)(hd_id d := Some (dev_ptr v))\<rparr>))"

text \<open>The table of the second board has no function that takes a device back.\<close>

definition pt_device_deinit :: "pt_board \<Rightarrow> z_virt_dev \<Rightarrow> vm_devs \<Rightarrow> (int \<times> vm_devs) outcome" where
  "pt_device_deinit b v st = (case b of
     Pt_qemu_max \<Rightarrow> (case vm_virt_dev_remove v st of (_, st) \<Rightarrow> Done (0, st))
   | Pt_rk3568 \<Rightarrow> Fault)"

section \<open>Interrupts\<close>

definition vdev_at :: "nat \<Rightarrow> vm_devs \<Rightarrow> z_virt_dev option" where
  "vdev_at p st = List.find (\<lambda>d. dev_ptr d = p) (vdev_list st)"

definition call_vdev :: "nat \<Rightarrow> vm_devs \<Rightarrow> vm_devs outcome" where
  "call_vdev p st = (case vdev_at p st of None \<Rightarrow> Fault | Some v \<Rightarrow> vm_device_callback_func v st)"

text \<open>\<^verbatim>\<open>special\<close> is the special interrupt function, if there is one. On the second board it gets the structure, which may be null.\<close>

definition pass_through_device_isr :: "(nat option \<Rightarrow> vm_devs \<Rightarrow> vm_devs outcome) option \<Rightarrow> nat \<Rightarrow> vm_devs \<Rightarrow> vm_devs outcome" where
  "pass_through_device_isr special h st =
    bind_outcome (case device_data st h of Some p \<Rightarrow> call_vdev p st | None \<Rightarrow> Done st) (\<lambda>st.
      case special of None \<Rightarrow> Done st | Some f \<Rightarrow> f (device_data st h) st)"

section \<open>The debugger\<close>

text \<open>All devices with the name of the debugger; an error is only reported.\<close>

fun inject_all :: "string \<Rightarrow> host_device list \<Rightarrow> vm_devs \<Rightarrow> vm_devs outcome" where
  "inject_all name [] st = Done st"
| "inject_all name (d # ds) st =
    (if hd_name d = name
     then bind_outcome (set_virq_to_vm (unat (hirq_num d)) (gic st)) (\<lambda>(_, g). inject_all name ds (st\<lparr>gic := g\<rparr>))
     else inject_all name ds st)"

text \<open>\<^verbatim>\<open>linux\<close> is whether the VM of the device runs Linux.\<close>

definition vm_debugger_softirq_inject :: "bool \<Rightarrow> string \<Rightarrow> host_device list \<Rightarrow> nat option \<Rightarrow> vm_devs \<Rightarrow> vm_devs outcome" where
  "vm_debugger_softirq_inject linux name ds user_data st = (case user_data of
     None \<Rightarrow> Fault
   | Some p \<Rightarrow> (case vdev_at p st of
       None \<Rightarrow> Fault
     | Some v \<Rightarrow> if dev_vm v = None then Fault else if \<not> linux then Done st else inject_all name ds st))"

text \<open>
  The structure is not cleared: \<^verbatim>\<open>junk\<close> is what was in it. The last component of the state is the argument of the callback, if
  interrupts of virtual devices are configured (\<^verbatim>\<open>driven\<close>).
\<close>

definition vm_fiq_debugger_init :: "bool \<Rightarrow> nat option \<Rightarrow> z_virt_dev \<Rightarrow> host_device \<Rightarrow> vm_devs \<times> nat option \<Rightarrow> (int \<times> vm_devs \<times> nat option) outcome" where
  "vm_fiq_debugger_init driven malloc junk d sc = (case (malloc, sc) of
     (None, _) \<Rightarrow> Done (- ENOMEM, sc)
   | (Some p, st, cb) \<Rightarrow>
       let n = unat (of_nat (length (hd_name d)) :: u16);
           name_len = (if VIRT_DEV_NAME_LENGTH < n then VIRT_DEV_NAME_LENGTH else n);
           v = junk\<lparr>dev_ptr := p, dev_name := take name_len (hd_name d), dev_pt_flag := True, dev_virq := hirq_num d, dev_hirq := hirq_num d,
             dev_vm := Some (vm_id st)\<rparr>
       in bind_outcome (vm_device_irq_init v (st\<lparr>vdev_list := vdev_list st @ [v]\<rparr>)) (\<lambda>st. Done (0, st, if driven then Some p else cb)))"

definition virt_fiq_debugger_isr :: "vm_devs \<times> nat option \<Rightarrow> (vm_devs \<times> nat option) outcome" where
  "virt_fiq_debugger_isr sc = (case sc of
     (st, None) \<Rightarrow> Done sc
   | (st, Some p) \<Rightarrow> bind_outcome (call_vdev p st) (\<lambda>st. Done (st, Some p)))"

text \<open>The device that a board adds to every VM, in the build with the debugger.\<close>

definition fiq_init_bdspecific_device :: "bool \<Rightarrow> nat option \<Rightarrow> z_virt_dev \<Rightarrow> string \<Rightarrow> host_device list \<Rightarrow> vm_devs \<times> nat option \<Rightarrow> (int \<times> vm_devs \<times> nat option) outcome" where
  "fiq_init_bdspecific_device driven malloc junk name ds sc = (case List.find (\<lambda>d. hd_name d = name) ds of
     None \<Rightarrow> Done (- 1, sc)
   | Some d \<Rightarrow> vm_fiq_debugger_init driven malloc junk d sc)"

definition fiq_debugger_init :: "host_device \<Rightarrow> host_device" where
  "fiq_debugger_init d = d\<lparr>init_res := VM_DEVICE_INIT_RES\<rparr>"

end
