(* ===== verification/Pt_Device_Props.thy ===== *)
theory Pt_Device_Props
  imports Pt_Device
begin

text \<open>
  The interrupt of a device that is passed through: where it goes while a VM has the device, and after the device was taken back.
\<close>

section \<open>The structure in the list of the VM\<close>

lemma vdev_at_last: "p \<notin> dev_ptr ` set ds \<Longrightarrow> vdev_list st = ds @ [d] \<Longrightarrow> dev_ptr d = p \<Longrightarrow> vdev_at p st = Some d"
proof -
  assume a: "p \<notin> dev_ptr ` set ds" "vdev_list st = ds @ [d]" "dev_ptr d = p"
  have "List.find (\<lambda>d. dev_ptr d = p) (ds @ [d]) = Some d" using a(1,3) by (induction ds) auto
  then show ?thesis using a(2) by (simp add: vdev_at_def)
qed

lemma vdev_at_removed: "dev_ptr v = p \<Longrightarrow> vdev_at p (snd (vm_virt_dev_remove v st)) = None"
  by (auto simp: vdev_at_def vm_virt_dev_remove_def Let_def find_None_iff split: option.split)

lemma removed_data: "device_data (snd (vm_virt_dev_remove v st)) = device_data st"
  by (simp add: vm_virt_dev_remove_def Let_def split: option.split)

text \<open>A device that was handed out: the host has the address of the last structure in the list, which belongs to the VM and has the interrupt of the device.\<close>

lemma handed_out:
  assumes "List.find (touches pa) (dev_idle_list st) = Some d" "dev_pt_flag d" "\<not> shareable d" "ptr \<notin> dev_ptr ` set (vdev_list st)"
    "unat (dev_virq d) < VM_GLOBAL_VIRQ_NR (gic st)" "unat (dev_hirq d) < VM_GLOBAL_VIRQ_NR (gic st)" "priv_data d = Some (Host_device h)"
  shows "\<exists>st' c. handle_vm_device_emulate (Some ptr, True, True) init_fn pa st = Done (0, st') \<and> device_data st' h = Some ptr
    \<and> vdev_at ptr st' = Some c \<and> dev_ptr c = ptr \<and> dev_virq c = dev_virq d \<and> dev_vm c \<noteq> None"
proof -
  define s0 where "s0 = st\<lparr>chosen_flag := True\<rparr>"
  define n where "n = new_dev ptr (dev_name d) True False (ucast (vm_vdev_paddr d)) (ucast (vm_vdev_vaddr d)) (vm_vdev_size d) s0"
  define c where "c = n\<lparr>dev_virq := dev_virq d, dev_hirq := dev_hirq d, dev_vm := Some (vm_id st)\<rparr>"
  obtain vd where vd: "vm_vdev_mem_add (True, True) n s0 = Done (0, s0\<lparr>vmem := vd\<rparr>)" using vm_vdev_mem_add_ok by blast
  have add: "vm_virt_dev_add (Some ptr, True, True) (dev_name d) True False (ucast (vm_vdev_paddr d)) (ucast (vm_vdev_vaddr d)) (vm_vdev_size d)
      (dev_hirq d) (dev_virq d) s0 = Done (Some c, st\<lparr>chosen_flag := True, vmem := vd, vdev_list := vdev_list st @ [c]\<rparr>)"
    by (simp add: vm_virt_dev_add_def vd Let_def n_def[symmetric] del: bind_outcome_Done_iff) (simp add: s0_def c_def)
  define s1 where "s1 = st\<lparr>chosen_flag := True, vmem := vd, vdev_list := vdev_list st @ [c],
    dev_idle_list := remove1 d (dev_idle_list st), dev_used_list := dev_used_list st @ [d\<lparr>dev_vm := Some (vm_id st)\<rparr>]\<rparr>"
  have c: "dev_ptr c = ptr" "dev_virq c = dev_virq d" "dev_hirq c = dev_hirq d" "dev_vm c = Some (vm_id st)" "dev_pt_flag c" "\<not> shareable c"
    by (simp_all add: c_def n_def new_dev_def)
  obtain s2 where s2: "vm_device_irq_init c s1 = Done s2" "vdev_list s2 = vdev_list st @ [c]"
    using vm_device_irq_init_ok[of c s1] assms(5,6) c(2,3) by (auto simp: s1_def)
  let ?e = "c\<lparr>priv_data := Some (Host_device h)\<rparr>"
  define s3 where "s3 = (upd_vdev ptr (\<lambda>_. ?e) (s2\<lparr>device_data := (device_data s2)(h := Some ptr)\<rparr>))\<lparr>device_ready := (device_ready s2)(h := True)\<rparr>"
  have "handle_vm_device_emulate (Some ptr, True, True) init_fn pa st = Done (bind_host_device init_fn h c s2)"
    using assms(1-3,7) add s2(1) by (simp add: handle_vm_device_emulate_def s0_def s1_def)
  also have "bind_host_device init_fn h c s2 = (0, s3)" using c by (simp add: bind_host_device_def s3_def Let_def upd_vdev_def)
  finally have run: "handle_vm_device_emulate (Some ptr, True, True) init_fn pa st = Done (0, s3)" .
  have "map (\<lambda>x. if dev_ptr x = ptr then ?e else x) (vdev_list st) = vdev_list st" using assms(4) by (intro map_idI) auto
  then have "vdev_list s3 = vdev_list st @ [?e]" using s2(2) c(1) by (simp add: s3_def upd_vdev_def)
  then have "vdev_at ptr s3 = Some ?e" using assms(4) c(1) by (intro vdev_at_last) simp_all
  moreover have "device_data s3 h = Some ptr" by (simp add: s3_def upd_vdev_def)
  ultimately show ?thesis using run c by (intro exI[of _ s3] exI[of _ ?e]) simp
qed

text \<open>
  C40: the interrupt of a device that is passed through. When a guest has touched an idle device and so got it, an interrupt of the device
  raises the virtual interrupt of the device in the VM. Taking the device back, as the deletion of the VM does, frees the
  structure but leaves its address with the device of the host: the next interrupt of the device follows a freed pointer. On
  the second board the device can not be taken back at all, because the function is missing in the table of the driver.
\<close>

theorem device_interrupt_after_return:
  assumes "List.find (touches pa) (dev_idle_list st) = Some d" "dev_pt_flag d" "\<not> shareable d" "ptr \<notin> dev_ptr ` set (vdev_list st)"
    "unat (dev_virq d) < VM_GLOBAL_VIRQ_NR (gic st)" "unat (dev_hirq d) < VM_GLOBAL_VIRQ_NR (gic st)" "priv_data d = Some (Host_device h)"
    "dev_virq d \<noteq> VM_DEVICE_INVALID_VIRQ"
  shows "\<exists>st' c. handle_vm_device_emulate (Some ptr, True, True) init_fn pa st = Done (0, st') \<and> vdev_at ptr st' = Some c
    \<and> pass_through_device_isr None h st' = bind_outcome (set_virq_to_vm (unat (dev_virq d)) (gic st')) (\<lambda>(_, g). Done (st'\<lparr>gic := g\<rparr>))
    \<and> (\<exists>st2. pt_device_deinit Pt_qemu_max c st' = Done (0, st2) \<and> pass_through_device_isr None h st2 = Fault)
    \<and> pt_device_deinit Pt_rk3568 c st' = Fault"
proof -
  obtain st' c where c: "handle_vm_device_emulate (Some ptr, True, True) init_fn pa st = Done (0, st')" "device_data st' h = Some ptr"
    "vdev_at ptr st' = Some c" "dev_ptr c = ptr" "dev_virq c = dev_virq d" "dev_vm c \<noteq> None"
    using handed_out[OF assms(1-7)] by blast
  from c(6) obtain i where vm: "dev_vm c = Some i" by blast
  have bind: "bind_outcome (bind_outcome r f) Done = bind_outcome r f" for r :: "(int \<times> vgic) outcome" and f :: "int \<times> vgic \<Rightarrow> vm_devs outcome"
  proof (cases r)
    case (Done x)
    then show ?thesis by (cases "f x") simp_all
  qed simp_all
  have "pass_through_device_isr None h st' = bind_outcome (set_virq_to_vm (unat (dev_virq d)) (gic st')) (\<lambda>(_, g). Done (st'\<lparr>gic := g\<rparr>))"
    using c(2,3,5) assms(8) bind vm by (simp add: pass_through_device_isr_def call_vdev_def vm_device_callback_func_def)
  moreover have "pt_device_deinit Pt_qemu_max c st' = Done (0, snd (vm_virt_dev_remove c st'))" by (simp add: pt_device_deinit_def split_beta)
  moreover have "pass_through_device_isr None h (snd (vm_virt_dev_remove c st')) = Fault"
    using c(2,4) by (simp add: pass_through_device_isr_def removed_data call_vdev_def vdev_at_removed)
  moreover have "pt_device_deinit Pt_rk3568 c st' = Fault" by (simp add: pt_device_deinit_def)
  ultimately show ?thesis using c(1,3) by blast
qed

theorem device_interrupt_after_return_witness:
  "\<exists>st' c st2. handle_vm_device_emulate (Some 5, True, True) (\<lambda>_ _ s. (0, s)) 0xA000010 devs_card = Done (0, st')
    \<and> pt_device_deinit Pt_qemu_max c st' = Done (0, st2) \<and> pass_through_device_isr None 0 st2 = Fault"
proof -
  have h: "List.find (touches 0xA000010) (dev_idle_list devs_card) = Some host_card" "dev_pt_flag host_card" "\<not> shareable host_card"
    "5 \<notin> dev_ptr ` set (vdev_list devs_card)" "unat (dev_virq host_card) < VM_GLOBAL_VIRQ_NR (gic devs_card)"
    "unat (dev_hirq host_card) < VM_GLOBAL_VIRQ_NR (gic devs_card)" "priv_data host_card = Some (Host_device 0)" "dev_virq host_card \<noteq> VM_DEVICE_INVALID_VIRQ"
    by (simp_all add: devs_card_def touches_def host_card_def vgic_two_def VM_DEVICE_INVALID_VIRQ_def)
  show ?thesis using device_interrupt_after_return[OF h, of "\<lambda>_ _ s. (0, s)"] by blast
qed

text \<open>A device that an earlier VM had is not bound to the new VM by the first driver: the stale address is kept.\<close>

lemma qemu_keeps_stale_data:
  assumes "vm_ptdevice_init Pt_qemu_max malloc d desc st = Done (0, st')" "device_data st (hd_id d) = Some p"
  shows "device_data st' (hd_id d) = Some p"
proof -
  have add: "device_data s' = device_data s" if "vm_virt_dev_add m n pt sh a b z i j s = Done (r, s')" for m n pt sh a b z i j s r s'
    using that by (auto simp: vm_virt_dev_add_def vm_vdev_mem_add_def Let_def split: option.splits if_splits)
  have irq: "device_data s' = device_data s" if "vm_device_irq_init v s = Done s'" for v s s'
    using that by (auto simp: vm_device_irq_init_def Let_def split: option.splits if_splits)
  have "device_data s' = device_data st" if "allocate_device_to_vm malloc (hd_name d) (reg_base d) (reg_size d) (hirq_num d) desc True False st = Done (r, s')" for r s'
  proof -
    from that obtain v s1 where "vm_virt_dev_add malloc (hd_name d) True False (ucast (reg_base d)) (ucast (vm_vdev_paddr desc)) (reg_size d) (hirq_num d)
        (dev_virq desc) st = Done (v, s1)" "s' = s1 \<or> (\<exists>x. vm_device_irq_init x s1 = Done s')"
      by (auto simp: allocate_device_to_vm_def split: option.splits)
    with add irq show ?thesis by metis
  qed
  then show ?thesis using assms by (auto simp: vm_ptdevice_init_def Let_def upd_vdev_def split: option.splits)
qed

end
