(* ===== verification/Spec2Isabelle.thy ===== *)
theory Spec2Isabelle
  imports Vmid Guest_Memory Vcpu_Alloc S2_Limits Vgic_Raise Vgic_Sync Vm_Mem_Access Vm_Commands Vm_Device_Props
    Zshm_Notify Vcpu_Run_Props Os_Config_Props Vm_Create_Props Timeout_Q_Props Vcpu_Context_Props Load_Image Vm_Cmd_Props Vm_Dev_Init_Props
    Zvm_System_Props Vcpu_Thread_Props Pt_Device_Props
begin

text \<open>
  \<^bold>\<open>ZVM, a hypervisor based on Zephyr: a verification development.\<close>

  ZVM runs virtual machines (VMs) on 64-bit Arm boards. A shell command creates a VM: it gets an identifier, a
  region of the guest memory, physical CPUs for its virtual CPUs (vCPUs), stage-2 translation tables, and virtual
  devices. Each vCPU is a thread of the kernel. It runs the guest until an interrupt or a trap, handles it and runs
  the guest again. Interrupts reach the guest through the list registers of a virtual interrupt controller. Further
  commands pause, resume and delete the VM.

  \<^bold>\<open>Conventions.\<close> Integers have the width of the C sources (\<^verbatim>\<open>u8\<close> to \<^verbatim>\<open>u64\<close> in \<^verbatim>\<open>ZVM_Prelude\<close>), error numbers are
  negative integers. An operation that may go wrong yields an \<^verbatim>\<open>outcome\<close>: \<^verbatim>\<open>Done\<close>, \<^verbatim>\<open>Fault\<close> for an access through a null,
  uninitialised or out-of-range pointer, or \<^verbatim>\<open>Assertion\<close> for a failed assertion and for taking a lock that is held.
  Results of k_malloc are arguments; configuration values are fields of the state. Definitions have the names of the
  C functions and structures.

  \<^bold>\<open>Interfaces.\<close> Each is a locale with the laws of the provider and the lemmas of the client, interpreted on the model.
  \<^item> \<^verbatim>\<open>Id_Pool\<close>: identifiers that are handed out and taken back. VM identifiers and units of shared memory.
  \<^item> \<^verbatim>\<open>Region_Pool\<close>: address regions that are handed out and taken back. The guest memory manager.
  \<^item> \<^verbatim>\<open>Address_Map\<close>: a translation to which ranges are added. The stage-2 tables, used by the memory domain.
  \<^item> \<^verbatim>\<open>Bit_Store\<close>: flags that are written one by one. The interrupt bits.
  \<^item> \<^verbatim>\<open>Vdev_Api\<close>: drivers that add devices to a VM and remove them. All drivers of virtual devices.
  \<^item> \<^verbatim>\<open>Byte_Queue\<close>: a queue between host and guest. The input of the serial port.

  \<^bold>\<open>Components.\<close>
  \<^item> \<^verbatim>\<open>Vmid\<close> (\<^verbatim>\<open>include/zephyr/zvm/zvm.h\<close>): the table of VMs and the search for a free identifier. No two VMs get the same
    identifier, a request succeeds exactly while one is free; with 32 VMs none is ever found.
  \<^item> \<^verbatim>\<open>Guest_Memory\<close> (\<^verbatim>\<open>subsys/zvm/os.c\<close>): the first-fit allocator. Regions in use are disjoint and inside the memory, the
    check in front of it is exact, freeing merges and restores the map; a full table of blocks loses memory.
  \<^item> \<^verbatim>\<open>Vcpu_Alloc\<close> (\<^verbatim>\<open>subsys/zvm/vm_cpu.c\<close>, first part): placement of vCPUs. Real-time vCPUs have a CPU of their own, the
    check in front is exact, a release frees one slot.
  \<^item> \<^verbatim>\<open>S2_MMU\<close>, \<^verbatim>\<open>S2_Walk\<close>, \<^verbatim>\<open>S2_Map\<close>, \<^verbatim>\<open>S2_Limits\<close> (\<^verbatim>\<open>arch/arm64/core/zvm/mmu.c\<close>): the stage-2 tables as trees of descriptors, and
    the walk of the hardware as specification. Mapping a fresh range makes exactly its addresses translate and keeps
    the tables well-formed. The last theory shows where device mappings, overwriting and freeing of tables fail.
  \<^item> \<^verbatim>\<open>Vm_Mem\<close>, \<^verbatim>\<open>Vm_Mem_Props\<close>, \<^verbatim>\<open>Vm_Mem_Access\<close> (\<^verbatim>\<open>subsys/zvm/vm_mm.c\<close>): partitions of a VM, translation by software,
    access from the host. Partitions never overlap, software and tables agree except at the end of a partition, and
    accesses stay in their windows.
  \<^item> \<^verbatim>\<open>Vgic\<close> and the theories \<^verbatim>\<open>Vgic_Bits\<close>, \<^verbatim>\<open>Vgic_Lists\<close>, \<^verbatim>\<open>Vgic_Flush\<close>, \<^verbatim>\<open>Vgic_Raise\<close>, \<^verbatim>\<open>Vgic_Sync\<close> (\<^verbatim>\<open>subsys/zvm/vdev/vgic_v3.c\<close>,
    \<^verbatim>\<open>vgic_common.c\<close> and their headers): registers, address decoding, injection, flush and synchronisation of list
    registers, software generated interrupts, saving of the state.
  \<^item> \<^verbatim>\<open>Vm_Life\<close>, \<^verbatim>\<open>Vm_Life_Props\<close>, \<^verbatim>\<open>Vm_Commands\<close> (\<^verbatim>\<open>vm_cpu.c\<close>, \<^verbatim>\<open>vm.c\<close>, \<^verbatim>\<open>vm_manager.c\<close> of \<^verbatim>\<open>subsys/zvm\<close>): states of vCPUs and their
    threads, the commands run, pause and delete. The invariant ties state and thread; two command sequences that
    get stuck are shown.
  \<^item> \<^verbatim>\<open>Os_Config\<close>, \<^verbatim>\<open>Os_Config_Props\<close> (\<^verbatim>\<open>subsys/zvm/os.c\<close>, second part): the configuration of a guest from templates and options.
    It takes an identifier, memory and CPUs that fit, or leaves everything as it was; without memory it frees the
    region of another VM.
  \<^item> \<^verbatim>\<open>Vm_Create\<close>, \<^verbatim>\<open>Vm_Create_Props\<close> (\<^verbatim>\<open>vm.c\<close>, \<^verbatim>\<open>vm_cpu.c\<close>, \<^verbatim>\<open>vm_manager.c\<close>): the creation of a VM from its configuration. The
    check of the configuration is enough for every vCPU to get a CPU, and the life of the VM can start.
  \<^item> \<^verbatim>\<open>Vserial\<close>, \<^verbatim>\<open>Vserial_Props\<close> (\<^verbatim>\<open>subsys/zvm/vdev/vpl011.c\<close>): the serial port. Input arrives complete and in order while
    it fits.
  \<^item> \<^verbatim>\<open>Vm_Device\<close>, \<^verbatim>\<open>Vm_Device_Props\<close> (\<^verbatim>\<open>subsys/zvm/vm_device.c\<close>, \<^verbatim>\<open>vm_irq.c\<close>): devices of VMs and of the host. A device goes to
    one VM and comes back.
  \<^item> \<^verbatim>\<open>Vm_Dev_Init\<close>, \<^verbatim>\<open>Vm_Dev_Init_Props\<close> (\<^verbatim>\<open>vm_device.c\<close> and the drivers under \<^verbatim>\<open>subsys/zvm/vdev\<close>): the devices that every VM gets. Each driver
    adds its devices, and all of them are removed with the VM, except windows of shared memory that have no driver.
  \<^item> \<^verbatim>\<open>Zshm\<close>, \<^verbatim>\<open>Zshm_Props\<close>, \<^verbatim>\<open>Zshm_Notify\<close> (\<^verbatim>\<open>subsys/zvm/vdev/zshm.c\<close>): units of shared memory and notifications. A message
    reaches exactly the receivers that run; with fewer than 64 units every allocation leaves the bitmap.
  \<^item> \<^verbatim>\<open>Vcpu_Trap\<close>, \<^verbatim>\<open>Vcpu_Run\<close>, \<^verbatim>\<open>Vcpu_Run_Props\<close> (\<^verbatim>\<open>arch/arm64/core/zvm/switch.c\<close>, \<^verbatim>\<open>timer.c\<close>, \<^verbatim>\<open>virt_psci.c\<close>, \<^verbatim>\<open>vm_irq.c\<close>): the
    state that joins all components, and every trap of a guest. A load from the console delivers the next byte, a
    power call starts a vCPU at its address, an access to a timer register faults.

  \<^item> \<^verbatim>\<open>Vcpu_Context\<close>, \<^verbatim>\<open>Vcpu_Context_Props\<close> (\<^verbatim>\<open>arch/arm64/core/zvm/cpu.c\<close>, \<^verbatim>\<open>hyp_entry.S\<close>, \<^verbatim>\<open>timer.c\<close>): the registers of guest and host
    around a run and between vCPUs. The registers of each side survive the other; a new guest starts at its entry point.
  \<^item> \<^verbatim>\<open>Load_Image\<close> (\<^verbatim>\<open>os.c\<close>, \<^verbatim>\<open>zvm.c\<close>): the copies of image, device tree and root file system. A configured guest can be loaded,
    and loading it changes no byte of another guest.
  \<^item> \<^verbatim>\<open>Cmd_Args\<close>, \<^verbatim>\<open>Cmd_Args_Props\<close> (\<^verbatim>\<open>strtol.c\<close> and \<^verbatim>\<open>getopt.c\<close> under \<^verbatim>\<open>lib\<close>): numbers and options. \<^verbatim>\<open>strtol\<close> gives the value of the digits,
    cut to the range of the result; scanning options ends.
  \<^item> \<^verbatim>\<open>Vm_Cmd\<close>, \<^verbatim>\<open>Vm_Cmd_Props\<close> (\<^verbatim>\<open>vm_manager.c\<close>, \<^verbatim>\<open>zvm_shell.c\<close>): the commands of the shell, from the words of a line to the operation on a VM. A
    command acts on the VM of its number only; the options of a new VM are understood in any valid order.
  \<^item> \<^verbatim>\<open>Vconsole\<close>, \<^verbatim>\<open>Vconsole_Props\<close> (\<^verbatim>\<open>vserial.c\<close>): the console of the host and the serial ports of the VMs. What is typed reaches the VM that is
    looked at and no other one.
  \<^item> \<^verbatim>\<open>Sys_Dlist\<close> (\<^verbatim>\<open>include/zephyr/sys/dlist.h\<close>): the linked lists of the kernel on a heap of nodes, which implement lists.
  \<^item> \<^verbatim>\<open>Timeout_Q\<close>, \<^verbatim>\<open>Timeout_Q_Props\<close> (\<^verbatim>\<open>kernel/timeout.c\<close>): the timeouts of the kernel on such a list, with differences of ticks. They
    implement an agenda ordered by time; an announcement ends and calls what is due, in order and at its tick.
  \<^item> \<^verbatim>\<open>Zvm_Init\<close>, \<^verbatim>\<open>Zvm_Init_Props\<close> (\<^verbatim>\<open>zvm.c\<close>, \<^verbatim>\<open>arch/arm64/core/zvm/cpu.c\<close>): the start of the hypervisor and the flags for cleaning caches. After a start that
    succeeds the invariants of the tables of VMs, CPUs and guest memory hold, and the idle devices are those that wait for a VM.
  \<^item> \<^verbatim>\<open>Vcpu_Thread\<close>, \<^verbatim>\<open>Vcpu_Thread_Props\<close> (\<^verbatim>\<open>vm_cpu.c\<close>, \<^verbatim>\<open>zvm.c\<close>, \<^verbatim>\<open>vm.c\<close>): the loop of the thread of a vCPU and the interrupt between CPUs. The thread
    ends exactly when a run fails or finds the VM halted while no interrupt is pending for the number of its CPU.
  \<^item> \<^verbatim>\<open>Pt_Device\<close>, \<^verbatim>\<open>Pt_Device_Props\<close> (\<^verbatim>\<open>pt_device_qemu_max.c\<close>, \<^verbatim>\<open>pt_device_roc_rk3568_pc.c\<close>, \<^verbatim>\<open>fiq_debugger.c\<close>): drivers of devices that are passed through. The
    interrupt of a device reaches its VM; after the device was taken back it follows a freed pointer.
  \<^item> \<^verbatim>\<open>Zvm_System\<close>, \<^verbatim>\<open>Zvm_System_Props\<close>: all VMs together, with the commands of the shell and the steps of VMs from the start on. In every state that
    is reached, the memory regions of two VMs are disjoint, inside the guest memory and allocated.

  \<^bold>\<open>Loops and bounds.\<close> Loops that follow pointers are partial functions with a theorem that they return. All other loops are recursive functions with proved termination; there is no fuel.
  The thread of a vCPU may run for ever; it is shown when it ends. The loop of \<^verbatim>\<open>find_next_vmid\<close>
  ends because its bit is shifted out, that of \<^verbatim>\<open>vm_set_mapping\<close> because the remaining size falls, and the wait for
  vCPU threads because of its counter. Loops over arrays are structural in the list of indices.

  \<^bold>\<open>Not modelled.\<close> The instructions of the entry and exit code, of which the effect on the registers is modelled; the branches without
  VHE. The device tree, whose values are arguments; of the shell, the editing of a line, the
  management client and the SD card, and of the console, the output: input and output of the host. Virtio and the drivers of shared host devices, which are not part of the sources. Cache maintenance, barriers and printing. The tables of device
  instances of single boards and \<^verbatim>\<open>vm_ops_test.c\<close>, which is a test. Interleavings inside an operation: each
  operation is one step, as the locks of the code make it, and a lock that is left held shows as an outcome.
\<close>

end
